(* ===== verification/Prelude.thy ===== *)
theory Prelude
  imports Main "HOL-Library.Word"
begin

text \<open>
  Shared vocabulary of the development: Go's machine types, byte strings and their fixed-width
  encodings (package \<^verbatim>\<open>encoding/binary\<close>), the result type that stands for a Go
  \<^verbatim>\<open>(value, error)\<close> pair, and the interface of a self-delimiting encoder (locale
  \<open>prefix_code\<close>), which the audit canonical format, the signed digests and the MySQL row
  codec all rely on.
\<close>

unbundle bit_operations_syntax

named_theorems codec_simps "equations of encoders and decoders on constructors"
named_theorems result_simps "equations of the result type"

subsection \<open>Machine types\<close>

text \<open>
  A Go \<^verbatim>\<open>byte\<close> is an 8-bit word and a \<^verbatim>\<open>[]byte\<close> a list of them; a nil slice
  is the empty list, which every consumer modelled here treats alike. A Go
  \<^verbatim>\<open>string\<close> is a byte string too, and is kept as HOL's \<open>string\<close> (HOL characters are
  the 256 bytes). An \<^verbatim>\<open>int64\<close> is an \<open>int\<close>; the places where arithmetic on it can
  leave the range write \<open>wrap64\<close>.
\<close>

type_synonym byte = "8 word"
type_synonym bytes = "8 word list"
type_synonym int64 = int

definition is_int64 :: "int \<Rightarrow> bool" where
  "is_int64 n \<longleftrightarrow> - (2 ^ 63) \<le> n \<and> n < 2 ^ 63"

definition is_int32 :: "int \<Rightarrow> bool" where
  "is_int32 n \<longleftrightarrow> - (2 ^ 31) \<le> n \<and> n < 2 ^ 31"

definition wrap64 :: "int \<Rightarrow> int" where
  "wrap64 n = sint (word_of_int n :: 64 word)"

lemma wrap64_eq: "wrap64 n = (n + 2 ^ 63) mod 2 ^ 64 - 2 ^ 63"
  by (simp add: wrap64_def int_word_sint)

lemma wrap64_id [simp]: "is_int64 n \<Longrightarrow> wrap64 n = n"
  by (simp add: wrap64_eq is_int64_def)

lemma is_int64_wrap64 [simp]: "is_int64 (wrap64 n)"
  by (simp add: wrap64_eq is_int64_def)

lemma word_of_int64_inj:
  assumes "is_int64 m" "is_int64 n" "(word_of_int m :: 64 word) = word_of_int n"
  shows "m = n"
proof -
  have "wrap64 m = wrap64 n"
    using assms(3) by (simp add: wrap64_def)
  with assms(1,2) show ?thesis by simp
qed

lemma sint32_word_of_int: "is_int32 k \<Longrightarrow> sint (word_of_int k :: 32 word) = k"
  unfolding is_int32_def sint_sbintrunc' by (rule signed_take_bit_int_eq_self) simp_all

lemma word_of_int32_inj:
  assumes "is_int32 m" "is_int32 n" "(word_of_int m :: 32 word) = word_of_int n"
  shows "m = n"
  using sint32_word_of_int[OF assms(1)] sint32_word_of_int[OF assms(2)] assms(3) by metis

subsection \<open>Strings as bytes\<close>

definition byte_of_char :: "char \<Rightarrow> byte" where
  "byte_of_char c = of_char c"

definition char_of_byte :: "byte \<Rightarrow> char" where
  "char_of_byte b = char_of (unat b)"

definition str_bytes :: "string \<Rightarrow> bytes" where
  "str_bytes s = map byte_of_char s"

definition bytes_str :: "bytes \<Rightarrow> string" where
  "bytes_str b = map char_of_byte b"

lemma unat_byte_of_char: "unat (byte_of_char c) = of_char c"
proof -
  have "(of_char c :: nat) < 256" by simp
  moreover have "byte_of_char c = word_of_nat (of_char c)"
    unfolding byte_of_char_def by (simp add: of_nat_of_char)
  ultimately show ?thesis by (simp add: unat_of_nat)
qed

lemma char_of_byte_of_char [simp]: "char_of_byte (byte_of_char c) = c"
  by (simp add: char_of_byte_def unat_byte_of_char)

lemma byte_of_char_of_byte [simp]: "byte_of_char (char_of_byte b) = b"
proof -
  have "unat b < 256" using unsigned_less[of b, where ?'a = nat] by simp
  then have "unat (byte_of_char (char_of_byte b)) = unat b"
    by (simp add: unat_byte_of_char char_of_byte_def)
  then show ?thesis by (simp add: word_unat_eq_iff)
qed

lemma bytes_str_str_bytes [simp]: "bytes_str (str_bytes s) = s"
  by (simp add: bytes_str_def str_bytes_def comp_def)

lemma str_bytes_bytes_str [simp]: "str_bytes (bytes_str b) = b"
  by (simp add: bytes_str_def str_bytes_def comp_def)

lemma length_str_bytes [simp]: "length (str_bytes s) = length s"
  by (simp add: str_bytes_def)

lemma length_bytes_str [simp]: "length (bytes_str b) = length b"
  by (simp add: bytes_str_def)

lemma str_bytes_eq_iff [simp]: "str_bytes s = str_bytes t \<longleftrightarrow> s = t"
  by (metis bytes_str_str_bytes)

lemma inj_str_bytes: "inj str_bytes"
  by (simp add: inj_def)

subsection \<open>Fixed-width integers as bytes\<close>

text \<open>
  \<open>le_bytes n w\<close> are the \<open>n\<close> low bytes of \<open>w\<close>, least significant first, as
  \<^verbatim>\<open>binary.LittleEndian.PutUint*\<close> writes them; \<open>be_bytes\<close> is the big-endian order, and
  \<open>le_val\<close> reads a little-endian run back.
\<close>

fun le_bytes :: "nat \<Rightarrow> 'a::len word \<Rightarrow> bytes" where
  "le_bytes 0 w = []"
| "le_bytes (Suc n) w = ucast w # le_bytes n (drop_bit 8 w)"

definition be_bytes :: "nat \<Rightarrow> 'a::len word \<Rightarrow> bytes" where
  "be_bytes n w = rev (le_bytes n w)"

fun le_val :: "bytes \<Rightarrow> 'a::len word" where
  "le_val [] = 0"
| "le_val (b # bs) = ucast b OR push_bit 8 (le_val bs)"

lemma length_le_bytes [simp]: "length (le_bytes n w) = n"
  by (induction n arbitrary: w) auto

lemma length_be_bytes [simp]: "length (be_bytes n w) = n"
  by (simp add: be_bytes_def)

lemma le_val_le_bytes: "le_val (le_bytes n w) = take_bit (8 * n) (w :: 'a::len word)"
proof (induction n arbitrary: w)
  case 0
  then show ?case by simp
next
  case (Suc n)
  have "ucast (ucast w :: byte) OR push_bit 8 (take_bit (8 * n) (drop_bit 8 w))
      = take_bit (8 * Suc n) w"
    by (rule bit_word_eqI)
      (auto simp: bit_or_iff bit_push_bit_iff bit_take_bit_iff bit_drop_bit_eq
        bit_ucast_iff not_less)
  with Suc show ?case by simp
qed

lemma le_bytes_inj:
  "LENGTH('a) \<le> 8 * n \<Longrightarrow> le_bytes n (v :: 'a::len word) = le_bytes n w \<longleftrightarrow> v = w"
  by (metis le_val_le_bytes take_bit_word_eq_self)

lemma be_bytes_inj:
  "LENGTH('a) \<le> 8 * n \<Longrightarrow> be_bytes n (v :: 'a::len word) = be_bytes n w \<longleftrightarrow> v = w"
  by (simp add: be_bytes_def le_bytes_inj)

lemma be32_inj [simp]: "be_bytes 4 (v :: 32 word) = be_bytes 4 w \<longleftrightarrow> v = w"
  by (rule be_bytes_inj) simp

lemma be64_inj [simp]: "be_bytes 8 (v :: 64 word) = be_bytes 8 w \<longleftrightarrow> v = w"
  by (rule be_bytes_inj) simp

lemma word32_of_nat_inj:
  "m < 2 ^ 32 \<Longrightarrow> n < 2 ^ 32 \<Longrightarrow> (word_of_nat m :: 32 word) = word_of_nat n \<longleftrightarrow> m = n"
  by (simp add: word_of_nat_eq_iff take_bit_nat_eq_self)

lemma word64_of_nat_inj:
  "m < 2 ^ 64 \<Longrightarrow> n < 2 ^ 64 \<Longrightarrow> (word_of_nat m :: 64 word) = word_of_nat n \<longleftrightarrow> m = n"
  by (simp add: word_of_nat_eq_iff take_bit_nat_eq_self)

subsection \<open>Self-delimiting encoders\<close>

text \<open>
  An encoder is self-delimiting on its well-formed values when a stream that starts with an
  encoding determines the value and where the encoding ends. Encoders written one after the other
  then determine every field: this is what "no two distinct field sets can hash to the same
  preimage by concatenation" means.
\<close>

locale prefix_code =
  fixes enc :: "'a \<Rightarrow> 'b list" and ok :: "'a \<Rightarrow> bool"
  assumes unique: "\<lbrakk>ok x; ok y; enc x @ r = enc y @ s\<rbrakk> \<Longrightarrow> x = y \<and> r = s"
begin

lemma append_eq_iff [codec_simps]:
  "ok x \<Longrightarrow> ok y \<Longrightarrow> enc x @ r = enc y @ s \<longleftrightarrow> x = y \<and> r = s"
  using unique by blast

lemma enc_inj: "ok x \<Longrightarrow> ok y \<Longrightarrow> enc x = enc y \<Longrightarrow> x = y"
  using unique[of x y "[]" "[]"] by simp

lemma concat_unique:
  "\<lbrakk>list_all ok xs; list_all ok ys; length xs = length ys;
    concat (map enc xs) @ r = concat (map enc ys) @ s\<rbrakk> \<Longrightarrow> xs = ys \<and> r = s"
proof (induction xs arbitrary: ys)
  case Nil
  then show ?case by simp
next
  case (Cons x xs)
  then obtain y zs where ys: "ys = y # zs" by (cases ys) auto
  with Cons.prems have "ok x" "ok y"
    and "enc x @ (concat (map enc xs) @ r) = enc y @ (concat (map enc zs) @ s)"
    by auto
  then have "x = y" and "concat (map enc xs) @ r = concat (map enc zs) @ s"
    using unique by blast+
  with Cons ys show ?case by auto
qed

end

text \<open>A fixed-width injective encoder is self-delimiting.\<close>

lemma fixed_width_prefix_code:
  assumes "\<And>x. ok x \<Longrightarrow> length (enc x) = n"
    and "\<And>x y. ok x \<Longrightarrow> ok y \<Longrightarrow> enc x = enc y \<Longrightarrow> x = y"
  shows "prefix_code enc ok"
proof
  fix x y r s
  assume ok: "ok x" "ok y" and eq: "enc x @ r = enc y @ s"
  then have "length (enc x) = length (enc y)" using assms(1) by simp
  with eq have "enc x = enc y" "r = s" by auto
  with ok assms(2) show "x = y \<and> r = s" by blast
qed

text \<open>A length prefix makes any byte string self-delimiting.\<close>

lemma length_prefix_code:
  assumes len: "\<And>x y. ok x \<Longrightarrow> ok y \<Longrightarrow> hdr (length (body x)) = hdr (length (body y))
      \<Longrightarrow> length (body x) = length (body y)"
    and hdr: "\<And>n. length (hdr n) = k"
    and body: "\<And>x y. ok x \<Longrightarrow> ok y \<Longrightarrow> body x = body y \<Longrightarrow> x = y"
  shows "prefix_code (\<lambda>x. hdr (length (body x)) @ body x) ok"
proof
  fix x y r s
  assume ok: "ok x" "ok y"
    and eq: "(hdr (length (body x)) @ body x) @ r = (hdr (length (body y)) @ body y) @ s"
  from eq have "hdr (length (body x)) = hdr (length (body y))"
    and rest: "body x @ r = body y @ s"
    using hdr by (simp_all add: append_eq_append_conv)
  with ok len have "length (body x) = length (body y)" by blast
  with rest have "body x = body y" "r = s" by auto
  with ok body show "x = y \<and> r = s" by blast
qed

subsection \<open>Results\<close>

text \<open>
  A Go function returning \<^verbatim>\<open>(T, error)\<close> is a sum: \<open>Inl\<close> the error, \<open>Inr\<close> the value.
  \<open>rbind\<close> is the \<^verbatim>\<open>if err != nil { return err }\<close> that follows a call.
\<close>

type_synonym ('e, 'a) result = "'e + 'a"

definition rbind :: "('e, 'a) result \<Rightarrow> ('a \<Rightarrow> ('e, 'b) result) \<Rightarrow> ('e, 'b) result" where
  "rbind m f = (case m of Inl e \<Rightarrow> Inl e | Inr a \<Rightarrow> f a)"

lemma rbind_Inl [simp, result_simps]: "rbind (Inl e) f = Inl e"
  by (simp add: rbind_def)

lemma rbind_Inr [simp, result_simps]: "rbind (Inr a) f = f a"
  by (simp add: rbind_def)

lemma rbind_eq_Inr_iff [result_simps]:
  "rbind m f = Inr b \<longleftrightarrow> (\<exists>a. m = Inr a \<and> f a = Inr b)"
  by (cases m) auto

lemma rbind_cong [fundef_cong]:
  "m = n \<Longrightarrow> (\<And>a. n = Inr a \<Longrightarrow> f a = g a) \<Longrightarrow> rbind m f = rbind n g"
  by (cases n) auto

end
