(* ===== verification/Sha256.thy ===== *)
theory Sha256
  imports Prelude
begin

text \<open>
  SHA-256 (FIPS 180-4), the function of Go's \<^verbatim>\<open>crypto/sha256\<close> that the audit chain, the
  anchor and acceptance digests and the statement fingerprint are built on. The definition is
  executable. No theorem of the development assumes that it has no collisions, which is false of
  every function into 32 bytes: the tamper-evidence theorems exhibit a collision instead.
\<close>

definition sha256_K :: "32 word list" where
  "sha256_K =
    [1116352408, 1899447441, 3049323471, 3921009573,
     961987163, 1508970993, 2453635748, 2870763221,
     3624381080, 310598401, 607225278, 1426881987,
     1925078388, 2162078206, 2614888103, 3248222580,
     3835390401, 4022224774, 264347078, 604807628,
     770255983, 1249150122, 1555081692, 1996064986,
     2554220882, 2821834349, 2952996808, 3210313671,
     3336571891, 3584528711, 113926993, 338241895,
     666307205, 773529912, 1294757372, 1396182291,
     1695183700, 1986661051, 2177026350, 2456956037,
     2730485921, 2820302411, 3259730800, 3345764771,
     3516065817, 3600352804, 4094571909, 275423344,
     430227734, 506948616, 659060556, 883997877,
     958139571, 1322822218, 1537002063, 1747873779,
     1955562222, 2024104815, 2227730452, 2361852424,
     2428436474, 2756734187, 3204031479, 3329325298]"

definition sha256_H0 :: "32 word list" where
  "sha256_H0 =
    [1779033703, 3144134277, 1013904242, 2773480762,
     1359893119, 2600822924, 528734635, 1541459225]"

definition ror32 :: "nat \<Rightarrow> 32 word \<Rightarrow> 32 word" where
  "ror32 n w = drop_bit n w OR push_bit (32 - n) w"

definition sha256_pad :: "bytes \<Rightarrow> bytes" where
  "sha256_pad m =
    (let k = (119 - length m mod 64) mod 64
     in m @ [0x80] @ replicate k 0 @ be_bytes 8 (word_of_nat (8 * length m) :: 64 word))"

definition be_word :: "bytes \<Rightarrow> 32 word" where
  "be_word bs = foldl (\<lambda>acc b. push_bit 8 acc OR ucast b) 0 bs"

fun block_words :: "nat \<Rightarrow> bytes \<Rightarrow> 32 word list" where
  "block_words 0 bs = []"
| "block_words (Suc n) bs = be_word (take 4 bs) # block_words n (drop 4 bs)"

text \<open>The message schedule, newest word first.\<close>

fun schedule :: "nat \<Rightarrow> 32 word list \<Rightarrow> 32 word list" where
  "schedule 0 ws = ws"
| "schedule (Suc n) ws =
    (let w15 = ws ! 14; w2 = ws ! 1;
         s0 = ror32 7 w15 XOR ror32 18 w15 XOR drop_bit 3 w15;
         s1 = ror32 17 w2 XOR ror32 19 w2 XOR drop_bit 10 w2
     in schedule n ((ws ! 15 + s0 + ws ! 6 + s1) # ws))"

type_synonym sha_state =
  "32 word \<times> 32 word \<times> 32 word \<times> 32 word \<times> 32 word \<times> 32 word \<times> 32 word \<times> 32 word"

fun sha256_round :: "32 word \<times> 32 word \<Rightarrow> sha_state \<Rightarrow> sha_state" where
  "sha256_round (k, w) (a, b, c, d, e, f, g, h) =
    (let s1 = ror32 6 e XOR ror32 11 e XOR ror32 25 e;
         ch = (e AND f) XOR (NOT e AND g);
         t1 = h + s1 + ch + k + w;
         s0 = ror32 2 a XOR ror32 13 a XOR ror32 22 a;
         maj = (a AND b) XOR (a AND c) XOR (b AND c);
         t2 = s0 + maj
     in (t1 + t2, a, b, c, d + t1, e, f, g))"

fun sha_add :: "sha_state \<Rightarrow> sha_state \<Rightarrow> sha_state" where
  "sha_add (a, b, c, d, e, f, g, h) (a', b', c', d', e', f', g', h') =
    (a + a', b + b', c + c', d + d', e + e', f + f', g + g', h + h')"

definition sha256_block :: "sha_state \<Rightarrow> bytes \<Rightarrow> sha_state" where
  "sha256_block st blk =
    sha_add st (fold sha256_round
      (zip sha256_K (rev (schedule 48 (rev (block_words 16 blk))))) st)"

fun sha256_blocks :: "nat \<Rightarrow> bytes \<Rightarrow> sha_state \<Rightarrow> sha_state" where
  "sha256_blocks 0 bs st = st"
| "sha256_blocks (Suc n) bs st = sha256_blocks n (drop 64 bs) (sha256_block st (take 64 bs))"

definition sha256_init :: sha_state where
  "sha256_init = (sha256_H0 ! 0, sha256_H0 ! 1, sha256_H0 ! 2, sha256_H0 ! 3,
     sha256_H0 ! 4, sha256_H0 ! 5, sha256_H0 ! 6, sha256_H0 ! 7)"

fun sha256_out :: "sha_state \<Rightarrow> bytes" where
  "sha256_out (a, b, c, d, e, f, g, h) = concat (map (be_bytes 4) [a, b, c, d, e, f, g, h])"

definition sha256 :: "bytes \<Rightarrow> bytes" where
  "sha256 m =
    (let p = sha256_pad m in sha256_out (sha256_blocks (length p div 64) p sha256_init))"

lemma length_sha256_out [simp]: "length (sha256_out st) = 32"
  by (cases st rule: sha256_out.cases) simp

lemma length_sha256 [simp]: "length (sha256 m) = 32"
  by (simp add: sha256_def Let_def)

text \<open>Padding fills whole 64-byte blocks, so no byte of the message is left out of the walk.\<close>

lemma sha256_pad_blocks: "length (sha256_pad m) mod 64 = 0"
proof -
  define r where "r = length m mod 64"
  have r: "r < 64" and m: "length m = 64 * (length m div 64) + r"
    by (simp_all add: r_def)
  have "length (sha256_pad m) = 64 * (length m div 64) + (r + (9 + (119 - r) mod 64))"
    using m by (simp add: sha256_pad_def Let_def r_def)
  also have "\<dots> mod 64 = (r + (9 + (119 - r) mod 64)) mod 64"
    by simp
  also have "\<dots> = (r + 9 + (119 - r)) mod 64"
    by (simp add: mod_add_right_eq flip: add.assoc)
  also have "\<dots> = 0" using r by simp
  finally show ?thesis .
qed

text \<open>
  A collision: two different inputs with the same digest. Collisions exist, so "there is a
  collision" alone would say nothing; \<open>sha256_collision_in\<close> names the finitely many inputs among
  which one would have to be.
\<close>

definition sha256_collision :: "bytes \<Rightarrow> bytes \<Rightarrow> bool" where
  "sha256_collision x y \<longleftrightarrow> x \<noteq> y \<and> sha256 x = sha256 y"

definition sha256_collision_in :: "bytes set \<Rightarrow> bytes set \<Rightarrow> bool" where
  "sha256_collision_in A B \<longleftrightarrow> (\<exists>x\<in>A. \<exists>y\<in>B. sha256_collision x y)"

lemma sha256_eq_cases: "sha256 x = sha256 y \<Longrightarrow> x = y \<or> sha256_collision x y"
  by (auto simp: sha256_collision_def)

lemma sha256_collision_in_mono:
  "sha256_collision_in A B \<Longrightarrow> A \<subseteq> A' \<Longrightarrow> B \<subseteq> B' \<Longrightarrow> sha256_collision_in A' B'"
  by (auto simp: sha256_collision_in_def)

end
