(* ===== verification/Canon.thy ===== *)
theory Canon
  imports Sha256 "HOL-Library.List_Lexorder" "HOL-Library.Multiset"
begin

text \<open>
  The canonical byte format of audit events (\<^verbatim>\<open>auditmon/canon/canonical.go\<close>) and the digests
  that the off-box signatures cover (\<^verbatim>\<open>auditmon/sign/sign.go\<close>). The main facts: a canonical
  encoding determines the event up to the order of its set-valued columns, so a row hash and a
  signed digest bind every field, unless SHA-256 collides.
\<close>

subsection \<open>Events\<close>

record audit_event =
  Kind :: string
  TSMicros :: int64
  Principal :: string
  Roles :: "string list"
  Datasource :: string
  ClientAddr :: "string option"
  Statement :: string
  Decision :: string
  FailedStage :: "string option"
  EffectiveNamespace :: "string list"
  MaskedColumns :: "string list"
  PIITouched :: "string list"
  LatencyMs :: int64
  Detail :: "string option"
  Channel :: "string option"
  ContextTags :: "string list"
  AuthzAction :: "string option"
  AuthzResource :: "string option"
  Outcome :: "string option"
  RowsReturned :: "int64 option"
  BytesReturned :: "int64 option"
  DecisionID :: "int64 option"

definition ChainVersion_const :: "32 word" where
  "ChainVersion_const = 1"

definition GenesisSeed :: string where
  "GenesisSeed = ''pm-audit-genesis''"

definition DomainSep :: bytes where
  "DomainSep = str_bytes ''pm-audit-event''"

definition sha256Bytes :: nat where
  "sha256Bytes = 32"

definition nullMarker :: "32 word" where
  "nullMarker = 0xFFFFFFFF"

definition GenesisFromSeed :: "string \<Rightarrow> bytes" where
  "GenesisFromSeed seed = sha256 (str_bytes seed)"

definition GenesisHash :: bytes where
  "GenesisHash = GenesisFromSeed GenesisSeed"

text \<open>
  \<^verbatim>\<open>EpochMicros\<close> of a time given as its Unix second and its nanosecond in \<open>[0, 10\<^sup>9)\<close>; the
  multiplication and addition are on \<^verbatim>\<open>int64\<close>.
\<close>

definition EpochMicros :: "int64 \<Rightarrow> int64 \<Rightarrow> int64" where
  "EpochMicros sec nano = wrap64 (wrap64 (sec * 1000000) + nano div 1000)"

subsection \<open>Field writers\<close>

text \<open>A writer appends to a buffer; it is modelled by the bytes it appends.\<close>

definition writeU32 :: "32 word \<Rightarrow> bytes" where
  "writeU32 v = be_bytes 4 v"

definition writeU64 :: "64 word \<Rightarrow> bytes" where
  "writeU64 v = be_bytes 8 v"

definition writeBytes :: "bytes \<Rightarrow> bytes" where
  "writeBytes b = writeU32 (word_of_nat (length b)) @ b"

definition writeString :: "string \<Rightarrow> bytes" where
  "writeString s = writeU32 (word_of_nat (length s)) @ str_bytes s"

definition writeNullableString :: "string option \<Rightarrow> bytes" where
  "writeNullableString s = (case s of None \<Rightarrow> writeU32 nullMarker | Some t \<Rightarrow> writeString t)"

definition writeInt64 :: "int64 \<Rightarrow> bytes" where
  "writeInt64 v = writeU32 8 @ writeU64 (word_of_int v)"

definition writeNullableInt64 :: "int64 option \<Rightarrow> bytes" where
  "writeNullableInt64 v = (case v of None \<Rightarrow> writeU32 nullMarker | Some i \<Rightarrow> writeInt64 i)"

text \<open>
  \<^verbatim>\<open>bytes.Compare\<close> is the lexicographic order on unsigned bytes with a proper prefix first,
  which is the order \<open>List_Lexorder\<close> puts on byte lists.
\<close>

definition writeArray :: "string list \<Rightarrow> bool \<Rightarrow> bytes" where
  "writeArray values sortSet =
    (let encoded0 = map str_bytes values;
         encoded = (if sortSet then sort encoded0 else encoded0)
     in writeU32 (word_of_nat (length encoded)) @ concat (map writeBytes encoded))"

definition writeFields :: "audit_event \<Rightarrow> bytes" where
  "writeFields ev =
     writeString (Kind ev) @
     writeInt64 (TSMicros ev) @
     writeString (Principal ev) @
     writeArray (Roles ev) True @
     writeString (Datasource ev) @
     writeNullableString (ClientAddr ev) @
     writeString (Statement ev) @
     writeString (Decision ev) @
     writeNullableString (FailedStage ev) @
     writeArray (EffectiveNamespace ev) False @
     writeArray (MaskedColumns ev) True @
     writeArray (PIITouched ev) True @
     writeInt64 (LatencyMs ev) @
     writeNullableString (Detail ev) @
     writeNullableString (Channel ev) @
     writeArray (ContextTags ev) True @
     writeNullableString (AuthzAction ev) @
     writeNullableString (AuthzResource ev) @
     writeNullableString (Outcome ev) @
     writeNullableInt64 (RowsReturned ev) @
     writeNullableInt64 (BytesReturned ev) @
     writeNullableInt64 (DecisionID ev)"

definition Canonical :: "audit_event \<Rightarrow> 32 word \<Rightarrow> bytes" where
  "Canonical ev chainVersion = DomainSep @ writeU32 chainVersion @ writeFields ev"

datatype canon_error = PrevHashLength nat

definition rowPreimage :: "int64 \<Rightarrow> audit_event \<Rightarrow> 32 word \<Rightarrow> bytes \<Rightarrow> bytes" where
  "rowPreimage i ev chainVersion prevHash =
     DomainSep @ writeU32 chainVersion @ writeU64 (word_of_int i) @ writeFields ev @ prevHash"

definition RowHash :: "int64 \<Rightarrow> audit_event \<Rightarrow> 32 word \<Rightarrow> bytes \<Rightarrow> (canon_error, bytes) result" where
  "RowHash i ev chainVersion prevHash =
    (if length prevHash \<noteq> sha256Bytes then Inl (PrevHashLength (length prevHash))
     else Inr (sha256 (rowPreimage i ev chainVersion prevHash)))"

subsection \<open>Well-formed events and what an encoding determines\<close>

text \<open>
  Go writes a length as \<^verbatim>\<open>uint32(len(s))\<close>, so the format is unambiguous only below the
  wrap-around, and a nullable string of length \<open>0xFFFFFFFF\<close> would look like null. Both limits
  are far above what the database stores; they are the hypothesis of the injectivity lemmas.
\<close>

definition wf_string :: "string \<Rightarrow> bool" where
  "wf_string s \<longleftrightarrow> length s < 2 ^ 32 - 1"

definition wf_array :: "string list \<Rightarrow> bool" where
  "wf_array vs \<longleftrightarrow> length vs < 2 ^ 32 \<and> list_all wf_string vs"

definition wf_event :: "audit_event \<Rightarrow> bool" where
  "wf_event ev \<longleftrightarrow>
     list_all wf_string [Kind ev, Principal ev, Datasource ev, Statement ev, Decision ev] \<and>
     list_all (pred_option wf_string)
       [ClientAddr ev, FailedStage ev, Detail ev, Channel ev, AuthzAction ev, AuthzResource ev,
        Outcome ev] \<and>
     list_all wf_array
       [Roles ev, EffectiveNamespace ev, MaskedColumns ev, PIITouched ev, ContextTags ev] \<and>
     list_all is_int64 [TSMicros ev, LatencyMs ev] \<and>
     list_all (pred_option is_int64) [RowsReturned ev, BytesReturned ev, DecisionID ev]"

text \<open>The event with its set-valued columns in canonical order: what the hash covers.\<close>

definition canon_set :: "string list \<Rightarrow> string list" where
  "canon_set vs = map bytes_str (sort (map str_bytes vs))"

definition canon_event :: "audit_event \<Rightarrow> audit_event" where
  "canon_event ev = ev\<lparr>Roles := canon_set (Roles ev),
     MaskedColumns := canon_set (MaskedColumns ev), PIITouched := canon_set (PIITouched ev),
     ContextTags := canon_set (ContextTags ev)\<rparr>"

lemma mset_canon_set [simp]: "mset (canon_set vs) = mset vs"
  by (simp add: canon_set_def multiset.map_comp comp_def)

lemma canon_set_eq_iff: "canon_set vs = canon_set ws \<longleftrightarrow> mset vs = mset ws"
proof
  assume "canon_set vs = canon_set ws"
  then show "mset vs = mset ws" by (metis mset_canon_set)
next
  assume "mset vs = mset ws"
  then have "mset (map str_bytes vs) = mset (map str_bytes ws)"
    by (simp only: mset_map)
  then have "sort (map str_bytes vs) = sort (map str_bytes ws)"
    by (metis mset_sort properties_for_sort sorted_sort)
  then show "canon_set vs = canon_set ws" by (simp add: canon_set_def)
qed

subsection \<open>The writers are self-delimiting\<close>

lemma length_writeU32 [simp]: "length (writeU32 v) = 4"
  by (simp add: writeU32_def)

lemma length_writeU64 [simp]: "length (writeU64 v) = 8"
  by (simp add: writeU64_def)

lemma writeU32_eq_iff [simp]: "writeU32 v = writeU32 w \<longleftrightarrow> v = w"
  by (simp add: writeU32_def)

lemma writeU64_eq_iff [simp]: "writeU64 v = writeU64 w \<longleftrightarrow> v = w"
  by (simp add: writeU64_def)

interpretation u32: prefix_code writeU32 "\<lambda>_. True"
  by (rule fixed_width_prefix_code[where n = 4]) simp_all

interpretation u64: prefix_code writeU64 "\<lambda>_. True"
  by (rule fixed_width_prefix_code[where n = 8]) simp_all

interpretation wint64: prefix_code writeInt64 is_int64
  by (rule fixed_width_prefix_code[where n = 12])
    (auto simp: writeInt64_def dest: word_of_int64_inj)

definition wf_bytes :: "bytes \<Rightarrow> bool" where
  "wf_bytes b \<longleftrightarrow> length b < 2 ^ 32 - 1"

interpretation wbytes: prefix_code writeBytes wf_bytes
  unfolding writeBytes_def
  by (rule length_prefix_code[where k = 4 and body = "\<lambda>b. b" and hdr = "\<lambda>n. writeU32 (word_of_nat n)"])
    (auto simp: wf_bytes_def word32_of_nat_inj)

lemma writeString_writeBytes: "writeString s = writeBytes (str_bytes s)"
  by (simp add: writeString_def writeBytes_def)

lemma wf_bytes_str_bytes [simp]: "wf_bytes (str_bytes s) \<longleftrightarrow> wf_string s"
  by (simp add: wf_bytes_def wf_string_def)

interpretation wstring: prefix_code writeString wf_string
  by unfold_locales (auto simp: writeString_writeBytes wbytes.append_eq_iff)

lemma null_neq_length: "n < 2 ^ 32 - 1 \<Longrightarrow> nullMarker \<noteq> word_of_nat n"
proof
  assume n: "n < 2 ^ 32 - 1" and "nullMarker = word_of_nat n"
  moreover have "unat nullMarker = 2 ^ 32 - 1" by (simp add: nullMarker_def)
  moreover have "unat (word_of_nat n :: 32 word) = n"
    using n by (simp add: unat_of_nat)
  ultimately show False by simp
qed

lemma null_not_string [simp]:
  assumes "wf_string s"
  shows "writeU32 nullMarker @ r \<noteq> writeString s @ t"
    and "writeString s @ t \<noteq> writeU32 nullMarker @ r"
  using null_neq_length[of "length s"] assms
  by (auto simp: writeString_def u32.append_eq_iff wf_string_def)

interpretation wnstring: prefix_code writeNullableString "pred_option wf_string"
proof
  fix x y r s
  assume "pred_option wf_string x" "pred_option wf_string y"
    and "writeNullableString x @ r = writeNullableString y @ s"
  then show "x = y \<and> r = s"
    by (cases x; cases y) (simp_all add: writeNullableString_def wstring.append_eq_iff)
qed

lemma null_not_int64 [simp]:
  "writeU32 nullMarker @ r \<noteq> writeInt64 i @ t" "writeInt64 i @ t \<noteq> writeU32 nullMarker @ r"
  by (simp_all add: writeInt64_def u32.append_eq_iff nullMarker_def)

interpretation wnint64: prefix_code writeNullableInt64 "pred_option is_int64"
proof
  fix x y r s
  assume "pred_option is_int64 x" "pred_option is_int64 y"
    and "writeNullableInt64 x @ r = writeNullableInt64 y @ s"
  then show "x = y \<and> r = s"
    by (cases x; cases y) (simp_all add: writeNullableInt64_def wint64.append_eq_iff)
qed

text \<open>Arrays: the count determines how many length-prefixed elements follow.\<close>

definition arrayBytes :: "string list \<Rightarrow> bool \<Rightarrow> bytes list" where
  "arrayBytes vs sortSet = (if sortSet then sort (map str_bytes vs) else map str_bytes vs)"

lemma length_arrayBytes [simp]: "length (arrayBytes vs b) = length vs"
  by (simp add: arrayBytes_def)

lemma writeArray_eq:
  "writeArray vs sortSet =
     writeU32 (word_of_nat (length vs)) @ concat (map writeBytes (arrayBytes vs sortSet))"
  by (simp add: writeArray_def arrayBytes_def Let_def)

lemma wf_arrayBytes: "wf_array vs \<Longrightarrow> list_all wf_bytes (arrayBytes vs sortSet)"
  by (auto simp: wf_array_def arrayBytes_def list_all_iff)

lemma writeArray_unique:
  assumes "wf_array vs" "wf_array ws" "writeArray vs b @ r = writeArray ws b @ s"
  shows "arrayBytes vs b = arrayBytes ws b \<and> r = s"
proof -
  from assms(3) have len: "(word_of_nat (length vs) :: 32 word) = word_of_nat (length ws)"
    and rest: "concat (map writeBytes (arrayBytes vs b)) @ r =
        concat (map writeBytes (arrayBytes ws b)) @ s"
    by (simp_all add: writeArray_eq u32.append_eq_iff)
  from len assms(1,2) have "length vs = length ws"
    by (simp add: wf_array_def word32_of_nat_inj)
  then have "length (arrayBytes vs b) = length (arrayBytes ws b)"
    by simp
  with rest show ?thesis
    using wbytes.concat_unique wf_arrayBytes assms(1,2) by blast
qed

lemma arrayBytes_ordered: "arrayBytes vs False = arrayBytes ws False \<longleftrightarrow> vs = ws"
  by (auto simp: arrayBytes_def inj_map_eq_map inj_str_bytes)

lemma arrayBytes_set: "arrayBytes vs True = arrayBytes ws True \<longleftrightarrow> canon_set vs = canon_set ws"
proof -
  have "arrayBytes vs True = map str_bytes (canon_set vs)" for vs
    by (simp add: arrayBytes_def canon_set_def comp_def)
  then show ?thesis by (simp add: inj_map_eq_map inj_str_bytes)
qed

lemma writeArray_append_eq_iff [codec_simps]:
  "wf_array vs \<Longrightarrow> wf_array ws \<Longrightarrow>
     writeArray vs b @ r = writeArray ws b @ s \<longleftrightarrow> arrayBytes vs b = arrayBytes ws b \<and> r = s"
proof
  assume "arrayBytes vs b = arrayBytes ws b \<and> r = s"
  moreover from this have "length vs = length ws"
    by (metis length_arrayBytes)
  ultimately show "writeArray vs b @ r = writeArray ws b @ s"
    by (simp add: writeArray_eq)
qed (rule writeArray_unique)

lemma canon_event_eq_iff:
  "canon_event ev = canon_event ev' \<longleftrightarrow>
     Kind ev = Kind ev' \<and> TSMicros ev = TSMicros ev' \<and> Principal ev = Principal ev' \<and>
     canon_set (Roles ev) = canon_set (Roles ev') \<and> Datasource ev = Datasource ev' \<and>
     ClientAddr ev = ClientAddr ev' \<and> Statement ev = Statement ev' \<and> Decision ev = Decision ev' \<and>
     FailedStage ev = FailedStage ev' \<and> EffectiveNamespace ev = EffectiveNamespace ev' \<and>
     canon_set (MaskedColumns ev) = canon_set (MaskedColumns ev') \<and>
     canon_set (PIITouched ev) = canon_set (PIITouched ev') \<and> LatencyMs ev = LatencyMs ev' \<and>
     Detail ev = Detail ev' \<and> Channel ev = Channel ev' \<and>
     canon_set (ContextTags ev) = canon_set (ContextTags ev') \<and> AuthzAction ev = AuthzAction ev' \<and>
     AuthzResource ev = AuthzResource ev' \<and> Outcome ev = Outcome ev' \<and>
     RowsReturned ev = RowsReturned ev' \<and> BytesReturned ev = BytesReturned ev' \<and>
     DecisionID ev = DecisionID ev'"
  by (cases ev; cases ev') (auto simp: canon_event_def)

text \<open>
  The encoding of the 22 columns is self-delimiting, and two well-formed events encode alike
  exactly when they agree up to the order (with multiplicity) of the set-valued columns.
\<close>

lemma writeFields_append_eq_iff:
  assumes "wf_event ev" "wf_event ev'"
  shows "writeFields ev @ r = writeFields ev' @ s \<longleftrightarrow> canon_event ev = canon_event ev' \<and> r = s"
proof -
  have "writeFields ev @ r = writeFields ev' @ s \<longleftrightarrow>
     Kind ev = Kind ev' \<and> TSMicros ev = TSMicros ev' \<and> Principal ev = Principal ev' \<and>
     arrayBytes (Roles ev) True = arrayBytes (Roles ev') True \<and> Datasource ev = Datasource ev' \<and>
     ClientAddr ev = ClientAddr ev' \<and> Statement ev = Statement ev' \<and> Decision ev = Decision ev' \<and>
     FailedStage ev = FailedStage ev' \<and>
     arrayBytes (EffectiveNamespace ev) False = arrayBytes (EffectiveNamespace ev') False \<and>
     arrayBytes (MaskedColumns ev) True = arrayBytes (MaskedColumns ev') True \<and>
     arrayBytes (PIITouched ev) True = arrayBytes (PIITouched ev') True \<and>
     LatencyMs ev = LatencyMs ev' \<and> Detail ev = Detail ev' \<and> Channel ev = Channel ev' \<and>
     arrayBytes (ContextTags ev) True = arrayBytes (ContextTags ev') True \<and>
     AuthzAction ev = AuthzAction ev' \<and> AuthzResource ev = AuthzResource ev' \<and>
     Outcome ev = Outcome ev' \<and> RowsReturned ev = RowsReturned ev' \<and>
     BytesReturned ev = BytesReturned ev' \<and> DecisionID ev = DecisionID ev' \<and> r = s"
    using assms
    by (simp add: wf_event_def writeFields_def codec_simps del: append_eq_append_conv)
  then show ?thesis
    by (simp add: canon_event_eq_iff arrayBytes_set arrayBytes_ordered conj_assoc)
qed

lemma writeArray_canon_set: "canon_set vs = canon_set ws \<Longrightarrow> writeArray vs True = writeArray ws True"
  using arrayBytes_set[of vs ws] length_arrayBytes[of vs True] length_arrayBytes[of ws True]
  by (simp add: writeArray_eq)

lemma writeFields_canon_event: "canon_event ev = canon_event ev' \<Longrightarrow> writeFields ev = writeFields ev'"
  using writeArray_canon_set[of "Roles ev" "Roles ev'"]
    writeArray_canon_set[of "MaskedColumns ev" "MaskedColumns ev'"]
    writeArray_canon_set[of "PIITouched ev" "PIITouched ev'"]
    writeArray_canon_set[of "ContextTags ev" "ContextTags ev'"]
  by (simp add: canon_event_eq_iff writeFields_def)

lemma rowPreimage_eq_iff:
  assumes "wf_event ev" "wf_event ev'" "is_int64 i" "is_int64 j"
  shows "rowPreimage i ev v p = rowPreimage j ev' w q \<longleftrightarrow>
     v = w \<and> i = j \<and> canon_event ev = canon_event ev' \<and> p = q"
  using assms word_of_int64_inj[of i j]
  by (auto simp: rowPreimage_def writeFields_append_eq_iff)

lemma RowHash_Inr_iff:
  "RowHash i ev v p = Inr h \<longleftrightarrow> length p = 32 \<and> h = sha256 (rowPreimage i ev v p)"
  by (auto simp: RowHash_def sha256Bytes_def)

lemma RowHash_Inl_iff: "RowHash i ev v p = Inl e \<longleftrightarrow> length p \<noteq> 32 \<and> e = PrevHashLength (length p)"
  by (auto simp: RowHash_def sha256Bytes_def)

text \<open>A row hash binds the row's id, version, event and predecessor.\<close>

lemma RowHash_binds:
  assumes "RowHash i ev v p = Inr h" "RowHash j ev' w q = Inr h"
    and "wf_event ev" "wf_event ev'" "is_int64 i" "is_int64 j"
  shows "(v = w \<and> i = j \<and> canon_event ev = canon_event ev' \<and> p = q) \<or>
    sha256_collision (rowPreimage i ev v p) (rowPreimage j ev' w q)"
  using assms rowPreimage_eq_iff[OF assms(3-6), of v p w q]
    sha256_eq_cases[of "rowPreimage i ev v p" "rowPreimage j ev' w q"]
  by (auto simp: RowHash_Inr_iff)

subsection \<open>Signed digests\<close>

definition anchorDomainSep :: bytes where
  "anchorDomainSep = str_bytes ''pm-audit-anchor''"

definition acceptanceDomainSep :: bytes where
  "acceptanceDomainSep = str_bytes ''pm-audit-acceptance''"

definition writeField :: "bytes \<Rightarrow> bytes" where
  "writeField b = writeU64 (word_of_nat (length b)) @ b"

definition anchorPreimage :: "int64 \<Rightarrow> bytes \<Rightarrow> bytes" where
  "anchorPreimage upToID headHash = anchorDomainSep @ writeU64 (word_of_int upToID) @ headHash"

definition AnchorDigest :: "int64 \<Rightarrow> bytes \<Rightarrow> bytes" where
  "AnchorDigest upToID headHash = sha256 (anchorPreimage upToID headHash)"

definition acceptancePreimage :: "int64 \<Rightarrow> string \<Rightarrow> bytes \<Rightarrow> bytes \<Rightarrow> bytes \<Rightarrow> bytes" where
  "acceptancePreimage divergentID reason expected actual resumeHash =
     acceptanceDomainSep @ writeU64 (word_of_int divergentID) @ writeField (str_bytes reason) @
     writeField expected @ writeField actual @ writeField resumeHash"

definition AcceptanceDigest :: "int64 \<Rightarrow> string \<Rightarrow> bytes \<Rightarrow> bytes \<Rightarrow> bytes \<Rightarrow> bytes" where
  "AcceptanceDigest divergentID reason expected actual resumeHash =
     sha256 (acceptancePreimage divergentID reason expected actual resumeHash)"

definition wf_field :: "bytes \<Rightarrow> bool" where
  "wf_field b \<longleftrightarrow> length b < 2 ^ 64"

interpretation wfield: prefix_code writeField wf_field
  unfolding writeField_def
  by (rule length_prefix_code[where k = 8 and body = "\<lambda>b. b" and hdr = "\<lambda>n. writeU64 (word_of_nat n)"])
    (auto simp: wf_field_def word64_of_nat_inj)

lemma anchorPreimage_eq_iff:
  "is_int64 i \<Longrightarrow> is_int64 j \<Longrightarrow> anchorPreimage i h = anchorPreimage j k \<longleftrightarrow> i = j \<and> h = k"
  using word_of_int64_inj by (auto simp: anchorPreimage_def)

lemma acceptancePreimage_eq_iff:
  assumes "is_int64 i" "is_int64 j" "length r < 2 ^ 64" "length r' < 2 ^ 64"
    and "wf_field e" "wf_field e'" "wf_field a" "wf_field a'" "wf_field u" "wf_field u'"
  shows "acceptancePreimage i r e a u = acceptancePreimage j r' e' a' u' \<longleftrightarrow>
     i = j \<and> r = r' \<and> e = e' \<and> a = a' \<and> u = u'"
proof -
  have "wf_field (str_bytes r)" "wf_field (str_bytes r')"
    using assms(3,4) by (simp_all add: wf_field_def)
  then show ?thesis
    using assms word_of_int64_inj[of i j] wfield.append_eq_iff[of u u' "[]" "[]"]
    by (auto simp: acceptancePreimage_def codec_simps simp del: append_eq_append_conv)
qed

text \<open>The tenth byte tells the four hash constructions apart.\<close>

lemma domains_separate:
  "anchorPreimage i h \<noteq> acceptancePreimage j r e a u"
  "anchorPreimage i h \<noteq> rowPreimage k ev v p"
  "acceptancePreimage j r e a u \<noteq> rowPreimage k ev v p"
  "str_bytes GenesisSeed \<noteq> rowPreimage k ev v p"
  by (simp_all add: anchorPreimage_def acceptancePreimage_def rowPreimage_def GenesisSeed_def
      anchorDomainSep_def acceptanceDomainSep_def DomainSep_def str_bytes_def byte_of_char_def)

subsection \<open>Properties\<close>

text \<open>A small well-formed event, for the concrete instances below.\<close>

definition sample_event :: audit_event where
  "sample_event = \<lparr>Kind = ''decision'', TSMicros = 1700000000000000, Principal = ''alice'',
     Roles = [''dev'', ''analyst''], Datasource = ''orders'', ClientAddr = None,
     Statement = ''select 1'', Decision = ''ALLOW'', FailedStage = None,
     EffectiveNamespace = [''public''], MaskedColumns = [], PIITouched = [], LatencyMs = 3,
     Detail = None, Channel = Some ''wire'', ContextTags = [], AuthzAction = None,
     AuthzResource = None, Outcome = None, RowsReturned = None, BytesReturned = Some 12,
     DecisionID = None\<rparr>"

lemma wf_sample_event: "wf_event sample_event"
  by (simp add: wf_event_def wf_string_def wf_array_def is_int64_def sample_event_def)

text \<open>
  C38: canonical bytes determine the event. Two well-formed events have the same canonical bytes
  exactly when their versions agree and they agree column by column, the set-valued columns up to
  order.
\<close>

theorem canonical_determines_event:
  assumes "wf_event ev" "wf_event ev'"
  shows "Canonical ev v = Canonical ev' w \<longleftrightarrow> v = w \<and> canon_event ev = canon_event ev'"
  using writeFields_append_eq_iff[OF assms, of "[]" "[]"] by (simp add: Canonical_def)

theorem canonical_determines_event_witness:
  "wf_event sample_event \<and> wf_event (sample_event\<lparr>Roles := [''analyst'', ''dev'']\<rparr>) \<and>
   Canonical sample_event 1 = Canonical (sample_event\<lparr>Roles := [''analyst'', ''dev'']\<rparr>) 1"
proof -
  have wf: "wf_event (sample_event\<lparr>Roles := [''analyst'', ''dev'']\<rparr>)"
    by (simp add: wf_event_def wf_string_def wf_array_def is_int64_def sample_event_def)
  have "canon_event sample_event = canon_event (sample_event\<lparr>Roles := [''analyst'', ''dev'']\<rparr>)"
    by (simp add: canon_event_eq_iff canon_set_eq_iff) (simp add: sample_event_def)
  with canonical_determines_event[OF wf_sample_event wf, of 1 1] wf wf_sample_event show ?thesis
    by simp
qed

text \<open>
  A row hash binds the row. If two rows hash alike, they have the same id, chain version,
  canonical event and predecessor hash, or their two preimages are a SHA-256 collision; a
  predecessor hash that is not 32 bytes long is refused.
\<close>

lemma row_hash_binds_row:
  assumes "RowHash i ev v p = Inr h" "RowHash j ev' w q = Inr h"
    and "wf_event ev" "wf_event ev'" "is_int64 i" "is_int64 j"
  shows "(v = w \<and> i = j \<and> canon_event ev = canon_event ev' \<and> p = q \<and> length p = 32) \<or>
    sha256_collision (rowPreimage i ev v p) (rowPreimage j ev' w q)"
  using RowHash_binds[OF assms] assms(1) by (auto simp: RowHash_Inr_iff)

text \<open>
  A signed digest binds what it signs. Equal anchor digests cover the same id and head, equal
  acceptance digests the same divergence and resume hash, and no digest of one kind equals a digest
  of another or a row hash, unless the two preimages are a SHA-256 collision.
\<close>

lemma signed_digests_bind:
  assumes "is_int64 i" "is_int64 j" "length r < 2 ^ 64" "length r' < 2 ^ 64"
    and "wf_field e" "wf_field e'" "wf_field a" "wf_field a'" "wf_field u" "wf_field u'"
  shows "(AnchorDigest i h = AnchorDigest j k \<longrightarrow>
      (i = j \<and> h = k) \<or> sha256_collision (anchorPreimage i h) (anchorPreimage j k)) \<and>
    (AcceptanceDigest i r e a u = AcceptanceDigest j r' e' a' u' \<longrightarrow>
      (i = j \<and> r = r' \<and> e = e' \<and> a = a' \<and> u = u') \<or>
      sha256_collision (acceptancePreimage i r e a u) (acceptancePreimage j r' e' a' u')) \<and>
    (AnchorDigest i h = AcceptanceDigest j r e a u \<longrightarrow>
      sha256_collision (anchorPreimage i h) (acceptancePreimage j r e a u)) \<and>
    (AnchorDigest i h = sha256 (rowPreimage j ev v p) \<longrightarrow>
      sha256_collision (anchorPreimage i h) (rowPreimage j ev v p)) \<and>
    (AcceptanceDigest i r e a u = sha256 (rowPreimage j ev v p) \<longrightarrow>
      sha256_collision (acceptancePreimage i r e a u) (rowPreimage j ev v p))"
  using anchorPreimage_eq_iff[OF assms(1,2)] acceptancePreimage_eq_iff[OF assms] domains_separate
  by (auto simp: AnchorDigest_def AcceptanceDigest_def sha256_collision_def)

end
