(* ===== verification/Verify.thy ===== *)
theory Verify
  imports Canon "HOL-Library.AList"
begin

text \<open>
  The committed audit trail as the monitor reads it (\<^verbatim>\<open>auditmon/store/store.go\<close>) and the
  re-verification of its hash chain (\<^verbatim>\<open>auditmon/verify/verify.go\<close>): the tail walk, the paged
  walk from genesis with the signed anchors as witnesses, and the operator-accepted divergences it
  steps over. The paged walks may in principle not end on a source that repeats ids, so they are
  \<open>option\<close>-valued; the locale \<open>chained_source\<close> states what the reader promises, and under it
  the walk always returns and equals one unpaged pass.
\<close>

subsection \<open>Rows and the table\<close>

record stored_event =
  se_ID :: int64
  se_Event :: audit_event
  se_ChainVersion :: "int option"
  se_PrevHash :: bytes
  se_RowHash :: bytes

record chain_head =
  LastID :: int64
  HeadHash :: bytes

text \<open>
  A table is its rows in primary-key order, so ids are distinct; the key is a 64-bit integer. The
  database is a service; what its answers to the queries of \<^verbatim>\<open>store.go\<close> mean is written here.
\<close>

typedef audit_table = "{t :: stored_event list. sorted_wrt (<) (map se_ID t) \<and> list_all (is_int64 \<circ> se_ID) t}"
  morphisms table_rows Table
  by (rule exI[of _ "[]"]) simp

lemma table_rows_sorted [simp]: "sorted_wrt (<) (map se_ID (table_rows t))"
  using table_rows[of t] by simp

lemma table_rows_int64: "e \<in> set (table_rows t) \<Longrightarrow> is_int64 (se_ID e)"
  using table_rows[of t] by (simp add: list_all_iff)

definition TailEvents :: "audit_table \<Rightarrow> int64 \<Rightarrow> nat \<Rightarrow> stored_event list" where
  "TailEvents t afterID limit = take limit (filter (\<lambda>e. afterID < se_ID e) (table_rows t))"

definition chained_rows :: "audit_table \<Rightarrow> stored_event list" where
  "chained_rows t = filter (\<lambda>e. se_ChainVersion e \<noteq> None) (table_rows t)"

definition ChainedEventsAfter :: "audit_table \<Rightarrow> int64 \<Rightarrow> nat \<Rightarrow> stored_event list" where
  "ChainedEventsAfter t afterID limit =
     take limit (filter (\<lambda>e. afterID < se_ID e \<and> se_ChainVersion e \<noteq> None) (table_rows t))"

definition EventsSince :: "audit_table \<Rightarrow> int64 \<Rightarrow> stored_event list" where
  "EventsSince t since = filter (\<lambda>e. since \<le> TSMicros (se_Event e)) (table_rows t)"

definition MaxEventID :: "audit_table \<Rightarrow> int64" where
  "MaxEventID t = (case table_rows t of [] \<Rightarrow> 0 | rs \<Rightarrow> se_ID (last rs))"

subsection \<open>Findings\<close>

record finding =
  DivergentID :: int64
  Reason :: string
  Expected :: bytes
  Actual :: bytes

definition ReasonPrevHashMismatch :: string where
  "ReasonPrevHashMismatch = ''prev_hash_mismatch''"

definition ReasonRowHashMismatch :: string where
  "ReasonRowHashMismatch = ''row_hash_mismatch''"

definition ReasonMissingChainVersion :: string where
  "ReasonMissingChainVersion = ''missing_chain_version''"

definition ReasonAnchorHeadMismatch :: string where
  "ReasonAnchorHeadMismatch = ''anchor_head_mismatch''"

definition ReasonAnchorRowMissing :: string where
  "ReasonAnchorRowMissing = ''anchor_row_missing''"

lemmas reason_defs = ReasonPrevHashMismatch_def ReasonRowHashMismatch_def
  ReasonMissingChainVersion_def ReasonAnchorHeadMismatch_def ReasonAnchorRowMissing_def

datatype verify_error = RecomputeRow int64 canon_error | ReadChained int64 string

subsection \<open>The tail walk\<close>

definition verifyRowContent :: "stored_event \<Rightarrow> (verify_error, finding option) result" where
  "verifyRowContent ev =
    (case se_ChainVersion ev of
       None \<Rightarrow> Inr (Some \<lparr>DivergentID = se_ID ev, Reason = ReasonMissingChainVersion,
                 Expected = [], Actual = []\<rparr>)
     | Some v \<Rightarrow>
        (case RowHash (se_ID ev) (se_Event ev) (word_of_int v) (se_PrevHash ev) of
           Inl e \<Rightarrow> Inl (RecomputeRow (se_ID ev) e)
         | Inr recomputed \<Rightarrow>
            if recomputed \<noteq> se_RowHash ev
            then Inr (Some \<lparr>DivergentID = se_ID ev, Reason = ReasonRowHashMismatch,
                   Expected = se_RowHash ev, Actual = recomputed\<rparr>)
            else Inr None))"

fun verifyTail_loop :: "bytes \<Rightarrow> stored_event list \<Rightarrow> (verify_error, finding option) result" where
  "verifyTail_loop running [] = Inr None"
| "verifyTail_loop running (ev # evs) =
    (if se_PrevHash ev \<noteq> running
     then Inr (Some \<lparr>DivergentID = se_ID ev, Reason = ReasonPrevHashMismatch,
            Expected = running, Actual = se_PrevHash ev\<rparr>)
     else case se_ChainVersion ev of
       None \<Rightarrow> Inr (Some \<lparr>DivergentID = se_ID ev, Reason = ReasonMissingChainVersion,
                 Expected = [], Actual = []\<rparr>)
     | Some v \<Rightarrow>
        (case RowHash (se_ID ev) (se_Event ev) (word_of_int v) (se_PrevHash ev) of
           Inl e \<Rightarrow> Inl (RecomputeRow (se_ID ev) e)
         | Inr recomputed \<Rightarrow>
            if recomputed \<noteq> se_RowHash ev
            then Inr (Some \<lparr>DivergentID = se_ID ev, Reason = ReasonRowHashMismatch,
                   Expected = se_RowHash ev, Actual = recomputed\<rparr>)
            else verifyTail_loop (se_RowHash ev) evs))"

definition VerifyTail :: "chain_head \<Rightarrow> stored_event list \<Rightarrow> (verify_error, finding option) result" where
  "VerifyTail head events = verifyTail_loop (HeadHash head) events"

subsection \<open>Acceptances\<close>

record accepted =
  acc_DivergentID :: int64
  acc_Reason :: string
  acc_Expected :: bytes
  acc_Actual :: bytes
  acc_ResumeHash :: bytes

definition covers :: "accepted \<Rightarrow> finding \<Rightarrow> bool" where
  "covers a f \<longleftrightarrow> acc_DivergentID a = DivergentID f \<and> acc_Reason a = Reason f \<and>
     acc_Expected a = Expected f \<and> acc_Actual a = Actual f"

definition waive :: "accepted list \<Rightarrow> finding \<Rightarrow> bytes option" where
  "waive accs f = map_option acc_ResumeHash (find (\<lambda>a. covers a f) accs)"

fun indexOfID_from :: "nat \<Rightarrow> stored_event list \<Rightarrow> int64 \<Rightarrow> nat option" where
  "indexOfID_from i [] k = None"
| "indexOfID_from i (ev # evs) k = (if se_ID ev = k then Some i else indexOfID_from (Suc i) evs k)"

definition indexOfID :: "stored_event list \<Rightarrow> int64 \<Rightarrow> nat option" where
  "indexOfID events k = indexOfID_from 0 events k"

subsection \<open>The paged walk\<close>

text \<open>
  One page: the \<^verbatim>\<open>for i := 0; i < len(events);\<close> loop. It ends with an error, with a finding
  to return, or with the head and the accepted divergences so far.
\<close>

datatype page_result =
  PageErr verify_error
| PageStop finding "finding list"
| PageDone chain_head "finding list"

definition contentStep :: "accepted list \<Rightarrow> finding \<Rightarrow> stored_event \<Rightarrow> finding list \<Rightarrow>
    page_result + finding list" where
  "contentStep accs f ev passed =
    (if Reason f = ReasonPrevHashMismatch then
       (case verifyRowContent ev of
          Inl e \<Rightarrow> Inl (PageErr e)
        | Inr None \<Rightarrow> Inr passed
        | Inr (Some cf) \<Rightarrow>
           (case waive accs cf of
              None \<Rightarrow> Inl (PageStop cf passed)
            | Some _ \<Rightarrow> Inr (passed @ [cf])))
     else Inr passed)"

partial_function (option) walkPage :: "accepted list \<Rightarrow> stored_event list \<Rightarrow> nat \<Rightarrow> chain_head \<Rightarrow>
    finding list \<Rightarrow> page_result option" where
  "walkPage accs events i head passed =
    (if i < length events then
       (case VerifyTail head (drop i events) of
          Inl e \<Rightarrow> Some (PageErr e)
        | Inr None \<Rightarrow> Some (PageDone head passed)
        | Inr (Some f) \<Rightarrow>
           (case waive accs f of
              None \<Rightarrow> Some (PageStop f passed)
            | Some resume \<Rightarrow>
               (case indexOfID events (DivergentID f) of
                  None \<Rightarrow> Some (PageStop f (passed @ [f]))
                | Some at \<Rightarrow>
                   (case contentStep accs f (events ! at) (passed @ [f]) of
                      Inl r \<Rightarrow> Some r
                    | Inr passed' \<Rightarrow>
                        walkPage accs events (at + 1)
                          \<lparr>LastID = DivergentID f, HeadHash = resume\<rparr> passed'))))
     else Some (PageDone head passed))"

text \<open>
  The anchors still to be reached are a Go map, kept as an association list without duplicate
  keys. The cross-check of a page removes each anchored id it meets.
\<close>

record anchor_check =
  ac_UpToID :: int64
  ac_HeadHash :: bytes

definition remainingAnchors :: "anchor_check list \<Rightarrow> (int64 \<times> bytes) list" where
  "remainingAnchors anchors =
     fold (\<lambda>a m. if 0 < ac_UpToID a then AList.update (ac_UpToID a) (ac_HeadHash a) m else m)
       anchors []"

fun crossCheck :: "accepted list \<Rightarrow> stored_event list \<Rightarrow> (int64 \<times> bytes) list \<Rightarrow> finding list \<Rightarrow>
    (finding \<times> finding list) + ((int64 \<times> bytes) list \<times> finding list)" where
  "crossCheck accs [] remaining passed = Inr (remaining, passed)"
| "crossCheck accs (ev # evs) remaining passed =
    (case map_of remaining (se_ID ev) of
       None \<Rightarrow> crossCheck accs evs remaining passed
     | Some want \<Rightarrow>
        (if se_RowHash ev \<noteq> want then
           let f = \<lparr>DivergentID = se_ID ev, Reason = ReasonAnchorHeadMismatch,
                    Expected = want, Actual = se_RowHash ev\<rparr>
           in case waive accs f of
                None \<Rightarrow> Inl (f, passed)
              | Some _ \<Rightarrow> crossCheck accs evs (AList.delete (se_ID ev) remaining) (passed @ [f])
         else crossCheck accs evs (AList.delete (se_ID ev) remaining) passed))"

definition missingAnchor :: "accepted list \<Rightarrow> chain_head \<Rightarrow> (int64 \<times> bytes) list \<Rightarrow> finding list \<Rightarrow>
    finding option \<times> finding list" where
  "missingAnchor accs head remaining passed =
    (if remaining \<noteq> [] then
       let lowest = min_list (map fst remaining);
           f = \<lparr>DivergentID = lowest, Reason = ReasonAnchorRowMissing,
                Expected = (case map_of remaining lowest of None \<Rightarrow> [] | Some h \<Rightarrow> h),
                Actual = HeadHash head\<rparr>
       in case waive accs f of None \<Rightarrow> (Some f, passed) | Some _ \<Rightarrow> (None, passed @ [f])
     else (None, passed))"

definition pageSize :: nat where
  "pageSize = 5000"

text \<open>
  A \<^verbatim>\<open>ChainedEventSource\<close> answers the \<open>k\<close>-th page request of a walk; every page is its own
  database snapshot, so the answer may depend on \<open>k\<close>. The page size is an argument here, and
  the constant where the code uses it.
\<close>

type_synonym event_source = "nat \<Rightarrow> int64 \<Rightarrow> nat \<Rightarrow> (string, stored_event list) result"

partial_function (option) walkPages :: "nat \<Rightarrow> event_source \<Rightarrow> accepted list \<Rightarrow> nat \<Rightarrow> int64 \<Rightarrow>
    chain_head \<Rightarrow> (int64 \<times> bytes) list \<Rightarrow> finding list \<Rightarrow>
    (verify_error, finding option \<times> finding list) result option" where
  "walkPages psize src accs k cursor head remaining passed =
    (case src k cursor psize of
       Inl e \<Rightarrow> Some (Inl (ReadChained cursor e))
     | Inr events \<Rightarrow>
        (if events = [] then Some (Inr (missingAnchor accs head remaining passed))
         else Option.bind (walkPage accs events 0 head passed) (\<lambda>r.
           case r of
             PageErr e \<Rightarrow> Some (Inl e)
           | PageStop f passed' \<Rightarrow> Some (Inr (Some f, passed'))
           | PageDone head' passed' \<Rightarrow>
              (case crossCheck accs events remaining passed' of
                 Inl (f, passed'') \<Rightarrow> Some (Inr (Some f, passed''))
               | Inr (remaining', passed'') \<Rightarrow>
                  walkPages psize src accs (Suc k) (se_ID (last events))
                    \<lparr>LastID = se_ID (last events), HeadHash = se_RowHash (last events)\<rparr>
                    remaining' passed''))))"

definition VerifyFromGenesisAccepting :: "event_source \<Rightarrow> bytes \<Rightarrow> anchor_check list \<Rightarrow>
    accepted list \<Rightarrow> (verify_error, finding option \<times> finding list) result option" where
  "VerifyFromGenesisAccepting src genesis anchors accs =
     walkPages pageSize src accs 0 0 \<lparr>LastID = 0, HeadHash = genesis\<rparr>
       (remainingAnchors anchors) []"

definition VerifyFromGenesis :: "event_source \<Rightarrow> bytes \<Rightarrow> anchor_check list \<Rightarrow>
    (verify_error, finding option) result option" where
  "VerifyFromGenesis src genesis anchors =
     map_option (map_sum id fst) (VerifyFromGenesisAccepting src genesis anchors [])"

subsection \<open>What the tail walk establishes\<close>

text \<open>The specification: every row links to its predecessor and its stored hash is its own.\<close>

fun chain_ok :: "bytes \<Rightarrow> stored_event list \<Rightarrow> bool" where
  "chain_ok h [] = True"
| "chain_ok h (e # es) \<longleftrightarrow>
     se_PrevHash e = h \<and> verifyRowContent e = Inr None \<and> chain_ok (se_RowHash e) es"

definition end_hash :: "bytes \<Rightarrow> stored_event list \<Rightarrow> bytes" where
  "end_hash h es = (if es = [] then h else se_RowHash (last es))"

lemma end_hash_simps [simp]:
  "end_hash h [] = h" "end_hash h (e # es) = end_hash (se_RowHash e) es"
  by (simp_all add: end_hash_def)

lemma end_hash_append [simp]: "end_hash h (es @ fs) = end_hash (end_hash h es) fs"
  by (induction es arbitrary: h) auto

lemma chain_ok_append: "chain_ok h (es @ fs) \<longleftrightarrow> chain_ok h es \<and> chain_ok (end_hash h es) fs"
  by (induction es arbitrary: h) auto

lemma verifyRowContent_cases:
  "verifyRowContent e = Inr None \<or>
   (\<exists>f. verifyRowContent e = Inr (Some f) \<and> DivergentID f = se_ID e \<and> Reason f \<noteq> ReasonPrevHashMismatch) \<or>
   (\<exists>err. verifyRowContent e = Inl err \<and> length (se_PrevHash e) \<noteq> 32)"
  by (auto simp: verifyRowContent_def RowHash_def sha256Bytes_def reason_defs
      split: option.splits sum.splits)

lemma verifyRowContent_ok_iff:
  "verifyRowContent e = Inr None \<longleftrightarrow>
     (\<exists>v. se_ChainVersion e = Some v \<and> length (se_PrevHash e) = 32 \<and>
       se_RowHash e = sha256 (rowPreimage (se_ID e) (se_Event e) (word_of_int v) (se_PrevHash e)))"
  by (auto simp: verifyRowContent_def RowHash_Inr_iff RowHash_def sha256Bytes_def
      split: option.splits sum.splits)

lemma verifyTail_loop_Cons:
  "verifyTail_loop running (ev # evs) =
    (if se_PrevHash ev \<noteq> running
     then Inr (Some \<lparr>DivergentID = se_ID ev, Reason = ReasonPrevHashMismatch,
            Expected = running, Actual = se_PrevHash ev\<rparr>)
     else case verifyRowContent ev of
       Inl e \<Rightarrow> Inl e
     | Inr (Some f) \<Rightarrow> Inr (Some f)
     | Inr None \<Rightarrow> verifyTail_loop (se_RowHash ev) evs)"
  by (simp add: verifyRowContent_def split: option.splits sum.splits)

lemmas verifyTail_loop_simps = verifyTail_loop.simps(1) verifyTail_loop_Cons

declare verifyTail_loop.simps(2) [simp del]

lemma verifyTail_loop_None_iff: "verifyTail_loop h es = Inr None \<longleftrightarrow> chain_ok h es"
  by (induction es arbitrary: h)
    (auto simp: verifyTail_loop_simps split: sum.splits option.splits)

lemma VerifyTail_None_iff: "VerifyTail hh es = Inr None \<longleftrightarrow> chain_ok (HeadHash hh) es"
  by (simp add: VerifyTail_def verifyTail_loop_None_iff)

lemma verifyTail_loop_append:
  "chain_ok h es \<Longrightarrow> verifyTail_loop h (es @ fs) = verifyTail_loop (end_hash h es) fs"
  by (induction es arbitrary: h) (auto simp: verifyTail_loop_simps)

text \<open>A finding names the first row at which the segment stops being intact.\<close>

lemma verifyTail_loop_Some:
  assumes "verifyTail_loop h es = Inr (Some f)"
  shows "\<exists>pre e post. es = pre @ e # post \<and> chain_ok h pre \<and> \<not> chain_ok h (pre @ [e]) \<and>
           DivergentID f = se_ID e"
  using assms
proof (induction es arbitrary: h)
  case Nil
  then show ?case by simp
next
  case (Cons e es)
  show ?case
  proof (cases "se_PrevHash e = h \<and> verifyRowContent e = Inr None")
    case True
    with Cons.prems have "verifyTail_loop (se_RowHash e) es = Inr (Some f)"
      by (simp add: verifyTail_loop_simps)
    from Cons.IH[OF this] obtain pre d post where "es = pre @ d # post"
      "chain_ok (se_RowHash e) pre" "\<not> chain_ok (se_RowHash e) (pre @ [d])" "DivergentID f = se_ID d"
      by blast
    with True show ?thesis
      by (intro exI[of _ "e # pre"] exI[of _ d] exI[of _ post]) auto
  next
    case False
    with Cons.prems have "DivergentID f = se_ID e"
      using verifyRowContent_cases[of e]
      by (auto simp: verifyTail_loop_simps split: if_splits)
    with False show ?thesis
      by (intro exI[of _ "[]"] exI[of _ e] exI[of _ es]) auto
  qed
qed

lemma verifyTail_loop_no_error: "length h = 32 \<Longrightarrow> verifyTail_loop h es \<noteq> Inl err"
proof (induction es arbitrary: h)
  case Nil
  then show ?case by simp
next
  case (Cons e es)
  have "length (se_RowHash e) = 32" if "verifyRowContent e = Inr None"
    using that by (auto simp: verifyRowContent_ok_iff)
  with Cons show ?case
    using verifyRowContent_cases[of e] by (auto simp: verifyTail_loop_simps)
qed

subsection \<open>Tamper evidence\<close>

text \<open>What the hash of a row covers, and the ranges the columns have in the database.\<close>

definition row_view :: "stored_event \<Rightarrow> int64 \<times> 32 word option \<times> audit_event \<times> bytes \<times> bytes" where
  "row_view e = (se_ID e, map_option word_of_int (se_ChainVersion e), canon_event (se_Event e),
     se_PrevHash e, se_RowHash e)"

definition wf_row :: "stored_event \<Rightarrow> bool" where
  "wf_row e \<longleftrightarrow> is_int64 (se_ID e) \<and> wf_event (se_Event e)"

text \<open>
  The byte strings the verification of a trail hashes: one preimage per row, and the seed of the
  pinned genesis hash.
\<close>

definition row_preimage :: "stored_event \<Rightarrow> bytes" where
  "row_preimage e = rowPreimage (se_ID e) (se_Event e)
     (case se_ChainVersion e of None \<Rightarrow> 0 | Some v \<Rightarrow> word_of_int v) (se_PrevHash e)"

definition trail_preimages :: "stored_event list \<Rightarrow> bytes set" where
  "trail_preimages es = insert (str_bytes GenesisSeed) (row_preimage ` set es)"

lemma row_hash_preimage: "verifyRowContent e = Inr None \<Longrightarrow> se_RowHash e = sha256 (row_preimage e)"
  by (auto simp: verifyRowContent_ok_iff row_preimage_def)

lemma row_hash_binds:
  assumes "verifyRowContent e = Inr None" "verifyRowContent d = Inr None"
    and "wf_row e" "wf_row d" "se_RowHash e = se_RowHash d"
  shows "row_view e = row_view d \<or> sha256_collision (row_preimage e) (row_preimage d)"
proof -
  from assms(1,2) obtain v w where v: "se_ChainVersion e = Some v" and w: "se_ChainVersion d = Some w"
    unfolding verifyRowContent_ok_iff by blast
  have "row_preimage e = row_preimage d \<or> sha256_collision (row_preimage e) (row_preimage d)"
    using assms(5) row_hash_preimage[OF assms(1)] row_hash_preimage[OF assms(2)]
    by (intro sha256_eq_cases) simp
  then show ?thesis
    using assms(3-5) v w by (auto simp: wf_row_def row_preimage_def rowPreimage_eq_iff row_view_def)
qed

lemma genesis_not_row:
  "verifyRowContent e = Inr None \<Longrightarrow> se_RowHash e = GenesisHash \<Longrightarrow>
     sha256_collision (str_bytes GenesisSeed) (row_preimage e) \<and>
     sha256_collision (row_preimage e) (str_bytes GenesisSeed)"
proof -
  assume e: "verifyRowContent e = Inr None" "se_RowHash e = GenesisHash"
  have "str_bytes GenesisSeed \<noteq> row_preimage e"
    by (simp add: row_preimage_def domains_separate(4))
  with e row_hash_preimage[OF e(1)] show ?thesis
    by (auto simp: sha256_collision_def GenesisHash_def GenesisFromSeed_def)
qed

lemma chain_determined_by_head:
  assumes "chain_ok GenesisHash es" "chain_ok GenesisHash ds"
    and "end_hash GenesisHash es = end_hash GenesisHash ds"
    and "list_all wf_row es" "list_all wf_row ds"
  shows "map row_view es = map row_view ds \<or>
    sha256_collision_in (trail_preimages es) (trail_preimages ds)"
  using assms
proof (induction es arbitrary: ds rule: rev_induct)
  case Nil
  show ?case
  proof (cases ds rule: rev_cases)
    case (snoc ds' d)
    with Nil have "verifyRowContent d = Inr None" "se_RowHash d = GenesisHash"
      by (simp_all add: chain_ok_append)
    from genesis_not_row[OF this] snoc show ?thesis
      by (auto simp: sha256_collision_in_def trail_preimages_def)
  qed simp
next
  case (snoc e es)
  show ?case
  proof (cases ds rule: rev_cases)
    case Nil
    with snoc.prems have "verifyRowContent e = Inr None" "se_RowHash e = GenesisHash"
      by (simp_all add: chain_ok_append)
    from genesis_not_row[OF this] Nil show ?thesis
      by (auto simp: sha256_collision_in_def trail_preimages_def)
  next
    case ds: (snoc ds' d)
    from snoc.prems ds have e: "se_PrevHash e = end_hash GenesisHash es" "verifyRowContent e = Inr None"
      and d: "se_PrevHash d = end_hash GenesisHash ds'" "verifyRowContent d = Inr None"
      and ok: "chain_ok GenesisHash es" "chain_ok GenesisHash ds'"
      and wf: "wf_row e" "wf_row d" "list_all wf_row es" "list_all wf_row ds'"
      and eq: "se_RowHash e = se_RowHash d"
      by (simp_all add: chain_ok_append)
    from row_hash_binds[OF e(2) d(2) wf(1,2) eq] consider "row_view e = row_view d"
      | "sha256_collision (row_preimage e) (row_preimage d)"
      by blast
    then show ?thesis
    proof cases
      case 1
      then have "end_hash GenesisHash es = end_hash GenesisHash ds'"
        using e(1) d(1) by (simp add: row_view_def)
      from snoc.IH[OF ok this wf(3,4)] 1 ds show ?thesis
        by (auto simp: trail_preimages_def intro: sha256_collision_in_mono)
    next
      case 2
      with ds show ?thesis by (auto simp: sha256_collision_in_def trail_preimages_def)
    qed
  qed
qed

subsection \<open>Acceptances waive exactly what they name\<close>

lemma waive_Nil [simp]: "waive [] f = None"
  by (simp add: waive_def)

lemma waive_None_iff: "waive accs f = None \<longleftrightarrow> (\<forall>a\<in>set accs. \<not> covers a f)"
  by (auto simp: waive_def find_None_iff)

definition waived :: "accepted list \<Rightarrow> finding \<Rightarrow> bool" where
  "waived accs f \<longleftrightarrow> waive accs f \<noteq> None"

lemma indexOfID_from_Some:
  "indexOfID_from i es k = Some j \<Longrightarrow> i \<le> j \<and> j < i + length es \<and> se_ID (es ! (j - i)) = k"
proof (induction es arbitrary: i)
  case (Cons e es)
  then show ?case
    by (cases "se_ID e = k") (auto simp: nth_Cons' dest!: Cons.IH split: if_splits)
qed simp

lemma indexOfID_Some: "indexOfID es k = Some j \<Longrightarrow> j < length es \<and> se_ID (es ! j) = k"
  using indexOfID_from_Some[of 0 es k j] by (simp add: indexOfID_def)

lemma indexOfID_from_None: "indexOfID_from i es k = None \<longleftrightarrow> k \<notin> se_ID ` set es"
  by (induction es arbitrary: i) auto

lemma indexOfID_None: "indexOfID es k = None \<longleftrightarrow> k \<notin> se_ID ` set es"
  by (simp add: indexOfID_def indexOfID_from_None)

text \<open>The finding of a tail walk names a row of the segment walked.\<close>

lemma VerifyTail_finding_in:
  "VerifyTail hh es = Inr (Some f) \<Longrightarrow> DivergentID f \<in> se_ID ` set es"
  using verifyTail_loop_Some[of "HeadHash hh" es f] by (auto simp: VerifyTail_def)

lemma VerifyTail_finding_index:
  assumes "VerifyTail hh (drop i es) = Inr (Some f)" and "distinct (map se_ID es)"
  shows "\<exists>at. indexOfID es (DivergentID f) = Some at \<and> i \<le> at \<and> at < length es"
proof -
  from VerifyTail_finding_in[OF assms(1)] obtain j where
    j: "j < length (drop i es)" "se_ID (drop i es ! j) = DivergentID f"
    by (auto simp: in_set_conv_nth)
  then have ij: "i + j < length es" "se_ID (es ! (i + j)) = DivergentID f" by auto
  then have "indexOfID es (DivergentID f) \<noteq> None"
    by (auto simp: indexOfID_None intro!: image_eqI[of _ _ "es ! (i + j)"])
  then obtain at where at: "indexOfID es (DivergentID f) = Some at" by blast
  from indexOfID_Some[OF at] ij assms(2) have "at = i + j"
    by (metis length_map nth_eq_iff_index_eq nth_map)
  with at ij show ?thesis by simp
qed

lemma walkPage_total:
  assumes "distinct (map se_ID es)"
  shows "\<exists>r. walkPage accs es i hh passed = Some r"
proof (induction "length es - i" arbitrary: i hh passed rule: less_induct)
  case less
  show ?case
  proof (cases "\<exists>f resume at passed'. i < length es \<and> VerifyTail hh (drop i es) = Inr (Some f) \<and>
      waive accs f = Some resume \<and> indexOfID es (DivergentID f) = Some at \<and>
      contentStep accs f (es ! at) (passed @ [f]) = Inr passed'")
    case True
    then obtain f resume at passed' where
      h: "i < length es" "VerifyTail hh (drop i es) = Inr (Some f)" "waive accs f = Some resume"
        "indexOfID es (DivergentID f) = Some at"
        "contentStep accs f (es ! at) (passed @ [f]) = Inr passed'" by blast
    with VerifyTail_finding_index[OF h(2) assms] have "length es - (at + 1) < length es - i" by auto
    from less[OF this] h show ?thesis by (simp add: walkPage.simps[of accs es i])
  next
    case False
    then show ?thesis
      by (auto simp: walkPage.simps[of accs es i] split: sum.splits option.splits)
  qed
qed

text \<open>Without acceptances a page is one tail walk.\<close>

lemma walkPage_no_acceptance:
  "es \<noteq> [] \<Longrightarrow> walkPage [] es 0 hh passed =
    (case VerifyTail hh es of
       Inl e \<Rightarrow> Some (PageErr e)
     | Inr None \<Rightarrow> Some (PageDone hh passed)
     | Inr (Some f) \<Rightarrow> Some (PageStop f passed))"
  by (simp add: walkPage.simps split: sum.splits option.splits)

text \<open>
  A finding that stops the walk is covered by no acceptance, and every divergence passed over is
  covered by one.
\<close>

definition page_sound :: "accepted list \<Rightarrow> page_result \<Rightarrow> bool" where
  "page_sound accs r =
    (case r of
       PageErr e \<Rightarrow> True
     | PageStop f ps \<Rightarrow> \<not> waived accs f \<and> list_all (waived accs) ps
     | PageDone hh ps \<Rightarrow> list_all (waived accs) ps)"

lemma contentStep_sound:
  assumes "list_all (waived accs) ps"
  shows "contentStep accs f e ps = Inl r \<Longrightarrow> page_sound accs r"
    and "contentStep accs f e ps = Inr ps' \<Longrightarrow> list_all (waived accs) ps'"
  using assms
  by (auto simp: contentStep_def page_sound_def waived_def split: if_splits sum.splits option.splits)

lemma walkPage_sound:
  assumes "distinct (map se_ID es)"
  shows "walkPage accs es i hh passed = Some r \<Longrightarrow> list_all (waived accs) passed \<Longrightarrow> page_sound accs r"
proof (induction "length es - i" arbitrary: i hh passed rule: less_induct)
  case less
  show ?case
  proof (cases "\<exists>f resume at. i < length es \<and> VerifyTail hh (drop i es) = Inr (Some f) \<and>
      waive accs f = Some resume \<and> indexOfID es (DivergentID f) = Some at")
    case True
    then obtain f resume at where
      h: "i < length es" "VerifyTail hh (drop i es) = Inr (Some f)" "waive accs f = Some resume"
        "indexOfID es (DivergentID f) = Some at" by blast
    from h(3) less.prems(2) have ps: "list_all (waived accs) (passed @ [f])"
      by (simp add: waived_def)
    show ?thesis
    proof (cases "contentStep accs f (es ! at) (passed @ [f])")
      case (Inl q)
      with h less.prems(1) contentStep_sound(1)[OF ps Inl] show ?thesis
        by (simp add: walkPage.simps[of accs es i])
    next
      case (Inr ps')
      from VerifyTail_finding_index[OF h(2) assms] h have "length es - (at + 1) < length es - i"
        by auto
      from less.hyps[OF this _ contentStep_sound(2)[OF ps Inr]] less.prems(1) h Inr show ?thesis
        by (simp add: walkPage.simps[of accs es i])
    qed
  next
    case False
    show ?thesis
    proof (cases "i < length es \<and> (\<exists>f. VerifyTail hh (drop i es) = Inr (Some f))")
      case True
      then obtain f where h: "i < length es" "VerifyTail hh (drop i es) = Inr (Some f)" by blast
      with False VerifyTail_finding_index[OF h(2) assms] have "waive accs f = None"
        by (cases "waive accs f") auto
      with h less.prems show ?thesis
        by (auto simp: walkPage.simps[of accs es i] page_sound_def waived_def)
    next
      case False
      with less.prems show ?thesis
        by (auto simp: walkPage.simps[of accs es i] page_sound_def split: if_splits sum.splits option.splits)
    qed
  qed
qed

lemma crossCheck_sound:
  "list_all (waived accs) ps \<Longrightarrow>
     (case crossCheck accs es rem ps of
        Inl (f, ps') \<Rightarrow> \<not> waived accs f \<and> list_all (waived accs) ps'
      | Inr (rem', ps') \<Rightarrow> list_all (waived accs) ps')"
proof (induction es arbitrary: rem ps)
  case (Cons e es)
  show ?case
  proof (cases "map_of rem (se_ID e)")
    case None
    with Cons show ?thesis by simp
  next
    case (Some want)
    let ?f = "\<lparr>DivergentID = se_ID e, Reason = ReasonAnchorHeadMismatch,
      Expected = want, Actual = se_RowHash e\<rparr>"
    show ?thesis
    proof (cases "waive accs ?f")
      case None
      then have "\<not> waived accs ?f" by (simp add: waived_def)
      with None Some Cons show ?thesis by (simp add: Let_def)
    next
      case W: (Some r)
      then have "waived accs ?f" by (simp add: waived_def)
      then have "list_all (waived accs) (ps @ [?f])" using Cons.prems by simp
      with W Some Cons.IH Cons.prems show ?thesis by (simp add: Let_def)
    qed
  qed
qed simp

lemma missingAnchor_sound:
  "list_all (waived accs) ps \<Longrightarrow> missingAnchor accs hh rem ps = (r, ps') \<Longrightarrow>
     list_all (waived accs) ps' \<and> (\<forall>f. r = Some f \<longrightarrow> \<not> waived accs f)"
  by (auto simp: missingAnchor_def Let_def waived_def split: if_splits option.splits)

subsection \<open>Pages of an ordered list\<close>

lemma sorted_ids_distinct: "sorted_wrt (<) (map se_ID es) \<Longrightarrow> distinct (map se_ID es)"
  by (simp add: strict_sorted_iff)

lemma sorted_after_nth:
  "sorted_wrt (<) (map se_ID es) \<Longrightarrow> m < length es \<Longrightarrow>
     filter (\<lambda>e. se_ID (es ! m) < se_ID e) es = drop (Suc m) es"
proof (induction es arbitrary: m)
  case (Cons e es)
  show ?case
  proof (cases m)
    case 0
    with Cons.prems show ?thesis by (auto intro: filter_True)
  next
    case (Suc k)
    with Cons.prems have "\<not> se_ID (es ! k) < se_ID e" by (auto simp: not_less less_imp_le)
    with Suc Cons show ?thesis by simp
  qed
qed simp

lemma sorted_after_page:
  assumes "sorted_wrt (<) (map se_ID es)" "es \<noteq> []" "0 < n"
  shows "filter (\<lambda>e. se_ID (last (take n es)) < se_ID e) es = drop n es"
proof -
  have "last (take n es) = es ! (min n (length es) - 1)"
    using assms(2,3) by (cases "length es \<le> n") (auto simp: last_conv_nth min_def)
  then show ?thesis
    using sorted_after_nth[OF assms(1), of "min n (length es) - 1"] assms(2,3)
    by (cases "n \<le> length es") (auto simp: min_def not_le)
qed

subsection \<open>The contract of the reader, and the walk under it\<close>

text \<open>
  What \<^verbatim>\<open>ChainedEventSource\<close> promises while the trail does not change: the rows in id order,
  at most \<open>limit\<close> of them, starting after the cursor.
\<close>

locale chained_source =
  fixes src :: event_source and rows :: "stored_event list"
  assumes page: "src k cursor n = Inr (take n (filter (\<lambda>e. cursor < se_ID e) rows))"
    and ordered: "sorted_wrt (<) (map se_ID rows)"
begin

definition after :: "int64 \<Rightarrow> stored_event list" where
  "after cursor = filter (\<lambda>e. cursor < se_ID e) rows"

lemma src_after: "src k cursor n = Inr (take n (after cursor))"
  by (simp add: page after_def)

lemma after_sorted: "sorted_wrt (<) (map se_ID (after cursor))"
  using ordered by (simp add: after_def sorted_wrt_map sorted_wrt_filter)

lemma page_distinct: "distinct (map se_ID (take n (after cursor)))"
  using after_sorted by (metis sorted_ids_distinct distinct_take take_map)

lemma after_next:
  assumes "take n (after cursor) \<noteq> []"
  shows "after (se_ID (last (take n (after cursor)))) = drop n (after cursor)"
proof -
  let ?l = "se_ID (last (take n (after cursor)))"
  have ne: "after cursor \<noteq> []" "0 < n" using assms by auto
  have "last (take n (after cursor)) \<in> set (after cursor)"
    using assms last_in_set[of "take n (after cursor)"] in_set_takeD by fast
  then have "cursor < ?l" by (auto simp: after_def)
  then have "after ?l = filter (\<lambda>e. ?l < se_ID e) (after cursor)"
    by (auto simp: after_def intro: filter_cong)
  also have "\<dots> = drop n (after cursor)"
    using sorted_after_page[OF after_sorted ne] .
  finally show ?thesis .
qed

lemma after_shrinks:
  "take n (after cursor) \<noteq> [] \<Longrightarrow>
     length (after (se_ID (last (take n (after cursor))))) < length (after cursor)"
  by (auto simp: after_next)

text \<open>The walk returns, whatever was accepted, and a finding it returns is not an accepted one.\<close>

lemma walkPages_total:
  assumes "0 < n"
  shows "\<exists>r. walkPages n src accs k cursor hh rem ps = Some r"
proof (induction "length (after cursor)" arbitrary: k cursor hh rem ps rule: less_induct)
  case less
  let ?pg = "take n (after cursor)"
  show ?case
  proof (cases "?pg = []")
    case True
    then show ?thesis by (simp add: walkPages.simps[of n src accs k] src_after)
  next
    case False
    obtain r where r: "walkPage accs ?pg 0 hh ps = Some r"
      using walkPage_total[OF page_distinct] by blast
    from False r less[OF after_shrinks[OF False]] show ?thesis
      by (auto simp: walkPages.simps[of n src accs k] src_after
          split: page_result.split sum.split prod.split)
  qed
qed

lemma walkPages_sound:
  "walkPages n src accs k cursor hh rem ps = Some (Inr (r, ps')) \<Longrightarrow> list_all (waived accs) ps \<Longrightarrow>
     list_all (waived accs) ps' \<and> (\<forall>f. r = Some f \<longrightarrow> \<not> waived accs f)"
proof (induction "length (after cursor)" arbitrary: k cursor hh rem ps rule: less_induct)
  case less
  let ?pg = "take n (after cursor)"
  show ?case
  proof (cases "?pg = []")
    case True
    with less.prems show ?thesis
      using missingAnchor_sound[of accs ps hh rem r ps']
      by (simp add: walkPages.simps[of n src accs k] src_after)
  next
    case False
    obtain q where q: "walkPage accs ?pg 0 hh ps = Some q"
      using walkPage_total[OF page_distinct] by blast
    from walkPage_sound[OF page_distinct q less.prems(2)] have snd: "page_sound accs q" .
    show ?thesis
    proof (cases q)
      case (PageErr e)
      with False q less.prems(1) show ?thesis
        by (simp add: walkPages.simps[of n src accs k] src_after)
    next
      case (PageStop f fs)
      with False q less.prems(1) snd show ?thesis
        by (auto simp: walkPages.simps[of n src accs k] src_after page_sound_def)
    next
      case (PageDone hd' fs)
      with snd have fs: "list_all (waived accs) fs" by (simp add: page_sound_def)
      show ?thesis
      proof (cases "crossCheck accs ?pg rem fs")
        case (Inl p)
        with PageDone False q less.prems(1) crossCheck_sound[OF fs, of ?pg rem] show ?thesis
          by (auto simp: walkPages.simps[of n src accs k] src_after split: prod.splits)
      next
        case (Inr p)
        obtain rem' fs' where p: "p = (rem', fs')" by (cases p)
        with Inr crossCheck_sound[OF fs, of ?pg rem] have "list_all (waived accs) fs'" by simp
        from less.hyps[OF after_shrinks[OF False] _ this] PageDone False q less.prems(1) Inr p
        show ?thesis by (auto simp: walkPages.simps[of n src accs k] src_after)
      qed
    qed
  qed
qed

end

subsection \<open>The walk without acceptances is one pass with the anchors as witnesses\<close>

lemma map_of_remainingAnchors:
  "map_of (remainingAnchors as) u =
     (if 0 < u then map_of (rev (map (\<lambda>a. (ac_UpToID a, ac_HeadHash a)) as)) u else None)"
proof (induction as rule: rev_induct)
  case Nil
  then show ?case by (simp add: remainingAnchors_def)
next
  case (snoc a as)
  have "map_of (remainingAnchors (as @ [a])) u =
      (if 0 < ac_UpToID a \<and> ac_UpToID a = u then Some (ac_HeadHash a)
       else map_of (remainingAnchors as) u)"
    by (auto simp: remainingAnchors_def update_conv')
  with snoc show ?case by auto
qed

lemma map_of_filter_fst:
  "map_of (filter (\<lambda>(k, _). P k) xs) u = (if P u then map_of xs u else None)"
  by (induction xs) auto

lemma crossCheck_no_acceptance:
  "distinct (map se_ID es) \<Longrightarrow>
     crossCheck [] es rem ps = Inr (rem', ps') \<longleftrightarrow>
       (\<forall>e\<in>set es. \<forall>w. map_of rem (se_ID e) = Some w \<longrightarrow> se_RowHash e = w) \<and>
       rem' = filter (\<lambda>(k, _). k \<notin> se_ID ` set es) rem \<and> ps' = ps"
proof (induction es arbitrary: rem)
  case Nil
  then show ?case by auto
next
  case (Cons e es)
  have del: "AList.delete (se_ID e) rem = filter (\<lambda>(k, _). k \<noteq> se_ID e) rem"
    by (auto simp: AList.delete_eq intro: filter_cong)
  have flt: "filter (\<lambda>(k, _). k \<notin> se_ID ` set es) (AList.delete (se_ID e) rem) =
      filter (\<lambda>(k, _). k \<notin> se_ID ` set (e # es)) rem"
    by (auto simp: del intro!: filter_cong)
  have look: "map_of (AList.delete (se_ID e) rem) (se_ID d) = map_of rem (se_ID d)"
    if "d \<in> set es" for d
  proof -
    have "se_ID d \<in> se_ID ` set es" "se_ID e \<notin> se_ID ` set es" using Cons.prems that by simp_all
    then have "se_ID d \<noteq> se_ID e" by metis
    then show ?thesis by (simp add: delete_conv')
  qed
  show ?case
  proof (cases "map_of rem (se_ID e)")
    case None
    then have "filter (\<lambda>(k, _). k \<notin> se_ID ` set es) rem =
        filter (\<lambda>(k, _). k \<notin> se_ID ` set (e # es)) rem"
      by (intro filter_cong) (force simp: map_of_eq_None_iff)+
    with None Cons show ?thesis by auto
  next
    case (Some w)
    with Cons.IH[of "AList.delete (se_ID e) rem"] Cons.prems show ?thesis
      by (simp only: flt crossCheck.simps option.case Let_def waive_Nil) (auto simp: look)
  qed
qed

text \<open>
  The anchored ids split into those of the page just read and those still ahead.
\<close>

lemma anchors_split:
  assumes uniq: "\<And>e d. e \<in> A \<union> B \<Longrightarrow> d \<in> A \<union> B \<Longrightarrow> se_ID e = se_ID d \<Longrightarrow> e = d"
  shows "(\<forall>u h. m u = Some h \<longrightarrow> (\<exists>e\<in>A \<union> B. se_ID e = u \<and> se_RowHash e = h)) \<longleftrightarrow>
    (\<forall>e\<in>A. \<forall>w. m (se_ID e) = Some w \<longrightarrow> se_RowHash e = w) \<and>
    (\<forall>u h. (if u \<notin> se_ID ` A then m u else None) = Some h \<longrightarrow>
      (\<exists>e\<in>B. se_ID e = u \<and> se_RowHash e = h))" (is "?L \<longleftrightarrow> ?P \<and> ?R")
proof (intro iffI conjI)
  assume L: ?L
  show ?P
  proof (intro ballI allI impI)
    fix e w assume e: "e \<in> A" and w: "m (se_ID e) = Some w"
    from L w obtain d where d: "d \<in> A \<union> B" "se_ID d = se_ID e" "se_RowHash d = w" by blast
    then have "d = e" using uniq e by blast
    with d show "se_RowHash e = w" by simp
  qed
  show ?R
  proof (intro allI impI)
    fix u h assume u: "(if u \<notin> se_ID ` A then m u else None) = Some h"
    then have "u \<notin> se_ID ` A" "m u = Some h" by (simp_all split: if_splits)
    with L show "\<exists>e\<in>B. se_ID e = u \<and> se_RowHash e = h" by blast
  qed
next
  assume PR: "?P \<and> ?R"
  show ?L
  proof (intro allI impI)
    fix u h assume u: "m u = Some h"
    show "\<exists>e\<in>A \<union> B. se_ID e = u \<and> se_RowHash e = h"
    proof (cases "u \<in> se_ID ` A")
      case True
      with PR u show ?thesis by blast
    next
      case False
      with PR u show ?thesis by (metis UnI2)
    qed
  qed
qed

lemma map_result_fst_iff:
  "map_option (map_sum id fst) x = Some (Inr a) \<longleftrightarrow> (\<exists>b. x = Some (Inr (a, b)))"
proof (cases x)
  case (Some r)
  then show ?thesis by (cases r) auto
qed simp

lemma pageSize_pos [simp]: "0 < pageSize"
  by (simp add: pageSize_def)

context chained_source
begin

lemma walkPages_clean_iff:
  assumes "0 < n"
  shows "walkPages n src [] k cursor hh rem [] = Some (Inr (None, [])) \<longleftrightarrow>
    chain_ok (HeadHash hh) (after cursor) \<and>
    (\<forall>u h. map_of rem u = Some h \<longrightarrow> (\<exists>e\<in>set (after cursor). se_ID e = u \<and> se_RowHash e = h))"
proof (induction "length (after cursor)" arbitrary: k cursor hh rem rule: less_induct)
  case less
  let ?pg = "take n (after cursor)"
  let ?l = "last ?pg"
  show ?case
  proof (cases "?pg = []")
    case True
    then have "after cursor = []" using assms by simp
    with True show ?thesis
      by (cases rem) (auto simp: walkPages.simps[of n src "[]" k] src_after missingAnchor_def Let_def)
  next
    case False
    have split: "after cursor = ?pg @ drop n (after cursor)" by simp
    let ?rem' = "filter (\<lambda>(k, _). k \<notin> se_ID ` set ?pg) rem"
    let ?hh' = "\<lparr>LastID = se_ID ?l, HeadHash = se_RowHash ?l\<rparr>"
    have step: "walkPages n src [] k cursor hh rem [] = Some (Inr (None, [])) \<longleftrightarrow>
        chain_ok (HeadHash hh) ?pg \<and>
        (\<forall>e\<in>set ?pg. \<forall>w. map_of rem (se_ID e) = Some w \<longrightarrow> se_RowHash e = w) \<and>
        walkPages n src [] (Suc k) (se_ID ?l) ?hh' ?rem' [] = Some (Inr (None, []))"
    proof (cases "crossCheck [] ?pg rem []")
      case (Inl x)
      with crossCheck_no_acceptance[OF page_distinct, of n cursor rem "[]" ?rem' "[]"] False show ?thesis
        by (auto simp: walkPages.simps[of n src "[]" k] src_after walkPage_no_acceptance
            simp flip: VerifyTail_None_iff split: sum.splits option.splits prod.splits)
    next
      case (Inr p)
      then have p: "p = (?rem', [])"
        and P: "\<forall>e\<in>set ?pg. \<forall>w. map_of rem (se_ID e) = Some w \<longrightarrow> se_RowHash e = w"
        using crossCheck_no_acceptance[OF page_distinct, of n cursor rem "[]" "fst p" "snd p"]
        by (simp_all add: prod_eq_iff)
      show ?thesis
        using Inr p P False
        by (auto simp: walkPages.simps[of n src "[]" k] src_after walkPage_no_acceptance
            simp flip: VerifyTail_None_iff split: sum.splits option.splits)
    qed
    have IH: "walkPages n src [] (Suc k) (se_ID ?l) ?hh' ?rem' [] = Some (Inr (None, [])) \<longleftrightarrow>
        chain_ok (se_RowHash ?l) (drop n (after cursor)) \<and>
        (\<forall>u h. map_of ?rem' u = Some h \<longrightarrow>
          (\<exists>e\<in>set (drop n (after cursor)). se_ID e = u \<and> se_RowHash e = h))"
      using less[OF after_shrinks[OF False], of "Suc k" ?hh' ?rem'] False
      by (simp add: after_next)
    have chain: "chain_ok (HeadHash hh) (after cursor) \<longleftrightarrow>
        chain_ok (HeadHash hh) ?pg \<and> chain_ok (se_RowHash ?l) (drop n (after cursor))"
      using False by (subst split) (simp only: chain_ok_append end_hash_def if_False)
    have uniq: "e = d" if "e \<in> set (after cursor)" "d \<in> set (after cursor)" "se_ID e = se_ID d" for e d
      using that sorted_ids_distinct[OF after_sorted, of cursor]
      by (auto simp: distinct_map dest: inj_onD)
    have mem: "set (after cursor) = set ?pg \<union> set (drop n (after cursor))"
      by (subst split) (simp only: set_append)
    have "(\<forall>u h. map_of rem u = Some h \<longrightarrow> (\<exists>e\<in>set (after cursor). se_ID e = u \<and> se_RowHash e = h)) \<longleftrightarrow>
        (\<forall>e\<in>set ?pg. \<forall>w. map_of rem (se_ID e) = Some w \<longrightarrow> se_RowHash e = w) \<and>
        (\<forall>u h. map_of ?rem' u = Some h \<longrightarrow>
          (\<exists>e\<in>set (drop n (after cursor)). se_ID e = u \<and> se_RowHash e = h))"
      unfolding mem map_of_filter_fst by (rule anchors_split) (use uniq mem in blast)
    with step IH chain show ?thesis by blast
  qed
qed

lemma walkPages_no_error:
  "0 < n \<Longrightarrow> length (HeadHash hh) = 32 \<Longrightarrow> walkPages n src [] k cursor hh rem ps \<noteq> Some (Inl err)"
proof (induction "length (after cursor)" arbitrary: k cursor hh rem ps rule: less_induct)
  case less
  let ?pg = "take n (after cursor)"
  show ?case
  proof (cases "?pg \<noteq> [] \<and> VerifyTail hh ?pg = Inr None")
    case True
    then have "verifyRowContent (last ?pg) = Inr None"
      by (metis VerifyTail_None_iff append_butlast_last_id chain_ok.simps(2) chain_ok_append)
    then have "length (se_RowHash (last ?pg)) = 32" by (auto simp: verifyRowContent_ok_iff)
    with True less.hyps[OF after_shrinks, of n] less.prems(1) show ?thesis
      by (auto simp: walkPages.simps[of n src "[]" k] src_after walkPage_no_acceptance
          split: sum.splits prod.splits)
  next
    case False
    with verifyTail_loop_no_error[OF less.prems(2), of ?pg] show ?thesis
      by (auto simp: walkPages.simps[of n src "[]" k] src_after walkPage_no_acceptance VerifyTail_def
          split: sum.splits option.splits)
  qed
qed

lemma VerifyFromGenesis_clean_iff:
  "VerifyFromGenesis src genesis anchors = Some (Inr None) \<longleftrightarrow>
    chain_ok genesis (after 0) \<and>
    (\<forall>u h. map_of (remainingAnchors anchors) u = Some h \<longrightarrow>
       (\<exists>e\<in>set (after 0). se_ID e = u \<and> se_RowHash e = h))"
proof -
  have "VerifyFromGenesisAccepting src genesis anchors [] = Some (Inr (None, ps)) \<Longrightarrow> ps = []" for ps
    unfolding VerifyFromGenesisAccepting_def
    by (drule walkPages_sound) (simp_all add: list_all_iff waived_def)
  then have "VerifyFromGenesis src genesis anchors = Some (Inr None) \<longleftrightarrow>
      VerifyFromGenesisAccepting src genesis anchors [] = Some (Inr (None, []))"
    unfolding VerifyFromGenesis_def map_result_fst_iff by metis
  then show ?thesis
    using walkPages_clean_iff[of pageSize 0 0 "\<lparr>LastID = 0, HeadHash = genesis\<rparr>"]
    by (simp add: VerifyFromGenesisAccepting_def)
qed

lemma VerifyFromGenesis_returns:
  assumes "length genesis = 32"
  shows "\<exists>r. VerifyFromGenesis src genesis anchors = Some (Inr r)"
proof -
  obtain r where r: "VerifyFromGenesisAccepting src genesis anchors [] = Some r"
    using walkPages_total[of pageSize "[]" 0 0 "\<lparr>LastID = 0, HeadHash = genesis\<rparr>"]
    unfolding VerifyFromGenesisAccepting_def by fastforce
  moreover have "r \<noteq> Inl err" for err
    using r walkPages_no_error[of pageSize "\<lparr>LastID = 0, HeadHash = genesis\<rparr>"] assms
    by (auto simp: VerifyFromGenesisAccepting_def)
  ultimately show ?thesis
    by (cases r) (auto simp: VerifyFromGenesis_def)
qed

end

subsection \<open>The database reader meets the contract\<close>

definition table_source :: "audit_table \<Rightarrow> event_source" where
  "table_source t = (\<lambda>k cursor n. Inr (ChainedEventsAfter t cursor n))"

lemma chained_rows_sorted: "sorted_wrt (<) (map se_ID (chained_rows t))"
  using table_rows_sorted[of t] by (simp add: chained_rows_def sorted_wrt_map sorted_wrt_filter)

interpretation table_source: chained_source "table_source t" "chained_rows t" for t
  by unfold_locales
    (simp_all add: table_source_def ChainedEventsAfter_def chained_rows_sorted, simp add: chained_rows_def conj_commute)

subsection \<open>Properties\<close>

text \<open>A one-row trail, for the concrete instances below.\<close>

definition sample_row :: stored_event where
  "sample_row = \<lparr>se_ID = 1, se_Event = sample_event, se_ChainVersion = Some 1,
     se_PrevHash = GenesisHash, se_RowHash = sha256 (rowPreimage 1 sample_event 1 GenesisHash)\<rparr>"

definition sample_table :: audit_table where
  "sample_table = Table [sample_row]"

lemma length_GenesisHash [simp]: "length GenesisHash = 32"
  by (simp add: GenesisHash_def GenesisFromSeed_def)

lemma sample_row_content: "verifyRowContent sample_row = Inr None"
  by (simp add: verifyRowContent_ok_iff sample_row_def)

lemma sample_chain_ok: "chain_ok GenesisHash [sample_row]"
  using sample_row_content by (simp add: sample_row_def)

lemma wf_sample_row: "wf_row sample_row"
  using wf_sample_event by (simp add: wf_row_def sample_row_def is_int64_def)

lemma sample_table_rows [simp]: "table_rows sample_table = [sample_row]"
  unfolding sample_table_def by (rule Table_inverse) (simp add: sample_row_def is_int64_def)

lemma sample_chained_rows [simp]: "chained_rows sample_table = [sample_row]"
  by (simp add: chained_rows_def sample_row_def)

definition genesis_head :: chain_head where
  "genesis_head = \<lparr>LastID = 0, HeadHash = GenesisHash\<rparr>"

text \<open>
  C22: the chain is tamper-evident. Two trails that both verify from the pinned genesis and end in
  the same head hash contain the same rows (ids, versions, canonical events and hashes), in the
  same order and number, or the bytes hashed in verifying them contain a SHA-256 collision.
\<close>

theorem chain_tamper_evident:
  assumes "VerifyTail genesis_head es = Inr None" "VerifyTail genesis_head ds = Inr None"
    and "end_hash GenesisHash es = end_hash GenesisHash ds"
    and "list_all wf_row es" "list_all wf_row ds"
  shows "map row_view es = map row_view ds \<or>
    sha256_collision_in (trail_preimages es) (trail_preimages ds)"
  using assms chain_determined_by_head by (simp add: VerifyTail_None_iff genesis_head_def)

theorem chain_tamper_evident_witness:
  "VerifyTail genesis_head [sample_row] = Inr None \<and> list_all wf_row [sample_row] \<and>
   (map row_view [sample_row] = map row_view [sample_row] \<or>
    sha256_collision_in (trail_preimages [sample_row]) (trail_preimages [sample_row]))"
proof -
  have v: "VerifyTail genesis_head [sample_row] = Inr None"
    using sample_chain_ok by (simp add: VerifyTail_None_iff genesis_head_def)
  from chain_tamper_evident[OF v v] v wf_sample_row show ?thesis by simp
qed

text \<open>
  A finding of the tail walk is the first divergence. The rows before it are intact, the row it
  names is not, and it is the row's link or the row's content that fails, link first.
\<close>

lemma tail_finding_is_first_divergence:
  assumes "VerifyTail h es = Inr (Some f)"
  shows "\<exists>pre e post. es = pre @ e # post \<and> VerifyTail h pre = Inr None \<and>
    DivergentID f = se_ID e \<and>
    (if Reason f = ReasonPrevHashMismatch
     then se_PrevHash e \<noteq> end_hash (HeadHash h) pre \<and> Actual f = se_PrevHash e
     else se_PrevHash e = end_hash (HeadHash h) pre \<and> verifyRowContent e = Inr (Some f))"
proof -
  from assms have "verifyTail_loop (HeadHash h) es = Inr (Some f)" by (simp add: VerifyTail_def)
  from verifyTail_loop_Some[OF this] obtain pre e post where
    es: "es = pre @ e # post" "chain_ok (HeadHash h) pre" "DivergentID f = se_ID e"
    and bad: "\<not> (se_PrevHash e = end_hash (HeadHash h) pre \<and> verifyRowContent e = Inr None)"
    by (auto simp: chain_ok_append)
  with assms have "verifyTail_loop (end_hash (HeadHash h) pre) (e # post) = Inr (Some f)"
    by (simp add: VerifyTail_def verifyTail_loop_append)
  with bad have "if Reason f = ReasonPrevHashMismatch
     then se_PrevHash e \<noteq> end_hash (HeadHash h) pre \<and> Actual f = se_PrevHash e
     else se_PrevHash e = end_hash (HeadHash h) pre \<and> verifyRowContent e = Inr (Some f)"
    using verifyRowContent_cases[of e] by (auto simp: verifyTail_loop_simps split: if_splits)
  with es show ?thesis unfolding VerifyTail_None_iff by blast
qed

text \<open>
  C26: what a clean full verification means. Over the database reader, the paged walk from genesis
  with signed anchors and no acceptances reports nothing exactly when the chained rows with
  positive id are an intact chain from genesis and every anchored id (the last anchor at an id
  counts) has a row with the witnessed hash. It holds for every number of pages.
\<close>

theorem full_verify_clean_iff:
  "VerifyFromGenesis (table_source t) genesis anchors = Some (Inr None) \<longleftrightarrow>
    (let rows = filter (\<lambda>e. 0 < se_ID e) (chained_rows t) in
      VerifyTail \<lparr>LastID = 0, HeadHash = genesis\<rparr> rows = Inr None \<and>
      list_all (\<lambda>u. list_ex (\<lambda>e. se_ID e = u \<and>
          map_of (rev (map (\<lambda>a. (ac_UpToID a, ac_HeadHash a)) anchors)) u = Some (se_RowHash e)) rows)
        (filter ((<) 0) (map ac_UpToID anchors)))"
proof -
  let ?m = "map_of (rev (map (\<lambda>a. (ac_UpToID a, ac_HeadHash a)) anchors))"
  let ?rows = "filter (\<lambda>e. 0 < se_ID e) (chained_rows t)"
  have dom: "(\<exists>h. ?m u = Some h) \<longleftrightarrow> u \<in> ac_UpToID ` set anchors" for u
    using map_of_eq_None_iff[of "rev (map (\<lambda>a. (ac_UpToID a, ac_HeadHash a)) anchors)" u]
    by (cases "?m u") (auto simp: image_image)
  have "(\<forall>u h. map_of (remainingAnchors anchors) u = Some h \<longrightarrow>
        (\<exists>e\<in>set ?rows. se_ID e = u \<and> se_RowHash e = h)) \<longleftrightarrow>
      (\<forall>u\<in>ac_UpToID ` set anchors. 0 < u \<longrightarrow>
        (\<exists>e\<in>set ?rows. se_ID e = u \<and> ?m u = Some (se_RowHash e)))" (is "?L \<longleftrightarrow> ?R")
  proof
    assume l: ?L
    show ?R
    proof (intro ballI impI)
      fix u assume u: "u \<in> ac_UpToID ` set anchors" "0 < u"
      from u(1) dom obtain h where h: "?m u = Some h" by blast
      with u(2) have "map_of (remainingAnchors anchors) u = Some h"
        by (simp add: map_of_remainingAnchors)
      with l h show "\<exists>e\<in>set ?rows. se_ID e = u \<and> ?m u = Some (se_RowHash e)" by blast
    qed
  next
    assume r: ?R
    show ?L
    proof (intro allI impI)
      fix u h assume "map_of (remainingAnchors anchors) u = Some h"
      then have h: "?m u = Some h" "0 < u"
        by (simp_all add: map_of_remainingAnchors split: if_splits)
      with r dom[of u] show "\<exists>e\<in>set ?rows. se_ID e = u \<and> se_RowHash e = h" by fastforce
    qed
  qed
  then show ?thesis
    unfolding table_source.VerifyFromGenesis_clean_iff table_source.after_def Let_def
      VerifyTail_None_iff list_all_iff list_ex_iff
    by auto
qed

text \<open>
  C37: a full verification of a fixed trail returns, and from a 32-byte genesis hash it never ends in
  an internal error: every content of the table gives a finding or a clean result.
\<close>

theorem full_verify_returns:
  assumes "length genesis = 32"
  shows "\<exists>r. VerifyFromGenesis (table_source t) genesis anchors = Some (Inr r)"
  using table_source.VerifyFromGenesis_returns[OF assms] .

theorem full_verify_returns_witness:
  "length GenesisHash = 32 \<and>
   (\<exists>r. VerifyFromGenesis (table_source sample_table) GenesisHash [] = Some (Inr r))"
  using full_verify_returns[of GenesisHash sample_table "[]"] by simp

text \<open>
  C25: a rewrite below a signed anchor is detected. Suppose a trail verified and its row at id
  \<open>u\<close> was anchored. If a later full verification with that anchor reports nothing, then the
  table's rows up to that id are the rows that were anchored, or there is a SHA-256 collision
  between the two trails: no internally consistent rewrite from genesis passes.
\<close>

theorem anchored_rewrite_detected:
  assumes "VerifyTail genesis_head (pre @ [e]) = Inr None" "0 < se_ID e"
    and "\<lparr>ac_UpToID = se_ID e, ac_HeadHash = se_RowHash e\<rparr> \<in> set anchors"
    and "distinct (map ac_UpToID anchors)"
    and "VerifyFromGenesis (table_source t) GenesisHash anchors = Some (Inr None)"
    and "list_all wf_row (pre @ [e])" "list_all wf_row (chained_rows t)"
  shows "\<exists>now later. filter (\<lambda>d. 0 < se_ID d) (chained_rows t) = now @ later \<and>
    (map row_view now = map row_view (pre @ [e]) \<or>
     sha256_collision_in (trail_preimages now) (trail_preimages (pre @ [e])))"
proof -
  let ?rows = "filter (\<lambda>d. 0 < se_ID d) (chained_rows t)"
  have "map_of (rev (map (\<lambda>a. (ac_UpToID a, ac_HeadHash a)) anchors)) (se_ID e) = Some (se_RowHash e)"
    using assms(3,4) distinct_rev[of "map ac_UpToID anchors"]
    by (intro map_of_is_SomeI) (force simp: rev_map comp_def simp del: distinct_rev)+
  with assms(2) have "map_of (remainingAnchors anchors) (se_ID e) = Some (se_RowHash e)"
    by (simp add: map_of_remainingAnchors)
  with assms(5) obtain d where d: "d \<in> set ?rows" "se_RowHash d = se_RowHash e"
    and ok: "chain_ok GenesisHash ?rows"
    by (auto simp: table_source.VerifyFromGenesis_clean_iff table_source.after_def)
  from d(1) obtain xs ys where rows: "?rows = xs @ d # ys" by (auto dest: split_list)
  with ok have "chain_ok GenesisHash (xs @ [d])" by (simp add: chain_ok_append)
  moreover have "list_all wf_row (xs @ [d])"
  proof -
    have "set (xs @ [d]) \<subseteq> set ?rows" using rows by auto
    with assms(7) show ?thesis by (auto simp: list_all_iff)
  qed
  ultimately have "map row_view (xs @ [d]) = map row_view (pre @ [e]) \<or>
      sha256_collision_in (trail_preimages (xs @ [d])) (trail_preimages (pre @ [e]))"
    using assms(1,6) d(2) by (intro chain_determined_by_head)
      (simp_all add: VerifyTail_None_iff genesis_head_def)
  with rows show ?thesis by (intro exI[of _ "xs @ [d]"] exI[of _ ys]) simp
qed

theorem anchored_rewrite_detected_witness:
  "\<exists>now later. filter (\<lambda>d. 0 < se_ID d) (chained_rows sample_table) = now @ later \<and>
    (map row_view now = map row_view [sample_row] \<or>
     sha256_collision_in (trail_preimages now) (trail_preimages [sample_row]))"
proof -
  let ?as = "[\<lparr>ac_UpToID = se_ID sample_row, ac_HeadHash = se_RowHash sample_row\<rparr>]"
  have v: "VerifyTail genesis_head ([] @ [sample_row]) = Inr None"
    using sample_chain_ok by (simp add: VerifyTail_None_iff genesis_head_def)
  have id: "se_ID sample_row = 1" by (simp add: sample_row_def)
  have clean: "VerifyFromGenesis (table_source sample_table) GenesisHash ?as = Some (Inr None)"
    using sample_chain_ok id
    unfolding table_source.VerifyFromGenesis_clean_iff table_source.after_def map_of_remainingAnchors
    by simp
  from anchored_rewrite_detected[OF v _ _ _ clean] wf_sample_row id show ?thesis by simp
qed

text \<open>
  Acceptances waive what they name and nothing else. Over the database reader the walk with
  acceptances always returns; a finding it returns differs from every acceptance in its id, reason
  or one of its hashes, and each divergence it passed over is named exactly by an acceptance.
\<close>

lemma accepted_walk_sound:
  "\<exists>r. VerifyFromGenesisAccepting (table_source t) genesis anchors accs = Some r \<and>
    (case r of Inl err \<Rightarrow> True
     | Inr (found, passed) \<Rightarrow>
        pred_option (\<lambda>f. \<not> list_ex (\<lambda>a. covers a f) accs) found \<and>
        list_all (\<lambda>f. list_ex (\<lambda>a. covers a f) accs) passed)"
proof -
  obtain r where r: "VerifyFromGenesisAccepting (table_source t) genesis anchors accs = Some r"
    using table_source.walkPages_total[OF pageSize_pos] unfolding VerifyFromGenesisAccepting_def
    by blast
  have w: "waived accs f \<longleftrightarrow> list_ex (\<lambda>a. covers a f) accs" for f
    by (simp add: waived_def waive_None_iff list_ex_iff)
  show ?thesis
  proof (cases r)
    case (Inr p)
    obtain found passed where p: "p = (found, passed)" by (cases p)
    with r Inr table_source.walkPages_sound[of pageSize t accs] show ?thesis
      unfolding VerifyFromGenesisAccepting_def
      by (fastforce simp: w[abs_def] pred_option_def)
  qed (use r in simp)
qed

end
