(* ===== verification/Encoding.thy ===== *)
theory Encoding
  imports Prelude
begin

text \<open>
  The text formats the audit monitor writes and reads through Go's standard library: decimal
  integers (\<^verbatim>\<open>strconv\<close>), hexadecimal and base64 byte strings, and JSON documents as
  \<^verbatim>\<open>encoding/json\<close> builds and decodes them. JSON is kept at the level of documents: an object
  body is the sequence of documents its bytes hold, or bytes that are not JSON. Decoding into a
  struct follows the library: unknown keys are ignored, keys match exactly or by case folding, a
  later duplicate wins, null leaves a field as it is, and a value of the wrong type is an error.
\<close>

named_theorems text_simps \<open>round trips of the text encodings\<close>

subsection \<open>Decimal integers\<close>

definition digit_char :: "nat \<Rightarrow> char" where
  "digit_char d = char_of (48 + d)"

definition char_digit :: "char \<Rightarrow> nat option" where
  "char_digit c = (let n = of_char c in if 48 \<le> n \<and> n \<le> 57 then Some (n - 48) else None)"

fun nat_str :: "nat \<Rightarrow> string" where
  "nat_str n = (if n < 10 then [digit_char n] else nat_str (n div 10) @ [digit_char (n mod 10)])"

declare nat_str.simps [simp del]

definition FormatInt :: "int64 \<Rightarrow> string" where
  "FormatInt i = (if i < 0 then CHR ''-'' # nat_str (nat (- i)) else nat_str (nat i))"

fun parse_digits :: "nat \<Rightarrow> string \<Rightarrow> nat option" where
  "parse_digits acc [] = Some acc"
| "parse_digits acc (c # cs) =
    (case char_digit c of None \<Rightarrow> None | Some d \<Rightarrow> parse_digits (10 * acc + d) cs)"

definition parse_nat :: "string \<Rightarrow> nat option" where
  "parse_nat s = (if s = [] then None else parse_digits 0 s)"

definition ParseInt :: "string \<Rightarrow> int64 option" where
  "ParseInt s =
    (case s of
       [] \<Rightarrow> None
     | c # cs \<Rightarrow>
        Option.bind (if c = CHR ''+'' then map_option int (parse_nat cs)
           else if c = CHR ''-'' then map_option (\<lambda>n. - int n) (parse_nat cs)
           else map_option int (parse_nat s))
          (\<lambda>i. if is_int64 i then Some i else None))"

lemma char_digit_digit_char [simp]: "d < 10 \<Longrightarrow> char_digit (digit_char d) = Some d"
  by (simp add: char_digit_def digit_char_def)

lemma parse_digits_append:
  "parse_digits a (xs @ ys) = Option.bind (parse_digits a xs) (\<lambda>b. parse_digits b ys)"
  by (induction xs arbitrary: a) (auto split: option.splits)

lemma nat_str_nonempty [simp]: "nat_str n \<noteq> []"
  by (subst nat_str.simps) simp

lemma parse_digits_nat_str: "parse_digits 0 (nat_str n) = Some n"
proof (induction n rule: nat_str.induct)
  case (1 n)
  show ?case
  proof (cases "n < 10")
    case True
    then show ?thesis by (subst nat_str.simps) simp
  next
    case False
    with 1 show ?thesis by (subst nat_str.simps) (simp add: parse_digits_append)
  qed
qed

lemma parse_nat_nat_str [simp]: "parse_nat (nat_str n) = Some n"
  by (simp add: parse_nat_def parse_digits_nat_str)

lemma set_nat_str: "c \<in> set (nat_str n) \<Longrightarrow> char_digit c \<noteq> None"
proof (induction n rule: nat_str.induct)
  case (1 n)
  then show ?case by (subst (asm) (2) nat_str.simps) (auto split: if_splits)
qed

lemma hd_nat_str: "nat_str n = c # cs \<Longrightarrow> char_digit c \<noteq> None"
  using set_nat_str[of c n] by simp

lemma ParseInt_FormatInt [simp, text_simps]: "is_int64 i \<Longrightarrow> ParseInt (FormatInt i) = Some i"
proof (cases "i < 0")
  case False
  assume i: "is_int64 i"
  obtain c cs where s: "nat_str (nat i) = c # cs" by (cases "nat_str (nat i)") auto
  then have "c \<noteq> CHR ''+''" "c \<noteq> CHR ''-''"
    using hd_nat_str[OF s] by (auto simp: char_digit_def)
  with s False i show ?thesis
    using parse_nat_nat_str[of "nat i"] by (simp add: ParseInt_def FormatInt_def)
qed (simp add: ParseInt_def FormatInt_def)

lemma FormatInt_inj: "is_int64 i \<Longrightarrow> is_int64 j \<Longrightarrow> FormatInt i = FormatInt j \<longleftrightarrow> i = j"
  by (metis ParseInt_FormatInt option.inject)

definition int_char :: "char \<Rightarrow> bool" where
  "int_char c \<longleftrightarrow> c = CHR ''-'' \<or> char_digit c \<noteq> None"

lemma set_FormatInt: "c \<in> set (FormatInt i) \<Longrightarrow> int_char c"
  using set_nat_str by (auto simp: FormatInt_def int_char_def split: if_splits)

subsection \<open>Hexadecimal\<close>

definition hex_char :: "nat \<Rightarrow> char" where
  "hex_char d = (if d < 10 then char_of (48 + d) else char_of (87 + d))"

definition char_hex :: "char \<Rightarrow> nat option" where
  "char_hex c = (let n = of_char c in
     if 48 \<le> n \<and> n \<le> 57 then Some (n - 48)
     else if 97 \<le> n \<and> n \<le> 102 then Some (n - 87)
     else if 65 \<le> n \<and> n \<le> 70 then Some (n - 55)
     else None)"

fun hex_EncodeToString :: "bytes \<Rightarrow> string" where
  "hex_EncodeToString [] = []"
| "hex_EncodeToString (b # bs) =
     hex_char (unat b div 16) # hex_char (unat b mod 16) # hex_EncodeToString bs"

fun hex_DecodeString :: "string \<Rightarrow> bytes option" where
  "hex_DecodeString [] = Some []"
| "hex_DecodeString [c] = None"
| "hex_DecodeString (c # d # cs) =
    (case (char_hex c, char_hex d) of
       (Some x, Some y) \<Rightarrow> map_option ((#) (word_of_nat (16 * x + y))) (hex_DecodeString cs)
     | _ \<Rightarrow> None)"

lemma char_hex_hex_char [simp]: "d < 16 \<Longrightarrow> char_hex (hex_char d) = Some d"
  by (auto simp: char_hex_def hex_char_def Let_def)

lemma unat_byte_less: "unat (b :: 8 word) < 256"
  using unsigned_less[of b, where ?'a = nat] by simp

lemma hex_round_trip [simp, text_simps]: "hex_DecodeString (hex_EncodeToString b) = Some b"
proof (induction b)
  case (Cons b bs)
  have "unat b div 16 < 16" using unat_byte_less[of b] by (simp add: less_mult_imp_div_less)
  with Cons show ?case by simp
qed simp

lemma hex_inj [simp]: "hex_EncodeToString a = hex_EncodeToString b \<longleftrightarrow> a = b"
  by (metis hex_round_trip option.inject)

lemma length_hex [simp]: "length (hex_EncodeToString b) = 2 * length b"
  by (induction b) auto

subsection \<open>Base64\<close>

definition b64_char :: "nat \<Rightarrow> char" where
  "b64_char d =
    (if d < 26 then char_of (65 + d) else if d < 52 then char_of (71 + d)
     else if d < 62 then char_of (d - 4) else if d = 62 then CHR ''+'' else CHR ''/'')"

definition char_b64 :: "char \<Rightarrow> nat option" where
  "char_b64 c = (let n = of_char c in
     if 65 \<le> n \<and> n \<le> 90 then Some (n - 65)
     else if 97 \<le> n \<and> n \<le> 122 then Some (n - 71)
     else if 48 \<le> n \<and> n \<le> 57 then Some (n + 4)
     else if n = 43 then Some 62
     else if n = 47 then Some 63
     else None)"

text \<open>Three bytes are four digits of six bits; a last group of one or two bytes is padded.\<close>

fun b64_EncodeToString :: "bytes \<Rightarrow> string" where
  "b64_EncodeToString [] = []"
| "b64_EncodeToString [a] =
     [b64_char (unat a div 4), b64_char (unat a mod 4 * 16), CHR ''='', CHR ''='']"
| "b64_EncodeToString [a, b] =
     [b64_char (unat a div 4), b64_char (unat a mod 4 * 16 + unat b div 16),
      b64_char (unat b mod 16 * 4), CHR ''='']"
| "b64_EncodeToString (a # b # c # bs) =
     [b64_char (unat a div 4), b64_char (unat a mod 4 * 16 + unat b div 16),
      b64_char (unat b mod 16 * 4 + unat c div 64), b64_char (unat c mod 64)] @ b64_EncodeToString bs"

definition byte_of :: "nat \<Rightarrow> byte" where
  "byte_of n = word_of_nat n"

text \<open>The decoder of \<^verbatim>\<open>StdEncoding\<close>: line breaks are skipped, padding is required.\<close>

fun b64_quads :: "string \<Rightarrow> bytes option" where
  "b64_quads [] = Some []"
| "b64_quads (c0 # c1 # c2 # c3 # cs) =
    (case (char_b64 c0, char_b64 c1) of
       (Some d0, Some d1) \<Rightarrow>
         (if c2 = CHR ''='' then
            (if c3 = CHR ''='' \<and> cs = [] then Some [byte_of (d0 * 4 + d1 div 16)] else None)
          else case char_b64 c2 of
            None \<Rightarrow> None
          | Some d2 \<Rightarrow>
             (if c3 = CHR ''='' then
                (if cs = [] then Some [byte_of (d0 * 4 + d1 div 16), byte_of (d1 mod 16 * 16 + d2 div 4)]
                 else None)
              else case char_b64 c3 of
                None \<Rightarrow> None
              | Some d3 \<Rightarrow>
                 map_option (\<lambda>r. [byte_of (d0 * 4 + d1 div 16), byte_of (d1 mod 16 * 16 + d2 div 4),
                     byte_of (d2 mod 4 * 64 + d3)] @ r) (b64_quads cs)))
     | _ \<Rightarrow> None)"
| "b64_quads _ = None"

definition b64_DecodeString :: "string \<Rightarrow> bytes option" where
  "b64_DecodeString s = b64_quads (filter (\<lambda>c. c \<noteq> CHR 0x0A \<and> c \<noteq> CHR 0x0D) s)"

lemma char_b64_b64_char [simp]: "d < 64 \<Longrightarrow> char_b64 (b64_char d) = Some d"
  by (auto simp: char_b64_def b64_char_def Let_def)

lemma b64_char_neq_pad [simp]:
  "d < 64 \<Longrightarrow> b64_char d \<noteq> CHR ''=''" "d < 64 \<Longrightarrow> b64_char d \<noteq> CHR 0x0A" "d < 64 \<Longrightarrow> b64_char d \<noteq> CHR 0x0D"
  by (auto dest!: char_b64_b64_char simp: char_b64_def split: if_splits)

lemma byte_of_unat [simp]: "byte_of (unat b) = b"
  by (simp add: byte_of_def)

lemma pack_div_mod: "e < k \<Longrightarrow> (x * k + e) div k = x" "e < k \<Longrightarrow> (x * k + e) mod k = (e :: nat)"
  by simp_all

lemma byte_div [simp]:
  "unat (a :: byte) div 4 < 64" "unat a div 16 < 16" "unat a div 64 < 4"
  using unat_byte_less[of a] by (simp_all add: less_mult_imp_div_less)

lemma b64_digits [simp]:
  "unat (a :: byte) mod 4 * 16 < 64" "unat a mod 16 * 4 < 64"
  "unat a mod 4 * 16 + unat (b :: byte) div 16 < 64" "unat b mod 16 * 4 + unat a div 64 < 64"
proof -
  have "unat a mod 4 \<le> 3" "unat b mod 16 \<le> 15" "unat a mod 16 \<le> 15"
    by (simp_all add: less_Suc_eq_le[symmetric] del: less_Suc_eq_le)
  then show "unat (a :: byte) mod 4 * 16 < 64" "unat a mod 16 * 4 < 64"
    "unat a mod 4 * 16 + unat (b :: byte) div 16 < 64" "unat b mod 16 * 4 + unat a div 64 < 64"
    using byte_div(2)[of b] byte_div(3)[of a] by linarith+
qed

lemma b64_bytes [simp]:
  fixes a b c :: byte
  shows "byte_of (unat a div 4 * 4 + unat a mod 4 * 16 div 16) = a"
    and "byte_of (unat a div 4 * 4 + (unat a mod 4 * 16 + unat b div 16) div 16) = a"
    and "byte_of ((unat a mod 4 * 16 + unat b div 16) mod 16 * 16 + unat b mod 16 * 4 div 4) = b"
    and "byte_of ((unat a mod 4 * 16 + unat b div 16) mod 16 * 16 +
           (unat b mod 16 * 4 + unat c div 64) div 4) = b"
    and "byte_of ((unat b mod 16 * 4 + unat c div 64) mod 4 * 64 + unat c mod 64) = c"
  by (simp_all only: pack_div_mod byte_div nonzero_mult_div_cancel_right div_mult_mod_eq
      byte_of_unat)

lemma b64_quads_encode: "b64_quads (b64_EncodeToString b) = Some b"
  using unat_byte_less by (induction b rule: b64_EncodeToString.induct) simp_all

lemma b64_no_breaks: "filter (\<lambda>c. c \<noteq> CHR 0x0A \<and> c \<noteq> CHR 0x0D) (b64_EncodeToString b) = b64_EncodeToString b"
  by (induction b rule: b64_EncodeToString.induct) simp_all

lemma b64_round_trip [simp, text_simps]: "b64_DecodeString (b64_EncodeToString b) = Some b"
  by (simp add: b64_DecodeString_def b64_no_breaks b64_quads_encode)

subsection \<open>UTF-8\<close>

text \<open>
  A Go string is bytes. The JSON encoder replaces every byte that does not start a valid UTF-8
  sequence by the replacement character, so a text survives it unchanged when it is valid UTF-8.
\<close>

definition in_range :: "nat \<Rightarrow> nat \<Rightarrow> string \<Rightarrow> nat \<Rightarrow> bool" where
  "in_range lo hi s i \<longleftrightarrow> i < length s \<and> lo \<le> of_char (s ! i) \<and> of_char (s ! i) \<le> hi"

definition rune_len :: "string \<Rightarrow> nat" where
  "rune_len s =
    (let cont = in_range 128 191 s in
     if in_range 0 127 s 0 then 1
     else if in_range 194 223 s 0 \<and> cont 1 then 2
     else if (in_range 224 224 s 0 \<and> in_range 160 191 s 1 \<or>
              (in_range 225 236 s 0 \<or> in_range 238 239 s 0) \<and> cont 1 \<or>
              in_range 237 237 s 0 \<and> in_range 128 159 s 1) \<and> cont 2 then 3
     else if (in_range 240 240 s 0 \<and> in_range 144 191 s 1 \<or>
              in_range 241 243 s 0 \<and> cont 1 \<or>
              in_range 244 244 s 0 \<and> in_range 128 143 s 1) \<and> cont 2 \<and> cont 3 then 4
     else 0)"

definition RuneError :: string where
  "RuneError = [CHR 0xEF, CHR 0xBF, CHR 0xBD]"

function coerceUTF8 :: "string \<Rightarrow> string" where
  "coerceUTF8 [] = []"
| "coerceUTF8 (c # cs) =
    (let n = rune_len (c # cs) in
     if n = 0 then RuneError @ coerceUTF8 cs
     else take n (c # cs) @ coerceUTF8 (drop (n - 1) cs))"
  by pat_completeness auto
termination by (relation "measure length") auto

definition ascii :: "string \<Rightarrow> bool" where
  "ascii s \<longleftrightarrow> list_all (\<lambda>c. of_char c < (128 :: nat)) s"

lemma coerceUTF8_ascii [simp]: "ascii s \<Longrightarrow> coerceUTF8 s = s"
  by (induction s) (auto simp: ascii_def rune_len_def in_range_def)

declare coerceUTF8.simps [simp del]

lemma ascii_hex [simp]: "ascii (hex_EncodeToString b)"
proof -
  have "of_char (hex_char d) < (128 :: nat)" if "d < 16" for d
    using that by (auto simp: hex_char_def)
  moreover have "unat x div 16 < 16" for x :: byte
    using unat_byte_less[of x] by (simp add: less_mult_imp_div_less)
  ultimately show ?thesis by (induction b) (auto simp: ascii_def)
qed

lemma ascii_b64 [simp]: "ascii (b64_EncodeToString b)"
proof -
  have c: "of_char (b64_char d) < (128 :: nat)" if "d < 64" for d
    using that by (auto simp: b64_char_def)
  show ?thesis by (induction b rule: b64_EncodeToString.induct) (simp_all add: ascii_def c)
qed

text \<open>
  Case mapping as far as an ASCII keyword can tell: the ASCII letters, and the runes outside ASCII
  that map into it (U+0131 and U+017F upwards, U+0130 and U+212A downwards).
\<close>

fun ToUpperKey :: "string \<Rightarrow> string" where
  "ToUpperKey [] = []"
| "ToUpperKey (c # cs) =
    (if c = CHR 0xC4 \<and> take 1 cs = [CHR 0xB1] then CHR ''I'' # ToUpperKey (drop 1 cs)
     else if c = CHR 0xC5 \<and> take 1 cs = [CHR 0xBF] then CHR ''S'' # ToUpperKey (drop 1 cs)
     else (if (97 :: nat) \<le> of_char c \<and> of_char c \<le> (122 :: nat) then char_of (of_char c - (32 :: nat)) else c)
       # ToUpperKey cs)"

fun ToLowerKey :: "string \<Rightarrow> string" where
  "ToLowerKey [] = []"
| "ToLowerKey (c # cs) =
    (if c = CHR 0xC4 \<and> take 1 cs = [CHR 0xB0] then CHR ''i'' # ToLowerKey (drop 1 cs)
     else if c = CHR 0xE2 \<and> take 2 cs = [CHR 0x84, CHR 0xAA] then CHR ''k'' # ToLowerKey (drop 2 cs)
     else (if (65 :: nat) \<le> of_char c \<and> of_char c \<le> (90 :: nat) then char_of (of_char c + (32 :: nat)) else c)
       # ToLowerKey cs)"

subsection \<open>JSON documents\<close>

datatype json =
  JNull
| JBool bool
| JNum string
| JStr string
| JArr "json list"
| JObj "(string \<times> json) list"

datatype body = Docs "json list" | NotJSON bytes

definition jint :: "int64 \<Rightarrow> json" where
  "jint i = JNum (FormatInt i)"

definition jstr :: "string \<Rightarrow> json" where
  "jstr s = JStr (coerceUTF8 s)"

text \<open>Key matching: exact, else after folding letters (U+017F and U+212A fold to S and K).\<close>

fun foldName :: "string \<Rightarrow> string" where
  "foldName [] = []"
| "foldName (c # cs) =
    (if c = CHR 0xC5 \<and> cs \<noteq> [] \<and> hd cs = CHR 0xBF then CHR ''S'' # foldName (tl cs)
     else if c = CHR 0xE2 \<and> take 2 cs = [CHR 0x84, CHR 0xAA] then CHR ''K'' # foldName (drop 2 cs)
     else (if (97 :: nat) \<le> of_char c \<and> of_char c \<le> (122 :: nat) then char_of (of_char c - (32 :: nat)) else c)
       # foldName cs)"

type_synonym 'a setter = "json \<Rightarrow> 'a \<Rightarrow> 'a option"

definition setField :: "(string \<times> 'a setter) list \<Rightarrow> string \<Rightarrow> json \<Rightarrow> 'a \<Rightarrow> 'a option" where
  "setField flds k v a =
    (case map_of flds k of
       Some s \<Rightarrow> s v a
     | None \<Rightarrow>
        (case find (\<lambda>(n, s). foldName n = foldName k) flds of
           Some (n, s) \<Rightarrow> s v a
         | None \<Rightarrow> Some a))"

fun setFields :: "(string \<times> 'a setter) list \<Rightarrow> (string \<times> json) list \<Rightarrow> 'a \<Rightarrow> 'a option" where
  "setFields flds [] a = Some a"
| "setFields flds ((k, v) # ms) a = Option.bind (setField flds k v a) (setFields flds ms)"

definition Unmarshal :: "(string \<times> 'a setter) list \<Rightarrow> 'a \<Rightarrow> body \<Rightarrow> 'a option" where
  "Unmarshal flds zero b =
    (case b of
       Docs [JObj ms] \<Rightarrow> setFields flds ms zero
     | Docs [JNull] \<Rightarrow> Some zero
     | _ \<Rightarrow> None)"

definition set_int :: "(int64 \<Rightarrow> 'a \<Rightarrow> 'a) \<Rightarrow> 'a setter" where
  "set_int upd v a =
    (case v of
       JNull \<Rightarrow> Some a
     | JNum lit \<Rightarrow> map_option (\<lambda>i. upd i a) (ParseInt lit)
     | _ \<Rightarrow> None)"

definition set_str :: "(string \<Rightarrow> 'a \<Rightarrow> 'a) \<Rightarrow> 'a setter" where
  "set_str upd v a = (case v of JNull \<Rightarrow> Some a | JStr s \<Rightarrow> Some (upd s a) | _ \<Rightarrow> None)"

lemma set_int_jint [simp, text_simps]: "is_int64 i \<Longrightarrow> set_int upd (jint i) a = Some (upd i a)"
  by (simp add: set_int_def jint_def)

lemma set_str_jstr [simp, text_simps]: "set_str upd (jstr s) a = Some (upd (coerceUTF8 s) a)"
  by (simp add: set_str_def jstr_def)

end
