(* ===== verification/Worm.thy ===== *)
theory Worm
  imports Verify Encoding "HOL-Library.Sublist" "HOL-Library.List_Lexorder" "HOL-Library.Char_ord"
begin

text \<open>
  The write-once object store (\<^verbatim>\<open>auditmon/worm\<close>): the store interface and its two
  implementations, the signed anchors, the operator acceptances and the exported event batches.
  Everything outside the monitor (bucket, signer, alert path) lives in a world of type \<open>'w\<close>;
  an operation on it may fail, and returns the world it leaves. The locale \<open>object_store\<close> is the
  contract of the interface, in terms of the objects a world holds; the in-memory store is an
  instance of it, and the S3 store is one whenever the bucket's client keeps its documented promises.
\<close>

subsection \<open>Fallible operations on the world\<close>

type_synonym ('w, 'e, 'a) op = "'w \<Rightarrow> ('e, 'a) result \<times> 'w"

definition ret :: "'a \<Rightarrow> ('w, 'e, 'a) op" where
  "ret a w = (Inr a, w)"

definition obind :: "('w, 'e, 'a) op \<Rightarrow> ('a \<Rightarrow> ('w, 'e, 'b) op) \<Rightarrow> ('w, 'e, 'b) op" where
  "obind m f w = (case m w of (Inl e, w1) \<Rightarrow> (Inl e, w1) | (Inr a, w1) \<Rightarrow> f a w1)"

definition wrap_err :: "('d \<Rightarrow> 'e) \<Rightarrow> ('w, 'd, 'a) op \<Rightarrow> ('w, 'e, 'a) op" where
  "wrap_err g m w = map_prod (map_sum g id) id (m w)"

text \<open>A relation between worlds that every run of an operation respects, whatever its result.\<close>

definition steps :: "('w \<Rightarrow> 'w \<Rightarrow> bool) \<Rightarrow> ('w, 'e, 'a) op \<Rightarrow> bool" where
  "steps R m \<longleftrightarrow> (\<forall>w. R w (snd (m w)))"

named_theorems steps_intros \<open>composition rules for \<open>steps\<close>\<close>

lemma steps_ret [steps_intros]: "reflp R \<Longrightarrow> steps R (ret a)"
  by (simp add: steps_def ret_def reflp_def)

lemma steps_obind [steps_intros]:
  "transp R \<Longrightarrow> steps R m \<Longrightarrow> (\<And>a. steps R (f a)) \<Longrightarrow> steps R (obind m f)"
  by (auto simp: steps_def obind_def transp_def split: prod.splits sum.splits) (metis snd_conv)+

lemma steps_wrap_err [steps_intros]: "steps R m \<Longrightarrow> steps R (wrap_err g m)"
  by (simp add: steps_def wrap_err_def)

lemma obind_Inr_iff:
  "obind m f w = (Inr b, w') \<longleftrightarrow> (\<exists>a w1. m w = (Inr a, w1) \<and> f a w1 = (Inr b, w'))"
  by (auto simp: obind_def split: prod.splits sum.splits)

lemma wrap_err_Inr_iff [simp]: "wrap_err g m w = (Inr a, w') \<longleftrightarrow> m w = (Inr a, w')"
  by (cases "m w") (auto simp: wrap_err_def map_sum_def split: sum.splits)

lemma ret_Inr_iff [simp]: "ret a w = (Inr b, w') \<longleftrightarrow> b = a \<and> w' = w"
  by (auto simp: ret_def)

subsection \<open>The store interface\<close>

datatype os_error = ErrNotFound | OSFail string

record 'w object_store =
  os_Put :: "string \<Rightarrow> body \<Rightarrow> ('w, os_error, unit) op"
  os_List :: "string \<Rightarrow> ('w, os_error, string list) op"
  os_Get :: "string \<Rightarrow> ('w, os_error, body) op"

text \<open>The in-memory store: a Go map from keys to bodies.\<close>

type_synonym memory_store = "(string \<times> body) list"

definition memory_Put :: "string \<Rightarrow> body \<Rightarrow> (memory_store, os_error, unit) op" where
  "memory_Put key b m = (Inr (), AList.update key b m)"

definition memory_List :: "string \<Rightarrow> (memory_store, os_error, string list) op" where
  "memory_List pre m = (Inr (sort (remdups (filter (prefix pre) (map fst m)))), m)"

definition memory_Get :: "string \<Rightarrow> (memory_store, os_error, body) op" where
  "memory_Get key m = (case map_of m key of None \<Rightarrow> (Inl ErrNotFound, m) | Some b \<Rightarrow> (Inr b, m))"

definition memoryStore :: "memory_store object_store" where
  "memoryStore = \<lparr>os_Put = memory_Put, os_List = memory_List, os_Get = memory_Get\<rparr>"

text \<open>
  The S3 store over the AWS client, which is a parameter: what one request returns, and the
  sequence of answers a listing paginator gives.
\<close>

datatype s3_error = NoSuchKey | S3NotFound | S3Other string

record 'w s3_client =
  s3_PutObject :: "string \<Rightarrow> string \<Rightarrow> body \<Rightarrow> ('w, s3_error, unit) op"
  s3_ListPages :: "string \<Rightarrow> string \<Rightarrow> 'w \<Rightarrow> (s3_error, string option list) result list \<times> 'w"
  s3_GetObject :: "string \<Rightarrow> string \<Rightarrow> ('w, s3_error, (string, body) result) op"

definition s3_Put :: "'w s3_client \<Rightarrow> string \<Rightarrow> string \<Rightarrow> body \<Rightarrow> ('w, os_error, unit) op" where
  "s3_Put c bucket key b = wrap_err (\<lambda>e. OSFail ''put'') (s3_PutObject c bucket key b)"

fun collectPages :: "(s3_error, string option list) result list \<Rightarrow> string list \<Rightarrow>
    (os_error, string list) result" where
  "collectPages [] keys = Inr keys"
| "collectPages (Inl e # ps) keys = Inl (OSFail ''list'')"
| "collectPages (Inr contents # ps) keys =
     collectPages ps (keys @ List.map_filter id contents)"

definition s3_List :: "'w s3_client \<Rightarrow> string \<Rightarrow> string \<Rightarrow> ('w, os_error, string list) op" where
  "s3_List c bucket pre w = (case s3_ListPages c bucket pre w of (pages, w1) \<Rightarrow> (collectPages pages [], w1))"

definition s3_Get :: "'w s3_client \<Rightarrow> string \<Rightarrow> string \<Rightarrow> ('w, os_error, body) op" where
  "s3_Get c bucket key w =
    (case s3_GetObject c bucket key w of
       (Inl NoSuchKey, w1) \<Rightarrow> (Inl ErrNotFound, w1)
     | (Inl S3NotFound, w1) \<Rightarrow> (Inl ErrNotFound, w1)
     | (Inl (S3Other e), w1) \<Rightarrow> (Inl (OSFail e), w1)
     | (Inr (Inl e), w1) \<Rightarrow> (Inl (OSFail e), w1)
     | (Inr (Inr b), w1) \<Rightarrow> (Inr b, w1))"

definition s3Store :: "'w s3_client \<Rightarrow> string \<Rightarrow> 'w object_store" where
  "s3Store c bucket = \<lparr>os_Put = s3_Put c bucket, os_List = s3_List c bucket, os_Get = s3_Get c bucket\<rparr>"

subsection \<open>Anchors\<close>

definition checkpointPrefix :: string where
  "checkpointPrefix = ''checkpoints/''"

record anchor =
  an_UpToID :: int64
  an_HeadHash :: string
  an_Signature :: string
  an_KeyID :: string

definition marshalAnchor :: "anchor \<Rightarrow> body" where
  "marshalAnchor a = Docs [JObj
     [(''up_to_id'', jint (an_UpToID a)), (''head_hash'', jstr (an_HeadHash a)),
      (''signature'', jstr (an_Signature a)), (''key_id'', jstr (an_KeyID a))]]"

definition anchorFields :: "(string \<times> anchor setter) list" where
  "anchorFields =
     [(''up_to_id'', set_int (\<lambda>i. an_UpToID_update (\<lambda>_. i))),
      (''head_hash'', set_str (\<lambda>s. an_HeadHash_update (\<lambda>_. s))),
      (''signature'', set_str (\<lambda>s. an_Signature_update (\<lambda>_. s))),
      (''key_id'', set_str (\<lambda>s. an_KeyID_update (\<lambda>_. s)))]"

definition unmarshalAnchor :: "body \<Rightarrow> anchor option" where
  "unmarshalAnchor b = Unmarshal anchorFields
     \<lparr>an_UpToID = 0, an_HeadHash = [], an_Signature = [], an_KeyID = []\<rparr> b"

datatype worm_error =
  Store os_error
| AnchorUnreadable int64
| AnchorConflict int64 string string
| AnchorReadFailed int64 os_error

definition checkpointKey :: "int64 \<Rightarrow> string" where
  "checkpointKey i = checkpointPrefix @ FormatInt i @ ''.json''"

definition WriteAnchor :: "'w object_store \<Rightarrow> anchor \<Rightarrow> ('w, worm_error, unit) op" where
  "WriteAnchor os a w =
    (let body = marshalAnchor a;
         key = checkpointKey (an_UpToID a)
     in case os_Get os key w of
          (Inr existing, w1) \<Rightarrow>
            (case unmarshalAnchor existing of
               None \<Rightarrow> (Inl (AnchorUnreadable (an_UpToID a)), w1)
             | Some prior \<Rightarrow>
                if an_HeadHash prior \<noteq> an_HeadHash a
                then (Inl (AnchorConflict (an_UpToID a) (an_HeadHash prior) (an_HeadHash a)), w1)
                else wrap_err Store (os_Put os key body) w1)
        | (Inl ErrNotFound, w1) \<Rightarrow> wrap_err Store (os_Put os key body) w1
        | (Inl (OSFail e), w1) \<Rightarrow> (Inl (AnchorReadFailed (an_UpToID a) (OSFail e)), w1))"

definition CutPrefix :: "string \<Rightarrow> string \<Rightarrow> string option" where
  "CutPrefix s p = (if prefix p s then Some (drop (length p) s) else None)"

definition CutSuffix :: "string \<Rightarrow> string \<Rightarrow> string option" where
  "CutSuffix s p = (if suffix p s then Some (take (length s - length p) s) else None)"

definition parseCheckpointID :: "string \<Rightarrow> int64 option" where
  "parseCheckpointID key =
     Option.bind (CutPrefix key checkpointPrefix) (\<lambda>rest.
     Option.bind (CutSuffix rest ''.json'') ParseInt)"

text \<open>
  The keys of a listing are read in turn; \<open>wanted\<close> selects the keys and \<open>parse\<close> the bodies that
  count. The order of two anchors with the same id is that of the listing (\<^verbatim>\<open>sort.Slice\<close> leaves
  it open).
\<close>

fun readObjects :: "'w object_store \<Rightarrow> (string \<Rightarrow> bool) \<Rightarrow> (body \<Rightarrow> 'a option) \<Rightarrow> string list \<Rightarrow>
    ('w, os_error, 'a list) op" where
  "readObjects os wanted parse [] w = (Inr [], w)"
| "readObjects os wanted parse (k # ks) w =
    (if \<not> wanted k then readObjects os wanted parse ks w
     else case os_Get os k w of
       (Inl e, w1) \<Rightarrow> (Inl e, w1)
     | (Inr b, w1) \<Rightarrow>
        (case parse b of
           None \<Rightarrow> readObjects os wanted parse ks w1
         | Some a \<Rightarrow> obind (readObjects os wanted parse ks) (\<lambda>as. ret (a # as)) w1))"

definition ReadAnchors :: "'w object_store \<Rightarrow> ('w, os_error, anchor list) op" where
  "ReadAnchors os =
     obind (os_List os checkpointPrefix) (\<lambda>keys.
     obind (readObjects os (\<lambda>k. parseCheckpointID k \<noteq> None) unmarshalAnchor keys) (\<lambda>anchors.
     ret (sort_key an_UpToID anchors)))"

subsection \<open>Acceptances\<close>

definition acceptancePrefix :: string where
  "acceptancePrefix = ''acceptances/''"

record acceptance =
  ap_DivergentID :: int64
  ap_Reason :: string
  ap_Expected :: string
  ap_Actual :: string
  ap_ResumeHash :: string
  ap_Signature :: string
  ap_KeyID :: string

fun joinWith :: "string \<Rightarrow> string list \<Rightarrow> string" where
  "joinWith sep [] = []"
| "joinWith sep [x] = x"
| "joinWith sep (x # xs) = x @ sep @ joinWith sep xs"

definition AcceptanceKey :: "acceptance \<Rightarrow> string" where
  "AcceptanceKey a =
    (let sum = sha256 (str_bytes (joinWith [CHR 0x00]
        [ap_Reason a, ap_Expected a, ap_Actual a, ap_ResumeHash a, ap_Signature a]))
     in acceptancePrefix @ FormatInt (ap_DivergentID a) @ ''-'' @ hex_EncodeToString (take 8 sum) @ ''.json'')"

definition marshalAcceptance :: "acceptance \<Rightarrow> body" where
  "marshalAcceptance a = Docs [JObj
     [(''divergent_id'', jint (ap_DivergentID a)), (''reason'', jstr (ap_Reason a)),
      (''expected'', jstr (ap_Expected a)), (''actual'', jstr (ap_Actual a)),
      (''resume_hash'', jstr (ap_ResumeHash a)), (''signature'', jstr (ap_Signature a)),
      (''key_id'', jstr (ap_KeyID a))]]"

definition acceptanceFields :: "(string \<times> acceptance setter) list" where
  "acceptanceFields =
     [(''divergent_id'', set_int (\<lambda>i. ap_DivergentID_update (\<lambda>_. i))),
      (''reason'', set_str (\<lambda>s. ap_Reason_update (\<lambda>_. s))),
      (''expected'', set_str (\<lambda>s. ap_Expected_update (\<lambda>_. s))),
      (''actual'', set_str (\<lambda>s. ap_Actual_update (\<lambda>_. s))),
      (''resume_hash'', set_str (\<lambda>s. ap_ResumeHash_update (\<lambda>_. s))),
      (''signature'', set_str (\<lambda>s. ap_Signature_update (\<lambda>_. s))),
      (''key_id'', set_str (\<lambda>s. ap_KeyID_update (\<lambda>_. s)))]"

definition unmarshalAcceptance :: "body \<Rightarrow> acceptance option" where
  "unmarshalAcceptance b = Unmarshal acceptanceFields
     \<lparr>ap_DivergentID = 0, ap_Reason = [], ap_Expected = [], ap_Actual = [], ap_ResumeHash = [],
      ap_Signature = [], ap_KeyID = []\<rparr> b"

definition WriteAcceptance :: "'w object_store \<Rightarrow> acceptance \<Rightarrow> ('w, worm_error, unit) op" where
  "WriteAcceptance os a = wrap_err Store (os_Put os (AcceptanceKey a) (marshalAcceptance a))"

definition ReadAcceptances :: "'w object_store \<Rightarrow> ('w, os_error, acceptance list) op" where
  "ReadAcceptances os =
     obind (os_List os acceptancePrefix) (\<lambda>keys.
     obind (readObjects os (suffix ''.json'') unmarshalAcceptance keys) (\<lambda>recs.
     ret (sort_key ap_DivergentID recs)))"

subsection \<open>Exported batches\<close>

record export_record =
  ex_ID :: int64
  ex_Kind :: string
  ex_TSMicros :: int64
  ex_Principal :: string
  ex_Roles :: "string list"
  ex_Datasource :: string
  ex_ClientAddr :: "string option"
  ex_Decision :: string
  ex_FailedStage :: "string option"
  ex_StatementSHA256 :: string
  ex_EffectiveNamespace :: "string list"
  ex_MaskedColumns :: "string list"
  ex_PIITouched :: "string list"
  ex_LatencyMs :: int64
  ex_Channel :: "string option"
  ex_ContextTags :: "string list"
  ex_AuthzAction :: "string option"
  ex_AuthzResource :: "string option"
  ex_Outcome :: "string option"
  ex_RowsReturned :: "int64 option"
  ex_BytesReturned :: "int64 option"
  ex_DecisionID :: "int64 option"

definition omitempty :: "string \<Rightarrow> ('a \<Rightarrow> json) \<Rightarrow> 'a option \<Rightarrow> (string \<times> json) list" where
  "omitempty k enc v = (case v of None \<Rightarrow> [] | Some a \<Rightarrow> [(k, enc a)])"

definition jstrs :: "string list \<Rightarrow> json" where
  "jstrs ss = JArr (map jstr ss)"

text \<open>A label array that is absent in the row is the empty list here, and an empty JSON array.\<close>

definition encodeExportRecord :: "export_record \<Rightarrow> json" where
  "encodeExportRecord r = JObj (
     [(''id'', jint (ex_ID r)), (''kind'', jstr (ex_Kind r)), (''ts_micros'', jint (ex_TSMicros r)),
      (''principal'', jstr (ex_Principal r)), (''roles'', jstrs (ex_Roles r)),
      (''datasource'', jstr (ex_Datasource r))] @
     omitempty ''client_addr'' jstr (ex_ClientAddr r) @
     [(''decision'', jstr (ex_Decision r))] @
     omitempty ''failed_stage'' jstr (ex_FailedStage r) @
     [(''statement_sha256'', jstr (ex_StatementSHA256 r)),
      (''effective_namespace'', jstrs (ex_EffectiveNamespace r)),
      (''masked_columns'', jstrs (ex_MaskedColumns r)), (''pii_touched'', jstrs (ex_PIITouched r)),
      (''latency_ms'', jint (ex_LatencyMs r))] @
     omitempty ''channel'' jstr (ex_Channel r) @
     [(''context_tags'', jstrs (ex_ContextTags r))] @
     omitempty ''action'' jstr (ex_AuthzAction r) @
     omitempty ''resource'' jstr (ex_AuthzResource r) @
     omitempty ''outcome'' jstr (ex_Outcome r) @
     omitempty ''rows_returned'' jint (ex_RowsReturned r) @
     omitempty ''bytes_returned'' jint (ex_BytesReturned r) @
     omitempty ''decision_id'' jint (ex_DecisionID r))"

definition eventsKey :: "int64 \<Rightarrow> int64 \<Rightarrow> string" where
  "eventsKey firstID lastID = ''events/'' @ FormatInt firstID @ ''-'' @ FormatInt lastID @ ''.ndjson''"

definition WriteEventBatch :: "'w object_store \<Rightarrow> int64 \<Rightarrow> int64 \<Rightarrow> export_record list \<Rightarrow>
    ('w, worm_error, unit) op" where
  "WriteEventBatch os firstID lastID records =
     wrap_err Store (os_Put os (eventsKey firstID lastID) (Docs (map encodeExportRecord records)))"

subsection \<open>Round trips of the stored records\<close>

lemma unmarshal_marshalAnchor:
  assumes "is_int64 (an_UpToID a)"
  shows "unmarshalAnchor (marshalAnchor a) =
    Some \<lparr>an_UpToID = an_UpToID a, an_HeadHash = coerceUTF8 (an_HeadHash a),
          an_Signature = coerceUTF8 (an_Signature a), an_KeyID = coerceUTF8 (an_KeyID a)\<rparr>"
  using assms by (simp add: unmarshalAnchor_def marshalAnchor_def Unmarshal_def setField_def anchorFields_def)

lemma unmarshal_marshalAcceptance:
  assumes "is_int64 (ap_DivergentID a)"
  shows "unmarshalAcceptance (marshalAcceptance a) =
    Some \<lparr>ap_DivergentID = ap_DivergentID a, ap_Reason = coerceUTF8 (ap_Reason a),
          ap_Expected = coerceUTF8 (ap_Expected a), ap_Actual = coerceUTF8 (ap_Actual a),
          ap_ResumeHash = coerceUTF8 (ap_ResumeHash a), ap_Signature = coerceUTF8 (ap_Signature a),
          ap_KeyID = coerceUTF8 (ap_KeyID a)\<rparr>"
  using assms
  by (simp add: unmarshalAcceptance_def marshalAcceptance_def Unmarshal_def setField_def acceptanceFields_def)

lemma parseCheckpointID_checkpointKey [simp]:
  "is_int64 i \<Longrightarrow> parseCheckpointID (checkpointKey i) = Some i"
  by (simp add: parseCheckpointID_def checkpointKey_def CutPrefix_def CutSuffix_def suffix_def)

lemma checkpointKey_inj: "is_int64 i \<Longrightarrow> is_int64 j \<Longrightarrow> checkpointKey i = checkpointKey j \<longleftrightarrow> i = j"
  by (simp add: checkpointKey_def FormatInt_inj)

definition is_checkpoint :: "string \<Rightarrow> bool" where
  "is_checkpoint k \<longleftrightarrow> prefix checkpointPrefix k"

lemma key_prefixes [simp]:
  "is_checkpoint (checkpointKey i)" "\<not> is_checkpoint (AcceptanceKey a)" "\<not> is_checkpoint (eventsKey i j)"
  by (simp_all add: is_checkpoint_def checkpointKey_def checkpointPrefix_def AcceptanceKey_def
      acceptancePrefix_def eventsKey_def)

lemma parseCheckpointID_is_checkpoint: "parseCheckpointID k \<noteq> None \<Longrightarrow> is_checkpoint k"
  by (auto simp: parseCheckpointID_def CutPrefix_def is_checkpoint_def split: if_splits)

subsection \<open>The store contract\<close>

locale object_store =
  fixes os :: "'w object_store" and objs :: "'w \<Rightarrow> string \<Rightarrow> body option"
  assumes get_frame: "objs (snd (os_Get os k w)) = objs w"
    and get_ok: "fst (os_Get os k w) = Inr b \<Longrightarrow> objs w k = Some b"
    and get_missing: "fst (os_Get os k w) = Inl ErrNotFound \<Longrightarrow> objs w k = None"
    and put_ok: "fst (os_Put os k b w) = Inr u \<Longrightarrow> objs (snd (os_Put os k b w)) = (objs w)(k \<mapsto> b)"
    and put_failed: "fst (os_Put os k b w) = Inl e \<Longrightarrow>
      objs (snd (os_Put os k b w)) = objs w \<or> objs (snd (os_Put os k b w)) = (objs w)(k \<mapsto> b)"
    and list_frame: "objs (snd (os_List os p w)) = objs w"
    and list_ok: "fst (os_List os p w) = Inr ks \<Longrightarrow> set ks = {k. objs w k \<noteq> None \<and> prefix p k}"
begin

lemma put_cases:
  "objs (snd (os_Put os k b w)) = objs w \<or> objs (snd (os_Put os k b w)) = (objs w)(k \<mapsto> b)"
  using put_ok[of k b w] put_failed[of k b w] by (cases "fst (os_Put os k b w)") auto

lemma frame_order: "reflp (\<lambda>w w'. objs w' = objs w)" "transp (\<lambda>w w'. objs w' = objs w)"
  by (auto simp: reflp_def transp_def)

lemma readObjects_frame: "objs (snd (readObjects os wanted parse ks w)) = objs w"
proof (induction ks arbitrary: w)
  case (Cons k ks)
  obtain r w1 where g: "os_Get os k w = (r, w1)" by (cases "os_Get os k w")
  then have w1: "objs w1 = objs w" using get_frame[of k w] by simp
  show ?case
  proof (cases "wanted k \<and> (\<exists>b a. r = Inr b \<and> parse b = Some a)")
    case True
    then obtain b a where "wanted k" "r = Inr b" "parse b = Some a" by blast
    with g w1 Cons[of w1] show ?thesis
      by (cases "readObjects os wanted parse ks w1") (auto simp: obind_def ret_def split: sum.splits)
  next
    case False
    with g w1 Cons[of w1] Cons[of w] show ?thesis by (auto split: sum.splits option.splits)
  qed
qed simp

lemma list_steps: "steps (\<lambda>w w'. objs w' = objs w) (os_List os p)"
  by (simp add: steps_def list_frame)

lemma readObjects_steps: "steps (\<lambda>w w'. objs w' = objs w) (readObjects os wanted parse ks)"
  by (simp add: steps_def readObjects_frame)

lemma readObjects_ok:
  "readObjects os wanted parse ks w = (Inr as, w') \<Longrightarrow>
     (\<forall>k\<in>set ks. wanted k \<longrightarrow> objs w k \<noteq> None) \<and>
     as = List.map_filter (\<lambda>k. if wanted k then Option.bind (objs w k) parse else None) ks"
proof (induction ks arbitrary: w as)
  case Nil
  then show ?case by (simp add: List.map_filter_def)
next
  case (Cons k ks)
  show ?case
  proof (cases "wanted k")
    case False
    with Cons.IH[of w as] Cons.prems show ?thesis by (simp add: map_filter_simps)
  next
    case True
    with Cons.prems obtain b w1 where g: "os_Get os k w = (Inr b, w1)"
      by (auto split: prod.splits sum.splits)
    then have b: "objs w k = Some b" and w1: "objs w1 = objs w"
      using get_ok[of k w b] get_frame[of k w] by auto
    show ?thesis
    proof (cases "parse b")
      case None
      with True g Cons.prems have "readObjects os wanted parse ks w1 = (Inr as, w')" by simp
      from Cons.IH[OF this] True b None show ?thesis unfolding w1 by (simp add: map_filter_simps)
    next
      case (Some a)
      with True g Cons.prems obtain as' where r: "readObjects os wanted parse ks w1 = (Inr as', w')"
        and as: "as = a # as'"
        by (auto simp: obind_Inr_iff)
      from Cons.IH[OF r] True b Some show ?thesis unfolding w1 as by (simp add: map_filter_simps)
    qed
  qed
qed

lemma ReadAnchors_steps: "steps (\<lambda>w w'. objs w' = objs w) (ReadAnchors os)"
  unfolding ReadAnchors_def by (intro steps_intros frame_order list_steps readObjects_steps)

text \<open>Reading returns exactly the parseable objects under checkpoint keys, ascending.\<close>

lemma ReadAnchors_ok:
  assumes "ReadAnchors os w = (Inr as, w')"
  shows "sorted (map an_UpToID as)"
    and "set as = {a. \<exists>k b. parseCheckpointID k \<noteq> None \<and> objs w k = Some b \<and> unmarshalAnchor b = Some a}"
proof -
  from assms obtain ks w1 bs where l: "os_List os checkpointPrefix w = (Inr ks, w1)"
    and r: "readObjects os (\<lambda>k. parseCheckpointID k \<noteq> None) unmarshalAnchor ks w1 = (Inr bs, w')"
    and as: "as = sort_key an_UpToID bs"
    unfolding ReadAnchors_def obind_Inr_iff ret_Inr_iff by blast
  from as show "sorted (map an_UpToID as)" by simp
  have ks: "set ks = {k. objs w k \<noteq> None \<and> prefix checkpointPrefix k}" and w1: "objs w1 = objs w"
    using list_ok[of checkpointPrefix w ks] list_frame[of checkpointPrefix w] l by auto
  have "set as = {a. \<exists>k\<in>set ks. parseCheckpointID k \<noteq> None \<and> Option.bind (objs w k) unmarshalAnchor = Some a}"
    using readObjects_ok[OF r] as w1 by (auto simp: List.map_filter_def image_iff) force+
  then show "set as = {a. \<exists>k b. parseCheckpointID k \<noteq> None \<and> objs w k = Some b \<and> unmarshalAnchor b = Some a}"
    using ks parseCheckpointID_is_checkpoint
    by (auto simp: is_checkpoint_def bind_eq_Some_conv)
qed

lemma ReadAcceptances_steps: "steps (\<lambda>w w'. objs w' = objs w) (ReadAcceptances os)"
  unfolding ReadAcceptances_def by (intro steps_intros frame_order list_steps readObjects_steps)

lemma ReadAcceptances_ok:
  assumes "ReadAcceptances os w = (Inr as, w')"
  shows "set as = {a. \<exists>k b. prefix acceptancePrefix k \<and> suffix ''.json'' k \<and> objs w k = Some b \<and>
      unmarshalAcceptance b = Some a}"
proof -
  from assms obtain ks w1 bs where l: "os_List os acceptancePrefix w = (Inr ks, w1)"
    and r: "readObjects os (suffix ''.json'') unmarshalAcceptance ks w1 = (Inr bs, w')"
    and as: "as = sort_key ap_DivergentID bs"
    unfolding ReadAcceptances_def obind_Inr_iff ret_Inr_iff by blast
  have ks: "set ks = {k. objs w k \<noteq> None \<and> prefix acceptancePrefix k}" and w1: "objs w1 = objs w"
    using list_ok[of acceptancePrefix w ks] list_frame[of acceptancePrefix w] l by auto
  have "set as = {a. \<exists>k\<in>set ks. suffix ''.json'' k \<and> Option.bind (objs w k) unmarshalAcceptance = Some a}"
    using readObjects_ok[OF r] as w1 by (auto simp: List.map_filter_def image_iff) force+
  with ks show ?thesis by (auto simp: bind_eq_Some_conv)
qed

end

subsection \<open>Anchors as evidence\<close>

text \<open>
  What an anchor object is worth: a later state of the store still holds an object at every
  checkpoint key, and it is the same object or one that witnesses the same head.
\<close>

definition keeps_anchors :: "(string \<Rightarrow> body option) \<Rightarrow> (string \<Rightarrow> body option) \<Rightarrow> bool" where
  "keeps_anchors O1 O2 \<longleftrightarrow> (\<forall>k b. is_checkpoint k \<longrightarrow> O1 k = Some b \<longrightarrow>
     (\<exists>b'. O2 k = Some b' \<and> (b' = b \<or> (\<exists>p p'. unmarshalAnchor b = Some p \<and>
        unmarshalAnchor b' = Some p' \<and> an_HeadHash p' = an_HeadHash p))))"

lemma keeps_anchors_refl [simp]: "keeps_anchors O1 O1"
  by (simp add: keeps_anchors_def)

lemma keeps_anchors_trans: "keeps_anchors O1 O2 \<Longrightarrow> keeps_anchors O2 O3 \<Longrightarrow> keeps_anchors O1 O3"
  unfolding keeps_anchors_def by (smt (verit, best) option.inject)

lemma keeps_anchors_upd: "\<not> is_checkpoint k \<Longrightarrow> keeps_anchors O1 (O1(k \<mapsto> b))"
  by (auto simp: keeps_anchors_def)

context object_store
begin

lemma keeps_order:
  "reflp (\<lambda>w w'. keeps_anchors (objs w) (objs w'))" "transp (\<lambda>w w'. keeps_anchors (objs w) (objs w'))"
  by (auto simp: reflp_def transp_def intro: keeps_anchors_trans)

lemma frame_keeps: "steps (\<lambda>w w'. objs w' = objs w) m \<Longrightarrow> steps (\<lambda>w w'. keeps_anchors (objs w) (objs w')) m"
  by (simp add: steps_def)

lemma put_keeps: "\<not> is_checkpoint k \<Longrightarrow> steps (\<lambda>w w'. keeps_anchors (objs w) (objs w')) (os_Put os k b)"
  using put_cases[of k b] keeps_anchors_upd[of k] unfolding steps_def by (metis keeps_anchors_refl)

lemma WriteAnchor_cases:
  obtains (refused) e where "fst (WriteAnchor os a w) = Inl e" "objs (snd (WriteAnchor os a w)) = objs w"
  | (wrote) w1 where "objs w1 = objs w"
      "WriteAnchor os a w = wrap_err Store (os_Put os (checkpointKey (an_UpToID a)) (marshalAnchor a)) w1"
      "\<And>b. objs w (checkpointKey (an_UpToID a)) = Some b \<Longrightarrow>
         \<exists>p. unmarshalAnchor b = Some p \<and> an_HeadHash p = an_HeadHash a"
proof -
  let ?k = "checkpointKey (an_UpToID a)"
  obtain r w1 where g: "os_Get os ?k w = (r, w1)" by (cases "os_Get os ?k w")
  then have w1: "objs w1 = objs w" using get_frame[of ?k w] by simp
  show thesis
  proof (cases r)
    case (Inr b)
    with g have b: "objs w ?k = Some b" using get_ok[of ?k w b] by simp
    show thesis
    proof (cases "\<exists>p. unmarshalAnchor b = Some p \<and> an_HeadHash p = an_HeadHash a")
      case True
      with g w1 Inr b show thesis by (intro wrote[of w1]) (auto simp: WriteAnchor_def)
    next
      case False
      with g w1 Inr show thesis
        by (cases "unmarshalAnchor b") (auto intro!: refused simp: WriteAnchor_def)
    qed
  next
    case (Inl e)
    show thesis
    proof (cases e)
      case ErrNotFound
      with g Inl have "objs w ?k = None" using get_missing[of ?k w] by simp
      with g w1 Inl ErrNotFound show thesis by (intro wrote[of w1]) (auto simp: WriteAnchor_def)
    next
      case (OSFail s)
      with g w1 Inl show thesis by (auto intro!: refused simp: WriteAnchor_def)
    qed
  qed
qed

lemma WriteAnchor_objs:
  "objs (snd (WriteAnchor os a w)) = objs w \<or>
   objs (snd (WriteAnchor os a w)) = (objs w)(checkpointKey (an_UpToID a) \<mapsto> marshalAnchor a)"
proof (cases rule: WriteAnchor_cases[of a w])
  case (wrote w1)
  then show ?thesis using put_cases[of "checkpointKey (an_UpToID a)" "marshalAnchor a" w1]
    by (simp add: wrap_err_def)
qed simp

lemma WriteAnchor_ok:
  "WriteAnchor os a w = (Inr u, w') \<Longrightarrow> objs w' = (objs w)(checkpointKey (an_UpToID a) \<mapsto> marshalAnchor a)"
proof (cases rule: WriteAnchor_cases[of a w])
  case (wrote w1)
  assume "WriteAnchor os a w = (Inr u, w')"
  then have "os_Put os (checkpointKey (an_UpToID a)) (marshalAnchor a) w1 = (Inr u, w')"
    unfolding wrote(2) wrap_err_Inr_iff .
  then show ?thesis
    using put_ok[of "checkpointKey (an_UpToID a)" "marshalAnchor a" w1] wrote(1) by simp
qed simp

lemma WriteAnchor_keeps:
  assumes "is_int64 (an_UpToID a)" "ascii (an_HeadHash a)"
  shows "steps (\<lambda>w w'. keeps_anchors (objs w) (objs w')) (WriteAnchor os a)"
  unfolding steps_def
proof
  fix w
  show "keeps_anchors (objs w) (objs (snd (WriteAnchor os a w)))"
  proof (cases rule: WriteAnchor_cases[of a w])
    case (wrote w1)
    then show ?thesis
      using WriteAnchor_objs[of a w] unmarshal_marshalAnchor[OF assms(1)] assms(2)
      by (auto simp: keeps_anchors_def)
  qed simp
qed

lemma WriteAcceptance_keeps: "steps (\<lambda>w w'. keeps_anchors (objs w) (objs w')) (WriteAcceptance os a)"
  unfolding WriteAcceptance_def by (intro steps_intros put_keeps key_prefixes)

lemma WriteEventBatch_keeps:
  "steps (\<lambda>w w'. keeps_anchors (objs w) (objs w')) (WriteEventBatch os i j rs)"
  unfolding WriteEventBatch_def by (intro steps_intros put_keeps key_prefixes)

end

subsection \<open>The two implementations meet the contract\<close>

interpretation memory: object_store memoryStore map_of
  by unfold_locales
    (auto simp: memoryStore_def memory_Put_def memory_List_def memory_Get_def update_conv'
      map_of_eq_None_iff image_iff split: option.splits prod.splits)

text \<open>What the bucket's client documents: strong reads, listings complete, failures may or may not write.\<close>

definition s3_laws :: "'w s3_client \<Rightarrow> string \<Rightarrow> ('w \<Rightarrow> string \<Rightarrow> body option) \<Rightarrow> bool" where
  "s3_laws c bucket objs \<longleftrightarrow>
    (\<forall>k w r w'. s3_GetObject c bucket k w = (r, w') \<longrightarrow> objs w' = objs w \<and>
       (r = Inl NoSuchKey \<or> r = Inl S3NotFound \<longrightarrow> objs w k = None) \<and>
       (\<forall>b. r = Inr (Inr b) \<longrightarrow> objs w k = Some b)) \<and>
    (\<forall>k b w r w'. s3_PutObject c bucket k b w = (r, w') \<longrightarrow>
       objs w' = (objs w)(k \<mapsto> b) \<or> (r \<noteq> Inr () \<and> objs w' = objs w)) \<and>
    (\<forall>p w ps w'. s3_ListPages c bucket p w = (ps, w') \<longrightarrow> objs w' = objs w \<and>
       ((\<forall>e. Inl e \<notin> set ps) \<longrightarrow>
          {k. \<exists>pg. Inr pg \<in> set ps \<and> Some k \<in> set pg} = {k. objs w k \<noteq> None \<and> prefix p k}))"

lemma collectPages_ok:
  "collectPages ps keys = Inr ks \<Longrightarrow>
     (\<forall>e. Inl e \<notin> set ps) \<and> set ks = set keys \<union> {k. \<exists>pg. Inr pg \<in> set ps \<and> Some k \<in> set pg}"
  by (induction ps keys arbitrary: ks rule: collectPages.induct)
    (auto simp: List.map_filter_def image_iff split: option.splits, force)

lemma s3Store_contract:
  assumes "s3_laws c bucket objs"
  shows "object_store (s3Store c bucket) objs"
proof
  have get: "objs (snd (s3_Get c bucket k w)) = objs w \<and>
      (fst (s3_Get c bucket k w) = Inl ErrNotFound \<longrightarrow> objs w k = None) \<and>
      (\<forall>b. fst (s3_Get c bucket k w) = Inr b \<longrightarrow> objs w k = Some b)" for k w
    using assms by (cases "s3_GetObject c bucket k w") (auto simp: s3_laws_def s3_Get_def
        split: sum.splits s3_error.splits)
  then show "objs (snd (os_Get (s3Store c bucket) k w)) = objs w"
    "fst (os_Get (s3Store c bucket) k w) = Inr b \<Longrightarrow> objs w k = Some b"
    "fst (os_Get (s3Store c bucket) k w) = Inl ErrNotFound \<Longrightarrow> objs w k = None" for k w b
    by (simp_all add: s3Store_def)
  have put: "objs (snd (s3_Put c bucket k b w)) = (objs w)(k \<mapsto> b) \<or>
      (\<exists>e. fst (s3_Put c bucket k b w) = Inl e) \<and> objs (snd (s3_Put c bucket k b w)) = objs w" for k b w
  proof -
    obtain r w' where p: "s3_PutObject c bucket k b w = (r, w')" by (cases "s3_PutObject c bucket k b w")
    with assms have "objs w' = (objs w)(k \<mapsto> b) \<or> r \<noteq> Inr () \<and> objs w' = objs w"
      unfolding s3_laws_def by blast
    with p show ?thesis by (cases r) (auto simp: s3_Put_def wrap_err_def)
  qed
  show "fst (os_Put (s3Store c bucket) k b w) = Inr u \<Longrightarrow>
      objs (snd (os_Put (s3Store c bucket) k b w)) = (objs w)(k \<mapsto> b)" for k b w u
    using put[of k b w] by (auto simp: s3Store_def)
  show "fst (os_Put (s3Store c bucket) k b w) = Inl e \<Longrightarrow>
      objs (snd (os_Put (s3Store c bucket) k b w)) = objs w \<or>
      objs (snd (os_Put (s3Store c bucket) k b w)) = (objs w)(k \<mapsto> b)" for k b w e
    using put[of k b w] by (auto simp: s3Store_def)
  have list: "objs (snd (s3_List c bucket p w)) = objs w \<and>
      (\<forall>ks. fst (s3_List c bucket p w) = Inr ks \<longrightarrow> set ks = {k. objs w k \<noteq> None \<and> prefix p k})" for p w
  proof -
    obtain ps w' where l: "s3_ListPages c bucket p w = (ps, w')" by (cases "s3_ListPages c bucket p w")
    with assms have "objs w' = objs w \<and> ((\<forall>e. Inl e \<notin> set ps) \<longrightarrow>
        {k. \<exists>pg. Inr pg \<in> set ps \<and> Some k \<in> set pg} = {k. objs w k \<noteq> None \<and> prefix p k})"
      unfolding s3_laws_def by blast
    with l show ?thesis using collectPages_ok[of ps "[]"] by (auto simp: s3_List_def)
  qed
  show "objs (snd (os_List (s3Store c bucket) p w)) = objs w" for p w
    using list[of p w] by (simp add: s3Store_def)
  show "fst (os_List (s3Store c bucket) p w) = Inr ks \<Longrightarrow> set ks = {k. objs w k \<noteq> None \<and> prefix p k}" for p w ks
    using list[of p w] by (simp add: s3Store_def)
qed

context object_store
begin

lemma WriteAnchor_prior:
  assumes "WriteAnchor os a w = (Inr u, w')" "objs w (checkpointKey (an_UpToID a)) = Some b"
  shows "\<exists>p. unmarshalAnchor b = Some p \<and> an_HeadHash p = an_HeadHash a"
  by (cases rule: WriteAnchor_cases[of a w]) (use assms in auto)

lemma WriteAnchor_refuses:
  assumes "objs w (checkpointKey (an_UpToID a)) = Some b"
    and "\<And>p. unmarshalAnchor b = Some p \<Longrightarrow> an_HeadHash p \<noteq> an_HeadHash a"
  shows "(\<exists>e. fst (WriteAnchor os a w) = Inl e) \<and> objs (snd (WriteAnchor os a w)) = objs w"
proof (cases rule: WriteAnchor_cases[of a w])
  case (wrote w1)
  from wrote(3)[OF assms(1)] assms(2) show ?thesis by auto
qed simp

end

subsection \<open>Properties\<close>

definition sample_anchor :: anchor where
  "sample_anchor = \<lparr>an_UpToID = 1, an_HeadHash = hex_EncodeToString [171], an_Signature = ''AA=='', an_KeyID = ''k''\<rparr>"

lemma sample_anchor_ascii: "is_int64 (an_UpToID sample_anchor)" "ascii (an_HeadHash sample_anchor)"
  "ascii (an_Signature sample_anchor)" "ascii (an_KeyID sample_anchor)"
  by (simp_all only: sample_anchor_def anchor.select_convs ascii_hex) (simp_all add: ascii_def is_int64_def)

lemma sample_anchor_stored: "unmarshalAnchor (marshalAnchor sample_anchor) = Some sample_anchor"
  using sample_anchor_ascii by (simp add: unmarshal_marshalAnchor)

text \<open>
  A witness is never replaced. Over any store that keeps the interface contract, writing an
  anchor at an id whose object witnesses a different head, or is not a readable anchor at all, is
  refused and the stored objects stay as they are.
\<close>

lemma anchor_never_replaced:
  assumes "object_store os objs"
    and "objs w (checkpointKey (an_UpToID a)) = Some b"
    and "unmarshalAnchor b = None \<or> map_option an_HeadHash (unmarshalAnchor b) \<noteq> Some (an_HeadHash a)"
  shows "(\<exists>e. fst (WriteAnchor os a w) = Inl e) \<and> objs (snd (WriteAnchor os a w)) = objs w"
  by (rule object_store.WriteAnchor_refuses[OF assms(1,2)]) (use assms(3) in auto)

text \<open>
  An anchor that was written is read back. When \<open>WriteAnchor\<close> succeeds and the store is then
  read without a failure, the anchor is among the anchors returned, in ascending order, and every
  anchor the store already had is among them too or was rewritten at the same id with the same head.
\<close>

lemma anchor_write_read:
  assumes "object_store os objs"
    and "is_int64 (an_UpToID a)" "ascii (an_HeadHash a)" "ascii (an_Signature a)" "ascii (an_KeyID a)"
    and "WriteAnchor os a w = (Inr (), w1)" "ReadAnchors os w1 = (Inr as, w2)"
  shows "a \<in> set as \<and> sorted (map an_UpToID as) \<and>
    (\<forall>k b p. parseCheckpointID k \<noteq> None \<longrightarrow> objs w k = Some b \<longrightarrow> unmarshalAnchor b = Some p \<longrightarrow>
      p \<in> set as \<or> k = checkpointKey (an_UpToID a) \<and> an_HeadHash p = an_HeadHash a)"
proof -
  note objs = object_store.WriteAnchor_ok[OF assms(1,6)]
  note read = object_store.ReadAnchors_ok[OF assms(1,7)]
  have self: "unmarshalAnchor (marshalAnchor a) = Some a"
    using assms(2-5) by (simp add: unmarshal_marshalAnchor)
  have "a \<in> set as" using assms(2) self unfolding read(2) objs
    by (intro CollectI exI[of _ "checkpointKey (an_UpToID a)"]) simp
  moreover have "p \<in> set as \<or> k = checkpointKey (an_UpToID a) \<and> an_HeadHash p = an_HeadHash a"
    if "parseCheckpointID k \<noteq> None" "objs w k = Some b" "unmarshalAnchor b = Some p" for k b p
  proof (cases "k = checkpointKey (an_UpToID a)")
    case True
    with that object_store.WriteAnchor_prior[OF assms(1,6)] show ?thesis by fastforce
  next
    case False
    with that show ?thesis unfolding read(2) objs by auto
  qed
  ultimately show ?thesis using read(1) by blast
qed

text \<open>
  The S3 store is an object store. If the bucket's client reads what was written, lists
  completely and reports absence only for absent keys, then \<open>s3Store\<close> keeps the contract the
  monitor relies on; in particular no failed request is taken for an absent object.
\<close>

lemma s3_store_contract:
  assumes "s3_laws c bucket objs"
  shows "object_store (s3Store c bucket) objs"
  using assms by (rule s3Store_contract)

definition sample_s3 :: "memory_store s3_client" where
  "sample_s3 = \<lparr>s3_PutObject = (\<lambda>bucket k b m. (Inr (), AList.update k b m)),
     s3_ListPages = (\<lambda>bucket p m. ([Inr (map Some (filter (prefix p) (map fst m)))], m)),
     s3_GetObject = (\<lambda>bucket k m. (case map_of m k of None \<Rightarrow> (Inl NoSuchKey, m) | Some b \<Rightarrow> (Inr (Inr b), m)))\<rparr>"

end
