(* ===== verification/Monitor.thy ===== *)
theory Monitor
  imports Worm
begin

text \<open>
  The audit monitor (\<^verbatim>\<open>auditmon/monitor/monitor.go\<close>) and its signers
  (\<^verbatim>\<open>auditmon/sign\<close>). The monitor's own state is its export watermark and its halt latch; the
  object store, the signer, the detector and the reporter act on the world it shares with them. The
  database is the environment of an operation: its \<open>k\<close>-th query sees the \<open>k\<close>-th table, so
  rows may be appended, rewritten or deleted between two reads, or a read may fail. Log lines are
  not part of the state.
\<close>

subsection \<open>Signers\<close>

record 'w signer =
  sg_Sign :: "bytes \<Rightarrow> ('w, string, bytes \<times> string) op"
  sg_Verify :: "bytes \<Rightarrow> bytes \<Rightarrow> string \<Rightarrow> ('w, string, bool) op"

text \<open>The file key signer over an Ed25519 key pair, whose primitives are parameters.\<close>

definition fileKeyID :: "bytes \<Rightarrow> string" where
  "fileKeyID pub = ''filekey:'' @ hex_EncodeToString (take 8 pub)"

definition newFileKey :: "(bytes \<Rightarrow> bytes) \<Rightarrow> (bytes \<Rightarrow> bytes \<Rightarrow> bool) \<Rightarrow> bytes \<Rightarrow> 'w signer" where
  "newFileKey edSign edVerify pub =
    \<lparr>sg_Sign = (\<lambda>digest. ret (edSign digest, fileKeyID pub)),
     sg_Verify = (\<lambda>digest sig keyID. if keyID \<noteq> fileKeyID pub then ret False else ret (edVerify digest sig))\<rparr>"

datatype kms_error = KMSInvalidSignature | KMSOther string

record 'w kms_client =
  kms_ClientSign :: "string \<Rightarrow> bytes \<Rightarrow> ('w, kms_error, bytes) op"
  kms_ClientVerify :: "string \<Rightarrow> bytes \<Rightarrow> bytes \<Rightarrow> ('w, kms_error, bool) op"

definition kms_text :: "kms_error \<Rightarrow> string" where
  "kms_text e = (case e of KMSInvalidSignature \<Rightarrow> ''invalid signature'' | KMSOther s \<Rightarrow> s)"

definition kms_Sign :: "'w kms_client \<Rightarrow> string \<Rightarrow> bytes \<Rightarrow> ('w, string, bytes \<times> string) op" where
  "kms_Sign c keyID digest = obind (wrap_err kms_text (kms_ClientSign c keyID digest)) (\<lambda>sig. ret (sig, keyID))"

definition kms_Verify :: "'w kms_client \<Rightarrow> string list \<Rightarrow> bytes \<Rightarrow> bytes \<Rightarrow> string \<Rightarrow> ('w, string, bool) op" where
  "kms_Verify c allowed digest sig keyID w =
    (if keyID \<notin> set allowed then (Inr False, w)
     else case kms_ClientVerify c keyID digest sig w of
       (Inl KMSInvalidSignature, w1) \<Rightarrow> (Inr False, w1)
     | (Inl (KMSOther e), w1) \<Rightarrow> (Inl e, w1)
     | (Inr valid, w1) \<Rightarrow> (Inr valid, w1))"

definition NewKMS :: "'w kms_client \<Rightarrow> string \<Rightarrow> string list \<Rightarrow> 'w signer" where
  "NewKMS c keyID allowedKeyIDs =
    (let allowed = keyID # filter (\<lambda>k. k \<noteq> []) allowedKeyIDs in
     \<lparr>sg_Sign = kms_Sign c keyID, sg_Verify = kms_Verify c allowed\<rparr>)"

subsection \<open>State\<close>

record 'w deps =
  d_signer :: "'w signer"
  d_store :: "'w object_store"
  d_genesis :: bytes
  d_TailBatch :: int
  d_Inspect :: "stored_event list \<Rightarrow> ('w, string, unit) op"
  d_InspectCatchUp :: "stored_event list \<Rightarrow> ('w, string, unit) op"
  d_Report :: "finding \<Rightarrow> 'w \<Rightarrow> 'w"

record 'w monitor =
  world :: 'w
  exportedThrough :: int64
  halted :: bool

datatype mon_error =
  ReadAnchorsFailed os_error
| ReadAcceptancesFailed os_error
| PinTarget string
| ReadTail string
| VerifyTailFailed verify_error
| ExportBatch worm_error
| SignHeadFailed string
| AnchorNotWritten worm_error
| InitialAnchor mon_error
| FullVerifyFailed verify_error
| NothingToAccept
| DivergenceChanged finding finding
| ReadRow string
| AcceptanceNotWritten worm_error
| StillHalted
| TailNoLongerVerifies

type_synonym db_env = "nat \<Rightarrow> (string, audit_table) result"

definition onWorld :: "('e \<Rightarrow> mon_error) \<Rightarrow> ('w, 'e, 'a) op \<Rightarrow> ('w monitor, mon_error, 'a) op" where
  "onWorld g m s = (case m (world s) of (r, w) \<Rightarrow> (map_sum g id r, s\<lparr>world := w\<rparr>))"

definition report :: "'w deps \<Rightarrow> finding \<Rightarrow> 'w monitor \<Rightarrow> 'w monitor" where
  "report d f s = s\<lparr>world := d_Report d f (world s)\<rparr>"

definition ReasonAnchorSignatureInvalid :: string where
  "ReasonAnchorSignatureInvalid = ''anchor_signature_invalid''"

definition ReasonAnchorVerifyError :: string where
  "ReasonAnchorVerifyError = ''anchor_verify_error''"

definition ReasonTailTruncated :: string where
  "ReasonTailTruncated = ''tail_truncated''"

record verified_tail =
  anchorPresent :: bool
  vt_head :: chain_head
  vt_events :: "stored_event list"

subsection \<open>The trusted baseline\<close>

definition anchorVerify :: "'w deps \<Rightarrow> anchor \<Rightarrow> ('w, string, bytes \<times> bool) op" where
  "anchorVerify d a =
    (case hex_DecodeString (an_HeadHash a) of
       None \<Rightarrow> ret ([], False)
     | Some headHash \<Rightarrow>
        (case b64_DecodeString (an_Signature a) of
           None \<Rightarrow> ret ([], False)
         | Some sig \<Rightarrow>
            obind (sg_Verify (d_signer d) (AnchorDigest (an_UpToID a) headHash) sig (an_KeyID a))
              (\<lambda>valid. ret (headHash, valid))))"

record baseline_scan =
  bs_best :: "(anchor \<times> bytes) option"
  bs_invalidID :: "int64 option"
  bs_verifyErrID :: "int64 option"

definition scanAnchor :: "anchor \<Rightarrow> (string, bytes \<times> bool) result \<Rightarrow> baseline_scan \<Rightarrow> baseline_scan" where
  "scanAnchor a v sc =
    (case v of
       Inl e \<Rightarrow>
         (case bs_verifyErrID sc of
            None \<Rightarrow> sc\<lparr>bs_verifyErrID := Some (an_UpToID a)\<rparr>
          | Some i \<Rightarrow> if i \<le> an_UpToID a then sc\<lparr>bs_verifyErrID := Some (an_UpToID a)\<rparr> else sc)
     | Inr (head, True) \<Rightarrow>
         (case bs_best sc of
            None \<Rightarrow> sc\<lparr>bs_best := Some (a, head)\<rparr>
          | Some (b, h) \<Rightarrow> if an_UpToID b < an_UpToID a then sc\<lparr>bs_best := Some (a, head)\<rparr> else sc)
     | Inr (head, False) \<Rightarrow>
         (case bs_invalidID sc of
            None \<Rightarrow> sc\<lparr>bs_invalidID := Some (an_UpToID a)\<rparr>
          | Some i \<Rightarrow> if i \<le> an_UpToID a then sc\<lparr>bs_invalidID := Some (an_UpToID a)\<rparr> else sc))"

fun scanAnchors :: "'w deps \<Rightarrow> anchor list \<Rightarrow> baseline_scan \<Rightarrow> 'w \<Rightarrow> baseline_scan \<times> 'w" where
  "scanAnchors d [] sc w = (sc, w)"
| "scanAnchors d (a # as) sc w =
    (case anchorVerify d a w of (v, w1) \<Rightarrow> scanAnchors d as (scanAnchor a v sc) w1)"

definition baselineOf :: "bytes \<Rightarrow> baseline_scan \<Rightarrow> (chain_head \<times> bool) + finding" where
  "baselineOf genesis sc =
    (case bs_best sc of
       Some (a, h) \<Rightarrow> Inl (\<lparr>LastID = an_UpToID a, HeadHash = h\<rparr>, True)
     | None \<Rightarrow>
        (case bs_verifyErrID sc of
           Some i \<Rightarrow> Inr \<lparr>DivergentID = i, Reason = ReasonAnchorVerifyError, Expected = [], Actual = []\<rparr>
         | None \<Rightarrow>
            (case bs_invalidID sc of
               Some i \<Rightarrow> Inr \<lparr>DivergentID = i, Reason = ReasonAnchorSignatureInvalid, Expected = [], Actual = []\<rparr>
             | None \<Rightarrow> Inl (\<lparr>LastID = 0, HeadHash = genesis\<rparr>, False))))"

text \<open>The result is the baseline and whether an anchor gave it, or a finding.\<close>

definition selectBaseline :: "'w deps \<Rightarrow> ('w, mon_error, (chain_head \<times> bool) + finding) op" where
  "selectBaseline d =
     obind (wrap_err ReadAnchorsFailed (ReadAnchors (d_store d))) (\<lambda>anchors w.
       case scanAnchors d anchors \<lparr>bs_best = None, bs_invalidID = None, bs_verifyErrID = None\<rparr> w of
         (sc, w1) \<Rightarrow> (Inr (baselineOf (d_genesis d) sc), w1))"

definition tailBatch :: "'w deps \<Rightarrow> nat" where
  "tailBatch d = (if 0 < d_TailBatch d then nat (d_TailBatch d) else 5000)"

lemma tailBatch_pos [simp]: "0 < tailBatch d"
  by (simp add: tailBatch_def)

subsection \<open>Signing, exporting\<close>

definition signAnchor :: "'w deps \<Rightarrow> chain_head \<Rightarrow> ('w, mon_error, unit) op" where
  "signAnchor d head =
     obind (wrap_err SignHeadFailed (sg_Sign (d_signer d) (AnchorDigest (LastID head) (HeadHash head))))
       (\<lambda>(sig, keyID). wrap_err AnchorNotWritten (WriteAnchor (d_store d)
          \<lparr>an_UpToID = LastID head, an_HeadHash = hex_EncodeToString (HeadHash head),
           an_Signature = b64_EncodeToString sig, an_KeyID = keyID\<rparr>))"

fun eventsAfter :: "stored_event list \<Rightarrow> int64 \<Rightarrow> stored_event list" where
  "eventsAfter [] afterID = []"
| "eventsAfter (ev # evs) afterID = (if afterID < se_ID ev then ev # evs else eventsAfter evs afterID)"

definition exportRecord :: "stored_event \<Rightarrow> export_record" where
  "exportRecord ev =
    (let e = se_Event ev; sum = sha256 (str_bytes (Statement e)) in
     \<lparr>ex_ID = se_ID ev, ex_Kind = Kind e, ex_TSMicros = TSMicros e, ex_Principal = Principal e,
      ex_Roles = Roles e, ex_Datasource = Datasource e, ex_ClientAddr = ClientAddr e,
      ex_Decision = Decision e, ex_FailedStage = FailedStage e,
      ex_StatementSHA256 = hex_EncodeToString sum, ex_EffectiveNamespace = EffectiveNamespace e,
      ex_MaskedColumns = MaskedColumns e, ex_PIITouched = PIITouched e, ex_LatencyMs = LatencyMs e,
      ex_Channel = Channel e, ex_ContextTags = ContextTags e, ex_AuthzAction = AuthzAction e,
      ex_AuthzResource = AuthzResource e, ex_Outcome = Outcome e, ex_RowsReturned = RowsReturned e,
      ex_BytesReturned = BytesReturned e, ex_DecisionID = DecisionID e\<rparr>)"

definition processFreshMode :: "'w deps \<Rightarrow> verified_tail \<Rightarrow> bool \<Rightarrow> ('w monitor, mon_error, unit) op" where
  "processFreshMode d vt catchUp s =
    (let fresh = eventsAfter (vt_events vt) (exportedThrough s) in
     if fresh = [] then (Inr (), s)
     else
       let w1 = snd ((if catchUp then d_InspectCatchUp d else d_Inspect d) fresh (world s)) in
       case WriteEventBatch (d_store d) (se_ID (hd fresh)) (se_ID (last fresh)) (map exportRecord fresh) w1 of
         (Inl e, w2) \<Rightarrow> (Inl (ExportBatch e), s\<lparr>world := w2\<rparr>)
       | (Inr _, w2) \<Rightarrow> (Inr (), s\<lparr>world := w2, exportedThrough := se_ID (last fresh)\<rparr>))"

definition catchUpBatch :: "'w deps \<Rightarrow> verified_tail \<Rightarrow> ('w monitor, mon_error, unit) op" where
  "catchUpBatch d vt s =
    (let catchUp = length (vt_events vt) = tailBatch d in
     case processFreshMode d vt catchUp s of
       (Inl e, s1) \<Rightarrow> (Inl e, s1)
     | (Inr _, s1) \<Rightarrow>
        (if catchUp then (Inr (), snd (onWorld id (signAnchor d (vt_head vt)) s1)) else (Inr (), s1)))"

subsection \<open>The tail walk\<close>

definition nextHead :: "chain_head \<Rightarrow> stored_event list \<Rightarrow> chain_head" where
  "nextHead head events =
     (if events = [] then head else \<lparr>LastID = se_ID (last events), HeadHash = se_RowHash (last events)\<rparr>)"

lemma TailEvents_last:
  assumes "TailEvents t i n \<noteq> []"
  shows "i < se_ID (last (TailEvents t i n))"
proof -
  have "last (TailEvents t i n) \<in> set (filter (\<lambda>e. i < se_ID e) (table_rows t))"
    using last_in_set[OF assms] unfolding TailEvents_def by (rule in_set_takeD)
  then show ?thesis by simp
qed

text \<open>
  The loop ends: a page that is not the last one is full, so it is not empty and its last id is
  above the head's, and the target is fixed before the first page.
\<close>

function verifyChainLoop :: "'w deps \<Rightarrow> (verified_tail \<Rightarrow> ('w monitor, mon_error, unit) op) \<Rightarrow> db_env \<Rightarrow>
    bool \<Rightarrow> int64 \<Rightarrow> nat \<Rightarrow> chain_head \<Rightarrow> ('w monitor, mon_error, verified_tail option) op" where
  "verifyChainLoop d each db present target k head s =
    (case db k of
       Inl e \<Rightarrow> (Inl (ReadTail e), s)
     | Inr t \<Rightarrow>
        (let events = TailEvents t (LastID head) (tailBatch d) in
         case VerifyTail head events of
           Inl e \<Rightarrow> (Inl (VerifyTailFailed e), s)
         | Inr (Some f) \<Rightarrow> (Inr None, report d f s)
         | Inr None \<Rightarrow>
            (let head' = nextHead head events;
                 vt = \<lparr>anchorPresent = present, vt_head = head', vt_events = events\<rparr>
             in case (if events \<noteq> [] then each vt s else (Inr (), s)) of
                  (Inl e, s1) \<Rightarrow> (Inl e, s1)
                | (Inr _, s1) \<Rightarrow>
                   (if target \<le> LastID head' then (Inr (Some vt), s1)
                    else if length events < tailBatch d
                    then (Inr None, report d \<lparr>DivergentID = LastID head' + 1, Reason = ReasonTailTruncated,
                            Expected = [], Actual = []\<rparr> s1)
                    else verifyChainLoop d each db present target (Suc k) head' s1))))"
  by pat_completeness auto
termination
proof (relation "measure (\<lambda>(d, each, db, present, target, k, head, s). nat (target - LastID head))")
  fix d :: "'w deps" and db :: db_env and target k head t events head'
  assume "events = TailEvents t (LastID head) (tailBatch d)" "head' = nextHead head events"
    and "\<not> target \<le> LastID head'" "\<not> length events < tailBatch d"
  moreover from this have "events \<noteq> []" by (metis list.size(3) tailBatch_pos)
  ultimately show "((d, each, db, present, target, Suc k, head', s1), d, each, db, present, target, k, head, s)
      \<in> measure (\<lambda>(d, each, db, present, target, k, head, s). nat (target - LastID head))" for each present s s1
    using TailEvents_last[of t "LastID head" "tailBatch d"] by (simp add: nextHead_def)
qed simp

declare verifyChainLoop.simps [simp del]

definition verifyChain :: "'w deps \<Rightarrow> (verified_tail \<Rightarrow> ('w monitor, mon_error, unit) op) \<Rightarrow> db_env \<Rightarrow>
    ('w monitor, mon_error, verified_tail option) op" where
  "verifyChain d each db =
     obind (onWorld id (selectBaseline d)) (\<lambda>b s.
       case b of
         Inr f \<Rightarrow> (Inr None, report d f s)
       | Inl (head, present) \<Rightarrow>
          (case db 0 of
             Inl e \<Rightarrow> (Inl (PinTarget e), s)
           | Inr t \<Rightarrow> verifyChainLoop d each db present (MaxEventID t) 1 head s))"

subsection \<open>Poll and sign\<close>

definition Poll :: "'w deps \<Rightarrow> db_env \<Rightarrow> ('w monitor, mon_error, unit) op" where
  "Poll d db s =
    (if halted s then (Inr (), s)
     else obind (verifyChain d (catchUpBatch d) db) (\<lambda>r.
       case r of
         None \<Rightarrow> ret ()
       | Some vt \<Rightarrow>
          if \<not> anchorPresent vt then wrap_err InitialAnchor (onWorld id (signAnchor d (vt_head vt)))
          else ret ()) s)"

definition SignHead :: "'w deps \<Rightarrow> db_env \<Rightarrow> ('w monitor, mon_error, unit) op" where
  "SignHead d db s =
    (if halted s then (Inr (), s)
     else obind (verifyChain d (catchUpBatch d) db) (\<lambda>r.
       case r of None \<Rightarrow> ret () | Some vt \<Rightarrow> onWorld id (signAnchor d (vt_head vt))) s)"

definition ResumeCoverage :: "'w deps \<Rightarrow> db_env \<Rightarrow> ('w monitor, mon_error, unit) op" where
  "ResumeCoverage d db s =
    (if halted s then (Inl StillHalted, s)
     else obind (verifyChain d (catchUpBatch d) db) (\<lambda>r.
       case r of
         None \<Rightarrow> (\<lambda>s. (Inl TailNoLongerVerifies, s))
       | Some vt \<Rightarrow> onWorld id (signAnchor d (vt_head vt))) s)"

subsection \<open>Full verification\<close>

record evidence =
  ev_checks :: "anchor_check list"
  ev_accepted :: "accepted list"
  ev_complete :: bool

fun anchorWitnesses :: "'w deps \<Rightarrow> anchor list \<Rightarrow> evidence \<Rightarrow> 'w \<Rightarrow> evidence \<times> 'w" where
  "anchorWitnesses d [] ev w = (ev, w)"
| "anchorWitnesses d (a # as) ev w =
    (case anchorVerify d a w of
       (Inl e, w1) \<Rightarrow> anchorWitnesses d as (ev\<lparr>ev_complete := False\<rparr>) w1
     | (Inr (head, valid), w1) \<Rightarrow>
        (if \<not> valid then anchorWitnesses d as (ev\<lparr>ev_complete := False\<rparr>) w1
         else anchorWitnesses d as
           (ev\<lparr>ev_checks := ev_checks ev @ [\<lparr>ac_UpToID = an_UpToID a, ac_HeadHash = head\<rparr>]\<rparr>) w1))"

definition acceptanceVerify :: "'w deps \<Rightarrow> acceptance \<Rightarrow> ('w, string, accepted option) op" where
  "acceptanceVerify d r =
    (case hex_DecodeString (ap_Expected r) of None \<Rightarrow> ret None | Some ex \<Rightarrow>
     case hex_DecodeString (ap_Actual r) of None \<Rightarrow> ret None | Some ac \<Rightarrow>
     case hex_DecodeString (ap_ResumeHash r) of None \<Rightarrow> ret None | Some resume \<Rightarrow>
     case b64_DecodeString (ap_Signature r) of None \<Rightarrow> ret None | Some sig \<Rightarrow>
       obind (sg_Verify (d_signer d)
           (AcceptanceDigest (ap_DivergentID r) (ap_Reason r) ex ac resume) sig (ap_KeyID r))
         (\<lambda>valid. ret (if \<not> valid then None else
            Some \<lparr>acc_DivergentID = ap_DivergentID r, acc_Reason = ap_Reason r, acc_Expected = ex,
                  acc_Actual = ac, acc_ResumeHash = resume\<rparr>)))"

fun acceptanceWitnesses :: "'w deps \<Rightarrow> acceptance list \<Rightarrow> evidence \<Rightarrow> 'w \<Rightarrow> evidence \<times> 'w" where
  "acceptanceWitnesses d [] ev w = (ev, w)"
| "acceptanceWitnesses d (r # rs) ev w =
    (case acceptanceVerify d r w of
       (Inl e, w1) \<Rightarrow> acceptanceWitnesses d rs (ev\<lparr>ev_complete := False\<rparr>) w1
     | (Inr None, w1) \<Rightarrow> acceptanceWitnesses d rs ev w1
     | (Inr (Some a), w1) \<Rightarrow> acceptanceWitnesses d rs (ev\<lparr>ev_accepted := ev_accepted ev @ [a]\<rparr>) w1)"

definition witnesses :: "'w deps \<Rightarrow> ('w, mon_error, evidence) op" where
  "witnesses d =
     obind (wrap_err ReadAnchorsFailed (ReadAnchors (d_store d))) (\<lambda>anchors w.
       case anchorWitnesses d anchors \<lparr>ev_checks = [], ev_accepted = [], ev_complete = True\<rparr> w of
         (ev, w1) \<Rightarrow>
           obind (wrap_err ReadAcceptancesFailed (ReadAcceptances (d_store d)))
             (\<lambda>records w2. case acceptanceWitnesses d records ev w2 of (ev', w3) \<Rightarrow> (Inr ev', w3)) w1)"

definition anchorTrustFinding :: "'w deps \<Rightarrow> nat \<Rightarrow> ('w, mon_error, finding option) op" where
  "anchorTrustFinding d validChecks =
    (if 0 < validChecks then ret None
     else obind (wrap_err ReadAnchorsFailed (ReadAnchors (d_store d))) (\<lambda>anchors.
       ret (if anchors = [] then None
            else Some \<lparr>DivergentID = an_UpToID (last anchors), Reason = ReasonAnchorSignatureInvalid,
                       Expected = [], Actual = []\<rparr>)))"

definition db_source :: "db_env \<Rightarrow> event_source" where
  "db_source db = (\<lambda>k cursor n. map_sum id (\<lambda>t. ChainedEventsAfter t cursor n) (db k))"

text \<open>
  The part \<open>FullVerify\<close> and \<open>Diagnose\<close> share: the evidence, then the verdict on it. The walk may in
  principle not return while the table keeps growing, hence the option.
\<close>

definition judge :: "'w deps \<Rightarrow> db_env \<Rightarrow> 'w \<Rightarrow>
    ((mon_error, evidence \<times> finding option \<times> finding list) result \<times> 'w) option" where
  "judge d db w =
    (case witnesses d w of
       (Inl e, w1) \<Rightarrow> Some (Inl e, w1)
     | (Inr ev, w1) \<Rightarrow>
        (case anchorTrustFinding d (length (ev_checks ev)) w1 of
           (Inl e, w2) \<Rightarrow> Some (Inl e, w2)
         | (Inr (Some f), w2) \<Rightarrow> Some (Inr (ev, Some f, []), w2)
         | (Inr None, w2) \<Rightarrow>
            (case VerifyFromGenesisAccepting (db_source db) (d_genesis d) (ev_checks ev) (ev_accepted ev) of
               None \<Rightarrow> None
             | Some (Inl e) \<Rightarrow> Some (Inl (FullVerifyFailed e), w2)
             | Some (Inr (f, passed)) \<Rightarrow> Some (Inr (ev, f, passed), w2))))"

definition FullVerify :: "'w deps \<Rightarrow> db_env \<Rightarrow> 'w monitor \<Rightarrow> ((mon_error, unit) result \<times> 'w monitor) option" where
  "FullVerify d db s =
    (case judge d db (world s) of
       None \<Rightarrow> None
     | Some (Inl e, w) \<Rightarrow> Some (Inl e, s\<lparr>world := w\<rparr>)
     | Some (Inr (ev, f, passed), w) \<Rightarrow>
        (let s1 = s\<lparr>world := w\<rparr> in
         case f of
           Some f' \<Rightarrow> Some (Inr (), (report d f' s1)\<lparr>halted := True\<rparr>)
         | None \<Rightarrow>
            if \<not> ev_complete ev then Some (Inr (), s1)
            else Some (Inr (), s1\<lparr>halted := False\<rparr>)))"

record diagnosis =
  dg_Finding :: "finding option"
  dg_Accepted :: "finding list"

definition Diagnose :: "'w deps \<Rightarrow> db_env \<Rightarrow> 'w \<Rightarrow> ((mon_error, diagnosis) result \<times> 'w) option" where
  "Diagnose d db w =
    map_option (map_prod (map_sum id (\<lambda>(ev, f, passed). \<lparr>dg_Finding = f, dg_Accepted = passed\<rparr>)) id)
      (judge d db w)"

subsection \<open>Accepting a break\<close>

definition sameFinding :: "finding \<Rightarrow> finding \<Rightarrow> bool" where
  "sameFinding a b \<longleftrightarrow> DivergentID a = DivergentID b \<and> Reason a = Reason b \<and>
     Expected a = Expected b \<and> Actual a = Actual b"

definition resumeHashAt :: "(string, audit_table) result \<Rightarrow> int64 \<Rightarrow> (mon_error, bytes) result" where
  "resumeHashAt q i =
    (case q of
       Inl e \<Rightarrow> Inl (ReadRow e)
     | Inr t \<Rightarrow>
        (case ChainedEventsAfter t (wrap64 (i - 1)) 1 of
           [ev] \<Rightarrow> Inr (if se_ID ev = i then se_RowHash ev else [])
         | _ \<Rightarrow> Inr []))"

definition recordAcceptance :: "'w deps \<Rightarrow> finding \<Rightarrow> bytes \<Rightarrow> ('w, mon_error, acceptance) op" where
  "recordAcceptance d f resume =
     obind (wrap_err SignHeadFailed (sg_Sign (d_signer d)
         (AcceptanceDigest (DivergentID f) (Reason f) (Expected f) (Actual f) resume)))
       (\<lambda>(sig, keyID).
          let rec = \<lparr>ap_DivergentID = DivergentID f, ap_Reason = Reason f,
                     ap_Expected = hex_EncodeToString (Expected f), ap_Actual = hex_EncodeToString (Actual f),
                     ap_ResumeHash = hex_EncodeToString resume, ap_Signature = b64_EncodeToString sig,
                     ap_KeyID = keyID\<rparr>
          in obind (wrap_err AcceptanceNotWritten (WriteAcceptance (d_store d) rec)) (\<lambda>_. ret rec))"

text \<open>\<open>row\<close> is what the database answers when the divergent row is read after the diagnosis.\<close>

definition AcceptBreak :: "'w deps \<Rightarrow> db_env \<Rightarrow> (string, audit_table) result \<Rightarrow> finding \<Rightarrow> 'w \<Rightarrow>
    ((mon_error, acceptance) result \<times> 'w) option" where
  "AcceptBreak d db row f w =
    (case Diagnose d db w of
       None \<Rightarrow> None
     | Some (Inl e, w1) \<Rightarrow> Some (Inl e, w1)
     | Some (Inr dg, w1) \<Rightarrow>
        (case dg_Finding dg of
           None \<Rightarrow> Some (Inl NothingToAccept, w1)
         | Some current \<Rightarrow>
            if \<not> sameFinding current f then Some (Inl (DivergenceChanged f current), w1)
            else case resumeHashAt row (DivergentID f) of
              Inl e \<Rightarrow> Some (Inl e, w1)
            | Inr resume \<Rightarrow> Some (recordAcceptance d f resume w1)))"

subsection \<open>What a signed head rests on\<close>

text \<open>
  \<open>proved db base h\<close>: some rows the database showed during the operation, ascending above
  \<open>base\<close>, verify from \<open>base\<close> and end in \<open>h\<close>.
\<close>

definition proved :: "db_env \<Rightarrow> chain_head \<Rightarrow> chain_head \<Rightarrow> bool" where
  "proved db base h \<longleftrightarrow> (\<exists>es. VerifyTail base es = Inr None \<and> h = nextHead base es \<and>
     sorted_wrt (<) (map se_ID es) \<and> (\<forall>e\<in>set es. LastID base < se_ID e \<and>
       (\<exists>k t. db k = Inr t \<and> e \<in> set (table_rows t))))"

text \<open>
  What one run of the monitor may do to the off-box anchors: none is lost, and each new one is the
  anchor of a proved head whose rows are exported, or of the baseline itself.
\<close>

definition new_anchor :: "db_env \<Rightarrow> chain_head \<Rightarrow> int64 \<Rightarrow> string \<Rightarrow> body \<Rightarrow> bool" where
  "new_anchor db base exported k b \<longleftrightarrow>
     (\<exists>a h. b = marshalAnchor a \<and> k = checkpointKey (an_UpToID a) \<and> an_UpToID a = LastID h \<and>
        an_HeadHash a = hex_EncodeToString (HeadHash h) \<and> proved db base h \<and>
        (LastID h \<le> exported \<or> h = base))"

definition justified :: "('w \<Rightarrow> string \<Rightarrow> body option) \<Rightarrow> db_env \<Rightarrow> chain_head \<Rightarrow> 'w monitor \<Rightarrow> 'w monitor \<Rightarrow> bool" where
  "justified objs db base s s' \<longleftrightarrow>
     keeps_anchors (objs (world s)) (objs (world s')) \<and> exportedThrough s \<le> exportedThrough s' \<and>
     halted s' = halted s \<and>
     (\<forall>k b. is_checkpoint k \<and> objs (world s') k = Some b \<longrightarrow>
        objs (world s) k = Some b \<or> new_anchor db base (exportedThrough s') k b)"

lemma new_anchor_mono: "new_anchor db base x k b \<Longrightarrow> x \<le> y \<Longrightarrow> new_anchor db base y k b"
  unfolding new_anchor_def by force

lemma justified_refl [simp]: "justified objs db base s s"
  by (simp add: justified_def)

lemma justified_trans:
  assumes "justified objs db base s1 s2" "justified objs db base s2 s3"
  shows "justified objs db base s1 s3"
proof -
  have "exportedThrough s2 \<le> exportedThrough s3" using assms(2) by (simp add: justified_def)
  with assms show ?thesis
    unfolding justified_def by (meson keeps_anchors_trans new_anchor_mono order_trans)
qed

lemma proved_base [simp]: "proved db base base"
  unfolding proved_def by (rule exI[of _ "[]"]) (simp add: VerifyTail_def nextHead_def)

lemma sorted_last: "sorted_wrt (<) (map se_ID es) \<Longrightarrow> e \<in> set es \<Longrightarrow> se_ID e \<le> se_ID (last es)"
  by (induction es) (auto simp: less_imp_le)

lemma proved_page:
  assumes "proved db base h" "db k = Inr t" "VerifyTail h (TailEvents t (LastID h) n) = Inr None"
  shows "proved db base (nextHead h (TailEvents t (LastID h) n))"
proof -
  let ?evs = "TailEvents t (LastID h) n"
  from assms(1) obtain es where es: "VerifyTail base es = Inr None" "h = nextHead base es"
    "sorted_wrt (<) (map se_ID es)" "\<forall>e\<in>set es. LastID base < se_ID e \<and> (\<exists>k t. db k = Inr t \<and> e \<in> set (table_rows t))"
    unfolding proved_def by blast
  have evs: "sorted_wrt (<) (map se_ID ?evs)" "\<forall>e\<in>set ?evs. LastID h < se_ID e \<and> e \<in> set (table_rows t)"
    using table_rows_sorted[of t]
    by (auto simp: TailEvents_def sorted_wrt_map sorted_wrt_filter sorted_wrt_take dest: in_set_takeD)
  have le: "se_ID e \<le> LastID h" if "e \<in> set es" for e
    using sorted_last[OF es(3) that] that es(2) by (auto simp: nextHead_def)
  have hh: "HeadHash h = end_hash (HeadHash base) es" and base: "LastID base \<le> LastID h"
    using es(2,4) by (auto simp: nextHead_def end_hash_def less_imp_le)
  show ?thesis
    unfolding proved_def
  proof (intro exI[of _ "es @ ?evs"] conjI)
    show "VerifyTail base (es @ ?evs) = Inr None"
      using es(1) assms(3) hh by (simp add: VerifyTail_None_iff chain_ok_append)
    show "nextHead h ?evs = nextHead base (es @ ?evs)"
      using es(2) by (auto simp: nextHead_def)
    show "sorted_wrt (<) (map se_ID (es @ ?evs))"
      using es(3) evs le by (fastforce simp: sorted_wrt_append)
    show "\<forall>e\<in>set (es @ ?evs). LastID base < se_ID e \<and> (\<exists>k t. db k = Inr t \<and> e \<in> set (table_rows t))"
      using es(4) evs(2) base assms(2) by fastforce
  qed
qed

lemma proved_int64: "proved db base h \<Longrightarrow> is_int64 (LastID base) \<Longrightarrow> is_int64 (LastID h)"
  unfolding proved_def nextHead_def using table_rows_int64 last_in_set by fastforce

lemma eventsAfter_sorted:
  "sorted_wrt (<) (map se_ID es) \<Longrightarrow> eventsAfter es i = filter (\<lambda>e. i < se_ID e) es"
proof (induction es)
  case (Cons e es)
  have "filter (\<lambda>e. i < se_ID e) es = es" if "i < se_ID e"
    using that Cons.prems by (auto simp: filter_id_conv)
  with Cons show ?case by auto
qed simp

lemma eventsAfter_last:
  "es \<noteq> [] \<Longrightarrow> sorted_wrt (<) (map se_ID es) \<Longrightarrow>
     (if eventsAfter es i = [] then se_ID (last es) \<le> i
      else last (eventsAfter es i) = last es \<and> i < se_ID (last es))"
  by (induction es) (auto split: if_splits dest!: last_in_set)

subsection \<open>The contract of the monitor's collaborators\<close>

locale monitor_deps = object_store "d_store d" objs
  for d :: "'w deps" and objs :: "'w \<Rightarrow> string \<Rightarrow> body option" +
  assumes sign_frame: "objs (snd (sg_Sign (d_signer d) x w)) = objs w"
    and verify_frame: "objs (snd (sg_Verify (d_signer d) x sig kid w)) = objs w"
    and inspect_frame: "\<not> prefix ''alerts/'' k \<Longrightarrow> objs (snd (d_Inspect d evs w)) k = objs w k"
    and catchup_frame: "\<not> prefix ''alerts/'' k \<Longrightarrow> objs (snd (d_InspectCatchUp d evs w)) k = objs w k"
    and report_frame: "\<not> prefix ''alerts/'' k \<Longrightarrow> objs (d_Report d f w) k = objs w k"
begin

lemma checkpoint_not_alert: "is_checkpoint k \<Longrightarrow> \<not> prefix ''alerts/'' k"
  by (auto simp: is_checkpoint_def checkpointPrefix_def prefix_def)

lemma same_checkpoints_keep: "(\<And>k. is_checkpoint k \<Longrightarrow> o2 k = o1 k) \<Longrightarrow> keeps_anchors o1 o2"
  by (simp add: keeps_anchors_def)

lemma signAnchor_objs:
  obtains "objs (snd (signAnchor d h w)) = objs w"
  | sig kid where "objs (snd (signAnchor d h w)) = (objs w)(checkpointKey (LastID h) \<mapsto> marshalAnchor
      \<lparr>an_UpToID = LastID h, an_HeadHash = hex_EncodeToString (HeadHash h),
       an_Signature = b64_EncodeToString sig, an_KeyID = kid\<rparr>)"
proof -
  let ?dg = "AnchorDigest (LastID h) (HeadHash h)"
  obtain r w1 where s: "sg_Sign (d_signer d) ?dg w = (r, w1)" by (cases "sg_Sign (d_signer d) ?dg w")
  then have w1: "objs w1 = objs w" using sign_frame[of ?dg w] by simp
  show thesis
  proof (cases r)
    case (Inl e)
    with s w1 show thesis by (intro that(1)) (simp add: signAnchor_def obind_def wrap_err_def)
  next
    case (Inr p)
    obtain sig kid where p: "p = (sig, kid)" by (cases p)
    let ?a = "\<lparr>an_UpToID = LastID h, an_HeadHash = hex_EncodeToString (HeadHash h),
       an_Signature = b64_EncodeToString sig, an_KeyID = kid\<rparr>"
    from s Inr p have "snd (signAnchor d h w) = snd (WriteAnchor (d_store d) ?a w1)"
      by (simp add: signAnchor_def obind_def wrap_err_def)
    with w1 WriteAnchor_objs[of ?a w1] show thesis by (auto intro: that)
  qed
qed

lemma signAnchor_keeps:
  assumes "is_int64 (LastID h)"
  shows "steps (\<lambda>w w'. keeps_anchors (objs w) (objs w')) (signAnchor d h)"
  unfolding signAnchor_def
proof (rule steps_obind[OF keeps_order(2)])
  show "steps (\<lambda>w w'. keeps_anchors (objs w) (objs w'))
      (wrap_err SignHeadFailed (sg_Sign (d_signer d) (AnchorDigest (LastID h) (HeadHash h))))"
    by (intro steps_wrap_err frame_keeps) (simp add: steps_def sign_frame)
qed (use assms in \<open>auto intro!: steps_wrap_err WriteAnchor_keeps\<close>)

lemma signAnchor_justified:
  assumes "proved db base h" "is_int64 (LastID base)" "LastID h \<le> exportedThrough s \<or> h = base"
  shows "justified objs db base s (snd (onWorld g (signAnchor d h) s))"
proof -
  let ?w = "snd (signAnchor d h (world s))"
  have s': "snd (onWorld g (signAnchor d h) s) = s\<lparr>world := ?w\<rparr>"
    by (simp add: onWorld_def split: prod.splits)
  have keep: "keeps_anchors (objs (world s)) (objs ?w)"
    using signAnchor_keeps[OF proved_int64[OF assms(1,2)]] by (simp add: steps_def)
  show ?thesis
  proof (cases rule: signAnchor_objs[of h "world s"])
    case 1
    with keep show ?thesis by (simp add: justified_def s')
  next
    case (2 sig kid)
    have "new_anchor db base (exportedThrough s) (checkpointKey (LastID h)) (marshalAnchor
       \<lparr>an_UpToID = LastID h, an_HeadHash = hex_EncodeToString (HeadHash h),
        an_Signature = b64_EncodeToString sig, an_KeyID = kid\<rparr>)"
      unfolding new_anchor_def using assms(1,3) by fastforce
    with 2 keep show ?thesis by (simp add: justified_def s')
  qed
qed

end

context monitor_deps
begin

lemma justified_same:
  assumes "\<And>k. is_checkpoint k \<Longrightarrow> objs (world s') k = objs (world s) k"
    and "exportedThrough s \<le> exportedThrough s'" "halted s' = halted s"
  shows "justified objs db base s s'"
  using assms by (auto simp: justified_def intro: same_checkpoints_keep)

lemma report_justified [simp]: "justified objs db base s (report d f s)"
  by (rule justified_same) (simp_all add: report_def report_frame checkpoint_not_alert)

lemma WriteEventBatch_checkpoint:
  "is_checkpoint k \<Longrightarrow> objs (snd (WriteEventBatch (d_store d) i j rs w)) k = objs w k"
  using put_cases[of "eventsKey i j" "Docs (map encodeExportRecord rs)" w] key_prefixes(3)[of i j]
  by (auto simp: WriteEventBatch_def wrap_err_def)

lemma processFreshMode_justified:
  assumes "sorted_wrt (<) (map se_ID (vt_events vt))" "vt_events vt \<noteq> []"
  shows "justified objs db base s (snd (processFreshMode d vt c s))"
    and "fst (processFreshMode d vt c s) = Inr u \<Longrightarrow>
      se_ID (last (vt_events vt)) \<le> exportedThrough (snd (processFreshMode d vt c s))"
proof -
  let ?fresh = "eventsAfter (vt_events vt) (exportedThrough s)"
  let ?w1 = "snd ((if c then d_InspectCatchUp d else d_Inspect d) ?fresh (world s))"
  let ?p = "WriteEventBatch (d_store d) (se_ID (hd ?fresh)) (se_ID (last ?fresh)) (map exportRecord ?fresh) ?w1"
  have w1: "objs ?w1 k = objs (world s) k" if "is_checkpoint k" for k
    using checkpoint_not_alert[OF that] by (simp add: inspect_frame catchup_frame)
  have w2: "objs (snd ?p) k = objs (world s) k" if "is_checkpoint k" for k
    using w1[OF that] that by (simp add: WriteEventBatch_checkpoint)
  note last = eventsAfter_last[OF assms(2,1), of "exportedThrough s"]
  show "justified objs db base s (snd (processFreshMode d vt c s))"
    using last w2 by (cases ?p) (auto intro!: justified_same simp: processFreshMode_def Let_def
        split: sum.splits if_splits)
  show "fst (processFreshMode d vt c s) = Inr u \<Longrightarrow>
      se_ID (last (vt_events vt)) \<le> exportedThrough (snd (processFreshMode d vt c s))"
    using last by (cases ?p) (auto simp: processFreshMode_def Let_def split: sum.splits if_splits)
qed

lemma catchUpBatch_justified:
  assumes "sorted_wrt (<) (map se_ID (vt_events vt))" "vt_events vt \<noteq> []"
    and "proved db base (vt_head vt)" "is_int64 (LastID base)" "LastID (vt_head vt) = se_ID (last (vt_events vt))"
  shows "justified objs db base s (snd (catchUpBatch d vt s)) \<and>
    (fst (catchUpBatch d vt s) = Inr u \<longrightarrow> LastID (vt_head vt) \<le> exportedThrough (snd (catchUpBatch d vt s)))"
proof -
  let ?c = "length (vt_events vt) = tailBatch d"
  obtain r s1 where p: "processFreshMode d vt ?c s = (r, s1)" by (cases "processFreshMode d vt ?c s")
  have j: "justified objs db base s s1" using processFreshMode_justified(1)[OF assms(1,2), of db base s ?c] p by simp
  show ?thesis
  proof (cases r)
    case (Inl e)
    with p j show ?thesis by (simp add: catchUpBatch_def)
  next
    case (Inr u)
    have le: "LastID (vt_head vt) \<le> exportedThrough s1"
      using processFreshMode_justified(2)[OF assms(1,2), of ?c s u] p Inr assms(5) by simp
    let ?s2 = "snd (onWorld id (signAnchor d (vt_head vt)) s1)"
    have "justified objs db base s1 ?s2" using signAnchor_justified[OF assms(3,4)] le by blast
    moreover from this have "exportedThrough s1 \<le> exportedThrough ?s2" by (simp add: justified_def)
    ultimately show ?thesis
      using p Inr le j by (auto simp: catchUpBatch_def intro: justified_trans)
  qed
qed

lemma TailEvents_sorted: "sorted_wrt (<) (map se_ID (TailEvents t i n))"
  using table_rows_sorted[of t] by (simp add: TailEvents_def sorted_wrt_map sorted_wrt_filter sorted_wrt_take)

lemma verifyChainLoop_justified:
  assumes "proved db base head" "is_int64 (LastID base)" "LastID head \<le> exportedThrough s \<or> head = base"
  shows "justified objs db base s (snd (verifyChainLoop d (catchUpBatch d) db present target k head s)) \<and>
    (\<forall>vt. fst (verifyChainLoop d (catchUpBatch d) db present target k head s) = Inr (Some vt) \<longrightarrow>
       anchorPresent vt = present \<and> proved db base (vt_head vt) \<and> target \<le> LastID (vt_head vt) \<and>
       (LastID (vt_head vt) \<le> exportedThrough (snd (verifyChainLoop d (catchUpBatch d) db present target k head s))
        \<or> vt_head vt = base))"
  using assms
proof (induction "nat (target - LastID head)" arbitrary: k head s rule: less_induct)
  case less
  note step = verifyChainLoop.simps[of d "catchUpBatch d" db present target k head s]
  show ?case
  proof (cases "\<exists>t. db k = Inr t \<and> VerifyTail head (TailEvents t (LastID head) (tailBatch d)) = Inr None")
    case False
    then show ?thesis
      by (subst (1 2 3) step) (auto simp: Let_def split: sum.splits option.splits)
  next
    case True
    then obtain t where t: "db k = Inr t" "VerifyTail head (TailEvents t (LastID head) (tailBatch d)) = Inr None"
      by blast
    let ?evs = "TailEvents t (LastID head) (tailBatch d)"
    let ?head = "nextHead head ?evs"
    let ?vt = "\<lparr>anchorPresent = present, vt_head = ?head, vt_events = ?evs\<rparr>"
    let ?each = "if ?evs \<noteq> [] then catchUpBatch d ?vt s else (Inr (), s)"
    have pr: "proved db base ?head" by (rule proved_page[OF less.prems(1) t])
    obtain r s1 where e: "?each = (r, s1)" by (cases ?each)
    have each: "justified objs db base s s1 \<and>
        (r = Inr () \<longrightarrow> LastID ?head \<le> exportedThrough s1 \<or> ?head = base)"
    proof (cases "?evs = []")
      case True
      with e less.prems(3) show ?thesis by (auto simp: nextHead_def)
    next
      case False
      have last: "LastID ?head = se_ID (last ?evs)" using False by (simp add: nextHead_def)
      from catchUpBatch_justified[of ?vt db base s "()"] TailEvents_sorted False pr less.prems(2) last e
      show ?thesis by simp
    qed
    show ?thesis
    proof (cases "\<exists>u. r = Inr u \<and> \<not> target \<le> LastID ?head \<and> \<not> length ?evs < tailBatch d")
      case False
      with e each pr t show ?thesis
        by (subst (1 2 3) step) (auto simp: Let_def split: sum.splits intro: justified_trans)
    next
      case True
      then have nonempty: "?evs \<noteq> []" by (metis list.size(3) tailBatch_pos)
      with True TailEvents_last[of t "LastID head" "tailBatch d"]
      have "nat (target - LastID ?head) < nat (target - LastID head)" by (simp add: nextHead_def)
      note IH = less.hyps[OF this pr less.prems(2), of s1 "Suc k"]
      from True e t have eq: "verifyChainLoop d (catchUpBatch d) db present target k head s =
          verifyChainLoop d (catchUpBatch d) db present target (Suc k) ?head s1"
        by (subst step) (auto simp: Let_def)
      from IH each True show ?thesis unfolding eq by (auto intro: justified_trans)
    qed
  qed
qed

end

subsection \<open>Which anchor is the baseline\<close>

text \<open>The verdict of the signer on each anchor, in the order the code asks.\<close>

fun verdicts :: "'w deps \<Rightarrow> anchor list \<Rightarrow> 'w \<Rightarrow> (anchor \<times> (string, bytes \<times> bool) result) list" where
  "verdicts d [] w = []"
| "verdicts d (a # as) w = (a, fst (anchorVerify d a w)) # verdicts d as (snd (anchorVerify d a w))"

lemma scanAnchors_verdicts: "fst (scanAnchors d as sc w) = fold (\<lambda>(a, v). scanAnchor a v) (verdicts d as w) sc"
  by (induction as arbitrary: sc w) (auto split: prod.splits)

definition is_max_id :: "(anchor \<times> 'v) list \<Rightarrow> ('v \<Rightarrow> bool) \<Rightarrow> int64 option \<Rightarrow> bool" where
  "is_max_id vs P i \<longleftrightarrow>
    (case i of
       None \<Rightarrow> list_all (\<lambda>(a, v). \<not> P v) vs
     | Some j \<Rightarrow> list_ex (\<lambda>(a, v). P v \<and> an_UpToID a = j) vs \<and> list_all (\<lambda>(a, v). P v \<longrightarrow> an_UpToID a \<le> j) vs)"

definition is_valid :: "(string, bytes \<times> bool) result \<Rightarrow> bool" where
  "is_valid v \<longleftrightarrow> (case v of Inr (h, b) \<Rightarrow> b | _ \<Rightarrow> False)"

definition is_invalid :: "(string, bytes \<times> bool) result \<Rightarrow> bool" where
  "is_invalid v \<longleftrightarrow> (case v of Inr (h, b) \<Rightarrow> \<not> b | _ \<Rightarrow> False)"

definition is_error :: "(string, bytes \<times> bool) result \<Rightarrow> bool" where
  "is_error v \<longleftrightarrow> (case v of Inl e \<Rightarrow> True | _ \<Rightarrow> False)"

lemmas verdict_defs = is_valid_def is_invalid_def is_error_def

lemma is_max_id_snoc:
  "is_max_id vs P i \<Longrightarrow> is_max_id (vs @ [(a, v)]) P
     (if P v \<and> (case i of None \<Rightarrow> True | Some j \<Rightarrow> j \<le> an_UpToID a) then Some (an_UpToID a) else i)"
  by (auto simp: is_max_id_def list_all_iff list_ex_iff split: option.splits)

lemma is_max_id_snoc_strict:
  "is_max_id vs P i \<Longrightarrow> is_max_id (vs @ [(a, v)]) P
     (if P v \<and> (case i of None \<Rightarrow> True | Some j \<Rightarrow> j < an_UpToID a) then Some (an_UpToID a) else i)"
  by (auto simp: is_max_id_def list_all_iff list_ex_iff split: option.splits)

definition empty_scan :: baseline_scan where
  "empty_scan = \<lparr>bs_best = None, bs_invalidID = None, bs_verifyErrID = None\<rparr>"

lemma scan_spec:
  "let sc = fold (\<lambda>(a, v). scanAnchor a v) vs empty_scan in
     is_max_id vs is_valid (map_option (an_UpToID \<circ> fst) (bs_best sc)) \<and>
     is_max_id vs is_error (bs_verifyErrID sc) \<and> is_max_id vs is_invalid (bs_invalidID sc) \<and>
     (\<forall>a h. bs_best sc = Some (a, h) \<longrightarrow> (a, Inr (h, True)) \<in> set vs)"
proof (induction vs rule: rev_induct)
  case Nil
  show ?case by (simp add: empty_scan_def is_max_id_def Let_def)
next
  case (snoc x vs)
  obtain a v where x: "x = (a, v)" by (cases x)
  let ?sc = "fold (\<lambda>(a, v). scanAnchor a v) vs empty_scan"
  from snoc have IH: "is_max_id vs is_valid (map_option (an_UpToID \<circ> fst) (bs_best ?sc))"
    "is_max_id vs is_error (bs_verifyErrID ?sc)" "is_max_id vs is_invalid (bs_invalidID ?sc)"
    "\<forall>a h. bs_best ?sc = Some (a, h) \<longrightarrow> (a, Inr (h, True)) \<in> set vs"
    unfolding Let_def by blast+
  have fields: "map_option (an_UpToID \<circ> fst) (bs_best (scanAnchor a v ?sc)) =
      (if is_valid v \<and> (case map_option (an_UpToID \<circ> fst) (bs_best ?sc) of None \<Rightarrow> True | Some j \<Rightarrow> j < an_UpToID a)
       then Some (an_UpToID a) else map_option (an_UpToID \<circ> fst) (bs_best ?sc))"
    "bs_verifyErrID (scanAnchor a v ?sc) =
      (if is_error v \<and> (case bs_verifyErrID ?sc of None \<Rightarrow> True | Some j \<Rightarrow> j \<le> an_UpToID a)
       then Some (an_UpToID a) else bs_verifyErrID ?sc)"
    "bs_invalidID (scanAnchor a v ?sc) =
      (if is_invalid v \<and> (case bs_invalidID ?sc of None \<Rightarrow> True | Some j \<Rightarrow> j \<le> an_UpToID a)
       then Some (an_UpToID a) else bs_invalidID ?sc)"
    by (auto simp: scanAnchor_def verdict_defs split: sum.splits bool.splits option.splits prod.splits)
  have best: "\<forall>a' h. bs_best (scanAnchor a v ?sc) = Some (a', h) \<longrightarrow> (a', Inr (h, True)) \<in> set (vs @ [(a, v)])"
    using IH(4) by (auto simp: scanAnchor_def split: sum.splits bool.splits option.splits if_splits)
  have snoc_eq: "fold (\<lambda>(a, v). scanAnchor a v) (vs @ [x]) empty_scan = scanAnchor a v ?sc"
    by (simp add: x)
  show ?case
    unfolding snoc_eq unfolding x Let_def fields
    by (intro conjI is_max_id_snoc_strict is_max_id_snoc IH best)
qed

context monitor_deps
begin

lemma anchorVerify_frame: "objs (snd (anchorVerify d a w)) = objs w"
  using verify_frame
  by (auto simp: anchorVerify_def obind_def ret_def split: option.splits prod.splits sum.splits) (metis snd_conv)+

lemma scanAnchors_frame: "objs (snd (scanAnchors d as sc w)) = objs w"
  using anchorVerify_frame
  by (induction as arbitrary: sc w) (auto split: prod.splits, metis snd_conv)

end

lemma find_mem: "find P xs = Some y \<Longrightarrow> y \<in> set xs"
  by (induction xs) (auto split: if_splits)

lemma setField_cases:
  assumes "setField flds k v a = Some x"
  shows "x = a \<or> (\<exists>n s. (n, s) \<in> set flds \<and> s v a = Some x)"
proof (cases "map_of flds k")
  case (Some s)
  with assms show ?thesis by (auto simp: setField_def dest: map_of_SomeD)
next
  case None
  show ?thesis
  proof (cases "find (\<lambda>(n, s). foldName n = foldName k) flds")
    case (Some p)
    with assms None find_mem[OF Some] show ?thesis by (cases p) (auto simp: setField_def)
  qed (use assms None in \<open>auto simp: setField_def\<close>)
qed

lemma setFields_inv:
  assumes "setFields flds ms a = Some a'" "P a"
    and "\<And>k s v x x'. (k, s) \<in> set flds \<Longrightarrow> s v x = Some x' \<Longrightarrow> P x \<Longrightarrow> P x'"
  shows "P a'"
  using assms(1,2)
proof (induction ms arbitrary: a)
  case (Cons m ms)
  obtain k v where m: "m = (k, v)" by (cases m)
  with Cons.prems(1) obtain x where x: "setField flds k v a = Some x" "setFields flds ms x = Some a'"
    by (auto simp: bind_eq_Some_conv)
  have "P x"
    using setField_cases[OF x(1)] Cons.prems(2) assms(3) by blast
  with Cons.IH x(2) show ?case by blast
qed simp

lemma Unmarshal_cases:
  "Unmarshal flds zero b = Some a \<Longrightarrow> a = zero \<or> (\<exists>ms. setFields flds ms zero = Some a)"
  by (auto simp: Unmarshal_def split: body.splits list.splits json.splits)

lemma ParseInt_int64: "ParseInt s = Some i \<Longrightarrow> is_int64 i"
  by (auto simp: ParseInt_def bind_eq_Some_conv split: list.splits if_splits)

lemma set_int_cases: "set_int upd v x = Some x' \<Longrightarrow> x' = x \<or> (\<exists>i. is_int64 i \<and> x' = upd i x)"
  by (cases v) (auto simp: set_int_def dest: ParseInt_int64)

lemma set_str_cases: "set_str upd v x = Some x' \<Longrightarrow> x' = x \<or> (\<exists>s. x' = upd s x)"
  by (cases v) (auto simp: set_str_def)

lemma unmarshalAnchor_int64:
  assumes "unmarshalAnchor b = Some a"
  shows "is_int64 (an_UpToID a)"
proof -
  let ?zero = "\<lparr>an_UpToID = 0, an_HeadHash = [], an_Signature = [], an_KeyID = []\<rparr>"
  have keep: "is_int64 (an_UpToID x')"
    if "(k, s) \<in> set anchorFields" "s v x = Some x'" "is_int64 (an_UpToID x)" for k s v x x'
  proof -
    from that(1) consider "s = set_int (\<lambda>i. an_UpToID_update (\<lambda>_. i))"
      | "s = set_str (\<lambda>s. an_HeadHash_update (\<lambda>_. s))" | "s = set_str (\<lambda>s. an_Signature_update (\<lambda>_. s))"
      | "s = set_str (\<lambda>s. an_KeyID_update (\<lambda>_. s))"
      unfolding anchorFields_def by auto
    then show ?thesis
      using that(2,3) by cases (auto dest!: set_int_cases set_str_cases)
  qed
  from assms have "a = ?zero \<or> (\<exists>ms. setFields anchorFields ms ?zero = Some a)"
    unfolding unmarshalAnchor_def by (rule Unmarshal_cases)
  then show ?thesis
  proof
    assume "\<exists>ms. setFields anchorFields ms ?zero = Some a"
    then obtain ms where "setFields anchorFields ms ?zero = Some a" ..
    then show ?thesis
      by (rule setFields_inv[where P = "\<lambda>a. is_int64 (an_UpToID a)"]) (simp add: is_int64_def, rule keep)
  qed (simp add: is_int64_def)
qed

text \<open>
  A baseline the walk may start from: an anchor object in the store whose signature the signer
  accepted for that id and head, or genesis when the store has no readable anchor.
\<close>

definition trusted :: "'w deps \<Rightarrow> ('w \<Rightarrow> string \<Rightarrow> body option) \<Rightarrow> 'w \<Rightarrow> chain_head \<Rightarrow> bool \<Rightarrow> bool" where
  "trusted d objs w base present \<longleftrightarrow>
    (if present
     then \<exists>k b a w1 w2. parseCheckpointID k \<noteq> None \<and> objs w k = Some b \<and> unmarshalAnchor b = Some a \<and>
       LastID base = an_UpToID a \<and> anchorVerify d a w1 = (Inr (HeadHash base, True), w2)
     else base = \<lparr>LastID = 0, HeadHash = d_genesis d\<rparr> \<and>
       (\<forall>k b. parseCheckpointID k \<noteq> None \<and> objs w k = Some b \<longrightarrow> unmarshalAnchor b = None))"

lemma trusted_int64: "trusted d objs w base present \<Longrightarrow> is_int64 (LastID base)"
  using unmarshalAnchor_int64 by (auto simp: trusted_def is_int64_def[of 0] split: if_splits)

lemma verdicts_mem: "(a, v) \<in> set (verdicts d as w) \<Longrightarrow> a \<in> set as \<and> (\<exists>w1 w2. anchorVerify d a w1 = (v, w2))"
  by (induction as arbitrary: w) (auto, metis surjective_pairing)

lemma verdicts_Nil_iff [simp]: "verdicts d as w = [] \<longleftrightarrow> as = []"
  by (cases as) auto

text \<open>A run that leaves every checkpoint object, the watermark and the halt as they were.\<close>

definition quiet :: "('w \<Rightarrow> string \<Rightarrow> body option) \<Rightarrow> 'w monitor \<Rightarrow> 'w monitor \<Rightarrow> bool" where
  "quiet objs s s' \<longleftrightarrow> (\<forall>k. is_checkpoint k \<longrightarrow> objs (world s') k = objs (world s) k) \<and>
     exportedThrough s' = exportedThrough s \<and> halted s' = halted s"

context monitor_deps
begin

lemma ReadAnchors_frame: "ReadAnchors (d_store d) w = (r, w') \<Longrightarrow> objs w' = objs w"
  using ReadAnchors_steps by (auto simp: steps_def) (metis snd_conv)

lemma selectBaseline_frame: "objs (snd (selectBaseline d w)) = objs w"
proof (cases "ReadAnchors (d_store d) w")
  case (Pair r w1)
  with ReadAnchors_frame[OF Pair] scanAnchors_frame[of "projr r" empty_scan w1] show ?thesis
    by (cases r) (auto simp: selectBaseline_def obind_def wrap_err_def empty_scan_def split: prod.splits)
qed

lemma selectBaseline_trusted:
  assumes "selectBaseline d w = (Inr (Inl (base, present)), w')"
  shows "trusted d objs w base present"
proof -
  from assms obtain as w1 where r: "ReadAnchors (d_store d) w = (Inr as, w1)"
    and b: "baselineOf (d_genesis d) (fst (scanAnchors d as empty_scan w1)) = Inl (base, present)"
    unfolding selectBaseline_def obind_Inr_iff wrap_err_Inr_iff empty_scan_def case_prod_beta by auto
  define sc where "sc = fst (scanAnchors d as empty_scan w1)"
  let ?vs = "verdicts d as w1"
  note spec = scan_spec[of ?vs, folded scanAnchors_verdicts[of d as empty_scan w1], folded sc_def, unfolded Let_def]
  show ?thesis
  proof (cases "bs_best sc")
    case (Some p)
    obtain a h where p: "p = (a, h)" by (cases p)
    with spec Some have "(a, Inr (h, True)) \<in> set ?vs" by blast
    from verdicts_mem[OF this] ReadAnchors_ok(2)[OF r] obtain k b' w2 w3
      where "parseCheckpointID k \<noteq> None" "objs w k = Some b'" "unmarshalAnchor b' = Some a"
        "anchorVerify d a w2 = (Inr (h, True), w3)" by blast
    moreover from b Some p have "base = \<lparr>LastID = an_UpToID a, HeadHash = h\<rparr>" "present"
      by (auto simp: baselineOf_def sc_def)
    ultimately show ?thesis unfolding trusted_def by (metis chain_head.select_convs)
  next
    case None
    with b have base: "bs_verifyErrID sc = None" "bs_invalidID sc = None"
        "base = \<lparr>LastID = 0, HeadHash = d_genesis d\<rparr>" "\<not> present"
      by (auto simp: baselineOf_def sc_def split: option.splits)
    have "\<not> is_valid v \<and> \<not> is_error v \<and> \<not> is_invalid v" if "(a, v) \<in> set ?vs" for a v
      using spec None base(1,2) that by (auto simp: is_max_id_def list_all_iff)
    moreover have "is_valid v \<or> is_error v \<or> is_invalid v" for v
      by (auto simp: verdict_defs split: sum.splits)
    ultimately have "?vs = []" by (metis list.set_intros(1) neq_Nil_conv surj_pair)
    then have "set as = {}" by simp
    then have none: "a \<notin> {a. \<exists>k b. parseCheckpointID k \<noteq> None \<and> objs w k = Some b \<and> unmarshalAnchor b = Some a}" for a
      unfolding ReadAnchors_ok(2)[OF r, symmetric] by simp
    have "unmarshalAnchor b = None" if "parseCheckpointID k \<noteq> None" "objs w k = Some b" for k b
    proof (rule ccontr)
      assume "unmarshalAnchor b \<noteq> None"
      then obtain a where "unmarshalAnchor b = Some a" by blast
      with that none[of a] show False by blast
    qed
    with base show ?thesis by (auto simp: trusted_def)
  qed
qed

lemma verifyChain_cases:
  obtains (none) "quiet objs s (snd (verifyChain d (catchUpBatch d) db s))"
    "\<And>vt. fst (verifyChain d (catchUpBatch d) db s) \<noteq> Inr (Some vt)"
  | (walk) base present where "trusted d objs (world s) base present"
    "justified objs db base s (snd (verifyChain d (catchUpBatch d) db s))"
    "\<And>vt. fst (verifyChain d (catchUpBatch d) db s) = Inr (Some vt) \<Longrightarrow>
       anchorPresent vt = present \<and> proved db base (vt_head vt) \<and>
       (LastID (vt_head vt) \<le> exportedThrough (snd (verifyChain d (catchUpBatch d) db s)) \<or> vt_head vt = base)"
proof -
  obtain r w1 where b: "selectBaseline d (world s) = (r, w1)" by (cases "selectBaseline d (world s)")
  then have w1: "objs w1 = objs (world s)" using selectBaseline_frame[of "world s"] by simp
  show thesis
  proof (cases "\<exists>base present t. r = Inr (Inl (base, present)) \<and> db 0 = Inr t")
    case False
    show thesis
    proof (rule none)
      show "quiet objs s (snd (verifyChain d (catchUpBatch d) db s))"
        using b w1 False report_frame[OF checkpoint_not_alert]
        by (auto simp: verifyChain_def obind_def onWorld_def sum.map_id quiet_def report_def split: sum.splits)
      show "\<And>vt. fst (verifyChain d (catchUpBatch d) db s) \<noteq> Inr (Some vt)"
        using b False by (auto simp: verifyChain_def obind_def onWorld_def sum.map_id split: sum.splits)
    qed
  next
    case True
    then obtain base present t where r: "r = Inr (Inl (base, present))" "db 0 = Inr t" by blast
    let ?s1 = "s\<lparr>world := w1\<rparr>"
    let ?res = "verifyChainLoop d (catchUpBatch d) db present (MaxEventID t) 1 base ?s1"
    have eq: "verifyChain d (catchUpBatch d) db s = ?res"
      using b r by (simp add: verifyChain_def obind_def onWorld_def sum.map_id)
    have tr: "trusted d objs (world s) base present" using b r selectBaseline_trusted by simp
    note loop = verifyChainLoop_justified[OF proved_base trusted_int64[OF tr], of ?s1 db present "MaxEventID t" 1]
    have "justified objs db base s ?s1" using w1 by (auto intro: justified_same)
    with loop have "justified objs db base s (snd ?res)" by (auto intro: justified_trans)
    with tr loop show thesis by (intro walk[of base present]) (auto simp: eq)
  qed
qed

end

subsection \<open>The operations\<close>

definition guarded :: "'w deps \<Rightarrow> ('w \<Rightarrow> string \<Rightarrow> body option) \<Rightarrow> db_env \<Rightarrow> 'w monitor \<Rightarrow> 'w monitor \<Rightarrow> bool" where
  "guarded d objs db s s' \<longleftrightarrow> quiet objs s s' \<or>
     (\<exists>base present. trusted d objs (world s) base present \<and> justified objs db base s s')"

lemma quiet_refl [simp]: "quiet objs s s"
  by (simp add: quiet_def)

lemma guarded_refl [simp]: "guarded d objs db s s"
  by (simp add: guarded_def)

lemma guarded_keeps: "guarded d objs db s s' \<Longrightarrow> keeps_anchors (objs (world s)) (objs (world s'))"
  by (auto simp: guarded_def quiet_def justified_def keeps_anchors_def)

lemma guarded_mono: "guarded d objs db s s' \<Longrightarrow> exportedThrough s \<le> exportedThrough s' \<and> halted s' = halted s"
  by (auto simp: guarded_def quiet_def justified_def)

lemma snd_wrap_err [simp]: "snd (wrap_err g m w) = snd (m w)"
  by (simp add: wrap_err_def)

lemma fst_wrap_err: "fst (wrap_err g m w) = map_sum g id (fst (m w))"
  by (simp add: wrap_err_def)

context monitor_deps
begin

text \<open>After the walk, only an operation that signs its verified head may follow.\<close>

lemma walk_then_sign_guarded:
  assumes "\<And>s1. f None s1 = (r0, s1)"
    and "\<And>vt s1. snd (f (Some vt) s1) = s1 \<or> snd (f (Some vt) s1) = snd (onWorld id (signAnchor d (vt_head vt)) s1)"
  shows "guarded d objs db s (snd (obind (verifyChain d (catchUpBatch d) db) f s))"
proof -
  obtain r s1 where v: "verifyChain d (catchUpBatch d) db s = (r, s1)"
    by (cases "verifyChain d (catchUpBatch d) db s")
  show ?thesis
  proof (cases rule: verifyChain_cases[of s db])
    case none
    from none(2) v have "r \<noteq> Inr (Some vt)" for vt by simp
    with none(1) v assms(1) show ?thesis
      by (cases r; cases "projr r") (auto simp: obind_def guarded_def)
  next
    case (walk base present)
    show ?thesis
    proof (cases "\<exists>vt. r = Inr (Some vt)")
      case False
      with v walk(1,2) assms(1) show ?thesis
        by (cases r; cases "projr r") (auto simp: obind_def guarded_def)
    next
      case True
      then obtain vt where r: "r = Inr (Some vt)" by blast
      with walk(3)[of vt] v have pr: "proved db base (vt_head vt)"
        and le: "LastID (vt_head vt) \<le> exportedThrough s1 \<or> vt_head vt = base" by simp_all
      have "justified objs db base s1 (snd (f (Some vt) s1))"
        using signAnchor_justified[OF pr trusted_int64[OF walk(1)] le, of id] assms(2)[of vt s1] by auto
      with walk(1,2) v r show ?thesis by (auto simp: obind_def guarded_def intro: justified_trans)
    qed
  qed
qed

lemma Poll_guarded: "guarded d objs db s (snd (Poll d db s))"
  unfolding Poll_def by (auto intro!: walk_then_sign_guarded simp: ret_def)

lemma SignHead_guarded: "guarded d objs db s (snd (SignHead d db s))"
  unfolding SignHead_def by (auto intro!: walk_then_sign_guarded simp: ret_def)

lemma ResumeCoverage_guarded: "guarded d objs db s (snd (ResumeCoverage d db s))"
  unfolding ResumeCoverage_def by (auto intro!: walk_then_sign_guarded)

subsection \<open>Evidence\<close>

lemma anchorWitnesses_frame: "objs (snd (anchorWitnesses d as ev w)) = objs w"
proof (induction as arbitrary: ev w)
  case (Cons a as)
  obtain r w1 where v: "anchorVerify d a w = (r, w1)" by (cases "anchorVerify d a w")
  then have "objs w1 = objs w" using anchorVerify_frame[of a w] by simp
  with Cons v show ?case by (cases r) (auto split: prod.splits)
qed simp

lemma acceptanceVerify_frame: "objs (snd (acceptanceVerify d r w)) = objs w"
  using verify_frame
  by (auto simp: acceptanceVerify_def obind_def ret_def split: option.splits prod.splits sum.splits) (metis snd_conv)+

lemma acceptanceWitnesses_frame: "objs (snd (acceptanceWitnesses d rs ev w)) = objs w"
proof (induction rs arbitrary: ev w)
  case (Cons r rs)
  obtain v w1 where v: "acceptanceVerify d r w = (v, w1)" by (cases "acceptanceVerify d r w")
  then have "objs w1 = objs w" using acceptanceVerify_frame[of r w] by simp
  with Cons v show ?case by (cases v) (auto split: option.splits)
qed simp

lemma ReadAcceptances_frame: "ReadAcceptances (d_store d) w = (r, w') \<Longrightarrow> objs w' = objs w"
  using ReadAcceptances_steps by (auto simp: steps_def) (metis snd_conv)

lemma witnesses_frame: "objs (snd (witnesses d w)) = objs w"
proof (cases "ReadAnchors (d_store d) w")
  case (Pair r w1)
  show ?thesis
  proof (cases r)
    case (Inl e)
    with Pair ReadAnchors_frame[OF Pair] show ?thesis
      by (simp add: witnesses_def obind_def wrap_err_def)
  next
    case (Inr as)
    let ?ev = "\<lparr>ev_checks = [], ev_accepted = [], ev_complete = True\<rparr>"
    obtain ev w2 where a: "anchorWitnesses d as ?ev w1 = (ev, w2)" by (cases "anchorWitnesses d as ?ev w1")
    obtain r2 w3 where b: "ReadAcceptances (d_store d) w2 = (r2, w3)" by (cases "ReadAcceptances (d_store d) w2")
    have "objs w3 = objs w"
      using ReadAnchors_frame[OF Pair] anchorWitnesses_frame[of as ?ev w1] a ReadAcceptances_frame[OF b] by simp
    with Pair Inr a b acceptanceWitnesses_frame[of "projr r2" ev w3] show ?thesis
      by (cases r2) (auto simp: witnesses_def obind_def wrap_err_def split: prod.splits)
  qed
qed

lemma anchorTrustFinding_frame: "objs (snd (anchorTrustFinding d n w)) = objs w"
proof (cases "ReadAnchors (d_store d) w")
  case (Pair r w1)
  with ReadAnchors_frame[OF Pair] show ?thesis
    by (cases r) (auto simp: anchorTrustFinding_def obind_def wrap_err_def ret_def)
qed

lemma judge_frame: "judge d db w = Some (r, w') \<Longrightarrow> objs w' = objs w"
  using witnesses_frame[of w] anchorTrustFinding_frame
  by (auto simp: judge_def split: prod.splits sum.splits option.splits) (metis snd_conv)+

lemma FullVerify_quiet:
  assumes "FullVerify d db s = Some (r, s')"
  shows "\<forall>k. is_checkpoint k \<longrightarrow> objs (world s') k = objs (world s) k" "exportedThrough s' = exportedThrough s"
proof -
  from assms obtain j w where j: "judge d db (world s) = Some (j, w)"
    by (auto simp: FullVerify_def split: option.splits)
  from assms judge_frame[OF j] show "\<forall>k. is_checkpoint k \<longrightarrow> objs (world s') k = objs (world s) k"
    "exportedThrough s' = exportedThrough s"
    by (auto simp: FullVerify_def j report_def report_frame checkpoint_not_alert Let_def
        split: sum.splits prod.splits option.splits if_splits)
qed

lemma recordAcceptance_keeps: "steps (\<lambda>w w'. keeps_anchors (objs w) (objs w')) (recordAcceptance d f resume)"
  unfolding recordAcceptance_def
proof (rule steps_obind[OF keeps_order(2)])
  show "steps (\<lambda>w w'. keeps_anchors (objs w) (objs w')) (wrap_err SignHeadFailed (sg_Sign (d_signer d)
      (AcceptanceDigest (DivergentID f) (Reason f) (Expected f) (Actual f) resume)))"
    by (intro steps_wrap_err frame_keeps) (simp add: steps_def sign_frame)
qed (auto simp: Let_def intro!: steps_intros keeps_order WriteAcceptance_keeps)

lemma AcceptBreak_keeps:
  assumes "AcceptBreak d db row f w = Some (r, w')"
  shows "keeps_anchors (objs w) (objs w')"
proof -
  from assms obtain dg w1 where dg: "Diagnose d db w = Some (dg, w1)"
    by (auto simp: AcceptBreak_def split: option.splits)
  then obtain j where "judge d db w = Some (j, w1)" by (auto simp: Diagnose_def)
  from judge_frame[OF this] have w1: "objs w1 = objs w" .
  from assms dg have "w' = w1 \<or> (\<exists>resume. w' = snd (recordAcceptance d f resume w1))"
    by (auto simp: AcceptBreak_def split: sum.splits option.splits if_splits) (metis snd_conv)
  moreover have "keeps_anchors (objs w) (objs (snd (recordAcceptance d f resume w1)))" for resume
    using recordAcceptance_keeps[of f resume] unfolding steps_def w1[symmetric] by blast
  ultimately show ?thesis using w1 by auto
qed

end

subsection \<open>The running system\<close>

text \<open>
  The daemon's loop over its tickers, errors swallowed, and the operator's command, which runs in a
  process of its own (a fresh monitor) over the same world. The choice between ready tickers is the
  sequence of ticks; each operation has its own database environment.
\<close>

datatype tick = PollTick | SignTick | FullTick

definition New :: "'w \<Rightarrow> 'w monitor" where
  "New w = \<lparr>world = w, exportedThrough = 0, halted = False\<rparr>"

definition runTick :: "'w deps \<Rightarrow> tick \<Rightarrow> db_env \<Rightarrow> 'w monitor \<Rightarrow> 'w monitor option" where
  "runTick d tk db s =
    (case tk of
       PollTick \<Rightarrow> Some (snd (Poll d db s))
     | SignTick \<Rightarrow> Some (snd (SignHead d db s))
     | FullTick \<Rightarrow> map_option snd (FullVerify d db s))"

fun runTicks :: "'w deps \<Rightarrow> (tick \<times> db_env) list \<Rightarrow> 'w monitor \<Rightarrow> 'w monitor option" where
  "runTicks d [] s = Some s"
| "runTicks d ((tk, db) # ts) s = Option.bind (runTick d tk db s) (runTicks d ts)"

definition Run :: "'w deps \<Rightarrow> db_env \<Rightarrow> db_env \<Rightarrow> (tick \<times> db_env) list \<Rightarrow> 'w monitor \<Rightarrow> 'w monitor option" where
  "Run d db0 db1 ticks s = runTicks d ((FullTick, db0) # (PollTick, db1) # ticks) s"

definition acceptBreak :: "'w deps \<Rightarrow> db_env \<Rightarrow> db_env \<Rightarrow> (string, audit_table) result \<Rightarrow> db_env \<Rightarrow> 'w \<Rightarrow>
    ((mon_error, unit) result \<times> 'w) option" where
  "acceptBreak d db1 db2 row db3 w =
    (case Diagnose d db1 w of
       None \<Rightarrow> None
     | Some (Inl e, w1) \<Rightarrow> Some (Inl e, w1)
     | Some (Inr dg, w1) \<Rightarrow>
        (case dg_Finding dg of
           None \<Rightarrow> Some (Inr (), w1)
         | Some f \<Rightarrow>
            (case AcceptBreak d db2 row f w1 of
               None \<Rightarrow> None
             | Some (Inl NothingToAccept, w2) \<Rightarrow> Some (Inr (), w2)
             | Some (Inl e, w2) \<Rightarrow> Some (Inl e, w2)
             | Some (Inr rec, w2) \<Rightarrow> Some (map_prod id world (ResumeCoverage d db3 (New w2))))))"

inductive sys_step :: "'w deps \<Rightarrow> 'w monitor \<Rightarrow> 'w monitor \<Rightarrow> bool" for d where
  tick: "runTick d tk db s = Some s' \<Longrightarrow> sys_step d s s'"
| restart: "sys_step d s (New (world s))"
| operator: "acceptBreak d db1 db2 row db3 (world s) = Some (r, w) \<Longrightarrow> sys_step d s (s\<lparr>world := w\<rparr>)"

inductive_cases sys_stepE: "sys_step d s s'"

context monitor_deps
begin

lemma runTick_keeps: "runTick d tk db s = Some s' \<Longrightarrow> keeps_anchors (objs (world s)) (objs (world s'))"
  using Poll_guarded[of db s, THEN guarded_keeps] SignHead_guarded[of db s, THEN guarded_keeps]
    FullVerify_quiet(1)[of db s]
  by (cases tk) (auto simp: runTick_def keeps_anchors_def)

lemma Diagnose_frame: "Diagnose d db w = Some (r, w') \<Longrightarrow> objs w' = objs w"
  by (auto simp: Diagnose_def dest: judge_frame)

lemma acceptBreak_keeps:
  assumes "acceptBreak d db1 db2 row db3 w = Some (r, w')"
  shows "keeps_anchors (objs w) (objs w')"
proof -
  from assms obtain dg w1 where dg: "Diagnose d db1 w = Some (dg, w1)"
    by (auto simp: acceptBreak_def split: option.splits)
  note w1 = Diagnose_frame[OF dg]
  show ?thesis
  proof (cases "\<exists>x f. dg = Inr x \<and> dg_Finding x = Some f")
    case False
    with assms dg have "w' = w1" by (cases dg) (auto simp: acceptBreak_def split: option.splits)
    with w1 show ?thesis by simp
  next
    case True
    then obtain x f where x: "dg = Inr x" "dg_Finding x = Some f" by blast
    with assms dg obtain a w2 where a: "AcceptBreak d db2 row f w1 = Some (a, w2)"
      by (auto simp: acceptBreak_def split: option.splits)
    have "w' = w2 \<or> w' = world (snd (ResumeCoverage d db3 (New w2)))"
    proof (cases a)
      case (Inl e)
      with a assms dg x show ?thesis by (cases e) (auto simp: acceptBreak_def)
    next
      case (Inr b)
      with a assms dg x show ?thesis
        by (cases "ResumeCoverage d db3 (New w2)") (auto simp: acceptBreak_def)
    qed
    with AcceptBreak_keeps[OF a] ResumeCoverage_guarded[of db3 "New w2", THEN guarded_keeps] w1 show ?thesis
      by (auto simp: New_def intro: keeps_anchors_trans)
  qed
qed

lemma sys_step_keeps: "sys_step d s s' \<Longrightarrow> keeps_anchors (objs (world s)) (objs (world s'))"
  by (erule sys_stepE) (auto simp: New_def dest: runTick_keeps acceptBreak_keeps)

lemma sys_steps_keep: "(sys_step d)\<^sup>*\<^sup>* s s' \<Longrightarrow> keeps_anchors (objs (world s)) (objs (world s'))"
  by (induction rule: rtranclp_induct) (auto intro: keeps_anchors_trans sys_step_keeps)

text \<open>What the evidence of a full verification contains.\<close>

lemma anchorWitnesses_complete:
  "anchorWitnesses d as ev w = (ev', w') \<Longrightarrow> ev_complete ev' \<Longrightarrow>
     ev_complete ev \<and> set (ev_checks ev) \<subseteq> set (ev_checks ev') \<and>
     (\<forall>a\<in>set as. \<exists>h w1 w2. anchorVerify d a w1 = (Inr (h, True), w2) \<and>
        \<lparr>ac_UpToID = an_UpToID a, ac_HeadHash = h\<rparr> \<in> set (ev_checks ev'))"
proof (induction as arbitrary: ev w)
  case (Cons a as)
  obtain r w1 where v: "anchorVerify d a w = (r, w1)" by (cases "anchorVerify d a w")
  show ?case
  proof (cases "\<exists>h. r = Inr (h, True)")
    case True
    then obtain h where r: "r = Inr (h, True)" by blast
    let ?c = "\<lparr>ac_UpToID = an_UpToID a, ac_HeadHash = h\<rparr>"
    from Cons.prems(1) v r have "anchorWitnesses d as (ev\<lparr>ev_checks := ev_checks ev @ [?c]\<rparr>) w1 = (ev', w')"
      by simp
    from Cons.IH[OF this Cons.prems(2)] v r show ?thesis by auto
  next
    case False
    with Cons.prems(1) v have "anchorWitnesses d as (ev\<lparr>ev_complete := False\<rparr>) w1 = (ev', w')"
      by (cases r) (auto split: prod.splits)
    from Cons.IH[OF this Cons.prems(2)] show ?thesis by simp
  qed
qed simp

lemma acceptanceWitnesses_mono:
  "acceptanceWitnesses d rs ev w = (ev', w') \<Longrightarrow>
     ev_checks ev' = ev_checks ev \<and> (ev_complete ev' \<longrightarrow> ev_complete ev)"
proof (induction rs arbitrary: ev w)
  case (Cons r rs)
  obtain v w1 where v: "acceptanceVerify d r w = (v, w1)" by (cases "acceptanceVerify d r w")
  with Cons show ?case by (cases v) (fastforce split: option.splits)+
qed simp

lemma witnesses_complete:
  assumes "witnesses d w = (Inr ev, w')" "ev_complete ev"
    and "parseCheckpointID k \<noteq> None" "objs w k = Some b" "unmarshalAnchor b = Some a"
  shows "\<exists>h w1 w2. anchorVerify d a w1 = (Inr (h, True), w2) \<and>
    \<lparr>ac_UpToID = an_UpToID a, ac_HeadHash = h\<rparr> \<in> set (ev_checks ev)"
proof -
  let ?ev0 = "\<lparr>ev_checks = [], ev_accepted = [], ev_complete = True\<rparr>"
  from assms(1) obtain as w1 where r: "ReadAnchors (d_store d) w = (Inr as, w1)"
    and rest: "(case anchorWitnesses d as ?ev0 w1 of (ev, w1) \<Rightarrow>
           obind (wrap_err ReadAcceptancesFailed (ReadAcceptances (d_store d)))
             (\<lambda>records w2. case acceptanceWitnesses d records ev w2 of (ev', w3) \<Rightarrow> (Inr ev', w3)) w1) = (Inr ev, w')"
    unfolding witnesses_def obind_Inr_iff[of "wrap_err ReadAnchorsFailed _"] wrap_err_Inr_iff by blast
  obtain ev1 w2 where a: "anchorWitnesses d as ?ev0 w1 = (ev1, w2)" by (cases "anchorWitnesses d as ?ev0 w1")
  from rest obtain rs w3 where b: "acceptanceWitnesses d rs ev1 w3 = (ev, w')"
    unfolding a prod.case obind_Inr_iff case_prod_beta by (metis (no_types, lifting) Inr_inject prod.inject surjective_pairing)
  have "a \<in> set as" unfolding ReadAnchors_ok(2)[OF r] using assms(3-5) by blast
  with anchorWitnesses_complete[OF a] acceptanceWitnesses_mono[OF b] assms(2) show ?thesis by auto
qed

end

subsection \<open>A monitor that meets the contract\<close>

text \<open>The in-memory store with the file key signer, \<^verbatim>\<open>NoopDetector\<close> and \<^verbatim>\<open>LoggingReporter\<close>.\<close>

definition Noop_Inspect :: "stored_event list \<Rightarrow> ('w, string, unit) op" where
  "Noop_Inspect evs = ret ()"

definition Logging_Report :: "finding \<Rightarrow> 'w \<Rightarrow> 'w" where
  "Logging_Report f w = w"

definition devDeps :: "(bytes \<Rightarrow> bytes) \<Rightarrow> (bytes \<Rightarrow> bytes \<Rightarrow> bool) \<Rightarrow> bytes \<Rightarrow> int \<Rightarrow> memory_store deps" where
  "devDeps edSign edVerify pub batch =
    \<lparr>d_signer = newFileKey edSign edVerify pub, d_store = memoryStore, d_genesis = GenesisHash,
     d_TailBatch = batch, d_Inspect = Noop_Inspect, d_InspectCatchUp = Noop_Inspect,
     d_Report = Logging_Report\<rparr>"

interpretation dev: monitor_deps "devDeps edSign edVerify pub batch" map_of for edSign edVerify pub batch
proof -
  have "object_store (d_store (devDeps edSign edVerify pub batch)) map_of"
    using memory.object_store_axioms by (simp add: devDeps_def)
  then show "monitor_deps (devDeps edSign edVerify pub batch) map_of"
    by (intro monitor_deps.intro monitor_deps_axioms.intro)
      (simp_all add: devDeps_def newFileKey_def Noop_Inspect_def Logging_Report_def ret_def)
qed

text \<open>A concrete monitor over a store with one anchor, and an empty table.\<close>

definition sample_deps :: "memory_store deps" where
  "sample_deps = devDeps (\<lambda>m. m) (\<lambda>m s. m = s) [1, 2, 3] 2"

definition sample_store :: memory_store where
  "sample_store = [(checkpointKey 1, marshalAnchor sample_anchor)]"

definition sample_db :: db_env where
  "sample_db = (\<lambda>k. Inr sample_table)"

lemma sample_monitor_deps: "monitor_deps sample_deps map_of"
  unfolding sample_deps_def by (rule dev.monitor_deps_axioms)

subsection \<open>Properties\<close>

text \<open>
  C11: off-box evidence survives. Whatever the daemon's ticks, its restarts and the operator's
  accept-break runs do, in any order and against any database, every checkpoint object once in the
  store stays there, byte for byte or rewritten to an anchor of the same head.
\<close>

theorem anchors_survive:
  assumes "monitor_deps d objs" "(sys_step d)\<^sup>*\<^sup>* s s'"
    and "is_checkpoint k" "objs (world s) k = Some b"
  shows "\<exists>b'. objs (world s') k = Some b' \<and> (b' = b \<or>
    (\<exists>p p'. unmarshalAnchor b = Some p \<and> unmarshalAnchor b' = Some p' \<and> an_HeadHash p' = an_HeadHash p))"
  using monitor_deps.sys_steps_keep[OF assms(1,2)] assms(3,4) by (auto simp: keeps_anchors_def)

theorem anchors_survive_witness:
  "\<exists>b'. map_of (world (snd (Poll sample_deps sample_db (New sample_store)))) (checkpointKey 1) = Some b' \<and>
    (b' = marshalAnchor sample_anchor \<or> (\<exists>p p'. unmarshalAnchor (marshalAnchor sample_anchor) = Some p \<and>
       unmarshalAnchor b' = Some p' \<and> an_HeadHash p' = an_HeadHash p))"
proof -
  have "sys_step sample_deps (New sample_store) (snd (Poll sample_deps sample_db (New sample_store)))"
    by (rule sys_step.tick[of _ PollTick sample_db]) (simp add: runTick_def)
  then have "(sys_step sample_deps)\<^sup>*\<^sup>* (New sample_store) (snd (Poll sample_deps sample_db (New sample_store)))" ..
  from anchors_survive[OF sample_monitor_deps this, of "checkpointKey 1" "marshalAnchor sample_anchor"]
  show ?thesis by (simp add: New_def sample_store_def)
qed



text \<open>
  A halted monitor is inert. Poll and sign ticks leave the whole state as it is, for any number
  of ticks and any database, and a coverage run refuses.
\<close>

lemma halted_is_inert:
  assumes "halted s" "list_all (\<lambda>(tk, db). tk \<noteq> FullTick) ticks"
  shows "runTicks d ticks s = Some s \<and> ResumeCoverage d db s = (Inl StillHalted, s)"
proof -
  have "runTicks d ticks s = Some s"
    using assms(2)
  proof (induction ticks)
    case (Cons x ticks)
    obtain tk db where x: "x = (tk, db)" by (cases x)
    with Cons assms(1) show ?case by (cases tk) (auto simp: runTick_def Poll_def SignHead_def)
  qed simp
  with assms(1) show ?thesis by (simp add: ResumeCoverage_def)
qed


lemma sample_source: "db_source sample_db = table_source sample_table"
  by (intro ext) (simp add: db_source_def sample_db_def table_source_def)

lemma sample_walk_clean:
  "VerifyFromGenesisAccepting (db_source sample_db) GenesisHash [] [] = Some (Inr (None, []))"
proof -
  have "walkPages pageSize (table_source sample_table) [] 0 0 \<lparr>LastID = 0, HeadHash = GenesisHash\<rparr> [] [] =
      Some (Inr (None, []))"
    unfolding table_source.walkPages_clean_iff[OF pageSize_pos] table_source.after_def
    using sample_chain_ok by (simp add: sample_row_def)
  then show ?thesis
    by (simp add: VerifyFromGenesisAccepting_def sample_source remainingAnchors_def)
qed


text \<open>
  The baseline of the tail walk. When the anchors can be read, the baseline is the valid anchor
  with the highest id; a junk anchor above it does not matter. With no valid anchor, one that could
  not be checked gives a verify-error finding, else a present one gives a signature finding, and
  only with no readable anchor at all is it genesis.
\<close>

lemma baseline_is_highest_valid_anchor:
  assumes "ReadAnchors (d_store d) w = (Inr as, w1)"
  shows "\<exists>res w2. selectBaseline d w = (Inr res, w2) \<and>
    (let vs = verdicts d as w1 in
     if list_ex (\<lambda>(a, v). is_valid v) vs then
       list_ex (\<lambda>(a, v). case v of
           Inr (h, True) \<Rightarrow> res = Inl (\<lparr>LastID = an_UpToID a, HeadHash = h\<rparr>, True) \<and>
             list_all (\<lambda>(b, u). is_valid u \<longrightarrow> an_UpToID b \<le> an_UpToID a) vs
         | _ \<Rightarrow> False) vs
     else if list_ex (\<lambda>(a, v). is_error v) vs then
       list_ex (\<lambda>(a, v). is_error v \<and> res = Inr \<lparr>DivergentID = an_UpToID a,
          Reason = ReasonAnchorVerifyError, Expected = [], Actual = []\<rparr>) vs
     else if as \<noteq> [] then
       list_ex (\<lambda>(a, v). is_invalid v \<and> res = Inr \<lparr>DivergentID = an_UpToID a,
          Reason = ReasonAnchorSignatureInvalid, Expected = [], Actual = []\<rparr>) vs
     else res = Inl (\<lparr>LastID = 0, HeadHash = d_genesis d\<rparr>, False))"
proof -
  define vs where "vs = verdicts d as w1"
  define sc where "sc = fold (\<lambda>(a, v). scanAnchor a v) vs empty_scan"
  have sel: "selectBaseline d w = (Inr (baselineOf (d_genesis d) sc), snd (scanAnchors d as empty_scan w1))"
    using assms scanAnchors_verdicts[of d as empty_scan w1]
    by (simp add: selectBaseline_def obind_def wrap_err_def empty_scan_def[symmetric] sc_def vs_def case_prod_beta)
  note spec = scan_spec[of vs, folded sc_def, unfolded Let_def]
  have kind: "is_valid v \<or> is_error v \<or> is_invalid v" for v
    by (auto simp: verdict_defs split: sum.splits)
  have as: "as = [] \<longleftrightarrow> vs = []" by (simp add: vs_def)
  show ?thesis
  proof (cases "bs_best sc")
    case (Some p)
    obtain a h where p: "p = (a, h)" by (cases p)
    with spec Some have mem: "(a, Inr (h, True)) \<in> set vs" by blast
    moreover have "list_all (\<lambda>(b, u). is_valid u \<longrightarrow> an_UpToID b \<le> an_UpToID a) vs"
      using spec Some p by (simp add: is_max_id_def)
    moreover have "baselineOf (d_genesis d) sc = Inl (\<lparr>LastID = an_UpToID a, HeadHash = h\<rparr>, True)"
      using Some p by (simp add: baselineOf_def)
    moreover have "list_ex (\<lambda>(a, v). is_valid v) vs"
      using mem by (force simp: list_ex_iff is_valid_def)
    ultimately show ?thesis
      unfolding sel vs_def[symmetric] Let_def by (force simp: list_ex_iff)
  next
    case None
    with spec have nv: "\<not> list_ex (\<lambda>(a, v). is_valid v) vs"
      by (auto simp: is_max_id_def list_all_iff list_ex_iff)
    show ?thesis
    proof (cases "bs_verifyErrID sc")
      case (Some i)
      with spec have "list_ex (\<lambda>(a, v). is_error v \<and> an_UpToID a = i) vs" by (simp add: is_max_id_def)
      with nv None Some show ?thesis
        unfolding sel vs_def[symmetric] Let_def by (force simp: list_ex_iff baselineOf_def)
    next
      case ne: None
      with spec have ner: "\<not> list_ex (\<lambda>(a, v). is_error v) vs"
        by (auto simp: is_max_id_def list_all_iff list_ex_iff)
      show ?thesis
      proof (cases "bs_invalidID sc")
        case (Some i)
        with spec have "list_ex (\<lambda>(a, v). is_invalid v \<and> an_UpToID a = i) vs" by (simp add: is_max_id_def)
        with nv ner None ne Some as show ?thesis
          unfolding sel vs_def[symmetric] Let_def by (force simp: list_ex_iff baselineOf_def)
      next
        case ni: None
        with spec have nin: "\<not> list_ex (\<lambda>(a, v). is_invalid v) vs"
          by (auto simp: is_max_id_def list_all_iff list_ex_iff)
        have "vs = []"
        proof (cases vs)
          case (Cons x xs)
          with nv ner nin kind[of "snd x"] show ?thesis by (simp add: case_prod_beta)
        qed simp
        with None ne ni as show ?thesis
          unfolding sel vs_def[symmetric] Let_def by (simp add: baselineOf_def)
      qed
    qed
  qed
qed

text \<open>
  The export is redacted. The document exported for an event depends on its statement only
  through the statement's SHA-256, and not at all on its detail text: replacing both changes the
  document exactly when the hash changes.
\<close>

lemma export_redacts_statement:
  "encodeExportRecord (exportRecord ev) =
     encodeExportRecord (exportRecord (ev\<lparr>se_Event := (se_Event ev)\<lparr>Statement := q, Detail := dt\<rparr>\<rparr>))
   \<longleftrightarrow> sha256 (str_bytes (Statement (se_Event ev))) = sha256 (str_bytes q)"
  by (simp add: encodeExportRecord_def exportRecord_def jstr_def Let_def)

text \<open>
  Verification is pinned to configured keys. The KMS signer accepts a signature only under a key
  id of its own set, whatever the client answers and whatever key id the anchor declares; the file
  key signer only under its own id.
\<close>

lemma verify_pins_key_ids:
  "(fst (sg_Verify (NewKMS c keyID allowed) digest sig kid w) = Inr True \<longrightarrow>
      kid \<in> set (keyID # filter (\<lambda>k. k \<noteq> []) allowed)) \<and>
   (fst (sg_Verify (newFileKey edSign edVerify pub) digest sig kid w') = Inr True \<longrightarrow>
      kid = fileKeyID pub \<and> edVerify digest sig)"
  by (auto simp: NewKMS_def kms_Verify_def newFileKey_def ret_def Let_def split: if_splits)

subsection \<open>Accepting a break\<close>

text \<open>A signature the signer made is not rejected by it: it verifies, or the check itself fails.\<close>

definition honest_signer :: "'w signer \<Rightarrow> bool" where
  "honest_signer sg \<longleftrightarrow> (\<forall>x w sig kid w1. sg_Sign sg x w = (Inr (sig, kid), w1) \<longrightarrow>
     (\<forall>w2. fst (sg_Verify sg x sig kid w2) \<noteq> Inr False))"

lemma acceptanceVerify_own:
  assumes "honest_signer (d_signer d)"
    and "sg_Sign (d_signer d) (AcceptanceDigest (DivergentID f) (Reason f) (Expected f) (Actual f) resume) w = (Inr (sig, kid), w1)"
  shows "case fst (acceptanceVerify d \<lparr>ap_DivergentID = DivergentID f, ap_Reason = Reason f,
       ap_Expected = hex_EncodeToString (Expected f), ap_Actual = hex_EncodeToString (Actual f),
       ap_ResumeHash = hex_EncodeToString resume, ap_Signature = b64_EncodeToString sig, ap_KeyID = kid\<rparr> w2) of
     Inl e \<Rightarrow> True
   | Inr v \<Rightarrow> v = Some \<lparr>acc_DivergentID = DivergentID f, acc_Reason = Reason f, acc_Expected = Expected f,
         acc_Actual = Actual f, acc_ResumeHash = resume\<rparr>"
proof -
  let ?x = "AcceptanceDigest (DivergentID f) (Reason f) (Expected f) (Actual f) resume"
  obtain r w3 where v: "sg_Verify (d_signer d) ?x sig kid w2 = (r, w3)" by (cases "sg_Verify (d_signer d) ?x sig kid w2")
  have "fst (sg_Verify (d_signer d) ?x sig kid w2) \<noteq> Inr False"
    using assms unfolding honest_signer_def by blast
  with v show ?thesis
    by (cases r) (auto simp: acceptanceVerify_def obind_def ret_def)
qed

text \<open>
  C18: accepting a break accepts that break. A successful \<open>AcceptBreak\<close> means the finding the
  operator reviewed is the one the re-run diagnosis gives now, byte for byte; it adds one object and
  changes no other; the record reads back as written, and whenever the signer can check it, it is
  honoured as an acceptance that covers this finding and no other.
\<close>

theorem accept_break_is_exact:
  assumes "monitor_deps d objs" "honest_signer (d_signer d)"
    and "AcceptBreak d db row f w = Some (Inr rec, w')"
    and "is_int64 (DivergentID f)" "ascii (Reason f)" "ascii (ap_KeyID rec)"
  shows "(\<exists>passed w1. Diagnose d db w = Some (Inr \<lparr>dg_Finding = Some f, dg_Accepted = passed\<rparr>, w1)) \<and>
    objs w' = (objs w)(AcceptanceKey rec \<mapsto> marshalAcceptance rec) \<and>
    unmarshalAcceptance (marshalAcceptance rec) = Some rec \<and>
    (\<forall>w2 g. case fst (acceptanceVerify d rec w2) of
        Inl e \<Rightarrow> True
      | Inr None \<Rightarrow> False
      | Inr (Some acc) \<Rightarrow> covers acc g \<longleftrightarrow> g = f)"
proof -
  from assms(3) obtain dg w1 where dg: "Diagnose d db w = Some (Inr dg, w1)"
    by (auto simp: AcceptBreak_def split: option.splits sum.splits)
  with assms(3) obtain cur resume where cur: "dg_Finding dg = Some cur" "sameFinding cur f"
    and rec: "recordAcceptance d f resume w1 = (Inr rec, w')"
    by (auto simp: AcceptBreak_def split: option.splits sum.splits if_splits)
  have "cur = f" using cur(2) by (simp add: sameFinding_def)
  with dg cur have D: "\<exists>passed w1. Diagnose d db w = Some (Inr \<lparr>dg_Finding = Some f, dg_Accepted = passed\<rparr>, w1)"
    by (metis diagnosis.surjective old.unit.exhaust)
  note w1 = monitor_deps.Diagnose_frame[OF assms(1) dg]
  let ?x = "AcceptanceDigest (DivergentID f) (Reason f) (Expected f) (Actual f) resume"
  from rec obtain sig kid w2 where sign: "sg_Sign (d_signer d) ?x w1 = (Inr (sig, kid), w2)"
    and r: "rec = \<lparr>ap_DivergentID = DivergentID f, ap_Reason = Reason f,
       ap_Expected = hex_EncodeToString (Expected f), ap_Actual = hex_EncodeToString (Actual f),
       ap_ResumeHash = hex_EncodeToString resume, ap_Signature = b64_EncodeToString sig, ap_KeyID = kid\<rparr>"
    and put: "os_Put (d_store d) (AcceptanceKey rec) (marshalAcceptance rec) w2 = (Inr (), w')"
    by (auto simp: recordAcceptance_def obind_Inr_iff WriteAcceptance_def Let_def)
  have w2: "objs w2 = objs w" using monitor_deps.sign_frame[OF assms(1), of ?x w1] sign w1 by simp
  have store: "object_store (d_store d) objs" by (rule monitor_deps.axioms(1)[OF assms(1)])
  have "objs w' = (objs w)(AcceptanceKey rec \<mapsto> marshalAcceptance rec)"
    using object_store.put_ok[OF store, of "AcceptanceKey rec" "marshalAcceptance rec" w2 "()"] put w2 by simp
  moreover have "unmarshalAcceptance (marshalAcceptance rec) = Some rec"
    using assms(4-6) r by (simp add: unmarshal_marshalAcceptance)
  moreover have "case fst (acceptanceVerify d rec w2) of Inl e \<Rightarrow> True | Inr None \<Rightarrow> False
      | Inr (Some acc) \<Rightarrow> covers acc g \<longleftrightarrow> g = f" for w2 g
    using acceptanceVerify_own[OF assms(2) sign, of w2, folded r]
    by (auto simp: covers_def split: sum.splits option.splits)
  ultimately show ?thesis using D by blast
qed

text \<open>A trail whose only row does not match its hash.\<close>

definition bad_row :: stored_event where
  "bad_row = sample_row\<lparr>se_RowHash := []\<rparr>"

definition bad_table :: audit_table where
  "bad_table = Table [bad_row]"

definition bad_finding :: finding where
  "bad_finding = \<lparr>DivergentID = 1, Reason = ReasonRowHashMismatch, Expected = [],
     Actual = sha256 (rowPreimage 1 sample_event 1 GenesisHash)\<rparr>"

lemma bad_table_rows [simp]: "table_rows bad_table = [bad_row]"
  unfolding bad_table_def by (rule Table_inverse) (simp add: bad_row_def sample_row_def is_int64_def)

lemma bad_row_finding: "verifyRowContent bad_row = Inr (Some bad_finding)"
proof -
  have "sha256 x \<noteq> []" for x by (metis length_sha256 list.size(3) zero_neq_numeral)
  then show ?thesis
    by (simp add: verifyRowContent_def bad_row_def sample_row_def RowHash_def sha256Bytes_def bad_finding_def)
qed

lemma bad_walk:
  "VerifyFromGenesisAccepting (db_source (\<lambda>k. Inr bad_table)) GenesisHash [] [] = Some (Inr (Some bad_finding, []))"
proof -
  have src: "db_source (\<lambda>k. Inr bad_table) 0 0 pageSize = Inr [bad_row]"
    by (simp add: db_source_def ChainedEventsAfter_def bad_row_def sample_row_def pageSize_def)
  have "VerifyTail \<lparr>LastID = 0, HeadHash = GenesisHash\<rparr> [bad_row] = Inr (Some bad_finding)"
    using bad_row_finding by (simp add: VerifyTail_def verifyTail_loop_simps) (simp add: bad_row_def sample_row_def)
  then have "walkPage [] [bad_row] 0 \<lparr>LastID = 0, HeadHash = GenesisHash\<rparr> [] = Some (PageStop bad_finding [])"
    by (subst walkPage.simps) simp
  with src show ?thesis
    unfolding VerifyFromGenesisAccepting_def by (subst walkPages.simps) (simp add: remainingAnchors_def)
qed

theorem accept_break_is_exact_witness:
  "\<exists>rec w'. AcceptBreak sample_deps (\<lambda>k. Inr bad_table) (Inr bad_table) bad_finding [] = Some (Inr rec, w') \<and>
     map_of w' = [AcceptanceKey rec \<mapsto> marshalAcceptance rec]"
proof -
  have st: "d_store sample_deps = memoryStore" "d_genesis sample_deps = GenesisHash"
    "d_signer sample_deps = newFileKey (\<lambda>m. m) (\<lambda>m s. m = s) [1, 2, 3]"
    by (simp_all add: sample_deps_def devDeps_def)
  have ra: "ReadAnchors memoryStore [] = (Inr [], [])" "ReadAcceptances memoryStore [] = (Inr [], [])"
    by (simp_all add: ReadAnchors_def ReadAcceptances_def memoryStore_def memory_List_def obind_def ret_def)
  have "Diagnose sample_deps (\<lambda>k. Inr bad_table) [] = Some (Inr \<lparr>dg_Finding = Some bad_finding, dg_Accepted = []\<rparr>, [])"
    by (simp add: Diagnose_def judge_def witnesses_def anchorTrustFinding_def obind_def ret_def wrap_err_def st ra bad_walk)
  moreover have "resumeHashAt (Inr bad_table) (DivergentID bad_finding) = Inr []"
    by (simp add: resumeHashAt_def ChainedEventsAfter_def bad_finding_def bad_row_def sample_row_def wrap64_def)
  moreover have "\<exists>rec w'. recordAcceptance sample_deps bad_finding [] [] = (Inr rec, w') \<and> ap_KeyID rec = fileKeyID [1, 2, 3]"
    by (simp add: recordAcceptance_def st newFileKey_def obind_def ret_def wrap_err_def WriteAcceptance_def
        memoryStore_def memory_Put_def Let_def)
  ultimately obtain rec w' where ab: "AcceptBreak sample_deps (\<lambda>k. Inr bad_table) (Inr bad_table) bad_finding [] = Some (Inr rec, w')"
    and kid: "ap_KeyID rec = fileKeyID [1, 2, 3]"
    by (auto simp: AcceptBreak_def sameFinding_def)
  have hon: "honest_signer (d_signer sample_deps)"
    by (auto simp: st honest_signer_def newFileKey_def ret_def)
  have "ascii (Reason bad_finding)" "is_int64 (DivergentID bad_finding)"
    by (simp_all add: bad_finding_def ReasonRowHashMismatch_def ascii_def is_int64_def)
  moreover have "ascii (ap_KeyID rec)"
    using ascii_hex[of "[1, 2, 3]"] by (simp add: kid fileKeyID_def ascii_def)
  ultimately show ?thesis
    using accept_break_is_exact[OF sample_monitor_deps hon ab] ab by auto
qed

subsection \<open>Everything is exported\<close>

definition exported :: "('w \<Rightarrow> string \<Rightarrow> body option) \<Rightarrow> 'w monitor \<Rightarrow> stored_event \<Rightarrow> bool" where
  "exported objs s e \<longleftrightarrow> (\<exists>i j docs. objs (world s) (eventsKey i j) = Some (Docs docs) \<and>
     encodeExportRecord (exportRecord e) \<in> set docs \<and> 0 < i \<and> i \<le> exportedThrough s)"

definition reliable :: "'w object_store \<Rightarrow> bool" where
  "reliable os \<longleftrightarrow> (\<forall>k b w. \<exists>w'. os_Put os k b w = (Inr (), w'))"

lemma eventsKey_first:
  assumes "eventsKey i j = eventsKey i' j'" "0 < i" "0 < i'"
  shows "i = i'"
proof -
  have digits: "takeWhile (\<lambda>c. c \<noteq> CHR ''-'') (nat_str n @ CHR ''-'' # r) = nat_str n" for n r
  proof (subst takeWhile_append2)
    fix c assume "c \<in> set (nat_str n)"
    from set_nat_str[OF this] show "c \<noteq> CHR ''-''" by (auto simp: char_digit_def)
  qed simp
  have "nat_str (nat i) @ CHR ''-'' # (FormatInt j @ ''.ndjson'') = nat_str (nat i') @ CHR ''-'' # (FormatInt j' @ ''.ndjson'')"
    using assms by (simp add: eventsKey_def FormatInt_def)
  from arg_cong[OF this, of "takeWhile (\<lambda>c. c \<noteq> CHR ''-'')"] have "nat_str (nat i) = nat_str (nat i')"
    unfolding digits .
  then have "nat i = nat i'" by (metis parse_nat_nat_str option.inject)
  with assms(2,3) show ?thesis by simp
qed

lemma eventsKey_plain: "\<not> prefix ''alerts/'' (eventsKey i j)"
  by (simp add: eventsKey_def)

context monitor_deps
begin

lemma signAnchor_exported: "exported objs s e \<Longrightarrow> exported objs (snd (onWorld g (signAnchor d h) s)) e"
proof -
  assume "exported objs s e"
  moreover have "objs (snd (signAnchor d h (world s))) (eventsKey i j) = objs (world s) (eventsKey i j)" for i j
  proof -
    have "eventsKey i j \<noteq> checkpointKey (LastID h)"
      using key_prefixes(1)[of "LastID h"] key_prefixes(3)[of i j] by metis
    then show ?thesis by (cases rule: signAnchor_objs[of h "world s"]) auto
  qed
  ultimately show ?thesis by (auto simp: exported_def onWorld_def split: prod.splits) (metis snd_conv)
qed

lemma report_exported: "exported objs s e \<Longrightarrow> exported objs (report d f s) e"
  by (auto simp: exported_def report_def report_frame eventsKey_plain)

lemma processFreshMode_exports:
  assumes "reliable (d_store d)" "sorted_wrt (<) (map se_ID (vt_events vt))" "0 \<le> exportedThrough s"
  shows "fst (processFreshMode d vt c s) = Inr ()"
    and "exported objs s e \<Longrightarrow> exported objs (snd (processFreshMode d vt c s)) e"
    and "e \<in> set (vt_events vt) \<Longrightarrow> exportedThrough s < se_ID e \<Longrightarrow> exported objs (snd (processFreshMode d vt c s)) e"
proof -
  let ?fresh = "eventsAfter (vt_events vt) (exportedThrough s)"
  let ?w1 = "snd ((if c then d_InspectCatchUp d else d_Inspect d) ?fresh (world s))"
  let ?k = "eventsKey (se_ID (hd ?fresh)) (se_ID (last ?fresh))"
  let ?b = "Docs (map encodeExportRecord (map exportRecord ?fresh))"
  have fresh: "?fresh = filter (\<lambda>e. exportedThrough s < se_ID e) (vt_events vt)"
    by (rule eventsAfter_sorted[OF assms(2)])
  have first: "exportedThrough s < se_ID (hd ?fresh)" "exportedThrough s < se_ID (last ?fresh)"
    "se_ID (hd ?fresh) \<le> se_ID (last ?fresh)" if "?fresh \<noteq> []"
  proof -
    have "hd ?fresh \<in> set ?fresh" "last ?fresh \<in> set ?fresh" using that by simp_all
    then show "exportedThrough s < se_ID (hd ?fresh)" "exportedThrough s < se_ID (last ?fresh)"
      unfolding fresh by auto
    have "sorted_wrt (<) (map se_ID ?fresh)"
      using assms(2) unfolding fresh by (simp add: sorted_wrt_map sorted_wrt_filter)
    from sorted_last[OF this \<open>hd ?fresh \<in> set ?fresh\<close>] show "se_ID (hd ?fresh) \<le> se_ID (last ?fresh)" .
  qed
  obtain w2 where put: "os_Put (d_store d) ?k ?b ?w1 = (Inr (), w2)"
    using assms(1) unfolding reliable_def by blast
  then have w2: "objs w2 = (objs ?w1)(?k \<mapsto> ?b)"
    using put_ok[of ?k ?b ?w1 "()"] by simp
  have w1: "objs ?w1 (eventsKey i j) = objs (world s) (eventsKey i j)" for i j
    using eventsKey_plain[of i j] by (simp add: inspect_frame catchup_frame)
  have res: "processFreshMode d vt c s =
      (if ?fresh = [] then (Inr (), s) else (Inr (), s\<lparr>world := w2, exportedThrough := se_ID (last ?fresh)\<rparr>))"
    using put by (simp add: processFreshMode_def WriteEventBatch_def wrap_err_def Let_def)
  then show "fst (processFreshMode d vt c s) = Inr ()" by simp
  show "exported objs (snd (processFreshMode d vt c s)) e" if ex: "exported objs s e"
  proof (cases "?fresh = []")
    case False
    from ex obtain i j docs where "objs (world s) (eventsKey i j) = Some (Docs docs)"
      "encodeExportRecord (exportRecord e) \<in> set docs" "0 < i" "i \<le> exportedThrough s"
      unfolding exported_def by blast
    moreover from this first[OF False] assms(3) eventsKey_first[of i j "se_ID (hd ?fresh)" "se_ID (last ?fresh)"]
    have "eventsKey i j \<noteq> ?k" by auto
    ultimately have "objs w2 (eventsKey i j) = Some (Docs docs)" "encodeExportRecord (exportRecord e) \<in> set docs"
      "0 < i" "i \<le> se_ID (last ?fresh)"
      using first[OF False] unfolding w2 by (simp_all add: w1)
    with False show ?thesis unfolding res exported_def by auto
  qed (use ex res in simp)
  show "exported objs (snd (processFreshMode d vt c s)) e" if e: "e \<in> set (vt_events vt)" "exportedThrough s < se_ID e"
  proof -
    from e have mem: "e \<in> set ?fresh" unfolding fresh by simp
    then have ne: "?fresh \<noteq> []" by auto
    have "objs w2 ?k = Some ?b" unfolding w2 by simp
    moreover have "encodeExportRecord (exportRecord e) \<in> set (map encodeExportRecord (map exportRecord ?fresh))"
      using mem by simp
    ultimately show ?thesis
      using ne first[OF ne] assms(3) unfolding res exported_def
      by (intro exI[of _ "se_ID (hd ?fresh)"] exI[of _ "se_ID (last ?fresh)"]
          exI[of _ "map encodeExportRecord (map exportRecord ?fresh)"]) simp
  qed
qed

lemma catchUpBatch_exports:
  assumes "reliable (d_store d)" "sorted_wrt (<) (map se_ID (vt_events vt))" "0 \<le> exportedThrough s"
  shows "fst (catchUpBatch d vt s) = Inr ()"
    and "exported objs s e \<Longrightarrow> exported objs (snd (catchUpBatch d vt s)) e"
    and "e \<in> set (vt_events vt) \<Longrightarrow> exportedThrough s < se_ID e \<Longrightarrow> exported objs (snd (catchUpBatch d vt s)) e"
proof -
  let ?c = "length (vt_events vt) = tailBatch d"
  obtain s1 where p: "processFreshMode d vt ?c s = (Inr (), s1)"
    using processFreshMode_exports(1)[OF assms, of ?c] by (metis prod.collapse)
  note ex = processFreshMode_exports(2,3)[OF assms, of e ?c, unfolded p snd_conv]
  show "fst (catchUpBatch d vt s) = Inr ()" by (simp add: catchUpBatch_def p)
  show "exported objs s e \<Longrightarrow> exported objs (snd (catchUpBatch d vt s)) e"
    and "e \<in> set (vt_events vt) \<Longrightarrow> exportedThrough s < se_ID e \<Longrightarrow> exported objs (snd (catchUpBatch d vt s)) e"
    using ex signAnchor_exported[of s1 e id "vt_head vt"] by (auto simp: catchUpBatch_def p)
qed

end

definition rowsAfter :: "audit_table \<Rightarrow> int64 \<Rightarrow> stored_event list" where
  "rowsAfter t i = filter (\<lambda>e. i < se_ID e) (table_rows t)"

lemma rowsAfter_sorted: "sorted_wrt (<) (map se_ID (rowsAfter t i))"
  using table_rows_sorted[of t] by (simp add: rowsAfter_def sorted_wrt_map sorted_wrt_filter)

lemma rowsAfter_page:
  assumes "rowsAfter t i \<noteq> []" "0 < n"
  shows "rowsAfter t (se_ID (last (take n (rowsAfter t i)))) = drop n (rowsAfter t i)"
proof -
  have "i < se_ID (last (take n (rowsAfter t i)))"
    using TailEvents_last[of t i n] assms by (simp add: TailEvents_def rowsAfter_def)
  then have "rowsAfter t (se_ID (last (take n (rowsAfter t i)))) =
      filter (\<lambda>e. se_ID (last (take n (rowsAfter t i))) < se_ID e) (rowsAfter t i)"
    unfolding rowsAfter_def filter_filter by (intro filter_cong) auto
  with sorted_after_page[OF rowsAfter_sorted assms] show ?thesis by simp
qed

lemma MaxEventID_rowsAfter: "rowsAfter t i \<noteq> [] \<Longrightarrow> MaxEventID t = se_ID (last (rowsAfter t i))"
proof -
  assume ne: "rowsAfter t i \<noteq> []"
  then have t: "table_rows t \<noteq> []" by (auto simp: rowsAfter_def)
  obtain e where e: "e \<in> set (table_rows t)" "i < se_ID e" using ne by (auto simp: rowsAfter_def filter_empty_conv)
  have "i < se_ID (last (table_rows t))"
    using sorted_last[OF table_rows_sorted e(1)] e(2) by simp
  then have "last (rowsAfter t i) = last (table_rows t)"
    unfolding rowsAfter_def by (subst append_butlast_last_id[OF t, symmetric]) simp
  with t show ?thesis by (cases "table_rows t") (auto simp: MaxEventID_def)
qed

lemma MaxEventID_le: "rowsAfter t i = [] \<Longrightarrow> 0 \<le> i \<Longrightarrow> MaxEventID t \<le> i"
proof (cases "table_rows t")
  case (Cons e es)
  assume "rowsAfter t i = []"
  with last_in_set[of "table_rows t"] Cons show ?thesis
    by (auto simp: rowsAfter_def filter_empty_conv MaxEventID_def not_less split: if_splits)
qed (simp add: MaxEventID_def)

context monitor_deps
begin

lemma catchUpBatch_mono:
  assumes "sorted_wrt (<) (map se_ID (vt_events vt))" "vt_events vt \<noteq> []"
  shows "exportedThrough s \<le> exportedThrough (snd (catchUpBatch d vt s))"
proof -
  let ?c = "length (vt_events vt) = tailBatch d"
  obtain r s1 where p: "processFreshMode d vt ?c s = (r, s1)" by (cases "processFreshMode d vt ?c s")
  have "exportedThrough s \<le> exportedThrough s1"
    using processFreshMode_justified(1)[OF assms, of undefined undefined s ?c] p by (simp add: justified_def)
  then show ?thesis
    using p by (cases r) (auto simp: catchUpBatch_def onWorld_def split: prod.splits)
qed

text \<open>On a table that stays as it is and verifies from the head, the walk gets to its end.\<close>

lemma verifyChainLoop_exports:
  assumes "reliable (d_store d)" "\<And>k. db k = Inr t"
    and "chain_ok (HeadHash head) (rowsAfter t (LastID head))" "0 \<le> exportedThrough s" "0 \<le> LastID head"
  shows "\<exists>vt s'. verifyChainLoop d (catchUpBatch d) db present (MaxEventID t) k head s = (Inr (Some vt), s') \<and>
    (\<forall>e. exported objs s e \<or> e \<in> set (rowsAfter t (LastID head)) \<and> exportedThrough s < se_ID e \<longrightarrow> exported objs s' e)"
  using assms(3-5)
proof (induction "nat (MaxEventID t - LastID head)" arbitrary: k head s rule: less_induct)
  case less
  let ?after = "rowsAfter t (LastID head)"
  let ?evs = "TailEvents t (LastID head) (tailBatch d)"
  let ?head = "nextHead head ?evs"
  let ?vt = "\<lparr>anchorPresent = present, vt_head = ?head, vt_events = ?evs\<rparr>"
  note step = verifyChainLoop.simps[of d "catchUpBatch d" db present "MaxEventID t" k head s]
  have evs: "?evs = take (tailBatch d) ?after" by (simp add: TailEvents_def rowsAfter_def)
  have split: "?after = ?evs @ drop (tailBatch d) ?after" by (simp add: evs)
  have ok: "chain_ok (HeadHash head) ?evs" "chain_ok (end_hash (HeadHash head) ?evs) (drop (tailBatch d) ?after)"
    using less.prems(1) split chain_ok_append by metis+
  have v: "VerifyTail head ?evs = Inr None" using ok(1) by (simp add: VerifyTail_None_iff)
  show ?case
  proof (cases "?after = []")
    case True
    then have "?evs = []" by (simp add: evs)
    moreover have "MaxEventID t \<le> LastID head" using True less.prems(3) by (rule MaxEventID_le)
    ultimately have "verifyChainLoop d (catchUpBatch d) db present (MaxEventID t) k head s = (Inr (Some ?vt), s)"
      using assms(2)[of k] v by (subst step) (simp add: nextHead_def Let_def)
    with True show ?thesis by auto
  next
    case False
    then have ne: "?evs \<noteq> []" by (simp add: evs)
    have sorted: "sorted_wrt (<) (map se_ID (vt_events ?vt))" by (simp add: TailEvents_sorted)
    obtain s1 where each: "catchUpBatch d ?vt s = (Inr (), s1)"
      using catchUpBatch_exports(1)[OF assms(1) sorted less.prems(2)] by (metis prod.collapse)
    have ex: "exported objs s1 e" if "exported objs s e \<or> e \<in> set ?evs \<and> exportedThrough s < se_ID e" for e
      using catchUpBatch_exports(2,3)[OF assms(1) sorted less.prems(2), of e] that each by auto
    have mono: "exportedThrough s \<le> exportedThrough s1"
      using catchUpBatch_mono[of ?vt s] sorted ne each by simp
    have head': "LastID ?head = se_ID (last ?evs)" "HeadHash ?head = end_hash (HeadHash head) ?evs"
      using ne by (simp_all add: nextHead_def end_hash_def)
    have rest: "rowsAfter t (LastID ?head) = drop (tailBatch d) ?after"
      using rowsAfter_page[OF False tailBatch_pos[of d]] unfolding head'(1) unfolding evs .
    show ?thesis
    proof (cases "drop (tailBatch d) ?after = []")
      case True
      then have "?evs = ?after" using split by simp
      with False have "MaxEventID t \<le> LastID ?head" using MaxEventID_rowsAfter[OF False] head'(1) by simp
      then have "verifyChainLoop d (catchUpBatch d) db present (MaxEventID t) k head s = (Inr (Some ?vt), s1)"
        using assms(2)[of k] v ne each by (subst step) (simp add: Let_def)
      with ex \<open>?evs = ?after\<close> show ?thesis by auto
    next
      case more: False
      then have "MaxEventID t = se_ID (last (rowsAfter t (LastID ?head)))"
        using MaxEventID_rowsAfter[of t "LastID ?head"] rest by simp
      moreover have "LastID ?head < se_ID (last (rowsAfter t (LastID ?head)))"
        using last_in_set[of "rowsAfter t (LastID ?head)"] more rest by (auto simp: rowsAfter_def)
      ultimately have lt: "LastID ?head < MaxEventID t" by simp
      have full: "\<not> length ?evs < tailBatch d" using more by (simp add: evs)
      have up: "LastID head < LastID ?head" using TailEvents_last[OF ne] head'(1) by simp
      have eq: "verifyChainLoop d (catchUpBatch d) db present (MaxEventID t) k head s =
          verifyChainLoop d (catchUpBatch d) db present (MaxEventID t) (Suc k) ?head s1"
        using assms(2)[of k] v ne each lt full by (subst step) (simp add: Let_def)
      have "\<exists>vt s'. verifyChainLoop d (catchUpBatch d) db present (MaxEventID t) (Suc k) ?head s1 = (Inr (Some vt), s') \<and>
          (\<forall>e. exported objs s1 e \<or> e \<in> set (rowsAfter t (LastID ?head)) \<and> exportedThrough s1 < se_ID e \<longrightarrow> exported objs s' e)"
        using up lt ok(2) less.prems(2,3) mono by (intro less.hyps) (simp_all add: rest head'(2))
      then obtain vt s' where res: "verifyChainLoop d (catchUpBatch d) db present (MaxEventID t) (Suc k) ?head s1 = (Inr (Some vt), s')"
        and fin: "\<And>e. exported objs s1 e \<or> e \<in> set (rowsAfter t (LastID ?head)) \<and> exportedThrough s1 < se_ID e \<Longrightarrow> exported objs s' e"
        by blast
      have "exported objs s' e" if "exported objs s e \<or> e \<in> set ?after \<and> exportedThrough s < se_ID e" for e
      proof (cases "exported objs s e \<or> e \<in> set ?evs")
        case True
        with that ex fin show ?thesis by blast
      next
        case False
        with that split have "e \<in> set (drop (tailBatch d) ?after)" by (metis Un_iff set_append)
        then have e: "e \<in> set (rowsAfter t (LastID ?head))" using rest by simp
        have "exportedThrough s1 < se_ID e"
        proof -
          have "exportedThrough s1 = exportedThrough s \<or> exportedThrough s1 = se_ID (last ?evs)"
            using each eventsAfter_last[of ?evs "exportedThrough s"] ne sorted
            by (auto simp: catchUpBatch_def processFreshMode_def onWorld_def Let_def
                split: prod.splits sum.splits if_splits)
          moreover have "se_ID (last ?evs) < se_ID e" using e head'(1) by (simp add: rowsAfter_def)
          ultimately show ?thesis using that False by auto
        qed
        with e fin show ?thesis by blast
      qed
      with eq res show ?thesis by auto
    qed
  qed
qed

end

text \<open>
  C12: polling covers the trail. If the store accepts writes, the table is unchanged during the poll
  and verifies from the baseline, then after the poll every row above the baseline that was not
  exported before is in an exported batch, whatever the size of the backlog, the batch size, the
  detector and the signer do.
\<close>

theorem poll_exports_everything:
  assumes "monitor_deps d objs" "reliable (d_store d)" "\<not> halted s" "0 \<le> exportedThrough s"
    and "selectBaseline d (world s) = (Inr (Inl (base, present)), w1)" "0 \<le> LastID base"
    and "VerifyTail base (rowsAfter t (LastID base)) = Inr None"
    and "e \<in> set (table_rows t)" "LastID base < se_ID e" "exportedThrough s < se_ID e"
  shows "exported objs (snd (Poll d (\<lambda>k. Inr t) s)) e"
proof -
  let ?db = "\<lambda>k :: nat. Inr t"
  let ?s1 = "s\<lparr>world := w1\<rparr>"
  have "e \<in> set (rowsAfter t (LastID base))" using assms(8,9) by (simp add: rowsAfter_def)
  moreover obtain vt s' where loop: "verifyChainLoop d (catchUpBatch d) ?db present (MaxEventID t) 1 base ?s1 = (Inr (Some vt), s')"
    and ex: "\<And>e. exported objs ?s1 e \<or> e \<in> set (rowsAfter t (LastID base)) \<and> exportedThrough ?s1 < se_ID e \<Longrightarrow> exported objs s' e"
    using monitor_deps.verifyChainLoop_exports[OF assms(1,2), of ?db t base ?s1 present 1] assms(4,6,7)
    by (auto simp: VerifyTail_None_iff)
  ultimately have "exported objs s' e" using assms(10) by simp
  then have signed: "exported objs (snd (onWorld id (signAnchor d (vt_head vt)) s')) e"
    by (rule monitor_deps.signAnchor_exported[OF assms(1)])
  have vc: "verifyChain d (catchUpBatch d) ?db s = (Inr (Some vt), s')"
    using assms(5) loop by (simp add: verifyChain_def obind_def onWorld_def)
  show ?thesis
    using \<open>exported objs s' e\<close> signed assms(3) vc by (simp add: Poll_def obind_def ret_def)
qed

theorem poll_exports_everything_witness:
  "exported map_of (snd (Poll sample_deps (\<lambda>k. Inr sample_table) (New []))) sample_row"
proof -
  have st: "d_store sample_deps = memoryStore" "d_genesis sample_deps = GenesisHash"
    by (simp_all add: sample_deps_def devDeps_def)
  have rel: "reliable (d_store sample_deps)"
    by (simp add: st reliable_def memoryStore_def memory_Put_def)
  have base: "selectBaseline sample_deps (world (New [])) = (Inr (Inl (genesis_head, False)), [])"
    by (simp add: selectBaseline_def st ReadAnchors_def memoryStore_def memory_List_def obind_def ret_def
        wrap_err_def New_def baselineOf_def genesis_head_def)
  have v: "VerifyTail genesis_head (rowsAfter sample_table (LastID genesis_head)) = Inr None"
    using sample_chain_ok
    by (simp add: rowsAfter_def genesis_head_def sample_row_def[THEN arg_cong[where f = se_ID]] VerifyTail_None_iff)
  show ?thesis
    by (rule poll_exports_everything[OF sample_monitor_deps rel _ _ base _ v])
      (simp_all add: New_def genesis_head_def sample_row_def)
qed


end
