(* ===== verification/Config.thy ===== *)
theory Config
  imports Encoding "HOL-Library.Sublist"
begin

text \<open>
  The monitor's configuration (\<^verbatim>\<open>auditmon/config/config.go\<close>) after the YAML file and the
  environment have been decoded into it: the rule thresholds, the off-hours window, the defaults and
  the validation. Durations are nanoseconds. The time zone database is a parameter: a location is
  the UTC offset, in seconds, it gives an instant.
\<close>

subsection \<open>Text helpers of the standard library\<close>

text \<open>The white space runes in UTF-8, and the length of the one a text starts with (0 if none).\<close>

definition space_runes :: "string list" where
  "space_runes =
     map (\<lambda>c. [c]) [CHR 0x09, CHR 0x0A, CHR 0x0B, CHR 0x0C, CHR 0x0D, CHR '' ''] @
     [[CHR 0xC2, CHR 0x85], [CHR 0xC2, CHR 0xA0], [CHR 0xE1, CHR 0x9A, CHR 0x80]] @
     map (\<lambda>n. [CHR 0xE2, CHR 0x80, char_of n]) ([128 ..< 139] @ [168, 169, 175 :: nat]) @
     [[CHR 0xE2, CHR 0x81, CHR 0x9F], [CHR 0xE3, CHR 0x80, CHR 0x80]]"

definition space_len :: "string \<Rightarrow> nat" where
  "space_len s = (case find (\<lambda>p. prefix p s) space_runes of None \<Rightarrow> 0 | Some p \<Rightarrow> length p)"

lemma space_len_le: "space_len s \<le> length s"
  by (auto simp: space_len_def find_Some_iff split: option.splits dest: prefix_length_le)

function trimLeft :: "string \<Rightarrow> string" where
  "trimLeft s = (if space_len s = 0 then s else trimLeft (drop (space_len s) s))"
  by pat_completeness auto
termination
proof (relation "measure length")
  fix s assume "space_len s \<noteq> 0"
  with space_len_le[of s] show "(drop (space_len s) s, s) \<in> measure length" by auto
qed simp

declare trimLeft.simps [simp del]

text \<open>The length of the white space rune a text ends in.\<close>

definition space_end :: "string \<Rightarrow> nat" where
  "space_end s =
    (case find (\<lambda>n. n \<le> length s \<and> space_len (drop (length s - n) s) = n) [1, 2, 3] of
       None \<Rightarrow> 0 | Some n \<Rightarrow> n)"

lemma space_end_le: "space_end s \<le> length s"
  by (auto simp: space_end_def split: if_splits)

function trimRight :: "string \<Rightarrow> string" where
  "trimRight s = (if space_end s = 0 then s else trimRight (take (length s - space_end s) s))"
  by pat_completeness auto
termination
proof (relation "measure length")
  fix s assume "space_end s \<noteq> 0"
  with space_end_le[of s] show "(take (length s - space_end s) s, s) \<in> measure length" by auto
qed simp

declare trimRight.simps [simp del]

definition TrimSpace :: "string \<Rightarrow> string" where
  "TrimSpace s = trimRight (trimLeft s)"

text \<open>\<^verbatim>\<open>strings.Fields\<close>: the maximal runs of text without white space.\<close>

function fields_acc :: "string \<Rightarrow> string \<Rightarrow> string list" where
  "fields_acc cur [] = (if cur = [] then [] else [cur])"
| "fields_acc cur (c # cs) =
    (let n = space_len (c # cs) in
     if n = 0 then fields_acc (cur @ [c]) cs
     else (if cur = [] then [] else [cur]) @ fields_acc [] (drop n (c # cs)))"
  by pat_completeness auto
termination by (relation "measure (length \<circ> snd)") auto

definition Fields :: "string \<Rightarrow> string list" where
  "Fields s = fields_acc [] s"

definition EqualFold :: "string \<Rightarrow> string \<Rightarrow> bool" where
  "EqualFold a b \<longleftrightarrow> foldName a = foldName b"

definition containsFold :: "string list \<Rightarrow> string \<Rightarrow> bool" where
  "containsFold values target \<longleftrightarrow> list_ex (\<lambda>v. EqualFold v target) values"

subsection \<open>Severities and rules\<close>

definition RuleMassExport :: string where "RuleMassExport = ''mass_export''"
definition RuleBulkPII :: string where "RuleBulkPII = ''bulk_pii''"
definition RuleOffHours :: string where "RuleOffHours = ''off_hours''"
definition RuleRepeatedDeny :: string where "RuleRepeatedDeny = ''repeated_deny''"
definition RuleAuthFailureBurst :: string where "RuleAuthFailureBurst = ''auth_failure_burst''"
definition RuleOffHoursAdmin :: string where "RuleOffHoursAdmin = ''off_hours_admin''"
definition RuleIntegrity :: string where "RuleIntegrity = ''integrity''"

definition SeverityInfo :: string where "SeverityInfo = ''info''"
definition SeverityWarn :: string where "SeverityWarn = ''warn''"
definition SeverityCritical :: string where "SeverityCritical = ''critical''"

definition SeverityRank :: "string \<Rightarrow> int" where
  "SeverityRank s = (if s = SeverityInfo then 0 else if s = SeverityCritical then 2 else 1)"

type_synonym duration = int

record volume_threshold =
  vt_Rows :: int64
  vt_Bytes :: int64

record mass_export_rule =
  me_Window :: duration
  me_PerDatasource :: "(string \<times> volume_threshold) list"
  me_Default :: volume_threshold
  me_HeuristicMaxBroadReads :: int

definition Threshold :: "mass_export_rule \<Rightarrow> string \<Rightarrow> volume_threshold" where
  "Threshold r datasource =
    (case map_of (me_PerDatasource r) datasource of Some th \<Rightarrow> th | None \<Rightarrow> me_Default r)"

record bulk_pii_rule =
  bp_Window :: duration
  bp_MaxPIIDecisions :: int
  bp_MaxDistinctPIIColumns :: int

record off_hours_rule =
  oh_BusinessHours :: string
  oh_Timezone :: string
  oh_AppliesTo :: "string list"

type_synonym location = "int \<Rightarrow> int"

record business_window =
  StartMinute :: int
  EndMinute :: int
  Location :: location

record repeated_deny_rule =
  rd_Window :: duration
  rd_MaxDeny :: int

record auth_failure_burst_rule =
  af_Window :: duration
  af_MaxFailures :: int

record rules_config =
  rc_MassExport :: mass_export_rule
  rc_BulkPII :: bulk_pii_rule
  rc_OffHours :: off_hours_rule
  rc_RepeatedDeny :: repeated_deny_rule
  rc_AuthFailureBurst :: auth_failure_burst_rule
  rc_OffHoursAdmin :: bool

subsection \<open>Business hours\<close>

datatype config_error =
  BusinessHoursEmpty
| BadTime string
| BadHourRange string
| BadTimezone string
| NotPositive string
| Negative string
| Missing string
| BadSignerType string
| NoCeiling string
| RuleWithoutMax string
| AppliesToNothing
| AdminNeedsOffHours
| BadSink nat string

text \<open>\<^verbatim>\<open>time.Parse("15:04", s)\<close>: the hour has one or two digits, the minute two.\<close>

definition parseHourMinute :: "string \<Rightarrow> (config_error, int) result" where
  "parseHourMinute s =
    (let bad = Inl (BadTime s);
         minute = (\<lambda>h r.
           case r of
             [c, m1, m2] \<Rightarrow>
               (case (char_digit m1, char_digit m2) of
                  (Some a, Some b) \<Rightarrow>
                    if c = CHR '':'' \<and> h < 24 \<and> 10 * a + b < 60 then Inr (int (h * 60 + (10 * a + b))) else bad
                | _ \<Rightarrow> bad)
           | _ \<Rightarrow> bad)
     in case s of
          h1 # h2 # r \<Rightarrow>
            (case (char_digit h1, char_digit h2) of
               (None, _) \<Rightarrow> bad
             | (Some a, None) \<Rightarrow> minute a (h2 # r)
             | (Some a, Some b) \<Rightarrow> minute (10 * a + b) r)
        | _ \<Rightarrow> bad)"

definition cutAt :: "char \<Rightarrow> string \<Rightarrow> (string \<times> string) option" where
  "cutAt c s = (if c \<in> set s then Some (takeWhile ((\<noteq>) c) s, drop 1 (dropWhile ((\<noteq>) c) s)) else None)"

definition parseHourRange :: "string \<Rightarrow> (config_error, int \<times> int) result" where
  "parseHourRange s =
    (case cutAt (CHR ''-'') s of
       None \<Rightarrow> Inl (BadHourRange s)
     | Some (lo, hi) \<Rightarrow>
        rbind (parseHourMinute lo) (\<lambda>start.
        rbind (parseHourMinute hi) (\<lambda>stop.
          if stop \<le> start then Inl (BadHourRange s) else Inr (start, stop))))"

definition Parse :: "(string \<Rightarrow> location option) \<Rightarrow> off_hours_rule \<Rightarrow> (config_error, business_window) result" where
  "Parse loadLocation r =
    (case Fields (oh_BusinessHours r) of
       [] \<Rightarrow> Inl BusinessHoursEmpty
     | rng # rest \<Rightarrow>
        rbind (parseHourRange rng) (\<lambda>(start, stop).
          let zone = (if oh_Timezone r \<noteq> [] then oh_Timezone r
                      else case rest of z # _ \<Rightarrow> z | [] \<Rightarrow> ''UTC'')
          in case loadLocation zone of
               None \<Rightarrow> Inl (BadTimezone zone)
             | Some loc \<Rightarrow> Inr \<lparr>StartMinute = start, EndMinute = stop, Location = loc\<rparr>))"

definition AppliesToPIIRead :: "off_hours_rule \<Rightarrow> bool" where
  "AppliesToPIIRead r \<longleftrightarrow> containsFold (oh_AppliesTo r) ''pii_read''"

definition AppliesToWrite :: "off_hours_rule \<Rightarrow> bool" where
  "AppliesToWrite r \<longleftrightarrow> containsFold (oh_AppliesTo r) ''write''"

subsection \<open>The whole configuration\<close>

record sink_config =
  sk_Type :: string
  sk_URLEnv :: string
  sk_MinSeverity :: string
  sk_Rules :: "string list"
  sk_Format :: string
  sk_Timeout :: duration
  sk_MaxRetries :: int

record alerts_config =
  al_DedupWindow :: duration
  al_Sinks :: "sink_config list"
  al_ConsoleURL :: string

record signer_config =
  sn_Type :: string
  sn_KeyPath :: string
  sn_KeyID :: string
  sn_AllowedKeyIDs :: "string list"

record monitor_config =
  mc_PollInterval :: duration
  mc_TailBatch :: int
  mc_SignInterval :: duration
  mc_FullVerifyInterval :: duration
  mc_Bucket :: string
  mc_Endpoint :: string
  mc_KMSKeyID :: string
  mc_DBDSNEnv :: string
  mc_Signer :: signer_config

record config =
  cf_Monitor :: monitor_config
  cf_Rules :: rules_config
  cf_Alerts :: alerts_config

definition second :: duration where
  "second = 1000000000"

definition defaultSignerType :: string where
  "defaultSignerType = ''filekey''"

definition or_default :: "'a \<Rightarrow> 'a \<Rightarrow> 'a \<Rightarrow> 'a" where
  "or_default zero dflt v = (if v = zero then dflt else v)"

text \<open>What \<^verbatim>\<open>Load\<close> does to the decoded configuration before it validates it.\<close>

definition applyDefaults :: "config \<Rightarrow> config" where
  "applyDefaults c =
    (let m = cf_Monitor c; sg = mc_Signer m;
         ty = or_default [] defaultSignerType (sn_Type sg);
         sg' = sg\<lparr>sn_Type := ty,
                  sn_KeyPath := (if ty = defaultSignerType
                     then or_default [] ''/var/lib/auditmon/signer.key'' (sn_KeyPath sg) else sn_KeyPath sg)\<rparr>;
         m' = m\<lparr>mc_FullVerifyInterval := or_default 0 (3600 * second) (mc_FullVerifyInterval m),
                mc_PollInterval := or_default 0 (90 * second) (mc_PollInterval m),
                mc_TailBatch := or_default 0 5000 (mc_TailBatch m),
                mc_SignInterval := or_default 0 (3600 * second) (mc_SignInterval m),
                mc_Signer := sg'\<rparr>
     in c\<lparr>cf_Monitor := m',
          cf_Alerts := (cf_Alerts c)\<lparr>al_DedupWindow := or_default 0 (900 * second) (al_DedupWindow (cf_Alerts c))\<rparr>\<rparr>)"

subsection \<open>Validation\<close>

definition check :: "bool \<Rightarrow> config_error \<Rightarrow> (config_error, unit) result" where
  "check ok e = (if ok then Inr () else Inl e)"

definition andThen :: "(config_error, unit) result \<Rightarrow> (config_error, unit) result \<Rightarrow> (config_error, unit) result" where
  "andThen a b = rbind a (\<lambda>_. b)"

definition checkAll :: "(config_error, unit) result list \<Rightarrow> (config_error, unit) result" where
  "checkAll cs = foldr andThen cs (Inr ())"

definition validateMassExport :: "mass_export_rule \<Rightarrow> (config_error, unit) result" where
  "validateMassExport me =
    (if me_Window me \<le> 0 then Inr ()
     else case find (\<lambda>(ds, th). vt_Rows th \<le> 0 \<and> vt_Bytes th \<le> 0) (me_PerDatasource me) of
       Some (ds, th) \<Rightarrow> Inl (NoCeiling ds)
     | None \<Rightarrow>
        check (0 < vt_Rows (me_Default me) \<or> 0 < vt_Bytes (me_Default me) \<or>
               0 < me_HeuristicMaxBroadReads me \<or> me_PerDatasource me \<noteq> []) (NoCeiling ''mass_export''))"

definition validateOffHours :: "(string \<Rightarrow> location option) \<Rightarrow> off_hours_rule \<Rightarrow> (config_error, unit) result" where
  "validateOffHours loadLocation r =
    (if oh_BusinessHours r = [] then Inr ()
     else rbind (Parse loadLocation r) (\<lambda>_. check (AppliesToPIIRead r \<or> AppliesToWrite r) AppliesToNothing))"

definition validateRules :: "(string \<Rightarrow> location option) \<Rightarrow> rules_config \<Rightarrow> (config_error, unit) result" where
  "validateRules loadLocation r = checkAll
    [validateMassExport (rc_MassExport r),
     check (\<not> (0 < bp_Window (rc_BulkPII r) \<and> bp_MaxPIIDecisions (rc_BulkPII r) \<le> 0 \<and>
        bp_MaxDistinctPIIColumns (rc_BulkPII r) \<le> 0)) (RuleWithoutMax RuleBulkPII),
     validateOffHours loadLocation (rc_OffHours r),
     check (\<not> (0 < rd_Window (rc_RepeatedDeny r) \<and> rd_MaxDeny (rc_RepeatedDeny r) \<le> 0))
       (RuleWithoutMax RuleRepeatedDeny),
     check (\<not> (0 < af_Window (rc_AuthFailureBurst r) \<and> af_MaxFailures (rc_AuthFailureBurst r) \<le> 0))
       (RuleWithoutMax RuleAuthFailureBurst),
     check (\<not> (rc_OffHoursAdmin r \<and> oh_BusinessHours (rc_OffHours r) = [])) AdminNeedsOffHours]"

fun validateSinks :: "nat \<Rightarrow> sink_config list \<Rightarrow> (config_error, unit) result" where
  "validateSinks i [] = Inr ()"
| "validateSinks i (s # ss) =
    andThen (checkAll
      [check (sk_Type s = ''webhook'') (BadSink i ''type''),
       check (sk_URLEnv s \<noteq> []) (BadSink i ''url_env''),
       check (sk_MinSeverity s \<in> {[], SeverityInfo, SeverityWarn, SeverityCritical}) (BadSink i ''min_severity''),
       check (sk_Format s \<in> {[], ''slack''}) (BadSink i ''format'')])
    (validateSinks (Suc i) ss)"

definition validateAlerts :: "alerts_config \<Rightarrow> (config_error, unit) result" where
  "validateAlerts a = andThen (check (0 \<le> al_DedupWindow a) (Negative ''alerts.dedup_window'')) (validateSinks 0 (al_Sinks a))"

definition validateSigner :: "signer_config \<Rightarrow> (config_error, unit) result" where
  "validateSigner s =
    (if sn_Type s = ''filekey'' then check (sn_KeyPath s \<noteq> []) (Missing ''key_path'')
     else if sn_Type s = ''kms'' then check (sn_KeyID s \<noteq> []) (Missing ''key_id'')
     else Inl (BadSignerType (sn_Type s)))"

definition Validate :: "(string \<Rightarrow> location option) \<Rightarrow> config \<Rightarrow> (config_error, unit) result" where
  "Validate loadLocation c = (let m = cf_Monitor c in checkAll
    [check (0 < mc_PollInterval m) (NotPositive ''poll_interval''),
     check (0 \<le> mc_TailBatch m) (Negative ''tail_batch''),
     check (0 < mc_SignInterval m) (NotPositive ''sign_interval''),
     check (0 \<le> mc_FullVerifyInterval m) (Negative ''full_verify_interval''),
     check (mc_Bucket m \<noteq> []) (Missing ''bucket''),
     validateSigner (mc_Signer m),
     validateRules loadLocation (cf_Rules c),
     validateAlerts (cf_Alerts c)])"

lemma checkAll_ok: "checkAll cs = Inr () \<longleftrightarrow> list_all (\<lambda>c. c = Inr ()) cs"
  by (induction cs) (auto simp: checkAll_def andThen_def rbind_def split: sum.splits)

lemma check_ok [simp]: "check b e = Inr () \<longleftrightarrow> b"
  by (simp add: check_def)

lemma parseHourMinute_bounds:
  assumes "parseHourMinute s = Inr m"
  shows "0 \<le> m \<and> m < 1440"
proof -
  have *: "0 \<le> int (h * 60 + (10 * a + b)) \<and> int (h * 60 + (10 * a + b)) < 1440"
    if "h < 24" "10 * a + b < 60" for h a b :: nat
    using that by linarith
  from assms show ?thesis
    by (auto simp: parseHourMinute_def Let_def dest!: * split: list.splits option.splits if_splits)
qed

lemma Parse_window:
  assumes "Parse loadLocation r = Inr bw"
  shows "0 \<le> StartMinute bw \<and> StartMinute bw < EndMinute bw \<and> EndMinute bw < 1440"
proof -
  from assms obtain rng start stop where r: "parseHourRange rng = Inr (start, stop)"
    and bw: "StartMinute bw = start" "EndMinute bw = stop"
    by (auto simp: Parse_def rbind_def Let_def split: list.splits sum.splits option.splits prod.splits)
  from r have "start < stop" "\<exists>lo. parseHourMinute lo = Inr start" "\<exists>hi. parseHourMinute hi = Inr stop"
    by (auto simp: parseHourRange_def rbind_def split: option.splits sum.splits if_splits)
  with bw show ?thesis using parseHourMinute_bounds by fastforce
qed

end
