(* ===== verification/Alert.thy ===== *)
theory Alert
  imports Monitor Config
begin

text \<open>
  Alert delivery (\<^verbatim>\<open>auditmon/alert\<close>): deduplication, the durable record in the object store
  before any notification, routing, retries, and the webhook bodies. The sink's memory (when each
  subject was last sent, and a sequence number) is part of the world next to what the store, the
  clock and the HTTP client act on; the last two are parameters.
\<close>

subsection \<open>Alerts and payloads\<close>

text \<open>Times are nanoseconds since the epoch, and \<open>None\<close> is the zero time.\<close>

type_synonym instant = int

record alert =
  a_Severity :: string
  a_Rule :: string
  a_Principal :: string
  a_Datasource :: string
  a_DecisionIDs :: "int64 list"
  a_TS :: "instant option"

record payload =
  p_Severity :: string
  p_Rule :: string
  p_Principal :: string
  p_Datasource :: string
  p_DecisionIDs :: "int64 list"
  p_TS :: string
  p_Anchor :: string

text \<open>The civil date of a day number (proleptic Gregorian), and the RFC 3339 text of an instant.\<close>

definition civil :: "int \<Rightarrow> int \<times> int \<times> int" where
  "civil day =
    (let z = day + 719468;
         era = z div 146097;
         doe = z mod 146097;
         yoe = (doe - doe div 1460 + doe div 36524 - doe div 146096) div 365;
         doy = doe - (365 * yoe + yoe div 4 - yoe div 100);
         mp = (5 * doy + 2) div 153;
         m = (if mp < 10 then mp + 3 else mp - 9)
     in (yoe + era * 400 + (if m \<le> 2 then 1 else 0), m, doy - (153 * mp + 2) div 5 + 1))"

definition pad :: "nat \<Rightarrow> int \<Rightarrow> string" where
  "pad n i = (let ds = nat_str (nat \<bar>i\<bar>) in
     (if i < 0 then ''-'' else []) @ replicate (n - length ds) (CHR ''0'') @ ds)"

definition trimZeros :: "string \<Rightarrow> string" where
  "trimZeros s = rev (dropWhile ((=) (CHR ''0'')) (rev s))"

definition RFC3339Nano :: "instant \<Rightarrow> string" where
  "RFC3339Nano t =
    (let sec = t div 1000000000; nano = t mod 1000000000; tod = sec mod 86400;
         frac = trimZeros (pad 9 nano)
     in case civil (sec div 86400) of (y, m, d) \<Rightarrow>
       pad 4 y @ ''-'' @ pad 2 m @ ''-'' @ pad 2 d @ ''T'' @ pad 2 (tod div 3600) @ '':'' @
       pad 2 (tod mod 3600 div 60) @ '':'' @ pad 2 (tod mod 60) @
       (if nano = 0 then [] else ''.'' @ frac) @ ''Z'')"

definition encodePayload :: "payload \<Rightarrow> json" where
  "encodePayload p = JObj
     [(''severity'', jstr (p_Severity p)), (''rule'', jstr (p_Rule p)), (''principal'', jstr (p_Principal p)),
      (''datasource'', jstr (p_Datasource p)), (''decision_ids'', JArr (map jint (p_DecisionIDs p))),
      (''ts'', jstr (p_TS p)), (''anchor'', jstr (p_Anchor p))]"

subsection \<open>Destinations\<close>

record destination =
  de_url :: string
  de_minRank :: int
  de_matchAll :: bool
  de_ruleSet :: "string list"
  de_format :: string
  de_timeout :: duration
  de_maxRetries :: int

definition routes :: "destination \<Rightarrow> alert \<Rightarrow> bool" where
  "routes d a \<longleftrightarrow>
    (if SeverityRank (a_Severity a) < de_minRank d then False
     else if de_matchAll d then True
     else a_Rule a \<in> set (de_ruleSet d))"

definition newDestination :: "string \<Rightarrow> sink_config \<Rightarrow> destination" where
  "newDestination url sc =
    (let rules = (if sk_Rules sc = [] then [''*''] else sk_Rules sc) in
     \<lparr>de_url = url, de_minRank = SeverityRank (sk_MinSeverity sc), de_matchAll = list_ex ((=) ''*'') rules,
      de_ruleSet = rules, de_format = sk_Format sc,
      de_timeout = (if sk_Timeout sc \<le> 0 then 5 * second else sk_Timeout sc),
      de_maxRetries = (if sk_MaxRetries sc \<le> 0 then 3 else sk_MaxRetries sc)\<rparr>)"

datatype alert_error = SinkURLEmpty nat string

fun newDestinations :: "(string \<Rightarrow> string) \<Rightarrow> nat \<Rightarrow> sink_config list \<Rightarrow> (alert_error, destination list) result" where
  "newDestinations getenv i [] = Inr []"
| "newDestinations getenv i (sc # scs) =
    (let url = TrimSpace (getenv (sk_URLEnv sc)) in
     if url = [] then Inl (SinkURLEmpty i (sk_URLEnv sc))
     else rbind (newDestinations getenv (Suc i) scs) (\<lambda>ds. Inr (newDestination url sc # ds)))"

record sink =
  si_dests :: "destination list"
  si_dedupWindow :: duration
  si_consoleURL :: string

definition trimSlashes :: "string \<Rightarrow> string" where
  "trimSlashes s = rev (dropWhile ((=) (CHR ''/'')) (rev s))"

definition NewSink :: "(string \<Rightarrow> string) \<Rightarrow> alerts_config \<Rightarrow> (alert_error, sink) result" where
  "NewSink getenv cfg =
     rbind (newDestinations getenv 0 (al_Sinks cfg)) (\<lambda>ds.
       Inr \<lparr>si_dests = ds, si_dedupWindow = al_DedupWindow cfg,
            si_consoleURL = trimSlashes (TrimSpace (al_ConsoleURL cfg))\<rparr>)"

subsection \<open>Webhook bodies\<close>

text \<open>Upper-casing of the ASCII letters; the severities are ASCII.\<close>

definition ToUpper :: "string \<Rightarrow> string" where
  "ToUpper = map (\<lambda>c. if (97 :: nat) \<le> of_char c \<and> of_char c \<le> (122 :: nat) then char_of (of_char c - (32 :: nat)) else c)"

definition severityEmoji :: "string \<Rightarrow> string" where
  "severityEmoji s =
    (if s = SeverityCritical then [CHR 0xF0, CHR 0x9F, CHR 0x94, CHR 0xB4]
     else if s = SeverityWarn then [CHR 0xF0, CHR 0x9F, CHR 0x9F, CHR 0xA1]
     else if s = SeverityInfo then [CHR 0xF0, CHR 0x9F, CHR 0x94, CHR 0xB5]
     else [CHR 0xE2, CHR 0x9A, CHR 0xAA])"

definition emDash :: string where
  "emDash = [CHR 0xE2, CHR 0x80, CHR 0x94]"

fun decisionLinks_loop :: "string \<Rightarrow> int64 list \<Rightarrow> int64 list \<Rightarrow> string list" where
  "decisionLinks_loop console seen [] = []"
| "decisionLinks_loop console seen (i # is) =
    (if i \<in> set seen then decisionLinks_loop console seen is
     else (if console \<noteq> []
           then ''<'' @ console @ ''/audit/'' @ FormatInt i @ ''|#'' @ FormatInt i @ ''>''
           else ''#'' @ FormatInt i)
          # decisionLinks_loop console (i # seen) is)"

definition decisionLinks :: "string \<Rightarrow> int64 list \<Rightarrow> string list" where
  "decisionLinks console ids = decisionLinks_loop console [] ids"

fun chunkJoin_loop :: "string \<Rightarrow> nat \<Rightarrow> string \<Rightarrow> string list \<Rightarrow> string list" where
  "chunkJoin_loop sep maxLen b [] = (if b \<noteq> [] then [b] else [])"
| "chunkJoin_loop sep maxLen b (it # its) =
    (if b \<noteq> [] \<and> maxLen < length b + length sep + length it
     then b # chunkJoin_loop sep maxLen it its
     else chunkJoin_loop sep maxLen ((if b \<noteq> [] then b @ sep else b) @ it) its)"

definition chunkJoin :: "string list \<Rightarrow> string \<Rightarrow> nat \<Rightarrow> string list" where
  "chunkJoin items sep maxLen = chunkJoin_loop sep maxLen [] items"

text \<open>The encoder writes the keys of a Go map in ascending order.\<close>

definition mrkdwnField :: "string \<Rightarrow> json" where
  "mrkdwnField text = JObj [(''text'', jstr text), (''type'', jstr ''mrkdwn'')]"

definition mrkdwnSection :: "string \<Rightarrow> json" where
  "mrkdwnSection text = JObj [(''text'', mrkdwnField text), (''type'', jstr ''section'')]"

definition nl :: string where
  "nl = [CHR 0x0A]"

definition slackMessage :: "string \<Rightarrow> payload \<Rightarrow> json" where
  "slackMessage console p =
    (let datasource = (if p_Datasource p = [] then emDash else p_Datasource p);
         links = decisionLinks console (p_DecisionIDs p);
         header = JObj [(''text'', JObj [(''emoji'', JBool True),
             (''text'', jstr (severityEmoji (p_Severity p) @ '' '' @ ToUpper (p_Severity p) @ '' '' @ emDash @ '' '' @ p_Rule p)),
             (''type'', jstr ''plain_text'')]), (''type'', jstr ''header'')];
         fields = JObj [(''fields'', JArr [mrkdwnField (''*Principal*'' @ nl @ p_Principal p),
             mrkdwnField (''*Datasource*'' @ nl @ datasource), mrkdwnField (''*When*'' @ nl @ p_TS p),
             mrkdwnField (''*Alert*'' @ nl @ ''`'' @ p_Anchor p @ ''`'')]), (''type'', jstr ''section'')];
         decisions = (if links = [] then [mrkdwnSection (''*Decisions:* '' @ emDash)]
            else mrkdwnSection (''*Decisions ('' @ FormatInt (int (length links)) @ ''):*'')
                 # map mrkdwnSection (chunkJoin links ''  '' 2800))
     in JObj [(''blocks'', JArr ([header, fields] @ decisions)),
              (''text'', jstr (''['' @ ToUpper (p_Severity p) @ ''] '' @ p_Rule p @ '' principal='' @ p_Principal p @
                 '' datasource='' @ datasource @ '' ('' @ FormatInt (int (length links)) @ '' decisions)''))])"

definition renderBody :: "string \<Rightarrow> string \<Rightarrow> payload \<Rightarrow> json" where
  "renderBody format console p = (if format = ''slack'' then slackMessage console p else encodePayload p)"

subsection \<open>Delivery\<close>

record 'w outside =
  o_Now :: "'w \<Rightarrow> instant \<times> 'w"
  o_Send :: "destination \<Rightarrow> json \<Rightarrow> 'w \<Rightarrow> bool \<times> 'w"

record 'w alerting =
  aw_world :: 'w
  lastSent :: "(string \<times> instant) list"
  seq :: int64

text \<open>One attempt and its retries: \<open>n\<close> attempts are left. Back-off only waits.\<close>

primrec postAttempts :: "'w outside \<Rightarrow> destination \<Rightarrow> json \<Rightarrow> nat \<Rightarrow> 'w \<Rightarrow> bool \<times> 'w" where
  "postAttempts out d b 0 w = (False, w)"
| "postAttempts out d b (Suc n) w =
    (case o_Send out d b w of (ok, w1) \<Rightarrow> if ok then (True, w1) else postAttempts out d b n w1)"

definition post :: "'w outside \<Rightarrow> sink \<Rightarrow> destination \<Rightarrow> payload \<Rightarrow> 'w \<Rightarrow> 'w" where
  "post out s d p w =
     snd (postAttempts out d (renderBody (de_format d) (si_consoleURL s) p) (nat (de_maxRetries d + 1)) w)"

fun postAll :: "'w outside \<Rightarrow> sink \<Rightarrow> alert \<Rightarrow> payload \<Rightarrow> destination list \<Rightarrow> 'w \<Rightarrow> 'w" where
  "postAll out s a p [] w = w"
| "postAll out s a p (d # ds) w = postAll out s a p ds (if routes d a then post out s d p w else w)"

function sanitizeID :: "string \<Rightarrow> string" where
  "sanitizeID [] = []"
| "sanitizeID (c # cs) =
    (let n = of_char c :: nat in
     (if 97 \<le> n \<and> n \<le> 122 \<or> 65 \<le> n \<and> n \<le> 90 \<or> 48 \<le> n \<and> n \<le> 57 \<or> c = CHR ''_'' \<or> c = CHR ''-''
      then c else CHR ''_'') # sanitizeID (drop (rune_len (c # cs) - 1) cs))"
  by pat_completeness auto
termination by (relation "measure length") auto

definition alertKey :: "string \<Rightarrow> string" where
  "alertKey i = ''alerts/'' @ i @ ''.json''"

definition dedupKey :: "alert \<Rightarrow> string" where
  "dedupKey a = a_Rule a @ ''|'' @ a_Principal a @ ''|'' @ a_Datasource a"

definition suppressed :: "sink \<Rightarrow> instant \<Rightarrow> alert \<Rightarrow> (string \<times> instant) list \<Rightarrow> bool" where
  "suppressed s now a sent \<longleftrightarrow>
    (case map_of sent (dedupKey a) of
       None \<Rightarrow> False
     | Some at \<Rightarrow> 0 < si_dedupWindow s \<and> now - at < si_dedupWindow s)"

definition alertID :: "instant \<Rightarrow> alert \<Rightarrow> int64 \<Rightarrow> string" where
  "alertID ts a n = FormatInt (wrap64 ts) @ ''-'' @ sanitizeID (a_Rule a) @ ''-'' @ FormatInt n"

definition payloadOf :: "instant \<Rightarrow> alert \<Rightarrow> string \<Rightarrow> payload" where
  "payloadOf ts a i =
    \<lparr>p_Severity = a_Severity a, p_Rule = a_Rule a, p_Principal = a_Principal a, p_Datasource = a_Datasource a,
     p_DecisionIDs = a_DecisionIDs a, p_TS = RFC3339Nano ts, p_Anchor = i\<rparr>"

definition Deliver :: "'w outside \<Rightarrow> 'w object_store \<Rightarrow> sink \<Rightarrow> alert \<Rightarrow> 'w alerting \<Rightarrow> 'w alerting" where
  "Deliver out os s a0 aw =
    (let a = (if a_Severity a0 = [] then a0\<lparr>a_Severity := SeverityWarn\<rparr> else a0);
         (ts, w1) = (case a_TS a of Some t \<Rightarrow> (t, aw_world aw) | None \<Rightarrow> o_Now out (aw_world aw));
         (now, w2) = o_Now out w1
     in if suppressed s now a (lastSent aw) then aw\<lparr>aw_world := w2\<rparr>
        else
          let n = wrap64 (seq aw + 1);
              i = alertID ts a n;
              p = payloadOf ts a i;
              w3 = snd (os_Put os (alertKey i) (Docs [encodePayload p]) w2);
              w4 = postAll out s a p (si_dests s) w3
          in \<lparr>aw_world = w4, lastSent = AList.update (dedupKey a) now (lastSent aw), seq = n\<rparr>)"

definition Report :: "'w outside \<Rightarrow> 'w object_store \<Rightarrow> sink \<Rightarrow> finding \<Rightarrow> 'w alerting \<Rightarrow> 'w alerting" where
  "Report out os s f aw =
    (case o_Now out (aw_world aw) of (t, w1) \<Rightarrow>
       Deliver out os s
         \<lparr>a_Severity = SeverityCritical, a_Rule = RuleIntegrity, a_Principal = [], a_Datasource = [],
          a_DecisionIDs = [DivergentID f], a_TS = Some t\<rparr> (aw\<lparr>aw_world := w1\<rparr>))"

subsection \<open>Chunking\<close>

text \<open>Greedy chunks: nothing is lost, and the size limit holds when no single item exceeds it.\<close>

lemma joinWith_Cons: "xs \<noteq> [] \<Longrightarrow> joinWith sep (x # xs) = x @ sep @ joinWith sep xs"
  by (cases xs) auto

lemma chunkJoin_loop_nonempty: "b \<noteq> [] \<Longrightarrow> chunkJoin_loop sep n b its \<noteq> []"
  by (induction its arbitrary: b) auto

lemma chunkJoin_loop_join:
  "list_all (\<lambda>it. it \<noteq> []) its \<Longrightarrow> b \<noteq> [] \<Longrightarrow> joinWith sep (chunkJoin_loop sep n b its) = joinWith sep (b # its)"
proof (induction its arbitrary: b)
  case (Cons it its)
  then have it: "it \<noteq> []" and its: "list_all (\<lambda>it. it \<noteq> []) its" by simp_all
  show ?case
  proof (cases "n < length b + length sep + length it")
    case True
    with Cons.prems(2) have "joinWith sep (chunkJoin_loop sep n b (it # its)) =
        joinWith sep (b # chunkJoin_loop sep n it its)" by simp
    also have "\<dots> = b @ sep @ joinWith sep (it # its)"
      using chunkJoin_loop_nonempty[OF it] Cons.IH[OF its it] by (simp add: joinWith_Cons)
    finally show ?thesis by simp
  next
    case False
    with Cons.prems(2) Cons.IH[OF its, of "b @ sep @ it"] it show ?thesis
      by (cases its) simp_all
  qed
qed simp

lemma chunkJoin_loop_bound:
  "length b \<le> n \<Longrightarrow> list_all (\<lambda>it. length it \<le> n) its \<Longrightarrow> list_all (\<lambda>c. length c \<le> n) (chunkJoin_loop sep n b its)"
  by (induction its arbitrary: b) auto

subsection \<open>Delivery and the store\<close>

locale alert_env = object_store os objs
  for os :: "'w object_store" and objs :: "'w \<Rightarrow> string \<Rightarrow> body option" +
  fixes out :: "'w outside"
  assumes now_frame: "objs (snd (o_Now out w)) = objs w"
    and send_frame: "objs (snd (o_Send out d b w)) = objs w"
begin

lemma postAttempts_frame: "objs (snd (postAttempts out d b n w)) = objs w"
proof (induction n arbitrary: w)
  case (Suc n)
  then show ?case using send_frame[of d b w] by (cases "o_Send out d b w") auto
qed simp

lemma postAll_frame: "objs (postAll out s a p ds w) = objs w"
  by (induction ds arbitrary: w) (auto simp: post_def postAttempts_frame)

lemma put_alert: "\<not> prefix ''alerts/'' k \<Longrightarrow> objs (snd (os_Put os (alertKey i) b w)) k = objs w k"
  using put_cases[of "alertKey i" b w] by (auto simp: alertKey_def)

lemma Deliver_frame:
  assumes "\<not> prefix ''alerts/'' k"
  shows "objs (aw_world (Deliver out os s a aw)) k = objs (aw_world aw) k"
proof -
  obtain t1 w1 where n1: "o_Now out (aw_world aw) = (t1, w1)" by (cases "o_Now out (aw_world aw)")
  obtain t2 w2 where n2: "o_Now out w1 = (t2, w2)" by (cases "o_Now out w1")
  have "objs w1 = objs (aw_world aw)" "objs w2 = objs w1"
    using now_frame[of "aw_world aw"] now_frame[of w1] n1 n2 by simp_all
  with n1 n2 show ?thesis
    by (cases "a_TS a") (auto simp: Deliver_def Let_def postAll_frame put_alert[OF assms])
qed

lemma Report_frame: "\<not> prefix ''alerts/'' k \<Longrightarrow> objs (aw_world (Report out os s f aw)) k = objs (aw_world aw) k"
  using now_frame[of "aw_world aw"] by (cases "o_Now out (aw_world aw)") (auto simp: Report_def Deliver_frame)

text \<open>The store holds the record when the webhooks are called, and afterwards.\<close>

lemma Deliver_durable:
  assumes "a_TS a = Some ts" "a_Severity a \<noteq> []" "o_Now out (aw_world aw) = (now, w2)"
    and "\<not> suppressed s now a (lastSent aw)"
    and "os_Put os (alertKey (alertID ts a (wrap64 (seq aw + 1))))
      (Docs [encodePayload (payloadOf ts a (alertID ts a (wrap64 (seq aw + 1))))]) w2 = (Inr u, w3)"
  shows "aw_world (Deliver out os s a aw) =
      postAll out s a (payloadOf ts a (alertID ts a (wrap64 (seq aw + 1)))) (si_dests s) w3"
    and "objs w3 (alertKey (alertID ts a (wrap64 (seq aw + 1)))) =
      Some (Docs [encodePayload (payloadOf ts a (alertID ts a (wrap64 (seq aw + 1))))])"
  using assms put_ok[of "alertKey (alertID ts a (wrap64 (seq aw + 1)))"
      "Docs [encodePayload (payloadOf ts a (alertID ts a (wrap64 (seq aw + 1))))]" w2 u]
  by (simp_all add: Deliver_def Let_def)

end

text \<open>The in-memory store with a stopped clock and a webhook that answers \<open>ok\<close>.\<close>

definition stillOutside :: "instant \<Rightarrow> bool \<Rightarrow> memory_store outside" where
  "stillOutside t ok = \<lparr>o_Now = (\<lambda>w. (t, w)), o_Send = (\<lambda>d b w. (ok, w))\<rparr>"

interpretation still: alert_env memoryStore map_of "stillOutside t ok" for t ok
  by (intro alert_env.intro alert_env_axioms.intro memory.object_store_axioms)
    (simp_all add: stillOutside_def)

subsection \<open>Properties\<close>


definition sample_alert :: alert where
  "sample_alert = \<lparr>a_Severity = SeverityWarn, a_Rule = RuleOffHours, a_Principal = ''ann'',
     a_Datasource = ''db'', a_DecisionIDs = [7], a_TS = Some 5\<rparr>"

definition sample_sink :: sink where
  "sample_sink = \<lparr>si_dests = [], si_dedupWindow = 900 * second, si_consoleURL = []\<rparr>"


text \<open>
  A burst is one alert. Right after a subject (rule, principal, datasource) was delivered, every
  further alert for it inside the window changes neither the store nor the sink's memory and reaches
  no webhook; delivery only reads the clock.
\<close>

lemma burst_is_one_alert:
  assumes "a_TS b = Some ts" "a_Severity a \<noteq> []" "a_Severity b \<noteq> []" "dedupKey b = dedupKey a" "a_TS a = Some ts'"
    and "o_Now out (aw_world aw) = (t1, w1)" "\<not> suppressed s t1 a (lastSent aw)"
    and "aw' = Deliver out os s a aw" "o_Now out (aw_world aw') = (t2, w2)" "t2 < t1 + si_dedupWindow s" "t1 \<le> t2"
  shows "Deliver out os s b aw' = aw'\<lparr>aw_world := w2\<rparr>"
proof -
  have sent: "map_of (lastSent aw') (dedupKey a) = Some t1"
    using assms(2,5-8) by (simp add: Deliver_def Let_def update_conv')
  have "suppressed s t2 b (lastSent aw')"
    using sent assms(4,10,11) by (simp add: suppressed_def)
  with assms(1,3,9) show ?thesis by (simp add: Deliver_def Let_def)
qed

text \<open>
  Chunking loses nothing and respects the limit. Joining the chunks with the separator gives the
  joined items back, for non-empty items, and no chunk is longer than the limit when no item is.
\<close>

lemma chunkJoin_sound:
  assumes "list_all (\<lambda>it. it \<noteq> [] \<and> length it \<le> n) items"
  shows "joinWith sep (chunkJoin items sep n) = joinWith sep items \<and>
    list_all (\<lambda>c. length c \<le> n) (chunkJoin items sep n)"
proof
  show "joinWith sep (chunkJoin items sep n) = joinWith sep items"
  proof (cases items)
    case (Cons it its)
    with assms chunkJoin_loop_join[of its it sep n] show ?thesis
      by (simp add: chunkJoin_def list_all_iff)
  qed (simp add: chunkJoin_def)
  show "list_all (\<lambda>c. length c \<le> n) (chunkJoin items sep n)"
    unfolding chunkJoin_def using assms by (intro chunkJoin_loop_bound) (auto simp: list_all_iff)
qed

end
