(* ===== verification/Detect.thy ===== *)
theory Detect
  imports Alert
begin

text \<open>
  The anomaly rules over the audit trail (\<^verbatim>\<open>auditmon/detect\<close>): the statement-shape heuristics,
  the per-event off-hours rules, and the window rules that recount the durable trail. A rule reads
  the clock and delivers alerts; both act on the world. A Go map is iterated in an unspecified
  order: here the keys come in the order they were first inserted.
\<close>

subsection \<open>Statement shape\<close>

fun indexOf :: "string \<Rightarrow> string \<Rightarrow> nat option" where
  "indexOf p [] = (if p = [] then Some 0 else None)"
| "indexOf p (c # cs) = (if prefix p (c # cs) then Some 0 else map_option Suc (indexOf p cs))"

definition contains :: "string \<Rightarrow> string \<Rightarrow> bool" where
  "contains s p \<longleftrightarrow> indexOf p s \<noteq> None"

lemma indexOf_bound: "indexOf p s = Some i \<Longrightarrow> i + length p \<le> length s"
  by (induction s arbitrary: i) (auto split: if_splits dest: prefix_length_le)

lemma length_trimLeft: "length (trimLeft s) \<le> length s"
proof (induction s rule: trimLeft.induct)
  case (1 s)
  then show ?case by (subst trimLeft.simps) auto
qed

lemma length_trimRight: "length (trimRight s) \<le> length s"
proof (induction s rule: trimRight.induct)
  case (1 s)
  then show ?case by (subst trimRight.simps) auto
qed

lemma length_TrimSpace: "length (TrimSpace s) \<le> length s"
  unfolding TrimSpace_def by (meson length_trimLeft length_trimRight le_trans)

definition keywordEnd :: "char \<Rightarrow> bool" where
  "keywordEnd c \<longleftrightarrow> c \<in> {CHR '' '', CHR 0x09, CHR 0x0A, CHR 0x0D, CHR ''('', CHR '';''}"

function keywordLoop :: "string \<Rightarrow> string" where
  "keywordLoop s =
    (if prefix ''--'' s then
       (case indexOf [CHR 0x0A] s of Some i \<Rightarrow> keywordLoop (TrimSpace (drop (i + 1) s)) | None \<Rightarrow> [])
     else if prefix ''/*'' s then
       (case indexOf ''*/'' s of Some i \<Rightarrow> keywordLoop (TrimSpace (drop (i + 2) s)) | None \<Rightarrow> [])
     else ToUpperKey (takeWhile (\<lambda>c. \<not> keywordEnd c) s))"
  by pat_completeness auto
termination
proof (relation "measure length")
  fix s i assume "indexOf [CHR 0x0A] s = Some i"
  with indexOf_bound[OF this] length_TrimSpace[of "drop (i + 1) s"]
  show "(TrimSpace (drop (i + 1) s), s) \<in> measure length" by simp
next
  fix s i assume "indexOf ''*/'' s = Some i"
  with indexOf_bound[OF this] length_TrimSpace[of "drop (i + 2) s"]
  show "(TrimSpace (drop (i + 2) s), s) \<in> measure length" by simp
qed simp

declare keywordLoop.simps [simp del]

definition leadingKeyword :: "string \<Rightarrow> string" where
  "leadingKeyword stmt = keywordLoop (TrimSpace stmt)"

definition writeKeywords :: "string list" where
  "writeKeywords = [''INSERT'', ''UPDATE'', ''DELETE'', ''MERGE'', ''REPLACE'', ''CREATE'', ''ALTER'',
     ''DROP'', ''TRUNCATE'', ''RENAME'', ''GRANT'', ''REVOKE'', ''CALL'', ''SET'', ''LOAD'', ''COPY'']"

definition readKeywords :: "string list" where
  "readKeywords = [''SELECT'', ''WITH'', ''SHOW'', ''TABLE'', ''VALUES'', ''DESCRIBE'', ''DESC'', ''EXPLAIN'']"

definition isWrite :: "string \<Rightarrow> bool" where
  "isWrite stmt \<longleftrightarrow> leadingKeyword stmt \<in> set writeKeywords"

definition isRead :: "string \<Rightarrow> bool" where
  "isRead stmt \<longleftrightarrow> leadingKeyword stmt \<in> set readKeywords"

definition isBroadRead :: "string \<Rightarrow> bool" where
  "isBroadRead stmt \<longleftrightarrow> isRead stmt \<and> \<not> contains (ToLowerKey stmt) ''limit''"

subsection \<open>Event classes\<close>

definition isDecision :: "stored_event \<Rightarrow> bool" where
  "isDecision ev \<longleftrightarrow> Kind (se_Event ev) = ''decision''"

definition isCompletion :: "stored_event \<Rightarrow> bool" where
  "isCompletion ev \<longleftrightarrow> Kind (se_Event ev) = ''completion''"

definition isAuth :: "stored_event \<Rightarrow> bool" where
  "isAuth ev \<longleftrightarrow> Kind (se_Event ev) = ''auth''"

definition isAdmin :: "stored_event \<Rightarrow> bool" where
  "isAdmin ev \<longleftrightarrow> Kind (se_Event ev) = ''admin''"

definition isAuthFailure :: "stored_event \<Rightarrow> bool" where
  "isAuthFailure ev \<longleftrightarrow> isAuth ev \<and> Outcome (se_Event ev) = Some ''FAILURE''"

definition isDenyOrError :: "stored_event \<Rightarrow> bool" where
  "isDenyOrError ev \<longleftrightarrow> isDecision ev \<and> Decision (se_Event ev) \<in> {''DENY'', ''ERROR''}"

datatype access_kind = WriteAccess | PIIRead | Uninteresting

definition accessKind :: "stored_event \<Rightarrow> access_kind" where
  "accessKind ev =
    (if isWrite (Statement (se_Event ev)) then WriteAccess
     else if PIITouched (se_Event ev) \<noteq> [] then PIIRead
     else Uninteresting)"

definition decisionIDOrSelf :: "stored_event \<Rightarrow> int64" where
  "decisionIDOrSelf ev = (case DecisionID (se_Event ev) of Some i \<Rightarrow> i | None \<Rightarrow> se_ID ev)"

definition UnixMicro :: "instant \<Rightarrow> int64" where
  "UnixMicro t = t div 1000"

definition withinWindow :: "stored_event \<Rightarrow> instant \<Rightarrow> bool" where
  "withinWindow ev cutoff \<longleftrightarrow> UnixMicro cutoff \<le> TSMicros (se_Event ev)"

definition maxAlertIDs :: nat where
  "maxAlertIDs = 100"

definition appendCapped :: "int64 list \<Rightarrow> int64 \<Rightarrow> int64 list" where
  "appendCapped ids i = (if maxAlertIDs \<le> length ids then ids else ids @ [i])"

subsection \<open>The detector\<close>

record 'w detector =
  dt_EventsSince :: "instant \<Rightarrow> ('w, string, stored_event list) op"
  dt_Deliver :: "alert \<Rightarrow> 'w \<Rightarrow> 'w"
  dt_Now :: "'w \<Rightarrow> instant \<times> 'w"
  dt_rules :: rules_config
  dt_maxWindow :: duration
  dt_business :: "business_window option"

definition widest :: "duration list \<Rightarrow> duration \<Rightarrow> duration" where
  "widest = fold (\<lambda>w m. if m < w then w else m)"

definition NewDetector :: "(string \<Rightarrow> location option) \<Rightarrow> (instant \<Rightarrow> ('w, string, stored_event list) op) \<Rightarrow>
    (alert \<Rightarrow> 'w \<Rightarrow> 'w) \<Rightarrow> ('w \<Rightarrow> instant \<times> 'w) \<Rightarrow> rules_config \<Rightarrow> (config_error, 'w detector) result" where
  "NewDetector loadLocation reader deliver now rules =
    (let windows = [me_Window (rc_MassExport rules), bp_Window (rc_BulkPII rules),
           rd_Window (rc_RepeatedDeny rules), af_Window (rc_AuthFailureBurst rules)];
         d = \<lparr>dt_EventsSince = reader, dt_Deliver = deliver, dt_Now = now, dt_rules = rules,
              dt_maxWindow = widest windows 0, dt_business = None\<rparr>
     in rbind (if oh_BusinessHours (rc_OffHours rules) \<noteq> []
               then rbind (Parse loadLocation (rc_OffHours rules)) (\<lambda>bw. Inr (d\<lparr>dt_business := Some bw\<rparr>))
               else Inr d) (\<lambda>d'.
          if rc_OffHoursAdmin rules \<and> oh_BusinessHours (rc_OffHours rules) = [] then Inl AdminNeedsOffHours
          else Inr d'))"

text \<open>Local civil time of an event: seconds since the epoch shifted by the zone's offset.\<close>

definition localSeconds :: "business_window \<Rightarrow> stored_event \<Rightarrow> int" where
  "localSeconds bw ev = (let sec = TSMicros (se_Event ev) div 1000000 in sec + Location bw sec)"

definition weekday :: "int \<Rightarrow> int" where
  "weekday sec = (sec div 86400 + 4) mod 7"

definition minuteOfDay :: "int \<Rightarrow> int" where
  "minuteOfDay sec = sec mod 86400 div 3600 * 60 + sec mod 3600 div 60"

definition isOffHours :: "business_window \<Rightarrow> int \<Rightarrow> bool" where
  "isOffHours bw sec \<longleftrightarrow>
    (if weekday sec = 6 \<or> weekday sec = 0 then True
     else minuteOfDay sec < StartMinute bw \<or> EndMinute bw \<le> minuteOfDay sec)"

definition eventAlert :: "string \<Rightarrow> stored_event \<Rightarrow> alert" where
  "eventAlert rule ev =
    \<lparr>a_Severity = SeverityWarn, a_Rule = rule, a_Principal = Principal (se_Event ev),
     a_Datasource = Datasource (se_Event ev), a_DecisionIDs = [se_ID ev],
     a_TS = Some (TSMicros (se_Event ev) * 1000)\<rparr>"

definition offHoursApplies :: "off_hours_rule \<Rightarrow> stored_event \<Rightarrow> bool" where
  "offHoursApplies rule ev \<longleftrightarrow>
    isDecision ev \<and>
    (case accessKind ev of
       Uninteresting \<Rightarrow> False
     | WriteAccess \<Rightarrow> AppliesToWrite rule
     | PIIRead \<Rightarrow> AppliesToPIIRead rule)"

definition evalOffHours :: "'w detector \<Rightarrow> stored_event list \<Rightarrow> 'w \<Rightarrow> 'w" where
  "evalOffHours d fresh w =
    (case dt_business d of
       None \<Rightarrow> w
     | Some bw \<Rightarrow>
        fold (\<lambda>ev w.
          if \<not> offHoursApplies (rc_OffHours (dt_rules d)) ev then w
          else if \<not> isOffHours bw (localSeconds bw ev) then w
          else dt_Deliver d (eventAlert RuleOffHours ev) w) fresh w)"

definition evalOffHoursAdmin :: "'w detector \<Rightarrow> stored_event list \<Rightarrow> 'w \<Rightarrow> 'w" where
  "evalOffHoursAdmin d fresh w =
    (case dt_business d of
       None \<Rightarrow> w
     | Some bw \<Rightarrow>
        if \<not> rc_OffHoursAdmin (dt_rules d) then w
        else fold (\<lambda>ev w.
          if \<not> isAdmin ev then w
          else if \<not> isOffHours bw (localSeconds bw ev) then w
          else dt_Deliver d (eventAlert RuleOffHoursAdmin ev) w) fresh w)"

subsection \<open>The window rules\<close>

text \<open>The keys of a Go map used as a set.\<close>

definition touch :: "'k \<Rightarrow> 'k list \<Rightarrow> 'k list" where
  "touch k ks = (if k \<in> set ks then ks else ks @ [k])"

definition touchedBy :: "(stored_event \<Rightarrow> bool) \<Rightarrow> stored_event list \<Rightarrow> string list" where
  "touchedBy hit fresh =
    fold (\<lambda>ev ks. if hit ev then touch (Principal (se_Event ev)) ks else ks) fresh []"

record tally =
  counts :: "string \<Rightarrow> int"
  ids :: "string \<Rightarrow> int64 list"
  columns :: "string \<Rightarrow> string list"

definition tallyEvent :: "(stored_event \<Rightarrow> bool) \<Rightarrow> instant \<Rightarrow> string list \<Rightarrow> stored_event \<Rightarrow> tally \<Rightarrow> tally" where
  "tallyEvent hit cutoff touched ev t =
    (if \<not> withinWindow ev cutoff \<or> \<not> hit ev then t
     else let p = Principal (se_Event ev)
       in if p \<notin> set touched then t
          else \<lparr>counts = (counts t)(p := counts t p + 1),
                ids = (ids t)(p := appendCapped (ids t p) (se_ID ev)),
                columns = (columns t)(p := fold touch (PIITouched (se_Event ev)) (columns t p))\<rparr>)"

definition tallyWindow :: "(stored_event \<Rightarrow> bool) \<Rightarrow> instant \<Rightarrow> string list \<Rightarrow> stored_event list \<Rightarrow> tally" where
  "tallyWindow hit cutoff touched window =
    fold (tallyEvent hit cutoff touched) window
      \<lparr>counts = (\<lambda>_. 0), ids = (\<lambda>_. []), columns = (\<lambda>_. [])\<rparr>"

definition principalAlert :: "string \<Rightarrow> string \<Rightarrow> int64 list \<Rightarrow> instant \<Rightarrow> alert" where
  "principalAlert rule p evids t =
    \<lparr>a_Severity = SeverityWarn, a_Rule = rule, a_Principal = p, a_Datasource = [],
     a_DecisionIDs = evids, a_TS = Some t\<rparr>"

definition fire :: "'w detector \<Rightarrow> (instant \<Rightarrow> alert) \<Rightarrow> 'w \<Rightarrow> 'w" where
  "fire d a w = (case dt_Now d w of (t, w1) \<Rightarrow> dt_Deliver d (a t) w1)"

definition fireOver :: "'w detector \<Rightarrow> string \<Rightarrow> (string \<Rightarrow> bool) \<Rightarrow> (string \<Rightarrow> int64 list) \<Rightarrow>
    string list \<Rightarrow> 'w \<Rightarrow> 'w" where
  "fireOver d rule over evids =
    fold (\<lambda>p w. if over p then fire d (principalAlert rule p (evids p)) w else w)"

definition evalRepeatedDeny :: "'w detector \<Rightarrow> stored_event list \<Rightarrow> stored_event list \<Rightarrow> 'w \<Rightarrow> 'w" where
  "evalRepeatedDeny d fresh window w =
    (let rule = rc_RepeatedDeny (dt_rules d)
     in if rd_Window rule \<le> 0 then w
        else case dt_Now d w of (t, w1) \<Rightarrow>
          let cutoff = t - rd_Window rule; touched = touchedBy isDenyOrError fresh
          in if touched = [] then w1
             else let tl = tallyWindow isDenyOrError cutoff touched window
               in fireOver d RuleRepeatedDeny (\<lambda>p. rd_MaxDeny rule < counts tl p) (ids tl) touched w1)"

definition evalAuthFailureBurst :: "'w detector \<Rightarrow> stored_event list \<Rightarrow> stored_event list \<Rightarrow> 'w \<Rightarrow> 'w" where
  "evalAuthFailureBurst d fresh window w =
    (let rule = rc_AuthFailureBurst (dt_rules d)
     in if af_Window rule \<le> 0 then w
        else case dt_Now d w of (t, w1) \<Rightarrow>
          let cutoff = t - af_Window rule; touched = touchedBy isAuthFailure fresh
          in if touched = [] then w1
             else let tl = tallyWindow isAuthFailure cutoff touched window
               in fireOver d RuleAuthFailureBurst (\<lambda>p. af_MaxFailures rule < counts tl p) (ids tl) touched w1)"

definition touchesPII :: "stored_event \<Rightarrow> bool" where
  "touchesPII ev \<longleftrightarrow> isDecision ev \<and> PIITouched (se_Event ev) \<noteq> []"

definition evalBulkPII :: "'w detector \<Rightarrow> stored_event list \<Rightarrow> stored_event list \<Rightarrow> 'w \<Rightarrow> 'w" where
  "evalBulkPII d fresh window w =
    (let rule = rc_BulkPII (dt_rules d)
     in if bp_Window rule \<le> 0 then w
        else case dt_Now d w of (t, w1) \<Rightarrow>
          let cutoff = t - bp_Window rule; touched = touchedBy touchesPII fresh
          in if touched = [] then w1
             else let tl = tallyWindow touchesPII cutoff touched window
               in fireOver d RuleBulkPII (\<lambda>p.
                    (0 < bp_MaxPIIDecisions rule \<and> bp_MaxPIIDecisions rule < counts tl p) \<or>
                    (0 < bp_MaxDistinctPIIColumns rule \<and>
                      bp_MaxDistinctPIIColumns rule < int (length (columns tl p))))
                    (ids tl) touched w1)"

subsection \<open>Mass export\<close>

type_synonym keyPD = "string \<times> string"

record massAgg =
  ma_rows :: int64
  ma_bytes :: int64
  completions :: int
  broadReads :: int
  ma_ids :: "int64 list"

definition ownKey :: "stored_event \<Rightarrow> keyPD" where
  "ownKey ev = (Principal (se_Event ev), Datasource (se_Event ev))"

definition decInfo :: "stored_event list \<Rightarrow> int64 \<rightharpoonup> keyPD" where
  "decInfo window = fold (\<lambda>ev m. if isDecision ev then m(se_ID ev \<mapsto> ownKey ev) else m) window Map.empty"

definition resolve :: "(int64 \<rightharpoonup> keyPD) \<Rightarrow> stored_event \<Rightarrow> keyPD" where
  "resolve info ev =
    (case DecisionID (se_Event ev) of
       None \<Rightarrow> ownKey ev
     | Some i \<Rightarrow> (case info i of Some pd \<Rightarrow> pd | None \<Rightarrow> ownKey ev))"

definition isBroadDecision :: "stored_event \<Rightarrow> bool" where
  "isBroadDecision ev \<longleftrightarrow> isDecision ev \<and> isBroadRead (Statement (se_Event ev))"

definition massTouched :: "(int64 \<rightharpoonup> keyPD) \<Rightarrow> stored_event list \<Rightarrow> keyPD list" where
  "massTouched info fresh =
    fold (\<lambda>ev ks. if isCompletion ev then touch (resolve info ev) ks
                  else if isBroadDecision ev then touch (ownKey ev) ks
                  else ks) fresh []"

definition emptyAgg :: massAgg where
  "emptyAgg = \<lparr>ma_rows = 0, ma_bytes = 0, completions = 0, broadReads = 0, ma_ids = []\<rparr>"

definition addReturned :: "int64 \<Rightarrow> int64 option \<Rightarrow> int64" where
  "addReturned n v = (case v of None \<Rightarrow> n | Some x \<Rightarrow> wrap64 (n + x))"

definition aggCompletion :: "stored_event \<Rightarrow> massAgg \<Rightarrow> massAgg" where
  "aggCompletion ev a =
    a\<lparr>ma_rows := addReturned (ma_rows a) (RowsReturned (se_Event ev)),
      ma_bytes := addReturned (ma_bytes a) (BytesReturned (se_Event ev)),
      completions := completions a + 1,
      ma_ids := appendCapped (ma_ids a) (decisionIDOrSelf ev)\<rparr>"

definition aggBroadRead :: "stored_event \<Rightarrow> massAgg \<Rightarrow> massAgg" where
  "aggBroadRead ev a =
    a\<lparr>broadReads := broadReads a + 1, ma_ids := appendCapped (ma_ids a) (se_ID ev)\<rparr>"

definition updAgg :: "keyPD \<Rightarrow> (massAgg \<Rightarrow> massAgg) \<Rightarrow> (keyPD \<rightharpoonup> massAgg) \<Rightarrow> (keyPD \<rightharpoonup> massAgg)" where
  "updAgg pd f aggs = aggs(pd \<mapsto> f (case aggs pd of Some a \<Rightarrow> a | None \<Rightarrow> emptyAgg))"

definition aggEvent :: "(int64 \<rightharpoonup> keyPD) \<Rightarrow> instant \<Rightarrow> keyPD list \<Rightarrow> stored_event \<Rightarrow>
    (keyPD \<rightharpoonup> massAgg) \<Rightarrow> (keyPD \<rightharpoonup> massAgg)" where
  "aggEvent info cutoff touched ev aggs =
    (if \<not> withinWindow ev cutoff then aggs
     else if isCompletion ev then
       (if resolve info ev \<notin> set touched then aggs else updAgg (resolve info ev) (aggCompletion ev) aggs)
     else if isBroadDecision ev then
       (if ownKey ev \<notin> set touched then aggs else updAgg (ownKey ev) (aggBroadRead ev) aggs)
     else aggs)"

definition massAlert :: "string \<Rightarrow> keyPD \<Rightarrow> int64 list \<Rightarrow> instant \<Rightarrow> alert" where
  "massAlert sev pd evids t =
    \<lparr>a_Severity = sev, a_Rule = RuleMassExport, a_Principal = fst pd, a_Datasource = snd pd,
     a_DecisionIDs = evids, a_TS = Some t\<rparr>"

definition overCeiling :: "volume_threshold \<Rightarrow> massAgg \<Rightarrow> bool" where
  "overCeiling th a \<longleftrightarrow>
    (0 < vt_Rows th \<and> vt_Rows th < ma_rows a) \<or> (0 < vt_Bytes th \<and> vt_Bytes th < ma_bytes a)"

definition judgeMass :: "'w detector \<Rightarrow> mass_export_rule \<Rightarrow> keyPD \<Rightarrow> massAgg option \<Rightarrow> 'w \<Rightarrow> 'w" where
  "judgeMass d rule pd agg w =
    (case agg of
       None \<Rightarrow> w
     | Some a \<Rightarrow>
        let th = Threshold rule (snd pd)
        in if 0 < completions a \<and> (0 < vt_Rows th \<or> 0 < vt_Bytes th) then
             (if overCeiling th a then fire d (massAlert SeverityCritical pd (ma_ids a)) w else w)
           else if 0 < me_HeuristicMaxBroadReads rule \<and> me_HeuristicMaxBroadReads rule < broadReads a then
             fire d (massAlert SeverityWarn pd (ma_ids a)) w
           else w)"

definition evalMassExport :: "'w detector \<Rightarrow> stored_event list \<Rightarrow> stored_event list \<Rightarrow> 'w \<Rightarrow> 'w" where
  "evalMassExport d fresh window w =
    (let rule = rc_MassExport (dt_rules d)
     in if me_Window rule \<le> 0 then w
        else case dt_Now d w of (t, w1) \<Rightarrow>
          let cutoff = t - me_Window rule; info = decInfo window; touched = massTouched info fresh
          in if touched = [] then w1
             else let aggs = fold (aggEvent info cutoff touched) window Map.empty
               in fold (\<lambda>pd. judgeMass d rule pd (aggs pd)) touched w1)"

subsection \<open>A poll\<close>

definition InspectCatchUp :: "'w detector \<Rightarrow> stored_event list \<Rightarrow> ('w, string, unit) op" where
  "InspectCatchUp d fresh w = (Inr (), evalOffHoursAdmin d fresh (evalOffHours d fresh w))"

definition Inspect :: "'w detector \<Rightarrow> stored_event list \<Rightarrow> ('w, string, unit) op" where
  "Inspect d fresh w =
    (let w1 = evalOffHoursAdmin d fresh (evalOffHours d fresh w)
     in if \<not> 0 < dt_maxWindow d then (Inr (), w1)
        else case dt_Now d w1 of (t, w2) \<Rightarrow>
          case dt_EventsSince d (t - dt_maxWindow d) w2 of
            (Inl e, w3) \<Rightarrow> (Inl (''detect: read window: '' @ e), w3)
          | (Inr window, w3) \<Rightarrow>
              (Inr (), evalAuthFailureBurst d fresh window (evalRepeatedDeny d fresh window
                (evalBulkPII d fresh window (evalMassExport d fresh window w3)))))"

subsection \<open>The tallies against the window\<close>

lemma set_touch [simp]: "set (touch k ks) = insert k (set ks)"
  by (auto simp: touch_def)

lemma distinct_touch [simp]: "distinct ks \<Longrightarrow> distinct (touch k ks)"
  by (simp add: touch_def)

lemma set_fold_touch [simp]: "set (fold touch xs ks) = set xs \<union> set ks"
  by (induction xs arbitrary: ks) auto

lemma distinct_fold_touch: "distinct ks \<Longrightarrow> distinct (fold touch xs ks)"
  by (induction xs arbitrary: ks) auto

lemma touchedBy_eq: "touchedBy hit fresh = fold touch (map (\<lambda>ev. Principal (se_Event ev)) (filter hit fresh)) []"
proof -
  have "fold (\<lambda>ev ks. if hit ev then touch (Principal (se_Event ev)) ks else ks) fresh ks =
      fold touch (map (\<lambda>ev. Principal (se_Event ev)) (filter hit fresh)) ks" for ks
    by (induction fresh arbitrary: ks) auto
  then show ?thesis by (simp add: touchedBy_def)
qed

lemma touchedBy_props:
  shows "distinct (touchedBy hit fresh)"
    and "set (touchedBy hit fresh) = (\<lambda>ev. Principal (se_Event ev)) ` {ev \<in> set fresh. hit ev}"
  by (auto simp: touchedBy_eq distinct_fold_touch)

text \<open>The events a principal's tally counts.\<close>

definition hitsOf :: "(stored_event \<Rightarrow> bool) \<Rightarrow> instant \<Rightarrow> string \<Rightarrow> stored_event list \<Rightarrow> stored_event list" where
  "hitsOf hit cutoff p window =
    filter (\<lambda>ev. withinWindow ev cutoff \<and> hit ev \<and> Principal (se_Event ev) = p) window"

lemma appendCapped_take: "appendCapped (take maxAlertIDs xs) i = take maxAlertIDs (xs @ [i])"
  by (auto simp: appendCapped_def)

lemma tally_append:
  assumes "p \<in> set touched"
  shows "counts (tallyWindow hit cutoff touched (window @ [ev])) p =
      (if hitsOf hit cutoff p [ev] = [] then counts (tallyWindow hit cutoff touched window) p
       else counts (tallyWindow hit cutoff touched window) p + 1)"
    and "ids (tallyWindow hit cutoff touched (window @ [ev])) p =
      (if hitsOf hit cutoff p [ev] = [] then ids (tallyWindow hit cutoff touched window) p
       else appendCapped (ids (tallyWindow hit cutoff touched window) p) (se_ID ev))"
    and "columns (tallyWindow hit cutoff touched (window @ [ev])) p =
      (if hitsOf hit cutoff p [ev] = [] then columns (tallyWindow hit cutoff touched window) p
       else fold touch (PIITouched (se_Event ev)) (columns (tallyWindow hit cutoff touched window) p))"
  using assms by (auto simp: tallyWindow_def tallyEvent_def hitsOf_def Let_def)

lemma hitsOf_append: "hitsOf hit cutoff p (xs @ ys) = hitsOf hit cutoff p xs @ hitsOf hit cutoff p ys"
  by (simp add: hitsOf_def)

lemma hitsOf_single: "hitsOf hit cutoff p [ev] = [] \<or> hitsOf hit cutoff p [ev] = [ev]"
  by (simp add: hitsOf_def)

lemma tally_counts:
  "p \<in> set touched \<Longrightarrow> counts (tallyWindow hit cutoff touched window) p = int (length (hitsOf hit cutoff p window))"
proof (induction window rule: rev_induct)
  case (snoc ev window)
  then show ?case using hitsOf_single[of hit cutoff p ev] by (auto simp: tally_append hitsOf_append)
qed (simp add: tallyWindow_def hitsOf_def)

lemma tally_ids:
  "p \<in> set touched \<Longrightarrow>
   ids (tallyWindow hit cutoff touched window) p = take maxAlertIDs (map se_ID (hitsOf hit cutoff p window))"
proof (induction window rule: rev_induct)
  case (snoc ev window)
  then show ?case using hitsOf_single[of hit cutoff p ev]
    by (auto simp: tally_append hitsOf_append appendCapped_take)
qed (simp add: tallyWindow_def hitsOf_def)

lemma tally_columns:
  "p \<in> set touched \<Longrightarrow> columns (tallyWindow hit cutoff touched window) p =
    fold touch (concat (map (\<lambda>ev. PIITouched (se_Event ev)) (hitsOf hit cutoff p window))) []"
proof (induction window rule: rev_induct)
  case (snoc ev window)
  then show ?case using hitsOf_single[of hit cutoff p ev] by (auto simp: tally_append hitsOf_append)
qed (simp add: tallyWindow_def hitsOf_def)

definition columnsOf :: "stored_event list \<Rightarrow> string set" where
  "columnsOf evs = (\<Union>ev \<in> set evs. set (PIITouched (se_Event ev)))"

lemma tally_column_count:
  "p \<in> set touched \<Longrightarrow>
   length (columns (tallyWindow hit cutoff touched window) p) = card (columnsOf (hitsOf hit cutoff p window))"
  by (simp add: tally_columns columnsOf_def distinct_card[symmetric] distinct_fold_touch)

lemma fireOver_cong:
  assumes "\<And>p. p \<in> set touched \<Longrightarrow> over p = over' p" "\<And>p. p \<in> set touched \<Longrightarrow> evids p = evids' p"
  shows "fireOver d rule over evids touched w = fireOver d rule over' evids' touched w"
  unfolding fireOver_def using assms by (intro fold_cong) (auto simp: fun_eq_iff)

lemma fireOver_Nil [simp]: "fireOver d rule over evids [] w = w"
  by (simp add: fireOver_def)

subsection \<open>Mass export against the window\<close>

definition massRelevant :: "(int64 \<rightharpoonup> keyPD) \<Rightarrow> instant \<Rightarrow> keyPD \<Rightarrow> stored_event list \<Rightarrow> stored_event list" where
  "massRelevant info cutoff pd window =
    filter (\<lambda>ev. withinWindow ev cutoff \<and>
      (if isCompletion ev then resolve info ev = pd else isBroadDecision ev \<and> ownKey ev = pd)) window"

definition aggregateOf :: "stored_event list \<Rightarrow> massAgg option" where
  "aggregateOf evs =
    (if evs = [] then None
     else Some \<lparr>ma_rows = wrap64 (\<Sum>ev \<leftarrow> filter isCompletion evs. case RowsReturned (se_Event ev) of Some n \<Rightarrow> n | None \<Rightarrow> 0),
       ma_bytes = wrap64 (\<Sum>ev \<leftarrow> filter isCompletion evs. case BytesReturned (se_Event ev) of Some n \<Rightarrow> n | None \<Rightarrow> 0),
       completions = int (length (filter isCompletion evs)),
       broadReads = int (length (filter (\<lambda>ev. \<not> isCompletion ev) evs)),
       ma_ids = take maxAlertIDs (map (\<lambda>ev. if isCompletion ev then decisionIDOrSelf ev else se_ID ev) evs)\<rparr>)"

lemma wrap64_zero: "wrap64 0 = 0"
  by (simp add: wrap64_def)

lemma wrap64_add_left: "wrap64 (wrap64 a + b) = wrap64 (a + b)"
  by (simp add: wrap64_eq mod_simps algebra_simps)

lemma addReturned_wrap:
  "addReturned (wrap64 s) v = wrap64 (s + (case v of Some n \<Rightarrow> n | None \<Rightarrow> 0))"
  by (auto simp: addReturned_def wrap64_add_left split: option.splits)

lemma aggregate_snoc:
  "aggregateOf (evs @ [ev]) =
    Some ((if isCompletion ev then aggCompletion ev else aggBroadRead ev)
      (case aggregateOf evs of Some a \<Rightarrow> a | None \<Rightarrow> emptyAgg))"
proof (cases "evs = []")
  case True
  then show ?thesis
    by (auto simp: wrap64_zero aggregateOf_def aggCompletion_def aggBroadRead_def emptyAgg_def
        addReturned_def appendCapped_def maxAlertIDs_def split: option.splits)
next
  case False
  then show ?thesis
    by (auto simp: aggregateOf_def aggCompletion_def aggBroadRead_def addReturned_wrap appendCapped_take)
qed

lemma massRelevant_snoc:
  "massRelevant info cutoff pd (window @ [ev]) = massRelevant info cutoff pd window @ massRelevant info cutoff pd [ev]"
  by (simp add: massRelevant_def)

lemma aggs_eq:
  assumes "pd \<in> set touched"
  shows "fold (aggEvent info cutoff touched) window Map.empty pd = aggregateOf (massRelevant info cutoff pd window)"
proof (induction window rule: rev_induct)
  case (snoc ev window)
  let ?m = "fold (aggEvent info cutoff touched) window Map.empty"
  have "aggEvent info cutoff touched ev ?m pd =
      (if massRelevant info cutoff pd [ev] = [] then ?m pd
       else Some ((if isCompletion ev then aggCompletion ev else aggBroadRead ev)
         (case ?m pd of Some a \<Rightarrow> a | None \<Rightarrow> emptyAgg)))"
    using assms by (auto simp: aggEvent_def massRelevant_def updAgg_def)
  with snoc show ?case
    by (cases "massRelevant info cutoff pd [ev] = []")
      (auto simp: massRelevant_snoc aggregate_snoc simp: massRelevant_def split: if_splits)
qed (simp add: massRelevant_def aggregateOf_def)

subsection \<open>What the rules may deliver\<close>

definition boundedAlert :: "alert \<Rightarrow> bool" where
  "boundedAlert a \<longleftrightarrow>
    length (a_DecisionIDs a) \<le> maxAlertIDs \<and>
    a_Rule a \<in> {RuleMassExport, RuleBulkPII, RuleOffHours, RuleRepeatedDeny, RuleAuthFailureBurst, RuleOffHoursAdmin} \<and>
    (a_Severity a = SeverityWarn \<or> a_Severity a = SeverityCritical \<and> a_Rule a = RuleMassExport) \<and>
    a_TS a \<noteq> None"

text \<open>A property of the world that clock, trail reads and delivery of such an alert preserve.\<close>

locale detector_client =
  fixes d :: "'w detector" and I :: "'w \<Rightarrow> bool"
  assumes now_keeps: "I w \<Longrightarrow> I (snd (dt_Now d w))"
    and since_keeps: "I w \<Longrightarrow> I (snd (dt_EventsSince d t w))"
    and deliver_keeps: "I w \<Longrightarrow> boundedAlert a \<Longrightarrow> I (dt_Deliver d a w)"
begin

lemma fold_keeps: "(\<And>x w. x \<in> set xs \<Longrightarrow> I w \<Longrightarrow> I (f x w)) \<Longrightarrow> I w \<Longrightarrow> I (fold f xs w)"
  by (induction xs arbitrary: w) auto

lemma fire_keeps: "(\<And>t. boundedAlert (a t)) \<Longrightarrow> I w \<Longrightarrow> I (fire d a w)"
  using now_keeps[of w] by (auto simp: fire_def case_prod_beta intro: deliver_keeps)

lemma eventAlert_bounded:
  "boundedAlert (eventAlert RuleOffHours ev)" "boundedAlert (eventAlert RuleOffHoursAdmin ev)"
  by (simp_all add: boundedAlert_def eventAlert_def maxAlertIDs_def)

lemma evalOffHours_keeps: "I w \<Longrightarrow> I (evalOffHours d fresh w)"
  by (auto simp: evalOffHours_def intro!: fold_keeps deliver_keeps eventAlert_bounded split: option.splits)

lemma evalOffHoursAdmin_keeps: "I w \<Longrightarrow> I (evalOffHoursAdmin d fresh w)"
  by (auto simp: evalOffHoursAdmin_def intro!: fold_keeps deliver_keeps eventAlert_bounded split: option.splits)

lemma fireOver_keeps:
  assumes "\<And>p. p \<in> set touched \<Longrightarrow> length (evids p) \<le> maxAlertIDs" "I w"
    and "rule \<in> {RuleBulkPII, RuleRepeatedDeny, RuleAuthFailureBurst}"
  shows "I (fireOver d rule over evids touched w)"
  unfolding fireOver_def using assms
  by (intro fold_keeps) (auto intro!: fire_keeps simp: boundedAlert_def principalAlert_def)

lemma tally_ids_bounded: "p \<in> set touched \<Longrightarrow> length (ids (tallyWindow hit cutoff touched window) p) \<le> maxAlertIDs"
  by (simp add: tally_ids)

lemma evalRepeatedDeny_keeps: "I w \<Longrightarrow> I (evalRepeatedDeny d fresh window w)"
  using now_keeps[of w]
  by (auto simp: evalRepeatedDeny_def Let_def case_prod_beta intro!: fireOver_keeps tally_ids_bounded)

lemma evalAuthFailureBurst_keeps: "I w \<Longrightarrow> I (evalAuthFailureBurst d fresh window w)"
  using now_keeps[of w]
  by (auto simp: evalAuthFailureBurst_def Let_def case_prod_beta intro!: fireOver_keeps tally_ids_bounded)

lemma evalBulkPII_keeps: "I w \<Longrightarrow> I (evalBulkPII d fresh window w)"
  using now_keeps[of w]
  by (auto simp: evalBulkPII_def Let_def case_prod_beta intro!: fireOver_keeps tally_ids_bounded)

lemma judgeMass_keeps:
  assumes "\<And>a. agg = Some a \<Longrightarrow> length (ma_ids a) \<le> maxAlertIDs" "I w"
  shows "I (judgeMass d rule pd agg w)"
  using assms by (auto simp: judgeMass_def Let_def boundedAlert_def massAlert_def intro!: fire_keeps split: option.splits)

lemma aggregateOf_ids: "aggregateOf evs = Some a \<Longrightarrow> length (ma_ids a) \<le> maxAlertIDs"
  by (auto simp: aggregateOf_def split: if_splits)

lemma evalMassExport_keeps: "I w \<Longrightarrow> I (evalMassExport d fresh window w)"
  using now_keeps[of w]
  by (auto simp: evalMassExport_def Let_def case_prod_beta aggs_eq intro!: fold_keeps judgeMass_keeps aggregateOf_ids)

lemma InspectCatchUp_keeps: "I w \<Longrightarrow> I (snd (InspectCatchUp d fresh w))"
  by (simp add: InspectCatchUp_def evalOffHours_keeps evalOffHoursAdmin_keeps)

lemma Inspect_keeps:
  assumes "I w"
  shows "I (snd (Inspect d fresh w))"
proof -
  let ?w1 = "evalOffHoursAdmin d fresh (evalOffHours d fresh w)"
  have "I ?w1" using assms by (simp add: evalOffHours_keeps evalOffHoursAdmin_keeps)
  then have "I (snd (dt_EventsSince d (fst (dt_Now d ?w1) - dt_maxWindow d) (snd (dt_Now d ?w1))))"
    by (intro since_keeps now_keeps)
  with \<open>I ?w1\<close> show ?thesis
    by (auto simp: Inspect_def Let_def case_prod_beta split: sum.splits
        intro!: evalAuthFailureBurst_keeps evalRepeatedDeny_keeps evalBulkPII_keeps evalMassExport_keeps)
qed

end

subsection \<open>Wiring\<close>

text \<open>
  The command builds the sink, the detector and the reporter over one object store and hands them to
  the monitor. The sink's memory is part of the world the monitor acts on, so operations of the
  outside world are lifted past it.
\<close>

definition lifted :: "('w, 'e, 'a) op \<Rightarrow> ('w alerting, 'e, 'a) op" where
  "lifted m aw = (case m (aw_world aw) of (r, w) \<Rightarrow> (r, aw\<lparr>aw_world := w\<rparr>))"

definition liftedStore :: "'w object_store \<Rightarrow> 'w alerting object_store" where
  "liftedStore os = \<lparr>os_Put = (\<lambda>k b. lifted (os_Put os k b)), os_List = (\<lambda>p. lifted (os_List os p)),
     os_Get = (\<lambda>k. lifted (os_Get os k))\<rparr>"

definition liftedSigner :: "'w signer \<Rightarrow> 'w alerting signer" where
  "liftedSigner sg = \<lparr>sg_Sign = (\<lambda>x. lifted (sg_Sign sg x)), sg_Verify = (\<lambda>x s k. lifted (sg_Verify sg x s k))\<rparr>"

definition liftedNow :: "'w outside \<Rightarrow> 'w alerting \<Rightarrow> instant \<times> 'w alerting" where
  "liftedNow out aw = (case o_Now out (aw_world aw) of (t, w) \<Rightarrow> (t, aw\<lparr>aw_world := w\<rparr>))"

text \<open>The window read against the rows the database shows in the current world.\<close>

definition windowReader :: "('w \<Rightarrow> (string, audit_table) result) \<Rightarrow> instant \<Rightarrow>
    ('w alerting, string, stored_event list) op" where
  "windowReader q since aw = (map_sum id (\<lambda>t. EventsSince t (UnixMicro since)) (q (aw_world aw)), aw)"

datatype wiring_error = SinkConfig alert_error | RulesConfig config_error

definition wireMonitor :: "(string \<Rightarrow> location option) \<Rightarrow> (string \<Rightarrow> string) \<Rightarrow> 'w outside \<Rightarrow> 'w object_store \<Rightarrow>
    'w signer \<Rightarrow> ('w \<Rightarrow> (string, audit_table) result) \<Rightarrow> config \<Rightarrow> (wiring_error, 'w alerting deps) result" where
  "wireMonitor loadLocation getenv out os sg q cfg =
    rbind (map_sum SinkConfig id (NewSink getenv (cf_Alerts cfg))) (\<lambda>alertSink.
    rbind (map_sum RulesConfig id (NewDetector loadLocation (windowReader q) (Deliver out os alertSink)
            (liftedNow out) (cf_Rules cfg))) (\<lambda>detector.
      Inr \<lparr>d_signer = liftedSigner sg, d_store = liftedStore os, d_genesis = GenesisHash,
           d_TailBatch = mc_TailBatch (cf_Monitor cfg), d_Inspect = Inspect detector,
           d_InspectCatchUp = InspectCatchUp detector, d_Report = Report out os alertSink\<rparr>))"

definition splitArgs :: "string list \<Rightarrow> string \<times> string list" where
  "splitArgs argv =
    (case argv of
       a # as \<Rightarrow> if \<not> prefix ''-'' a then (a, as) else ([], argv)
     | [] \<Rightarrow> ([], argv))"

datatype verify_exit = VerifyFailed mon_error | ErrChainBroken

definition verifyOnce :: "'w deps \<Rightarrow> db_env \<Rightarrow> 'w \<Rightarrow> ((verify_exit, unit) result \<times> 'w) option" where
  "verifyOnce d db w =
    map_option (\<lambda>(r, w1).
      (case r of
         Inl e \<Rightarrow> Inl (VerifyFailed e)
       | Inr dg \<Rightarrow> (case dg_Finding dg of None \<Rightarrow> Inr () | Some f \<Rightarrow> Inl ErrChainBroken), w1))
      (Diagnose d db w)"

lemma snd_lifted [simp]: "aw_world (snd (lifted m aw)) = snd (m (aw_world aw))"
  by (simp add: lifted_def case_prod_beta)

lemma fst_lifted [simp]: "fst (lifted m aw) = fst (m (aw_world aw))"
  by (simp add: lifted_def case_prod_beta)

lemma liftedStore_contract: "object_store os objs \<Longrightarrow> object_store (liftedStore os) (objs \<circ> aw_world)"
  by (rule object_store.intro) (simp_all add: liftedStore_def object_store.get_frame object_store.get_ok
      object_store.get_missing object_store.put_ok object_store.put_failed[unfolded fun_upd_def] object_store.list_frame
      object_store.list_ok fun_upd_def)

lemma NewDetector_Inr:
  assumes "NewDetector loadLocation reader deliver now rules = Inr d"
  shows "dt_EventsSince d = reader" "dt_Deliver d = deliver" "dt_Now d = now"
  using assms by (auto simp: NewDetector_def Let_def rbind_def split: if_splits sum.splits)

lemma wired_detector_client:
  fixes objs :: "'w \<Rightarrow> string \<Rightarrow> body option"
  assumes env: "alert_env os objs out" and k: "\<not> prefix ''alerts/'' k"
    and d: "NewDetector loadLocation (windowReader q) (Deliver out os s) (liftedNow out) rules = Inr d"
  shows "detector_client d (\<lambda>aw. objs (aw_world aw) k = v)"
proof
  note d = NewDetector_Inr[OF d]
  fix aw :: "'w alerting" assume *: "objs (aw_world aw) k = v"
  show "objs (aw_world (snd (dt_Now d aw))) k = v"
    using * alert_env.now_frame[OF env, of "aw_world aw"] by (simp add: d liftedNow_def case_prod_beta)
  show "objs (aw_world (snd (dt_EventsSince d t aw))) k = v" for t
    using * by (simp add: d windowReader_def)
  show "objs (aw_world (dt_Deliver d a aw)) k = v" for a
    using * alert_env.Deliver_frame[OF env k] by (simp add: d)
qed

text \<open>The detector of the command over the in-memory store, with a stopped clock.\<close>

definition stillDetector :: "instant \<Rightarrow> (memory_store \<Rightarrow> (string, audit_table) result) \<Rightarrow> sink \<Rightarrow> rules_config \<Rightarrow>
    memory_store alerting detector" where
  "stillDetector t q s rules =
    \<lparr>dt_EventsSince = windowReader q, dt_Deliver = Deliver (stillOutside t True) memoryStore s,
     dt_Now = liftedNow (stillOutside t True), dt_rules = rules, dt_maxWindow = 0, dt_business = None\<rparr>"

interpretation still_detector: detector_client "stillDetector t q s rules"
  "\<lambda>aw. map_of (aw_world aw) (checkpointKey i) = v" for t q s rules i v
proof
  have k: "\<not> prefix ''alerts/'' (checkpointKey i)" by (simp add: checkpointKey_def checkpointPrefix_def)
  fix aw :: "memory_store alerting" assume *: "map_of (aw_world aw) (checkpointKey i) = v"
  then show "map_of (aw_world (snd (dt_Now (stillDetector t q s rules) aw))) (checkpointKey i) = v"
    by (simp add: stillDetector_def liftedNow_def stillOutside_def)
  from * show "map_of (aw_world (snd (dt_EventsSince (stillDetector t q s rules) u aw))) (checkpointKey i) = v" for u
    by (simp add: stillDetector_def windowReader_def)
  from * show "map_of (aw_world (dt_Deliver (stillDetector t q s rules) a aw)) (checkpointKey i) = v" for a
    using still.Deliver_frame[OF k] by (simp add: stillDetector_def)
qed

lemma wireMonitor_contract:
  assumes env: "alert_env os objs out"
    and sign: "\<And>x w. objs (snd (sg_Sign sg x w)) = objs w" "\<And>x s k w. objs (snd (sg_Verify sg x s k w)) = objs w"
    and wired: "wireMonitor loadLocation getenv out os sg q cfg = Inr d"
  shows "monitor_deps d (objs \<circ> aw_world)"
proof -
  obtain s det where
    nd: "NewDetector loadLocation (windowReader q) (Deliver out os s) (liftedNow out) (cf_Rules cfg) = Inr det"
    and d: "d = \<lparr>d_signer = liftedSigner sg, d_store = liftedStore os, d_genesis = GenesisHash,
           d_TailBatch = mc_TailBatch (cf_Monitor cfg), d_Inspect = Inspect det,
           d_InspectCatchUp = InspectCatchUp det, d_Report = Report out os s\<rparr>"
    using wired by (auto simp: wireMonitor_def rbind_def map_sum_def split: sum.splits)
  have keeps: "objs (aw_world (snd (Inspect det evs aw))) k = objs (aw_world aw) k"
    "objs (aw_world (snd (InspectCatchUp det evs aw))) k = objs (aw_world aw) k"
    if "\<not> prefix ''alerts/'' k" for evs aw k
    using detector_client.Inspect_keeps[OF wired_detector_client[OF env that nd] refl]
      detector_client.InspectCatchUp_keeps[OF wired_detector_client[OF env that nd] refl] by simp_all
  have "object_store (d_store d) (objs \<circ> aw_world)"
    using liftedStore_contract alert_env.axioms(1)[OF env] by (simp add: d)
  then show ?thesis
    by (intro monitor_deps.intro monitor_deps_axioms.intro)
      (simp_all add: d keeps sign liftedSigner_def alert_env.Report_frame[OF env])
qed

lemma widest_Cons: "widest (v # ws) m = widest ws (max m v)"
  by (simp add: widest_def max_def)

lemma widest_start: "m \<le> widest ws m"
proof (induction ws arbitrary: m)
  case (Cons v ws)
  from Cons[of "max m v"] show ?case by (simp add: widest_Cons)
qed (simp add: widest_def)

lemma widest_ge: "w \<in> set ws \<Longrightarrow> w \<le> widest ws m"
proof (induction ws arbitrary: m)
  case (Cons v ws)
  then show ?case using widest_start[of "max m v" ws] by (auto simp: widest_Cons)
qed simp

lemma NewDetector_windows:
  assumes "NewDetector loadLocation reader deliver now rules = Inr d"
  shows "list_all (\<lambda>w. w \<le> dt_maxWindow d) [me_Window (rc_MassExport rules), bp_Window (rc_BulkPII rules),
    rd_Window (rc_RepeatedDeny rules), af_Window (rc_AuthFailureBurst rules)]"
proof -
  let ?ws = "[me_Window (rc_MassExport rules), bp_Window (rc_BulkPII rules),
    rd_Window (rc_RepeatedDeny rules), af_Window (rc_AuthFailureBurst rules)]"
  have "dt_maxWindow d = widest ?ws 0"
    using assms by (auto simp: NewDetector_def Let_def rbind_def split: if_splits sum.splits)
  then show ?thesis by (auto simp: list_all_iff intro!: widest_ge)
qed

lemma hitsOf_EventsSince:
  assumes "since \<le> cutoff"
  shows "hitsOf hit cutoff p (EventsSince t (UnixMicro since)) = hitsOf hit cutoff p (table_rows t)"
proof -
  have "UnixMicro since \<le> UnixMicro cutoff" using assms by (simp add: UnixMicro_def zdiv_mono1)
  then show ?thesis unfolding hitsOf_def EventsSince_def withinWindow_def filter_filter
    by (intro filter_cong refl) auto
qed

text \<open>A detector whose world is the list of delivered alerts.\<close>

definition logDetector :: "instant \<Rightarrow> rules_config \<Rightarrow> alert list detector" where
  "logDetector t rules =
    \<lparr>dt_EventsSince = (\<lambda>_ w. (Inr [], w)), dt_Deliver = (\<lambda>a w. w @ [a]), dt_Now = (\<lambda>w. (t, w)),
     dt_rules = rules, dt_maxWindow = 3600 * second, dt_business = None\<rparr>"

definition sample_rules :: rules_config where
  "sample_rules =
    \<lparr>rc_MassExport = \<lparr>me_Window = 3600 * second, me_PerDatasource = [], me_Default = \<lparr>vt_Rows = 10, vt_Bytes = 0\<rparr>,
        me_HeuristicMaxBroadReads = 0\<rparr>,
     rc_BulkPII = \<lparr>bp_Window = 600 * second, bp_MaxPIIDecisions = 1, bp_MaxDistinctPIIColumns = 0\<rparr>,
     rc_OffHours = \<lparr>oh_BusinessHours = [], oh_Timezone = [], oh_AppliesTo = []\<rparr>,
     rc_RepeatedDeny = \<lparr>rd_Window = 600 * second, rd_MaxDeny = 1\<rparr>,
     rc_AuthFailureBurst = \<lparr>af_Window = 600 * second, af_MaxFailures = 1\<rparr>, rc_OffHoursAdmin = False\<rparr>"

definition denied :: "int64 \<Rightarrow> stored_event" where
  "denied i = sample_row\<lparr>se_ID := i, se_Event := sample_event\<lparr>Decision := ''DENY''\<rparr>\<rparr>"

subsection \<open>Properties\<close>

text \<open>
  C31: the window rules count exactly. For every principal with a hit in the fresh batch, once each
  and in order of first appearance, the repeated-deny, auth-failure and bulk-PII rules compare the
  number of that principal's hits inside the rule's own window (for bulk PII also the number of
  distinct PII columns) with the configured maximum, and the alert carries the ids of the first
  hundred of those hits; nobody else is alerted on.
\<close>

theorem window_rules_exact:
  assumes "dt_Now d w = (t, w1)" "0 < rd_Window (rc_RepeatedDeny (dt_rules d))"
    "0 < af_Window (rc_AuthFailureBurst (dt_rules d))" "0 < bp_Window (rc_BulkPII (dt_rules d))"
  shows "evalRepeatedDeny d fresh window w =
      (let hits = (\<lambda>p. hitsOf isDenyOrError (t - rd_Window (rc_RepeatedDeny (dt_rules d))) p window)
       in fireOver d RuleRepeatedDeny (\<lambda>p. rd_MaxDeny (rc_RepeatedDeny (dt_rules d)) < int (length (hits p)))
            (\<lambda>p. take 100 (map se_ID (hits p))) (touchedBy isDenyOrError fresh) w1) \<and>
    evalAuthFailureBurst d fresh window w =
      (let hits = (\<lambda>p. hitsOf isAuthFailure (t - af_Window (rc_AuthFailureBurst (dt_rules d))) p window)
       in fireOver d RuleAuthFailureBurst (\<lambda>p. af_MaxFailures (rc_AuthFailureBurst (dt_rules d)) < int (length (hits p)))
            (\<lambda>p. take 100 (map se_ID (hits p))) (touchedBy isAuthFailure fresh) w1) \<and>
    evalBulkPII d fresh window w =
      (let rule = rc_BulkPII (dt_rules d); hits = (\<lambda>p. hitsOf touchesPII (t - bp_Window rule) p window)
       in fireOver d RuleBulkPII (\<lambda>p.
            (0 < bp_MaxPIIDecisions rule \<and> bp_MaxPIIDecisions rule < int (length (hits p))) \<or>
            (0 < bp_MaxDistinctPIIColumns rule \<and> bp_MaxDistinctPIIColumns rule < int (card (columnsOf (hits p)))))
            (\<lambda>p. take 100 (map se_ID (hits p))) (touchedBy touchesPII fresh) w1)"
  using assms
  by (intro conjI; simp add: evalRepeatedDeny_def evalAuthFailureBurst_def evalBulkPII_def Let_def;
      intro conjI impI fireOver_cong; simp add: tally_counts tally_ids tally_column_count maxAlertIDs_def)

theorem window_rules_exact_witness:
  "evalRepeatedDeny (logDetector 1700000100000000000 sample_rules) [denied 5] [denied 4, denied 5] [] =
     [principalAlert RuleRepeatedDeny ''alice'' [4, 5] 1700000100000000000]"
proof -
  let ?d = "logDetector 1700000100000000000 sample_rules"
  have now: "dt_Now ?d [] = (1700000100000000000, [])"
    and pos: "0 < rd_Window (rc_RepeatedDeny (dt_rules ?d))" "0 < af_Window (rc_AuthFailureBurst (dt_rules ?d))"
      "0 < bp_Window (rc_BulkPII (dt_rules ?d))"
    by (simp_all add: logDetector_def sample_rules_def second_def)
  show ?thesis
    unfolding window_rules_exact[OF now pos, THEN conjunct1]
    by (simp add: touchedBy_def touch_def denied_def sample_row_def sample_event_def isDenyOrError_def isDecision_def
        hitsOf_def withinWindow_def UnixMicro_def fireOver_def fire_def logDetector_def sample_rules_def second_def)
qed

text \<open>
  Mass export sums exactly. Every touched (principal, datasource) is judged on the aggregate of
  its own events in the rule's window: the 64-bit sum of the rows and bytes of the completions that
  resolve to it, the numbers of completions and broad reads, and the first hundred ids.
\<close>

lemma mass_export_exact:
  assumes "dt_Now d w = (t, w1)" "0 < me_Window (rc_MassExport (dt_rules d))"
  shows "evalMassExport d fresh window w =
    (let rule = rc_MassExport (dt_rules d); info = decInfo window
     in fold (\<lambda>pd. judgeMass d rule pd (aggregateOf (massRelevant info (t - me_Window rule) pd window)))
          (massTouched info fresh) w1)"
  using assms by (auto simp: evalMassExport_def Let_def aggs_eq fun_eq_iff intro!: fold_cong)

text \<open>A decision older than the window, and its completion that returned eleven rows.\<close>

definition decided :: stored_event where
  "decided = sample_row\<lparr>se_ID := 4, se_Event := sample_event\<lparr>TSMicros := 0\<rparr>\<rparr>"

definition completed :: stored_event where
  "completed = sample_row\<lparr>se_ID := 9, se_Event := sample_event\<lparr>Kind := ''completion'', Principal := ''proxy'',
     RowsReturned := Some 11, DecisionID := Some 4\<rparr>\<rparr>"

text \<open>
  The one window read is wide enough. In a detector that was constructed, recounting over the
  rows read for the widest window gives each rule the same hits as the whole trail would.
\<close>

lemma window_read_is_wide_enough:
  assumes "NewDetector loadLocation reader deliver now rules = Inr d"
    and "win \<in> {bp_Window (rc_BulkPII rules), rd_Window (rc_RepeatedDeny rules), af_Window (rc_AuthFailureBurst rules)}"
    and "t1 \<le> t2"
  shows "hitsOf hit (t2 - win) p (EventsSince tbl (UnixMicro (t1 - dt_maxWindow d))) = hitsOf hit (t2 - win) p (table_rows tbl)"
  using assms(2,3) NewDetector_windows[OF assms(1)] by (intro hitsOf_EventsSince) auto

text \<open>
  What a poll may send. Over any world with a log of deliveries that only delivery extends, every
  alert one \<^verbatim>\<open>Inspect\<close> delivers carries at most a hundred ids and a timestamp, names one of the six
  rules, and is critical only for a mass export.
\<close>

lemma detector_alerts_bounded:
  fixes log :: "'w \<Rightarrow> alert list"
  assumes "\<And>w. log (snd (dt_Now d w)) = log w" "\<And>t w. log (snd (dt_EventsSince d t w)) = log w"
    and "\<And>a w. log (dt_Deliver d a w) = log w @ [a]"
  shows "\<exists>sent. log (snd (Inspect d fresh w)) = log w @ sent \<and>
    list_all (\<lambda>a. length (a_DecisionIDs a) \<le> 100 \<and> a_TS a \<noteq> None \<and>
      a_Rule a \<in> {RuleMassExport, RuleBulkPII, RuleOffHours, RuleRepeatedDeny, RuleAuthFailureBurst, RuleOffHoursAdmin} \<and>
      (a_Severity a = SeverityWarn \<or> a_Severity a = SeverityCritical \<and> a_Rule a = RuleMassExport)) sent"
proof -
  have "detector_client d (\<lambda>w'. \<exists>sent. log w' = log w @ sent \<and> list_all boundedAlert sent)"
  proof
    fix w' a assume "\<exists>sent. log w' = log w @ sent \<and> list_all boundedAlert sent" "boundedAlert a"
    then obtain sent where "log w' = log w @ sent" "list_all boundedAlert (sent @ [a])" by auto
    then show "\<exists>sent. log (dt_Deliver d a w') = log w @ sent \<and> list_all boundedAlert sent"
      by (intro exI[of _ "sent @ [a]"]) (simp add: assms)
  qed (simp_all add: assms)
  from detector_client.Inspect_keeps[OF this, of w fresh]
  obtain sent where "log (snd (Inspect d fresh w)) = log w @ sent" "list_all boundedAlert sent" by auto
  then show ?thesis
    by (intro exI[of _ sent]) (auto simp: boundedAlert_def maxAlertIDs_def elim!: list.pred_mono_strong)
qed

text \<open>
  C32: the production wiring meets the monitor's contract. The alerting reporter and the detector the
  command builds write nothing outside the alert prefix, so over a store, clock, webhook client and
  signer that keep their own contracts no checkpoint is lost or replaced in any run of the wired
  monitor, and \<^verbatim>\<open>auditmon verify\<close> leaves every object as it was.
\<close>

theorem wired_monitor_keeps_anchors:
  assumes "alert_env os objs out" "\<And>x w. objs (snd (sg_Sign sg x w)) = objs w"
    and "\<And>x s k w. objs (snd (sg_Verify sg x s k w)) = objs w"
    and "wireMonitor loadLocation getenv out os sg q cfg = Inr d"
  shows "monitor_deps d (objs \<circ> aw_world) \<and>
    ((sys_step d)\<^sup>*\<^sup>* s s' \<longrightarrow> keeps_anchors (objs (aw_world (world s))) (objs (aw_world (world s')))) \<and>
    (verifyOnce d db aw = Some (r, aw') \<longrightarrow> objs (aw_world aw') = objs (aw_world aw))"
proof -
  note md = wireMonitor_contract[OF assms]
  have "keeps_anchors (objs (aw_world (world s))) (objs (aw_world (world s')))" if "(sys_step d)\<^sup>*\<^sup>* s s'"
    using monitor_deps.sys_steps_keep[OF md that] by simp
  moreover have "objs (aw_world aw') = objs (aw_world aw)" if "verifyOnce d db aw = Some (r, aw')"
    using that monitor_deps.Diagnose_frame[OF md] by (auto simp: verifyOnce_def)
  ultimately show ?thesis using md by blast
qed

definition sample_config :: config where
  "sample_config =
    \<lparr>cf_Monitor = \<lparr>mc_PollInterval = 90 * second, mc_TailBatch = 2, mc_SignInterval = 3600 * second,
        mc_FullVerifyInterval = 3600 * second, mc_Bucket = ''audit'', mc_Endpoint = [], mc_KMSKeyID = [], mc_DBDSNEnv = [],
        mc_Signer = \<lparr>sn_Type = ''filekey'', sn_KeyPath = ''/k'', sn_KeyID = [], sn_AllowedKeyIDs = []\<rparr>\<rparr>,
     cf_Rules = sample_rules, cf_Alerts = \<lparr>al_DedupWindow = 900 * second, al_Sinks = [], al_ConsoleURL = []\<rparr>\<rparr>"

theorem wired_monitor_keeps_anchors_witness:
  "\<exists>d. wireMonitor (\<lambda>_. None) (\<lambda>_. []) (stillOutside 9 True) memoryStore
      (newFileKey (\<lambda>m. m) (\<lambda>m s. m = s) [1, 2, 3]) (\<lambda>_. Inr sample_table) sample_config = Inr d \<and>
    monitor_deps d (map_of \<circ> aw_world)"
proof -
  let ?sg = "newFileKey (\<lambda>m. m) (\<lambda>m s. m = s) [1, 2, 3] :: memory_store signer"
  let ?wire = "wireMonitor (\<lambda>_. None) (\<lambda>_. []) (stillOutside 9 True) memoryStore ?sg (\<lambda>_. Inr sample_table) sample_config"
  obtain d where d: "?wire = Inr d"
    by (simp add: wireMonitor_def NewSink_def NewDetector_def sample_config_def sample_rules_def rbind_def Let_def)
  have "map_of (snd (sg_Sign ?sg x w)) = map_of w" "map_of (snd (sg_Verify ?sg x s k w)) = map_of w" for x s k w
    by (simp_all add: newFileKey_def ret_def)
  from wired_monitor_keeps_anchors[OF still.alert_env_axioms this d] d show ?thesis by blast
qed

text \<open>
  A valid configuration starts and covers what it enables. Its detector is built, an off-hours
  window is a non-empty span of one day, no enabled window rule is without a maximum, and an
  off-hours-admin rule has a window to fire in.
\<close>

lemma valid_config_starts:
  assumes "Validate loadLocation c = Inr ()"
  shows "\<exists>d. NewDetector loadLocation reader deliver now (cf_Rules c) = Inr d \<and>
    pred_option (\<lambda>bw. 0 \<le> StartMinute bw \<and> StartMinute bw < EndMinute bw \<and> EndMinute bw < 1440) (dt_business d) \<and>
    (bp_Window (rc_BulkPII (cf_Rules c)) \<le> 0 \<or> 0 < bp_MaxPIIDecisions (rc_BulkPII (cf_Rules c)) \<or>
       0 < bp_MaxDistinctPIIColumns (rc_BulkPII (cf_Rules c))) \<and>
    (rd_Window (rc_RepeatedDeny (cf_Rules c)) \<le> 0 \<or> 0 < rd_MaxDeny (rc_RepeatedDeny (cf_Rules c))) \<and>
    (af_Window (rc_AuthFailureBurst (cf_Rules c)) \<le> 0 \<or> 0 < af_MaxFailures (rc_AuthFailureBurst (cf_Rules c))) \<and>
    (if rc_OffHoursAdmin (cf_Rules c) then dt_business d \<noteq> None else True)"
proof -
  let ?r = "cf_Rules c"
  from assms have rules: "validateRules loadLocation ?r = Inr ()" by (auto simp: Validate_def Let_def checkAll_ok)
  then have off: "validateOffHours loadLocation (rc_OffHours ?r) = Inr ()"
    and admin: "rc_OffHoursAdmin ?r \<Longrightarrow> oh_BusinessHours (rc_OffHours ?r) \<noteq> []"
    by (auto simp: validateRules_def checkAll_ok)
  have rest: "(bp_Window (rc_BulkPII ?r) \<le> 0 \<or> 0 < bp_MaxPIIDecisions (rc_BulkPII ?r) \<or>
       0 < bp_MaxDistinctPIIColumns (rc_BulkPII ?r))"
    "(rd_Window (rc_RepeatedDeny ?r) \<le> 0 \<or> 0 < rd_MaxDeny (rc_RepeatedDeny ?r))"
    "(af_Window (rc_AuthFailureBurst ?r) \<le> 0 \<or> 0 < af_MaxFailures (rc_AuthFailureBurst ?r))"
    using rules by (auto simp: validateRules_def checkAll_ok)
  show ?thesis
  proof (cases "oh_BusinessHours (rc_OffHours ?r) = []")
    case True
    with admin rest show ?thesis by (auto simp: NewDetector_def Let_def rbind_def)
  next
    case False
    with off obtain bw where bw: "Parse loadLocation (rc_OffHours ?r) = Inr bw"
      by (auto simp: validateOffHours_def rbind_def split: sum.splits)
    with False rest Parse_window[OF bw] show ?thesis by (auto simp: NewDetector_def Let_def rbind_def)
  qed
qed

end
