(* ===== verification/Sha1.thy ===== *)
theory Sha1
  imports Sha256
begin

text \<open>
  SHA-1 (FIPS 180-4), Go's \<^verbatim>\<open>crypto/sha1\<close>, for the native password digest of the MySQL
  handshake. Padding and block splitting are those of SHA-256.
\<close>

unbundle bit_operations_syntax

definition rol32 :: "nat \<Rightarrow> 32 word \<Rightarrow> 32 word" where
  "rol32 n w = ror32 (32 - n) w"

text \<open>The schedule, newest word first.\<close>

fun sha1_schedule :: "nat \<Rightarrow> 32 word list \<Rightarrow> 32 word list" where
  "sha1_schedule 0 ws = ws"
| "sha1_schedule (Suc n) ws =
    sha1_schedule n (rol32 1 (ws ! 2 XOR ws ! 7 XOR ws ! 13 XOR ws ! 15) # ws)"

type_synonym sha1_state = "32 word \<times> 32 word \<times> 32 word \<times> 32 word \<times> 32 word"

definition sha1_f :: "nat \<Rightarrow> 32 word \<Rightarrow> 32 word \<Rightarrow> 32 word \<Rightarrow> 32 word" where
  "sha1_f t b c d =
    (if t < 20 then (b AND c) OR (NOT b AND d)
     else if t < 40 \<or> 60 \<le> t then b XOR c XOR d
     else (b AND c) OR (b AND d) OR (c AND d))"

definition sha1_K :: "nat \<Rightarrow> 32 word" where
  "sha1_K t = (if t < 20 then 1518500249 else if t < 40 then 1859775393 else if t < 60 then 2400959708 else 3395469782)"

fun sha1_round :: "nat \<times> 32 word \<Rightarrow> sha1_state \<Rightarrow> sha1_state" where
  "sha1_round (t, w) (a, b, c, d, e) =
    (rol32 5 a + sha1_f t b c d + e + w + sha1_K t, a, rol32 30 b, c, d)"

fun sha1_add :: "sha1_state \<Rightarrow> sha1_state \<Rightarrow> sha1_state" where
  "sha1_add (a, b, c, d, e) (a', b', c', d', e') = (a + a', b + b', c + c', d + d', e + e')"

definition sha1_block :: "sha1_state \<Rightarrow> bytes \<Rightarrow> sha1_state" where
  "sha1_block st blk =
    sha1_add st (fold sha1_round (zip [0..<80] (rev (sha1_schedule 64 (rev (block_words 16 blk))))) st)"

fun sha1_blocks :: "nat \<Rightarrow> bytes \<Rightarrow> sha1_state \<Rightarrow> sha1_state" where
  "sha1_blocks 0 bs st = st"
| "sha1_blocks (Suc n) bs st = sha1_blocks n (drop 64 bs) (sha1_block st (take 64 bs))"

fun sha1_out :: "sha1_state \<Rightarrow> bytes" where
  "sha1_out (a, b, c, d, e) = concat (map (be_bytes 4) [a, b, c, d, e])"

definition sha1 :: "bytes \<Rightarrow> bytes" where
  "sha1 m =
    (let p = sha256_pad m
     in sha1_out (sha1_blocks (length p div 64) p (1732584193, 4023233417, 2562383102, 271733878, 3285377520)))"

lemma length_sha1 [simp]: "length (sha1 m) = 20"
  by (cases "sha1_blocks (length (sha256_pad m) div 64) (sha256_pad m)
      (1732584193, 4023233417, 2562383102, 271733878, 3285377520)" rule: sha1_out.cases) (simp add: sha1_def Let_def)

end
