(* ===== verification/Mysqlwire.thy ===== *)
theory Mysqlwire
  imports Sha1
begin

text \<open>
  The MySQL wire primitives of \<^verbatim>\<open>mysqlwire/mysql.go\<close>: packet framing, length-encoded integers and
  strings, the handshake messages, the password digests, prepared-statement and column metadata, and
  text rows. A reader over a payload is the bytes it has not read yet; a stream is the bytes that will
  still arrive on it. Unsigned integers are words of their width.
\<close>

unbundle bit_operations_syntax

subsection \<open>Constants\<close>

definition CapLongPassword :: "32 word" where "CapLongPassword = 0x00000001"
definition CapConnectWithDB :: "32 word" where "CapConnectWithDB = 0x00000008"
definition CapProtocol41 :: "32 word" where "CapProtocol41 = 0x00000200"
definition CapSSL :: "32 word" where "CapSSL = 0x00000800"
definition CapTransactions :: "32 word" where "CapTransactions = 0x00002000"
definition CapSecureConn :: "32 word" where "CapSecureConn = 0x00008000"
definition CapMultiStatements :: "32 word" where "CapMultiStatements = 0x00010000"
definition CapMultiResults :: "32 word" where "CapMultiResults = 0x00020000"
definition CapPluginAuth :: "32 word" where "CapPluginAuth = 0x00080000"
definition CapPluginAuthLenenc :: "32 word" where "CapPluginAuthLenenc = 0x00200000"
definition CapSessionTrack :: "32 word" where "CapSessionTrack = 0x00800000"
definition CapDeprecateEOF :: "32 word" where "CapDeprecateEOF = 0x01000000"

lemmas cap_defs = CapLongPassword_def CapConnectWithDB_def CapProtocol41_def CapSSL_def CapTransactions_def
  CapSecureConn_def CapMultiStatements_def CapMultiResults_def CapPluginAuth_def CapPluginAuthLenenc_def
  CapSessionTrack_def CapDeprecateEOF_def

definition hasCap :: "32 word \<Rightarrow> 32 word \<Rightarrow> bool" where
  "hasCap caps c \<longleftrightarrow> caps AND c \<noteq> 0"

definition ComQuery :: byte where "ComQuery = 0x03"
definition ComStmtPrepare :: byte where "ComStmtPrepare = 0x16"

definition MaxPacketPayload :: int where "MaxPacketPayload = 0xFFFFFF"

datatype wire_error =
  EOF
| UnexpectedEOF
| PacketTooLarge int int
| BadLenencPrefix byte
| UnsupportedProtocol byte
| ScrambleTruncated
| BadPrepareHeader byte
| BadFixedLength "64 word"
| NegativeColumnCount
| TrailingBytes
| EmptyScramble
| BadPublicKey string

subsection \<open>Packets\<close>

text \<open>\<^verbatim>\<open>io.ReadFull\<close> for \<open>n\<close> bytes: what it returns and the stream after it.\<close>

definition ReadFull :: "nat \<Rightarrow> bytes \<Rightarrow> (wire_error, bytes) result \<times> bytes" where
  "ReadFull n s =
    (if n \<le> length s then (Inr (take n s), drop n s)
     else if s = [] then (Inl EOF, []) else (Inl UnexpectedEOF, []))"

text \<open>The sequence number, the payload or the error, and the stream behind what was read.\<close>

definition ReadPacketLimited :: "int \<Rightarrow> bytes \<Rightarrow> byte \<times> (wire_error, bytes) result \<times> bytes" where
  "ReadPacketLimited maxPayload s =
    (case ReadFull 4 s of
       (Inl e, s1) \<Rightarrow> (0, Inl e, s1)
     | (Inr hdr, s1) \<Rightarrow>
        let n = unat (hdr ! 0) + 2 ^ 8 * unat (hdr ! 1) + 2 ^ 16 * unat (hdr ! 2); sq = hdr ! 3
        in if maxPayload < 0 \<or> maxPayload < int n then (sq, Inl (PacketTooLarge (int n) maxPayload), s1)
           else (sq, ReadFull n s1))"

definition ReadPacket :: "bytes \<Rightarrow> byte \<times> (wire_error, bytes) result \<times> bytes" where
  "ReadPacket = ReadPacketLimited MaxPacketPayload"

text \<open>The bytes a packet puts on a writer that accepts them.\<close>

definition WritePacket :: "byte \<Rightarrow> bytes \<Rightarrow> (wire_error, bytes) result" where
  "WritePacket sq payload =
    (let n = length payload
     in if MaxPacketPayload < int n then Inl (PacketTooLarge (int n) MaxPacketPayload)
        else Inr ([word_of_nat n, word_of_nat (n div 2 ^ 8), word_of_nat (n div 2 ^ 16), sq] @ payload))"

definition ComQueryPayload :: "string \<Rightarrow> bytes" where
  "ComQueryPayload sql = ComQuery # str_bytes sql"

definition ComStmtPreparePayload :: "string \<Rightarrow> bytes" where
  "ComStmtPreparePayload sql = ComStmtPrepare # str_bytes sql"

definition AppendLenenc :: "bytes \<Rightarrow> 64 word \<Rightarrow> bytes" where
  "AppendLenenc dst v =
    (if v < 251 then dst @ [ucast v]
     else if v < 65536 then dst @ [0xfc] @ le_bytes 2 v
     else if v < 16777216 then dst @ [0xfd, ucast v, ucast (drop_bit 8 v), ucast (drop_bit 16 v)]
     else dst @ [0xfe] @ le_bytes 8 v)"

definition AppendLenencStr :: "bytes \<Rightarrow> string \<Rightarrow> bytes" where
  "AppendLenencStr dst s = AppendLenenc dst (word_of_nat (length s)) @ str_bytes s"

subsection \<open>Server messages\<close>

definition serverGreetingCapabilities :: "32 word" where
  "serverGreetingCapabilities = CapLongPassword OR CapProtocol41 OR CapSecureConn OR CapPluginAuth OR
     CapTransactions OR CapDeprecateEOF OR CapMultiStatements OR CapMultiResults"

definition greetingCapabilities :: "bool \<Rightarrow> 32 word" where
  "greetingCapabilities connectWithDB =
    (if connectWithDB then serverGreetingCapabilities OR CapConnectWithDB else serverGreetingCapabilities)"

text \<open>Slicing the scramble panics when it is shorter than twenty bytes.\<close>

definition serverGreeting :: "32 word \<Rightarrow> bytes \<Rightarrow> string \<Rightarrow> 32 word \<Rightarrow> bytes option" where
  "serverGreeting connID scramble serverVersion caps =
    (if length scramble < 20 then None
     else Some ([10] @ str_bytes serverVersion @ [0] @ le_bytes 4 connID @ take 8 scramble @ [0] @
       [ucast caps, ucast (drop_bit 8 caps)] @ [45] @ [0x02, 0x00] @ [ucast (drop_bit 16 caps), ucast (drop_bit 24 caps)] @
       [21] @ replicate 10 0 @ take 12 (drop 8 scramble) @ [0] @ str_bytes ''mysql_native_password'' @ [0]))"

definition ServerGreeting :: "32 word \<Rightarrow> bytes \<Rightarrow> string \<Rightarrow> bool \<Rightarrow> bytes option" where
  "ServerGreeting connID scramble serverVersion connectWithDB =
     serverGreeting connID scramble serverVersion (greetingCapabilities connectWithDB)"

definition ServerGreetingSSL :: "32 word \<Rightarrow> bytes \<Rightarrow> string \<Rightarrow> bool \<Rightarrow> bytes option" where
  "ServerGreetingSSL connID scramble serverVersion connectWithDB =
     serverGreeting connID scramble serverVersion (greetingCapabilities connectWithDB OR CapSSL)"

definition OKPacket :: bytes where
  "OKPacket = [0x00, 0x00, 0x00, 0x02, 0x00, 0x00, 0x00]"

definition ErrPacketState :: "int \<Rightarrow> string \<Rightarrow> string \<Rightarrow> bytes" where
  "ErrPacketState code sqlState msg =
    [0xff, word_of_int code, word_of_int (code div 2 ^ 8), byte_of_char (CHR ''#'')] @
    str_bytes (take 5 (sqlState @ replicate (5 - length sqlState) (CHR ''0''))) @ str_bytes msg"

definition ErrPacket :: "int \<Rightarrow> string \<Rightarrow> bytes" where
  "ErrPacket code msg = ErrPacketState code ''HY000'' msg"

definition AuthSwitchClearPassword :: bytes where
  "AuthSwitchClearPassword = [0xfe] @ str_bytes ''mysql_clear_password'' @ [0]"

text \<open>The scramble drawn from twenty random bytes.\<close>

definition Scramble :: "bytes \<Rightarrow> bytes" where
  "Scramble random = map (\<lambda>b. 0x21 + b mod 94) (take 20 random)"

definition AuthSwitchCachingSHA2 :: "bytes \<Rightarrow> bytes" where
  "AuthSwitchCachingSHA2 scramble = [0xfe] @ str_bytes ''caching_sha2_password'' @ [0] @ scramble @ [0]"

definition AuthMoreData :: byte where "AuthMoreData = 0x01"

definition AuthMoreDataPacket :: "byte \<Rightarrow> bytes" where
  "AuthMoreDataPacket marker = [AuthMoreData, marker]"

definition ParseClearPassword :: "bytes \<Rightarrow> string" where
  "ParseClearPassword payload =
    bytes_str (if payload \<noteq> [] \<and> last payload = 0 then butlast payload else payload)"

subsection \<open>Client messages\<close>

definition handshakeHead :: "32 word \<Rightarrow> bytes" where
  "handshakeHead caps = le_bytes 4 caps @ le_bytes 4 (0x01000000 :: 32 word) @ [45] @ replicate 23 0"

definition ClientHandshakeResponse :: "32 word \<Rightarrow> string \<Rightarrow> bytes \<Rightarrow> bytes" where
  "ClientHandshakeResponse caps user authResp =
    handshakeHead caps @ str_bytes user @ [0] @ [word_of_nat (length authResp)] @ authResp @
    (if hasCap caps CapPluginAuth then str_bytes ''mysql_native_password'' @ [0] else [])"

definition SSLRequest :: "32 word \<Rightarrow> bytes" where
  "SSLRequest caps = handshakeHead caps"

definition ClientCapabilities :: "bytes \<Rightarrow> 32 word" where
  "ClientCapabilities payload = (if length payload < 4 then 0 else le_val (take 4 payload))"

definition LooksLikeSSLRequest :: "bytes \<Rightarrow> bool" where
  "LooksLikeSSLRequest payload \<longleftrightarrow>
     4 \<le> length payload \<and> length payload \<le> 32 \<and> hasCap (ClientCapabilities payload) CapSSL"

definition GreetingOffersSSL :: "bytes \<Rightarrow> bool" where
  "GreetingOffersSSL payload =
    (let i = 1 + length (takeWhile (\<lambda>b. b \<noteq> 0) (drop 1 payload)) + 1 + (4 + 8 + 1)
     in if length payload < i + 4 then False
        else let capLow = le_val (take 2 (drop i payload)) :: 32 word
          in if length payload < i + 5 + 2 then hasCap capLow CapSSL
             else let capHigh = le_val (take 2 (drop (i + 5) payload)) :: 32 word
               in hasCap (capLow OR push_bit 16 capHigh) CapSSL)"

definition ErrString :: "bytes \<Rightarrow> string" where
  "ErrString payload =
    (let i = (if 3 < length payload \<and> payload ! 3 = byte_of_char (CHR ''#'') then 3 + 6 else 3)
     in if length payload < i then ''error'' else bytes_str (drop i payload))"

subsection \<open>The payload reader\<close>

type_synonym 'a reader = "bytes \<Rightarrow> (wire_error, 'a \<times> bytes) result"

definition pret :: "'a \<Rightarrow> 'a reader" where
  "pret a bs = Inr (a, bs)"

definition pbind :: "'a reader \<Rightarrow> ('a \<Rightarrow> 'b reader) \<Rightarrow> 'b reader" where
  "pbind m f bs = rbind (m bs) (\<lambda>(a, rest). f a rest)"

definition fail :: "wire_error \<Rightarrow> 'a reader" where
  "fail e bs = Inl e"

definition HasRemaining :: "bytes \<Rightarrow> bool" where
  "HasRemaining bs \<longleftrightarrow> bs \<noteq> []"

definition U8 :: "byte reader" where
  "U8 bs = (case bs of [] \<Rightarrow> Inl UnexpectedEOF | b # rest \<Rightarrow> Inr (b, rest))"

definition Bytes :: "int \<Rightarrow> bytes reader" where
  "Bytes n bs =
    (if n < 0 \<or> int (length bs) < n then Inl UnexpectedEOF
     else Inr (take (nat n) bs, drop (nat n) bs))"

definition Skip :: "int \<Rightarrow> unit reader" where
  "Skip n bs = (if n < 0 \<or> int (length bs) < n then Inl UnexpectedEOF else Inr ((), drop (nat n) bs))"

definition U16 :: "16 word reader" where
  "U16 = pbind (Bytes 2) (\<lambda>b. pret (le_val b))"

definition U32 :: "32 word reader" where
  "U32 = pbind (Bytes 4) (\<lambda>b. pret (le_val b))"

definition Cstr :: "string reader" where
  "Cstr bs =
    (let s = takeWhile (\<lambda>b. b \<noteq> 0) bs
     in if length s = length bs then Inl UnexpectedEOF else Inr (bytes_str s, drop (length s + 1) bs))"

definition Lenenc :: "64 word reader" where
  "Lenenc = pbind U8 (\<lambda>first.
     if first = 0xfc then pbind (Bytes 2) (\<lambda>b. pret (le_val b))
     else if first = 0xfd then
       pbind (Bytes 3) (\<lambda>b. pret (ucast (b ! 0) OR push_bit 8 (ucast (b ! 1)) OR push_bit 16 (ucast (b ! 2))))
     else if first = 0xfe then pbind (Bytes 8) (\<lambda>b. pret (le_val b))
     else if first = 0xfb \<or> first = 0xff then fail (BadLenencPrefix first)
     else pret (ucast first))"

definition LenencStr :: "string reader" where
  "LenencStr = pbind Lenenc (\<lambda>n bs.
     if length bs < unat n then Inl UnexpectedEOF
     else pbind (Bytes (int (unat n))) (\<lambda>b. pret (bytes_str b)) bs)"

definition RowValue :: "string option reader" where
  "RowValue bs =
    (if \<not> HasRemaining bs then Inl UnexpectedEOF
     else if hd bs = 0xfb then Inr (None, tl bs)
     else pbind LenencStr (\<lambda>v. pret (Some v)) bs)"

subsection \<open>Handshake parsing\<close>

record handshake_response =
  hr_Capabilities :: "32 word"
  hr_Username :: string
  hr_Database :: string
  hr_AuthResponse :: bytes
  hr_AuthPlugin :: string

definition parseAuthResponse :: "nat \<Rightarrow> 32 word \<Rightarrow> bytes reader" where
  "parseAuthResponse payloadLen caps =
    (if hasCap caps CapPluginAuthLenenc then
       pbind Lenenc (\<lambda>n. if payloadLen < unat n then fail UnexpectedEOF else Bytes (int (unat n)))
     else if hasCap caps CapSecureConn then pbind U8 (\<lambda>n. Bytes (int (unat n)))
     else pbind Cstr (\<lambda>s. pret (str_bytes s)))"

definition parsePlugin :: "32 word \<Rightarrow> bytes \<Rightarrow> string" where
  "parsePlugin caps bs =
    (if hasCap caps CapPluginAuth \<and> HasRemaining bs
     then case Cstr bs of Inr (s, rest) \<Rightarrow> s | Inl e \<Rightarrow> [] else [])"

definition ParseHandshakeResponse :: "bytes \<Rightarrow> bool \<Rightarrow> (wire_error, handshake_response) result" where
  "ParseHandshakeResponse payload connectWithDBSupported =
    map_sum id fst (pbind U32 (\<lambda>caps.
     pbind (Skip (4 + 1 + 23)) (\<lambda>_.
     pbind Cstr (\<lambda>username.
     pbind (parseAuthResponse (length payload) caps) (\<lambda>authResponse.
     pbind (\<lambda>bs. if connectWithDBSupported \<and> hasCap caps CapConnectWithDB \<and> HasRemaining bs
                 then Cstr bs else pret [] bs) (\<lambda>database bs.
       pret \<lparr>hr_Capabilities = caps, hr_Username = username, hr_Database = database,
             hr_AuthResponse = authResponse, hr_AuthPlugin = parsePlugin caps bs\<rparr> bs))))) payload)"

record greeting =
  gr_ServerVersion :: string
  gr_ConnectionID :: "32 word"
  gr_Scramble :: bytes
  gr_AuthPlugin :: string
  gr_Capabilities :: "32 word"

definition nativePlugin :: string where
  "nativePlugin = ''mysql_native_password''"

definition parseGreetingTail :: "string \<Rightarrow> 32 word \<Rightarrow> bytes \<Rightarrow> 32 word \<Rightarrow> greeting reader" where
  "parseGreetingTail serverVersion connectionID part1 capLower =
     pbind (Skip (1 + 2)) (\<lambda>_.
     pbind (Bytes 2) (\<lambda>capUpper. let caps = capLower OR push_bit 16 (le_val capUpper) in
     pbind U8 (\<lambda>authDataLen.
     pbind (Skip 10) (\<lambda>_.
     pbind (Bytes (max 13 (int (unat authDataLen) - 8))) (\<lambda>part2.
       if length part2 < 12 then fail ScrambleTruncated
       else pbind (\<lambda>bs. if hasCap caps CapPluginAuth \<and> HasRemaining bs then Cstr bs else pret nativePlugin bs)
         (\<lambda>plugin. pret \<lparr>gr_ServerVersion = serverVersion, gr_ConnectionID = connectionID,
            gr_Scramble = part1 @ take 12 part2, gr_AuthPlugin = plugin, gr_Capabilities = caps\<rparr>))))))"

definition ParseHandshakeV10 :: "bytes \<Rightarrow> (wire_error, greeting) result" where
  "ParseHandshakeV10 payload =
    map_sum id fst (pbind U8 (\<lambda>protocol.
     if protocol \<noteq> 10 then fail (UnsupportedProtocol protocol)
     else pbind Cstr (\<lambda>serverVersion.
     pbind U32 (\<lambda>connectionID.
     pbind (Bytes 8) (\<lambda>part1.
     pbind (Skip 1) (\<lambda>_.
     pbind (Bytes 2) (\<lambda>capLowerBytes bs. let capLower = le_val capLowerBytes in
       if \<not> HasRemaining bs
       then Inr (\<lparr>gr_ServerVersion = serverVersion, gr_ConnectionID = connectionID, gr_Scramble = part1,
                  gr_AuthPlugin = nativePlugin, gr_Capabilities = capLower\<rparr>, bs)
       else parseGreetingTail serverVersion connectionID part1 capLower bs)))))) payload)"

subsection \<open>Password digests\<close>

definition xorBytes :: "bytes \<Rightarrow> bytes \<Rightarrow> bytes" where
  "xorBytes = map2 (XOR)"

definition NativePassword :: "string \<Rightarrow> bytes \<Rightarrow> bytes" where
  "NativePassword password scramble =
    (if password = [] then []
     else let stage1 = sha1 (str_bytes password); stage2 = sha1 stage1; seed = sha1 (scramble @ stage2)
       in xorBytes stage1 seed)"

definition CachingSHA2Password :: "string \<Rightarrow> bytes \<Rightarrow> bytes" where
  "CachingSHA2Password password scramble =
    (if password = [] then []
     else let message1 = sha256 (str_bytes password); message1Hash = sha256 message1;
              message2 = sha256 (message1Hash @ scramble)
       in xorBytes message1 message2)"

text \<open>
  The obfuscated password. \<^verbatim>\<open>crypto/x509\<close> and \<^verbatim>\<open>crypto/rsa\<close> decode the key and
  encrypt: \<open>loadKey\<close> and \<open>encryptOAEP\<close> stand for them.
\<close>

definition obfuscate :: "string \<Rightarrow> bytes \<Rightarrow> bytes" where
  "obfuscate password scramble =
    (let plain = str_bytes password @ [0]
     in map (\<lambda>i. plain ! i XOR scramble ! (i mod length scramble)) [0..<length plain])"

definition EncryptCachingSHA2Password :: "(bytes \<Rightarrow> (string, 'k) result) \<Rightarrow> ('k \<Rightarrow> bytes \<Rightarrow> (wire_error, bytes) result) \<Rightarrow>
    string \<Rightarrow> bytes \<Rightarrow> bytes \<Rightarrow> (wire_error, bytes) result" where
  "EncryptCachingSHA2Password loadKey encryptOAEP password scramble pubKeyPEM =
    (if scramble = [] then Inl EmptyScramble
     else case loadKey pubKeyPEM of
       Inl e \<Rightarrow> Inl (BadPublicKey e)
     | Inr pub \<Rightarrow> encryptOAEP pub (obfuscate password scramble))"

definition TargetDbHandshakeResponse :: "32 word \<Rightarrow> string \<Rightarrow> bytes \<Rightarrow> string \<Rightarrow> string \<Rightarrow> bytes" where
  "TargetDbHandshakeResponse caps user authResp database authPlugin =
    (let plugin = (if authPlugin = [] then nativePlugin else authPlugin)
     in handshakeHead caps @ str_bytes user @ [0] @ [word_of_nat (length authResp)] @ authResp @
        (if hasCap caps CapConnectWithDB \<and> database \<noteq> [] then str_bytes database @ [0] else []) @
        (if hasCap caps CapPluginAuth then str_bytes plugin @ [0] else []))"

subsection \<open>Prepared statements, columns and rows\<close>

record stmt_prepare_ok =
  po_StmtID :: "32 word"
  po_NumColumns :: nat
  po_NumParams :: nat

definition ParseStmtPrepareOK :: "bytes \<Rightarrow> (wire_error, stmt_prepare_ok) result" where
  "ParseStmtPrepareOK payload =
    (if length payload < 12 then Inl UnexpectedEOF
     else map_sum id fst (pbind U8 (\<lambda>status.
       if status \<noteq> 0x00 then fail (BadPrepareHeader status)
       else pbind U32 (\<lambda>stmtID. pbind U16 (\<lambda>numColumns. pbind U16 (\<lambda>numParams.
         pret \<lparr>po_StmtID = stmtID, po_NumColumns = unat numColumns, po_NumParams = unat numParams\<rparr>)))) payload))"

definition StmtID :: "bytes \<Rightarrow> (wire_error, 32 word) result" where
  "StmtID payload = (if length payload < 5 then Inl UnexpectedEOF else Inr (le_val (take 4 (drop 1 payload))))"

record column_definition =
  cd_Name :: string
  cd_Charset :: "16 word"
  cd_ColumnLength :: "32 word"
  cd_Type :: byte
  cd_Flags :: "16 word"
  cd_Decimals :: byte

primrec skipLenencStrs :: "nat \<Rightarrow> unit reader" where
  "skipLenencStrs 0 = pret ()"
| "skipLenencStrs (Suc n) = pbind LenencStr (\<lambda>_. skipLenencStrs n)"

definition ParseColumnDefinition :: "bytes \<Rightarrow> (wire_error, column_definition) result" where
  "ParseColumnDefinition payload =
    map_sum id fst (pbind (skipLenencStrs 4) (\<lambda>_.
     pbind LenencStr (\<lambda>name.
     pbind LenencStr (\<lambda>_.
     pbind Lenenc (\<lambda>n. if n \<noteq> 0x0c then fail (BadFixedLength n)
     else pbind U16 (\<lambda>charset.
     pbind U32 (\<lambda>columnLength.
     pbind U8 (\<lambda>typ.
     pbind U16 (\<lambda>flags.
     pbind U8 (\<lambda>decimals.
     pbind (Skip 2) (\<lambda>_.
       pret \<lparr>cd_Name = name, cd_Charset = charset, cd_ColumnLength = columnLength, cd_Type = typ,
             cd_Flags = flags, cd_Decimals = decimals\<rparr>)))))))))) payload)"

definition ParseColumnName :: "bytes \<Rightarrow> (wire_error, string) result" where
  "ParseColumnName payload = rbind (ParseColumnDefinition payload) (\<lambda>def. Inr (cd_Name def))"

primrec rowValues :: "nat \<Rightarrow> string option list reader" where
  "rowValues 0 = pret []"
| "rowValues (Suc n) = pbind RowValue (\<lambda>v. pbind (rowValues n) (\<lambda>vs. pret (v # vs)))"

definition ParseTextRow :: "bytes \<Rightarrow> int \<Rightarrow> (wire_error, string option list) result" where
  "ParseTextRow payload columnCount =
    (if columnCount < 0 then Inl NegativeColumnCount
     else rbind (rowValues (nat columnCount) payload) (\<lambda>(values, rest).
       if HasRemaining rest then Inl TrailingBytes else Inr values))"

definition appendRowValue :: "string option \<Rightarrow> bytes \<Rightarrow> bytes" where
  "appendRowValue v b = (case v of None \<Rightarrow> b @ [0xfb] | Some s \<Rightarrow> AppendLenencStr b s)"

definition TextRowPayload :: "string option list \<Rightarrow> bytes" where
  "TextRowPayload values = fold appendRowValue values []"

definition IsResultTerminator :: "bytes \<Rightarrow> bool" where
  "IsResultTerminator payload \<longleftrightarrow> payload \<noteq> [] \<and> hd payload = 0xfe \<and> length payload < 9"

subsection \<open>Reading back what was written\<close>

lemma pret_eq [simp]: "pret a bs = Inr (a, bs)"
  by (simp add: pret_def)

lemma fail_eq [simp]: "fail e bs = Inl e"
  by (simp add: fail_def)

lemma U8_Cons [simp]: "U8 (b # rest) = Inr (b, rest)"
  by (simp add: U8_def)

lemma Bytes_append [simp]: "int (length b) = n \<Longrightarrow> Bytes n (b @ rest) = Inr (b, rest)"
  by (auto simp: Bytes_def)

lemma Bytes_Cons: "0 \<le> n \<Longrightarrow> Bytes n bs = Inr (b, rest) \<Longrightarrow> Bytes (n + 1) (x # bs) = Inr (x # b, rest)"
  by (auto simp: Bytes_def nat_add_distrib split: if_splits)

lemma Skip_append [simp]: "int (length b) = n \<Longrightarrow> Skip n (b @ rest) = Inr ((), rest)"
  by (auto simp: Skip_def)

lemma U32_le_bytes [simp]: "U32 (le_bytes 4 w @ rest) = Inr (w, rest)"
  by (simp add: U32_def pbind_def le_val_le_bytes take_bit_word_eq_self)

lemma U16_le_bytes [simp]: "U16 (le_bytes 2 w @ rest) = Inr (w, rest)"
  by (simp add: U16_def pbind_def le_val_le_bytes take_bit_word_eq_self)

definition nul_free :: "string \<Rightarrow> bool" where
  "nul_free s \<longleftrightarrow> 0 \<notin> set (str_bytes s)"

lemma takeWhile_nul_free: "nul_free s \<Longrightarrow> takeWhile (\<lambda>b. b \<noteq> 0) (str_bytes s @ 0 # rest) = str_bytes s"
  by (subst takeWhile_append2) (auto simp: nul_free_def)

lemma Cstr_append [simp]: "nul_free s \<Longrightarrow> Cstr (str_bytes s @ 0 # rest) = Inr (s, rest)"
  by (simp add: Cstr_def takeWhile_nul_free)

lemma take_bit_small:
  assumes "unat v < 2 ^ k"
  shows "take_bit k (v :: 'a::len word) = v"
  using assms by (simp add: word_unat_eq_iff unsigned_take_bit_eq take_bit_nat_eq_self)

lemma three_bytes: "[ucast v, ucast (drop_bit 8 v), ucast (drop_bit 16 v)] = le_bytes 3 (v :: 64 word)"
  by (simp add: numeral_3_eq_3 drop_bit_drop_bit)

lemma three_bytes_val:
  "ucast (b ! 0) OR push_bit 8 (ucast (b ! Suc 0)) OR push_bit 16 (ucast (b ! 2)) = (le_val b :: 64 word)"
  if "length b = 3" for b :: bytes
proof -
  from that obtain x y z where "b = [x, y, z]" by (auto simp: numeral_3_eq_3 length_Suc_conv)
  then show ?thesis by (simp add: push_bit_or push_bit_push_bit or.assoc)
qed

lemma AppendLenenc_Nil:
  "AppendLenenc dst v = dst @ AppendLenenc [] v"
  by (simp add: AppendLenenc_def)

lemma AppendLenenc_cases:
  obtains "v < 251" "AppendLenenc [] v = [ucast v]"
  | "251 \<le> v" "v < 65536" "AppendLenenc [] v = 0xfc # le_bytes 2 v"
  | "65536 \<le> v" "v < 16777216" "AppendLenenc [] v = 0xfd # le_bytes 3 v"
  | "16777216 \<le> v" "AppendLenenc [] v = 0xfe # le_bytes 8 v"
proof -
  have "AppendLenenc [] v = (if v < 251 then [ucast v] else if v < 65536 then 0xfc # le_bytes 2 v
      else if v < 16777216 then 0xfd # le_bytes 3 v else 0xfe # le_bytes 8 v)"
    by (simp add: AppendLenenc_def three_bytes)
  then show thesis using that by (metis not_less)
qed

lemma small_byte:
  assumes "v < (251 :: 64 word)"
  shows "unat (ucast v :: byte) = unat v" "ucast (ucast v :: byte) = v"
    "(ucast v :: byte) \<notin> {0xfb, 0xfc, 0xfd, 0xfe, 0xff}"
proof -
  from assms have lt: "unat v < 251" by (simp add: word_less_nat_alt)
  then show u: "unat (ucast v :: byte) = unat v"
    by (simp add: unsigned_ucast_eq take_bit_nat_eq_self)
  then show "ucast (ucast v :: byte) = v"
    using lt by (simp add: word_unat_eq_iff unsigned_ucast_eq take_bit_small take_bit_nat_eq_self)
  show "(ucast v :: byte) \<notin> {0xfb, 0xfc, 0xfd, 0xfe, 0xff}"
    using u lt by (auto simp: word_unat_eq_iff)
qed

lemma Lenenc_AppendLenenc [simp]: "Lenenc (AppendLenenc [] v @ rest) = Inr (v, rest)"
proof (cases v rule: AppendLenenc_cases)
  case 1
  then show ?thesis using small_byte[OF 1(1)] by (auto simp: Lenenc_def pbind_def)
next
  case 2
  then have "unat v < 2 ^ 16" by (simp add: word_less_nat_alt)
  with 2 show ?thesis by (simp add: Lenenc_def pbind_def le_val_le_bytes take_bit_small)
next
  case 3
  then have "unat v < 2 ^ 24" by (simp add: word_less_nat_alt)
  with 3 show ?thesis
    by (simp add: Lenenc_def pbind_def three_bytes_val le_val_le_bytes take_bit_small del: le_bytes.simps)
next
  case 4
  then show ?thesis by (simp add: Lenenc_def pbind_def le_val_le_bytes take_bit_word_eq_self)
qed

lemma LenencStr_AppendLenencStr [simp]:
  "length s < 2 ^ 64 \<Longrightarrow> LenencStr (AppendLenencStr [] s @ rest) = Inr (s, rest)"
  by (simp add: LenencStr_def AppendLenencStr_def pbind_def unat_of_nat)

subsection \<open>Rows\<close>

definition encodeValue :: "string option \<Rightarrow> bytes" where
  "encodeValue v = (case v of None \<Rightarrow> [0xfb] | Some s \<Rightarrow> AppendLenencStr [] s)"

lemma TextRowPayload_concat: "TextRowPayload vs = concat (map encodeValue vs)"
proof -
  have "appendRowValue v b = b @ encodeValue v" for v b
    using AppendLenenc_Nil[of b] by (auto simp: appendRowValue_def encodeValue_def AppendLenencStr_def split: option.splits)
  then have "fold appendRowValue vs b = b @ concat (map encodeValue vs)" for b
    by (induction vs arbitrary: b) auto
  then show ?thesis by (simp add: TextRowPayload_def)
qed

lemma AppendLenenc_hd: "AppendLenenc [] v \<noteq> [] \<and> hd (AppendLenenc [] v) \<notin> {0xfb, 0xff}"
  by (cases v rule: AppendLenenc_cases) (use small_byte[of v] in auto)

lemma encodeValue_Some: "encodeValue (Some s) = AppendLenenc [] (word_of_nat (length s)) @ str_bytes s"
  by (simp add: encodeValue_def AppendLenencStr_def)

lemma RowValue_encode:
  assumes "pred_option (\<lambda>s. length s < 2 ^ 64) v"
  shows "RowValue (encodeValue v @ rest) = Inr (v, rest)"
proof (cases v)
  case None
  then show ?thesis by (simp add: encodeValue_def RowValue_def HasRemaining_def)
next
  case (Some s)
  with assms AppendLenenc_hd[of "word_of_nat (length s)"] LenencStr_AppendLenencStr[of s rest]
  show ?thesis
    by (auto simp: encodeValue_Some AppendLenencStr_def RowValue_def HasRemaining_def pbind_def hd_append)
qed

lemma rowValues_encode:
  "list_all (pred_option (\<lambda>s. length s < 2 ^ 64)) vs \<Longrightarrow>
   rowValues (length vs) (concat (map encodeValue vs) @ rest) = Inr (vs, rest)"
  by (induction vs) (simp_all add: RowValue_encode pbind_def)

lemma encodeValue_first:
  shows "encodeValue v \<noteq> []" "hd (encodeValue v) \<noteq> 0xff"
    and "hd (encodeValue v) = 0xfe \<Longrightarrow> 9 \<le> length (encodeValue v)"
proof -
  show "encodeValue v \<noteq> []" "hd (encodeValue v) \<noteq> 0xff"
    using AppendLenenc_hd by (auto simp: encodeValue_def AppendLenencStr_def hd_append split: option.splits)
  assume fe: "hd (encodeValue v) = 0xfe"
  then obtain s where v: "v = Some s" by (cases v) (auto simp: encodeValue_def)
  show "9 \<le> length (encodeValue v)"
    by (cases "word_of_nat (length s) :: 64 word" rule: AppendLenenc_cases)
      (use fe small_byte(3) in \<open>auto simp: v encodeValue_Some\<close>)
qed

subsection \<open>Greetings\<close>

lemma le_bytes4: "[ucast caps, ucast (drop_bit 8 caps)] = le_bytes 2 (caps :: 32 word)"
  "[ucast (drop_bit 16 caps), ucast (drop_bit 24 caps)] = le_bytes 2 (drop_bit 16 caps)"
  by (simp_all add: numeral_2_eq_2 drop_bit_drop_bit)

lemma caps_join: "take_bit 16 caps OR push_bit 16 (take_bit 16 (drop_bit 16 caps)) = (caps :: 32 word)"
  by (rule bit_word_eqI) (auto simp: bit_or_iff bit_push_bit_iff bit_take_bit_iff bit_drop_bit_eq)

lemma hasCap_greeting:
  "hasCap (greetingCapabilities b) CapPluginAuth" "hasCap (greetingCapabilities b OR CapSSL) CapPluginAuth"
  "\<not> hasCap (greetingCapabilities b) CapSSL" "hasCap (greetingCapabilities b OR CapSSL) CapSSL"
  by (cases b; simp add: hasCap_def greetingCapabilities_def serverGreetingCapabilities_def cap_defs)+

lemma nul_free_native: "nul_free nativePlugin"
  by (simp add: nul_free_def nativePlugin_def str_bytes_def byte_of_char_def)

lemma Skip_Cons [simp]: "0 < n \<Longrightarrow> Skip n (x # xs) = Skip (n - 1) xs"
  by (auto simp: Skip_def nat_diff_distrib drop_Cons')

lemma Skip_0 [simp]: "Skip 0 xs = Inr ((), xs)"
  by (simp add: Skip_def)

lemma Bytes_snoc [simp]: "int (length b) + 1 = n \<Longrightarrow> Bytes n (b @ x # rest) = Inr (b @ [x], rest)"
  using Bytes_append[of "b @ [x]" n rest] by simp

lemma ParseHandshakeV10_serverGreeting:
  assumes "serverGreeting connID scramble version caps = Some payload" "nul_free version" "hasCap caps CapPluginAuth"
  shows "ParseHandshakeV10 payload = Inr \<lparr>gr_ServerVersion = version, gr_ConnectionID = connID,
    gr_Scramble = take 20 scramble, gr_AuthPlugin = nativePlugin, gr_Capabilities = caps\<rparr>"
proof -
  from assms(1) have len: "20 \<le> length scramble" and p: "payload = 10 # str_bytes version @ 0 # le_bytes 4 connID @
      take 8 scramble @ [0] @ le_bytes 2 caps @ [45, 0x02, 0x00] @ le_bytes 2 (drop_bit 16 caps) @ 21 #
      replicate 10 0 @ (take 12 (drop 8 scramble) @ [0]) @ str_bytes nativePlugin @ 0 # []"
    by (auto simp: serverGreeting_def nativePlugin_def le_bytes4 split: if_splits)
  have split: "take 8 scramble @ take 12 (drop 8 scramble) = take 20 scramble"
    by (simp flip: take_add)
  show ?thesis
    unfolding p ParseHandshakeV10_def parseGreetingTail_def
    using len assms(2,3) by (simp add: pbind_def HasRemaining_def Let_def le_val_le_bytes caps_join nul_free_native split)
qed

subsection \<open>Packets on a stream\<close>

lemma three_digits:
  assumes "n < 2 ^ 24"
  shows "unat (word_of_nat n :: byte) + 2 ^ 8 * unat (word_of_nat (n div 2 ^ 8) :: byte) +
    2 ^ 16 * unat (word_of_nat (n div 2 ^ 16) :: byte) = n"
proof -
  have u: "unat (word_of_nat m :: byte) = m mod 256" for m by (simp add: unat_of_nat)
  have d: "n div 65536 = n div 256 div 256" by (simp flip: div_mult2_eq)
  have lt: "n div 65536 < 256" using assms by (simp add: less_mult_imp_div_less)
  have "n = 256 * (n div 256) + n mod 256" "n div 256 = 256 * (n div 256 div 256) + n div 256 mod 256"
    by simp_all
  then have "n mod 256 + 256 * (n div 256 mod 256) + 65536 * (n div 65536) = n" unfolding d by linarith
  with lt show ?thesis by (simp add: u)
qed

lemma digits_unique:
  fixes a b c :: byte
  defines "n \<equiv> unat a + 2 ^ 8 * unat b + 2 ^ 16 * unat c"
  shows "n < 2 ^ 24" "word_of_nat n = a" "word_of_nat (n div 2 ^ 8) = b" "word_of_nat (n div 2 ^ 16) = c"
proof -
  have lt: "unat a < 256" "unat b < 256" "unat c < 256" using unsigned_less[where ?'a = nat and ?'b = 8] by simp_all
  have n: "n = unat a + 256 * (unat b + 256 * unat c)" by (simp add: n_def algebra_simps)
  have d: "n mod 256 = unat a" "n div 256 = unat b + 256 * unat c"
    using lt(1) unfolding n by (subst mod_mult_self2 div_mult_self2; simp)+
  have e: "n div 65536 = unat c" "n div 256 mod 256 = unat b"
    using lt(2) d div_mult2_eq[of n 256 256] by simp_all
  show "n < 2 ^ 24" using lt by (simp add: n)
  have w: "word_of_nat m = x" if "m mod 256 = unat x" for m and x :: byte
    using that by (simp add: word_unat_eq_iff unat_of_nat)
  show "word_of_nat n = a" "word_of_nat (n div 2 ^ 8) = b" "word_of_nat (n div 2 ^ 16) = c"
    by (rule w, use d(1) e lt in \<open>simp add: d(2)[symmetric]\<close>)+
qed

lemma ReadFull_append [simp]: "length b = n \<Longrightarrow> ReadFull n (b @ rest) = (Inr b, rest)"
  by (auto simp: ReadFull_def)

lemma ReadFull_Inr: "ReadFull n s = (Inr b, rest) \<longleftrightarrow> s = b @ rest \<and> length b = n"
  by (auto simp: ReadFull_def append_eq_conv_conj split: if_splits)

lemma ReadPacketLimited_frame:
  assumes "WritePacket sq p = Inr w" "int (length p) \<le> limit"
  shows "ReadPacketLimited limit (w @ rest) = (sq, Inr p, rest)"
proof -
  let ?hdr = "[word_of_nat (length p), word_of_nat (length p div 2 ^ 8), word_of_nat (length p div 2 ^ 16), sq] :: bytes"
  from assms(1) have w: "w = ?hdr @ p" and len: "length p < 2 ^ 24"
    by (auto simp: WritePacket_def MaxPacketPayload_def Let_def split: if_splits)
  have "ReadFull 4 (w @ rest) = (Inr ?hdr, p @ rest)"
    unfolding w append_assoc by (rule ReadFull_append) simp
  then show ?thesis
    using assms(2) three_digits[OF len] by (simp add: ReadPacketLimited_def Let_def del: power_numeral)
qed

lemma ReadPacketLimited_inv:
  assumes "ReadPacketLimited limit s = (sq, Inr p, rest)"
  shows "int (length p) \<le> limit \<and> (\<exists>w. WritePacket sq p = Inr w \<and> s = w @ rest)"
proof -
  from assms obtain hdr s1 where hdr: "ReadFull 4 s = (Inr hdr, s1)"
    by (auto simp: ReadPacketLimited_def split: prod.splits sum.splits)
  then obtain a b c d where h: "hdr = [a, b, c, d]" and s: "s = [a, b, c, d] @ s1"
    by (auto simp: ReadFull_Inr numeral_eq_Suc length_Suc_conv)
  let ?n = "unat a + 2 ^ 8 * unat b + 2 ^ 16 * unat c"
  from assms hdr h have "sq = d" "int ?n \<le> limit" and rf: "ReadFull ?n s1 = (Inr p, rest)"
    by (auto simp: ReadPacketLimited_def Let_def simp del: power_numeral split: if_splits)
  moreover from rf have "s1 = p @ rest" "length p = ?n" by (auto simp: ReadFull_Inr)
  moreover have "WritePacket d p = Inr ([a, b, c, d] @ p)"
    using digits_unique[of a b c] \<open>length p = ?n\<close> by (simp add: WritePacket_def MaxPacketPayload_def Let_def)
  ultimately show ?thesis using s by auto
qed

subsection \<open>Handshake responses\<close>

lemma uint_length_byte: "n < 256 \<Longrightarrow> uint (word_of_nat n :: byte) = int n"
  by (simp add: unsigned_of_nat take_bit_nat_eq_self)

lemma Bytes_all [simp]: "int (length b) = n \<Longrightarrow> Bytes n b = Inr (b, [])"
  using Bytes_append[of b n "[]"] by simp

lemma nul_free_Nil [simp]: "nul_free []"
  by (simp add: nul_free_def str_bytes_def)

lemma ParseHandshakeResponse_target:
  assumes nf: "nul_free user" "nul_free database" "nul_free plugin"
    and caps: "hasCap caps CapSecureConn" "\<not> hasCap caps CapPluginAuthLenenc" "length authResp < 256"
    and db: "hasCap caps CapConnectWithDB \<longleftrightarrow> database \<noteq> []" and pl: "plugin \<noteq> []"
  shows "ParseHandshakeResponse (TargetDbHandshakeResponse caps user authResp database plugin) True =
    Inr \<lparr>hr_Capabilities = caps, hr_Username = user, hr_Database = database, hr_AuthResponse = authResp,
         hr_AuthPlugin = (if hasCap caps CapPluginAuth then plugin else [])\<rparr>"
proof -
  let ?tail = "if hasCap caps CapPluginAuth then str_bytes plugin @ [0] else []"
  let ?db = "if database \<noteq> [] then str_bytes database @ [0] else []"
  let ?fixed = "le_bytes 4 (0x01000000 :: 32 word) @ [45] @ replicate 23 0"
  have p: "TargetDbHandshakeResponse caps user authResp database plugin =
      le_bytes 4 caps @ ?fixed @ str_bytes user @ 0 # word_of_nat (length authResp) # authResp @ ?db @ ?tail"
    using db pl by (auto simp: TargetDbHandshakeResponse_def handshakeHead_def Let_def)
  have skip: "Skip 28 (le_bytes 4 (0x01000000 :: 32 word) @ 45 # replicate 23 0 @ x) = Inr ((), x)" for x
    using Skip_append[of ?fixed 28 x] by simp
  show ?thesis
    unfolding ParseHandshakeResponse_def p
    using nf caps db
    by (cases "hasCap caps CapPluginAuth"; cases "database = []";
        simp add: pbind_def skip parseAuthResponse_def uint_length_byte HasRemaining_def parsePlugin_def)
qed

subsection \<open>Passwords\<close>

lemma xor_cancel: "length a = length b \<Longrightarrow> xorBytes (xorBytes a b) b = a"
  unfolding xorBytes_def by (induction a b rule: list_induct2) (simp_all add: xor.assoc)

lemma length_xorBytes [simp]: "length (xorBytes a b) = min (length a) (length b)"
  by (simp add: xorBytes_def)

lemma cap_slices:
  assumes "length x = 2" "length m = 3" "length y = 2"
  shows "take 2 (drop (length pre) (pre @ x @ m @ y @ z)) = x"
    "take 2 (drop (length pre + 5) (pre @ x @ m @ y @ z)) = y"
  using assms by simp_all

lemma GreetingOffersSSL_serverGreeting:
  assumes "serverGreeting connID scramble version caps = Some payload" "nul_free version"
  shows "GreetingOffersSSL payload = hasCap caps CapSSL"
proof -
  let ?pre = "10 # str_bytes version @ 0 # le_bytes 4 connID @ take 8 scramble @ [0]"
  let ?post = "21 # replicate 10 0 @ take 12 (drop 8 scramble) @ [0] @ str_bytes nativePlugin @ [0]"
  from assms(1) have len: "20 \<le> length scramble"
    and p: "payload = ?pre @ le_bytes 2 caps @ [45, 0x02, 0x00] @ le_bytes 2 (drop_bit 16 caps) @ ?post"
    by (auto simp: serverGreeting_def nativePlugin_def le_bytes4 split: if_splits)
  have i: "1 + length (takeWhile (\<lambda>b. b \<noteq> 0) (drop 1 payload)) + 1 + (4 + 8 + 1) = length ?pre"
    using len takeWhile_nul_free[OF assms(2)] by (simp add: p)
  have "take 2 (drop (length ?pre) payload) = le_bytes 2 caps"
    "take 2 (drop (length ?pre + 5) payload) = le_bytes 2 (drop_bit 16 caps)"
    unfolding p by (rule cap_slices; simp)+
  moreover have "\<not> length payload < length ?pre + 4" "\<not> length payload < length ?pre + 5 + 2" by (simp_all add: p)
  ultimately show ?thesis unfolding GreetingOffersSSL_def Let_def i by (simp add: le_val_le_bytes caps_join)
qed

subsection \<open>Properties\<close>

text \<open>
  C39: packet framing is exact. A payload within the limit is written and read back with its sequence
  number, leaving the rest of the stream untouched; and whatever bytes arrive, a packet that is read
  fits the limit and is exactly the framing of its payload in front of the rest.
\<close>

theorem packet_framing:
  assumes "int (length p) \<le> limit" "limit \<le> MaxPacketPayload"
  shows "(\<exists>w. WritePacket sq p = Inr w \<and> ReadPacketLimited limit (w @ rest) = (sq, Inr p, rest)) \<and>
    (if ReadPacketLimited limit s = (sq', Inr q, rest')
     then int (length q) \<le> limit \<and> (\<exists>w. WritePacket sq' q = Inr w \<and> s = w @ rest') else True)"
proof -
  from assms obtain w where w: "WritePacket sq p = Inr w" by (simp add: WritePacket_def Let_def)
  show ?thesis using w ReadPacketLimited_frame[OF w assms(1)] ReadPacketLimited_inv by auto
qed

theorem packet_framing_witness:
  "ReadPacketLimited 1024 ([5, 0, 0, 7] @ str_bytes ''hello'' @ [9]) = (7, Inr (str_bytes ''hello''), [9])"
proof -
  have "WritePacket 7 (str_bytes ''hello'') = Inr ([5, 0, 0, 7] @ str_bytes ''hello'')"
    by (simp add: WritePacket_def MaxPacketPayload_def)
  moreover have "int (length (str_bytes ''hello'')) \<le> 1024" "1024 \<le> MaxPacketPayload"
    by (simp_all add: MaxPacketPayload_def)
  note packet_framing[OF this, where sq = 7 and rest = "[9]"]
  ultimately show ?thesis by auto
qed

text \<open>
  Text rows survive. Encoding a row, NULLs and empty strings included, and parsing it with its
  column count gives the row back, and an encoded row is never taken for a result terminator, nor
  does it begin like an error packet.
\<close>

lemma text_row_roundtrip:
  assumes "list_all (pred_option (\<lambda>s. length s < 2 ^ 64)) vs"
  shows "ParseTextRow (TextRowPayload vs) (int (length vs)) = Inr vs \<and>
    \<not> IsResultTerminator (TextRowPayload vs) \<and> (vs = [] \<or> hd (TextRowPayload vs) \<noteq> 0xff)"
proof -
  have "ParseTextRow (TextRowPayload vs) (int (length vs)) = Inr vs"
    using rowValues_encode[OF assms, of "[]"] by (simp add: ParseTextRow_def TextRowPayload_concat HasRemaining_def)
  moreover have "\<not> IsResultTerminator (TextRowPayload vs) \<and> (vs = [] \<or> hd (TextRowPayload vs) \<noteq> 0xff)"
  proof (cases vs)
    case (Cons v vs')
    with encodeValue_first[of v] show ?thesis
      by (auto simp: TextRowPayload_concat IsResultTerminator_def hd_append)
  qed (simp add: TextRowPayload_concat IsResultTerminator_def)
  ultimately show ?thesis by blast
qed

text \<open>
  The greeting a client reads is the one the server meant. Parsing a greeting gives back version,
  connection id, the twenty-byte scramble, the plugin and all thirty-two capability bits; the TLS bit
  a client looks for is set exactly in the TLS variant.
\<close>

lemma greeting_roundtrip:
  assumes "nul_free version" "20 \<le> length scramble"
  shows "\<exists>plain tls. ServerGreeting connID scramble version db = Some plain \<and>
    ServerGreetingSSL connID scramble version db = Some tls \<and>
    ParseHandshakeV10 plain = Inr \<lparr>gr_ServerVersion = version, gr_ConnectionID = connID, gr_Scramble = take 20 scramble,
      gr_AuthPlugin = nativePlugin, gr_Capabilities = greetingCapabilities db\<rparr> \<and>
    ParseHandshakeV10 tls = Inr \<lparr>gr_ServerVersion = version, gr_ConnectionID = connID, gr_Scramble = take 20 scramble,
      gr_AuthPlugin = nativePlugin, gr_Capabilities = greetingCapabilities db OR CapSSL\<rparr> \<and>
    \<not> GreetingOffersSSL plain \<and> GreetingOffersSSL tls"
proof -
  have "\<exists>p. serverGreeting connID scramble version caps = Some p" for caps
    using assms(2) by (simp add: serverGreeting_def)
  then obtain plain tls where g: "serverGreeting connID scramble version (greetingCapabilities db) = Some plain"
    "serverGreeting connID scramble version (greetingCapabilities db OR CapSSL) = Some tls" by meson
  show ?thesis
    using g ParseHandshakeV10_serverGreeting[OF g(1) assms(1)] ParseHandshakeV10_serverGreeting[OF g(2) assms(1)]
      GreetingOffersSSL_serverGreeting[OF g(1) assms(1)] GreetingOffersSSL_serverGreeting[OF g(2) assms(1)]
    by (simp add: ServerGreeting_def ServerGreetingSSL_def hasCap_greeting)
qed

text \<open>
  A handshake response names the same user, database, digest and plugin on both sides. The
  response built for the target database parses back field by field when the capabilities announce
  the one-byte digest length and the database exactly when there is one.
\<close>

lemma handshake_response_roundtrip:
  assumes "nul_free user" "nul_free database" "nul_free plugin" "plugin \<noteq> []" "length authResp < 256"
    and "hasCap caps CapSecureConn" "\<not> hasCap caps CapPluginAuthLenenc"
    and "hasCap caps CapConnectWithDB \<longleftrightarrow> database \<noteq> []"
  shows "ParseHandshakeResponse (TargetDbHandshakeResponse caps user authResp database plugin) True =
    Inr \<lparr>hr_Capabilities = caps, hr_Username = user, hr_Database = database, hr_AuthResponse = authResp,
         hr_AuthPlugin = (if hasCap caps CapPluginAuth then plugin else [])\<rparr>"
  using assms by (intro ParseHandshakeResponse_target)

text \<open>
  A digest proves the password to a server that stores only its double hash. The server undoes
  the mask with the scramble it sent and what it stores, hashes the result once more and finds what
  it stores, for both plugins; an empty password gives an empty response.
\<close>

lemma password_digests_verify:
  assumes "password \<noteq> []"
  shows "(let stored = sha1 (sha1 (str_bytes password))
     in sha1 (xorBytes (NativePassword password scramble) (sha1 (scramble @ stored))) = stored) \<and>
    (let stored = sha256 (sha256 (str_bytes password))
     in sha256 (xorBytes (CachingSHA2Password password scramble) (sha256 (stored @ scramble))) = stored) \<and>
    length (NativePassword password scramble) = 20 \<and> length (CachingSHA2Password password scramble) = 32"
  using assms by (simp add: NativePassword_def CachingSHA2Password_def Let_def xor_cancel)

end
