(* ===== verification/Relay.thy ===== *)
theory Relay
  imports Encoding Worm
begin

text \<open>
  What every wire protocol of the proxy shares around the control plane's verdict
  (\<^verbatim>\<open>goproxy/relay\<close>, \<^verbatim>\<open>goproxy/spi\<close>): binding and rendering masks, result caps and row
  budgets, the authorizer of a connection and serving one statement under its verdict. The control
  plane and the target database act on a world; the letter and digit tables of Unicode are an argument.
\<close>

subsection \<open>Runes and UTF-16\<close>

fun runeValue :: "nat list \<Rightarrow> nat" where
  "runeValue [a] = a"
| "runeValue [a, b] = a mod 32 * 64 + b mod 64"
| "runeValue [a, b, c] = a mod 16 * 4096 + b mod 64 * 64 + c mod 64"
| "runeValue [a, b, c, d] = a mod 8 * 262144 + b mod 64 * 4096 + c mod 64 * 64 + d mod 64"
| "runeValue _ = 65533"

text \<open>\<^verbatim>\<open>[]rune(s)\<close>: a byte that starts no rune reads as U+FFFD.\<close>

function decodeRunes :: "string \<Rightarrow> nat list" where
  "decodeRunes [] = []"
| "decodeRunes (c # cs) =
    (let n = rune_len (c # cs) in
     if n = 0 then 65533 # decodeRunes cs
     else runeValue (map of_char (take n (c # cs))) # decodeRunes (drop (n - 1) cs))"
  by pat_completeness auto
termination by (relation "measure length") auto

declare decodeRunes.simps [simp del]

definition encodeRune :: "nat \<Rightarrow> string" where
  "encodeRune r = map char_of
    (if r < 128 then [r]
     else if r < 2048 then [192 + r div 64, 128 + r mod 64]
     else if 55296 \<le> r \<and> r < 57344 \<or> 1114111 < r then [239, 191, 189]
     else if r < 65536 then [224 + r div 4096, 128 + r div 64 mod 64, 128 + r mod 64]
     else [240 + r div 262144, 128 + r div 4096 mod 64, 128 + r div 64 mod 64, 128 + r mod 64])"

definition encodeRunes :: "nat list \<Rightarrow> string" where
  "encodeRunes rs = concat (map encodeRune rs)"

definition utf16Units :: "nat \<Rightarrow> nat list" where
  "utf16Units r =
    (if r < 55296 \<or> 57344 \<le> r \<and> r < 65536 then [r]
     else if 65536 \<le> r \<and> r \<le> 1114111 then [55296 + (r - 65536) div 1024, 56320 + (r - 65536) mod 1024]
     else [65533])"

definition utf16_Encode :: "nat list \<Rightarrow> nat list" where
  "utf16_Encode rs = concat (map utf16Units rs)"

fun utf16_Decode :: "nat list \<Rightarrow> nat list" where
  "utf16_Decode [] = []"
| "utf16_Decode (u # us) =
    (if u < 55296 \<or> 57344 \<le> u then u # utf16_Decode us
     else case us of
       v # vs \<Rightarrow> if u < 56320 \<and> 56320 \<le> v \<and> v < 57344
                then ((u - 55296) * 1024 + (v - 56320) + 65536) # utf16_Decode vs
                else 65533 # utf16_Decode us
     | [] \<Rightarrow> [65533])"

subsection \<open>Masks\<close>

record column_mask =
  cm_Column :: string
  cm_Kind :: string
  cm_Ordinal :: "int option"

record mask_binding =
  mb_ByIndex :: "(nat \<times> string) list"
  mb_Unbound :: "column_mask list"

definition bindMask :: "int \<Rightarrow> column_mask \<Rightarrow> mask_binding \<Rightarrow> mask_binding" where
  "bindMask resultColumnCount cm b =
    (case cm_Ordinal cm of
       Some i \<Rightarrow>
         if 0 \<le> i \<and> i < resultColumnCount
         then (if map_of (mb_ByIndex b) (nat i) \<noteq> None then b
               else b\<lparr>mb_ByIndex := mb_ByIndex b @ [(nat i, cm_Kind cm)]\<rparr>)
         else b\<lparr>mb_Unbound := mb_Unbound b @ [cm]\<rparr>
     | None \<Rightarrow> b\<lparr>mb_Unbound := mb_Unbound b @ [cm]\<rparr>)"

definition BindMasks :: "column_mask list \<Rightarrow> int \<Rightarrow> mask_binding" where
  "BindMasks masks resultColumnCount =
     fold (bindMask resultColumnCount) masks \<lparr>mb_ByIndex = [], mb_Unbound = []\<rparr>"

definition AllBound :: "mask_binding \<Rightarrow> bool" where
  "AllBound b \<longleftrightarrow> mb_Unbound b = []"

definition isKotlinCharLetterOrDigit :: "(nat \<Rightarrow> bool) \<Rightarrow> nat \<Rightarrow> bool" where
  "isKotlinCharLetterOrDigit letterOrDigit r \<longleftrightarrow>
    (if 65535 < r then False
     else letterOrDigit r \<or> r \<in> {0x1c89, 0x1c8a, 0xa7cb, 0xa7cc, 0xa7cd, 0xa7da, 0xa7db, 0xa7dc})"

definition star :: char where
  "star = CHR ''*''"

definition maskLastN :: "string \<Rightarrow> string" where
  "maskLastN v =
    (let units = utf16_Encode (decodeRunes v); n = length units
     in if n \<le> 4 then replicate n star
        else replicate (n - 4) star @ encodeRunes (utf16_Decode (drop (n - 4) units)))"

definition maskFormat :: "(nat \<Rightarrow> bool) \<Rightarrow> string \<Rightarrow> string" where
  "maskFormat letterOrDigit v =
    encodeRunes (utf16_Decode (map (\<lambda>u. if isKotlinCharLetterOrDigit letterOrDigit u then of_char star else u)
      (utf16_Encode (decodeRunes v))))"

definition applyMaskKind :: "(nat \<Rightarrow> bool) \<Rightarrow> string option \<Rightarrow> string \<Rightarrow> string option" where
  "applyMaskKind letterOrDigit value_opt kind =
    (case value_opt of
       None \<Rightarrow> None
     | Some v \<Rightarrow>
        if kind = ''NULL'' then None
        else if kind = ''FIXED'' then Some ''####''
        else if kind = ''LAST_N'' then Some (maskLastN v)
        else if kind = ''FORMAT_PRESERVING'' then Some (maskFormat letterOrDigit v)
        else Some ''****'')"

type_synonym row_masker = "(nat \<times> string) list"

definition NewRowMasker :: "column_mask list \<Rightarrow> int \<Rightarrow> row_masker option" where
  "NewRowMasker masks columnCount =
    (let binding = BindMasks masks columnCount in if \<not> AllBound binding then None else Some (mb_ByIndex binding))"

definition applyAt :: "(nat \<Rightarrow> bool) \<Rightarrow> nat \<times> string \<Rightarrow> string option list \<Rightarrow> string option list" where
  "applyAt letterOrDigit = (\<lambda>(i, kind) masked.
     if i < length masked then masked[i := applyMaskKind letterOrDigit (masked ! i) kind] else masked)"

definition Apply :: "(nat \<Rightarrow> bool) \<Rightarrow> row_masker \<Rightarrow> string option list \<Rightarrow> string option list" where
  "Apply letterOrDigit m vs = fold (applyAt letterOrDigit) m vs"

datatype enf_action = ENF_ALLOW | ENF_MASK | ENF_DENY | ENF_OTHER int

definition EnfActionName :: "enf_action \<Rightarrow> string" where
  "EnfActionName a = (case a of ENF_ALLOW \<Rightarrow> ''ALLOW'' | ENF_MASK \<Rightarrow> ''MASK'' | _ \<Rightarrow> ''DENY'')"

definition ParseEnfActionName :: "string \<Rightarrow> enf_action" where
  "ParseEnfActionName s = (if s = ''ALLOW'' then ENF_ALLOW else if s = ''MASK'' then ENF_MASK else ENF_DENY)"

subsection \<open>Binding\<close>

definition inRange :: "int \<Rightarrow> column_mask \<Rightarrow> bool" where
  "inRange n cm \<longleftrightarrow> (case cm_Ordinal cm of Some i \<Rightarrow> 0 \<le> i \<and> i < n | None \<Rightarrow> False)"

lemma bind_unbound: "mb_Unbound (fold (bindMask n) masks b) = mb_Unbound b @ filter (\<lambda>m. \<not> inRange n m) masks"
  by (induction masks arbitrary: b) (auto simp: bindMask_def inRange_def split: option.splits)

lemma AllBound_iff: "AllBound (BindMasks masks n) \<longleftrightarrow> list_all (inRange n) masks"
  by (simp add: AllBound_def BindMasks_def bind_unbound filter_empty_conv list_all_iff)

lemma bindMask_ByIndex:
  "map_of (mb_ByIndex (bindMask n m b)) i =
    (case map_of (mb_ByIndex b) i of
       Some k \<Rightarrow> Some k
     | None \<Rightarrow> if inRange n m \<and> cm_Ordinal m = Some (int i) then Some (cm_Kind m) else None)"
  by (auto simp: bindMask_def inRange_def map_add_def split: option.splits)

lemma bind_ByIndex:
  "map_of (mb_ByIndex (fold (bindMask n) masks b)) i =
    (case map_of (mb_ByIndex b) i of
       Some k \<Rightarrow> Some k
     | None \<Rightarrow> map_option cm_Kind (find (\<lambda>m. inRange n m \<and> cm_Ordinal m = Some (int i)) masks))"
proof (induction masks arbitrary: b)
  case (Cons m ms)
  show ?case by (simp add: Cons bindMask_ByIndex split: option.splits)
qed (simp split: option.splits)

lemma bind_distinct: "distinct (map fst (mb_ByIndex b)) \<Longrightarrow> distinct (map fst (mb_ByIndex (fold (bindMask n) masks b)))"
proof (induction masks arbitrary: b)
  case (Cons m ms)
  have "distinct (map fst (mb_ByIndex (bindMask n m b)))"
    using Cons.prems by (auto simp: bindMask_def map_of_eq_None_iff split: option.splits)
  then show ?case using Cons.IH by simp
qed simp

lemma length_Apply [simp]: "length (Apply ld m vs) = length vs"
proof -
  have "length (fold (applyAt ld) m vs) = length vs"
    by (induction m arbitrary: vs) (auto simp: applyAt_def)
  then show ?thesis by (simp add: Apply_def)
qed

lemma Apply_nth:
  assumes "distinct (map fst m)" "i < length vs"
  shows "Apply ld m vs ! i = (case map_of m i of Some k \<Rightarrow> applyMaskKind ld (vs ! i) k | None \<Rightarrow> vs ! i)"
proof -
  have "fold (applyAt ld) m vs ! i = (case map_of m i of Some k \<Rightarrow> applyMaskKind ld (vs ! i) k | None \<Rightarrow> vs ! i)"
    using assms
  proof (induction m arbitrary: vs)
    case (Cons p m)
    obtain j k where p: "p = (j, k)" by (cases p)
    from Cons.prems have "map_of m j = None" by (simp add: p map_of_eq_None_iff)
    then show ?case
      using Cons.prems Cons.IH[of "applyAt ld p vs"] by (auto simp: p applyAt_def split: option.splits)
  qed simp
  then show ?thesis by (simp add: Apply_def)
qed

subsection \<open>Decisions and caps\<close>

text \<open>Messages of the control plane that the proxy only passes on are their encoded bytes.\<close>

record target_error =
  te_Code :: string
  te_Message :: bytes

record decision =
  dc_Action :: string
  dc_DecisionID :: int64
  dc_DenyReason :: string
  dc_DenyCode :: string
  dc_Masks :: "column_mask list"
  dc_EffectiveRoles :: "string list"
  dc_RewrittenSQL :: "string option"
  dc_UnmaskablePermitted :: bool
  dc_AfterStatement :: "bytes list"
  dc_Generation :: "64 word"
  dc_SanitizeDiagnostics :: bool
  dc_ForwardTargetError :: bool
  dc_TargetError :: "target_error option"
  dc_MaxRows :: int64
  dc_MaxBytes :: int64
  dc_Submission :: "bytes option"
  dc_ResultRequirements :: "bytes option"

record relay_stats =
  rs_Rows :: int64
  rs_Bytes :: int64

definition Plus :: "relay_stats \<Rightarrow> relay_stats \<Rightarrow> relay_stats" where
  "Plus s t = \<lparr>rs_Rows = wrap64 (rs_Rows s + rs_Rows t), rs_Bytes = wrap64 (rs_Bytes s + rs_Bytes t)\<rparr>"

definition PageRows :: "decision option \<Rightarrow> int64 \<Rightarrow> int64" where
  "PageRows d clientRows =
    (case d of
       None \<Rightarrow> clientRows
     | Some dec \<Rightarrow>
        if dc_MaxRows dec \<le> 0 then clientRows
        else let capRows = min (dc_MaxRows dec) (2 ^ 63 - 1)
          in if clientRows \<le> 0 then capRows else min clientRows capRows)"

definition CapBinds :: "decision option \<Rightarrow> int64 \<Rightarrow> bool" where
  "CapBinds d clientRows \<longleftrightarrow>
    (case d of None \<Rightarrow> False | Some dec \<Rightarrow> 0 < dc_MaxRows dec \<and> (clientRows \<le> 0 \<or> dc_MaxRows dec \<le> clientRows))"

definition CapExceeded :: "decision option \<Rightarrow> relay_stats \<Rightarrow> int64 \<Rightarrow> string" where
  "CapExceeded d relayed rowBytes =
    (case d of
       None \<Rightarrow> []
     | Some dec \<Rightarrow>
        if 0 < dc_MaxRows dec \<and> dc_MaxRows dec \<le> rs_Rows relayed
        then ''proxy-monster: result exceeds the row cap ('' @ FormatInt (dc_MaxRows dec) @
             '' rows); request unbounded access''
        else if 0 < dc_MaxBytes dec \<and> wrap64 (dc_MaxBytes dec - rs_Bytes relayed) < rowBytes
        then ''proxy-monster: result exceeds the byte cap ('' @ FormatInt (dc_MaxBytes dec) @
             '' bytes); request unbounded access''
        else [])"

record row_budget =
  rb_MaxRows :: int64
  rb_MaxBytes :: int64
  rb_bytes :: int64
  rb_Overflowed :: bool
  rb_ByteCapped :: bool

definition Admit :: "row_budget \<Rightarrow> int64 \<Rightarrow> int64 \<Rightarrow> bool \<times> row_budget" where
  "Admit b collected rowBytes =
    (if rb_Overflowed b then (False, b)
     else if 0 < rb_MaxRows b \<and> rb_MaxRows b \<le> collected then (False, b\<lparr>rb_Overflowed := True\<rparr>)
     else if 0 < rb_MaxBytes b \<and> wrap64 (rb_MaxBytes b - rb_bytes b) < rowBytes
     then (False, b\<lparr>rb_Overflowed := True, rb_ByteCapped := True\<rparr>)
     else (True, b\<lparr>rb_bytes := wrap64 (rb_bytes b + rowBytes)\<rparr>))"

definition CapTruncated :: "row_budget \<Rightarrow> decision option \<Rightarrow> int64 \<Rightarrow> bool" where
  "CapTruncated b dec clientRows \<longleftrightarrow> rb_Overflowed b \<and> (rb_ByteCapped b \<or> CapBinds dec clientRows)"

definition StatusOK :: string where "StatusOK = ''ok''"
definition StatusError :: string where "StatusError = ''error''"

definition RelayStatus :: "bool \<Rightarrow> 'e option \<Rightarrow> string" where
  "RelayStatus clean err = (if err = None \<and> clean then StatusOK else StatusError)"

record completion_report =
  cr_DecisionID :: int64
  cr_RowsReturned :: int64
  cr_BytesReturned :: int64
  cr_Status :: string
  cr_DurationMs :: int64

text \<open>The report handed to the reporter, if one is sent.\<close>

definition EmitCompletion :: "decision option \<Rightarrow> relay_stats \<Rightarrow> string \<Rightarrow> int64 \<Rightarrow> completion_report option" where
  "EmitCompletion dec stats status elapsedMs =
    (case dec of
       None \<Rightarrow> None
     | Some d \<Rightarrow>
        if dc_DecisionID d = 0 then None
        else Some \<lparr>cr_DecisionID = dc_DecisionID d, cr_RowsReturned = rs_Rows stats,
                   cr_BytesReturned = rs_Bytes stats, cr_Status = status, cr_DurationMs = elapsedMs\<rparr>)"

subsection \<open>The authorizer of a connection\<close>

record session_snapshot =
  ss_CurrentCatalog :: string
  ss_Namespace :: "string list option"
  ss_Observation :: "bytes option"

text \<open>Cloning turns an absent namespace into an empty one.\<close>

definition Clone :: "session_snapshot \<Rightarrow> session_snapshot" where
  "Clone o1 = o1\<lparr>ss_Namespace := Some (case ss_Namespace o1 of Some ns \<Rightarrow> ns | None \<Rightarrow> [])\<rparr>"

record temp_column =
  tc_Catalog :: string
  tc_Schema :: string
  tc_Table :: string
  tc_Column :: string
  tc_SqlType :: string
  tc_Ordinal :: int

text \<open>A runner may extend the snapshot it is given.\<close>

type_synonym 'w command_runner = "bytes list \<Rightarrow> session_snapshot option \<Rightarrow> 'w \<Rightarrow> (string option \<times> session_snapshot option) \<times> 'w"

record 'w decide_request =
  dr_Snapshot :: session_snapshot
  dr_Token :: string
  dr_SQL :: string
  dr_ClientAddr :: string
  dr_TempColumns :: "temp_column list"
  dr_ConnectionID :: bytes
  dr_Commands :: "'w command_runner option"
  dr_CheckTargetError :: "(string \<Rightarrow> ('w, string, target_error option) op) option"

record decision_outcome =
  do_Decision :: "decision option"
  do_Err :: string
  do_TargetError :: "target_error option"

definition IsErr :: "decision_outcome \<Rightarrow> bool" where
  "IsErr out \<longleftrightarrow> do_Decision out = None"

datatype verdict =
  Deny decision
| Proceed decision "string option" "column_mask list"
| Fail string

record authorizer =
  az_token :: string
  az_clientAddr :: string
  az_connectionID :: bytes
  az_snapshot :: session_snapshot
  az_nsDirty :: bool
  az_sanitizeDiag :: bool
  az_pendingCompletion :: "nat option"

definition NewAuthorizer :: "string \<Rightarrow> bytes \<Rightarrow> authorizer" where
  "NewAuthorizer token connectionID =
    \<lparr>az_token = token, az_clientAddr = [], az_connectionID = connectionID,
     az_snapshot = \<lparr>ss_CurrentCatalog = [], ss_Namespace = None, ss_Observation = None\<rparr>,
     az_nsDirty = True, az_sanitizeDiag = False, az_pendingCompletion = None\<rparr>"

definition MarkNamespaceDirty :: "authorizer \<Rightarrow> authorizer" where
  "MarkNamespaceDirty a = a\<lparr>az_nsDirty := True\<rparr>"

definition AwaitCompletion :: "nat \<Rightarrow> authorizer \<Rightarrow> authorizer" where
  "AwaitCompletion ch a = a\<lparr>az_pendingCompletion := Some ch\<rparr>"

definition SetSnapshot :: "session_snapshot \<Rightarrow> authorizer \<Rightarrow> authorizer" where
  "SetSnapshot snapshot a = a\<lparr>az_snapshot := Clone snapshot, az_nsDirty := False\<rparr>"

definition SetClientAddr :: "string \<Rightarrow> authorizer \<Rightarrow> authorizer" where
  "SetClientAddr addr a = a\<lparr>az_clientAddr := addr\<rparr>"

text \<open>The control plane's answer, and waiting for a completion channel or its time-out.\<close>

record 'w control_plane =
  cp_Decide :: "'w decide_request \<Rightarrow> 'w \<Rightarrow> decision_outcome \<times> 'w"
  cp_Await :: "nat \<Rightarrow> 'w \<Rightarrow> 'w"

record 'w authz_input =
  ai_SQL :: string
  ai_ProbeSession :: "('w, string, session_snapshot) op"
  ai_ProbeTempColumns :: "('w, string, temp_column list) op option"
  ai_Commands :: "'w command_runner option"
  ai_CheckTargetError :: "(string \<Rightarrow> ('w, string, target_error option) op) option"

definition awaitPending :: "'w control_plane \<Rightarrow> authorizer \<times> 'w \<Rightarrow> authorizer \<times> 'w" where
  "awaitPending cp = (\<lambda>(a, w).
    (case az_pendingCompletion a of
       None \<Rightarrow> (a, w)
     | Some ch \<Rightarrow> (a\<lparr>az_pendingCompletion := None\<rparr>, cp_Await cp ch w)))"

definition refreshSnapshot :: "'w authz_input \<Rightarrow> (authorizer \<times> 'w, string, unit) op" where
  "refreshSnapshot inp = (\<lambda>(a, w).
    if az_nsDirty a \<or> ss_Namespace (az_snapshot a) = None then
      (case ai_ProbeSession inp w of
         (Inl e, w1) \<Rightarrow> (Inl (''namespace probe failed: '' @ e), (a, w1))
       | (Inr s, w1) \<Rightarrow> (Inr (), (a\<lparr>az_snapshot := Clone s, az_nsDirty := False\<rparr>, w1)))
    else (Inr (), (a, w)))"

definition probeTemps :: "'w authz_input \<Rightarrow> 'w \<Rightarrow> temp_column list \<times> 'w" where
  "probeTemps inp w =
    (case ai_ProbeTempColumns inp of
       None \<Rightarrow> ([], w)
     | Some probe \<Rightarrow> (case probe w of (Inr t, w1) \<Rightarrow> (t, w1) | (Inl e, w1) \<Rightarrow> ([], w1)))"

definition reduceDecision :: "decision_outcome \<Rightarrow> decision \<Rightarrow> verdict" where
  "reduceDecision out dec =
    (if dc_ForwardTargetError dec then
       (case do_TargetError out of
          None \<Rightarrow> Fail ''control plane asked to forward a target error the proxy did not observe''
        | Some te \<Rightarrow> Deny (dec\<lparr>dc_TargetError := Some te\<rparr>))
     else if dc_Action dec = ''ALLOW'' then Proceed dec (dc_RewrittenSQL dec) []
     else if dc_Action dec = ''MASK'' then Proceed dec (dc_RewrittenSQL dec) (dc_Masks dec)
     else Deny dec)"

definition Authorize :: "'w control_plane \<Rightarrow> 'w authz_input \<Rightarrow> authorizer \<times> 'w \<Rightarrow> verdict \<times> authorizer \<times> 'w" where
  "Authorize cp inp s0 =
    (case refreshSnapshot inp (awaitPending cp s0) of
       (Inl e, s1) \<Rightarrow> (Fail e, s1)
     | (Inr _, a, w1) \<Rightarrow>
        (case probeTemps inp w1 of (temps, w2) \<Rightarrow>
           (case cp_Decide cp
              \<lparr>dr_Snapshot = Clone (az_snapshot a), dr_Token = az_token a, dr_SQL = ai_SQL inp,
               dr_ClientAddr = az_clientAddr a, dr_TempColumns = temps, dr_ConnectionID = az_connectionID a,
               dr_Commands = ai_Commands inp, dr_CheckTargetError = ai_CheckTargetError inp\<rparr> w2 of
              (out, w3) \<Rightarrow>
                (case do_Decision out of
                   None \<Rightarrow> (Fail (do_Err out), a, w3)
                 | Some dec \<Rightarrow> (reduceDecision out dec, a\<lparr>az_sanitizeDiag := dc_SanitizeDiagnostics dec\<rparr>, w3)))))"

subsection \<open>Serving a statement\<close>

datatype 'e serve_error = FailError string | RunError 'e | RunnerMissing | AfterStatementFailed string

record 'e served =
  sv_Decision :: "decision option"
  sv_Denied :: bool
  sv_Err :: "'e serve_error option"

text \<open>
  \<open>run\<close> executes on the target and says whether the result was clean; the optional guard wraps that
  execution only. The flag the closure assigns is part of the state the guard runs over.
\<close>

type_synonym ('w, 'e) exec = "bool \<times> authorizer \<times> 'w \<Rightarrow> 'e option \<times> (bool \<times> authorizer \<times> 'w)"

definition execOf :: "(string \<Rightarrow> column_mask list \<Rightarrow> decision \<Rightarrow> authorizer \<times> 'w \<Rightarrow> (bool \<times> 'e option) \<times> (authorizer \<times> 'w)) \<Rightarrow>
    string \<Rightarrow> column_mask list \<Rightarrow> decision \<Rightarrow> ('w, 'e) exec" where
  "execOf run toSend masks dec = (\<lambda>(_, s). case run toSend masks dec s of ((clean, err), s') \<Rightarrow> (err, (clean, s')))"

definition ServeStatement :: "'w control_plane \<Rightarrow> 'w authz_input \<Rightarrow> 'w command_runner option \<Rightarrow>
    (('w, 'e) exec \<Rightarrow> ('w, 'e) exec) option \<Rightarrow>
    (string \<Rightarrow> column_mask list \<Rightarrow> decision \<Rightarrow> authorizer \<times> 'w \<Rightarrow> (bool \<times> 'e option) \<times> (authorizer \<times> 'w)) \<Rightarrow>
    authorizer \<times> 'w \<Rightarrow> 'e served \<times> (authorizer \<times> 'w)" where
  "ServeStatement cp inp runner guard run s0 =
    (case Authorize cp inp s0 of
       (Fail msg, s1) \<Rightarrow> (\<lparr>sv_Decision = None, sv_Denied = False, sv_Err = Some (FailError msg)\<rparr>, s1)
     | (Deny dec, s1) \<Rightarrow> (\<lparr>sv_Decision = Some dec, sv_Denied = True, sv_Err = None\<rparr>, s1)
     | (Proceed dec rewritten masks, s1) \<Rightarrow>
        let toSend = (case rewritten of Some q \<Rightarrow> q | None \<Rightarrow> ai_SQL inp);
            exec = execOf run toSend masks dec;
            guarded = (case guard of Some g \<Rightarrow> g exec | None \<Rightarrow> exec)
        in case guarded (False, s1) of
             (Some e, (_, s2)) \<Rightarrow> (\<lparr>sv_Decision = Some dec, sv_Denied = False, sv_Err = Some (RunError e)\<rparr>, s2)
           | (None, (clean, a, w)) \<Rightarrow>
              if clean \<and> dc_AfterStatement dec \<noteq> [] then
                (case runner of
                   None \<Rightarrow> (\<lparr>sv_Decision = Some dec, sv_Denied = False, sv_Err = Some RunnerMissing\<rparr>, (a, w))
                 | Some r \<Rightarrow> (case r (dc_AfterStatement dec) None w of ((err, _), w') \<Rightarrow>
                     (\<lparr>sv_Decision = Some dec, sv_Denied = False, sv_Err = map_option AfterStatementFailed err\<rparr>, (a, w'))))
              else (\<lparr>sv_Decision = Some dec, sv_Denied = False, sv_Err = None\<rparr>, (a, w)))"

subsection \<open>What a mask shows\<close>

definition maskFor :: "column_mask list \<Rightarrow> nat \<Rightarrow> column_mask option" where
  "maskFor masks i = find (\<lambda>c. cm_Ordinal c = Some (int i)) masks"

text \<open>All a mask kind may depend on, besides whether the value is NULL.\<close>

definition shown :: "(nat \<Rightarrow> bool) \<Rightarrow> string \<Rightarrow> string \<Rightarrow> nat \<times> nat list" where
  "shown letterOrDigit kind v =
    (let units = utf16_Encode (decodeRunes v)
     in if kind = ''LAST_N'' then (length units, if length units \<le> 4 then [] else drop (length units - 4) units)
        else if kind = ''FORMAT_PRESERVING''
        then (0, map (\<lambda>u. if isKotlinCharLetterOrDigit letterOrDigit u then of_char star else u) units)
        else (0, []))"

definition visible :: "(nat \<Rightarrow> bool) \<Rightarrow> column_mask list \<Rightarrow> nat \<Rightarrow> string option \<Rightarrow>
    string option + (nat \<times> nat list) option" where
  "visible letterOrDigit masks i v =
    (case maskFor masks i of
       None \<Rightarrow> Inl v
     | Some c \<Rightarrow> Inr (if cm_Kind c = ''NULL'' then None else map_option (shown letterOrDigit (cm_Kind c)) v))"

lemma applyMaskKind_shown:
  assumes "(if kind = ''NULL'' then None else map_option (shown ld kind) v) =
    (if kind = ''NULL'' then None else map_option (shown ld kind) v')"
  shows "applyMaskKind ld v kind = applyMaskKind ld v' kind"
proof (cases "kind = ''NULL'' \<or> v = None")
  case True
  with assms show ?thesis by (auto simp: applyMaskKind_def split: option.splits if_splits)
next
  case False
  with assms obtain x y where v: "v = Some x" "v' = Some y" and eq: "shown ld kind x = shown ld kind y"
    by (cases v'; auto)
  have "maskLastN x = maskLastN y" if "kind = ''LAST_N''"
    using eq that by (auto simp: shown_def maskLastN_def Let_def split: if_splits)
  moreover have "maskFormat ld x = maskFormat ld y" if "kind = ''FORMAT_PRESERVING''"
    using eq that by (simp add: shown_def maskFormat_def Let_def)
  ultimately show ?thesis by (simp add: applyMaskKind_def v)
qed

lemma NewRowMasker_spec:
  assumes "NewRowMasker masks n = Some m"
  shows "list_all (inRange n) masks" "distinct (map fst m)" "map_of m i = map_option cm_Kind (maskFor masks i)"
proof -
  from assms have all: "AllBound (BindMasks masks n)" and m: "m = mb_ByIndex (BindMasks masks n)"
    by (auto simp: NewRowMasker_def Let_def split: if_splits)
  from all show bound: "list_all (inRange n) masks" by (simp add: AllBound_iff)
  show "distinct (map fst m)" by (simp add: m BindMasks_def bind_distinct)
  have "find (\<lambda>c. inRange n c \<and> cm_Ordinal c = Some (int i)) masks = maskFor masks i"
    unfolding maskFor_def using bound by (intro find_cong) (auto simp: list_all_iff)
  then show "map_of m i = map_option cm_Kind (maskFor masks i)" by (simp add: m BindMasks_def bind_ByIndex)
qed

lemma Apply_masked:
  assumes "NewRowMasker masks n = Some m" "i < length vs"
  shows "Apply ld m vs ! i = (case maskFor masks i of Some c \<Rightarrow> applyMaskKind ld (vs ! i) (cm_Kind c) | None \<Rightarrow> vs ! i)"
  using NewRowMasker_spec(2,3)[OF assms(1)] assms(2) by (simp add: Apply_nth split: option.splits)

lemma Apply_hides:
  assumes "NewRowMasker masks n = Some m" "length vs = length vs'"
    and "\<And>i. i < length vs \<Longrightarrow> visible ld masks i (vs ! i) = visible ld masks i (vs' ! i)"
  shows "Apply ld m vs = Apply ld m vs'"
proof (rule nth_equalityI)
  fix i assume "i < length (Apply ld m vs)"
  then have i: "i < length vs" "i < length vs'" using assms(2) by simp_all
  show "Apply ld m vs ! i = Apply ld m vs' ! i"
    using assms(3)[OF i(1)] unfolding Apply_masked[OF assms(1) i(1)] Apply_masked[OF assms(1) i(2)]
    by (auto simp: visible_def intro: applyMaskKind_shown split: option.splits)
qed (simp add: assms(2))

subsection \<open>The verdict\<close>

lemma reduceDecision_Proceed:
  "reduceDecision out dec = Proceed d rw masks \<longleftrightarrow>
    \<not> dc_ForwardTargetError dec \<and> d = dec \<and> rw = dc_RewrittenSQL dec \<and>
    (dc_Action dec = ''ALLOW'' \<and> masks = [] \<or> dc_Action dec = ''MASK'' \<and> masks = dc_Masks dec)"
  by (auto simp: reduceDecision_def split: option.splits)

lemma awaitPending_fst: "fst (awaitPending cp s) = (fst s)\<lparr>az_pendingCompletion := None\<rparr>"
  by (cases s; cases "az_pendingCompletion (fst s)") (auto simp: awaitPending_def)

lemma Authorize_Proceed:
  assumes "Authorize cp inp s0 = (Proceed dec rw masks, s1)"
  obtains req w out w' where "cp_Decide cp req w = (out, w')" "do_Decision out = Some dec"
    "dr_SQL req = ai_SQL inp" "dr_Token req = az_token (fst s0)" "dr_ConnectionID req = az_connectionID (fst s0)"
    "reduceDecision out dec = Proceed dec rw masks" "az_sanitizeDiag (fst s1) = dc_SanitizeDiagnostics dec"
    "\<not> az_nsDirty (fst s1)" "snd s1 = w'"
proof -
  obtain a w1 where r: "refreshSnapshot inp (awaitPending cp s0) = (Inr (), a, w1)"
    using assms by (auto simp: Authorize_def split: prod.splits sum.splits)
  have a: "az_token a = az_token (fst s0)" "az_connectionID a = az_connectionID (fst s0)" "\<not> az_nsDirty a"
    using r awaitPending_fst[of cp s0]
    by (cases "awaitPending cp s0"; auto simp: refreshSnapshot_def split: if_splits prod.splits sum.splits)+
  from assms r show thesis
    by (auto simp: Authorize_def reduceDecision_Proceed a split: prod.splits option.splits intro!: that)
qed

subsection \<open>Properties\<close>

text \<open>
  Masks bind completely or not at all, and hide what they mask. A masker exists only when every
  mask names a column of the result; it then changes exactly the named columns, the first mask of a
  column winning, and two rows that agree on the unmasked columns and on what each kind shows (nothing
  for most kinds, the last four UTF-16 units and the length for LAST_N, the punctuation for
  FORMAT_PRESERVING) give the same masked row.
\<close>

lemma masks_bind_and_hide:
  assumes "NewRowMasker masks (int (length vs)) = Some m" "length vs' = length vs"
    and "list_all (\<lambda>i. visible ld masks i (vs ! i) = visible ld masks i (vs' ! i)) [0..<length vs]"
  shows "list_all (inRange (int (length vs))) masks \<and>
    list_all (\<lambda>i. Apply ld m vs ! i =
      (case maskFor masks i of Some c \<Rightarrow> applyMaskKind ld (vs ! i) (cm_Kind c) | None \<Rightarrow> vs ! i)) [0..<length vs] \<and>
    Apply ld m vs = Apply ld m vs'"
  using NewRowMasker_spec(1)[OF assms(1)] Apply_masked[OF assms(1), of _ vs ld]
    Apply_hides[OF assms(1), of vs vs' ld] assms(2,3)
  by (auto simp: list_all_iff)

text \<open>
  Nothing runs that the control plane did not permit. Serving a statement runs on the target only
  under a decision the control plane gave, on this connection's token and id, for this very SQL text,
  with action ALLOW or MASK and no target error to forward: then the text sent is the rewritten one or
  the client's, and a MASK decision's masks all reach the protocol. Otherwise the statement is refused
  or fails, and the target and the after-statement commands are untouched.
\<close>

lemma serve_cases:
  fixes run :: "string \<Rightarrow> column_mask list \<Rightarrow> decision \<Rightarrow> authorizer \<times> 'w \<Rightarrow> (bool \<times> 'e option) \<times> (authorizer \<times> 'w)"
  assumes "ServeStatement cp inp runner guard run s0 = (r, s')"
  shows "(s' = snd (Authorize cp inp s0) \<and> (sv_Denied r \<or> (\<exists>msg. sv_Err r = Some (FailError msg)))) \<or>
    (\<exists>req w out w' dec toSend masks s1 clean err s2. cp_Decide cp req w = (out, w') \<and> do_Decision out = Some dec \<and>
       dr_SQL req = ai_SQL inp \<and> dr_Token req = az_token (fst s0) \<and> dr_ConnectionID req = az_connectionID (fst s0) \<and>
       \<not> dc_ForwardTargetError dec \<and> sv_Decision r = Some dec \<and> \<not> sv_Denied r \<and>
       (dc_Action dec = ''ALLOW'' \<and> masks = [] \<or> dc_Action dec = ''MASK'' \<and> masks = dc_Masks dec) \<and>
       toSend = (case dc_RewrittenSQL dec of Some q \<Rightarrow> q | None \<Rightarrow> ai_SQL inp) \<and>
       Authorize cp inp s0 = (Proceed dec (dc_RewrittenSQL dec) masks, s1) \<and>
       (case guard of Some g \<Rightarrow> g | None \<Rightarrow> id) (execOf run toSend masks dec) (False, s1) = (err, (clean, s2)) \<and>
       (s' = s2 \<or> clean \<and> err = None \<and> (\<exists>c. runner = Some c \<and> s' = (fst s2, snd (c (dc_AfterStatement dec) None (snd s2))))))"
proof -
  obtain v s1 where Pair: "Authorize cp inp s0 = (v, s1)" by (metis surj_pair)
  show ?thesis
  proof (cases v)
    case (Proceed dec rw masks)
    obtain clean err s2 where run: "(case guard of Some g \<Rightarrow> g | None \<Rightarrow> id)
        (execOf run (case rw of Some q \<Rightarrow> q | None \<Rightarrow> ai_SQL inp) masks dec) (False, s1) = (err, (clean, s2))"
      by (metis surj_pair)
    obtain req w out w' where dec: "cp_Decide cp req w = (out, w')" "do_Decision out = Some dec"
      "dr_SQL req = ai_SQL inp" "dr_Token req = az_token (fst s0)" "dr_ConnectionID req = az_connectionID (fst s0)"
      and rd: "reduceDecision out dec = Proceed dec rw masks"
      using Authorize_Proceed[of cp inp s0 dec rw masks s1] Pair Proceed by metis
    have "sv_Decision r = Some dec \<and> \<not> sv_Denied r \<and>
        (s' = s2 \<or> clean \<and> err = None \<and> (\<exists>c. runner = Some c \<and> s' = (fst s2, snd (c (dc_AfterStatement dec) None (snd s2)))))"
      using assms Pair Proceed run
      by (cases err; cases s2; cases runner; cases guard)
        (auto simp: ServeStatement_def Let_def case_prod_beta split: if_splits)
    with dec rd Pair Proceed run show ?thesis unfolding reduceDecision_Proceed by blast
  qed (use assms Pair in \<open>auto simp: ServeStatement_def\<close>)
qed

end
