(* ===== verification/MysqlSession.thy ===== *)
theory MysqlSession
  imports Mysqlwire Config Relay
begin

text \<open>
  The session-state guard of the MySQL proxy (\<^verbatim>\<open>goproxy/mysql/session.go\<close>): taking the session
  tracking off an OK packet, and failing closed when a tracked variable leaves its safe value.
\<close>

unbundle bit_operations_syntax

subsection \<open>System variables\<close>

record sys_var_change =
  sc_name :: string
  sc_value :: string

datatype session_error = SchemaTrackingDisabled | UnsafeCharset | SessionTrackingDropped | UnsafeSqlMode

definition requiredTrackedSysVars :: "string list" where
  "requiredTrackedSysVars = [''session_track_system_variables'', ''session_track_schema'', ''character_set_client'',
     ''character_set_connection'', ''character_set_results'', ''sql_mode'']"

definition trackedSysVarList :: string where
  "trackedSysVarList = joinWith '','' requiredTrackedSysVars"

fun splitOn :: "char \<Rightarrow> string \<Rightarrow> string list" where
  "splitOn sep [] = [[]]"
| "splitOn sep (c # cs) =
    (if c = sep then [] # splitOn sep cs
     else case splitOn sep cs of t # ts \<Rightarrow> (c # t) # ts | [] \<Rightarrow> [[c]])"

definition requireTrackedMembers :: "string \<Rightarrow> session_error option" where
  "requireTrackedMembers vars =
    (let present = map (\<lambda>member. ToLowerKey (TrimSpace member)) (splitOn (CHR '','') vars)
     in if list_all (\<lambda>required. required \<in> set present) requiredTrackedSysVars then None
        else Some SessionTrackingDropped)"

definition isSafeMySQLCharset :: "string \<Rightarrow> bool" where
  "isSafeMySQLCharset v \<longleftrightarrow> ToLowerKey v \<in> {''utf8mb4'', ''utf8'', ''utf8mb3''}"

definition mysqlParseSafeSqlModes :: "string list" where
  "mysqlParseSafeSqlModes =
    [''ALLOW_INVALID_DATES'', ''ERROR_FOR_DIVISION_BY_ZERO'', ''NO_AUTO_CREATE_USER'', ''NO_AUTO_VALUE_ON_ZERO'',
     ''NO_DIR_IN_CREATE'', ''NO_ENGINE_SUBSTITUTION'', ''NO_UNSIGNED_SUBTRACTION'', ''NO_ZERO_DATE'',
     ''NO_ZERO_IN_DATE'', ''ONLY_FULL_GROUP_BY'', ''PAD_CHAR_TO_FULL_LENGTH'', ''REAL_AS_FLOAT'',
     ''STRICT_ALL_TABLES'', ''STRICT_TRANS_TABLES'', ''TIME_TRUNCATE_FRACTIONAL'']"

definition sqlModeFlag :: "string \<Rightarrow> string" where
  "sqlModeFlag raw = ToUpperKey (TrimSpace raw)"

fun classifyFlags :: "bool \<Rightarrow> string list \<Rightarrow> (session_error, bool) result" where
  "classifyFlags ansiQuotes [] = Inr ansiQuotes"
| "classifyFlags ansiQuotes (raw # rest) =
    (let mode = sqlModeFlag raw
     in if mode = [] then classifyFlags ansiQuotes rest
        else if mode = ''ANSI_QUOTES'' then classifyFlags True rest
        else if mode \<in> set mysqlParseSafeSqlModes then classifyFlags ansiQuotes rest
        else Inl UnsafeSqlMode)"

definition classifyMySQLSqlMode :: "string \<Rightarrow> (session_error, bool) result" where
  "classifyMySQLSqlMode v = classifyFlags False (splitOn (CHR '','') v)"

definition checkSysVar :: "sys_var_change \<Rightarrow> session_error option" where
  "checkSysVar change =
    (let name = ToLowerKey (sc_name change); v = sc_value change
     in if name = ''session_track_schema'' then
          (if \<not> EqualFold v ''ON'' \<and> v \<noteq> ''1'' then Some SchemaTrackingDisabled else None)
        else if name = ''session_track_system_variables'' then requireTrackedMembers v
        else if name \<in> {''character_set_client'', ''character_set_connection'', ''character_set_results''} then
          (if \<not> isSafeMySQLCharset v then Some UnsafeCharset else None)
        else if name = ''sql_mode'' then
          (case classifyMySQLSqlMode v of Inl e \<Rightarrow> Some e | Inr _ \<Rightarrow> None)
        else None)"

fun checkSysVarInvariants :: "sys_var_change list \<Rightarrow> session_error option" where
  "checkSysVarInvariants [] = None"
| "checkSysVarInvariants (change # changes) =
    (case checkSysVar change of Some e \<Rightarrow> Some e | None \<Rightarrow> checkSysVarInvariants changes)"

subsection \<open>OK packets\<close>

definition serverStatusSessionStateChanged :: "16 word" where "serverStatusSessionStateChanged = 0x4000"
definition sessionTrackSystemVariables :: byte where "sessionTrackSystemVariables = 0x00"
definition sessionTrackSchema :: byte where "sessionTrackSchema = 0x01"

datatype ok_error =
  NotAnOK
| OKField string wire_error
| OKTruncated
| StateWithoutPayload
| MalformedSchemaBlock
| MalformedSysVarName
| MalformedSysVarValue
| SysVarTrailing
| OKTrailing

definition readLenencUint :: "64 word reader" where
  "readLenencUint = pbind U8 (\<lambda>first.
     if first = 0xfc then pbind (Bytes 2) (\<lambda>b. pret (le_val b))
     else if first = 0xfd then
       pbind (Bytes 3) (\<lambda>b. pret (ucast (b ! 0) OR push_bit 8 (ucast (b ! 1)) OR push_bit 16 (ucast (b ! 2))))
     else if first = 0xfe then pbind (Bytes 8) (\<lambda>b. pret (le_val b))
     else if first = 0xfb \<or> first = 0xff then fail (BadLenencPrefix first)
     else pret (ucast first))"

definition readLenencBytes :: "bytes reader" where
  "readLenencBytes = pbind readLenencUint (\<lambda>n bs.
     if length bs < unat n then Inl UnexpectedEOF
     else Inr (take (unat n) bs, drop (unat n) bs))"

lemma readLenencUint_Lenenc: "readLenencUint = Lenenc"
  by (simp add: readLenencUint_def Lenenc_def)

lemma Bytes_shorter: "Bytes n bs = Inr (b, rest) \<Longrightarrow> length rest \<le> length bs"
  by (auto simp: Bytes_def split: if_splits)

lemma Lenenc_shorter: "Lenenc bs = Inr (v, rest) \<Longrightarrow> length rest < length bs"
  by (cases bs) (auto simp: Lenenc_def pbind_def rbind_def U8_def fail_def dest!: Bytes_shorter split: if_splits sum.splits)

lemma readLenencBytes_shorter: "readLenencBytes bs = Inr (b, rest) \<Longrightarrow> length rest < length bs"
  by (auto simp: readLenencBytes_def readLenencUint_Lenenc pbind_def rbind_def split: if_splits sum.splits
      dest!: Lenenc_shorter)

function parseSessionStateFrom :: "string option \<Rightarrow> sys_var_change list \<Rightarrow> bytes \<Rightarrow>
    (ok_error, string option \<times> sys_var_change list) result" where
  "parseSessionStateFrom schema sysVars [] = Inr (schema, sysVars)"
| "parseSessionStateFrom schema sysVars (stateType # bs) =
    (case readLenencBytes bs of
       Inl e \<Rightarrow> Inl (OKField ''session-state block'' e)
     | Inr (block, rest) \<Rightarrow>
        if stateType = sessionTrackSchema then
          (case readLenencBytes block of
             Inr (name, []) \<Rightarrow> parseSessionStateFrom (Some (bytes_str name)) sysVars rest
           | _ \<Rightarrow> Inl MalformedSchemaBlock)
        else if stateType = sessionTrackSystemVariables then
          (case readLenencBytes block of
             Inl e \<Rightarrow> Inl MalformedSysVarName
           | Inr (name, b1) \<Rightarrow>
              (case readLenencBytes b1 of
                 Inl e \<Rightarrow> Inl MalformedSysVarValue
               | Inr (v, b2) \<Rightarrow>
                  if b2 \<noteq> [] then Inl SysVarTrailing
                  else parseSessionStateFrom schema
                    (sysVars @ [\<lparr>sc_name = bytes_str name, sc_value = bytes_str v\<rparr>]) rest))
        else parseSessionStateFrom schema sysVars rest)"
  by pat_completeness auto
termination by (relation "measure (\<lambda>(_, _, bs). length bs)") (auto dest!: readLenencBytes_shorter)

definition parseSessionState :: "bytes \<Rightarrow> (ok_error, string option \<times> sys_var_change list) result" where
  "parseSessionState state = parseSessionStateFrom None [] state"

text \<open>The OK packet without its tracking part, the affected rows, the schema and the variables it reports.\<close>

definition okState :: "16 word \<Rightarrow> bytes \<Rightarrow> (ok_error, string option \<times> sys_var_change list) result" where
  "okState status bs =
    (if status AND serverStatusSessionStateChanged \<noteq> 0 then
       (case readLenencBytes bs of
          Inl e \<Rightarrow> Inl (OKField ''session state'' e)
        | Inr (state, rest) \<Rightarrow> rbind (parseSessionState state) (\<lambda>r. if rest \<noteq> [] then Inl OKTrailing else Inr r))
     else if bs \<noteq> [] then Inl OKTrailing else Inr (None, []))"

definition okTail :: "bytes \<Rightarrow> 64 word \<Rightarrow> 16 word \<Rightarrow> bytes \<Rightarrow>
    (ok_error, bytes \<times> 64 word \<times> string option \<times> sys_var_change list) result" where
  "okTail clean affected status bs =
    (if bs = [] then
       (if status AND serverStatusSessionStateChanged \<noteq> 0 then Inl StateWithoutPayload
        else Inr (clean, affected, None, []))
     else case readLenencBytes bs of
       Inl e \<Rightarrow> Inl (OKField ''info'' e)
     | Inr (info, rest) \<Rightarrow>
        rbind (okState status rest) (\<lambda>(schema, sysVars).
          Inr (if info = [] then clean else AppendLenenc clean (word_of_nat (length info)) @ info,
               affected, schema, sysVars)))"

definition normalizeTargetDbOK :: "bytes \<Rightarrow> (ok_error, bytes \<times> 64 word \<times> string option \<times> sys_var_change list) result" where
  "normalizeTargetDbOK payload =
    (case payload of
       [] \<Rightarrow> Inl NotAnOK
     | hdr # b0 \<Rightarrow>
        if hdr \<noteq> 0x00 \<and> hdr \<noteq> 0xfe then Inl NotAnOK
        else case readLenencUint b0 of
          Inl e \<Rightarrow> Inl (OKField ''affected rows'' e)
        | Inr (affected, b1) \<Rightarrow>
           (case readLenencUint b1 of
              Inl e \<Rightarrow> Inl (OKField ''last insert id'' e)
            | Inr (_, b2) \<Rightarrow>
               if length b2 < 4 then Inl OKTruncated
               else let statusPos = length payload - length b2;
                        status = le_val (take 2 b2) :: 16 word;
                        cleanStatus = status AND NOT serverStatusSessionStateChanged;
                        clean = take statusPos payload @ le_bytes 2 cleanStatus @ take 2 (drop 2 b2)
                 in okTail clean affected status (drop 4 b2)))"

end
