(* ===== verification/MysqlRelay.thy ===== *)
theory MysqlRelay
  imports MysqlSession
begin

text \<open>
  Relaying one MySQL result set to the client (\<^verbatim>\<open>goproxy/mysql/relay.go\<close>): the packet loop with its
  phases, fragmented packets, the result cap, masks and error redaction. The hooks of the loop act on a
  world; the target is the stream of bytes it will still send.
\<close>

unbundle bit_operations_syntax

subsection \<open>Hooks and state\<close>

datatype phase = resultFirst | resultColumnDefs | resultAwaitEOF | resultRows

datatype cause =
  MaskUnbound
| RowTooLong
| SessionState session_error
| ParseOK ok_error
| ParseColumnCount wire_error
| InvalidColumnCount "64 word"
| FragmentedColumnDef
| MissingEOF
| ParseTerminator ok_error
| MoreResultsTruncated
| DecodeRow wire_error

datatype relay_error = ResultSetError byte cause | Transport wire_error | SinkFailed string

record 'w hooks =
  h_Cap :: "decision option"
  h_OnCapExceeded :: "'w \<Rightarrow> 'w"
  h_Sink :: "byte \<Rightarrow> bytes \<Rightarrow> 'w \<Rightarrow> string option \<times> 'w"
  h_OnColumns :: "nat \<Rightarrow> 'w \<Rightarrow> cause option \<times> 'w"
  h_OnColumnDef :: "(bytes \<Rightarrow> 'w \<Rightarrow> cause option \<times> 'w) option"
  h_OnRow :: "(bytes \<Rightarrow> 'w \<Rightarrow> (cause, bytes) result \<times> 'w) option"
  h_OnOK :: "64 word \<Rightarrow> 'w \<Rightarrow> 'w"
  h_OnSchema :: "string \<Rightarrow> 'w \<Rightarrow> 'w"
  h_OnSysVars :: "sys_var_change list \<Rightarrow> 'w \<Rightarrow> cause option \<times> 'w"
  h_RedactErr :: "bytes \<Rightarrow> bytes"
  h_MoreResults :: bool

record 'w relay_state =
  r_phase :: phase
  r_columnCount :: nat
  r_columnsSeen :: nat
  r_fragmenting :: bool
  r_fragmentPhase :: phase
  r_capped :: "string option"
  r_stats :: relay_stats
  r_target :: bytes
  r_world :: 'w

text \<open>One turn of the loop goes on, or returns whether the result was clean and the error.\<close>

datatype 'w turn = Continue "'w relay_state" | Return bool "relay_error option" "'w relay_state"

definition maxPacketPayload :: nat where
  "maxPacketPayload = nat MaxPacketPayload"

definition resultErr :: "byte \<Rightarrow> cause \<Rightarrow> 'w relay_state \<Rightarrow> 'w turn" where
  "resultErr sq c s = Return False (Some (ResultSetError sq c)) s"

text \<open>Sending a packet: dropped once the cap was crossed; a failing client ends the relay.\<close>

definition sink :: "'w hooks \<Rightarrow> byte \<Rightarrow> bytes \<Rightarrow> ('w relay_state \<Rightarrow> 'w turn) \<Rightarrow> 'w relay_state \<Rightarrow> 'w turn" where
  "sink h sq payload k s =
    (if r_capped s = None then
       (case h_Sink h sq payload (r_world s) of
          (Some e, w) \<Rightarrow> Return False (Some (SinkFailed e)) (s\<lparr>r_world := w\<rparr>)
        | (None, w) \<Rightarrow> k (s\<lparr>r_world := w\<rparr>))
     else k s)"

definition addBytes :: "nat \<Rightarrow> 'w relay_state \<Rightarrow> 'w relay_state" where
  "addBytes n s = s\<lparr>r_stats := (r_stats s)\<lparr>rs_Bytes := wrap64 (rs_Bytes (r_stats s) + int n)\<rparr>\<rparr>"

definition addRow :: "'w relay_state \<Rightarrow> 'w relay_state" where
  "addRow s = s\<lparr>r_stats := (r_stats s)\<lparr>rs_Rows := wrap64 (rs_Rows (r_stats s) + 1)\<rparr>\<rparr>"

definition capCrossed :: "'w hooks \<Rightarrow> int64 \<Rightarrow> 'w relay_state \<Rightarrow> bool \<times> 'w relay_state" where
  "capCrossed h rowBytes s =
    (if r_capped s \<noteq> None then (True, s)
     else let message = CapExceeded (h_Cap h) (r_stats s) rowBytes
       in if message = [] then (False, s)
          else (True, s\<lparr>r_capped := Some message, r_world := h_OnCapExceeded h (r_world s)\<rparr>))"

definition completeColumn :: "bool \<Rightarrow> 'w relay_state \<Rightarrow> 'w relay_state" where
  "completeColumn deprecateEOF s =
    (let s' = s\<lparr>r_columnsSeen := r_columnsSeen s + 1\<rparr>
     in if r_columnsSeen s' = r_columnCount s'
        then s'\<lparr>r_phase := (if deprecateEOF then resultRows else resultAwaitEOF)\<rparr> else s')"

definition serverMoreResultsExists :: "16 word" where "serverMoreResultsExists = 0x0008"

definition withMoreResults :: "bytes \<Rightarrow> bool \<Rightarrow> (wire_error, bytes) result" where
  "withMoreResults payload eof =
    rbind (if eof then Inr 3
           else rbind (pbind readLenencUint (\<lambda>_. readLenencUint) (drop 1 payload)) (\<lambda>(_, rest).
             Inr (length payload - length rest))) (\<lambda>pos.
      if length payload < pos + 2 then Inl UnexpectedEOF
      else Inr (take pos payload @ le_bytes 2 ((le_val (take 2 (drop pos payload)) :: 16 word) OR serverMoreResultsExists) @
                drop (pos + 2) payload))"

definition moreResults :: "'w hooks \<Rightarrow> bytes \<Rightarrow> bool \<Rightarrow> (wire_error, bytes) result" where
  "moreResults h payload eof = (if h_MoreResults h then withMoreResults payload eof else Inr payload)"

subsection \<open>The phases\<close>

definition onFragment :: "'w hooks \<Rightarrow> bool \<Rightarrow> byte \<Rightarrow> bytes \<Rightarrow> 'w relay_state \<Rightarrow> 'w turn" where
  "onFragment h deprecateEOF sq payload s =
    (let s1 = (if r_capped s = None \<and> r_fragmentPhase s = resultRows then addBytes (length payload) s else s)
     in sink h sq payload (\<lambda>s2.
          Continue (if length payload < maxPacketPayload
                    then (let s3 = s2\<lparr>r_fragmenting := False\<rparr>
                      in if r_fragmentPhase s3 = resultColumnDefs then completeColumn deprecateEOF s3 else s3)
                    else s2)) s1)"

text \<open>The schema and variables an OK packet reports; a violated invariant ends the relay.\<close>

definition reportState :: "'w hooks \<Rightarrow> byte \<Rightarrow> string option \<Rightarrow> sys_var_change list \<Rightarrow>
    ('w relay_state \<Rightarrow> 'w turn) \<Rightarrow> 'w relay_state \<Rightarrow> 'w turn" where
  "reportState h sq schema sysVars k s =
    (let s1 = (case schema of Some db \<Rightarrow> s\<lparr>r_world := h_OnSchema h db (r_world s)\<rparr> | None \<Rightarrow> s)
     in if sysVars = [] then k s1
        else case h_OnSysVars h sysVars (r_world s1) of
          (Some c, w) \<Rightarrow> resultErr sq c (s1\<lparr>r_world := w\<rparr>)
        | (None, w) \<Rightarrow> k (s1\<lparr>r_world := w\<rparr>))"

text \<open>The final OK or EOF of a result.\<close>

definition finish :: "'w hooks \<Rightarrow> byte \<Rightarrow> bytes \<Rightarrow> bool \<Rightarrow> 'w relay_state \<Rightarrow> 'w turn" where
  "finish h sq clean eof s =
    (case moreResults h clean eof of
       Inl e \<Rightarrow> resultErr sq MoreResultsTruncated s
     | Inr p \<Rightarrow> sink h sq p (\<lambda>s'. Return True None s') s)"

definition onFirst :: "'w hooks \<Rightarrow> byte \<Rightarrow> bytes \<Rightarrow> 'w relay_state \<Rightarrow> 'w turn" where
  "onFirst h sq payload s =
    (if hd payload = 0x00 then
       (case normalizeTargetDbOK payload of
          Inl e \<Rightarrow> resultErr sq (ParseOK e) s
        | Inr (clean, affected, schema, sysVars) \<Rightarrow>
           reportState h sq schema sysVars (\<lambda>s1.
             finish h sq clean False (s1\<lparr>r_world := h_OnOK h affected (r_world s1)\<rparr>)) s)
     else case Lenenc payload of
       Inl e \<Rightarrow> resultErr sq (ParseColumnCount e) s
     | Inr (cnt, _) \<Rightarrow>
        if cnt = 0 \<or> 2 ^ 63 - 1 < unat cnt then resultErr sq (InvalidColumnCount cnt) s
        else (case h_OnColumns h (unat cnt) (r_world s) of
          (Some c, w) \<Rightarrow> resultErr sq c (s\<lparr>r_columnCount := unat cnt, r_world := w\<rparr>)
        | (None, w) \<Rightarrow> sink h sq payload (\<lambda>s1. Continue (s1\<lparr>r_phase := resultColumnDefs\<rparr>))
                         (s\<lparr>r_columnCount := unat cnt, r_world := w\<rparr>)))"

definition onColumnDefs :: "'w hooks \<Rightarrow> bool \<Rightarrow> byte \<Rightarrow> bytes \<Rightarrow> 'w relay_state \<Rightarrow> 'w turn" where
  "onColumnDefs h deprecateEOF sq payload s =
    (let forward = sink h sq payload (\<lambda>s1. Continue
           (if length payload = maxPacketPayload
            then s1\<lparr>r_fragmenting := True, r_fragmentPhase := resultColumnDefs\<rparr>
            else completeColumn deprecateEOF s1))
     in case h_OnColumnDef h of
          None \<Rightarrow> forward s
        | Some f \<Rightarrow>
           if length payload = maxPacketPayload then resultErr sq FragmentedColumnDef s
           else (case f payload (r_world s) of
             (Some c, w) \<Rightarrow> resultErr sq c (s\<lparr>r_world := w\<rparr>)
           | (None, w) \<Rightarrow> forward (s\<lparr>r_world := w\<rparr>)))"

definition onAwaitEOF :: "'w hooks \<Rightarrow> byte \<Rightarrow> bytes \<Rightarrow> 'w relay_state \<Rightarrow> 'w turn" where
  "onAwaitEOF h sq payload s =
    (if \<not> IsResultTerminator payload then resultErr sq MissingEOF s
     else sink h sq payload (\<lambda>s1. Continue (s1\<lparr>r_phase := resultRows\<rparr>)) s)"

text \<open>
  A row of several packets under a byte cap: the continuations are read before anything is sent.
  The result is the parts, their size and the state, or the transport error.
\<close>

lemma ReadPacket_shorter: "ReadPacket t = (sq, Inr p, rest) \<Longrightarrow> length rest < length t"
  by (auto simp: ReadPacket_def WritePacket_def Let_def split: if_splits dest!: ReadPacketLimited_inv)

lemma capCrossed_target [simp]: "r_target (snd (capCrossed h n s)) = r_target s"
  by (simp add: capCrossed_def Let_def)

lemma capCrossed_target': "capCrossed h n s = (b, s') \<Longrightarrow> r_target s' = r_target s"
  using capCrossed_target[of h n s] by simp

function gatherRow :: "'w hooks \<Rightarrow> nat \<Rightarrow> bytes list \<Rightarrow> int64 \<Rightarrow> 'w relay_state \<Rightarrow>
    (wire_error \<times> 'w relay_state, bytes list \<times> int64 \<times> 'w relay_state) result" where
  "gatherRow h lastLen parts size_so_far s =
    (if lastLen \<noteq> maxPacketPayload then Inr (parts, size_so_far, s)
     else case ReadPacket (r_target s) of
       (_, Inl e, rest) \<Rightarrow> Inl (e, s\<lparr>r_target := rest\<rparr>)
     | (_, Inr p, rest) \<Rightarrow>
        let s1 = s\<lparr>r_target := rest\<rparr>
        in if r_capped s1 \<noteq> None then gatherRow h (length p) parts size_so_far s1
           else if fst (capCrossed h (size_so_far + int (length p)) s1)
           then gatherRow h (length p) [] size_so_far (snd (capCrossed h (size_so_far + int (length p)) s1))
           else gatherRow h (length p) (parts @ [p]) (size_so_far + int (length p)) s1)"
  by pat_completeness auto
termination
  by (relation "measure (\<lambda>(_, _, _, _, s). length (r_target s))") (auto dest!: ReadPacket_shorter[OF sym])

declare gatherRow.simps [simp del]

primrec sinkParts :: "'w hooks \<Rightarrow> byte \<Rightarrow> bytes list \<Rightarrow> ('w relay_state \<Rightarrow> 'w turn) \<Rightarrow> 'w relay_state \<Rightarrow> 'w turn" where
  "sinkParts h sq [] k s = k s"
| "sinkParts h sq (p # ps) k s = sink h sq p (sinkParts h (sq + 1) ps k) s"

definition wholeRow :: "'w hooks \<Rightarrow> byte \<Rightarrow> bytes \<Rightarrow> 'w relay_state \<Rightarrow> 'w turn" where
  "wholeRow h sq payload s =
    (case gatherRow h (length payload) [payload] (int (length payload)) s of
       Inl (e, s1) \<Rightarrow> Return False (Some (Transport e)) s1
     | Inr (parts, size_read, s1) \<Rightarrow>
        if r_capped s1 \<noteq> None then Continue s1
        else sinkParts h sq parts (\<lambda>s2. Continue (addBytes (nat size_read) (addRow s2))) s1)"

definition forwardRow :: "'w hooks \<Rightarrow> byte \<Rightarrow> nat \<Rightarrow> bytes \<Rightarrow> 'w relay_state \<Rightarrow> 'w turn" where
  "forwardRow h sq rowBytes payload s =
    sink h sq payload (\<lambda>s1.
      let s2 = addBytes rowBytes (addRow s1)
      in Continue (if length payload = maxPacketPayload
                   then s2\<lparr>r_fragmenting := True, r_fragmentPhase := resultRows\<rparr> else s2)) s"

definition byteCapped :: "'w hooks \<Rightarrow> bool" where
  "byteCapped h \<longleftrightarrow> (case h_Cap h of Some d \<Rightarrow> 0 < dc_MaxBytes d | None \<Rightarrow> False)"

definition onRow :: "'w hooks \<Rightarrow> byte \<Rightarrow> bytes \<Rightarrow> 'w relay_state \<Rightarrow> 'w turn" where
  "onRow h sq payload s =
    (case h_OnRow h of
       None \<Rightarrow>
         if byteCapped h \<and> length payload = maxPacketPayload then wholeRow h sq payload s
         else forwardRow h sq (length payload) payload s
     | Some f \<Rightarrow>
         if length payload = maxPacketPayload then resultErr sq RowTooLong s
         else (case f payload (r_world s) of
           (Inl c, w) \<Rightarrow> resultErr sq c (s\<lparr>r_world := w\<rparr>)
         | (Inr p, w) \<Rightarrow> forwardRow h sq (length payload) p (s\<lparr>r_world := w\<rparr>)))"

definition onRows :: "'w hooks \<Rightarrow> bool \<Rightarrow> byte \<Rightarrow> bytes \<Rightarrow> 'w relay_state \<Rightarrow> 'w turn" where
  "onRows h deprecateEOF sq payload s =
    (if deprecateEOF \<and> hd payload = 0xfe \<and> length payload < maxPacketPayload then
       (case normalizeTargetDbOK payload of
          Inl e \<Rightarrow> resultErr sq (ParseTerminator e) s
        | Inr (clean, _, schema, sysVars) \<Rightarrow> reportState h sq schema sysVars (finish h sq clean False) s)
     else if \<not> deprecateEOF \<and> IsResultTerminator payload then finish h sq payload True s
     else case capCrossed h (int (length payload)) s of
       (True, s1) \<Rightarrow> Continue (s1\<lparr>r_fragmenting := (length payload = maxPacketPayload), r_fragmentPhase := resultRows\<rparr>)
     | (False, s1) \<Rightarrow> onRow h sq payload s1)"

definition onPacket :: "'w hooks \<Rightarrow> bool \<Rightarrow> byte \<Rightarrow> bytes \<Rightarrow> 'w relay_state \<Rightarrow> 'w turn" where
  "onPacket h deprecateEOF sq payload s =
    (if r_fragmenting s then onFragment h deprecateEOF sq payload s
     else if payload = [] then sink h sq payload Continue s
     else if hd payload = 0xff then sink h sq (h_RedactErr h payload) (\<lambda>s1. Return False None s1) s
     else (case r_phase s of
       resultFirst \<Rightarrow> onFirst h sq payload s
     | resultColumnDefs \<Rightarrow> onColumnDefs h deprecateEOF sq payload s
     | resultAwaitEOF \<Rightarrow> onAwaitEOF h sq payload s
     | resultRows \<Rightarrow> onRows h deprecateEOF sq payload s))"

definition turn_of :: "'w hooks \<Rightarrow> bool \<Rightarrow> 'w relay_state \<Rightarrow> 'w turn" where
  "turn_of h deprecateEOF s =
    (case ReadPacket (r_target s) of
       (_, Inl e, rest) \<Rightarrow> Return False (Some (Transport e)) (s\<lparr>r_target := rest\<rparr>)
     | (sq, Inr payload, rest) \<Rightarrow> onPacket h deprecateEOF sq payload (s\<lparr>r_target := rest\<rparr>))"

subsection \<open>The loop\<close>

text \<open>A turn that goes on leaves less of the stream.\<close>

definition bounded :: "nat \<Rightarrow> 'w turn \<Rightarrow> bool" where
  "bounded n t \<longleftrightarrow> (case t of Continue s \<Rightarrow> length (r_target s) \<le> n | Return c e s \<Rightarrow> True)"

lemma bounded_simps [simp]:
  "bounded n (Continue s) \<longleftrightarrow> length (r_target s) \<le> n" "bounded n (Return c e s)" "bounded n (resultErr sq c' s)"
  by (simp_all add: bounded_def resultErr_def)

lemma bounded_sink:
  "(\<And>w. bounded n (k (s\<lparr>r_world := w\<rparr>))) \<Longrightarrow> bounded n (k s) \<Longrightarrow> bounded n (sink h sq p k s)"
  by (auto simp: sink_def split: prod.splits option.splits)

lemma target_simps [simp]:
  "r_target (addBytes n s) = r_target s" "r_target (addRow s) = r_target s" "r_target (completeColumn b s) = r_target s"
  by (simp_all add: addBytes_def addRow_def completeColumn_def Let_def)

lemma bounded_finish: "bounded n (finish h sq p eof s)"
  by (auto simp: finish_def intro!: bounded_sink split: sum.splits)

lemma bounded_report: "(\<And>s. bounded n (k s)) \<Longrightarrow> bounded n (reportState h sq schema sysVars k s)"
  by (auto simp: reportState_def Let_def split: prod.splits option.splits)

lemma bounded_sinkParts:
  "(\<And>s. r_target s = t \<Longrightarrow> bounded n (k s)) \<Longrightarrow> r_target s = t \<Longrightarrow> bounded n (sinkParts h sq ps k s)"
  by (induction ps arbitrary: s sq) (auto intro!: bounded_sink)

lemma gatherRow_target:
  "gatherRow h l parts z s = Inr (parts', z', s') \<Longrightarrow> length (r_target s') \<le> length (r_target s)"
proof (induction h l parts z s rule: gatherRow.induct)
  case (1 h l parts z s)
  show ?case
  proof (cases "l = maxPacketPayload")
    case True
    obtain sq r rest where rp: "ReadPacket (r_target s) = (sq, r, rest)" by (cases "ReadPacket (r_target s)")
    note g = "1.prems"[unfolded gatherRow.simps[of h l]]
    from g True rp obtain p where r: "r = Inr p" by (cases r) auto
    have "length (r_target s') \<le> length rest"
      using "1.IH"[OF _ rp[symmetric] _ r refl] g True rp r by (auto simp: Let_def split: if_splits)
    with ReadPacket_shorter[of "r_target s" sq p rest] rp r show ?thesis by simp
  next
    case False
    with "1.prems"[unfolded gatherRow.simps[of h l]] show ?thesis by simp
  qed
qed

lemma bounded_wholeRow: "bounded (length (r_target s)) (wholeRow h sq p s)"
proof (cases "gatherRow h (length p) [p] (int (length p)) s")
  case (Inr x)
  obtain parts z s1 where x: "x = (parts, z, s1)" by (cases x)
  from gatherRow_target[of h "length p" "[p]" "int (length p)" s parts z s1] Inr x
  have "length (r_target s1) \<le> length (r_target s)" by simp
  with Inr x show ?thesis by (auto simp: wholeRow_def intro!: bounded_sinkParts[where t = "r_target s1"])
qed (auto simp: wholeRow_def)

lemma bounded_forwardRow: "length (r_target s) \<le> n \<Longrightarrow> bounded n (forwardRow h sq k p s)"
  by (auto simp: forwardRow_def Let_def intro!: bounded_sink)

lemma bounded_onRow: "bounded (length (r_target s)) (onRow h sq p s)"
  by (auto simp: onRow_def intro!: bounded_wholeRow bounded_forwardRow split: option.splits prod.splits sum.splits)

lemma bounded_onRows: "bounded (length (r_target s)) (onRows h d sq p s)"
proof -
  obtain b s1 where c: "capCrossed h (int (length p)) s = (b, s1)" by (cases "capCrossed h (int (length p)) s")
  then show ?thesis
    using capCrossed_target'[OF c] bounded_onRow[of s1 h sq p]
    by (cases b) (auto simp: onRows_def intro!: bounded_report bounded_finish split: sum.splits)
qed

lemma bounded_onFragment: "bounded (length (r_target s)) (onFragment h d sq p s)"
  by (auto simp: onFragment_def Let_def intro!: bounded_sink)

lemma bounded_onFirst: "bounded (length (r_target s)) (onFirst h sq p s)"
  by (auto simp: onFirst_def intro!: bounded_report bounded_finish bounded_sink split: sum.splits prod.splits option.splits)

lemma bounded_onColumnDefs: "bounded (length (r_target s)) (onColumnDefs h d sq p s)"
  by (auto simp: onColumnDefs_def Let_def intro!: bounded_sink split: prod.splits option.splits)

lemma bounded_onAwaitEOF: "bounded (length (r_target s)) (onAwaitEOF h sq p s)"
  by (auto simp: onAwaitEOF_def intro!: bounded_sink)

lemma turn_of_shorter:
  assumes "turn_of h d s = Continue s'"
  shows "length (r_target s') < length (r_target s)"
proof -
  obtain sq r rest where rp: "ReadPacket (r_target s) = (sq, r, rest)" by (cases "ReadPacket (r_target s)")
  with assms obtain p where r: "r = Inr p" by (cases r) (auto simp: turn_of_def)
  let ?s = "s\<lparr>r_target := rest\<rparr>"
  have "bounded (length (r_target ?s)) (turn_of h d s)"
    using rp r bounded_onFragment[of ?s h d sq p] bounded_onFirst[of ?s h sq p] bounded_onColumnDefs[of ?s h d sq p]
      bounded_onAwaitEOF[of ?s h sq p] bounded_onRows[of ?s h d sq p]
    by (auto simp: turn_of_def onPacket_def intro!: bounded_sink split: phase.splits)
  with assms ReadPacket_shorter[of "r_target s" sq p rest] rp r show ?thesis by simp
qed

function relayLoop :: "'w hooks \<Rightarrow> bool \<Rightarrow> 'w relay_state \<Rightarrow> bool \<times> relay_error option \<times> 'w relay_state" where
  "relayLoop h deprecateEOF s =
    (case turn_of h deprecateEOF s of
       Continue s' \<Rightarrow> relayLoop h deprecateEOF s'
     | Return clean err s' \<Rightarrow> (clean, err, s'))"
  by pat_completeness auto
termination by (relation "measure (\<lambda>(_, _, s). length (r_target s))") (auto dest: turn_of_shorter)

declare relayLoop.simps [simp del]

definition relayResultSet :: "'w hooks \<Rightarrow> bool \<Rightarrow> bytes \<Rightarrow> 'w \<Rightarrow> bool \<times> relay_error option \<times> 'w relay_state" where
  "relayResultSet h deprecateEOF targetDb w =
     relayLoop h deprecateEOF
       \<lparr>r_phase = resultFirst, r_columnCount = 0, r_columnsSeen = 0, r_fragmenting = False,
        r_fragmentPhase = resultFirst, r_capped = None, r_stats = \<lparr>rs_Rows = 0, rs_Bytes = 0\<rparr>,
        r_target = targetDb, r_world = w\<rparr>"

subsection \<open>The tracked relay\<close>

definition valueSize :: "string option \<Rightarrow> nat" where
  "valueSize v =
    (case v of
       None \<Rightarrow> 1
     | Some s \<Rightarrow>
        let n = length s
        in if n < 251 then 1 + n else if n < 65536 then 3 + n else if n < 16777216 then 4 + n else 9 + n)"

fun rowSizeFrom :: "nat \<Rightarrow> string option list \<Rightarrow> nat" where
  "rowSizeFrom sofar [] = sofar"
| "rowSizeFrom sofar (v # vs) =
    (let t = sofar + valueSize v in if maxPacketPayload \<le> t then t else rowSizeFrom t vs)"

definition textRowPayloadSize :: "string option list \<Rightarrow> nat" where
  "textRowPayloadSize vs = rowSizeFrom 0 vs"

definition rewriteMaskedTextRow :: "(nat \<Rightarrow> bool) \<Rightarrow> bytes \<Rightarrow> nat \<Rightarrow> row_masker \<Rightarrow> (cause, bytes) result" where
  "rewriteMaskedTextRow letterOrDigit payload columnCount masker =
    (case ParseTextRow payload (int columnCount) of
       Inl e \<Rightarrow> Inl (DecodeRow e)
     | Inr vs \<Rightarrow>
        let masked = Apply letterOrDigit masker vs
        in if maxPacketPayload \<le> textRowPayloadSize masked then Inl RowTooLong else Inr (TextRowPayload masked))"

text \<open>The client connection: what was sent, how many more packets it takes, and the relay's variables.\<close>

record tracked =
  tk_out :: "(byte \<times> bytes) list"
  tk_room :: nat
  tk_columnCount :: nat
  tk_masker :: "row_masker option"
  tk_lastSeq :: byte
  tk_cancelled :: bool

definition writeClient :: "byte \<Rightarrow> bytes \<Rightarrow> tracked \<Rightarrow> string option \<times> tracked" where
  "writeClient sq payload t =
    (case WritePacket sq payload of
       Inl e \<Rightarrow> (Some ''packet payload exceeds limit'', t)
     | Inr _ \<Rightarrow>
        if tk_room t = 0 then (Some ''write failed'', t)
        else (None, t\<lparr>tk_out := tk_out t @ [(sq, payload)], tk_room := tk_room t - 1\<rparr>))"

definition trackedHooks :: "(nat \<Rightarrow> bool) \<Rightarrow> column_mask list \<Rightarrow> (bytes \<Rightarrow> bytes) option \<Rightarrow> decision option \<Rightarrow>
    byte \<Rightarrow> bool \<Rightarrow> tracked hooks" where
  "trackedHooks letterOrDigit masks redactErr dec seqBase followed =
    \<lparr>h_Cap = dec,
     h_OnCapExceeded = (\<lambda>t. t\<lparr>tk_cancelled := True\<rparr>),
     h_Sink = (\<lambda>sq payload t. case writeClient (sq + seqBase) payload t of
        (Some e, t') \<Rightarrow> (Some e, t') | (None, t') \<Rightarrow> (None, t'\<lparr>tk_lastSeq := sq + seqBase\<rparr>)),
     h_OnColumns = (\<lambda>n t. if masks = [] then (None, t)
        else let m = NewRowMasker masks (int n); t' = t\<lparr>tk_columnCount := n, tk_masker := m\<rparr>
          in if m = None then (Some MaskUnbound, t') else (None, t')),
     h_OnColumnDef = None,
     h_OnRow = (if masks = [] then None
        else Some (\<lambda>payload t. (case tk_masker t of
           Some m \<Rightarrow> rewriteMaskedTextRow letterOrDigit payload (tk_columnCount t) m
         | None \<Rightarrow> Inl MaskUnbound, t))),
     h_OnOK = (\<lambda>n t. t),
     h_OnSchema = (\<lambda>db t. t),
     h_OnSysVars = (\<lambda>changes t. (map_option SessionState (checkSysVarInvariants changes), t)),
     h_RedactErr = (case redactErr of Some f \<Rightarrow> f | None \<Rightarrow> id),
     h_MoreResults = followed\<rparr>"

definition errAnswer :: "bool \<Rightarrow> cause \<Rightarrow> bytes" where
  "errAnswer masked c =
    (case c of
       MaskUnbound \<Rightarrow> ErrPacketState 1235 ''42000'' ''proxy-monster: required mask could not be bound to a result column''
     | RowTooLong \<Rightarrow> ErrPacketState 1105 ''HY000'' ''proxy-monster: masked row exceeds max packet size''
     | SessionState SchemaTrackingDisabled \<Rightarrow>
         ErrPacketState 1105 ''HY000'' ''proxy-monster: session-state tracking must stay enabled; connection closed''
     | SessionState SessionTrackingDropped \<Rightarrow>
         ErrPacketState 1105 ''HY000'' ''proxy-monster: session-state tracking must stay enabled; connection closed''
     | SessionState UnsafeCharset \<Rightarrow>
         ErrPacketState 1105 ''HY000'' ''proxy-monster: connection character set must remain utf8mb4/utf8; connection closed''
     | SessionState UnsafeSqlMode \<Rightarrow>
         ErrPacketState 1105 ''HY000''
           (''proxy-monster: target DB sql_mode enables a flag that is not parse-safe (only ANSI_QUOTES and known '' @
            ''runtime/semantic flags are allowed); connection closed'')
     | _ \<Rightarrow> ErrPacketState 1105 ''HY000''
         (if masked then ''proxy-monster: malformed target-DB text row'' else ''proxy-monster: malformed target-DB result set''))"

record relay_result =
  rr_clean :: bool
  rr_stats :: relay_stats
  rr_lastSeq :: byte
  rr_err :: "relay_error option"
  rr_closed :: bool
  rr_client :: tracked
  rr_target :: bytes

definition relayQueryResponseTracked :: "(nat \<Rightarrow> bool) \<Rightarrow> bool \<Rightarrow> column_mask list \<Rightarrow> (bytes \<Rightarrow> bytes) option \<Rightarrow>
    decision option \<Rightarrow> byte \<Rightarrow> bool \<Rightarrow> bytes \<Rightarrow> tracked \<Rightarrow> relay_result" where
  "relayQueryResponseTracked letterOrDigit deprecateEOF masks redactErr dec seqBase followed targetDb client =
    (case relayResultSet (trackedHooks letterOrDigit masks redactErr dec seqBase followed) deprecateEOF targetDb client of
       (ok, err, s) \<Rightarrow>
        let t = r_world s; stats = r_stats s; last_seq = tk_lastSeq t
        in case err of
          None \<Rightarrow>
            (case r_capped s of
               Some message \<Rightarrow>
                 (case writeClient (last_seq + 1) (ErrPacketState 1317 ''70100'' message) t of (e, t') \<Rightarrow>
                   \<lparr>rr_clean = False, rr_stats = stats, rr_lastSeq = last_seq, rr_err = map_option SinkFailed e,
                    rr_closed = False, rr_client = t', rr_target = r_target s\<rparr>)
             | None \<Rightarrow> \<lparr>rr_clean = ok, rr_stats = stats, rr_lastSeq = last_seq, rr_err = None,
                        rr_closed = False, rr_client = t, rr_target = r_target s\<rparr>)
        | Some e \<Rightarrow>
            let t' = (case e of ResultSetError sq c \<Rightarrow> snd (writeClient (sq + seqBase) (errAnswer (masks \<noteq> []) c) t) | _ \<Rightarrow> t)
            in \<lparr>rr_clean = False, rr_stats = stats, rr_lastSeq = last_seq, rr_err = Some e,
                rr_closed = True, rr_client = t', rr_target = r_target s\<rparr>)"

subsection \<open>The cap\<close>

definition final :: "('w relay_state \<Rightarrow> bool) \<Rightarrow> 'w turn \<Rightarrow> bool" where
  "final I t \<longleftrightarrow> (case t of Continue s \<Rightarrow> I s | Return c e s \<Rightarrow> I s)"

lemma final_simps [simp]:
  "final I (Continue s) \<longleftrightarrow> I s" "final I (Return c e s) \<longleftrightarrow> I s" "final I (resultErr sq c' s) \<longleftrightarrow> I s"
  by (simp_all add: final_def resultErr_def)

lemma relayLoop_invariant:
  "(\<And>s. I s \<Longrightarrow> final I (turn_of h d s)) \<Longrightarrow> I s \<Longrightarrow> I (snd (snd (relayLoop h d s)))"
proof (induction h d s rule: relayLoop.induct)
  case (1 h d s)
  from "1.prems" have fin: "final I (turn_of h d s)" by blast
  show ?case
  proof (cases "turn_of h d s")
    case (Continue s')
    with fin "1.IH"[OF Continue "1.prems"(1)] show ?thesis by (subst relayLoop.simps) simp
  next
    case (Return c e s')
    with fin show ?thesis by (subst relayLoop.simps) simp
  qed
qed

text \<open>
  The tally stays within the caps; while an uncapped row is being forwarded in fragments there is no
  byte cap.
\<close>

definition withinCap :: "decision \<Rightarrow> relay_stats \<Rightarrow> bool" where
  "withinCap dec st \<longleftrightarrow>
    (dc_MaxRows dec \<le> 0 \<or> 0 \<le> rs_Rows st \<and> rs_Rows st \<le> dc_MaxRows dec) \<and>
    (dc_MaxBytes dec \<le> 0 \<or> 0 \<le> rs_Bytes st \<and> rs_Bytes st \<le> dc_MaxBytes dec)"

definition capInv :: "decision \<Rightarrow> 'w relay_state \<Rightarrow> bool" where
  "capInv dec s \<longleftrightarrow> withinCap dec (r_stats s) \<and>
    (r_fragmenting s \<and> r_fragmentPhase s = resultRows \<and> r_capped s = None \<longrightarrow> dc_MaxBytes dec \<le> 0)"

lemma CapExceeded_Nil:
  assumes "CapExceeded (Some dec) st n = []" "withinCap dec st" "is_int64 (dc_MaxBytes dec)" "is_int64 (dc_MaxRows dec)"
    and "0 \<le> n"
  shows "withinCap dec (st\<lparr>rs_Rows := wrap64 (rs_Rows st + 1), rs_Bytes := wrap64 (rs_Bytes st + n)\<rparr>)"
proof -
  have "wrap64 (dc_MaxBytes dec - rs_Bytes st) = dc_MaxBytes dec - rs_Bytes st" if "0 < dc_MaxBytes dec"
    using assms(2,3) that by (intro wrap64_id) (auto simp: withinCap_def is_int64_def)
  with assms(1) have "\<not> (0 < dc_MaxRows dec \<and> dc_MaxRows dec \<le> rs_Rows st)"
    "\<not> (0 < dc_MaxBytes dec \<and> dc_MaxBytes dec - rs_Bytes st < n)"
    by (auto simp: CapExceeded_def split: if_splits)
  with assms(2-5) show ?thesis by (auto simp: withinCap_def is_int64_def)
qed

lemma final_sink:
  "(\<And>w. I (s\<lparr>r_world := w\<rparr>)) \<Longrightarrow> (\<And>w. final I (k (s\<lparr>r_world := w\<rparr>))) \<Longrightarrow> final I (k s) \<Longrightarrow> final I (sink h sq p k s)"
  by (auto simp: sink_def split: prod.splits option.splits)

lemma capInv_simps [simp]:
  "capInv dec (s\<lparr>r_world := w\<rparr>) = capInv dec s" "capInv dec (s\<lparr>r_target := t\<rparr>) = capInv dec s"
  "capInv dec (s\<lparr>r_phase := ph\<rparr>) = capInv dec s" "capInv dec (s\<lparr>r_columnCount := n\<rparr>) = capInv dec s"
  "capInv dec (s\<lparr>r_columnsSeen := n\<rparr>) = capInv dec s"
  by (simp_all add: capInv_def)

lemma capInv_completeColumn [simp]: "capInv dec (completeColumn b s) = capInv dec s"
  by (simp add: completeColumn_def Let_def)

lemma capInv_finish: "capInv dec s \<Longrightarrow> final (capInv dec) (finish h sq p eof s)"
  by (auto simp: finish_def intro!: final_sink split: sum.splits)

lemma capInv_report:
  "(\<And>s. capInv dec s \<Longrightarrow> final (capInv dec) (k s)) \<Longrightarrow> capInv dec s \<Longrightarrow> final (capInv dec) (reportState h sq schema sysVars k s)"
  by (auto simp: reportState_def Let_def split: prod.splits option.splits)

lemma capInv_sinkParts:
  "(\<And>w. final (capInv dec) (k (s\<lparr>r_world := w\<rparr>))) \<Longrightarrow> final (capInv dec) (k s) \<Longrightarrow> capInv dec s \<Longrightarrow>
   final (capInv dec) (sinkParts h sq ps k s)"
  by (induction ps arbitrary: s sq) (auto intro!: final_sink)

lemma capCrossed_True:
  assumes "capCrossed h n s = (True, s')"
  shows "r_capped s' \<noteq> None" "r_stats s' = r_stats s" "r_fragmenting s' = r_fragmenting s"
  using assms by (auto simp: capCrossed_def Let_def split: if_splits)

lemma capCrossed_False:
  assumes "capCrossed h n s = (False, s')"
  shows "s' = s" "r_capped s = None" "CapExceeded (h_Cap h) (r_stats s) n = []"
  using assms by (auto simp: capCrossed_def Let_def split: if_splits)

lemma capInv_crossed: "capCrossed h n s = (True, s') \<Longrightarrow> capInv dec s \<Longrightarrow> capInv dec (s'\<lparr>r_fragmenting := b, r_fragmentPhase := ph\<rparr>)"
  by (auto simp: capInv_def capCrossed_True)

lemma gatherRow_stats:
  assumes "gatherRow h l parts z s = Inr (parts', z', s')" "CapExceeded (h_Cap h) (r_stats s) z = []" "0 \<le> z"
  shows "r_stats s' = r_stats s \<and> r_fragmenting s' = r_fragmenting s \<and> r_fragmentPhase s' = r_fragmentPhase s \<and>
    (r_capped s' = None \<longrightarrow> r_capped s = None) \<and>
    CapExceeded (h_Cap h) (r_stats s) z' = [] \<and> 0 \<le> z'"
  using assms
proof (induction h l parts z s rule: gatherRow.induct)
  case (1 h l parts z s)
  note g = "1.prems"(1)[unfolded gatherRow.simps[of h l]]
  show ?case
  proof (cases "l = maxPacketPayload")
    case True
    obtain sq r rest where rp: "ReadPacket (r_target s) = (sq, r, rest)" by (cases "ReadPacket (r_target s)")
    from g True rp obtain p where r: "r = Inr p" by (cases r) auto
    let ?s1 = "s\<lparr>r_target := rest\<rparr>"
    let ?n = "z + int (length p)"
    note IH = "1.IH"[OF _ rp[symmetric] _ r refl]
    show ?thesis
    proof (cases "r_capped s = None")
      case capped: False
      with IH(1) g True rp r "1.prems"(2,3) show ?thesis by (auto simp: Let_def)
    next
      case none: True
      obtain b s2 where c: "capCrossed h ?n ?s1 = (b, s2)" by (cases "capCrossed h ?n ?s1")
      show ?thesis
      proof (cases b)
        case True
        with c capCrossed_True[of h ?n ?s1 s2] capCrossed_def[of h ?n ?s1]
          IH(2) g \<open>l = maxPacketPayload\<close> rp r none "1.prems"(2,3)
        show ?thesis by (auto simp: Let_def split: if_splits)
      next
        case False
        with c capCrossed_False[of h ?n ?s1 s2] IH(3) g \<open>l = maxPacketPayload\<close> rp r none "1.prems"(2,3)
        show ?thesis by (auto simp: Let_def)
      qed
    qed
  qed (use g "1.prems" in simp)
qed

lemma capInv_capCrossed [simp]: "capInv dec s \<Longrightarrow> capInv dec (snd (capCrossed h n s))"
  by (auto simp: capInv_def capCrossed_def Let_def)

lemma gatherRow_capInv:
  "capInv dec s \<Longrightarrow> (case gatherRow h l parts z s of Inl (e, s') \<Rightarrow> capInv dec s' | Inr (parts', z', s') \<Rightarrow> capInv dec s')"
proof (induction h l parts z s rule: gatherRow.induct)
  case (1 h l parts z s)
  show ?case
  proof (cases "l = maxPacketPayload")
    case True
    obtain sq r rest where rp: "ReadPacket (r_target s) = (sq, r, rest)" by (cases "ReadPacket (r_target s)")
    show ?thesis
    proof (cases r)
      case (Inl e)
      with True rp "1.prems" show ?thesis by (subst gatherRow.simps) simp
    next
      case (Inr p)
      note IH = "1.IH"[OF _ rp[symmetric] _ Inr refl]
      show ?thesis
        using IH True rp Inr "1.prems" by (subst gatherRow.simps) (auto simp: Let_def)
    qed
  next
    case False
    with "1.prems" show ?thesis by (subst gatherRow.simps) simp
  qed
qed

lemma capInv_addRow:
  "withinCap dec ((r_stats s)\<lparr>rs_Rows := wrap64 (rs_Rows (r_stats s) + 1), rs_Bytes := wrap64 (rs_Bytes (r_stats s) + int n)\<rparr>) \<Longrightarrow>
   capInv dec s \<Longrightarrow> capInv dec (addBytes n (addRow s))"
  by (simp add: capInv_def addBytes_def addRow_def)

lemma capInv_forwardRow:
  assumes "withinCap dec ((r_stats s)\<lparr>rs_Rows := wrap64 (rs_Rows (r_stats s) + 1), rs_Bytes := wrap64 (rs_Bytes (r_stats s) + int n)\<rparr>)"
    and "capInv dec s" "length p \<noteq> maxPacketPayload \<or> dc_MaxBytes dec \<le> 0"
  shows "final (capInv dec) (forwardRow h sq n p s)"
proof -
  have "capInv dec (addBytes n (addRow (s\<lparr>r_world := w\<rparr>)))" for w
    using assms(1,2) by (intro capInv_addRow) simp_all
  moreover have "capInv dec (addBytes n (addRow s))" using assms(1,2) by (intro capInv_addRow)
  ultimately show ?thesis
    using assms(2,3) unfolding forwardRow_def Let_def by (intro final_sink) (auto simp: capInv_def)
qed

lemma capInv_wholeRow:
  assumes cap: "h_Cap h = Some dec" "is_int64 (dc_MaxBytes dec)" "is_int64 (dc_MaxRows dec)"
    and inv: "capInv dec s" and ok: "CapExceeded (h_Cap h) (r_stats s) (int (length p)) = []"
  shows "final (capInv dec) (wholeRow h sq p s)"
proof (cases "gatherRow h (length p) [p] (int (length p)) s")
  case (Inl x)
  with gatherRow_capInv[OF inv, of h "length p" "[p]" "int (length p)"] show ?thesis
    by (auto simp: wholeRow_def split: prod.splits)
next
  case (Inr x)
  obtain parts z s1 where x: "x = (parts, z, s1)" by (cases x)
  note g = gatherRow_stats[OF Inr[unfolded x] ok]
  have "capInv dec s1" using gatherRow_capInv[OF inv, of h "length p" "[p]" "int (length p)"] Inr x by simp
  moreover have "withinCap dec ((r_stats s1)\<lparr>rs_Rows := wrap64 (rs_Rows (r_stats s1) + 1),
      rs_Bytes := wrap64 (rs_Bytes (r_stats s1) + int (nat z))\<rparr>)"
    using g cap inv by (auto simp: capInv_def intro!: CapExceeded_Nil)
  ultimately show ?thesis
    using Inr x by (auto simp: wholeRow_def intro!: capInv_sinkParts capInv_addRow)
qed

lemma capInv_onPacket:
  assumes cap: "h_Cap h = Some dec" "is_int64 (dc_MaxBytes dec)" "is_int64 (dc_MaxRows dec)"
    and row: "\<And>f p w q w'. h_OnRow h = Some f \<Longrightarrow> f p w = (Inr q, w') \<Longrightarrow> length q \<noteq> maxPacketPayload"
    and inv: "capInv dec s"
  shows "final (capInv dec) (onPacket h d sq p s)"
proof -
  have frag: "final (capInv dec) (onFragment h d sq p s)" if "r_fragmenting s"
    using inv that by (auto simp: onFragment_def Let_def addBytes_def capInv_def withinCap_def completeColumn_def intro!: final_sink)
  have first: "final (capInv dec) (onFirst h sq p s)"
    using inv by (auto simp: onFirst_def intro!: capInv_report capInv_finish final_sink split: sum.splits prod.splits option.splits)
  have defs: "final (capInv dec) (onColumnDefs h d sq p s)"
    using inv by (auto simp: onColumnDefs_def Let_def intro!: final_sink split: prod.splits option.splits) (auto simp: capInv_def)
  have eof: "final (capInv dec) (onAwaitEOF h sq p s)"
    using inv by (auto simp: onAwaitEOF_def intro!: final_sink)
  have rows: "final (capInv dec) (onRows h d sq p s)"
  proof (cases "capCrossed h (int (length p)) s")
    case (Pair b s1)
    show ?thesis
    proof (cases b)
      case True
      with Pair inv show ?thesis
        by (auto simp: onRows_def intro!: capInv_report capInv_finish intro: capInv_crossed split: sum.splits)
    next
      case False
      then have b: "b = False" by simp
      note c = capCrossed_False[OF Pair[unfolded b]]
      have "final (capInv dec) (onRow h sq p s)"
      proof (cases "h_OnRow h")
        case None
        then show ?thesis
          using c cap inv by (auto simp: onRow_def byteCapped_def capInv_def intro!: capInv_wholeRow capInv_forwardRow CapExceeded_Nil)
      next
        case (Some f)
        then show ?thesis
          using c cap inv row[OF Some]
          by (auto simp: onRow_def split: prod.splits sum.splits intro!: capInv_forwardRow CapExceeded_Nil) (auto simp: capInv_def)
      qed
      with False Pair c inv show ?thesis
        by (auto simp: onRows_def intro!: capInv_report capInv_finish split: sum.splits)
    qed
  qed
  show ?thesis
    using frag first defs eof rows inv
    by (auto simp: onPacket_def intro!: final_sink split: phase.splits)
qed

subsection \<open>Row sizes\<close>

lemma maxPacketPayload_eq: "maxPacketPayload = 16777215"
  by (simp add: maxPacketPayload_def MaxPacketPayload_def)

lemma length_AppendLenenc:
  assumes "n < 2 ^ 64"
  shows "length (AppendLenenc [] (word_of_nat n)) =
    (if n < 251 then 1 else if n < 65536 then 3 else if n < 16777216 then 4 else 9)"
proof -
  have "unat (word_of_nat n :: 64 word) = n" using assms by (simp add: unat_of_nat)
  then show ?thesis by (simp add: AppendLenenc_def word_less_nat_alt)
qed

lemma valueSize_encode: "pred_option (\<lambda>s. length s < 2 ^ 64) v \<Longrightarrow> valueSize v = length (encodeValue v)"
  by (cases v) (auto simp: valueSize_def Let_def encodeValue_Some length_AppendLenenc, simp add: encodeValue_def)

lemma valueSize_bound: "valueSize v < maxPacketPayload \<Longrightarrow> pred_option (\<lambda>s. length s < 2 ^ 64) v"
  by (cases v) (auto simp: valueSize_def Let_def maxPacketPayload_eq split: if_splits)

lemma rowSizeFrom_length:
  "rowSizeFrom sofar vs < maxPacketPayload \<Longrightarrow>
   sofar + length (concat (map encodeValue vs)) = rowSizeFrom sofar vs \<and>
   list_all (pred_option (\<lambda>s. length s < 2 ^ 64)) vs"
proof (induction vs arbitrary: sofar)
  case (Cons v vs)
  then have step: "rowSizeFrom (sofar + valueSize v) vs < maxPacketPayload" "sofar + valueSize v < maxPacketPayload"
    by (auto simp: Let_def split: if_splits)
  then have "pred_option (\<lambda>s. length s < 2 ^ 64) v" by (intro valueSize_bound) simp
  with Cons.IH[OF step(1)] step(2) valueSize_encode[of v] show ?case by (auto simp: Let_def)
qed simp

lemma textRowPayloadSize_length:
  "textRowPayloadSize vs < maxPacketPayload \<Longrightarrow> length (TextRowPayload vs) = textRowPayloadSize vs"
  using rowSizeFrom_length[of 0 vs] by (simp add: textRowPayloadSize_def TextRowPayload_concat)

lemma rewrite_short: "rewriteMaskedTextRow ld p n m = Inr q \<Longrightarrow> length q < maxPacketPayload"
  using textRowPayloadSize_length
  by (auto simp: rewriteMaskedTextRow_def Let_def not_le split: sum.splits if_splits)

lemma relay_within_cap:
  assumes "is_int64 (dc_MaxBytes dec)" "is_int64 (dc_MaxRows dec)"
    and "relayResultSet (trackedHooks ld masks redact (Some dec) base followed) d target client = (ok, err, s)"
  shows "withinCap dec (r_stats s)"
proof -
  let ?h = "trackedHooks ld masks redact (Some dec) base followed"
  have row: "length q \<noteq> maxPacketPayload" if "h_OnRow ?h = Some f" "f p w = (Inr q, w')" for f p w q w'
    using that rewrite_short by (fastforce simp: trackedHooks_def split: if_splits option.splits)
  have cap: "h_Cap ?h = Some dec" by (simp add: trackedHooks_def)
  have packet: "final (capInv dec) (onPacket ?h d sq p s)" if "capInv dec s" for sq p s
    using that by (intro capInv_onPacket[OF cap assms(1,2)] row)
  have turn: "final (capInv dec) (turn_of ?h d s)" if "capInv dec s" for s
    using that packet by (auto simp: turn_of_def split: prod.splits sum.splits)
  let ?s0 = "\<lparr>r_phase = resultFirst, r_columnCount = 0, r_columnsSeen = 0, r_fragmenting = False,
        r_fragmentPhase = resultFirst, r_capped = None, r_stats = \<lparr>rs_Rows = 0, rs_Bytes = 0\<rparr>,
        r_target = target, r_world = client\<rparr>"
  have "capInv dec ?s0" by (auto simp: capInv_def withinCap_def)
  from relayLoop_invariant[of "capInv dec" ?h d ?s0, OF turn this] assms(3)
  show ?thesis by (simp add: relayResultSet_def capInv_def)
qed

subsection \<open>The loop over a sequence of packets\<close>

definition frame :: "byte \<times> bytes \<Rightarrow> bytes" where
  "frame = (\<lambda>(sq, p). case WritePacket sq p of Inr w \<Rightarrow> w | Inl e \<Rightarrow> [])"

definition frames :: "(byte \<times> bytes) list \<Rightarrow> bytes" where
  "frames xs = concat (map frame xs)"

definition physical :: "(byte \<times> bytes) list \<Rightarrow> bool" where
  "physical xs \<longleftrightarrow> list_all (\<lambda>(sq, p). length p \<le> maxPacketPayload) xs"

lemma ReadPacket_frame:
  assumes "length p \<le> maxPacketPayload"
  shows "ReadPacket (frame (sq, p) @ rest) = (sq, Inr p, rest)"
proof -
  have le: "int (length p) \<le> MaxPacketPayload" using assms by (simp add: maxPacketPayload_eq MaxPacketPayload_def)
  then obtain w where w: "WritePacket sq p = Inr w" by (simp add: WritePacket_def Let_def)
  from ReadPacketLimited_frame[OF w le] w show ?thesis by (simp add: ReadPacket_def frame_def)
qed

primrec runPackets :: "'w hooks \<Rightarrow> bool \<Rightarrow> (byte \<times> bytes) list \<Rightarrow> 'w relay_state \<Rightarrow> 'w turn" where
  "runPackets h d [] s = Continue s"
| "runPackets h d (x # xs) s =
    (case onPacket h d (fst x) (snd x) s of
       Continue s' \<Rightarrow> runPackets h d xs s'
     | Return c e s' \<Rightarrow> Return c e s')"

text \<open>With a row rewriter the loop never reads ahead: a packet is handled the same whatever follows it.\<close>

definition retarget :: "bytes \<Rightarrow> 'w turn \<Rightarrow> 'w turn" where
  "retarget t x = (case x of Continue s \<Rightarrow> Continue (s\<lparr>r_target := t\<rparr>) | Return c e s \<Rightarrow> Return c e (s\<lparr>r_target := t\<rparr>))"

lemma retarget_simps [simp]:
  "retarget t (Continue s) = Continue (s\<lparr>r_target := t\<rparr>)" "retarget t (Return c e s) = Return c e (s\<lparr>r_target := t\<rparr>)"
  "retarget t (resultErr sq c' s) = resultErr sq c' (s\<lparr>r_target := t\<rparr>)"
  by (simp_all add: retarget_def resultErr_def)

lemma target_last [simp]:
  "s\<lparr>r_target := t, r_world := w\<rparr> = s\<lparr>r_world := w, r_target := t\<rparr>"
  "s\<lparr>r_target := t, r_phase := ph\<rparr> = s\<lparr>r_phase := ph, r_target := t\<rparr>"
  "s\<lparr>r_target := t, r_columnCount := n\<rparr> = s\<lparr>r_columnCount := n, r_target := t\<rparr>"
  "s\<lparr>r_target := t, r_columnsSeen := n\<rparr> = s\<lparr>r_columnsSeen := n, r_target := t\<rparr>"
  "s\<lparr>r_target := t, r_fragmenting := b\<rparr> = s\<lparr>r_fragmenting := b, r_target := t\<rparr>"
  "s\<lparr>r_target := t, r_fragmentPhase := ph\<rparr> = s\<lparr>r_fragmentPhase := ph, r_target := t\<rparr>"
  "s\<lparr>r_target := t, r_capped := c\<rparr> = s\<lparr>r_capped := c, r_target := t\<rparr>"
  "s\<lparr>r_target := t, r_stats := st\<rparr> = s\<lparr>r_stats := st, r_target := t\<rparr>"
  by (cases s; simp)+

lemma target_ops [simp]:
  "addBytes n (s\<lparr>r_target := t\<rparr>) = (addBytes n s)\<lparr>r_target := t\<rparr>"
  "addRow (s\<lparr>r_target := t\<rparr>) = (addRow s)\<lparr>r_target := t\<rparr>"
  "completeColumn b (s\<lparr>r_target := t\<rparr>) = (completeColumn b s)\<lparr>r_target := t\<rparr>"
  "capCrossed h z (s\<lparr>r_target := t\<rparr>) = map_prod id (\<lambda>s. s\<lparr>r_target := t\<rparr>) (capCrossed h z s)"
  by (simp_all add: addBytes_def addRow_def completeColumn_def capCrossed_def Let_def)

lemma sink_retarget:
  assumes "\<And>s. k (s\<lparr>r_target := t\<rparr>) = retarget t (k s)"
  shows "sink h sq p k (s\<lparr>r_target := t\<rparr>) = retarget t (sink h sq p k s)"
  by (simp add: sink_def assms split: prod.splits option.splits)

lemma finish_retarget: "finish h sq p eof (s\<lparr>r_target := t\<rparr>) = retarget t (finish h sq p eof s)"
  by (simp add: finish_def sink_retarget split: sum.splits)

lemma report_retarget:
  assumes "\<And>s. k (s\<lparr>r_target := t\<rparr>) = retarget t (k s)"
  shows "reportState h sq schema sysVars k (s\<lparr>r_target := t\<rparr>) = retarget t (reportState h sq schema sysVars k s)"
  by (simp add: reportState_def Let_def assms split: prod.splits option.splits)

lemma forwardRow_retarget: "forwardRow h sq n p (s\<lparr>r_target := t\<rparr>) = retarget t (forwardRow h sq n p s)"
  unfolding forwardRow_def by (rule sink_retarget) (simp add: Let_def)

lemma onPacket_retarget:
  assumes "h_OnRow h = Some f"
  shows "onPacket h d sq p (s\<lparr>r_target := t\<rparr>) = retarget t (onPacket h d sq p s)"
proof -
  have frag: "onFragment h d sq p (s\<lparr>r_target := t\<rparr>) = retarget t (onFragment h d sq p s)"
    by (simp add: onFragment_def Let_def) (intro conjI impI; rule sink_retarget; simp add: Let_def)
  have first: "onFirst h sq p (s\<lparr>r_target := t\<rparr>) = retarget t (onFirst h sq p s)"
    by (simp add: onFirst_def report_retarget finish_retarget sink_retarget split: sum.splits prod.splits option.splits)
  have defs: "onColumnDefs h d sq p (s\<lparr>r_target := t\<rparr>) = retarget t (onColumnDefs h d sq p s)"
    by (simp add: onColumnDefs_def Let_def sink_retarget split: prod.splits option.splits)
  have eof: "onAwaitEOF h sq p (s\<lparr>r_target := t\<rparr>) = retarget t (onAwaitEOF h sq p s)"
    by (simp add: onAwaitEOF_def sink_retarget)
  have row: "onRow h sq p (s\<lparr>r_target := t\<rparr>) = retarget t (onRow h sq p s)" for s
    by (simp add: onRow_def assms forwardRow_retarget split: prod.splits sum.splits)
  have rows: "onRows h d sq p (s\<lparr>r_target := t\<rparr>) = retarget t (onRows h d sq p s)"
    by (cases "capCrossed h (int (length p)) s")
      (simp add: onRows_def report_retarget finish_retarget row split: sum.splits prod.splits bool.splits)
  show ?thesis
    by (simp add: onPacket_def frag first defs eof rows sink_retarget split: phase.splits)
qed

definition strip :: "bool \<times> relay_error option \<times> 'w relay_state \<Rightarrow> bool \<times> relay_error option \<times> 'w relay_state" where
  "strip = (\<lambda>(c, e, s). (c, e, s\<lparr>r_target := []\<rparr>))"

lemma relayLoop_frames:
  assumes "h_OnRow h = Some f" "physical xs"
  shows "strip (relayLoop h d (s\<lparr>r_target := frames xs @ rest\<rparr>)) =
    (case runPackets h d xs s of
       Continue s' \<Rightarrow> strip (relayLoop h d (s'\<lparr>r_target := rest\<rparr>))
     | Return c e s' \<Rightarrow> (c, e, s'\<lparr>r_target := []\<rparr>))"
  using assms(2)
proof (induction xs arbitrary: s)
  case Nil
  then show ?case by (simp add: frames_def)
next
  case (Cons x xs)
  obtain sq p where x: "x = (sq, p)" by (cases x)
  from Cons.prems have p: "length p \<le> maxPacketPayload" and xs: "physical xs" by (simp_all add: physical_def x)
  have "turn_of h d (s\<lparr>r_target := frames (x # xs) @ rest\<rparr>) = retarget (frames xs @ rest) (onPacket h d sq p s)"
    using ReadPacket_frame[OF p, of sq "frames xs @ rest"] onPacket_retarget[OF assms(1)]
    by (simp add: turn_of_def frames_def x)
  then show ?case
    using Cons.IH[OF xs] by (subst relayLoop.simps) (cases "onPacket h d sq p s"; simp add: x strip_def)
qed

subsection \<open>What a masked result shows\<close>

text \<open>Two row packets of \<open>n\<close> columns, of one size, that agree on all the masks show.\<close>

definition sameShownRow :: "(nat \<Rightarrow> bool) \<Rightarrow> column_mask list \<Rightarrow> nat \<Rightarrow> bytes \<Rightarrow> bytes \<Rightarrow> bool" where
  "sameShownRow ld masks n p p' \<longleftrightarrow>
    (\<exists>vs vs'. p = TextRowPayload vs \<and> p' = TextRowPayload vs' \<and> length vs = n \<and> length vs' = n \<and>
       length p = length p' \<and> length p < maxPacketPayload \<and>
       list_all (pred_option (\<lambda>s. length s < 2 ^ 64)) (vs @ vs') \<and>
       list_all (\<lambda>i. visible ld masks i (vs ! i) = visible ld masks i (vs' ! i)) [0..<n])"

definition samePacket :: "(nat \<Rightarrow> bool) \<Rightarrow> column_mask list \<Rightarrow> nat \<Rightarrow> byte \<times> bytes \<Rightarrow> byte \<times> bytes \<Rightarrow> bool" where
  "samePacket ld masks n x y \<longleftrightarrow> fst x = fst y \<and> (snd x = snd y \<or> sameShownRow ld masks n (snd x) (snd y))"

lemma TextRowPayload_first:
  assumes "vs \<noteq> []" "length (TextRowPayload vs) < maxPacketPayload"
    and "list_all (pred_option (\<lambda>s. length s < 2 ^ 64)) vs"
  shows "TextRowPayload vs \<noteq> []" "hd (TextRowPayload vs) \<noteq> 0xff" "hd (TextRowPayload vs) \<noteq> 0xfe"
proof -
  obtain v vs' where vs: "vs = v # vs'" using assms(1) by (cases vs) auto
  have hd: "hd (TextRowPayload vs) = hd (encodeValue v)" "TextRowPayload vs \<noteq> []"
    using encodeValue_first(1)[of v] by (simp_all add: vs TextRowPayload_concat hd_append)
  then show "TextRowPayload vs \<noteq> []" "hd (TextRowPayload vs) \<noteq> 0xff" using encodeValue_first(2)[of v] by simp_all
  have len: "length (encodeValue v) < maxPacketPayload" using assms(2) by (simp add: vs TextRowPayload_concat)
  have "hd (encodeValue v) \<noteq> 0xfe"
  proof (cases v)
    case (Some s)
    with assms(3) have s: "length s < 2 ^ 64" by (simp add: vs)
    have "unat (word_of_nat (length s) :: 64 word) = length s" using s by (simp add: unat_of_nat)
    with len Some show ?thesis
      by (cases "word_of_nat (length s) :: 64 word" rule: AppendLenenc_cases)
        (use small_byte(3)[of "word_of_nat (length s)"] in
          \<open>auto simp: encodeValue_Some word_le_nat_alt maxPacketPayload_eq\<close>)
  qed (simp add: encodeValue_def)
  with hd show "hd (TextRowPayload vs) \<noteq> 0xfe" by simp
qed

lemma sameShownRow_first:
  assumes "sameShownRow ld masks n p p'" "0 < n"
  shows "length p = length p'" "length p < maxPacketPayload"
    "p \<noteq> []" "hd p \<noteq> 0xff" "hd p \<noteq> 0xfe" "p' \<noteq> []" "hd p' \<noteq> 0xff" "hd p' \<noteq> 0xfe"
proof -
  from assms(1) obtain vs vs' where p: "p = TextRowPayload vs" "p' = TextRowPayload vs'" "length vs = n" "length vs' = n"
    and len: "length p = length p'" "length p < maxPacketPayload"
    and ok: "list_all (pred_option (\<lambda>s. length s < 2 ^ 64)) vs" "list_all (pred_option (\<lambda>s. length s < 2 ^ 64)) vs'"
    by (auto simp: sameShownRow_def)
  show "length p = length p'" "length p < maxPacketPayload" using len by simp_all
  from p assms(2) have ne: "vs \<noteq> []" "vs' \<noteq> []" by auto
  show "p \<noteq> []" "hd p \<noteq> 0xff" "hd p \<noteq> 0xfe"
    using TextRowPayload_first[OF ne(1) _ ok(1)] len p by simp_all
  show "p' \<noteq> []" "hd p' \<noteq> 0xff" "hd p' \<noteq> 0xfe"
    using TextRowPayload_first[OF ne(2) _ ok(2)] len p by simp_all
qed

lemma rewrite_same:
  assumes "sameShownRow ld masks n p p'" "NewRowMasker masks (int n) = Some m"
  shows "rewriteMaskedTextRow ld p n m = rewriteMaskedTextRow ld p' n m"
proof -
  from assms(1) obtain vs vs' where p: "p = TextRowPayload vs" "p' = TextRowPayload vs'" "length vs = n" "length vs' = n"
    and ok: "list_all (pred_option (\<lambda>s. length s < 2 ^ 64)) vs" "list_all (pred_option (\<lambda>s. length s < 2 ^ 64)) vs'"
    and vis: "\<And>i. i < n \<Longrightarrow> visible ld masks i (vs ! i) = visible ld masks i (vs' ! i)"
    by (auto simp: sameShownRow_def list_all_iff)
  have parse: "ParseTextRow p (int n) = Inr vs" "ParseTextRow p' (int n) = Inr vs'"
    using rowValues_encode[OF ok(1), of "[]"] rowValues_encode[OF ok(2), of "[]"] p
    by (simp_all add: ParseTextRow_def TextRowPayload_concat HasRemaining_def)
  have "Apply ld m vs = Apply ld m vs'" using Apply_hides[OF assms(2)] p vis by simp
  with parse show ?thesis by (simp add: rewriteMaskedTextRow_def)
qed

text \<open>The relay inside the rows of a masked result; a fragment is only skipped, never forwarded.\<close>

definition rowsInv :: "row_masker \<Rightarrow> nat \<Rightarrow> tracked relay_state \<Rightarrow> bool" where
  "rowsInv m n s \<longleftrightarrow> r_phase s = resultRows \<and> tk_masker (r_world s) = Some m \<and> tk_columnCount (r_world s) = n \<and>
    (r_fragmenting s \<longrightarrow> r_capped s \<noteq> None \<and> r_fragmentPhase s = resultRows)"

definition goesOn :: "('w relay_state \<Rightarrow> bool) \<Rightarrow> 'w turn \<Rightarrow> bool" where
  "goesOn I t \<longleftrightarrow> (case t of Continue s \<Rightarrow> I s | Return c e s \<Rightarrow> True)"

lemma goesOn_simps [simp]:
  "goesOn I (Continue s) \<longleftrightarrow> I s" "goesOn I (Return c e s)" "goesOn I (resultErr sq c' s)"
  by (simp_all add: goesOn_def resultErr_def)

lemma goesOn_sink:
  assumes "\<And>w. r_capped s = None \<Longrightarrow> h_Sink h sq p (r_world s) = (None, w) \<Longrightarrow> goesOn I (k (s\<lparr>r_world := w\<rparr>))"
    and "r_capped s \<noteq> None \<Longrightarrow> goesOn I (k s)"
  shows "goesOn I (sink h sq p k s)"
  using assms by (auto simp: sink_def split: prod.splits option.splits)

lemma goesOn_finish: "goesOn I (finish h sq p eof s)"
  by (auto simp: finish_def intro!: goesOn_sink split: sum.splits)

lemma goesOn_report: "(\<And>s. goesOn I (k s)) \<Longrightarrow> goesOn I (reportState h sq schema sysVars k s)"
  by (auto simp: reportState_def Let_def split: prod.splits option.splits)

lemma tracked_sink:
  assumes "h_Sink (trackedHooks ld masks redact dec base followed) sq p t = (e, t')"
  shows "tk_masker t' = tk_masker t" "tk_columnCount t' = tk_columnCount t"
  using assms by (auto simp: trackedHooks_def writeClient_def split: prod.splits option.splits sum.splits if_splits)

lemma rowsInv_packet:
  assumes "masks \<noteq> []" "rowsInv m n s"
  shows "goesOn (rowsInv m n) (onPacket (trackedHooks ld masks redact dec base followed) d sq p s)"
proof -
  let ?h = "trackedHooks ld masks redact dec base followed"
  have upd: "rowsInv m n (s\<lparr>r_world := w\<rparr>)" if "h_Sink ?h sq' p' (r_world s) = (None, w)" for sq' p' w
    using assms(2) tracked_sink[OF that] by (simp add: rowsInv_def)
  have frag: "goesOn (rowsInv m n) (onFragment ?h d sq p s)" if "r_fragmenting s"
    using assms(2) that by (auto simp: onFragment_def Let_def rowsInv_def intro!: goesOn_sink)
  have row: "goesOn (rowsInv m n) (onRow ?h sq p s)" if "\<not> r_fragmenting s"
  proof -
    have onrow: "h_OnRow ?h = Some (\<lambda>payload t. (case tk_masker t of
        Some m \<Rightarrow> rewriteMaskedTextRow ld payload (tk_columnCount t) m | None \<Rightarrow> Inl MaskUnbound, t))"
      using assms(1) by (simp add: trackedHooks_def)
    have "goesOn (rowsInv m n) (forwardRow ?h sq k q s)" if "rewriteMaskedTextRow ld p n m = Inr q" for k q
      using assms(2) \<open>\<not> r_fragmenting s\<close> rewrite_short[OF that] upd
      by (auto simp: forwardRow_def Let_def addBytes_def addRow_def rowsInv_def intro!: goesOn_sink)
    with onrow assms(2) show ?thesis by (auto simp: onRow_def rowsInv_def split: sum.splits)
  qed
  have rows: "goesOn (rowsInv m n) (onRows ?h d sq p s)" if "\<not> r_fragmenting s"
  proof (cases "capCrossed ?h (int (length p)) s")
    case (Pair b s1)
    show ?thesis
    proof (cases b)
      case True
      have "rowsInv m n (s1\<lparr>r_fragmenting := c, r_fragmentPhase := resultRows\<rparr>)" for c
        using Pair True assms(2) by (auto simp: capCrossed_def Let_def rowsInv_def trackedHooks_def split: if_splits)
      with Pair True show ?thesis
        by (auto simp: onRows_def intro!: goesOn_report goesOn_finish split: sum.splits)
    next
      case False
      then have b: "b = False" by simp
      with Pair capCrossed_False(1)[OF Pair[unfolded b]] row[OF that] show ?thesis
        by (auto simp: onRows_def intro!: goesOn_report goesOn_finish split: sum.splits)
    qed
  qed
  show ?thesis
    using frag rows assms(2) upd
    by (cases "r_fragmenting s") (auto simp: onPacket_def rowsInv_def intro!: goesOn_sink)
qed

lemma rowsInv_same:
  assumes "masks \<noteq> []" "rowsInv m n s" "NewRowMasker masks (int n) = Some m" "0 < n" "samePacket ld masks n x y"
  shows "onPacket (trackedHooks ld masks redact dec base followed) d (fst x) (snd x) s =
    onPacket (trackedHooks ld masks redact dec base followed) d (fst y) (snd y) s"
proof (cases "snd x = snd y")
  case False
  let ?h = "trackedHooks ld masks redact dec base followed"
  from assms(5) False have sq: "fst x = fst y" and same: "sameShownRow ld masks n (snd x) (snd y)"
    by (simp_all add: samePacket_def)
  obtain p p' where p: "snd x = p" "snd y = p'" by simp
  note same = same[unfolded p]
  note len = sameShownRow_first(1)[OF same assms(4)] and first = sameShownRow_first(3-8)[OF same assms(4)]
  have frag: "onFragment ?h d sq p s = onFragment ?h d sq p' s" if "r_fragmenting s" for sq
  proof -
    from that assms(2) obtain c where "r_capped s = Some c" by (auto simp: rowsInv_def)
    then show ?thesis by (simp add: onFragment_def sink_def addBytes_def len)
  qed
  have row: "onRow ?h sq p s = onRow ?h sq p' s" for sq
    using assms(1,2) rewrite_same[OF same assms(3)] len by (simp add: onRow_def trackedHooks_def rowsInv_def split: sum.splits)
  have "onRows ?h d sq p s = onRows ?h d sq p' s" if "\<not> r_fragmenting s" for sq
    using row len first capCrossed_False(1)[of ?h "int (length p)" s]
    by (auto simp: onRows_def IsResultTerminator_def split: prod.splits bool.splits)
  with frag first assms(2) show ?thesis
    by (simp add: onPacket_def p sq rowsInv_def)
qed (use assms(5) in \<open>simp add: samePacket_def\<close>)

lemma runPackets_same:
  fixes d :: bool
  assumes "masks \<noteq> []" "NewRowMasker masks (int n) = Some m" "0 < n"
  shows "list_all2 (samePacket ld masks n) xs ys \<Longrightarrow> rowsInv m n s \<Longrightarrow>
    runPackets (trackedHooks ld masks redact dec base followed) d xs s =
    runPackets (trackedHooks ld masks redact dec base followed) d ys s"
proof (induction xs ys arbitrary: s rule: list_all2_induct)
  case (Cons x xs y ys)
  let ?h = "trackedHooks ld masks redact dec base followed"
  have "onPacket ?h d (fst x) (snd x) s = onPacket ?h d (fst y) (snd y) s"
    using rowsInv_same[OF assms(1) Cons.prems assms(2,3) Cons.hyps(1)] .
  with Cons.IH rowsInv_packet[OF assms(1) Cons.prems, of ld redact dec base followed d "fst y" "snd y"]
  show ?case by (cases "onPacket ?h d (fst y) (snd y) s") simp_all
qed simp

text \<open>
  The head of a result of \<open>n\<close> columns: the column count, one definition a column and, unless the
  client deprecates EOF, an EOF packet.
\<close>

definition resultHead :: "bool \<Rightarrow> nat \<Rightarrow> (byte \<times> bytes) list \<Rightarrow> bool" where
  "resultHead deprecateEOF n hdr \<longleftrightarrow>
    length hdr = (if deprecateEOF then n + 1 else n + 2) \<and> 0 < n \<and> n < 2 ^ 63 \<and>
    list_all (\<lambda>(sq, p). p \<noteq> [] \<and> hd p \<noteq> 0xff \<and> length p < maxPacketPayload) hdr \<and>
    hd (snd (hd hdr)) \<noteq> 0x00 \<and>
    (case Lenenc (snd (hd hdr)) of Inr (cnt, rest) \<Rightarrow> cnt = word_of_nat n | Inl e \<Rightarrow> False)"

definition columnsInv :: "row_masker \<Rightarrow> nat \<Rightarrow> nat \<Rightarrow> tracked relay_state \<Rightarrow> bool" where
  "columnsInv m n k s \<longleftrightarrow> r_phase s = resultColumnDefs \<and> tk_masker (r_world s) = Some m \<and>
     tk_columnCount (r_world s) = n \<and> \<not> r_fragmenting s \<and> r_columnCount s = n \<and> r_columnsSeen s = k"

definition eofInv :: "row_masker \<Rightarrow> nat \<Rightarrow> tracked relay_state \<Rightarrow> bool" where
  "eofInv m n s \<longleftrightarrow> r_phase s = resultAwaitEOF \<and> tk_masker (r_world s) = Some m \<and>
     tk_columnCount (r_world s) = n \<and> \<not> r_fragmenting s"

lemma goesOn_mono: "goesOn I t \<Longrightarrow> (\<And>s. I s \<Longrightarrow> J s) \<Longrightarrow> goesOn J t"
  by (auto simp: goesOn_def split: turn.splits)

lemma goesOn_runPackets_Cons:
  assumes "goesOn I (onPacket h d (fst x) (snd x) s)" "\<And>u. I u \<Longrightarrow> goesOn J (runPackets h d xs u)"
  shows "goesOn J (runPackets h d (x # xs) s)"
  using assms by (cases "onPacket h d (fst x) (snd x) s") simp_all

lemma first_packet:
  assumes "n < 2 ^ 63" "NewRowMasker masks (int n) = Some m" "r_phase s = resultFirst" "\<not> r_fragmenting s" "r_columnsSeen s = 0"
    and "masks \<noteq> []" "p \<noteq> []" "hd p \<noteq> 0xff" "hd p \<noteq> 0x00" "Lenenc p = Inr (word_of_nat n, rest)"
  shows "goesOn (columnsInv m n 0) (onPacket (trackedHooks ld masks redact dec base followed) d sq p s)"
proof -
  have n: "unat (word_of_nat n :: 64 word) = n" using assms(1) by (simp add: unat_of_nat)
  have "goesOn (columnsInv m n 0) (onFirst (trackedHooks ld masks redact dec base followed) sq p s)"
    using assms n tracked_sink[of ld masks redact dec base followed]
    by (auto simp: onFirst_def columnsInv_def intro!: goesOn_sink split: prod.splits option.splits)
      (auto simp: trackedHooks_def Let_def split: if_splits)
  with assms show ?thesis by (simp add: onPacket_def)
qed

lemma column_packet:
  assumes "columnsInv m n k s" "p \<noteq> []" "hd p \<noteq> 0xff" "length p < maxPacketPayload"
  shows "goesOn (\<lambda>u. if k + 1 = n then (if d then rowsInv m n u else eofInv m n u) else columnsInv m n (k + 1) u)
    (onPacket (trackedHooks ld masks redact dec base followed) d sq p s)"
proof -
  have nocol: "h_OnColumnDef (trackedHooks ld masks redact dec base followed) = None" by (simp add: trackedHooks_def)
  show ?thesis
    using assms tracked_sink[of ld masks redact dec base followed]
    by (auto simp: onPacket_def onColumnDefs_def columnsInv_def nocol completeColumn_def Let_def rowsInv_def eofInv_def
        intro!: goesOn_sink)
qed

lemma eof_packet:
  assumes "eofInv m n s" "p \<noteq> []" "hd p \<noteq> 0xff"
  shows "goesOn (rowsInv m n) (onPacket (trackedHooks ld masks redact dec base followed) d sq p s)"
  using assms tracked_sink[of ld masks redact dec base followed]
  by (auto simp: onPacket_def onAwaitEOF_def eofInv_def rowsInv_def intro!: goesOn_sink)

lemma columns_run:
  assumes "list_all (\<lambda>(sq, p). p \<noteq> [] \<and> hd p \<noteq> 0xff \<and> length p < maxPacketPayload) cols"
    and "columnsInv m n k s" "k < n" "k + length cols = (if d then n else n + 1)"
  shows "goesOn (rowsInv m n) (runPackets (trackedHooks ld masks redact dec base followed) d cols s)"
  using assms
proof (induction cols arbitrary: k s)
  case (Cons x cols)
  let ?h = "trackedHooks ld masks redact dec base followed"
  have x: "snd x \<noteq> []" "hd (snd x) \<noteq> 0xff" "length (snd x) < maxPacketPayload" using Cons.prems(1) by auto
  have rest: "list_all (\<lambda>(sq, p). p \<noteq> [] \<and> hd p \<noteq> 0xff \<and> length p < maxPacketPayload) cols" using Cons.prems(1) by simp
  show ?case
  proof (rule goesOn_runPackets_Cons[OF column_packet[OF Cons.prems(2) x]])
    fix u
    assume u: "if k + 1 = n then if d then rowsInv m n u else eofInv m n u else columnsInv m n (k + 1) u"
    show "goesOn (rowsInv m n) (runPackets ?h d cols u)"
    proof (cases "k + 1 = n")
      case True
      show ?thesis
      proof (cases d)
        case False
        with True Cons.prems(4) obtain e where e: "cols = [e]" by (auto simp: length_Suc_conv)
        have "eofInv m n u" using u True False by simp
        from eof_packet[OF this, of "snd e"] rest have "goesOn (rowsInv m n) (onPacket ?h d (fst e) (snd e) u)"
          by (auto simp: e)
        then show ?thesis unfolding e by (rule goesOn_runPackets_Cons) simp
      next
        case True
        with \<open>k + 1 = n\<close> Cons.prems(4) have "cols = []" by auto
        with u True \<open>k + 1 = n\<close> show ?thesis by simp
      qed
    next
      case False
      with u have "columnsInv m n (k + 1) u" by simp
      with Cons.IH[OF rest this] False Cons.prems(3,4) show ?thesis by simp
    qed
  qed
qed (simp split: if_splits)

lemma head_run:
  assumes "masks \<noteq> []" "resultHead d n hdr" "NewRowMasker masks (int n) = Some m"
    and "r_phase s = resultFirst" "\<not> r_fragmenting s" "r_columnsSeen s = 0"
  shows "goesOn (rowsInv m n) (runPackets (trackedHooks ld masks redact dec base followed) d hdr s)"
proof -
  from assms(2) obtain x cols where hdr: "hdr = x # cols" by (cases hdr) (auto simp: resultHead_def split: if_splits)
  obtain rest where p: "snd x \<noteq> []" "hd (snd x) \<noteq> 0xff" "hd (snd x) \<noteq> 0x00" "Lenenc (snd x) = Inr (word_of_nat n, rest)"
    using assms(2) by (auto simp: resultHead_def hdr split: sum.splits)
  have n: "n < 2 ^ 63" "0 < n" "list_all (\<lambda>(sq, p). p \<noteq> [] \<and> hd p \<noteq> 0xff \<and> length p < maxPacketPayload) cols"
    "0 + length cols = (if d then n else n + 1)"
    using assms(2) by (auto simp: resultHead_def hdr split: if_splits)
  show ?thesis unfolding hdr
    by (rule goesOn_runPackets_Cons[OF first_packet[OF n(1) assms(3-6,1) p]]) (rule columns_run[OF n(3) _ n(2,4)])
qed

lemma runPackets_append:
  "runPackets h d (xs @ ys) s = (case runPackets h d xs s of Continue u \<Rightarrow> runPackets h d ys u | Return c e u \<Rightarrow> Return c e u)"
  by (induction xs arbitrary: s) (auto split: turn.splits)

text \<open>A mask that does not bind stops the result at the column count.\<close>

lemma unbound_head:
  assumes "resultHead d n hdr" "NewRowMasker masks (int n) = None"
    and "r_phase s = resultFirst" "\<not> r_fragmenting s" "masks \<noteq> []"
  shows "goesOn (\<lambda>u. False) (runPackets (trackedHooks ld masks redact dec base followed) d hdr s)"
proof -
  from assms(1) obtain x cols where hdr: "hdr = x # cols" by (cases hdr) (auto simp: resultHead_def split: if_splits)
  obtain rest where p: "snd x \<noteq> []" "hd (snd x) \<noteq> 0xff" "hd (snd x) \<noteq> 0x00" "Lenenc (snd x) = Inr (word_of_nat n, rest)"
    using assms(1) by (auto simp: resultHead_def hdr split: sum.splits)
  have n: "unat (word_of_nat n :: 64 word) = n" using assms(1) by (simp add: unat_of_nat resultHead_def)
  have "goesOn (\<lambda>u. False) (onFirst (trackedHooks ld masks redact dec base followed) (fst x) (snd x) s)"
    using p n assms(2,5) by (auto simp: onFirst_def trackedHooks_def Let_def)
  with assms(3,4) p have "goesOn (\<lambda>u. False) (onPacket (trackedHooks ld masks redact dec base followed) d (fst x) (snd x) s)"
    by (simp add: onPacket_def)
  then show ?thesis unfolding hdr by (rule goesOn_runPackets_Cons) simp
qed

lemma samePacket_physical: "list_all2 (samePacket ld masks n) xs ys \<Longrightarrow> physical xs \<Longrightarrow> physical ys"
  by (induction xs ys rule: list_all2_induct) (auto simp: physical_def samePacket_def sameShownRow_def)

lemma relayLoop_same:
  assumes "masks \<noteq> []" "resultHead d n hdr" "list_all2 (samePacket ld masks n) xs ys" "physical (hdr @ xs)"
    and "r_phase s = resultFirst" "\<not> r_fragmenting s" "r_columnsSeen s = 0"
  shows "strip (relayLoop (trackedHooks ld masks redact dec base followed) d (s\<lparr>r_target := frames (hdr @ xs) @ rest\<rparr>)) =
    strip (relayLoop (trackedHooks ld masks redact dec base followed) d (s\<lparr>r_target := frames (hdr @ ys) @ rest\<rparr>))"
proof -
  let ?h = "trackedHooks ld masks redact dec base followed"
  obtain f where f: "h_OnRow ?h = Some f" using assms(1) by (simp add: trackedHooks_def)
  have phys: "physical (hdr @ ys)" using assms(4) samePacket_physical[OF assms(3)] by (simp add: physical_def)
  have "runPackets ?h d (hdr @ xs) s = runPackets ?h d (hdr @ ys) s"
  proof (cases "NewRowMasker masks (int n)")
    case None
    have "goesOn (\<lambda>u. False) (runPackets ?h d hdr s)" by (rule unbound_head[OF assms(2) None assms(5,6,1)])
    then show ?thesis by (cases "runPackets ?h d hdr s") (simp_all add: runPackets_append)
  next
    case (Some m)
    have n: "0 < n" using assms(2) by (simp add: resultHead_def)
    have "goesOn (rowsInv m n) (runPackets ?h d hdr s)" by (rule head_run[OF assms(1,2) Some assms(5-7)])
    with runPackets_same[OF assms(1) Some n assms(3)] show ?thesis
      by (cases "runPackets ?h d hdr s") (simp_all add: runPackets_append)
  qed
  then show ?thesis unfolding relayLoop_frames[OF f assms(4)] relayLoop_frames[OF f phys] by simp
qed

subsection \<open>The relayed result\<close>

lemma tracked_within_cap:
  assumes "is_int64 (dc_MaxBytes dec)" "is_int64 (dc_MaxRows dec)"
  shows "withinCap dec (rr_stats (relayQueryResponseTracked ld d masks redact (Some dec) base followed targetDb client))"
proof (cases "relayResultSet (trackedHooks ld masks redact (Some dec) base followed) d targetDb client")
  case (fields ok err s)
  with relay_within_cap[OF assms fields] show ?thesis
    by (simp add: relayQueryResponseTracked_def Let_def split: option.splits prod.splits)
qed

lemma tracked_strip:
  assumes "strip (relayResultSet (trackedHooks ld masks redact dec base followed) d target client) =
    strip (relayResultSet (trackedHooks ld masks redact dec base followed) d target' client)"
  shows "(relayQueryResponseTracked ld d masks redact dec base followed target client)\<lparr>rr_target := []\<rparr> =
    (relayQueryResponseTracked ld d masks redact dec base followed target' client)\<lparr>rr_target := []\<rparr>"
proof -
  obtain ok err s where r: "relayResultSet (trackedHooks ld masks redact dec base followed) d target client = (ok, err, s)"
    by (cases "relayResultSet (trackedHooks ld masks redact dec base followed) d target client")
  obtain ok' err' s' where r': "relayResultSet (trackedHooks ld masks redact dec base followed) d target' client = (ok', err', s')"
    by (cases "relayResultSet (trackedHooks ld masks redact dec base followed) d target' client")
  from assms have eq: "ok = ok'" "err = err'" and s: "s\<lparr>r_target := []\<rparr> = s'\<lparr>r_target := []\<rparr>"
    by (simp_all add: r r' strip_def)
  from s have "r_world s = r_world s'" "r_stats s = r_stats s'" "r_capped s = r_capped s'"
    by (metis relay_state.ext_inject relay_state.surjective relay_state.update_convs(8))+
  then show ?thesis
    by (simp add: relayQueryResponseTracked_def r r' eq Let_def split: option.splits prod.splits relay_error.splits)
qed

text \<open>
  C20: the client of a masked query learns nothing of what the masks hide. Two target streams with the
  same result head, whose packets agree pairwise, except that a row may be exchanged for another row of
  the same size that agrees on everything the masks show, are relayed alike: the packets written to the
  client, the statistics, the clean flag, the error and the last sequence number are the same, whatever
  follows on the wire, whichever cap, redaction and sequence base apply, and whether or not the masks bind.
\<close>

theorem masked_result_reveals_only_shown:
  assumes "masks \<noteq> []" "resultHead deprecateEOF n hdr" "list_all2 (samePacket ld masks n) xs ys" "physical (hdr @ xs)"
  shows "(relayQueryResponseTracked ld deprecateEOF masks redactErr dec seqBase followed (frames (hdr @ xs) @ rest) client)
      \<lparr>rr_target := []\<rparr> =
    (relayQueryResponseTracked ld deprecateEOF masks redactErr dec seqBase followed (frames (hdr @ ys) @ rest) client)
      \<lparr>rr_target := []\<rparr>"
proof (rule tracked_strip)
  let ?s = "\<lparr>r_phase = resultFirst, r_columnCount = 0, r_columnsSeen = 0, r_fragmenting = False,
        r_fragmentPhase = resultFirst, r_capped = None, r_stats = \<lparr>rs_Rows = 0, rs_Bytes = 0\<rparr>,
        r_target = [], r_world = client\<rparr>"
  show "strip (relayResultSet (trackedHooks ld masks redactErr dec seqBase followed) deprecateEOF (frames (hdr @ xs) @ rest) client) =
    strip (relayResultSet (trackedHooks ld masks redactErr dec seqBase followed) deprecateEOF (frames (hdr @ ys) @ rest) client)"
    using relayLoop_same[OF assms, of ?s redactErr dec seqBase followed rest] by (simp add: relayResultSet_def)
qed

theorem masked_result_reveals_only_shown_witness:
  "let masks = [\<lparr>cm_Column = ''phone'', cm_Kind = ''FIXED'', cm_Ordinal = Some 0\<rparr>];
       hdr = [(1, [1]), (2, [3, 100, 101, 102])];
       relay = (\<lambda>v. (relayQueryResponseTracked (\<lambda>u. True) True masks None None 0 False
         (frames (hdr @ [(3, TextRowPayload [Some v])]))
         \<lparr>tk_out = [], tk_room = 100, tk_columnCount = 0, tk_masker = None, tk_lastSeq = 0, tk_cancelled = False\<rparr>)\<lparr>rr_target := []\<rparr>)
   in relay ''555-1234'' = relay ''555-9876''"
proof -
  let ?masks = "[\<lparr>cm_Column = ''phone'', cm_Kind = ''FIXED'', cm_Ordinal = Some 0\<rparr>]"
  let ?hdr = "[(1, [1]), (2, [3, 100, 101, 102])] :: (byte \<times> bytes) list"
  let ?xs = "[(3, TextRowPayload [Some ''555-1234''])] :: (byte \<times> bytes) list"
  let ?ys = "[(3, TextRowPayload [Some ''555-9876''])] :: (byte \<times> bytes) list"
  have len: "length (TextRowPayload [Some v]) = 9" if "length v = 8" for v
    using that by (simp add: TextRowPayload_concat encodeValue_Some AppendLenenc_def)
  have head: "resultHead True 1 ?hdr" by (simp add: resultHead_def Lenenc_def pbind_def pret_def U8_def maxPacketPayload_eq)
  have "sameShownRow (\<lambda>u. True) ?masks 1 (TextRowPayload [Some ''555-1234'']) (TextRowPayload [Some ''555-9876''])"
    unfolding sameShownRow_def
    by (rule exI[of _ "[Some ''555-1234'']"], rule exI[of _ "[Some ''555-9876'']"])
      (simp add: len maxPacketPayload_eq visible_def maskFor_def shown_def)
  then have same: "list_all2 (samePacket (\<lambda>u. True) ?masks 1) ?xs ?ys" by (simp add: samePacket_def)
  have phys: "physical (?hdr @ ?xs)" by (simp add: physical_def maxPacketPayload_eq len)
  show ?thesis
    using masked_result_reveals_only_shown[OF _ head same phys, of None None 0 False "[]"
        "\<lparr>tk_out = [], tk_room = 100, tk_columnCount = 0, tk_masker = None, tk_lastSeq = 0, tk_cancelled = False\<rparr>"] by (simp add: Let_def)
qed



end
