(* ===== verification/Cedar.thy ===== *)
theory Cedar
  imports Worm "HOL-Library.AList"
begin

text \<open>
  The policy engine of the control plane (\<^verbatim>\<open>authz/CedarEngine.kt\<close>): the policy set with what
  is derived from it, the tag vocabulary and the cap annotations, rebuilt when the version of the policy
  store moves, the ancestry of an action, and the question put to Cedar. Cedar itself is a parameter: a
  function from the policies, the request and the entities to a response, and so are its parser of
  annotations and of addresses. A string is the text in UTF-8.
\<close>

subsection \<open>Entities and requests\<close>

type_synonym euid = "string \<times> string"

datatype cedar_value = PrimString string | PrimBool bool | PrimLong int64 | EntityValue euid
  | IpAddress string | Unknown string | CedarList "cedar_value list"

type_synonym cedar_context = "(string \<times> cedar_value) list"

record entity =
  en_uid :: euid
  en_attrs :: "(string \<times> cedar_value) list"
  en_parents :: "euid set"

record cedar_request =
  cr_principal :: euid
  cr_entities :: "entity list"

text \<open>
  A response has no success payload, with the messages of the engine when it gave any, or has one: the
  allow flag, the evaluation errors, the determining policies.
\<close>

datatype cedar_response = Failure "string list option" | Success bool "string list" "string list"

subsection \<open>Cap annotations\<close>

type_synonym big_decimal = "nat \<times> nat"

definition leDecimal :: "big_decimal \<Rightarrow> big_decimal \<Rightarrow> bool" where
  "leDecimal a b \<longleftrightarrow> fst a * 10 ^ snd b \<le> fst b * 10 ^ snd a"

definition decimalOne :: big_decimal where
  "decimalOne = (1, 0)"

definition plainString :: "big_decimal \<Rightarrow> string" where
  "plainString d =
    (let ip = fst d div 10 ^ snd d; fp = fst d mod 10 ^ snd d; ds = nat_str fp
     in if fp = 0 then nat_str ip
        else nat_str ip @ ''.'' @
          rev (dropWhile (\<lambda>c. c = CHR ''0'') (rev (replicate (snd d - length ds) (CHR ''0'') @ ds))))"

record rate =
  rt_rows :: "int64 option"
  rt_bytes :: "int64 option"
  rt_window :: int64
  rt_spec :: string

record result_cap =
  rc_rows :: "int64 option"
  rc_bytes :: "int64 option"
  rc_rates :: "rate list"
  rc_boost :: "big_decimal option"

datatype cap_error = EmptyEntry string | BadAmount string | BadWindow string | WindowTooLong string
  | BadBoost string | CapOverflow

definition noCap :: result_cap where
  "noCap = \<lparr>rc_rows = None, rc_bytes = None, rc_rates = [], rc_boost = None\<rparr>"

definition isEmptyCap :: "result_cap \<Rightarrow> bool" where
  "isEmptyCap c \<longleftrightarrow> rc_rows c = None \<and> rc_bytes c = None \<and> rc_rates c = [] \<and> rc_boost c = None"

text \<open>\<^verbatim>\<open>longValueExact\<close> and \<^verbatim>\<open>multiplyExact\<close> throw outside 64 bits.\<close>

definition exact64 :: "int \<Rightarrow> (cap_error, int64) result" where
  "exact64 n = (if is_int64 n then Inr n else Inl CapOverflow)"

definition timesFactor :: "big_decimal \<Rightarrow> int64 \<Rightarrow> (cap_error, int64) result" where
  "timesFactor factor n = exact64 (n * int (fst factor) div 10 ^ snd factor)"

definition timesOption :: "big_decimal \<Rightarrow> int64 option \<Rightarrow> (cap_error, int64 option) result" where
  "timesOption factor v = (case v of None \<Rightarrow> Inr None | Some n \<Rightarrow> rbind (timesFactor factor n) (\<lambda>m. Inr (Some m)))"

definition boosted :: "big_decimal \<Rightarrow> rate \<Rightarrow> (cap_error, rate) result" where
  "boosted factor r =
    (if leDecimal factor decimalOne \<and> leDecimal decimalOne factor then Inr r
     else rbind (timesOption factor (rt_rows r)) (\<lambda>rows.
          rbind (timesOption factor (rt_bytes r)) (\<lambda>bs.
          Inr \<lparr>rt_rows = rows, rt_bytes = bs, rt_window = rt_window r,
               rt_spec = rt_spec r @ '' x'' @ plainString factor\<rparr>)))"

text \<open>The characters Kotlin's \<^verbatim>\<open>trim\<close> strips, and those the \<^verbatim>\<open>s\<close> class matches.\<close>

definition utf8 :: "nat list \<Rightarrow> string" where
  "utf8 ns = map char_of ns"

definition ktSpaces :: "string list" where
  "ktSpaces = map (\<lambda>n. utf8 [n]) ([9, 10, 11, 12, 13] @ [28, 29, 30, 31, 32]) @
     [utf8 [194, 160], utf8 [225, 154, 128]] @ map (\<lambda>n. utf8 [226, 128, n]) ([128..<139] @ [168, 169, 175]) @
     [utf8 [226, 129, 159], utf8 [227, 128, 128]]"

function stripRunes :: "string list \<Rightarrow> string \<Rightarrow> string" where
  "stripRunes rs s =
    (case find (\<lambda>r. r \<noteq> [] \<and> prefix r s) rs of None \<Rightarrow> s | Some r \<Rightarrow> stripRunes rs (drop (length r) s))"
  by pat_completeness auto
termination
  by (relation "measure (length \<circ> snd)") (auto simp: find_Some_iff prefix_def)

definition ktTrim :: "string \<Rightarrow> string" where
  "ktTrim s = rev (stripRunes (map rev ktSpaces) (rev (stripRunes ktSpaces s)))"

definition isDigit :: "char \<Rightarrow> bool" where
  "isDigit c \<longleftrightarrow> char_digit c \<noteq> None"

definition regexSpace :: "char \<Rightarrow> bool" where
  "regexSpace c \<longleftrightarrow> c \<in> set (map char_of [32, 9, 10, 11, 12, 13 :: nat])"

fun splitOn :: "char \<Rightarrow> string \<Rightarrow> string list" where
  "splitOn c [] = [[]]"
| "splitOn c (x # xs) = (if x = c then [] # splitOn c xs else (x # hd (splitOn c xs)) # tl (splitOn c xs))"

definition toLongOrNull :: "string \<Rightarrow> int64 option" where
  "toLongOrNull s = (case parse_nat s of Some n \<Rightarrow> if is_int64 (int n) then Some (int n) else None | None \<Rightarrow> None)"

text \<open>\<^verbatim>\<open>(\d+)\s*\<close> and what follows: the digits and the rest.\<close>

definition digitsThen :: "string \<Rightarrow> (int64 \<times> string) option" where
  "digitsThen s =
    (case toLongOrNull (takeWhile isDigit s) of
       Some n \<Rightarrow> if 0 < n then Some (n, dropWhile regexSpace (dropWhile isDigit s)) else None
     | None \<Rightarrow> None)"

text \<open>
  The suffix is matched without case over Unicode, where the Kelvin sign folds to K; its upper case is
  itself, so it selects no multiplier.
\<close>

definition amountSuffixes :: "(string \<times> int64 option) list" where
  "amountSuffixes = ([], None) #
     concat (map (\<lambda>b. [(''K'' @ b, Some 1000), (''k'' @ b, Some 1000), (''M'' @ b, Some 1000000), (''m'' @ b, Some 1000000),
       (''G'' @ b, Some 1000000000), (''g'' @ b, Some 1000000000), (utf8 [226, 132, 170] @ b, None)]) [''B'', ''b''])"

definition parseAmount :: "string \<Rightarrow> (cap_error, int64 option \<times> int64 option) result" where
  "parseAmount raw =
    (case digitsThen (ktTrim raw) of
       None \<Rightarrow> Inl (BadAmount raw)
     | Some (n, rest) \<Rightarrow>
        (case map_of amountSuffixes rest of
           None \<Rightarrow> Inl (BadAmount raw)
         | Some None \<Rightarrow> Inr (Some n, None)
         | Some (Some k) \<Rightarrow> rbind (exact64 (n * k)) (\<lambda>b. Inr (None, Some b))))"

definition windowUnits :: "(string \<times> int64) list" where
  "windowUnits = [(''m'', 60), (''M'', 60), (''h'', 3600), (''H'', 3600), (''d'', 86400), (''D'', 86400)]"

definition MAX_WINDOW :: int64 where
  "MAX_WINDOW = 31 * 86400"

definition parseWindow :: "string \<Rightarrow> (cap_error, int64) result" where
  "parseWindow raw =
    (case digitsThen (ktTrim raw) of
       None \<Rightarrow> Inl (BadWindow raw)
     | Some (n, rest) \<Rightarrow>
        (case map_of windowUnits rest of
           None \<Rightarrow> Inl (BadWindow raw)
         | Some u \<Rightarrow> rbind (exact64 (n * u)) (\<lambda>w. if w \<le> MAX_WINDOW then Inr w else Inl (WindowTooLong raw))))"

definition minOption :: "int64 option \<Rightarrow> int64 option \<Rightarrow> int64 option" where
  "minOption a b = (case b of None \<Rightarrow> a | Some y \<Rightarrow> Some (case a of None \<Rightarrow> y | Some x \<Rightarrow> min x y))"

definition addEntry :: "string \<Rightarrow> string \<Rightarrow> result_cap \<Rightarrow> (cap_error, result_cap) result" where
  "addEntry raw entry c =
    (if entry = [] then Inl (EmptyEntry raw)
     else if CHR ''/'' \<notin> set entry then
       rbind (parseAmount entry) (\<lambda>(r, b). Inr (c\<lparr>rc_rows := minOption (rc_rows c) r, rc_bytes := minOption (rc_bytes c) b\<rparr>))
     else rbind (parseAmount (takeWhile (\<lambda>x. x \<noteq> CHR ''/'') entry)) (\<lambda>(r, b).
          rbind (parseWindow (tl (dropWhile (\<lambda>x. x \<noteq> CHR ''/'') entry))) (\<lambda>w.
          Inr (c\<lparr>rc_rates := rc_rates c @ [\<lparr>rt_rows = r, rt_bytes = b, rt_window = w, rt_spec = entry\<rparr>]\<rparr>))))"

fun addEntries :: "string \<Rightarrow> string list \<Rightarrow> result_cap \<Rightarrow> (cap_error, result_cap) result" where
  "addEntries raw [] c = Inr c"
| "addEntries raw (e # es) c = rbind (addEntry raw e c) (addEntries raw es)"

definition parseBoost :: "string \<Rightarrow> (cap_error, big_decimal) result" where
  "parseBoost raw =
    (let t = ktTrim raw; ip = takeWhile isDigit t; rest = dropWhile isDigit t; fp = tl rest;
         ok = ip \<noteq> [] \<and> (rest = [] \<or> hd rest = CHR ''.'' \<and> fp \<noteq> [] \<and> list_all isDigit fp)
     in case parse_nat (ip @ fp) of
          Some u \<Rightarrow> if ok \<and> \<not> leDecimal (u, length fp) decimalOne then Inr (u, length fp) else Inl (BadBoost raw)
        | None \<Rightarrow> Inl (BadBoost raw))"

definition parseCap :: "(string \<times> string) list \<Rightarrow> (cap_error, result_cap) result" where
  "parseCap annotations =
    rbind (case map_of annotations ''boost'' of None \<Rightarrow> Inr None | Some b \<Rightarrow> rbind (parseBoost b) (\<lambda>d. Inr (Some d))) (\<lambda>boost.
      case map_of annotations ''cap'' of
        None \<Rightarrow> Inr (noCap\<lparr>rc_boost := boost\<rparr>)
      | Some raw \<Rightarrow> addEntries raw (map ktTrim (splitOn (CHR '','') raw)) (noCap\<lparr>rc_boost := boost\<rparr>))"

subsection \<open>The policy set and its cache\<close>

definition tagAction :: string where
  "tagAction = ''Action::'' @ [char_of (34 :: nat)] @ ''context.tag::''"

function extractContextTagNames :: "string \<Rightarrow> string list" where
  "extractContextTagNames [] = []"
| "extractContextTagNames (c # cs) =
    (let s = c # cs; body = drop (length tagAction) s; name = takeWhile (\<lambda>x. x \<noteq> char_of (34 :: nat)) body
     in if prefix tagAction s \<and> name \<noteq> [] \<and> length name < length body
        then name # extractContextTagNames (drop (length name + 1) body) else extractContextTagNames cs)"
  by pat_completeness auto
termination
  by (relation "measure length") (auto simp: Let_def)

record policy =
  po_id :: string
  po_source :: string

record cache =
  ca_version :: int64
  ca_policies :: "policy list option"
  ca_vocab :: "string list"
  ca_caps :: "(string \<times> result_cap) list"

definition emptyCache :: cache where
  "emptyCache = \<lparr>ca_version = - (2 ^ 63), ca_policies = None, ca_vocab = [], ca_caps = []\<rparr>"

fun capsOfPolicies :: "(string \<Rightarrow> (string \<times> string) list) \<Rightarrow> policy list \<Rightarrow> (cap_error, (string \<times> result_cap) list) result" where
  "capsOfPolicies annotations [] = Inr []"
| "capsOfPolicies annotations (p # ps) =
    rbind (parseCap (annotations (po_source p))) (\<lambda>c.
    rbind (capsOfPolicies annotations ps) (\<lambda>cs. Inr ((po_id p, c) # cs)))"

definition rebuildIfStale :: "(string \<Rightarrow> (string \<times> string) list) \<Rightarrow> int64 \<Rightarrow> (int64 \<times> string) list \<Rightarrow> cache \<Rightarrow> (cap_error, cache) result" where
  "rebuildIfStale annotations v srcs st =
    (if ca_policies st \<noteq> None \<and> v = ca_version st then Inr st
     else let ps = map (\<lambda>(i, src). \<lparr>po_id = ''policy-'' @ FormatInt i, po_source = src\<rparr>) srcs
          in rbind (capsOfPolicies annotations ps) (\<lambda>caps.
             Inr \<lparr>ca_version = v, ca_policies = Some ps,
                  ca_vocab = remdups (concat (map (extractContextTagNames \<circ> snd) srcs)),
                  ca_caps = filter (\<lambda>(i, c). \<not> isEmptyCap c) (AList.clearjunk (rev caps))\<rparr>))"

definition capsOf :: "cache \<Rightarrow> string list \<Rightarrow> result_cap list" where
  "capsOf st reasons = List.map_filter (map_of (ca_caps st)) reasons"

subsection \<open>The ancestry of an action\<close>

function ancestry :: "(string \<times> string list) list \<Rightarrow> (string \<times> string list) list \<Rightarrow> string list \<Rightarrow> (string \<times> string list) list" where
  "ancestry direct out [] = out"
| "ancestry direct out (a # pending) =
    (if a \<in> fst ` set out then ancestry direct out pending
     else let ps = (case map_of direct a of None \<Rightarrow> [] | Some ps \<Rightarrow> ps)
          in ancestry direct ((a, ps) # out) (pending @ ps))"
  by pat_completeness auto
termination
proof (relation "measures [\<lambda>(direct, out, pending). card (fst ` set direct - fst ` set out), \<lambda>(direct, out, pending). length pending]", goal_cases)
  case 1
  show ?case by simp
next
  case (2 direct out a pending)
  then show ?case by simp
next
  case (3 direct out a pending ps)
  show ?case
  proof (cases "a \<in> fst ` set direct")
    case True
    then have "fst ` set direct - insert a (fst ` set out) \<subset> fst ` set direct - fst ` set out"
      using 3 by blast
    then have "card (fst ` set direct - insert a (fst ` set out)) < card (fst ` set direct - fst ` set out)"
      by (intro psubset_card_mono) auto
    then show ?thesis by simp
  next
    case False
    then have "map_of direct a = None" by (simp add: map_of_eq_None_iff)
    moreover from False have "fst ` set direct - insert a (fst ` set out) = fst ` set direct - fst ` set out" by blast
    ultimately show ?thesis using 3 by simp
  qed
qed

text \<open>The parents each action of the schema declares are an argument; a flat action brings no entity.\<close>

definition actionAncestry :: "(string \<times> string list) list \<Rightarrow> string \<Rightarrow> (string \<times> string list) list" where
  "actionAncestry direct a =
    (let out = ancestry direct [] [a] in if length out = 1 \<and> map_of out a = Some [] then [] else out)"

subsection \<open>The engine\<close>

datatype attribute_type = STRING | LONG | BOOL | STRING_SET | USER

datatype satisfiable_verdict = ALLOWED | POSSIBLE | IMPOSSIBLE

text \<open>
  The cache, the declared user attributes and the declared action parents, with what is not this code:
  Cedar's evaluation and partial evaluation, its address parser, and the JSON library's readings of a
  number and a truth value.
\<close>

record cedar_engine =
  ce_cache :: cache
  ce_userAttributes :: "(string \<times> attribute_type) list"
  ce_directParents :: "(string \<times> string list) list"
  ce_eval :: "policy list \<Rightarrow> euid \<Rightarrow> euid \<Rightarrow> euid \<Rightarrow> cedar_context \<Rightarrow> entity list \<Rightarrow> cedar_response"
  ce_partial :: "policy list \<Rightarrow> euid \<Rightarrow> euid \<Rightarrow> euid \<Rightarrow> cedar_context \<Rightarrow> entity list \<Rightarrow> string option option"
  ce_ipParses :: "string \<Rightarrow> bool"
  ce_longOrNull :: "string \<Rightarrow> int64 option"
  ce_booleanOrNull :: "string \<Rightarrow> bool option"

definition policySet :: "cedar_engine \<Rightarrow> policy list" where
  "policySet en = (case ca_policies (ce_cache en) of None \<Rightarrow> [] | Some ps \<Rightarrow> ps)"

definition withResource :: "entity list \<Rightarrow> entity \<Rightarrow> entity list" where
  "withResource es r = (if r \<in> set es then es else es @ [r])"

definition isAuthorized :: "cedar_engine \<Rightarrow> cedar_request \<Rightarrow> euid \<Rightarrow> entity \<Rightarrow> cedar_context \<Rightarrow> cedar_response" where
  "isAuthorized en request action resource ctx =
     ce_eval en (policySet en) (cr_principal request) action (en_uid resource) ctx (withResource (cr_entities request) resource)"

text \<open>A partial evaluation that throws or has no payload is a maybe, as is one without a decision.\<close>

definition satisfiable :: "cedar_engine \<Rightarrow> cedar_request \<Rightarrow> euid \<Rightarrow> entity \<Rightarrow> cedar_context \<Rightarrow> satisfiable_verdict" where
  "satisfiable en request action resource ctx =
    (case ce_partial en (policySet en) (cr_principal request) action (en_uid resource) ctx (withResource (cr_entities request) resource) of
       None \<Rightarrow> POSSIBLE
     | Some d \<Rightarrow> if d = Some ''Deny'' then IMPOSSIBLE else if d = Some ''Allow'' then ALLOWED else POSSIBLE)"

subsection \<open>Lemmas\<close>

definition parentsIn :: "(string \<times> string list) list \<Rightarrow> string \<Rightarrow> string list" where
  "parentsIn direct a = (case map_of direct a of None \<Rightarrow> [] | Some ps \<Rightarrow> ps)"

definition isParent :: "(string \<times> string list) list \<Rightarrow> string \<Rightarrow> string \<Rightarrow> bool" where
  "isParent direct a b \<longleftrightarrow> b \<in> set (parentsIn direct a)"

lemma ancestry_keeps: "set out \<subseteq> set (ancestry direct out pending)"
  by (induction direct out pending rule: ancestry.induct) (auto simp: Let_def)

lemma ancestry_pending: "set pending \<subseteq> fst ` set (ancestry direct out pending)"
proof (induction direct out pending rule: ancestry.induct)
  case (2 direct out a pending)
  show ?case
  proof (cases "a \<in> fst ` set out")
    case True
    then have "a \<in> fst ` set (ancestry direct out pending)" using ancestry_keeps[of out direct pending] by blast
    then show ?thesis using 2(1)[OF True] True by simp
  next
    case False
    have "a \<in> fst ` set (ancestry direct ((a, parentsIn direct a) # out) (pending @ parentsIn direct a))"
      using ancestry_keeps[of "(a, parentsIn direct a) # out" direct "pending @ parentsIn direct a"] by force
    then show ?thesis using 2(2)[OF False refl] False by (simp add: Let_def parentsIn_def)
  qed
qed simp

lemma ancestry_declared:
  "\<forall>(a, ps)\<in>set out. ps = parentsIn direct a \<Longrightarrow> \<forall>(a, ps)\<in>set (ancestry direct out pending). ps = parentsIn direct a"
  by (induction direct out pending rule: ancestry.induct) (auto simp: Let_def parentsIn_def)

lemma ancestry_closed:
  "\<forall>(a, ps)\<in>set out. set ps \<subseteq> fst ` set out \<union> set pending \<Longrightarrow>
   \<forall>(a, ps)\<in>set (ancestry direct out pending). set ps \<subseteq> fst ` set (ancestry direct out pending)"
proof (induction direct out pending rule: ancestry.induct)
  case (2 direct out a pending)
  show ?case
  proof (cases "a \<in> fst ` set out")
    case True
    then have "fst ` set out \<union> set (a # pending) = fst ` set out \<union> set pending" by auto
    with 2(3) have "\<forall>(b, ps)\<in>set out. set ps \<subseteq> fst ` set out \<union> set pending" by simp
    from 2(1)[OF True this] True show ?thesis by simp
  next
    case False
    have "\<forall>(b, ps)\<in>set ((a, parentsIn direct a) # out).
        set ps \<subseteq> fst ` set ((a, parentsIn direct a) # out) \<union> set (pending @ parentsIn direct a)"
      using 2(3) by fastforce
    from 2(2)[OF False refl, folded parentsIn_def, OF this] False show ?thesis by (simp add: Let_def parentsIn_def)
  qed
qed simp

lemma ancestry_reachable:
  "\<forall>b\<in>fst ` set out \<union> set pending. (isParent direct)\<^sup>*\<^sup>* r b \<Longrightarrow>
   \<forall>b\<in>fst ` set (ancestry direct out pending). (isParent direct)\<^sup>*\<^sup>* r b"
proof (induction direct out pending rule: ancestry.induct)
  case (2 direct out a pending)
  show ?case
  proof (cases "a \<in> fst ` set out")
    case True
    with 2(3) have "\<forall>b\<in>fst ` set out \<union> set pending. (isParent direct)\<^sup>*\<^sup>* r b" by simp
    from 2(1)[OF True this] True show ?thesis by simp
  next
    case False
    have a: "(isParent direct)\<^sup>*\<^sup>* r a" using 2(3) by simp
    then have "\<forall>b\<in>set (parentsIn direct a). (isParent direct)\<^sup>*\<^sup>* r b"
      by (auto simp: isParent_def intro: rtranclp.rtrancl_into_rtrancl)
    with 2(3) have "\<forall>b\<in>fst ` set ((a, parentsIn direct a) # out) \<union> set (pending @ parentsIn direct a). (isParent direct)\<^sup>*\<^sup>* r b"
      by auto
    from 2(2)[OF False refl, folded parentsIn_def, OF this] False show ?thesis by (simp add: Let_def parentsIn_def)
  qed
qed simp

lemma ancestry_exact: "fst ` set (ancestry direct [] [a]) = {b. (isParent direct)\<^sup>*\<^sup>* a b}"
proof
  show "fst ` set (ancestry direct [] [a]) \<subseteq> {b. (isParent direct)\<^sup>*\<^sup>* a b}"
    using ancestry_reachable[of "[]" "[a]" direct a] by auto
next
  have "b \<in> fst ` set (ancestry direct [] [a])" if "(isParent direct)\<^sup>*\<^sup>* a b" for b
    using that
  proof (induction rule: rtranclp_induct)
    case base
    show ?case using ancestry_pending[of "[a]" direct "[]"] by simp
  next
    case (step b c)
    then obtain ps where ps: "(b, ps) \<in> set (ancestry direct [] [a])" by auto
    then have "ps = parentsIn direct b" using ancestry_declared[of "[]" direct "[a]"] by auto
    moreover from ps have "set ps \<subseteq> fst ` set (ancestry direct [] [a])" using ancestry_closed[of "[]" "[a]" direct] by auto
    ultimately show ?case using step(2) by (auto simp: isParent_def)
  qed
  then show "{b. (isParent direct)\<^sup>*\<^sup>* a b} \<subseteq> fst ` set (ancestry direct [] [a])" by blast
qed

end
