(* ===== verification/Classification.thy ===== *)
theory Classification
  imports Cedar
begin

text \<open>
  The shipped classification of system objects: tags, manifests and the compiled classifier
  (\<^verbatim>\<open>engine/.../classification\<close>) and the service that picks the manifest of a datasource
  (\<^verbatim>\<open>SystemClassificationService.kt\<close>). Names in manifests are ASCII, where lower-casing is
  \<^const>\<open>ToLowerKey\<close>. What the engine definition computes from a version text or a schema name is a
  parameter.
\<close>

subsection \<open>Tags and manifests\<close>

datatype system_tag = CRITICAL | DATA_LEAK | ACTIVITY | CATALOG

fun tag_id :: "system_tag \<Rightarrow> string" where
  "tag_id CRITICAL = ''system:critical''"
| "tag_id DATA_LEAK = ''system:data-leak''"
| "tag_id ACTIVITY = ''system:activity''"
| "tag_id CATALOG = ''system:catalog''"

fun tag_ordinal :: "system_tag \<Rightarrow> nat" where
  "tag_ordinal CRITICAL = 0"
| "tag_ordinal DATA_LEAK = 1"
| "tag_ordinal ACTIVITY = 2"
| "tag_ordinal CATALOG = 3"

definition fromId :: "string \<Rightarrow> system_tag option" where
  "fromId i = find (\<lambda>t. tag_id t = i) [CRITICAL, DATA_LEAK, ACTIVITY, CATALOG]"

definition stronger :: "system_tag \<Rightarrow> system_tag \<Rightarrow> system_tag" where
  "stronger a b = (if tag_ordinal a \<le> tag_ordinal b then a else b)"

text \<open>The order of the enumeration, the strongest tag first.\<close>

instantiation system_tag :: linorder
begin

definition less_eq_system_tag :: "system_tag \<Rightarrow> system_tag \<Rightarrow> bool" where
  "less_eq_system_tag a b \<longleftrightarrow> tag_ordinal a \<le> tag_ordinal b"

definition less_system_tag :: "system_tag \<Rightarrow> system_tag \<Rightarrow> bool" where
  "less_system_tag a b \<longleftrightarrow> tag_ordinal a < tag_ordinal b"

instance
proof
  fix a b :: system_tag
  show "a \<le> b \<Longrightarrow> b \<le> a \<Longrightarrow> a = b"
    by (cases a; cases b) (simp_all add: less_eq_system_tag_def)
qed (auto simp: less_eq_system_tag_def less_system_tag_def)

end

record system_schema =
  sy_catalog :: string
  sy_schema :: string

record object_rule =
  or_schema :: string
  or_name :: string
  or_tag :: string

record family_rule =
  fr_schema :: string
  fr_prefix :: string
  fr_tag :: string

record column_rule =
  cu_schema :: string
  cu_table :: string
  cu_column :: string
  cu_tag :: string

record redacted_rule =
  rr_schema :: string
  rr_table :: string
  rr_column :: string

record command_rule =
  co_id :: string
  co_resource :: string
  co_tag :: string

record manifest =
  mf_engine :: string
  mf_series :: string
  mf_systemSchemas :: "system_schema list"
  mf_logicalFunctionSchemas :: "system_schema list"
  mf_relations :: "object_rule list"
  mf_relationFamilies :: "family_rule list"
  mf_columnOverrides :: "column_rule list"
  mf_redactedColumns :: "redacted_rule list"
  mf_functions :: "object_rule list"
  mf_functionFamilies :: "family_rule list"
  mf_commands :: "command_rule list"

subsection \<open>Compiling a manifest\<close>

datatype manifest_error =
    NonSystemTag string | DuplicateExact string string | DuplicateColumn string string string | WildcardRelation
  | OverrideOutside string string string | DuplicateRedacted | RedactedOutside string string string
  | RedactedNonCatalog string string string | OverlappingFamilies string string string
  | WeakerExact string string string | ManifestMissing string | MalformedManifest string
  | PathMismatch string | DuplicateManifest string string

type_synonym families = "(string \<times> (string \<times> system_tag) list) list"

record classifier =
  cf_manifest :: manifest
  cf_systemSchemas :: "string list"
  cf_logicalSchemas :: "string list"
  cf_relationExact :: "((string \<times> string) \<times> system_tag) list"
  cf_functionExact :: "((string \<times> string) \<times> system_tag) list"
  cf_columnOverrides :: "((string \<times> string \<times> string) \<times> system_tag) list"
  cf_relationFamilies :: families
  cf_functionFamilies :: families
  cf_redactedColumns :: "(string \<times> string \<times> string) list"
  cf_commandTags :: "(string \<times> system_tag) list"
  cf_functionAnySchema :: "(string \<times> system_tag) list"

definition requireTag :: "string \<Rightarrow> (manifest_error, system_tag) result" where
  "requireTag i = (case fromId i of None \<Rightarrow> Inl (NonSystemTag i) | Some t \<Rightarrow> Inr t)"

fun exactMap :: "object_rule list \<Rightarrow> ((string \<times> string) \<times> system_tag) list \<Rightarrow>
    (manifest_error, ((string \<times> string) \<times> system_tag) list) result" where
  "exactMap [] out = Inr out"
| "exactMap (r # rs) out =
    (if or_schema r = ''*'' then exactMap rs out
     else rbind (requireTag (or_tag r)) (\<lambda>t.
       let key = (ToLowerKey (or_schema r), ToLowerKey (or_name r))
       in if map_of out key \<notin> {None, Some t} then Inl (DuplicateExact (or_schema r) (or_name r))
          else exactMap rs (AList.update key t out)))"

fun columnMap :: "column_rule list \<Rightarrow> ((string \<times> string \<times> string) \<times> system_tag) list \<Rightarrow>
    (manifest_error, ((string \<times> string \<times> string) \<times> system_tag) list) result" where
  "columnMap [] out = Inr out"
| "columnMap (r # rs) out =
    rbind (requireTag (cu_tag r)) (\<lambda>t.
      let key = (ToLowerKey (cu_schema r), ToLowerKey (cu_table r), ToLowerKey (cu_column r))
      in if map_of out key \<notin> {None, Some t} then Inl (DuplicateColumn (cu_schema r) (cu_table r) (cu_column r))
         else columnMap rs (AList.update key t out))"

definition familiesOf :: "families \<Rightarrow> string \<Rightarrow> (string \<times> system_tag) list" where
  "familiesOf fs s = (case map_of fs s of None \<Rightarrow> [] | Some ps \<Rightarrow> ps)"

fun familyMap :: "family_rule list \<Rightarrow> families \<Rightarrow> (manifest_error, families) result" where
  "familyMap [] out = Inr out"
| "familyMap (r # rs) out =
    rbind (requireTag (fr_tag r)) (\<lambda>t.
      let s = ToLowerKey (fr_schema r) in familyMap rs (AList.update s (familiesOf out s @ [(ToLowerKey (fr_prefix r), t)]) out))"

fun associateTags :: "(string \<times> string) list \<Rightarrow> (string \<times> system_tag) list \<Rightarrow> (manifest_error, (string \<times> system_tag) list) result" where
  "associateTags [] out = Inr out"
| "associateTags ((k, i) # rs) out = rbind (requireTag i) (\<lambda>t. associateTags rs (AList.update k t out))"

definition classifySystemRelation :: "classifier \<Rightarrow> string \<Rightarrow> string \<Rightarrow> system_tag" where
  "classifySystemRelation c s n =
    fold (\<lambda>(p, t) tag. if prefix p n then stronger tag t else tag) (familiesOf (cf_relationFamilies c) s)
      (case map_of (cf_relationExact c) (s, n) of None \<Rightarrow> CATALOG | Some t \<Rightarrow> stronger CATALOG t)"

definition overlapping :: "string \<times> (string \<times> system_tag) list \<Rightarrow> manifest_error option" where
  "overlapping sf =
    map_option (\<lambda>((i, pa, ta), (j, pb, tb)). OverlappingFamilies (fst sf) pa pb)
      (find (\<lambda>((i, pa, ta), (j, pb, tb)). i \<noteq> j \<and> prefix pb pa \<and> ta \<noteq> tb)
        (List.product (enumerate 0 (snd sf)) (enumerate 0 (snd sf))))"

definition downgraded :: "families \<Rightarrow> (string \<times> string) \<times> system_tag \<Rightarrow> manifest_error option" where
  "downgraded fs e =
    (case e of ((s, n), t) \<Rightarrow>
      map_option (\<lambda>(p, ft). WeakerExact s n p) (find (\<lambda>(p, ft). prefix p n \<and> tag_ordinal t > tag_ordinal ft) (familiesOf fs s)))"

fun firstError :: "('a \<Rightarrow> 'e option) \<Rightarrow> 'a list \<Rightarrow> 'e option" where
  "firstError f [] = None"
| "firstError f (x # xs) = (case f x of Some e \<Rightarrow> Some e | None \<Rightarrow> firstError f xs)"

definition redactedKey :: "redacted_rule \<Rightarrow> string \<times> string \<times> string" where
  "redactedKey r = (ToLowerKey (rr_schema r), ToLowerKey (rr_table r), ToLowerKey (rr_column r))"

text \<open>
  The overlap check runs over the union of the two maps of families, where the entry of the functions
  replaces that of the relations for a schema that has both.
\<close>

definition validateManifest :: "classifier \<Rightarrow> manifest_error option" where
  "validateManifest c =
    (let m = cf_manifest c;
         both = filter (\<lambda>(s, fs). map_of (cf_functionFamilies c) s = None) (cf_relationFamilies c) @ cf_functionFamilies c
     in firstError id
        [if ''*'' \<in> set (map or_schema (mf_relations m) @ map fr_schema (mf_relationFamilies m)) then Some WildcardRelation else None,
         firstError (\<lambda>r. if ToLowerKey (cu_schema r) \<in> set (cf_systemSchemas c) then None
           else Some (OverrideOutside (cu_schema r) (cu_table r) (cu_column r))) (mf_columnOverrides m),
         (if distinct (map redactedKey (mf_redactedColumns m)) then None else Some DuplicateRedacted),
         firstError (\<lambda>r.
           if ToLowerKey (rr_schema r) \<notin> set (cf_systemSchemas c) then Some (RedactedOutside (rr_schema r) (rr_table r) (rr_column r))
           else if classifySystemRelation c (ToLowerKey (rr_schema r)) (ToLowerKey (rr_table r)) \<noteq> CATALOG
           then Some (RedactedNonCatalog (rr_schema r) (rr_table r) (rr_column r)) else None) (mf_redactedColumns m),
         firstError overlapping both,
         firstError (downgraded (cf_relationFamilies c)) (cf_relationExact c),
         firstError (downgraded (cf_functionFamilies c)) (cf_functionExact c)])"

definition SystemClassifier :: "manifest \<Rightarrow> (manifest_error, classifier) result" where
  "SystemClassifier m =
    rbind (exactMap (mf_relations m) []) (\<lambda>relationExact.
    rbind (exactMap (mf_functions m) []) (\<lambda>functionExact.
    rbind (columnMap (mf_columnOverrides m) []) (\<lambda>columnOverrides.
    rbind (familyMap (mf_relationFamilies m) []) (\<lambda>relationFamilies.
    rbind (familyMap (mf_functionFamilies m) []) (\<lambda>functionFamilies.
    rbind (associateTags (map (\<lambda>r. (co_id r, co_tag r)) (mf_commands m)) []) (\<lambda>commandTags.
    rbind (associateTags (map (\<lambda>r. (ToLowerKey (or_name r), or_tag r)) (filter (\<lambda>r. or_schema r = ''*'') (mf_functions m))) []) (\<lambda>anySchema.
    let c = \<lparr>cf_manifest = m, cf_systemSchemas = map (ToLowerKey \<circ> sy_schema) (mf_systemSchemas m),
             cf_logicalSchemas = map (ToLowerKey \<circ> sy_schema) (mf_logicalFunctionSchemas m),
             cf_relationExact = relationExact, cf_functionExact = functionExact, cf_columnOverrides = columnOverrides,
             cf_relationFamilies = relationFamilies, cf_functionFamilies = functionFamilies,
             cf_redactedColumns = map redactedKey (mf_redactedColumns m),
             cf_commandTags = commandTags, cf_functionAnySchema = anySchema\<rparr>
    in case validateManifest c of None \<Rightarrow> Inr c | Some e \<Rightarrow> Inl e)))))))"

subsection \<open>Classifying\<close>

definition isSystemSchema :: "classifier \<Rightarrow> string \<Rightarrow> string \<Rightarrow> bool" where
  "isSystemSchema c cat s \<longleftrightarrow>
    list_ex (\<lambda>x. sy_schema x = s \<and> (sy_catalog x = ''*'' \<or> sy_catalog x = cat)) (mf_systemSchemas (cf_manifest c))"

definition classifyRelation :: "classifier \<Rightarrow> string \<Rightarrow> string \<Rightarrow> string \<Rightarrow> system_tag option" where
  "classifyRelation c cat s n = (if isSystemSchema c cat s then Some (classifySystemRelation c s n) else None)"

definition classifyColumn :: "classifier \<Rightarrow> string \<Rightarrow> string \<Rightarrow> string \<Rightarrow> string \<Rightarrow> system_tag option" where
  "classifyColumn c cat s tbl col =
    (if isSystemSchema c cat s
     then Some (case map_of (cf_columnOverrides c) (s, tbl, col) of Some t \<Rightarrow> t | None \<Rightarrow> classifySystemRelation c s tbl)
     else None)"

definition classifierRedacts :: "classifier \<Rightarrow> string \<Rightarrow> string \<Rightarrow> string \<Rightarrow> string \<Rightarrow> bool" where
  "classifierRedacts c cat s tbl col \<longleftrightarrow> isSystemSchema c cat s \<and> (s, tbl, col) \<in> set (cf_redactedColumns c)"

definition combine :: "system_tag option \<Rightarrow> system_tag \<Rightarrow> system_tag option" where
  "combine cur t = Some (case cur of None \<Rightarrow> t | Some u \<Rightarrow> stronger u t)"

definition combineOpt :: "system_tag option \<Rightarrow> system_tag option \<Rightarrow> system_tag option" where
  "combineOpt new cur = (case new of None \<Rightarrow> cur | Some t \<Rightarrow> combine cur t)"

definition combineFamilies :: "string \<Rightarrow> (string \<times> system_tag) list \<Rightarrow> system_tag option \<Rightarrow> system_tag option" where
  "combineFamilies n fs = fold (\<lambda>(p, t) cur. if prefix p n then combine cur t else cur) fs"

definition anySchemaTag :: "classifier \<Rightarrow> string \<Rightarrow> system_tag option" where
  "anySchemaTag c n =
     combineFamilies n (familiesOf (cf_functionFamilies c) ''*'') (combineOpt (map_of (cf_functionAnySchema c) n) None)"

definition schemaTag :: "classifier \<Rightarrow> string \<Rightarrow> string \<Rightarrow> system_tag option \<Rightarrow> system_tag option" where
  "schemaTag c n s cur =
     combineFamilies n (familiesOf (cf_functionFamilies c) s) (combineOpt (map_of (cf_functionExact c) (s, n)) cur)"

definition classifyFunction :: "classifier \<Rightarrow> string \<Rightarrow> string \<Rightarrow> string \<Rightarrow> system_tag option" where
  "classifyFunction c cat s n =
    (if isSystemSchema c cat s \<or> s \<in> set (cf_logicalSchemas c)
     then schemaTag c n s (combine (anySchemaTag c n) CATALOG) else anySchemaTag c n)"

definition classifyFunctionIn :: "classifier \<Rightarrow> string list \<Rightarrow> string \<Rightarrow> system_tag option" where
  "classifyFunctionIn c schemas n = fold (schemaTag c n) schemas (anySchemaTag c n)"

definition classifyBareFunction :: "classifier \<Rightarrow> string \<Rightarrow> system_tag option" where
  "classifyBareFunction c n = classifyFunctionIn c (remdups (cf_systemSchemas c @ cf_logicalSchemas c)) n"

definition holdsBuiltinFunctions :: "classifier \<Rightarrow> string \<Rightarrow> bool" where
  "holdsBuiltinFunctions c s \<longleftrightarrow> s \<in> set (cf_systemSchemas c) \<or> s \<in> set (cf_logicalSchemas c)"

definition classifyQualifiedFunction :: "classifier \<Rightarrow> string \<Rightarrow> string \<Rightarrow> system_tag option" where
  "classifyQualifiedFunction c s n = classifyFunctionIn c (if holdsBuiltinFunctions c s then [s] else []) n"

definition classifyCommand :: "classifier \<Rightarrow> string \<Rightarrow> system_tag option" where
  "classifyCommand c i = map_of (cf_commandTags c) i"

subsection \<open>The store of manifests\<close>

type_synonym class_store = "((string \<times> string) \<times> classifier) list"

definition toIntOrNull :: "string \<Rightarrow> int option" where
  "toIntOrNull s =
    (let neg = (take 1 s = ''-''); body = (if take 1 s = ''-'' \<or> take 1 s = ''+'' then drop 1 s else s)
     in case parse_nat body of
          None \<Rightarrow> None
        | Some n \<Rightarrow> let v = (if neg then - int n else int n) in if is_int32 v then Some v else None)"

definition seriesKey :: "string \<Rightarrow> int" where
  "seriesKey series =
    (let parts = splitOn (CHR ''.'') series;
         part = (\<lambda>i. if i < length parts then (case toIntOrNull (parts ! i) of Some v \<Rightarrow> v | None \<Rightarrow> 0) else 0)
     in sint (word_of_int (part 0 * 1000 + part 1) :: 32 word))"

text \<open>The first candidate of the largest, and of the smallest key.\<close>

definition maxByKey :: "string \<Rightarrow> string list \<Rightarrow> string" where
  "maxByKey x xs = fold (\<lambda>y m. if seriesKey m < seriesKey y then y else m) xs x"

definition minByKey :: "string \<Rightarrow> string list \<Rightarrow> string" where
  "minByKey x xs = fold (\<lambda>y m. if seriesKey y < seriesKey m then y else m) xs x"

definition nearestSeries :: "class_store \<Rightarrow> string \<Rightarrow> string \<Rightarrow> string option" where
  "nearestSeries st eng requested =
    (let candidates = map (snd \<circ> fst) (filter (\<lambda>((e, s), c). e = eng) st)
     in case filter (\<lambda>s. seriesKey s \<le> seriesKey requested) candidates of
          y # ys \<Rightarrow> Some (maxByKey y ys)
        | [] \<Rightarrow> (case candidates of [] \<Rightarrow> None | y # ys \<Rightarrow> Some (minByKey y ys)))"

record resolved_classification =
  rs_classifier :: classifier
  rs_requestedSeries :: string
  rs_resolvedSeries :: string
  rs_isFallback :: bool

definition resolveSeries :: "class_store \<Rightarrow> string \<Rightarrow> string \<Rightarrow> bool \<Rightarrow> resolved_classification option" where
  "resolveSeries st engine requested allowFallback =
    (let eng = ToLowerKey engine
     in case map_of st (eng, requested) of
          Some c \<Rightarrow> Some \<lparr>rs_classifier = c, rs_requestedSeries = requested, rs_resolvedSeries = requested, rs_isFallback = False\<rparr>
        | None \<Rightarrow>
           if \<not> allowFallback then None
           else (case nearestSeries st eng requested of
             None \<Rightarrow> None
           | Some nearest \<Rightarrow> map_option (\<lambda>c. \<lparr>rs_classifier = c, rs_requestedSeries = requested,
               rs_resolvedSeries = nearest, rs_isFallback = True\<rparr>) (map_of st (eng, nearest))))"

definition classifiersForEngine :: "class_store \<Rightarrow> string \<Rightarrow> classifier list" where
  "classifiersForEngine st engine = map snd (filter (\<lambda>((e, s), c). e = ToLowerKey engine) st)"

definition BUNDLED :: "string list" where
  "BUNDLED = [''postgres/16'', ''postgres/17'', ''mysql/8.0'', ''mysql/8.4'', ''athena/3'']"

text \<open>
  Loading takes what the class path holds for a stem: nothing, a text that does not decode, or a manifest.
\<close>

fun loadStems :: "(string \<Rightarrow> manifest option option) \<Rightarrow> string list \<Rightarrow> class_store \<Rightarrow> (manifest_error, class_store) result" where
  "loadStems resource [] st = Inr st"
| "loadStems resource (stem # stems) st =
    (case resource stem of
       None \<Rightarrow> Inl (ManifestMissing stem)
     | Some None \<Rightarrow> Inl (MalformedManifest stem)
     | Some (Some m) \<Rightarrow>
        if mf_engine m \<noteq> takeWhile (\<lambda>c. c \<noteq> CHR ''/'') stem \<or> mf_series m \<noteq> tl (dropWhile (\<lambda>c. c \<noteq> CHR ''/'') stem)
        then Inl (PathMismatch stem)
        else rbind (SystemClassifier m) (\<lambda>c.
          let key = (ToLowerKey (mf_engine m), mf_series m)
          in if map_of st key \<noteq> None then Inl (DuplicateManifest (mf_engine m) (mf_series m))
             else loadStems resource stems (st @ [(key, c)])))"

definition loadStore :: "(string \<Rightarrow> manifest option option) \<Rightarrow> (manifest_error, class_store) result" where
  "loadStore resource = loadStems resource (sort BUNDLED) []"

subsection \<open>The floor of dangerous functions\<close>

definition baselineByName :: "(string \<times> system_tag) list" where
  "baselineByName =
    [(''set_config'', CRITICAL), (''dblink'', DATA_LEAK), (''dblink_exec'', CRITICAL), (''dblink_open'', DATA_LEAK),
     (''dblink_fetch'', DATA_LEAK), (''dblink_send_query'', DATA_LEAK), (''pg_read_file'', DATA_LEAK),
     (''pg_read_binary_file'', DATA_LEAK), (''pg_ls_dir'', DATA_LEAK), (''pg_stat_file'', DATA_LEAK),
     (''lo_import'', DATA_LEAK), (''lo_export'', CRITICAL), (''query_to_xml'', DATA_LEAK),
     (''query_to_xml_and_xmlschema'', DATA_LEAK), (''xpath_table'', DATA_LEAK), (''load_file'', DATA_LEAK)]"

definition baselineClassify :: "string \<Rightarrow> system_tag option" where
  "baselineClassify n = map_of baselineByName n"

subsection \<open>The service\<close>

record engine_def =
  ed_wireName :: string
  ed_parseServerVersion :: "string option \<Rightarrow> string option"
  ed_manifestSeries :: "string \<Rightarrow> string"
  ed_isFixedSystemSchema :: "string \<Rightarrow> bool"
  ed_isTempSchema :: "string \<Rightarrow> bool"

record class_service =
  sv_store :: class_store
  sv_allowFallback :: bool

definition classifierFor :: "class_service \<Rightarrow> engine_def \<Rightarrow> string option \<Rightarrow> classifier option" where
  "classifierFor sc eng ver =
    (case ed_parseServerVersion eng ver of
       None \<Rightarrow> None
     | Some v \<Rightarrow> map_option rs_classifier (resolveSeries (sv_store sc) (ed_wireName eng) (ed_manifestSeries eng v) (sv_allowFallback sc)))"

definition noManifestDangerousFloor :: "class_service \<Rightarrow> engine_def \<Rightarrow> string \<Rightarrow> string \<Rightarrow> string \<Rightarrow> system_tag option" where
  "noManifestDangerousFloor sc eng cat s tbl =
     fold (\<lambda>c tag. case classifyRelation c cat s tbl of
         None \<Rightarrow> tag
       | Some t \<Rightarrow> if t = CATALOG then tag else combine tag t) (classifiersForEngine (sv_store sc) (ed_wireName eng)) None"

definition tagForTable :: "class_service \<Rightarrow> engine_def \<Rightarrow> string option \<Rightarrow> string \<Rightarrow> string \<Rightarrow> string \<Rightarrow> string option" where
  "tagForTable sc eng ver cat s tbl =
    (case classifierFor sc eng ver of
       Some c \<Rightarrow> map_option tag_id (classifyRelation c cat s tbl)
     | None \<Rightarrow>
        if \<not> ed_isFixedSystemSchema eng s then None
        else Some (tag_id (case noManifestDangerousFloor sc eng cat s tbl of Some t \<Rightarrow> t | None \<Rightarrow> CRITICAL)))"

definition tagForColumn :: "class_service \<Rightarrow> engine_def \<Rightarrow> string option \<Rightarrow> string \<Rightarrow> string \<Rightarrow> string \<Rightarrow> string \<Rightarrow> string option" where
  "tagForColumn sc eng ver cat s tbl col =
    (case classifierFor sc eng ver of
       Some c \<Rightarrow> map_option tag_id (classifyColumn c cat s tbl col)
     | None \<Rightarrow> tagForTable sc eng ver cat s tbl)"

definition redactsColumn :: "class_service \<Rightarrow> engine_def \<Rightarrow> string option \<Rightarrow> string \<Rightarrow> string \<Rightarrow> string \<Rightarrow> string \<Rightarrow> bool" where
  "redactsColumn sc eng ver cat s tbl col =
    (case classifierFor sc eng ver of Some c \<Rightarrow> classifierRedacts c cat s tbl col | None \<Rightarrow> False)"

definition strongest :: "classifier list \<Rightarrow> (classifier \<Rightarrow> system_tag option) \<Rightarrow> system_tag option" where
  "strongest cs f =
    (case List.map_filter f cs of [] \<Rightarrow> None | t # ts \<Rightarrow> Some (fold (\<lambda>b a. stronger a b) ts t))"

definition floorTag :: "system_tag option \<Rightarrow> system_tag option \<Rightarrow> system_tag option" where
  "floorTag m b =
    (case m of None \<Rightarrow> b | Some x \<Rightarrow> (case b of None \<Rightarrow> Some x | Some y \<Rightarrow> Some (stronger x y)))"

definition afterLastDot :: "string \<Rightarrow> string" where
  "afterLastDot s = rev (takeWhile (\<lambda>c. c \<noteq> CHR ''.'') (rev s))"

definition beforeLastDot :: "string \<Rightarrow> string" where
  "beforeLastDot s = rev (tl (dropWhile (\<lambda>c. c \<noteq> CHR ''.'') (rev s)))"

definition tagForFunction :: "class_service \<Rightarrow> engine_def \<Rightarrow> string option \<Rightarrow> string \<Rightarrow> string option" where
  "tagForFunction sc eng ver name =
    (let cs = (case classifierFor sc eng ver of Some c \<Rightarrow> [c] | None \<Rightarrow> classifiersForEngine (sv_store sc) (ed_wireName eng));
         schema = beforeLastDot name; bare = afterLastDot name
     in map_option tag_id
       (if schema = [] \<or> CHR ''.'' \<in> set schema
        then floorTag (strongest cs (\<lambda>c. classifyBareFunction c bare)) (baselineClassify bare)
        else floorTag (strongest cs (\<lambda>c. classifyQualifiedFunction c schema bare))
          (if cs = [] \<or> list_ex (\<lambda>c. holdsBuiltinFunctions c schema) cs then baselineClassify bare else None)))"

definition tagForCommand :: "class_service \<Rightarrow> engine_def \<Rightarrow> string option \<Rightarrow> string \<Rightarrow> string option" where
  "tagForCommand sc eng ver command =
    (case classifierFor sc eng ver of Some c \<Rightarrow> map_option tag_id (classifyCommand c command) | None \<Rightarrow> None)"

subsection \<open>A compiled manifest takes the strongest rule\<close>

lemma stronger_min: "stronger a b = min a b"
  by (simp add: stronger_def min_def less_eq_system_tag_def)

lemma CATALOG_greatest [simp]: "t \<le> CATALOG"
  by (cases t) (simp_all add: less_eq_system_tag_def)

lemma CRITICAL_least [simp]: "CRITICAL \<le> t"
  by (cases t) (simp_all add: less_eq_system_tag_def)

lemma finite_tags [simp]: "finite (A :: system_tag set)"
proof (rule finite_subset)
  show "A \<subseteq> {CRITICAL, DATA_LEAK, ACTIVITY, CATALOG}" using system_tag.exhaust by auto
qed simp

lemma Min_CATALOG: "A \<noteq> {} \<Longrightarrow> Min (insert CATALOG A) = Min A"
  by (simp add: min_absorb2)

lemma requireTag_Inr: "requireTag i = Inr t \<longleftrightarrow> fromId i = Some t"
  by (auto simp: requireTag_def split: option.splits)

definition exactKey :: "object_rule \<Rightarrow> string \<times> string" where
  "exactKey r = (ToLowerKey (or_schema r), ToLowerKey (or_name r))"

lemma exactMap_spec:
  "exactMap rs out = Inr out' \<Longrightarrow>
   map_of out' k = Some t \<longleftrightarrow>
     map_of out k = Some t \<or> (\<exists>r\<in>set rs. or_schema r \<noteq> ''*'' \<and> exactKey r = k \<and> fromId (or_tag r) = Some t)"
proof (induction rs out rule: exactMap.induct)
  case (2 r rs out)
  show ?case
  proof (cases "or_schema r = ''*''")
    case True
    with 2 show ?thesis by auto
  next
    case False
    with 2(3) obtain u where u: "fromId (or_tag r) = Some u"
      and old: "map_of out (exactKey r) \<in> {None, Some u}"
      and rest: "exactMap rs (AList.update (exactKey r) u out) = Inr out'"
      by (auto simp: rbind_eq_Inr_iff requireTag_Inr exactKey_def Let_def split: if_splits)
    have "map_of out' k = Some t \<longleftrightarrow> map_of (AList.update (exactKey r) u out) k = Some t \<or>
        (\<exists>r\<in>set rs. or_schema r \<noteq> ''*'' \<and> exactKey r = k \<and> fromId (or_tag r) = Some t)"
      using 2(2)[OF False, of u, OF _ refl] u rest old by (simp add: requireTag_Inr exactKey_def)
    with u old False show ?thesis by (auto simp: update_conv' split: if_splits)
  qed
qed simp

lemma familiesOf_update: "familiesOf (AList.update s x fs) s' = (if s' = s then x else familiesOf fs s')"
  by (simp add: familiesOf_def update_conv')

lemma familyMap_spec:
  "familyMap rs out = Inr out' \<Longrightarrow>
   set (familiesOf out' s) = set (familiesOf out s) \<union>
     {(ToLowerKey (fr_prefix r), t) | r t. r \<in> set rs \<and> ToLowerKey (fr_schema r) = s \<and> fromId (fr_tag r) = Some t}"
proof (induction rs arbitrary: out)
  case (Cons r rs)
  from Cons.prems obtain u where u: "fromId (fr_tag r) = Some u"
    and rest: "familyMap rs (AList.update (ToLowerKey (fr_schema r))
      (familiesOf out (ToLowerKey (fr_schema r)) @ [(ToLowerKey (fr_prefix r), u)]) out) = Inr out'"
    by (auto simp: rbind_eq_Inr_iff requireTag_Inr Let_def)
  show ?case unfolding Cons.IH[OF rest] familiesOf_update using u by auto
qed simp

text \<open>The tags the rules of a manifest give a relation.\<close>

definition relationRuleTags :: "manifest \<Rightarrow> string \<Rightarrow> string \<Rightarrow> system_tag set" where
  "relationRuleTags m s n =
     {t. \<exists>r\<in>set (mf_relations m). exactKey r = (s, n) \<and> fromId (or_tag r) = Some t} \<union>
     {t. \<exists>r\<in>set (mf_relationFamilies m). ToLowerKey (fr_schema r) = s \<and> prefix (ToLowerKey (fr_prefix r)) n \<and> fromId (fr_tag r) = Some t}"

lemma Min_insert_min: "Min (insert (min a b) T) = Min (insert a (insert b T))" for T :: "system_tag set"
  by (cases "T = {}") (simp_all add: min.assoc)

lemma fold_stronger:
  "fold (\<lambda>(p, t) tag. if P p then stronger tag t else tag) fs t0 = Min (insert t0 {t. \<exists>p. (p, t) \<in> set fs \<and> P p})"
proof (induction fs arbitrary: t0)
  case (Cons pt fs)
  obtain p t where pt: "pt = (p, t)" by (cases pt)
  show ?case
  proof (cases "P p")
    case True
    then have "{u. \<exists>q. (q, u) \<in> set (pt # fs) \<and> P q} = insert t {u. \<exists>q. (q, u) \<in> set fs \<and> P q}" by (auto simp: pt)
    then show ?thesis using True by (simp add: pt Cons.IH stronger_min Min_insert_min del: Min_insert)
  next
    case False
    then have "{u. \<exists>q. (q, u) \<in> set (pt # fs) \<and> P q} = {u. \<exists>q. (q, u) \<in> set fs \<and> P q}" by (auto simp: pt)
    with False show ?thesis by (simp add: pt Cons.IH)
  qed
qed simp

lemma SystemClassifier_Inr:
  assumes "SystemClassifier m = Inr c"
  shows "cf_manifest c = m" "exactMap (mf_relations m) [] = Inr (cf_relationExact c)"
    "familyMap (mf_relationFamilies m) [] = Inr (cf_relationFamilies c)" "validateManifest c = None"
  using assms by (auto simp: SystemClassifier_def rbind_eq_Inr_iff Let_def split: option.splits)

lemma firstError_None: "firstError f xs = None \<longleftrightarrow> (\<forall>x\<in>set xs. f x = None)"
  by (induction xs) (auto split: option.splits)

lemma validated_no_wildcard:
  assumes "validateManifest c = None"
  shows "\<forall>r\<in>set (mf_relations (cf_manifest c)). or_schema r \<noteq> ''*''"
proof -
  from assms have "''*'' \<notin> or_schema ` set (mf_relations (cf_manifest c))"
    by (simp add: validateManifest_def firstError_None Let_def del: firstError.simps split: if_splits)
  then show ?thesis by (metis image_eqI)
qed

lemma classifySystemRelation_Min:
  assumes "SystemClassifier m = Inr c"
  shows "classifySystemRelation c s n = Min (insert CATALOG (relationRuleTags m s n))"
proof -
  note C = SystemClassifier_Inr[OF assms]
  have exact: "map_of (cf_relationExact c) (s, n) = Some t \<longleftrightarrow>
      (\<exists>r\<in>set (mf_relations m). exactKey r = (s, n) \<and> fromId (or_tag r) = Some t)" for t
    using exactMap_spec[OF C(2)] validated_no_wildcard[OF C(4)] C(1) by auto
  have fam: "{t. \<exists>p. (p, t) \<in> set (familiesOf (cf_relationFamilies c) s) \<and> prefix p n} =
      {t. \<exists>r\<in>set (mf_relationFamilies m). ToLowerKey (fr_schema r) = s \<and> prefix (ToLowerKey (fr_prefix r)) n \<and> fromId (fr_tag r) = Some t}"
    using familyMap_spec[OF C(3), of s] by (auto simp: familiesOf_def)
  define F where "F = {t. \<exists>r\<in>set (mf_relationFamilies m). ToLowerKey (fr_schema r) = s \<and> prefix (ToLowerKey (fr_prefix r)) n \<and> fromId (fr_tag r) = Some t}"
  have tags: "relationRuleTags m s n = set_option (map_of (cf_relationExact c) (s, n)) \<union> F"
    using exact by (auto simp: relationRuleTags_def F_def)
  show ?thesis
  proof (cases "map_of (cf_relationExact c) (s, n)")
    case None
    then show ?thesis by (simp add: classifySystemRelation_def fold_stronger[where P = "\<lambda>p. prefix p n"] fam F_def tags)
  next
    case (Some t)
    have "classifySystemRelation c s n = Min (insert (min CATALOG t) F)"
      by (simp add: classifySystemRelation_def Some stronger_min fold_stronger[where P = "\<lambda>p. prefix p n"] fam F_def)
    also have "\<dots> = Min (insert CATALOG (insert t F))" by (simp add: Min_CATALOG min_absorb2 del: Min_insert)
    finally show ?thesis by (simp add: tags Some)
  qed
qed

subsection \<open>Without a governing manifest\<close>

lemma combine_not_CATALOG: "t \<noteq> CATALOG \<Longrightarrow> cur \<noteq> Some CATALOG \<Longrightarrow> combine cur t \<noteq> Some CATALOG"
  by (auto simp: combine_def stronger_def split: option.splits)

lemma floor_not_CATALOG: "noManifestDangerousFloor sc eng cat s tbl \<noteq> Some CATALOG"
proof -
  have "fold (\<lambda>c tag. case classifyRelation c cat s tbl of None \<Rightarrow> tag | Some t \<Rightarrow> if t = CATALOG then tag else combine tag t) cs tag0 \<noteq> Some CATALOG"
    if "tag0 \<noteq> Some CATALOG" for cs tag0
    using that by (induction cs arbitrary: tag0) (auto split: option.splits simp: combine_not_CATALOG)
  then show ?thesis by (simp add: noManifestDangerousFloor_def)
qed

lemma floorTag_le: "b = Some y \<Longrightarrow> \<exists>t. floorTag m b = Some t \<and> t \<le> y"
  by (cases m) (auto simp: floorTag_def stronger_min)

lemma no_dot: "CHR ''.'' \<notin> set n \<Longrightarrow> beforeLastDot n = [] \<and> afterLastDot n = n"
proof -
  assume "CHR ''.'' \<notin> set n"
  then have "dropWhile (\<lambda>c. c \<noteq> CHR ''.'') (rev n) = []" "takeWhile (\<lambda>c. c \<noteq> CHR ''.'') (rev n) = rev n"
    by (auto simp: dropWhile_eq_Nil_conv takeWhile_eq_all_conv)
  show ?thesis by (simp only: beforeLastDot_def afterLastDot_def \<open>dropWhile _ _ = []\<close> \<open>takeWhile _ _ = rev n\<close>) simp
qed


subsection \<open>Properties\<close>

definition family :: "string \<Rightarrow> string \<Rightarrow> string \<Rightarrow> family_rule" where
  "family s p t = \<lparr>fr_schema = s, fr_prefix = p, fr_tag = t\<rparr>"

definition sampleManifest :: "family_rule list \<Rightarrow> family_rule list \<Rightarrow> manifest" where
  "sampleManifest relFamilies fnFamilies =
    \<lparr>mf_engine = ''postgres'', mf_series = ''17'', mf_systemSchemas = [\<lparr>sy_catalog = ''*'', sy_schema = ''pg_catalog''\<rparr>],
     mf_logicalFunctionSchemas = [], mf_relations = [\<lparr>or_schema = ''pg_catalog'', or_name = ''pg_authid'', or_tag = ''system:critical''\<rparr>],
     mf_relationFamilies = relFamilies, mf_columnOverrides = [], mf_redactedColumns = [], mf_functions = [],
     mf_functionFamilies = fnFamilies, mf_commands = []\<rparr>"

text \<open>
  C27: A manifest that compiles gives a relation of a system schema the strongest tag of all its exact and
  family rules that match, and the catalog tag when none does; other relations have no tag.
\<close>
theorem relation_takes_strongest_rule:
  assumes "SystemClassifier m = Inr c"
  shows "classifyRelation c cat s n =
    (if list_ex (\<lambda>x. sy_schema x = s \<and> sy_catalog x \<in> {''*'', cat}) (mf_systemSchemas m)
     then Some (Min (insert CATALOG (relationRuleTags m s n))) else None)"
  unfolding classifyRelation_def isSystemSchema_def classifySystemRelation_Min[OF assms] SystemClassifier_Inr(1)[OF assms]
  by simp

theorem relation_takes_strongest_rule_witness:
  "\<exists>c. SystemClassifier (sampleManifest [family ''pg_catalog'' ''pg_stat'' ''system:activity''] []) = Inr c \<and>
     classifyRelation c ''app'' ''pg_catalog'' ''pg_stat_io'' = Some ACTIVITY"
proof -
  let ?m = "sampleManifest [family ''pg_catalog'' ''pg_stat'' ''system:activity''] []"
  have "\<not> isl (SystemClassifier ?m)" by code_simp
  then obtain c where c: "SystemClassifier ?m = Inr c" by (cases "SystemClassifier ?m") auto
  have low: "ToLowerKey ''pg_catalog'' = ''pg_catalog''" "ToLowerKey ''pg_stat'' = ''pg_stat''" "ToLowerKey ''pg_authid'' = ''pg_authid''"
    "prefix ''pg_stat'' ''pg_stat_io''" "fromId ''system:activity'' = Some ACTIVITY"
    by code_simp+
  have "relationRuleTags ?m ''pg_catalog'' ''pg_stat_io'' = {ACTIVITY}"
    by (simp add: relationRuleTags_def sampleManifest_def family_def exactKey_def low)
  moreover have "list_ex (\<lambda>x. sy_schema x = ''pg_catalog'' \<and> sy_catalog x \<in> {''*'', ''app''}) (mf_systemSchemas ?m)"
    by (simp add: sampleManifest_def)
  ultimately have "classifyRelation c ''app'' ''pg_catalog'' ''pg_stat_io'' = Some ACTIVITY"
    using relation_takes_strongest_rule[OF c, of "''app''" "''pg_catalog''" "''pg_stat_io''"] by (simp add: min_absorb2)
  with c show ?thesis by blast
qed

definition bareEngine :: engine_def where
  "bareEngine = \<lparr>ed_wireName = ''postgres'', ed_parseServerVersion = (\<lambda>v. None), ed_manifestSeries = id,
     ed_isFixedSystemSchema = (\<lambda>s. s = ''pg_catalog''), ed_isTempSchema = (\<lambda>s. s = ''pg_temp'')\<rparr>"

definition emptyService :: class_service where
  "emptyService = \<lparr>sv_store = [], sv_allowFallback = False\<rparr>"

lemma baseline_names_bare: "baselineClassify n = Some b \<Longrightarrow> CHR ''.'' \<notin> set n"
  by (auto simp: baselineClassify_def baselineByName_def split: if_splits)

text \<open>
  C28: A table of a fixed system schema of a datasource that no manifest governs has a tag stronger than the
  open catalog tag, and a function of the built-in floor has at least its floor tag whatever manifests are
  loaded and whatever the version is.
\<close>
theorem system_objects_fail_closed:
  assumes "classifierFor sc eng ver = None" "ed_isFixedSystemSchema eng s" "baselineClassify n = Some b"
  shows "(\<exists>t. tagForTable sc eng ver cat s tbl = Some (tag_id t) \<and> t < CATALOG) \<and>
    (\<exists>t. tagForFunction sc eng' ver' n = Some (tag_id t) \<and> t \<le> b)"
proof
  define t where "t = (case noManifestDangerousFloor sc eng cat s tbl of Some t \<Rightarrow> t | None \<Rightarrow> CRITICAL)"
  have "tagForTable sc eng ver cat s tbl = Some (tag_id t)" using assms(1,2) by (simp add: tagForTable_def t_def)
  moreover have "t \<noteq> CATALOG" using floor_not_CATALOG[of sc eng cat s tbl] by (auto simp: t_def split: option.splits)
  ultimately show "\<exists>t. tagForTable sc eng ver cat s tbl = Some (tag_id t) \<and> t < CATALOG"
    by (auto simp: order.strict_iff_order)
next
  from no_dot[OF baseline_names_bare[OF assms(3)]] floorTag_le[OF assms(3)]
  show "\<exists>t. tagForFunction sc eng' ver' n = Some (tag_id t) \<and> t \<le> b"
    unfolding tagForFunction_def Let_def by fastforce
qed

theorem system_objects_fail_closed_witness:
  "(\<exists>t. tagForTable emptyService bareEngine None ''app'' ''pg_catalog'' ''pg_authid'' = Some (tag_id t) \<and> t < CATALOG) \<and>
   (\<exists>t. tagForFunction emptyService bareEngine None ''lo_export'' = Some (tag_id t) \<and> t \<le> CRITICAL)"
proof -
  have "classifierFor emptyService bareEngine None = None" "ed_isFixedSystemSchema bareEngine ''pg_catalog''"
    by (simp_all add: classifierFor_def bareEngine_def)
  moreover have "baselineClassify ''lo_export'' = Some CRITICAL" by code_simp
  ultimately show ?thesis using system_objects_fail_closed by blast
qed


end
