(* ===== verification/Authz.thy ===== *)
theory Authz
  imports Classification
begin

text \<open>
  The authorization boundary of the control plane (\<^verbatim>\<open>authz/Authz.kt\<close>): the marshalling of principals,
  datasources, tables, columns, functions and utilities to Cedar entities, the gates that put the question
  to Cedar, the derivation of context tags and the folding of result caps.
\<close>

subsection \<open>Data\<close>

datatype authz_action =
    ADMIN_DATASOURCES | ADMIN_POLICIES | ADMIN_IDENTITY | TASK_APPROVE | TASK_REQUEST | TASK_READ | TASK_ASSUME
  | TASK_RUN | TASK_COMMENT | TASK_CC | TASK_CANCEL | TASK_DELETE | TASK_FORCE_RUN | GRANT_REVOKE | TOKEN_MINT
  | TOKEN_LIST | TOKEN_REVOKE | AUDIT_READ | RESULT_READ_UNMASKED | RESULT_READ_MASKED | RESULT_CAP
  | DATASOURCE_CONNECT | NATIVE_INVOKE | EXCEPTION_UNANALYZABLE | EXCEPTION_UNMASKABLE

fun cedarId :: "authz_action \<Rightarrow> string" where
  "cedarId ADMIN_DATASOURCES = ''admin.datasources''"
| "cedarId ADMIN_POLICIES = ''admin.policies''"
| "cedarId ADMIN_IDENTITY = ''admin.identity''"
| "cedarId TASK_APPROVE = ''task.approve''"
| "cedarId TASK_REQUEST = ''task.request''"
| "cedarId TASK_READ = ''task.read''"
| "cedarId TASK_ASSUME = ''task.assume''"
| "cedarId TASK_RUN = ''task.run''"
| "cedarId TASK_COMMENT = ''task.comment''"
| "cedarId TASK_CC = ''task.cc''"
| "cedarId TASK_CANCEL = ''task.cancel''"
| "cedarId TASK_DELETE = ''task.delete''"
| "cedarId TASK_FORCE_RUN = ''task.force_run''"
| "cedarId GRANT_REVOKE = ''grant.revoke''"
| "cedarId TOKEN_MINT = ''token.mint''"
| "cedarId TOKEN_LIST = ''token.list''"
| "cedarId TOKEN_REVOKE = ''token.revoke''"
| "cedarId AUDIT_READ = ''audit.read''"
| "cedarId RESULT_READ_UNMASKED = ''result.read.unmasked''"
| "cedarId RESULT_READ_MASKED = ''result.read.masked''"
| "cedarId RESULT_CAP = ''result.cap''"
| "cedarId DATASOURCE_CONNECT = ''datasource.connect''"
| "cedarId NATIVE_INVOKE = ''native.invoke''"
| "cedarId EXCEPTION_UNANALYZABLE = ''exception.unanalyzable''"
| "cedarId EXCEPTION_UNMASKABLE = ''exception.unmaskable''"

record approval_request =
  ar_requester :: string
  ar_approver :: "string option"
  ar_executedBy :: "string option"
  ar_datasource :: "string option"
  ar_role :: "string option"
  ar_source :: string
  ar_ccs :: "string list"

record access_grant =
  ag_owner :: string
  ag_id :: int64
  ag_datasource :: "string option"
  ag_role :: "string option"

datatype authz_resource = System | AuditRecord string | AuditLog | ApprovalRequest approval_request
  | AccessGrant access_grant | Token string "string option"

record column_ref =
  cl_key :: string
  cl_catalog :: string
  cl_schema :: string
  cl_table :: string
  cl_column :: string
  cl_tags :: "string list"

datatype column_verdict = UNMASKED | MASKED | DENIED

record table_ref =
  tr_key :: string
  tr_catalog :: string
  tr_schema :: string
  tr_table :: string

datatype table_verdict = READ | TABLE_DENIED
datatype function_verdict = FUNCTION_ALLOWED | FUNCTION_DENIED
datatype utility_verdict = USE | UTILITY_DENIED

record authz_context =
  ax_networkZones :: "string list"
  ax_channel :: "string option"
  ax_requesterIp :: "string option"
  ax_tags :: "string list"
  ax_stmtKind :: "string option"
  ax_masked :: "bool option"
  ax_nativeOperation :: "string option"

definition optEntry :: "string \<Rightarrow> ('a \<Rightarrow> cedar_value) \<Rightarrow> 'a option \<Rightarrow> cedar_context" where
  "optEntry k f v = (case v of None \<Rightarrow> [] | Some x \<Rightarrow> [(k, f x)])"

definition toCedarMap :: "cedar_engine \<Rightarrow> bool \<Rightarrow> authz_context \<Rightarrow> cedar_context" where
  "toCedarMap en includeTags c =
     [(''network_zones'', CedarList (map PrimString (ax_networkZones c)))] @
     (if includeTags then [(''tags'', CedarList (map PrimString (ax_tags c)))] else []) @
     optEntry ''channel'' PrimString (ax_channel c) @
     optEntry ''stmt_kind'' PrimString (ax_stmtKind c) @
     optEntry ''masked'' PrimBool (ax_masked c) @
     optEntry ''native_operation'' PrimString (ax_nativeOperation c) @
     optEntry ''requester_ip'' IpAddress
       (case ax_requesterIp c of None \<Rightarrow> None | Some ip \<Rightarrow> if ce_ipParses en ip then Some ip else None)"

datatype authz_decision = Allow | Deny string string

text \<open>A stored attribute value: a quoted string, another literal by its text, an array, or an object.\<close>

datatype stored_json = Quoted string | Literal string | JArray "stored_json list" | JObject

record user_parents =
  up_roles :: "string list"
  up_groups :: "string list"
  up_attributes :: "(string \<times> stored_json) list"

datatype authz_principal = User string user_parents | Workload string string "(string \<times> string) list"

subsection \<open>Marshalling\<close>

definition WORKLOAD_CLAIM_ATTRIBUTES :: "string list" where
  "WORKLOAD_CLAIM_ATTRIBUTES =
     [''repository'', ''repository_id'', ''ref'', ''base_ref'', ''workflow_ref'', ''event_name'', ''actor'']"

definition userEuid :: "string \<Rightarrow> euid" where "userEuid u = (''User'', u)"
definition roleEuid :: "string \<Rightarrow> euid" where "roleEuid r = (''Role'', r)"
definition groupEuid :: "string \<Rightarrow> euid" where "groupEuid g = (''Group'', g)"
definition tagEuid :: "string \<Rightarrow> euid" where "tagEuid t = (''Tag'', t)"
definition datasourceEuid :: "string \<Rightarrow> euid" where "datasourceEuid d = (''Datasource'', d)"
definition actionEuid :: "string \<Rightarrow> euid" where "actionEuid a = (''Action'', a)"

definition plain :: "euid \<Rightarrow> entity" where
  "plain u = \<lparr>en_uid = u, en_attrs = [], en_parents = {}\<rparr>"

definition datasourceEntity :: "string \<Rightarrow> string list \<Rightarrow> entity" where
  "datasourceEntity name tags =
     \<lparr>en_uid = datasourceEuid name, en_attrs = [(''name'', PrimString name)], en_parents = tagEuid ` set tags\<rparr>"

fun dedupeFrom :: "euid set \<Rightarrow> entity list \<Rightarrow> entity list" where
  "dedupeFrom seen [] = []"
| "dedupeFrom seen (e # es) =
    (if en_uid e \<in> seen then dedupeFrom seen es else e # dedupeFrom (insert (en_uid e) seen) es)"

definition dedupeByEuid :: "entity list \<Rightarrow> entity list" where
  "dedupeByEuid = dedupeFrom {}"

fun quotedAll :: "stored_json list \<Rightarrow> string list option" where
  "quotedAll [] = Some []"
| "quotedAll (Quoted s # js) = map_option (Cons s) (quotedAll js)"
| "quotedAll (j # js) = None"

definition cedarValue :: "cedar_engine \<Rightarrow> attribute_type \<Rightarrow> stored_json \<Rightarrow> cedar_value option" where
  "cedarValue en t stored =
    (case t of
       STRING \<Rightarrow> (case stored of Quoted s \<Rightarrow> Some (PrimString s) | _ \<Rightarrow> None)
     | USER \<Rightarrow> (case stored of Quoted s \<Rightarrow> Some (EntityValue (userEuid s)) | _ \<Rightarrow> None)
     | LONG \<Rightarrow> (case stored of Literal l \<Rightarrow> map_option PrimLong (ce_longOrNull en l) | _ \<Rightarrow> None)
     | BOOL \<Rightarrow> (case stored of Literal l \<Rightarrow> map_option PrimBool (ce_booleanOrNull en l) | _ \<Rightarrow> None)
     | STRING_SET \<Rightarrow> (case stored of JArray js \<Rightarrow> map_option (CedarList \<circ> map PrimString) (quotedAll js) | _ \<Rightarrow> None))"

definition userEntities :: "cedar_engine \<Rightarrow> string \<Rightarrow> user_parents \<Rightarrow> entity list" where
  "userEntities en user ps =
    (let euids = map roleEuid (up_roles ps) @ map groupEuid (up_groups ps);
         attrs = List.map_filter (\<lambda>(n, t). case map_of (up_attributes ps) n of
           None \<Rightarrow> None | Some j \<Rightarrow> map_option (Pair n) (cedarValue en t j)) (ce_userAttributes en)
     in \<lparr>en_uid = userEuid user, en_attrs = attrs, en_parents = set euids\<rparr> # map plain euids)"

definition workloadEntity :: "string \<Rightarrow> string \<Rightarrow> (string \<times> string) list \<Rightarrow> entity" where
  "workloadEntity name issuer claims =
     \<lparr>en_uid = (''Workload'', name),
      en_attrs = (''issuer'', PrimString issuer) #
        map (\<lambda>(k, v). (k, PrimString v)) (filter (\<lambda>(k, v). k \<in> set WORKLOAD_CLAIM_ATTRIBUTES) claims),
      en_parents = {}\<rparr>"

definition principalEntities :: "cedar_engine \<Rightarrow> authz_principal \<Rightarrow> entity list" where
  "principalEntities en p =
    (case p of User n ps \<Rightarrow> userEntities en n ps | Workload n i cs \<Rightarrow> [workloadEntity n i cs])"

definition marshal :: "cedar_engine \<Rightarrow> authz_principal \<Rightarrow> entity list \<Rightarrow> cedar_request" where
  "marshal en p aux =
    (let es = principalEntities en p in \<lparr>cr_principal = en_uid (hd es), cr_entities = dedupeByEuid (es @ aux)\<rparr>)"

fun joinSlash :: "string list \<Rightarrow> string" where
  "joinSlash [] = []"
| "joinSlash [x] = x"
| "joinSlash (x # y # ys) = x @ CHR ''/'' # joinSlash (y # ys)"

definition tableEuid :: "string \<Rightarrow> string \<Rightarrow> string \<Rightarrow> string \<Rightarrow> euid" where
  "tableEuid ds cat sch tbl = (''Table'', joinSlash [ds, cat, sch, tbl])"

definition columnAttrs :: "column_ref \<Rightarrow> (string \<times> cedar_value) list" where
  "columnAttrs c = [(''tagged'', PrimBool (cl_tags c \<noteq> []))]"

definition columnEuid :: "string \<Rightarrow> string \<Rightarrow> string \<Rightarrow> string \<Rightarrow> string \<Rightarrow> euid" where
  "columnEuid ds cat sch tbl col = (''Column'', joinSlash [ds, cat, sch, tbl, col])"

definition functionEuid :: "string \<Rightarrow> string \<Rightarrow> euid" where
  "functionEuid ds name = (''Function'', joinSlash [ds, name])"

definition utilityEuid :: "string \<Rightarrow> string \<Rightarrow> euid" where
  "utilityEuid ds command = (''Utility'', joinSlash [ds, command])"

subsection \<open>The read gates\<close>

definition tagEntities :: "string list \<Rightarrow> entity list" where
  "tagEntities tags = map (plain \<circ> tagEuid) (remdups tags)"

text \<open>The gate reads only the allow flag of the payload.\<close>

definition allows :: "cedar_engine \<Rightarrow> cedar_request \<Rightarrow> cedar_context \<Rightarrow> entity \<Rightarrow> string \<Rightarrow> bool" where
  "allows en request ctx resource action =
    (case isAuthorized en request (actionEuid action) resource ctx of
       Failure e \<Rightarrow> False | Success allowed errors reasons \<Rightarrow> allowed)"

text \<open>
  What a batch builds: the focal entity of each key, the auxiliary entities, and the tags named on the way,
  which join those of the datasource.
\<close>

record build =
  bd_focal :: "string \<Rightarrow> entity option"
  bd_aux :: "entity list"
  bd_tags :: "string list"

definition readRequest :: "cedar_engine \<Rightarrow> string \<Rightarrow> user_parents \<Rightarrow> string \<Rightarrow> string list \<Rightarrow> build \<Rightarrow> cedar_request" where
  "readRequest en who ps ds dsTags b =
     marshal en (User who ps) (datasourceEntity ds dsTags # bd_aux b @ tagEntities (dsTags @ bd_tags b))"

definition authorizeReadResources :: "cedar_engine \<Rightarrow> string \<Rightarrow> user_parents \<Rightarrow> string \<Rightarrow> string list \<Rightarrow> authz_context \<Rightarrow>
    string list \<Rightarrow> 'v \<Rightarrow> build \<Rightarrow> (bool \<Rightarrow> bool \<Rightarrow> 'v) \<Rightarrow> string \<rightharpoonup> 'v" where
  "authorizeReadResources en who ps ds dsTags ctx keys denied b verdict =
    (let request = readRequest en who ps ds dsTags b; cm = toCedarMap en True ctx
     in (\<lambda>key. if key \<notin> set keys then None
        else Some (case bd_focal b key of
          None \<Rightarrow> denied
        | Some e \<Rightarrow> verdict (allows en request cm e (cedarId RESULT_READ_UNMASKED)) (allows en request cm e (cedarId RESULT_READ_MASKED)))))"

definition hasDelim :: "string \<Rightarrow> bool" where
  "hasDelim s \<longleftrightarrow> CHR ''/'' \<in> set s \<or> CHR ''.'' \<in> set s"

definition hasSlash :: "string \<Rightarrow> bool" where
  "hasSlash s \<longleftrightarrow> CHR ''/'' \<in> set s"

definition columnHasDelim :: "string \<Rightarrow> column_ref \<Rightarrow> bool" where
  "columnHasDelim ds c \<longleftrightarrow> hasDelim ds \<or> hasDelim (cl_catalog c) \<or> hasDelim (cl_schema c) \<or> hasDelim (cl_table c) \<or> hasDelim (cl_column c)"

definition tableHasDelim :: "string \<Rightarrow> table_ref \<Rightarrow> bool" where
  "tableHasDelim ds t \<longleftrightarrow> hasDelim ds \<or> hasDelim (tr_catalog t) \<or> hasDelim (tr_schema t) \<or> hasDelim (tr_table t)"

definition columnEntity :: "string \<Rightarrow> (string \<rightharpoonup> string) \<Rightarrow> column_ref \<Rightarrow> entity" where
  "columnEntity ds systemTags c =
     \<lparr>en_uid = columnEuid ds (cl_catalog c) (cl_schema c) (cl_table c) (cl_column c), en_attrs = columnAttrs c,
      en_parents = {tableEuid ds (cl_catalog c) (cl_schema c) (cl_table c), datasourceEuid ds} \<union>
        tagEuid ` set (cl_tags c) \<union> tagEuid ` set_option (systemTags (cl_key c))\<rparr>"

definition optTag :: "string option \<Rightarrow> string list" where
  "optTag t = (case t of None \<Rightarrow> [] | Some x \<Rightarrow> [x])"

text \<open>A later column of a key replaces the entity of an earlier one.\<close>

definition columnBuild :: "string \<Rightarrow> (string \<rightharpoonup> string) \<Rightarrow> column_ref list \<Rightarrow> build" where
  "columnBuild ds systemTags columns =
    (let ok = filter (\<lambda>c. \<not> columnHasDelim ds c) columns
     in \<lparr>bd_focal = map_of (rev (map (\<lambda>c. (cl_key c, columnEntity ds systemTags c)) ok)),
         bd_aux = map (\<lambda>(cat, sch, tbl). \<lparr>en_uid = tableEuid ds cat sch tbl, en_attrs = [], en_parents = {datasourceEuid ds}\<rparr>)
           (remdups (map (\<lambda>c. (cl_catalog c, cl_schema c, cl_table c)) ok)),
         bd_tags = concat (map (\<lambda>c. cl_tags c @ optTag (systemTags (cl_key c))) ok)\<rparr>)"

definition columnVerdict :: "bool \<Rightarrow> bool \<Rightarrow> column_verdict" where
  "columnVerdict unmasked masked = (if unmasked then UNMASKED else if masked then MASKED else DENIED)"

definition authorizeColumns :: "cedar_engine \<Rightarrow> string \<Rightarrow> user_parents \<Rightarrow> string \<Rightarrow> column_ref list \<Rightarrow> authz_context \<Rightarrow>
    (string \<rightharpoonup> string) \<Rightarrow> string list \<Rightarrow> string \<rightharpoonup> column_verdict" where
  "authorizeColumns en who ps ds columns ctx systemTags dsTags =
     authorizeReadResources en who ps ds dsTags ctx (map cl_key columns) DENIED (columnBuild ds systemTags columns) columnVerdict"

definition tableBuild :: "string \<Rightarrow> (string \<times> string \<times> string \<rightharpoonup> string) \<Rightarrow> table_ref list \<Rightarrow> build" where
  "tableBuild ds systemTags tables =
    (let ok = filter (\<lambda>t. \<not> tableHasDelim ds t) tables; tagOf = (\<lambda>t. systemTags (tr_catalog t, tr_schema t, tr_table t));
         seen = AList.clearjunk (map (\<lambda>t. (tr_key t, t)) ok)
     in \<lparr>bd_focal = map_of (map (\<lambda>(k, t). (k, \<lparr>en_uid = tableEuid ds (tr_catalog t) (tr_schema t) (tr_table t), en_attrs = [],
           en_parents = insert (datasourceEuid ds) (tagEuid ` set_option (tagOf t))\<rparr>)) seen),
         bd_aux = [], bd_tags = concat (map (\<lambda>(k, t). optTag (tagOf t)) seen)\<rparr>)"

definition authorizeTables :: "cedar_engine \<Rightarrow> string \<Rightarrow> user_parents \<Rightarrow> string \<Rightarrow> table_ref list \<Rightarrow> authz_context \<Rightarrow>
    (string \<times> string \<times> string \<rightharpoonup> string) \<Rightarrow> string list \<Rightarrow> string \<rightharpoonup> table_verdict" where
  "authorizeTables en who ps ds tables ctx systemTags dsTags =
     authorizeReadResources en who ps ds dsTags ctx (map tr_key tables) TABLE_DENIED (tableBuild ds systemTags tables)
       (\<lambda>unmasked masked. if unmasked \<or> masked then READ else TABLE_DENIED)"

text \<open>Functions and utilities are keyed by name, with only the slash as a delimiter.\<close>

definition namedBuild :: "(string \<Rightarrow> string \<Rightarrow> euid) \<Rightarrow> string \<Rightarrow> (string \<rightharpoonup> string) \<Rightarrow> string list \<Rightarrow> build" where
  "namedBuild euidOf ds systemTags names =
    (let ok = remdups (filter (\<lambda>n. \<not> (hasSlash ds \<or> hasSlash n)) names)
     in \<lparr>bd_focal = map_of (map (\<lambda>n. (n, \<lparr>en_uid = euidOf ds n, en_attrs = [],
           en_parents = insert (datasourceEuid ds) (tagEuid ` set_option (systemTags n))\<rparr>)) ok),
         bd_aux = [], bd_tags = concat (map (\<lambda>n. optTag (systemTags n)) ok)\<rparr>)"

definition authorizeFunctions :: "cedar_engine \<Rightarrow> string \<Rightarrow> user_parents \<Rightarrow> string \<Rightarrow> string list \<Rightarrow> authz_context \<Rightarrow>
    (string \<rightharpoonup> string) \<Rightarrow> string list \<Rightarrow> string \<rightharpoonup> function_verdict" where
  "authorizeFunctions en who ps ds names ctx systemTags dsTags =
     authorizeReadResources en who ps ds dsTags ctx names FUNCTION_DENIED (namedBuild functionEuid ds systemTags names)
       (\<lambda>unmasked masked. if unmasked \<or> masked then FUNCTION_ALLOWED else FUNCTION_DENIED)"

definition authorizeUtilities :: "cedar_engine \<Rightarrow> string \<Rightarrow> user_parents \<Rightarrow> string \<Rightarrow> string list \<Rightarrow> authz_context \<Rightarrow>
    (string \<rightharpoonup> string) \<Rightarrow> string list \<Rightarrow> string \<rightharpoonup> utility_verdict" where
  "authorizeUtilities en who ps ds commands ctx systemTags dsTags =
     authorizeReadResources en who ps ds dsTags ctx commands UTILITY_DENIED (namedBuild utilityEuid ds systemTags commands)
       (\<lambda>unmasked masked. if unmasked \<or> masked then USE else UTILITY_DENIED)"

subsection \<open>The single-resource gates\<close>

definition toAuthzDecision :: "cedar_response \<Rightarrow> authz_decision" where
  "toAuthzDecision r =
    (case r of
       Failure e \<Rightarrow> Deny (''authorization engine error: '' @
         (case e of None \<Rightarrow> ''unknown error'' | Some ms \<Rightarrow> joinWith ''; '' ms)) ''forbidden''
     | Success allowed errors reasons \<Rightarrow>
        if errors \<noteq> [] then Deny (''policy evaluation error: '' @ joinWith ''; '' errors) ''forbidden''
        else if allowed then Allow
        else Deny (if reasons = [] then ''no policy permits this action''
                   else ''denied by policy: '' @ joinWith '', '' reasons) ''forbidden'')"

text \<open>The lookup of parents is seeded with the snapshot of the acting principal.\<close>

definition userParents :: "(string \<Rightarrow> user_parents) \<Rightarrow> string \<Rightarrow> user_parents \<Rightarrow> string \<Rightarrow> user_parents" where
  "userParents parentsOf who ps = parentsOf(who := ps)"

definition scopeEuids :: "string option \<Rightarrow> string option \<Rightarrow> euid list" where
  "scopeEuids ds role =
     (case ds of None \<Rightarrow> [] | Some d \<Rightarrow> [datasourceEuid d]) @ (case role of None \<Rightarrow> [] | Some r \<Rightarrow> [roleEuid r])"

definition optUsers :: "cedar_engine \<Rightarrow> (string \<Rightarrow> user_parents) \<Rightarrow> string option \<Rightarrow> entity list" where
  "optUsers en parentsOf u = (case u of None \<Rightarrow> [] | Some n \<Rightarrow> userEntities en n (parentsOf n))"

definition marshalResource :: "cedar_engine \<Rightarrow> (string \<Rightarrow> user_parents) \<Rightarrow> authz_resource \<Rightarrow> entity \<times> entity list" where
  "marshalResource en parentsOf resource =
    (case resource of
       System \<Rightarrow> (plain (''System'', ''system''), [])
     | AuditRecord p \<Rightarrow> (\<lparr>en_uid = (''AuditRecord'', p), en_attrs = [(''principal'', EntityValue (userEuid p))], en_parents = {}\<rparr>, [])
     | AuditLog \<Rightarrow> (plain (''AuditLog'', ''all''), [])
     | ApprovalRequest a \<Rightarrow>
        let scope = scopeEuids (ar_datasource a) (ar_role a)
        in (\<lparr>en_uid = (''Request'', ar_requester a @ ''#'' @ (case ar_datasource a of None \<Rightarrow> ''-'' | Some d \<Rightarrow> d)),
             en_attrs = [(''requester'', EntityValue (userEuid (ar_requester a)))] @
               optEntry ''approver'' (EntityValue \<circ> userEuid) (ar_approver a) @
               optEntry ''executedBy'' (EntityValue \<circ> userEuid) (ar_executedBy a) @
               (if ar_ccs a = [] then [] else [(''ccs'', CedarList (map (EntityValue \<circ> userEuid) (ar_ccs a)))]) @
               [(''source'', PrimString (ar_source a))],
             en_parents = set scope\<rparr>,
            userEntities en (ar_requester a) (parentsOf (ar_requester a)) @ map plain scope @
              optUsers en parentsOf (ar_approver a) @ optUsers en parentsOf (ar_executedBy a))
     | AccessGrant g \<Rightarrow>
        let scope = scopeEuids (ag_datasource g) (ag_role g)
        in (\<lparr>en_uid = (''AccessGrant'', ag_owner g @ ''#'' @ FormatInt (ag_id g)),
             en_attrs = [(''owner'', EntityValue (userEuid (ag_owner g)))], en_parents = set scope\<rparr>,
            map plain scope)
     | Token owner kind \<Rightarrow>
        (\<lparr>en_uid = (''Token'', owner @ ''#'' @ (case kind of None \<Rightarrow> ''-'' | Some k \<Rightarrow> k)),
          en_attrs = (''owner'', EntityValue (userEuid owner)) # optEntry ''kind'' PrimString kind, en_parents = {}\<rparr>, []))"

definition authorizeAs :: "cedar_engine \<Rightarrow> (string \<Rightarrow> user_parents) \<Rightarrow> string \<Rightarrow> user_parents \<Rightarrow> authz_action \<Rightarrow> authz_resource \<Rightarrow>
    authz_context \<Rightarrow> authz_decision" where
  "authorizeAs en parentsOf who ps action resource ctx =
    (case marshalResource en (userParents parentsOf who ps) resource of (e, aux) \<Rightarrow>
       toAuthzDecision (isAuthorized en (marshal en (User who ps) aux) (actionEuid (cedarId action)) e (toCedarMap en True ctx)))"

definition authorize :: "cedar_engine \<Rightarrow> (string \<Rightarrow> user_parents) \<Rightarrow> string \<Rightarrow> authz_action \<Rightarrow> authz_resource \<Rightarrow>
    authz_context \<Rightarrow> authz_decision" where
  "authorize en parentsOf who action resource ctx = authorizeAs en parentsOf who (parentsOf who) action resource ctx"

definition satisfiableAs :: "cedar_engine \<Rightarrow> (string \<Rightarrow> user_parents) \<Rightarrow> string \<Rightarrow> user_parents \<Rightarrow> authz_action \<Rightarrow> authz_resource \<Rightarrow>
    string option \<Rightarrow> string list \<Rightarrow> satisfiable_verdict" where
  "satisfiableAs en parentsOf who ps action resource knownChannel unknownKeys =
    (case marshalResource en (userParents parentsOf who ps) resource of (e, aux) \<Rightarrow>
       satisfiable en (marshal en (User who ps) aux) (actionEuid (cedarId action)) e
         (AList.updates unknownKeys (map Unknown unknownKeys) (optEntry ''channel'' PrimString knownChannel)))"

definition authorizeDatasourceActionId :: "cedar_engine \<Rightarrow> authz_principal \<Rightarrow> string \<Rightarrow> string \<Rightarrow> authz_context \<Rightarrow> string list \<Rightarrow> authz_decision" where
  "authorizeDatasourceActionId en p cedarActionId ds ctx dsTags =
    (let actionEntities = map (\<lambda>(i, ps). \<lparr>en_uid = actionEuid i, en_attrs = [], en_parents = actionEuid ` set ps\<rparr>)
           (actionAncestry (ce_directParents en) cedarActionId)
     in toAuthzDecision (isAuthorized en (marshal en p (tagEntities dsTags @ actionEntities)) (actionEuid cedarActionId)
          (datasourceEntity ds dsTags) (toCedarMap en True ctx)))"

definition authorizeDatasourceAction :: "cedar_engine \<Rightarrow> authz_principal \<Rightarrow> authz_action \<Rightarrow> string \<Rightarrow> authz_context \<Rightarrow> string list \<Rightarrow> authz_decision" where
  "authorizeDatasourceAction en p action ds ctx dsTags = authorizeDatasourceActionId en p (cedarId action) ds ctx dsTags"

definition resolveContextTags :: "cedar_engine \<Rightarrow> string \<Rightarrow> user_parents \<Rightarrow> string \<Rightarrow> authz_context \<Rightarrow> string list \<Rightarrow> string list" where
  "resolveContextTags en who ps ds raw dsTags =
    (let request = marshal en (User who ps) (tagEntities dsTags); cm = toCedarMap en False raw
     in sort (filter (\<lambda>t. allows en request cm (datasourceEntity ds dsTags) (''context.tag::'' @ t))
          (ca_vocab (ce_cache en))))"

definition authorizeWithContext :: "cedar_engine \<Rightarrow> (string \<Rightarrow> user_parents) \<Rightarrow> string \<Rightarrow> authz_action \<Rightarrow> authz_resource \<Rightarrow>
    authz_context \<Rightarrow> string option \<Rightarrow> string list \<Rightarrow> authz_decision" where
  "authorizeWithContext en parentsOf who action resource raw dsName dsTags =
    (let ps = parentsOf who;
         ctx = (case dsName of None \<Rightarrow> raw | Some ds \<Rightarrow> raw\<lparr>ax_tags := resolveContextTags en who ps ds raw dsTags\<rparr>)
     in authorizeAs en parentsOf who ps action resource ctx)"

subsection \<open>Result caps\<close>

datatype cap_resource =
    CapColumn column_ref "string option" bool
  | CapTable table_ref "string option"
  | CapFunction string "string option"
  | CapUtility string "string option"

record resolved_caps =
  rv_unbounded :: bool
  rv_rows :: "int64 option"
  rv_bytes :: "int64 option"
  rv_rates :: "rate list"
  rv_boost :: big_decimal

record cap_asks =
  ck_tables :: "(string \<times> string \<times> string) list"
  ck_tableTags :: "(string \<times> string \<times> string) \<rightharpoonup> string"
  ck_focal :: "entity list"
  ck_masked :: "euid \<rightharpoonup> bool"
  ck_tags :: "string list"

definition noAsks :: cap_asks where
  "noAsks = \<lparr>ck_tables = [], ck_tableTags = Map.empty, ck_focal = [], ck_masked = Map.empty, ck_tags = []\<rparr>"

definition putTable :: "string \<times> string \<times> string \<Rightarrow> string option \<Rightarrow> cap_asks \<Rightarrow> cap_asks" where
  "putTable i systemTag k =
     k\<lparr>ck_tables := (if i \<in> set (ck_tables k) then ck_tables k else ck_tables k @ [i]),
       ck_tableTags := (case systemTag of None \<Rightarrow> ck_tableTags k | Some t \<Rightarrow> (ck_tableTags k)(i \<mapsto> t))\<rparr>"

definition putNamed :: "euid \<Rightarrow> string \<Rightarrow> string option \<Rightarrow> cap_asks \<Rightarrow> cap_asks" where
  "putNamed u ds systemTag k =
     k\<lparr>ck_focal := ck_focal k @ [\<lparr>en_uid = u, en_attrs = [], en_parents = insert (datasourceEuid ds) (tagEuid ` set_option systemTag)\<rparr>],
       ck_tags := ck_tags k @ optTag systemTag\<rparr>"

text \<open>
  One turn of the loop over the resources. The system tag of a column is kept for its table, not for the
  column.
\<close>

definition capAsk :: "string \<Rightarrow> cap_resource \<Rightarrow> cap_asks \<Rightarrow> cap_asks" where
  "capAsk ds r k =
    (case r of
       CapColumn c systemTag m \<Rightarrow>
         if columnHasDelim ds c then k
         else let u = columnEuid ds (cl_catalog c) (cl_schema c) (cl_table c) (cl_column c);
                  k' = putTable (cl_catalog c, cl_schema c, cl_table c) systemTag k
              in k'\<lparr>ck_focal := ck_focal k' @ [\<lparr>en_uid = u, en_attrs = columnAttrs c,
                     en_parents = {tableEuid ds (cl_catalog c) (cl_schema c) (cl_table c), datasourceEuid ds} \<union> tagEuid ` set (cl_tags c)\<rparr>],
                   ck_masked := (ck_masked k')(u \<mapsto> m), ck_tags := ck_tags k' @ cl_tags c\<rparr>
     | CapTable t systemTag \<Rightarrow>
         if tableHasDelim ds t then k else putTable (tr_catalog t, tr_schema t, tr_table t) systemTag k
     | CapFunction n systemTag \<Rightarrow> if hasDelim ds \<or> hasSlash n then k else putNamed (functionEuid ds n) ds systemTag k
     | CapUtility n systemTag \<Rightarrow> if hasDelim ds \<or> hasSlash n then k else putNamed (utilityEuid ds n) ds systemTag k)"

definition capTableEntity :: "string \<Rightarrow> cap_asks \<Rightarrow> string \<times> string \<times> string \<Rightarrow> entity" where
  "capTableEntity ds k i =
     \<lparr>en_uid = (case i of (cat, sch, tbl) \<Rightarrow> tableEuid ds cat sch tbl), en_attrs = [],
      en_parents = insert (datasourceEuid ds) (tagEuid ` set_option (ck_tableTags k i))\<rparr>"

text \<open>The asks in order: an engine failure or an evaluation error contributes nothing, a forbid ends them all.\<close>

fun collectCaps :: "(entity \<Rightarrow> cedar_response) \<Rightarrow> (string list \<Rightarrow> result_cap list) \<Rightarrow> entity list \<Rightarrow> result_cap list option" where
  "collectCaps ask caps [] = Some []"
| "collectCaps ask caps (e # es) =
    (case ask e of
       Failure m \<Rightarrow> collectCaps ask caps es
     | Success allowed errors reasons \<Rightarrow>
        if errors \<noteq> [] then collectCaps ask caps es
        else if allowed then map_option ((@) (caps reasons)) (collectCaps ask caps es)
        else if reasons \<noteq> [] then None else collectCaps ask caps es)"

definition minOf :: "int64 list \<Rightarrow> int64 option" where
  "minOf xs = (if xs = [] then None else Some (Min (set xs)))"

definition maxDecimal :: "big_decimal \<Rightarrow> big_decimal \<Rightarrow> big_decimal" where
  "maxDecimal a b = (if leDecimal b a then a else b)"

definition maxOfDecimals :: "big_decimal list \<Rightarrow> big_decimal option" where
  "maxOfDecimals ds = (case ds of [] \<Rightarrow> None | d # ds' \<Rightarrow> Some (fold (\<lambda>x m. maxDecimal m x) ds' d))"

definition foldCaps :: "result_cap list option \<Rightarrow> resolved_caps" where
  "foldCaps cs =
    (case cs of
       None \<Rightarrow> \<lparr>rv_unbounded = True, rv_rows = None, rv_bytes = None, rv_rates = [], rv_boost = decimalOne\<rparr>
     | Some caps \<Rightarrow> \<lparr>rv_unbounded = False, rv_rows = minOf (List.map_filter rc_rows caps), rv_bytes = minOf (List.map_filter rc_bytes caps),
         rv_rates = concat (map rc_rates caps),
         rv_boost = (case maxOfDecimals (List.map_filter rc_boost caps) of None \<Rightarrow> decimalOne | Some d \<Rightarrow> d)\<rparr>)"

definition resolveResultCaps :: "cedar_engine \<Rightarrow> string \<Rightarrow> user_parents \<Rightarrow> string \<Rightarrow> cap_resource list \<Rightarrow> authz_context \<Rightarrow> string list \<Rightarrow> resolved_caps" where
  "resolveResultCaps en who ps ds resources ctx dsTags =
    (let k = fold (capAsk ds) resources noAsks;
         dsEntity = datasourceEntity ds dsTags;
         tables = map (capTableEntity ds k) (ck_tables k);
         asked = List.map_filter (\<lambda>r. case r of
           CapTable t s \<Rightarrow> (let i = (tr_catalog t, tr_schema t, tr_table t) in if i \<in> set (ck_tables k) then Some (capTableEntity ds k i) else None)
         | _ \<Rightarrow> None) resources;
         request = marshal en (User who ps) (dsEntity # ck_focal k @ tables @
           tagEntities (dsTags @ ck_tags k @ concat (map (\<lambda>i. optTag (ck_tableTags k i)) (ck_tables k))));
         cm = toCedarMap en True ctx;
         ask = (\<lambda>e. isAuthorized en request (actionEuid (cedarId RESULT_CAP)) e
           (case ck_masked k (en_uid e) of None \<Rightarrow> cm | Some m \<Rightarrow> AList.update ''masked'' (PrimBool m) cm))
     in foldCaps (collectCaps ask (capsOf (ce_cache en)) (dsEntity # ck_focal k @ asked)))"

subsection \<open>Identities\<close>

lemma split_at_slash:
  assumes "CHR ''/'' \<notin> set a" "CHR ''/'' \<notin> set b" "a @ CHR ''/'' # x = b @ CHR ''/'' # y"
  shows "a = b \<and> x = y"
  using assms by (induction a arbitrary: b) (auto simp: Cons_eq_append_conv append_eq_Cons_conv)

lemma joinSlash_inj:
  "length xs = length ys \<Longrightarrow> list_all (\<lambda>s. \<not> hasSlash s) xs \<Longrightarrow> list_all (\<lambda>s. \<not> hasSlash s) ys \<Longrightarrow>
   joinSlash xs = joinSlash ys \<Longrightarrow> xs = ys"
proof (induction xs arbitrary: ys rule: joinSlash.induct)
  case (2 x)
  then show ?case by (cases ys) auto
next
  case (3 x y xs)
  from 3(2) obtain x' y' ys' where ys: "ys = x' # y' # ys'" by (metis Suc_length_conv length_Cons)
  with 3(3-5) have "x = x' \<and> joinSlash (y # xs) = joinSlash (y' # ys')"
    by (intro split_at_slash) (auto simp: hasSlash_def)
  with 3(1)[of "y' # ys'"] 3(2-4) show ?case by (auto simp: ys)
qed simp

lemma not_hasDelim_slash: "\<not> hasDelim s \<Longrightarrow> \<not> hasSlash s"
  by (simp add: hasDelim_def hasSlash_def)

subsection \<open>What a gate asks\<close>

lemma authorizeReadResources_key:
  "key \<in> set keys \<Longrightarrow>
   authorizeReadResources en who ps ds dsTags ctx keys denied b verdict key = Some (case bd_focal b key of
     None \<Rightarrow> denied
   | Some e \<Rightarrow> verdict
      (allows en (readRequest en who ps ds dsTags b) (toCedarMap en True ctx) e ''result.read.unmasked'')
      (allows en (readRequest en who ps ds dsTags b) (toCedarMap en True ctx) e ''result.read.masked''))"
  by (simp add: authorizeReadResources_def Let_def split: option.splits)

text \<open>The answer on one column, by the last reference of its key without a delimiter.\<close>

definition readAllowed :: "cedar_engine \<Rightarrow> string \<Rightarrow> user_parents \<Rightarrow> string \<Rightarrow> string list \<Rightarrow> authz_context \<Rightarrow> build \<Rightarrow> entity \<Rightarrow> string \<Rightarrow> bool" where
  "readAllowed en who ps ds dsTags ctx b e action =
     allows en (readRequest en who ps ds dsTags b) (toCedarMap en True ctx) e action"

lemma columnBuild_focal:
  "bd_focal (columnBuild ds st columns) k = Some e \<Longrightarrow>
   \<exists>c\<in>set columns. cl_key c = k \<and> \<not> columnHasDelim ds c \<and> e = columnEntity ds st c"
  by (auto simp: columnBuild_def Let_def dest!: map_of_SomeD)

lemma tableBuild_focal:
  "bd_focal (tableBuild ds st tables) k = Some e \<Longrightarrow>
   \<exists>t\<in>set tables. tr_key t = k \<and> \<not> tableHasDelim ds t \<and> en_uid e = tableEuid ds (tr_catalog t) (tr_schema t) (tr_table t)"
  by (auto simp: tableBuild_def Let_def map_of_map map_of_clearjunk dest!: map_of_SomeD)

lemma namedBuild_focal:
  "bd_focal (namedBuild f ds st names) k = Some e \<Longrightarrow> k \<in> set names \<and> \<not> hasSlash ds \<and> \<not> hasSlash k \<and> en_uid e = f ds k"
  by (auto simp: namedBuild_def Let_def dest!: map_of_SomeD)

lemma authorizeColumns_verdict:
  assumes "authorizeColumns en who ps ds columns ctx st dsTags key = Some v" "v \<noteq> DENIED"
  shows "\<exists>c\<in>set columns. cl_key c = key \<and> \<not> columnHasDelim ds c \<and>
    readAllowed en who ps ds dsTags ctx (columnBuild ds st columns) (columnEntity ds st c)
      (if v = UNMASKED then ''result.read.unmasked'' else ''result.read.masked'')"
proof -
  from assms(1) have key: "key \<in> set (map cl_key columns)"
    by (auto simp: authorizeColumns_def authorizeReadResources_def Let_def split: if_splits)
  with assms obtain e where e: "bd_focal (columnBuild ds st columns) key = Some e"
    and v: "v = columnVerdict (readAllowed en who ps ds dsTags ctx (columnBuild ds st columns) e ''result.read.unmasked'')
      (readAllowed en who ps ds dsTags ctx (columnBuild ds st columns) e ''result.read.masked'')"
    by (auto simp: authorizeColumns_def authorizeReadResources_key readAllowed_def simp del: set_map split: option.splits)
  from columnBuild_focal[OF e] v assms(2) show ?thesis
    by (auto simp: columnVerdict_def split: if_splits)
qed

subsection \<open>The context is attested\<close>

lemma toCedarMap_tags: "toCedarMap en False (c\<lparr>ax_tags := t\<rparr>) = toCedarMap en False c"
  by (simp add: toCedarMap_def)

lemma resolveContextTags_tags: "resolveContextTags en who ps ds (raw\<lparr>ax_tags := t\<rparr>) dsTags = resolveContextTags en who ps ds raw dsTags"
  by (simp add: resolveContextTags_def toCedarMap_tags)

lemma toAuthzDecision_Allow: "toAuthzDecision r = Allow \<longleftrightarrow> (\<exists>reasons. r = Success True [] reasons)"
  by (auto simp: toAuthzDecision_def split: cedar_response.splits if_splits)

end
