(* ===== verification/Query.thy ===== *)
theory Query
  imports Authz Relay
begin

text \<open>
  The enforcement decision of the control plane (\<^verbatim>\<open>Query.kt\<close>): from the facts the analyzer states
  about a statement, the catalog rows of its columns and the identity, to the action, the masks and the caps.
  The stores it reads (roles, mask functions, relayed volume) are fields of a record; the decision is one
  function per stage, each returning early or going on. Text that the decision only shows in messages keeps
  its wording, with ASCII for a dash.
\<close>

subsection \<open>Facts, catalog and verdict\<close>

record object_ref =
  ob_catalog :: string
  ob_schema :: string
  ob_table :: string
  ob_column :: string

definition object_key :: "object_ref \<Rightarrow> string" where
  "object_key r = joinWith ''.'' ([ob_catalog r, ob_schema r, ob_table r] @ (if ob_column r = [] then [] else [ob_column r]))"

definition tableRef :: "object_ref \<Rightarrow> object_ref" where
  "tableRef r = r\<lparr>ob_column := []\<rparr>"

definition tableId :: "object_ref \<Rightarrow> string \<times> string \<times> string" where
  "tableId r = (ob_catalog r, ob_schema r, ob_table r)"

definition namespace :: "string \<Rightarrow> string \<Rightarrow> object_ref" where
  "namespace cat sch = \<lparr>ob_catalog = cat, ob_schema = sch, ob_table = [], ob_column = []\<rparr>"

datatype grant_resource = GColumn object_ref | GTable object_ref | GFunction string bool | GUtility string | GNone

datatype masked_disposition = DISPOSITION_UNSPECIFIED | DENY_STATEMENT | MASK_OUTPUT | REDACT_OUTPUT_NULL
  | DISPOSITION_UNRECOGNIZED

record read_grant =
  rg_resource :: grant_resource
  rg_disposition :: masked_disposition
  rg_ordinals :: "int list"

datatype failure_class = FAILURE_UNSPECIFIED | INADMISSIBLE | UNANALYZABLE | FAILURE_UNRECOGNIZED

text \<open>A statement kind by its name without the prefix of the enumeration.\<close>

datatype statement_kind = KIND_UNSPECIFIED | STMT_UNKNOWN | KIND_UNRECOGNIZED | KIND string

fun kindName :: "statement_kind \<Rightarrow> string" where
  "kindName KIND_UNSPECIFIED = ''unspecified''"
| "kindName STMT_UNKNOWN = ''stmt_unknown''"
| "kindName KIND_UNRECOGNIZED = ''unrecognized''"
| "kindName (KIND n) = ToLowerKey n"

record statement_facts =
  sf_resolved :: bool
  sf_failureClass :: failure_class
  sf_failedStage :: "string option"
  sf_detail :: string
  sf_outputColumns :: "string list"
  sf_rewrittenSql :: "string option"
  sf_submission :: "bytes option"
  sf_catalogChanging :: bool
  sf_sources :: "object_ref list"
  sf_functions :: "string list"
  sf_namespaceCandidates :: "object_ref list"
  sf_statementExec :: "statement_kind option"
  sf_resultReads :: "read_grant list"
  sf_predicateLiterals :: "object_ref list"
  sf_leakColumns :: "object_ref list"
  sf_returnedColumns :: "(object_ref \<times> int list) list"
  sf_preparedNeed :: "(string \<times> string) option"

record column_class =
  cx_tags :: "string list"
  cx_maskFnName :: "string option"

record catalog_column =
  cc_catalog :: string
  cc_schema :: string
  cc_table :: string
  cc_column :: string
  cc_classification :: "column_class option"
  cc_isTemp :: bool

record datasource =
  ds_name :: string
  ds_tags :: "string list"
  ds_engine :: engine_def
  ds_engineVersion :: "string option"

record decided_mask =
  dm_column :: string
  dm_maskFn :: string
  dm_kind :: string
  dm_ordinal :: int

text \<open>What the proxy is asked to do; an empty hash of a refetch is an absent one.\<close>

record refetch =
  rf_catalog :: string
  rf_schema :: string
  rf_ifHashDiffers :: bytes

datatype proxy_command = FetchAthenaPreparedDefinition string string | Refetch refetch | CheckTargetError

record decision_context =
  dx_action :: enf_action
  dx_denyReason :: "string option"
  dx_masks :: "decided_mask list"
  dx_piiTouched :: "string list"
  dx_effectiveRoles :: "string list"
  dx_failedStage :: "string option"
  dx_detail :: "string option"
  dx_passthrough :: bool
  dx_structural :: bool
  dx_denyCode :: "string option"
  dx_rewrittenSql :: "string option"
  dx_submission :: "bytes option"
  dx_beforeDecide :: "proxy_command list"
  dx_outputColumns :: "string list"
  dx_statementKind :: statement_kind
  dx_contextTags :: "string list"
  dx_maxRows :: "int64 option"
  dx_maxBytes :: "int64 option"
  dx_unmaskablePermitted :: bool
  dx_sanitizeDiagnostics :: bool
  dx_catalogChanging :: bool
  dx_catalogMiss :: bool
  dx_referencedSchemas :: "object_ref list"
  dx_schemaCandidates :: "object_ref list"
  dx_checkTargetError :: bool
  dx_forwardTargetError :: bool

datatype channel = WIRE | EDITOR | WORKFLOW_EXECUTOR | WORKFLOW_VIEWER | SLACK | MCP | GITHUB

fun contextValue :: "channel \<Rightarrow> string" where
  "contextValue WIRE = ''wire''"
| "contextValue EDITOR = ''editor''"
| "contextValue WORKFLOW_EXECUTOR = ''workflow-executor''"
| "contextValue WORKFLOW_VIEWER = ''workflow-viewer''"
| "contextValue SLACK = ''slack''"
| "contextValue MCP = ''mcp''"
| "contextValue GITHUB = ''github''"

text \<open>What the decision reads beside its arguments.\<close>

record plane =
  pl_engine :: cedar_engine
  pl_isDeactivated :: "string \<Rightarrow> bool"
  pl_liveRoleNames :: "string list \<Rightarrow> string list"
  pl_resolveParents :: "string \<Rightarrow> user_parents"
  pl_maskFns :: "(string \<times> string) list option"
  pl_relayedVolume :: "(string \<Rightarrow> string \<Rightarrow> int64 list \<Rightarrow> int64 \<Rightarrow> int64 \<times> int64) option"
  pl_classification :: "class_service option"

record decide_input =
  di_principal :: string
  di_ds :: datasource
  di_channel :: channel
  di_rows :: "(string \<times> catalog_column) list"
  di_facts :: statement_facts
  di_providedRoles :: "string list option"
  di_context :: authz_context
  di_tempTables :: "object_ref list"

subsection \<open>Helpers\<close>

definition isBlank :: "string \<Rightarrow> bool" where
  "isBlank s \<longleftrightarrow> ktTrim s = []"

definition ifBlank :: "string \<Rightarrow> string \<Rightarrow> string" where
  "ifBlank s d = (if isBlank s then d else s)"

text \<open>Duplicates dropped, the first occurrence kept.\<close>

definition distinctList :: "'a list \<Rightarrow> 'a list" where
  "distinctList xs = rev (remdups (rev xs))"

definition tagsOf :: "catalog_column \<Rightarrow> string list" where
  "tagsOf row = (case cc_classification row of None \<Rightarrow> [] | Some c \<Rightarrow> cx_tags c)"

definition columnRefOf :: "string \<Rightarrow> catalog_column \<Rightarrow> column_ref" where
  "columnRefOf key row = \<lparr>cl_key = key, cl_catalog = cc_catalog row, cl_schema = cc_schema row, cl_table = cc_table row,
     cl_column = cc_column row, cl_tags = tagsOf row\<rparr>"

definition columnTags :: "class_service option \<Rightarrow> datasource \<Rightarrow> column_ref list \<Rightarrow> string \<rightharpoonup> string" where
  "columnTags sc ds refs =
    (case sc of
       None \<Rightarrow> Map.empty
     | Some s \<Rightarrow> map_of (rev (List.map_filter (\<lambda>r. map_option (Pair (cl_key r))
         (tagForColumn s (ds_engine ds) (ds_engineVersion ds) (cl_catalog r) (cl_schema r) (cl_table r) (cl_column r))) refs)))"

fun mapAll :: "('a \<Rightarrow> 'b option) \<Rightarrow> 'a list \<Rightarrow> 'b list option" where
  "mapAll f [] = Some []"
| "mapAll f (x # xs) = (case f x of None \<Rightarrow> None | Some y \<Rightarrow> map_option (Cons y) (mapAll f xs))"

definition readsAllUnmasked :: "plane \<Rightarrow> string \<Rightarrow> user_parents \<Rightarrow> datasource \<Rightarrow> catalog_column list \<Rightarrow> object_ref list \<Rightarrow> authz_context \<Rightarrow> bool" where
  "readsAllUnmasked pl who ps ds catalog leak ctx =
    (if leak = [] then True
     else let byKey = map_of (rev (map (\<lambda>r. ((cc_catalog r, cc_schema r, cc_table r, cc_column r), r)) catalog));
              refOf = (\<lambda>lc. map_option (\<lambda>row. columnRefOf (joinWith ''.'' [cc_catalog row, cc_schema row, cc_table row, cc_column row]) row)
                (byKey (ob_catalog lc, ob_schema lc, ob_table lc, ob_column lc)))
          in case mapAll refOf leak of
               None \<Rightarrow> False
             | Some refs \<Rightarrow> list_all (\<lambda>r. authorizeColumns (pl_engine pl) who ps (ds_name ds) refs (ctx\<lparr>ax_stmtKind := None\<rparr>)
                 (columnTags (pl_classification pl) ds refs) (ds_tags ds) (cl_key r) = Some UNMASKED) refs)"

definition catalogCoverage :: "(string \<times> catalog_column) list \<Rightarrow> string list \<Rightarrow> string option" where
  "catalogCoverage rows touched =
     map_option (\<lambda>k. ''fail-closed: analyzer emitted column absent from catalog: '' @ k)
       (find (\<lambda>k. map_of rows k = None) touched)"

definition effectiveAuthzContext :: "cedar_engine \<Rightarrow> authz_context \<Rightarrow> channel \<Rightarrow> string \<Rightarrow> user_parents \<Rightarrow> string \<Rightarrow> string list \<Rightarrow> string option \<Rightarrow> authz_context" where
  "effectiveAuthzContext en caller ch who ps ds dsTags stmtKind =
    (let raw = caller\<lparr>ax_channel := Some (contextValue ch), ax_stmtKind := stmtKind\<rparr>
     in raw\<lparr>ax_tags := resolveContextTags en who ps ds raw dsTags\<rparr>)"

definition DEFAULT_CAP_ROWS :: int64 where "DEFAULT_CAP_ROWS = 5000"
definition DEFAULT_CAP_BYTES :: int64 where "DEFAULT_CAP_BYTES = 50000000"

definition resultCaps :: "resolved_caps list \<Rightarrow> int64 option \<times> int64 option" where
  "resultCaps rs =
    (if list_ex rv_unbounded rs then (None, None)
     else (Some (case minOf (List.map_filter rv_rows rs) of None \<Rightarrow> DEFAULT_CAP_ROWS | Some n \<Rightarrow> n),
           Some (case minOf (List.map_filter rv_bytes rs) of None \<Rightarrow> DEFAULT_CAP_BYTES | Some n \<Rightarrow> n)))"

definition SESSION_KINDS :: "statement_kind list" where
  "SESSION_KINDS = map KIND [''START_TRANSACTION'', ''COMMIT'', ''ROLLBACK'', ''SAVEPOINT'', ''SET_TRANSACTION'', ''SET_SESSION_VAR'', ''USE'']"

definition relaysRows :: "statement_kind \<Rightarrow> bool" where
  "relaysRows k \<longleftrightarrow> k \<notin> set SESSION_KINDS"

fun boostAll :: "big_decimal \<Rightarrow> rate list \<Rightarrow> (cap_error, rate list) result" where
  "boostAll f [] = Inr []"
| "boostAll f (r # rs) = rbind (boosted f r) (\<lambda>x. rbind (boostAll f rs) (\<lambda>xs. Inr (x # xs)))"

definition rateSpent :: "(int64 \<Rightarrow> int64 \<times> int64) \<Rightarrow> rate \<Rightarrow> bool" where
  "rateSpent volume r \<longleftrightarrow>
    (case rt_rows r of None \<Rightarrow> False | Some n \<Rightarrow> n \<le> fst (volume (rt_window r))) \<or>
    (case rt_bytes r of None \<Rightarrow> False | Some n \<Rightarrow> n \<le> snd (volume (rt_window r)))"

definition spentRate :: "plane \<Rightarrow> string \<Rightarrow> string \<Rightarrow> resolved_caps list \<Rightarrow> (cap_error, string option) result" where
  "spentRate pl who ds rs =
    (case pl_relayedVolume pl of
       None \<Rightarrow> Inr None
     | Some relayed \<Rightarrow>
        if list_ex rv_unbounded rs then Inr None
        else rbind (boostAll (case maxOfDecimals (map rv_boost rs) of None \<Rightarrow> decimalOne | Some d \<Rightarrow> d) (concat (map rv_rates rs))) (\<lambda>rates.
          if rates = [] then Inr None
          else Inr (map_option (\<lambda>r. ''rate '' @ rt_spec r @ '' spent'')
            (find (rateSpent (relayed who ds (map rt_window rates))) rates))))"

definition baseContext :: "string list \<Rightarrow> string list \<Rightarrow> decision_context" where
  "baseContext roles tags =
    \<lparr>dx_action = ENF_DENY, dx_denyReason = None, dx_masks = [], dx_piiTouched = [], dx_effectiveRoles = roles,
     dx_failedStage = None, dx_detail = None, dx_passthrough = False, dx_structural = False, dx_denyCode = None,
     dx_rewrittenSql = None, dx_submission = None, dx_beforeDecide = [], dx_outputColumns = [],
     dx_statementKind = STMT_UNKNOWN, dx_contextTags = tags, dx_maxRows = None, dx_maxBytes = None,
     dx_unmaskablePermitted = False, dx_sanitizeDiagnostics = False, dx_catalogChanging = False, dx_catalogMiss = False,
     dx_referencedSchemas = [], dx_schemaCandidates = [], dx_checkTargetError = False, dx_forwardTargetError = False\<rparr>"

definition structuralDeny :: "string \<Rightarrow> string list \<Rightarrow> string \<Rightarrow> string list \<Rightarrow> decision_context" where
  "structuralDeny reason roles stage tags =
     (baseContext roles tags)\<lparr>dx_denyReason := Some reason, dx_failedStage := Some stage, dx_detail := Some reason, dx_structural := True\<rparr>"

definition policyDeny :: "string \<Rightarrow> string list \<Rightarrow> string list \<Rightarrow> decision_context" where
  "policyDeny reason roles tags =
     (baseContext roles tags)\<lparr>dx_denyReason := Some reason, dx_failedStage := Some ''policy'', dx_detail := Some reason\<rparr>"

definition passthroughAllow :: "string list \<Rightarrow> string \<Rightarrow> string list \<Rightarrow> decision_context" where
  "passthroughAllow roles detail tags =
     (baseContext roles tags)\<lparr>dx_action := ENF_ALLOW, dx_detail := Some detail, dx_passthrough := True\<rparr>"

definition withCaps :: "resolved_caps list \<Rightarrow> decision_context \<Rightarrow> decision_context" where
  "withCaps rs d = d\<lparr>dx_maxRows := fst (resultCaps rs), dx_maxBytes := snd (resultCaps rs)\<rparr>"

definition withAnalyzerRewrite :: "statement_facts \<Rightarrow> decision_context \<Rightarrow> decision_context" where
  "withAnalyzerRewrite f d =
    (case sf_rewrittenSql f of None \<Rightarrow> d | Some q \<Rightarrow> d\<lparr>dx_rewrittenSql := Some q, dx_submission := sf_submission f\<rparr>)"

definition targetErrorAllow :: "string \<Rightarrow> decision_context \<Rightarrow> decision_context" where
  "targetErrorAllow code d =
     d\<lparr>dx_action := ENF_ALLOW, dx_denyReason := None, dx_failedStage := None,
       dx_detail := Some (''unanalyzable; the target rejected it (error '' @ code @ '')''),
       dx_checkTargetError := False, dx_forwardTargetError := True, dx_sanitizeDiagnostics := True\<rparr>"

definition wireTaskForbiddenDeny :: "string list \<Rightarrow> string list \<Rightarrow> decision_context" where
  "wireTaskForbiddenDeny = policyDeny ''automatic task approval is not permitted for this datasource''"

fun statementKindActionId :: "statement_kind \<Rightarrow> string option" where
  "statementKindActionId KIND_UNSPECIFIED = None"
| "statementKindActionId KIND_UNRECOGNIZED = None"
| "statementKindActionId STMT_UNKNOWN = Some (cedarId EXCEPTION_UNANALYZABLE)"
| "statementKindActionId (KIND n) = Some (''stmt.kind.'' @ kindName (KIND n))"

definition functionTag :: "class_service option \<Rightarrow> datasource \<Rightarrow> string \<Rightarrow> string option" where
  "functionTag sc ds name =
    (case sc of Some s \<Rightarrow> tagForFunction s (ds_engine ds) (ds_engineVersion ds) name
     | None \<Rightarrow> map_option tag_id (baselineClassify (afterLastDot name)))"

definition beforeDecideCommands :: "statement_facts \<Rightarrow> proxy_command list" where
  "beforeDecideCommands f =
    (case sf_preparedNeed f of None \<Rightarrow> [] | Some (workgroup, name) \<Rightarrow> [FetchAthenaPreparedDefinition workgroup name])"

definition quoted :: "string \<Rightarrow> string" where
  "quoted s = [char_of (39 :: nat)] @ s @ [char_of (39 :: nat)]"

definition SYSTEM_FUNCTION_DENY :: string where
  "SYSTEM_FUNCTION_DENY = ''dangerous system function is not allowed:''"

definition SYSTEM_UTILITY_DENY :: string where
  "SYSTEM_UTILITY_DENY = ''utility command is not allowed on this datasource:''"

definition DEACTIVATED_PRINCIPAL_DENY :: string where
  "DEACTIVATED_PRINCIPAL_DENY = ''principal is deprovisioned (deactivated) - access denied''"

definition CATALOG_CONFIGURATION_DENY :: string where
  "CATALOG_CONFIGURATION_DENY = ''fail-closed: invalid catalog or analyzer namespace configuration''"

definition RATE_SPENT_CODE :: string where
  "RATE_SPENT_CODE = ''rate_spent''"

subsection \<open>The stages of the decision\<close>

text \<open>A stage returns a decision, throws, or goes on.\<close>

datatype outcome = Thrown cap_error | Returned decision_context

record actor =
  ac_parents :: user_parents
  ac_kind :: statement_kind
  ac_context :: authz_context
  ac_dsCaps :: resolved_caps

definition ac_roles :: "actor \<Rightarrow> string list" where "ac_roles ac = up_roles (ac_parents ac)"
definition ac_tags :: "actor \<Rightarrow> string list" where "ac_tags ac = ax_tags (ac_context ac)"

definition guardStage :: "bool \<Rightarrow> decision_context \<Rightarrow> (outcome, unit) result" where
  "guardStage ok d = (if ok then Inr () else Inl (Returned d))"

definition orThrow :: "(cap_error, 'a) result \<Rightarrow> (outcome, 'a) result" where
  "orThrow r = (case r of Inl e \<Rightarrow> Inl (Thrown e) | Inr x \<Rightarrow> Inr x)"

definition admit :: "plane \<Rightarrow> decide_input \<Rightarrow> (outcome, unit) result" where
  "admit pl di =
    (let f = di_facts di
     in rbind (guardStage (\<not> (sf_failureClass f = INADMISSIBLE \<or> sf_failureClass f = FAILURE_UNSPECIFIED \<and> \<not> sf_resolved f))
          (structuralDeny (ifBlank (sf_detail f) ''statement is inadmissible'') [] ''admission'' [])) (\<lambda>_.
        rbind (guardStage (beforeDecideCommands f = [])
          ((structuralDeny (ifBlank (sf_detail f) ''more input is required'') [] ''admission'' [])\<lparr>dx_beforeDecide := beforeDecideCommands f\<rparr>)) (\<lambda>_.
        guardStage (\<not> pl_isDeactivated pl (di_principal di))
          (structuralDeny DEACTIVATED_PRINCIPAL_DENY [] ''deprovisioned'' []))))"

text \<open>A snapshot of roles carries no groups and no attributes.\<close>

definition actorOf :: "plane \<Rightarrow> decide_input \<Rightarrow> actor" where
  "actorOf pl di =
    (let f = di_facts di; ds = di_ds di; who = di_principal di;
         ps = (case di_providedRoles di of
           Some roles \<Rightarrow> \<lparr>up_roles = pl_liveRoleNames pl roles, up_groups = [], up_attributes = []\<rparr>
         | None \<Rightarrow> pl_resolveParents pl who);
         kind = (case sf_statementExec f of Some k \<Rightarrow> k | None \<Rightarrow> STMT_UNKNOWN);
         ctx = effectiveAuthzContext (pl_engine pl) (di_context di) (di_channel di) who ps (ds_name ds) (ds_tags ds)
           (if kind \<in> {KIND_UNSPECIFIED, STMT_UNKNOWN, KIND_UNRECOGNIZED} then None else Some (kindName kind))
     in \<lparr>ac_parents = ps, ac_kind = kind, ac_context = ctx,
         ac_dsCaps = resolveResultCaps (pl_engine pl) who ps (ds_name ds) [] ctx (ds_tags ds)\<rparr>)"

definition ordinalsInRange :: "statement_facts \<Rightarrow> read_grant \<Rightarrow> bool" where
  "ordinalsInRange f g \<longleftrightarrow> list_all (\<lambda>i. 0 \<le> i \<and> i < int (length (sf_outputColumns f))) (rg_ordinals g)"

definition MALFORMED_DISPOSITIONS :: "masked_disposition list" where
  "MALFORMED_DISPOSITIONS = [DISPOSITION_UNSPECIFIED, DISPOSITION_UNRECOGNIZED]"

definition grantColumn :: "read_grant \<Rightarrow> object_ref option" where
  "grantColumn g = (case rg_resource g of GColumn c \<Rightarrow> Some c | _ \<Rightarrow> None)"

definition grantTable :: "read_grant \<Rightarrow> object_ref option" where
  "grantTable g = (case rg_resource g of GTable t \<Rightarrow> Some t | _ \<Rightarrow> None)"

definition grantFunction :: "read_grant \<Rightarrow> (string \<times> bool) option" where
  "grantFunction g = (case rg_resource g of GFunction n b \<Rightarrow> Some (n, b) | _ \<Rightarrow> None)"

definition grantUtility :: "read_grant \<Rightarrow> string option" where
  "grantUtility g = (case rg_resource g of GUtility c \<Rightarrow> Some c | _ \<Rightarrow> None)"

definition contractChecks :: "decide_input \<Rightarrow> actor \<Rightarrow> (outcome, unit) result" where
  "contractChecks di ac =
    (let f = di_facts di; deny = (\<lambda>m stage. structuralDeny m (ac_roles ac) stage (ac_tags ac))
     in rbind (guardStage (\<not> (sf_resolved f \<and> sf_statementExec f = None))
          (deny ''fail-closed: a resolved statement must carry its execute grant'' ''policy'')) (\<lambda>_.
        rbind (guardStage (list_all (\<lambda>g. rg_resource g \<noteq> GNone) (sf_resultReads f))
          (deny ''fail-closed: analyzer emitted a resourceless result-read grant'' ''policy'')) (\<lambda>_.
        rbind (guardStage (list_all (ordinalsInRange f) (sf_resultReads f))
          (deny ''invalid mask output ordinal'' ''mask-binding'')) (\<lambda>_.
        guardStage (list_all (\<lambda>g. grantColumn g = None \<or> rg_disposition g \<notin> set MALFORMED_DISPOSITIONS) (sf_resultReads f))
          (deny ''fail-closed: column grant has no masking disposition'' ''policy'')))))"

definition dataDeny :: "decide_input \<Rightarrow> actor \<Rightarrow> string \<Rightarrow> bool \<Rightarrow> decision_context" where
  "dataDeny di ac reason miss =
     (policyDeny reason (ac_roles ac) (ac_tags ac))\<lparr>dx_catalogMiss := miss, dx_schemaCandidates := distinctList (sf_namespaceCandidates (di_facts di))\<rparr>"

definition asksAction :: "plane \<Rightarrow> decide_input \<Rightarrow> actor \<Rightarrow> string \<Rightarrow> authz_decision" where
  "asksAction pl di ac action =
     authorizeDatasourceActionId (pl_engine pl) (User (di_principal di) (ac_parents ac)) action (ds_name (di_ds di)) (ac_context ac) (ds_tags (di_ds di))"

definition connectGate :: "plane \<Rightarrow> decide_input \<Rightarrow> actor \<Rightarrow> (outcome, unit) result" where
  "connectGate pl di ac =
     guardStage (asksAction pl di ac (cedarId DATASOURCE_CONNECT) = Allow)
       (policyDeny (''no access to datasource '' @ quoted (ds_name (di_ds di))) (ac_roles ac) (ac_tags ac))"

definition utilityGate :: "plane \<Rightarrow> decide_input \<Rightarrow> actor \<Rightarrow> (outcome, (string \<times> string) list) result" where
  "utilityGate pl di ac =
    (let ds = di_ds di; commands = List.map_filter grantUtility (sf_resultReads (di_facts di));
         deny = (\<lambda>c. Inl (Returned (structuralDeny (SYSTEM_UTILITY_DENY @ '' '' @ quoted c) (ac_roles ac) ''policy'' (ac_tags ac))))
     in case commands of
          [] \<Rightarrow> Inr []
        | first # _ \<Rightarrow>
           (case pl_classification pl of
              None \<Rightarrow> deny first
            | Some sc \<Rightarrow>
               if (case ds_engineVersion ds of None \<Rightarrow> True | Some v \<Rightarrow> isBlank v) then deny first
               else let tags = List.map_filter (\<lambda>c. map_option (Pair c) (tagForCommand sc (ds_engine ds) (ds_engineVersion ds) c)) (distinctList commands)
                    in case find (\<lambda>c. map_of tags c = None) commands of
                         Some c \<Rightarrow> deny c
                       | None \<Rightarrow>
                          (case find (\<lambda>c. authorizeUtilities (pl_engine pl) (di_principal di) (ac_parents ac) (ds_name ds) (map fst tags)
                                (ac_context ac) (map_of tags) (ds_tags ds) c \<noteq> Some USE) (map fst tags) of
                             Some c \<Rightarrow> deny c
                           | None \<Rightarrow> Inr tags)))"

definition kindGate :: "plane \<Rightarrow> decide_input \<Rightarrow> actor \<Rightarrow> (outcome, unit) result" where
  "kindGate pl di ac =
    (case statementKindActionId (ac_kind ac) of
       None \<Rightarrow> Inl (Returned (structuralDeny ''statement kind is unspecified'' (ac_roles ac) ''admission'' (ac_tags ac)))
     | Some action \<Rightarrow> guardStage (asksAction pl di ac action = Allow)
         ((policyDeny (''statement kind '' @ quoted (kindName (ac_kind ac)) @ '' is not permitted'') (ac_roles ac) (ac_tags ac))
            \<lparr>dx_checkTargetError := (sf_statementExec (di_facts di) = None)\<rparr>))"

definition touchesNothing :: "statement_facts \<Rightarrow> bool" where
  "touchesNothing f \<longleftrightarrow> sf_resolved f \<and> \<not> sf_catalogChanging f \<and> sf_functions f = [] \<and>
     list_all (\<lambda>g. grantColumn g = None \<and> grantTable g = None \<and> grantFunction g = None) (sf_resultReads f)"

definition leaksNothing :: "plane \<Rightarrow> decide_input \<Rightarrow> actor \<Rightarrow> bool" where
  "leaksNothing pl di ac =
     readsAllUnmasked pl (di_principal di) (ac_parents ac) (di_ds di) (map snd (di_rows di)) (sf_leakColumns (di_facts di)) (ac_context ac)"

definition passthroughStage :: "plane \<Rightarrow> decide_input \<Rightarrow> actor \<Rightarrow> (outcome, unit) result" where
  "passthroughStage pl di ac =
    (let f = di_facts di;
         relay = withAnalyzerRewrite f (withCaps [ac_dsCaps ac]
           ((passthroughAllow (ac_roles ac) ''passthrough (no data touched)'' (ac_tags ac))
              \<lparr>dx_sanitizeDiagnostics := \<not> leaksNothing pl di ac, dx_schemaCandidates := distinctList (sf_namespaceCandidates f),
               dx_statementKind := ac_kind ac\<rparr>))
     in if \<not> touchesNothing f then Inr ()
        else if relaysRows (ac_kind ac) then
          rbind (orThrow (spentRate pl (di_principal di) (ds_name (di_ds di)) [ac_dsCaps ac])) (\<lambda>spent.
            Inl (Returned (case spent of Some m \<Rightarrow> (policyDeny m (ac_roles ac) (ac_tags ac))\<lparr>dx_denyCode := Some RATE_SPENT_CODE\<rparr> | None \<Rightarrow> relay)))
        else Inl (Returned relay))"

text \<open>The relay of a whole statement under the exception, of an unanalyzable or an uncovered statement.\<close>

definition exceptionRelay :: "plane \<Rightarrow> decide_input \<Rightarrow> actor \<Rightarrow> string \<Rightarrow> outcome" where
  "exceptionRelay pl di ac detail =
    (let f = di_facts di;
         relay = withCaps [ac_dsCaps ac] ((passthroughAllow (ac_roles ac) detail (ac_tags ac))
           \<lparr>dx_catalogChanging := sf_catalogChanging f \<or> sf_functions f \<noteq> [], dx_schemaCandidates := distinctList (sf_namespaceCandidates f),
            dx_catalogMiss := True, dx_sanitizeDiagnostics := True\<rparr>)
     in if relaysRows (ac_kind ac) then
          (case spentRate pl (di_principal di) (ds_name (di_ds di)) [ac_dsCaps ac] of
             Inl e \<Rightarrow> Thrown e
           | Inr (Some m) \<Rightarrow> Returned ((dataDeny di ac m False)\<lparr>dx_denyCode := Some RATE_SPENT_CODE\<rparr>)
           | Inr None \<Rightarrow> Returned relay)
        else Returned relay)"

definition functionTags :: "plane \<Rightarrow> decide_input \<Rightarrow> string list \<Rightarrow> (string \<times> string) list" where
  "functionTags pl di names =
     List.map_filter (\<lambda>n. map_option (Pair n) (functionTag (pl_classification pl) (di_ds di) n)) (distinctList names)"

definition functionsAllowed :: "plane \<Rightarrow> decide_input \<Rightarrow> actor \<Rightarrow> string list \<Rightarrow> (string \<times> string) list \<Rightarrow> (outcome, unit) result" where
  "functionsAllowed pl di ac names tags =
    (case find (\<lambda>n. authorizeFunctions (pl_engine pl) (di_principal di) (ac_parents ac) (ds_name (di_ds di)) names (ac_context ac)
          (map_of tags) (ds_tags (di_ds di)) n \<noteq> Some FUNCTION_ALLOWED) names of
       Some n \<Rightarrow> Inl (Returned (structuralDeny (SYSTEM_FUNCTION_DENY @ '' '' @ quoted n) (ac_roles ac) ''policy'' (ac_tags ac)))
     | None \<Rightarrow> Inr ())"

definition unresolvedStage :: "plane \<Rightarrow> decide_input \<Rightarrow> actor \<Rightarrow> (outcome, unit) result" where
  "unresolvedStage pl di ac =
    (let f = di_facts di; tags = functionTags pl di (sf_functions f);
         reason = ''fail-closed: could not analyze ('' @ (case sf_failedStage f of None \<Rightarrow> ''null'' | Some s \<Rightarrow> ToLowerKey s) @ '')''
     in if sf_resolved f then Inr ()
        else rbind (guardStage (sf_failureClass f = UNANALYZABLE)
          (structuralDeny (ifBlank (sf_detail f) ''statement analysis failed'') (ac_roles ac) ''admission'' (ac_tags ac))) (\<lambda>_.
        rbind (functionsAllowed pl di ac (map fst tags) tags) (\<lambda>_.
        Inl (if asksAction pl di ac (cedarId EXCEPTION_UNANALYZABLE) = Allow
             then exceptionRelay pl di ac (''unanalyzable relay (exception.unanalyzable): '' @ reason)
             else Returned ((dataDeny di ac reason True)\<lparr>dx_checkTargetError := True\<rparr>)))))"

definition columnGrants :: "statement_facts \<Rightarrow> (object_ref \<times> read_grant) list" where
  "columnGrants f = List.map_filter (\<lambda>g. map_option (\<lambda>c. (c, g)) (grantColumn g)) (sf_resultReads f)"

text \<open>The keys in the order of their first grant.\<close>

definition columnKeys :: "statement_facts \<Rightarrow> string list" where
  "columnKeys f = distinctList (map (object_key \<circ> fst) (columnGrants f))"

definition coverageStage :: "plane \<Rightarrow> decide_input \<Rightarrow> actor \<Rightarrow> (outcome, unit) result" where
  "coverageStage pl di ac =
    (case catalogCoverage (di_rows di) (columnKeys (di_facts di)) of
       None \<Rightarrow> Inr ()
     | Some reason \<Rightarrow> Inl (if asksAction pl di ac (cedarId EXCEPTION_UNANALYZABLE) = Allow
         then exceptionRelay pl di ac (''uncovered-column relay (exception.unanalyzable): '' @ reason)
         else Returned ((structuralDeny reason (ac_roles ac) ''catalog'' (ac_tags ac))
           \<lparr>dx_catalogMiss := True, dx_schemaCandidates := distinctList (sf_namespaceCandidates (di_facts di))\<rparr>)))"

definition maskKindsStage :: "plane \<Rightarrow> decide_input \<Rightarrow> actor \<Rightarrow> (outcome, string \<rightharpoonup> string) result" where
  "maskKindsStage pl di ac =
    (case pl_maskFns pl of
       None \<Rightarrow> Inl (Returned ((structuralDeny CATALOG_CONFIGURATION_DENY (ac_roles ac) ''catalog'' (ac_tags ac))
         \<lparr>dx_catalogMiss := True, dx_schemaCandidates := distinctList (sf_namespaceCandidates (di_facts di))\<rparr>))
     | Some fns \<Rightarrow> Inr (map_of (rev fns)))"

definition columnRefs :: "decide_input \<Rightarrow> column_ref list" where
  "columnRefs di = List.map_filter (\<lambda>k. map_option (columnRefOf k) (map_of (di_rows di) k)) (columnKeys (di_facts di))"

definition tableSystemTags :: "plane \<Rightarrow> decide_input \<Rightarrow> string \<times> string \<times> string \<rightharpoonup> string" where
  "tableSystemTags pl di i =
    (let f = di_facts di;
         touched = map (\<lambda>r. (cl_catalog r, cl_schema r, cl_table r)) (columnRefs di) @ map tableId (sf_sources f) @
           map tableId (List.map_filter grantTable (sf_resultReads f))
     in case pl_classification pl of
          None \<Rightarrow> None
        | Some sc \<Rightarrow> if i \<in> set touched
            then (case i of (cat, sch, tbl) \<Rightarrow> tagForTable sc (ds_engine (di_ds di)) (ds_engineVersion (di_ds di)) cat sch tbl) else None)"

definition systemRedacted :: "plane \<Rightarrow> decide_input \<Rightarrow> string \<Rightarrow> bool" where
  "systemRedacted pl di key =
    (case pl_classification pl of
       None \<Rightarrow> False
     | Some sc \<Rightarrow> list_ex (\<lambda>r. cl_key r = key \<and> redactsColumn sc (ds_engine (di_ds di)) (ds_engineVersion (di_ds di))
         (cl_catalog r) (cl_schema r) (cl_table r) (cl_column r)) (columnRefs di))"

definition functionGate :: "plane \<Rightarrow> decide_input \<Rightarrow> actor \<Rightarrow> (outcome, (string \<times> string) list) result" where
  "functionGate pl di ac =
    (let f = di_facts di; grants = List.map_filter grantFunction (sf_resultReads f);
         tags = functionTags pl di (map fst grants @ sf_functions f);
         gated = distinctList (map fst (filter (\<lambda>(n, builtin). \<not> (builtin \<and> map_of tags n = None)) grants) @
           filter (\<lambda>n. map_of tags n \<noteq> None) (sf_functions f))
     in if gated = [] then Inr []
        else rbind (functionsAllowed pl di ac gated tags) (\<lambda>_. Inr tags))"

definition columnVerdicts :: "plane \<Rightarrow> decide_input \<Rightarrow> actor \<Rightarrow> string \<rightharpoonup> column_verdict" where
  "columnVerdicts pl di ac =
    (if columnRefs di = [] then Map.empty
     else authorizeColumns (pl_engine pl) (di_principal di) (ac_parents ac) (ds_name (di_ds di)) (columnRefs di) (ac_context ac)
       (columnTags (pl_classification pl) (di_ds di) (columnRefs di)) (ds_tags (di_ds di)))"

text \<open>The verdict on a column: a temporary one is readable, a redacted one is masked unless it is denied.\<close>

definition verdictOn :: "plane \<Rightarrow> decide_input \<Rightarrow> actor \<Rightarrow> string \<Rightarrow> column_verdict" where
  "verdictOn pl di ac key =
    (let authorized = (case map_of (di_rows di) key of
           Some row \<Rightarrow> if cc_isTemp row then UNMASKED else (case columnVerdicts pl di ac key of Some v \<Rightarrow> v | None \<Rightarrow> DENIED)
         | None \<Rightarrow> DENIED)
     in if systemRedacted pl di key \<and> authorized \<noteq> DENIED then MASKED else authorized)"

definition maskCandidate :: "decide_input \<Rightarrow> (string \<rightharpoonup> string) \<Rightarrow> string \<Rightarrow> bool \<Rightarrow> int \<Rightarrow> decided_mask" where
  "maskCandidate di kinds key redact ordinal =
    (let out = sf_outputColumns (di_facts di) ! nat ordinal;
         fn = (case map_of (di_rows di) key of None \<Rightarrow> None
           | Some row \<Rightarrow> (case cc_classification row of None \<Rightarrow> None | Some c \<Rightarrow> cx_maskFnName c))
     in if redact then \<lparr>dm_column = out, dm_maskFn = ''redact'', dm_kind = ''NULL'', dm_ordinal = ordinal\<rparr>
        else \<lparr>dm_column = out, dm_maskFn = (case fn of None \<Rightarrow> ''mask'' | Some n \<Rightarrow> n),
              dm_kind = (case fn of None \<Rightarrow> ''FIXED'' | Some n \<Rightarrow> (case kinds n of None \<Rightarrow> ''FIXED'' | Some k \<Rightarrow> k)),
              dm_ordinal = ordinal\<rparr>)"

fun putMask :: "bool \<Rightarrow> decided_mask \<Rightarrow> decided_mask list \<Rightarrow> decided_mask list" where
  "putMask redact m [] = [m]"
| "putMask redact m (x # xs) =
    (if dm_ordinal x = dm_ordinal m then (if redact \<and> dm_kind x \<noteq> ''NULL'' then m # xs else x # xs)
     else x # putMask redact m xs)"

definition grantMasks :: "plane \<Rightarrow> decide_input \<Rightarrow> (string \<rightharpoonup> string) \<Rightarrow> object_ref \<times> read_grant \<Rightarrow> decided_mask list \<Rightarrow> decided_mask list" where
  "grantMasks pl di kinds cg masks =
    (let key = object_key (fst cg); redact = (systemRedacted pl di key \<or> rg_disposition (snd cg) = REDACT_OUTPUT_NULL)
     in fold (\<lambda>o' ms. putMask redact (maskCandidate di kinds key redact o') ms) (rg_ordinals (snd cg)) masks)"

fun columnLoop :: "plane \<Rightarrow> decide_input \<Rightarrow> actor \<Rightarrow> (string \<rightharpoonup> string) \<Rightarrow> (object_ref \<times> read_grant) list \<Rightarrow> decided_mask list \<times> bool \<Rightarrow>
    (outcome, decided_mask list \<times> bool) result" where
  "columnLoop pl di ac kinds [] st = Inr st"
| "columnLoop pl di ac kinds (cg # cgs) (masks, mandatory) =
    (let key = object_key (fst cg)
     in case verdictOn pl di ac key of
          UNMASKED \<Rightarrow> columnLoop pl di ac kinds cgs (masks, mandatory)
        | DENIED \<Rightarrow> Inl (Returned (dataDeny di ac (''policy denies column '' @ key) False))
        | MASKED \<Rightarrow>
           if rg_disposition (snd cg) \<in> {DENY_STATEMENT, DISPOSITION_UNSPECIFIED, DISPOSITION_UNRECOGNIZED}
           then Inl (Returned (dataDeny di ac (''protected column '' @ key @
             '' appears in a position that cannot be masked (a write payload or a subquery/reference)'') False))
           else columnLoop pl di ac kinds cgs
             (grantMasks pl di kinds cg masks, mandatory \<or> rg_ordinals (snd cg) \<noteq> [] \<and> systemRedacted pl di key))"

definition tableGrants :: "decide_input \<Rightarrow> object_ref list" where
  "tableGrants di = filter (\<lambda>t. tableRef t \<notin> set (di_tempTables di)) (List.map_filter grantTable (sf_resultReads (di_facts di)))"

definition toTableRef :: "object_ref \<Rightarrow> table_ref" where
  "toTableRef t = \<lparr>tr_key = object_key t, tr_catalog = ob_catalog t, tr_schema = ob_schema t, tr_table = ob_table t\<rparr>"

definition distinctByKey :: "table_ref list \<Rightarrow> table_ref list" where
  "distinctByKey ts = map snd (AList.clearjunk (map (\<lambda>t. (tr_key t, t)) ts))"

definition tableGate :: "plane \<Rightarrow> decide_input \<Rightarrow> actor \<Rightarrow> (outcome, unit) result" where
  "tableGate pl di ac =
    (let refs = distinctByKey (map toTableRef (tableGrants di))
     in case find (\<lambda>t. authorizeTables (pl_engine pl) (di_principal di) (ac_parents ac) (ds_name (di_ds di)) refs (ac_context ac)
            (tableSystemTags pl di) (ds_tags (di_ds di)) (tr_key t) \<noteq> Some READ) refs of
          Some t \<Rightarrow> Inl (Returned (dataDeny di ac (''no read grant for scanned table '' @ quoted (tr_schema t @ ''.'' @ tr_table t)) False))
        | None \<Rightarrow> Inr ())"

definition returnedClear :: "(string \<rightharpoonup> column_verdict) \<Rightarrow> decided_mask list \<Rightarrow> bool \<Rightarrow> object_ref \<times> int list \<Rightarrow> bool" where
  "returnedClear verdicts masks unmaskable rc \<longleftrightarrow>
     unmaskable \<or> verdicts (object_key (fst rc)) = Some UNMASKED \<and>
       (snd rc = [] \<or> list_ex (\<lambda>o'. o' \<notin> dm_ordinal ` set masks) (snd rc))"

definition returnedMasked :: "(string \<rightharpoonup> column_verdict) \<Rightarrow> decided_mask list \<Rightarrow> bool \<Rightarrow> (object_ref \<times> int list) list \<Rightarrow> string \<rightharpoonup> bool" where
  "returnedMasked verdicts masks unmaskable rcs =
     fold (\<lambda>rc m. m(object_key (fst rc) \<mapsto> (case m (object_key (fst rc)) of None \<Rightarrow> True | Some b \<Rightarrow> b) \<and> \<not> returnedClear verdicts masks unmaskable rc))
       rcs Map.empty"

definition capResources :: "plane \<Rightarrow> decide_input \<Rightarrow> actor \<Rightarrow> decided_mask list \<Rightarrow> bool \<Rightarrow> (string \<times> string) list \<Rightarrow> (string \<times> string) list \<Rightarrow> cap_resource list" where
  "capResources pl di ac masks unmaskable fnTags utTags =
    (let returned = returnedMasked (columnVerdicts pl di ac) masks unmaskable (sf_returnedColumns (di_facts di));
         colTags = columnTags (pl_classification pl) (di_ds di) (columnRefs di)
     in List.map_filter (\<lambda>r. map_option (CapColumn r (colTags (cl_key r))) (returned (cl_key r))) (columnRefs di) @
        map (\<lambda>t. CapTable (toTableRef t) (tableSystemTags pl di (tableId t))) (tableGrants di) @
        map (\<lambda>(n, t). CapFunction n (Some t)) fnTags @ map (\<lambda>(n, t). CapUtility n (Some t)) utTags)"

definition finishStage :: "plane \<Rightarrow> decide_input \<Rightarrow> actor \<Rightarrow> decided_mask list \<Rightarrow> bool \<Rightarrow> (string \<times> string) list \<Rightarrow> (string \<times> string) list \<Rightarrow> outcome" where
  "finishStage pl di ac masks mandatory fnTags utTags =
    (let f = di_facts di; ds = di_ds di;
         action = (if masks = [] then ENF_ALLOW else ENF_MASK);
         unmaskable = (masks \<noteq> [] \<and> \<not> mandatory \<and> asksAction pl di ac (cedarId EXCEPTION_UNMASKABLE) = Allow);
         caps = resolveResultCaps (pl_engine pl) (di_principal di) (ac_parents ac) (ds_name ds)
           (capResources pl di ac masks unmaskable fnTags utTags) (ac_context ac) (ds_tags ds)
     in case spentRate pl (di_principal di) (ds_name ds) [ac_dsCaps ac, caps] of
          Inl e \<Rightarrow> Thrown e
        | Inr (Some m) \<Rightarrow> Returned ((dataDeny di ac m False)\<lparr>dx_denyCode := Some RATE_SPENT_CODE\<rparr>)
        | Inr None \<Rightarrow> Returned (withAnalyzerRewrite f (withCaps [ac_dsCaps ac, caps] ((baseContext (ac_roles ac) (ac_tags ac))
            \<lparr>dx_action := action, dx_masks := masks,
             dx_piiTouched := filter (\<lambda>k. case map_of (di_rows di) k of Some row \<Rightarrow> tagsOf row \<noteq> [] | None \<Rightarrow> False) (columnKeys f),
             dx_failedStage := map_option ToLowerKey (sf_failedStage f), dx_detail := Some (sf_detail f),
             dx_outputColumns := sf_outputColumns f, dx_statementKind := ac_kind ac, dx_unmaskablePermitted := unmaskable,
             dx_sanitizeDiagnostics := (action \<noteq> ENF_ALLOW \<or> \<not> leaksNothing pl di ac),
             dx_catalogChanging := (sf_catalogChanging f \<or> sf_functions f \<noteq> [] \<or> List.map_filter grantFunction (sf_resultReads f) \<noteq> []),
             dx_referencedSchemas := filter (\<lambda>n. \<not> ed_isTempSchema (ds_engine ds) (ob_schema n))
               (distinctList (map (\<lambda>s. namespace (ob_catalog s) (ob_schema s)) (sf_sources f @ map fst (columnGrants f)))),
             dx_schemaCandidates := distinctList (sf_namespaceCandidates f)\<rparr>))))"

definition settle :: "(outcome, outcome) result \<Rightarrow> outcome" where
  "settle r = (case r of Inl out \<Rightarrow> out | Inr out \<Rightarrow> out)"

definition decideFacts :: "plane \<Rightarrow> decide_input \<Rightarrow> outcome" where
  "decideFacts pl di =
    settle (rbind (admit pl di) (\<lambda>_. let ac = actorOf pl di in
       rbind (contractChecks di ac) (\<lambda>_.
       rbind (connectGate pl di ac) (\<lambda>_.
       rbind (utilityGate pl di ac) (\<lambda>utTags.
       rbind (kindGate pl di ac) (\<lambda>_.
       rbind (passthroughStage pl di ac) (\<lambda>_.
       rbind (unresolvedStage pl di ac) (\<lambda>_.
       rbind (coverageStage pl di ac) (\<lambda>_.
       rbind (maskKindsStage pl di ac) (\<lambda>kinds.
       rbind (functionGate pl di ac) (\<lambda>fnTags.
       rbind (columnLoop pl di ac kinds (columnGrants (di_facts di)) ([], False)) (\<lambda>(masks, mandatory).
       rbind (tableGate pl di ac) (\<lambda>_.
       Inr (finishStage pl di ac masks mandatory fnTags utTags))))))))))))))"

subsection \<open>Going through the stages\<close>

lemma set_distinctList [simp]: "set (distinctList xs) = set xs"
  by (simp add: distinctList_def)

lemma set_map_filter: "y \<in> set (List.map_filter f xs) \<longleftrightarrow> (\<exists>x\<in>set xs. f x = Some y)"
  by (induction xs) (auto simp: List.map_filter_simps split: option.splits)

lemma find_None_all: "find P xs = None \<longleftrightarrow> (\<forall>x\<in>set xs. \<not> P x)"
  by (auto simp: find_None_iff)

lemma deny_actions [simp]:
  "dx_action (baseContext r t) = ENF_DENY" "dx_action (structuralDeny m r s t) = ENF_DENY" "dx_action (policyDeny m r t) = ENF_DENY"
  "dx_action (dataDeny di ac m b) = ENF_DENY"
  by (simp_all add: baseContext_def structuralDeny_def policyDeny_def dataDeny_def)

lemma guardStage_Inr [simp]: "guardStage ok d = Inr u \<longleftrightarrow> ok"
  by (simp add: guardStage_def)

lemma guardStage_Inl [simp]: "guardStage ok d = Inl out \<longleftrightarrow> \<not> ok \<and> out = Returned d"
  by (auto simp: guardStage_def)

lemma rbind_eq_Inl_iff: "rbind m f = Inl e \<longleftrightarrow> m = Inl e \<or> (\<exists>a. m = Inr a \<and> f a = Inl e)"
  by (cases m) auto

text \<open>A decision that lets something through without the analysis of its columns.\<close>

definition relayed :: "actor \<Rightarrow> decision_context \<Rightarrow> bool" where
  "relayed ac d \<longleftrightarrow> dx_action d = ENF_ALLOW \<and> dx_passthrough d \<and> dx_masks d = [] \<and>
     (dx_maxRows d, dx_maxBytes d) = resultCaps [ac_dsCaps ac]"

lemma relayed_rewrite [simp]: "relayed ac (withAnalyzerRewrite f d) = relayed ac d"
  by (simp add: relayed_def withAnalyzerRewrite_def split: option.splits)

lemma relayed_withCaps [simp]:
  "relayed ac (withCaps [ac_dsCaps ac] d) \<longleftrightarrow> dx_action d = ENF_ALLOW \<and> dx_passthrough d \<and> dx_masks d = []"
  by (simp add: relayed_def withCaps_def)

lemma passthroughAllow_simps [simp]:
  "dx_action (passthroughAllow r m t) = ENF_ALLOW" "dx_passthrough (passthroughAllow r m t)" "dx_masks (passthroughAllow r m t) = []"
  by (simp_all add: passthroughAllow_def baseContext_def)

lemma admit_Inl: "admit pl di = Inl (Returned d) \<Longrightarrow> dx_action d = ENF_DENY"
  by (auto simp: admit_def Let_def rbind_eq_Inl_iff)

lemma contractChecks_Inl: "contractChecks di ac = Inl (Returned d) \<Longrightarrow> dx_action d = ENF_DENY"
  by (auto simp: contractChecks_def Let_def rbind_eq_Inl_iff)

lemma connectGate_Inl: "connectGate pl di ac = Inl (Returned d) \<Longrightarrow> dx_action d = ENF_DENY"
  by (auto simp: connectGate_def)

lemma utilityGate_Inl: "utilityGate pl di ac = Inl (Returned d) \<Longrightarrow> dx_action d = ENF_DENY"
  by (auto simp: utilityGate_def Let_def split: list.splits option.splits if_splits)

lemma kindGate_Inl: "kindGate pl di ac = Inl (Returned d) \<Longrightarrow> dx_action d = ENF_DENY"
  by (auto simp: kindGate_def split: option.splits)

lemma passthroughStage_Inl:
  "passthroughStage pl di ac = Inl (Returned d) \<Longrightarrow> dx_action d = ENF_DENY \<or> touchesNothing (di_facts di) \<and> relayed ac d"
  by (auto simp: passthroughStage_def Let_def rbind_eq_Inl_iff orThrow_def split: if_splits sum.splits option.splits)

lemma exceptionRelay_Returned: "exceptionRelay pl di ac m = Returned d \<Longrightarrow> dx_action d = ENF_DENY \<or> relayed ac d"
  by (auto simp: exceptionRelay_def Let_def split: if_splits sum.splits option.splits)

lemma functionsAllowed_Inl: "functionsAllowed pl di ac names tags = Inl (Returned d) \<Longrightarrow> dx_action d = ENF_DENY"
  by (auto simp: functionsAllowed_def split: option.splits)

lemma unresolvedStage_Inl:
  "unresolvedStage pl di ac = Inl (Returned d) \<Longrightarrow> dx_action d = ENF_DENY \<or>
     \<not> sf_resolved (di_facts di) \<and> asksAction pl di ac (cedarId EXCEPTION_UNANALYZABLE) = Allow \<and> relayed ac d"
  by (auto simp: unresolvedStage_def Let_def rbind_eq_Inl_iff split: if_splits dest: functionsAllowed_Inl exceptionRelay_Returned)

lemma coverageStage_Inl:
  "coverageStage pl di ac = Inl (Returned d) \<Longrightarrow> dx_action d = ENF_DENY \<or>
     catalogCoverage (di_rows di) (columnKeys (di_facts di)) \<noteq> None \<and> asksAction pl di ac (cedarId EXCEPTION_UNANALYZABLE) = Allow \<and> relayed ac d"
  by (auto simp: coverageStage_def split: if_splits option.splits dest: exceptionRelay_Returned)

lemma maskKindsStage_Inl: "maskKindsStage pl di ac = Inl (Returned d) \<Longrightarrow> dx_action d = ENF_DENY"
  by (auto simp: maskKindsStage_def split: option.splits)

lemma functionGate_Inl: "functionGate pl di ac = Inl (Returned d) \<Longrightarrow> dx_action d = ENF_DENY"
  by (auto simp: functionGate_def Let_def rbind_eq_Inl_iff split: if_splits dest: functionsAllowed_Inl)

lemma columnLoop_Inl: "columnLoop pl di ac kinds cgs st = Inl (Returned d) \<Longrightarrow> dx_action d = ENF_DENY"
  by (induction pl di ac kinds cgs st rule: columnLoop.induct) (auto simp: Let_def split: column_verdict.splits if_splits)

lemma tableGate_Inl: "tableGate pl di ac = Inl (Returned d) \<Longrightarrow> dx_action d = ENF_DENY"
  by (auto simp: tableGate_def Let_def split: option.splits)

lemmas stage_denies = admit_Inl contractChecks_Inl connectGate_Inl utilityGate_Inl kindGate_Inl maskKindsStage_Inl
  functionGate_Inl columnLoop_Inl tableGate_Inl

text \<open>The gates every statement passes, and the ways a statement is let through after them.\<close>

definition commonGates :: "plane \<Rightarrow> decide_input \<Rightarrow> (string \<times> string) list \<Rightarrow> bool" where
  "commonGates pl di utTags \<longleftrightarrow>
    (let ac = actorOf pl di
     in admit pl di = Inr () \<and> contractChecks di ac = Inr () \<and> connectGate pl di ac = Inr () \<and>
        utilityGate pl di ac = Inr utTags \<and> kindGate pl di ac = Inr ())"

lemma settle_pass:
  assumes "settle (rbind m f) = Returned d" "dx_action d \<noteq> ENF_DENY" "m = Inl (Returned d) \<Longrightarrow> dx_action d = ENF_DENY"
  shows "\<exists>a. m = Inr a \<and> settle (f a) = Returned d"
  using assms by (cases m) (auto simp: settle_def)

lemma settle_stage: "settle (rbind m f) = Returned d \<Longrightarrow> m = Inl (Returned d) \<or> (\<exists>a. m = Inr a \<and> settle (f a) = Returned d)"
  by (cases m) (auto simp: settle_def)

text \<open>The analysis of the columns, and with the three relays before it, the rest of the decision.\<close>

definition analysed :: "plane \<Rightarrow> decide_input \<Rightarrow> (string \<times> string) list \<Rightarrow> (outcome, outcome) result" where
  "analysed pl di utTags =
    (let ac = actorOf pl di
     in rbind (maskKindsStage pl di ac) (\<lambda>kinds.
        rbind (functionGate pl di ac) (\<lambda>fnTags.
        rbind (columnLoop pl di ac kinds (columnGrants (di_facts di)) ([], False)) (\<lambda>(masks, mandatory).
        rbind (tableGate pl di ac) (\<lambda>_.
        Inr (finishStage pl di ac masks mandatory fnTags utTags))))))"

definition rest :: "plane \<Rightarrow> decide_input \<Rightarrow> (string \<times> string) list \<Rightarrow> (outcome, outcome) result" where
  "rest pl di utTags =
    (let ac = actorOf pl di
     in rbind (passthroughStage pl di ac) (\<lambda>_. rbind (unresolvedStage pl di ac) (\<lambda>_. rbind (coverageStage pl di ac) (\<lambda>_.
        analysed pl di utTags))))"

lemma decideFacts_rest:
  "decideFacts pl di = settle (rbind (admit pl di) (\<lambda>_. let ac = actorOf pl di in
     rbind (contractChecks di ac) (\<lambda>_. rbind (connectGate pl di ac) (\<lambda>_. rbind (utilityGate pl di ac) (\<lambda>utTags.
     rbind (kindGate pl di ac) (\<lambda>_. rest pl di utTags))))))"
  by (simp add: decideFacts_def rest_def analysed_def Let_def)

lemma analysed_cases:
  assumes "settle (analysed pl di ut) = Returned d" "dx_action d \<noteq> ENF_DENY"
  obtains kinds fnTags masks mandatory where
    "functionGate pl di (actorOf pl di) = Inr fnTags"
    "columnLoop pl di (actorOf pl di) kinds (columnGrants (di_facts di)) ([], False) = Inr (masks, mandatory)"
    "tableGate pl di (actorOf pl di) = Inr ()"
    "finishStage pl di (actorOf pl di) masks mandatory fnTags ut = Returned d"
proof -
  let ?ac = "actorOf pl di"
  note pass = settle_pass[OF _ assms(2)]
  from pass[OF assms(1)[unfolded analysed_def Let_def] stage_denies(6)]
  obtain kinds where r: "settle (rbind (functionGate pl di ?ac) (\<lambda>fnTags.
      rbind (columnLoop pl di ?ac kinds (columnGrants (di_facts di)) ([], False)) (\<lambda>(masks, mandatory).
      rbind (tableGate pl di ?ac) (\<lambda>_. Inr (finishStage pl di ?ac masks mandatory fnTags ut))))) = Returned d" by blast
  from pass[OF r stage_denies(7)] obtain fn where fn: "functionGate pl di ?ac = Inr fn" and r: "settle (
      rbind (columnLoop pl di ?ac kinds (columnGrants (di_facts di)) ([], False)) (\<lambda>(masks, mandatory).
      rbind (tableGate pl di ?ac) (\<lambda>_. Inr (finishStage pl di ?ac masks mandatory fn ut)))) = Returned d" by blast
  from pass[OF r stage_denies(8)] obtain p where l: "columnLoop pl di ?ac kinds (columnGrants (di_facts di)) ([], False) = Inr p"
    and r: "settle (case p of (masks, mandatory) \<Rightarrow> rbind (tableGate pl di ?ac) (\<lambda>_. Inr (finishStage pl di ?ac masks mandatory fn ut))) = Returned d"
    by blast
  obtain ms md where p: "p = (ms, md)" by (cases p)
  from r have r: "settle (rbind (tableGate pl di ?ac) (\<lambda>_. Inr (finishStage pl di ?ac ms md fn ut))) = Returned d" by (simp add: p)
  from pass[OF r stage_denies(9)] obtain u where "tableGate pl di ?ac = Inr u" "settle (Inr (finishStage pl di ?ac ms md fn ut)) = Returned d" by blast
  with that fn l show ?thesis by (simp add: p settle_def)
qed

lemma rest_cases:
  assumes "settle (rest pl di ut) = Returned d" "dx_action d \<noteq> ENF_DENY"
  shows "touchesNothing (di_facts di) \<and> relayed (actorOf pl di) d \<or>
    relayed (actorOf pl di) d \<and> asksAction pl di (actorOf pl di) (cedarId EXCEPTION_UNANALYZABLE) = Allow \<and>
      (\<not> sf_resolved (di_facts di) \<or> catalogCoverage (di_rows di) (columnKeys (di_facts di)) \<noteq> None) \<or>
    sf_resolved (di_facts di) \<and> catalogCoverage (di_rows di) (columnKeys (di_facts di)) = None \<and> settle (analysed pl di ut) = Returned d"
proof -
  let ?ac = "actorOf pl di"
  have inv: "unresolvedStage pl di ?ac = Inr u \<Longrightarrow> sf_resolved (di_facts di)"
    "coverageStage pl di ?ac = Inr u \<Longrightarrow> catalogCoverage (di_rows di) (columnKeys (di_facts di)) = None" for u
    by (auto simp: unresolvedStage_def coverageStage_def Let_def rbind_eq_Inr_iff split: if_splits option.splits)
  show ?thesis
    using assms settle_stage[OF assms(1)[unfolded rest_def Let_def]] passthroughStage_Inl[of pl di ?ac d]
      unresolvedStage_Inl[of pl di ?ac d] coverageStage_Inl[of pl di ?ac d] inv
    by (auto dest!: settle_stage)
qed

lemma decideFacts_cases:
  assumes "decideFacts pl di = Returned d" "dx_action d \<noteq> ENF_DENY"
  obtains utTags where "commonGates pl di utTags" "touchesNothing (di_facts di)" "relayed (actorOf pl di) d"
  | utTags where "commonGates pl di utTags" "relayed (actorOf pl di) d"
      "asksAction pl di (actorOf pl di) (cedarId EXCEPTION_UNANALYZABLE) = Allow"
      "\<not> sf_resolved (di_facts di) \<or> catalogCoverage (di_rows di) (columnKeys (di_facts di)) \<noteq> None"
  | utTags where "commonGates pl di utTags" "sf_resolved (di_facts di)"
      "catalogCoverage (di_rows di) (columnKeys (di_facts di)) = None" "settle (analysed pl di utTags) = Returned d"
proof -
  let ?ac = "actorOf pl di"
  note pass = settle_pass[OF _ assms(2)]
  from assms(1) obtain u1 where g1: "admit pl di = Inr u1" and r: "settle (rbind (contractChecks di ?ac) (\<lambda>_.
      rbind (connectGate pl di ?ac) (\<lambda>_. rbind (utilityGate pl di ?ac) (\<lambda>utTags. rbind (kindGate pl di ?ac) (\<lambda>_.
      rest pl di utTags))))) = Returned d"
    unfolding decideFacts_rest Let_def using pass[OF _ stage_denies(1)] by metis
  from pass[OF r stage_denies(2)] obtain u2 where g2: "contractChecks di ?ac = Inr u2" and r: "settle (
      rbind (connectGate pl di ?ac) (\<lambda>_. rbind (utilityGate pl di ?ac) (\<lambda>utTags. rbind (kindGate pl di ?ac) (\<lambda>_.
      rest pl di utTags)))) = Returned d" by blast
  from pass[OF r stage_denies(3)] obtain u3 where g3: "connectGate pl di ?ac = Inr u3" and r: "settle (
      rbind (utilityGate pl di ?ac) (\<lambda>utTags. rbind (kindGate pl di ?ac) (\<lambda>_. rest pl di utTags))) = Returned d" by blast
  from pass[OF r stage_denies(4)] obtain ut where g4: "utilityGate pl di ?ac = Inr ut" and r: "settle (
      rbind (kindGate pl di ?ac) (\<lambda>_. rest pl di ut)) = Returned d" by blast
  from pass[OF r stage_denies(5)] obtain u5 where g5: "kindGate pl di ?ac = Inr u5" and r: "settle (rest pl di ut) = Returned d" by blast
  have common: "commonGates pl di ut" using g1 g2 g3 g4 g5 by (simp add: commonGates_def Let_def)
  from rest_cases[OF r assms(2)] show ?thesis using that common by metis
qed


subsection \<open>The masks the loop builds\<close>

lemma putMask_ordinals: "dm_ordinal ` set (putMask r m xs) = insert (dm_ordinal m) (dm_ordinal ` set xs)"
  by (induction r m xs rule: putMask.induct) auto

lemma putMask_distinct: "distinct (map dm_ordinal xs) \<Longrightarrow> distinct (map dm_ordinal (putMask r m xs))"
proof (induction r m xs rule: putMask.induct)
  case (2 r m x xs)
  then show ?case using putMask_ordinals[of r m xs] by auto
qed simp

lemma putMask_sub: "set (putMask r m xs) \<subseteq> insert m (set xs)"
  by (induction r m xs rule: putMask.induct) auto

definition nulled :: "decided_mask list \<Rightarrow> int \<Rightarrow> bool" where
  "nulled ms i \<longleftrightarrow> (\<exists>m\<in>set ms. dm_ordinal m = i \<and> dm_kind m = ''NULL'')"

lemma nulled_Cons: "nulled (x # xs) i \<longleftrightarrow> dm_ordinal x = i \<and> dm_kind x = ''NULL'' \<or> nulled xs i"
  by (auto simp: nulled_def)

lemma putMask_nulled: "(r \<Longrightarrow> dm_kind m = ''NULL'') \<Longrightarrow> nulled xs i \<Longrightarrow> nulled (putMask r m xs) i"
  by (induction r m xs rule: putMask.induct) (auto simp: nulled_Cons)

lemma putMask_redacts: "r \<Longrightarrow> dm_kind m = ''NULL'' \<Longrightarrow> nulled (putMask r m xs) (dm_ordinal m)"
  by (induction r m xs rule: putMask.induct) (auto simp: nulled_Cons nulled_def)

lemma maskCandidate_simps [simp]:
  "dm_ordinal (maskCandidate di kinds key r i) = i"
  "dm_column (maskCandidate di kinds key r i) = sf_outputColumns (di_facts di) ! nat i"
  "r \<Longrightarrow> dm_kind (maskCandidate di kinds key r i) = ''NULL''"
  by (simp_all add: maskCandidate_def Let_def)

definition redacts :: "plane \<Rightarrow> decide_input \<Rightarrow> object_ref \<times> read_grant \<Rightarrow> bool" where
  "redacts pl di cg \<longleftrightarrow> systemRedacted pl di (object_key (fst cg)) \<or> rg_disposition (snd cg) = REDACT_OUTPUT_NULL"

definition namedAs :: "decide_input \<Rightarrow> decided_mask \<Rightarrow> bool" where
  "namedAs di m \<longleftrightarrow> dm_column m = sf_outputColumns (di_facts di) ! nat (dm_ordinal m)"

text \<open>One induction over the ordinals of a grant gives all that a grant does to the masks.\<close>

lemma fold_putMask:
  fixes di kinds key r
  defines "step \<equiv> \<lambda>i ms. putMask r (maskCandidate di kinds key r i) ms"
  shows "dm_ordinal ` set (fold step is ms) = set is \<union> dm_ordinal ` set ms"
    and "distinct (map dm_ordinal ms) \<Longrightarrow> distinct (map dm_ordinal (fold step is ms))"
    and "list_all (namedAs di) ms \<Longrightarrow> list_all (namedAs di) (fold step is ms)"
    and "nulled ms i \<or> r \<and> i \<in> set is \<Longrightarrow> nulled (fold step is ms) i"
proof (induction "is" arbitrary: ms)
  case (Cons j js)
  {
    case 1
    show ?case using Cons(1)[of "step j ms"] by (simp add: step_def putMask_ordinals)
  next
    case 2
    then show ?case using Cons(2)[of "step j ms"] by (simp add: step_def putMask_distinct)
  next
    case 3
    have "list_all (namedAs di) (step j ms)"
      using 3 putMask_sub[of r "maskCandidate di kinds key r j" ms] by (auto simp: step_def list_all_iff namedAs_def)
    then show ?case using Cons(3)[of "step j ms"] by simp
  next
    case 4
    have "nulled (step j ms) i \<or> r \<and> i \<in> set js"
      using 4 putMask_nulled[of r "maskCandidate di kinds key r j" ms i] putMask_redacts[of r "maskCandidate di kinds key r j" ms]
      by (auto simp: step_def)
    then show ?case using Cons(4)[of "step j ms"] by simp
  }
qed auto

lemma grantMasks_fold:
  "dm_ordinal ` set (grantMasks pl di kinds cg ms) = set (rg_ordinals (snd cg)) \<union> dm_ordinal ` set ms"
  "distinct (map dm_ordinal ms) \<Longrightarrow> distinct (map dm_ordinal (grantMasks pl di kinds cg ms))"
  "list_all (namedAs di) ms \<Longrightarrow> list_all (namedAs di) (grantMasks pl di kinds cg ms)"
  "nulled ms i \<or> redacts pl di cg \<and> i \<in> set (rg_ordinals (snd cg)) \<Longrightarrow> nulled (grantMasks pl di kinds cg ms) i"
  unfolding grantMasks_def Let_def redacts_def by (simp_all add: fold_putMask)

lemma fold_grantMasks:
  "dm_ordinal ` set (fold (grantMasks pl di kinds) cgs ms) = (\<Union>cg\<in>set cgs. set (rg_ordinals (snd cg))) \<union> dm_ordinal ` set ms"
  "distinct (map dm_ordinal ms) \<Longrightarrow> distinct (map dm_ordinal (fold (grantMasks pl di kinds) cgs ms))"
  "list_all (namedAs di) ms \<Longrightarrow> list_all (namedAs di) (fold (grantMasks pl di kinds) cgs ms)"
  "nulled ms i \<or> (\<exists>cg\<in>set cgs. redacts pl di cg \<and> i \<in> set (rg_ordinals (snd cg))) \<Longrightarrow> nulled (fold (grantMasks pl di kinds) cgs ms) i"
proof (induction cgs arbitrary: ms)
  case (Cons c cs)
  {
    case 1
    show ?case using Cons(1)[of "grantMasks pl di kinds c ms"] by (auto simp: grantMasks_fold(1))
  next
    case 2
    then show ?case using Cons(2)[of "grantMasks pl di kinds c ms"] by (simp add: grantMasks_fold(2))
  next
    case 3
    then show ?case using Cons(3)[of "grantMasks pl di kinds c ms"] by (simp add: grantMasks_fold(3))
  next
    case 4
    then show ?case using Cons(4)[of "grantMasks pl di kinds c ms"] grantMasks_fold(4)[of ms i pl di c kinds] by auto
  }
qed auto

definition maskable :: "read_grant \<Rightarrow> bool" where
  "maskable g \<longleftrightarrow> rg_disposition g \<in> {MASK_OUTPUT, REDACT_OUTPUT_NULL}"

lemma maskable_iff: "maskable g \<longleftrightarrow> rg_disposition g \<notin> {DENY_STATEMENT, DISPOSITION_UNSPECIFIED, DISPOSITION_UNRECOGNIZED}"
  by (cases "rg_disposition g") (auto simp: maskable_def)

definition maskedGrants :: "plane \<Rightarrow> decide_input \<Rightarrow> (object_ref \<times> read_grant) list \<Rightarrow> (object_ref \<times> read_grant) list" where
  "maskedGrants pl di cgs = filter (\<lambda>cg. verdictOn pl di (actorOf pl di) (object_key (fst cg)) = MASKED) cgs"

lemma columnLoop_Inr:
  "columnLoop pl di (actorOf pl di) kinds cgs st = Inr (ms', md') \<Longrightarrow>
     ms' = fold (grantMasks pl di kinds) (maskedGrants pl di cgs) (fst st) \<and>
     md' = (snd st \<or> list_ex (\<lambda>cg. rg_ordinals (snd cg) \<noteq> [] \<and> systemRedacted pl di (object_key (fst cg))) (maskedGrants pl di cgs)) \<and>
     list_all (\<lambda>cg. verdictOn pl di (actorOf pl di) (object_key (fst cg)) \<noteq> DENIED) cgs \<and>
     list_all (\<lambda>cg. maskable (snd cg)) (maskedGrants pl di cgs)"
proof (induction cgs arbitrary: st)
  case (Cons cg cgs)
  obtain ms md where st: "st = (ms, md)" by (cases st)
  show ?case
  proof (cases "verdictOn pl di (actorOf pl di) (object_key (fst cg))")
    case UNMASKED
    with Cons.prems Cons.IH[of "(ms, md)"] show ?thesis by (simp add: st Let_def maskedGrants_def)
  next
    case MASKED
    with Cons.prems have m: "maskable (snd cg)"
      and l: "columnLoop pl di (actorOf pl di) kinds cgs (grantMasks pl di kinds cg ms,
        md \<or> rg_ordinals (snd cg) \<noteq> [] \<and> systemRedacted pl di (object_key (fst cg))) = Inr (ms', md')"
      by (auto simp: st Let_def maskable_iff split: if_splits)
    from Cons.IH[OF l] MASKED m show ?thesis by (simp add: st maskedGrants_def)
  next
    case DENIED
    with Cons.prems show ?thesis by (simp add: st Let_def)
  qed
qed (auto simp: maskedGrants_def)

lemma finishStage_Returned:
  assumes "finishStage pl di ac ms md fn ut = Returned d" "dx_action d \<noteq> ENF_DENY"
  shows "dx_masks d = ms" "dx_action d = (if ms = [] then ENF_ALLOW else ENF_MASK)" "\<not> dx_passthrough d"
    "dx_outputColumns d = sf_outputColumns (di_facts di)"
    "dx_unmaskablePermitted d = (ms \<noteq> [] \<and> \<not> md \<and> asksAction pl di ac (cedarId EXCEPTION_UNMASKABLE) = Allow)"
    "\<exists>resources. (dx_maxRows d, dx_maxBytes d) = resultCaps [ac_dsCaps ac, resolveResultCaps (pl_engine pl) (di_principal di)
      (ac_parents ac) (ds_name (di_ds di)) resources (ac_context ac) (ds_tags (di_ds di))]"
  using assms
  by (auto simp: finishStage_def Let_def withAnalyzerRewrite_def withCaps_def baseContext_def split: sum.splits option.splits)

subsection \<open>What Cedar granted\<close>

text \<open>
  Cedar answered allow to a read of the entity, clear or masked, in the request the batch is decided by.
\<close>

definition cedarReads :: "plane \<Rightarrow> decide_input \<Rightarrow> actor \<Rightarrow> build \<Rightarrow> entity \<Rightarrow> bool" where
  "cedarReads pl di ac b e \<longleftrightarrow>
    (\<exists>a\<in>{''result.read.unmasked'', ''result.read.masked''}. \<exists>errors reasons.
       isAuthorized (pl_engine pl) (readRequest (pl_engine pl) (di_principal di) (ac_parents ac) (ds_name (di_ds di)) (ds_tags (di_ds di)) b)
         (actionEuid a) e (toCedarMap (pl_engine pl) True (ac_context ac)) = Success True errors reasons)"

lemma readAllowed_cedarReads:
  "readAllowed (pl_engine pl) (di_principal di) (ac_parents ac) (ds_name (di_ds di)) (ds_tags (di_ds di)) (ac_context ac) b e a \<Longrightarrow>
   a \<in> {''result.read.unmasked'', ''result.read.masked''} \<Longrightarrow> cedarReads pl di ac b e"
  unfolding readAllowed_def allows_def cedarReads_def by (auto split: cedar_response.splits)

lemma namedReads:
  assumes "authorizeReadResources (pl_engine pl) (di_principal di) (ac_parents ac) (ds_name (di_ds di)) (ds_tags (di_ds di)) (ac_context ac)
      keys denied b (\<lambda>u m. if u \<or> m then yes else denied) k = Some yes" "yes \<noteq> denied"
  shows "\<exists>e. bd_focal b k = Some e \<and> cedarReads pl di ac b e"
proof -
  from assms(1) have "k \<in> set keys" by (auto simp: authorizeReadResources_def Let_def split: if_splits)
  from assms(1)[unfolded authorizeReadResources_key[OF this]] assms(2) obtain e a where "bd_focal b k = Some e"
    "readAllowed (pl_engine pl) (di_principal di) (ac_parents ac) (ds_name (di_ds di)) (ds_tags (di_ds di)) (ac_context ac) b e a"
    "a \<in> {''result.read.unmasked'', ''result.read.masked''}"
    by (auto simp: readAllowed_def split: option.splits if_splits)
  then show ?thesis using readAllowed_cedarReads by blast
qed

definition columnReadable :: "plane \<Rightarrow> decide_input \<Rightarrow> actor \<Rightarrow> string \<Rightarrow> bool" where
  "columnReadable pl di ac key \<longleftrightarrow>
    (\<exists>row. map_of (di_rows di) key = Some row \<and>
      (cc_isTemp row \<or>
       (let st = columnTags (pl_classification pl) (di_ds di) (columnRefs di)
        in cedarReads pl di ac (columnBuild (ds_name (di_ds di)) st (columnRefs di))
             (columnEntity (ds_name (di_ds di)) st (columnRefOf key row)))))"

definition tableReadable :: "plane \<Rightarrow> decide_input \<Rightarrow> actor \<Rightarrow> object_ref \<Rightarrow> bool" where
  "tableReadable pl di ac t \<longleftrightarrow>
    (\<exists>b e t'. object_key t' = object_key t \<and> en_uid e = tableEuid (ds_name (di_ds di)) (ob_catalog t') (ob_schema t') (ob_table t') \<and>
       cedarReads pl di ac b e)"

definition namedReadable :: "(string \<Rightarrow> string \<Rightarrow> euid) \<Rightarrow> plane \<Rightarrow> decide_input \<Rightarrow> actor \<Rightarrow> string \<Rightarrow> bool" where
  "namedReadable euidOf pl di ac n \<longleftrightarrow> (\<exists>b e. en_uid e = euidOf (ds_name (di_ds di)) n \<and> cedarReads pl di ac b e)"

lemma verdictOn_readable:
  assumes "verdictOn pl di ac key \<noteq> DENIED"
  shows "columnReadable pl di ac key"
proof -
  let ?st = "columnTags (pl_classification pl) (di_ds di) (columnRefs di)"
  from assms obtain row where row: "map_of (di_rows di) key = Some row"
    and v: "cc_isTemp row \<or> (\<exists>v. columnVerdicts pl di ac key = Some v \<and> v \<noteq> DENIED)"
    by (auto simp: verdictOn_def Let_def split: option.splits if_splits)
  show ?thesis
  proof (cases "cc_isTemp row")
    case False
    with v obtain v where v: "authorizeColumns (pl_engine pl) (di_principal di) (ac_parents ac) (ds_name (di_ds di)) (columnRefs di)
        (ac_context ac) ?st (ds_tags (di_ds di)) key = Some v" "v \<noteq> DENIED"
      by (auto simp: columnVerdicts_def split: if_splits)
    from authorizeColumns_verdict[OF v] obtain c where c: "c \<in> set (columnRefs di)" "cl_key c = key"
      and r: "readAllowed (pl_engine pl) (di_principal di) (ac_parents ac) (ds_name (di_ds di)) (ds_tags (di_ds di)) (ac_context ac)
        (columnBuild (ds_name (di_ds di)) ?st (columnRefs di)) (columnEntity (ds_name (di_ds di)) ?st c)
        (if v = UNMASKED then ''result.read.unmasked'' else ''result.read.masked'')" by blast
    from c row have "c = columnRefOf key row" by (auto simp: columnRefs_def set_map_filter columnRefOf_def)
    with r row readAllowed_cedarReads[OF r] show ?thesis by (auto simp: columnReadable_def Let_def)
  qed (use row in \<open>auto simp: columnReadable_def\<close>)
qed

lemma distinctByKey_ran: "set (distinctByKey ts) = ran (map_of (map (\<lambda>t. (tr_key t, t)) ts))"
  by (simp add: distinctByKey_def ran_map_of)

lemma distinctByKey_sub: "r \<in> set (distinctByKey ts) \<Longrightarrow> r \<in> set ts"
  unfolding distinctByKey_ran ran_def by (auto dest!: map_of_SomeD)

lemma distinctByKey_keys:
  assumes "t \<in> set ts"
  shows "\<exists>r\<in>set (distinctByKey ts). tr_key r = tr_key t"
proof -
  from assms have "tr_key t \<in> fst ` set (map (\<lambda>t. (tr_key t, t)) ts)" by force
  then obtain r where r: "map_of (map (\<lambda>t. (tr_key t, t)) ts) (tr_key t) = Some r"
    by (metis (no_types, lifting) domD dom_map_of_conv_image_fst)
  moreover from map_of_SomeD[OF r] have "tr_key r = tr_key t" by auto
  ultimately show ?thesis unfolding distinctByKey_ran by (blast intro: ranI)
qed

lemma tableGate_readable:
  assumes "tableGate pl di ac = Inr ()" "t \<in> set (tableGrants di)"
  shows "tableReadable pl di ac t"
proof -
  let ?refs = "distinctByKey (map toTableRef (tableGrants di))"
  have key: "tr_key (toTableRef x) = object_key x" for x by (simp add: toTableRef_def)
  have refs: "set ?refs \<subseteq> toTableRef ` set (tableGrants di)" using distinctByKey_sub by fastforce
  from distinctByKey_keys[of "toTableRef t" "map toTableRef (tableGrants di)"] assms(2) key
  obtain r where r: "r \<in> set ?refs" "tr_key r = object_key t" by auto
  from assms(1) have "\<forall>r\<in>set ?refs. authorizeTables (pl_engine pl) (di_principal di) (ac_parents ac) (ds_name (di_ds di)) ?refs (ac_context ac)
      (tableSystemTags pl di) (ds_tags (di_ds di)) (tr_key r) = Some READ"
    unfolding tableGate_def Let_def by (simp add: find_None_all split: option.splits)
  with r have "authorizeTables (pl_engine pl) (di_principal di) (ac_parents ac) (ds_name (di_ds di)) ?refs (ac_context ac)
      (tableSystemTags pl di) (ds_tags (di_ds di)) (object_key t) = Some READ"
    by metis
  from namedReads[OF this[unfolded authorizeTables_def]] obtain e
    where e: "bd_focal (tableBuild (ds_name (di_ds di)) (tableSystemTags pl di) ?refs) (object_key t) = Some e"
      "cedarReads pl di ac (tableBuild (ds_name (di_ds di)) (tableSystemTags pl di) ?refs) e" by auto
  from tableBuild_focal[OF e(1)] refs obtain t' where "t' \<in> set (tableGrants di)" "tr_key (toTableRef t') = object_key t"
    "en_uid e = tableEuid (ds_name (di_ds di)) (tr_catalog (toTableRef t')) (tr_schema (toTableRef t')) (tr_table (toTableRef t'))" by blast
  then have "object_key t' = object_key t \<and> en_uid e = tableEuid (ds_name (di_ds di)) (ob_catalog t') (ob_schema t') (ob_table t')"
    by (simp add: toTableRef_def)
  with e(2) show ?thesis unfolding tableReadable_def by blast
qed

lemma functionsAllowed_readable:
  assumes "functionsAllowed pl di ac names tags = Inr u" "n \<in> set names"
  shows "namedReadable functionEuid pl di ac n"
proof -
  from assms have "authorizeFunctions (pl_engine pl) (di_principal di) (ac_parents ac) (ds_name (di_ds di)) names (ac_context ac)
      (map_of tags) (ds_tags (di_ds di)) n = Some FUNCTION_ALLOWED"
    by (auto simp: functionsAllowed_def find_None_all split: option.splits)
  from namedReads[OF this[unfolded authorizeFunctions_def]] namedBuild_focal show ?thesis
    by (fastforce simp: namedReadable_def)
qed

text \<open>A function must be granted unless it is a built-in one without a tag.\<close>

definition mustGrantFunction :: "plane \<Rightarrow> decide_input \<Rightarrow> string \<Rightarrow> bool" where
  "mustGrantFunction pl di n \<longleftrightarrow>
    (GFunction n False \<in> rg_resource ` set (sf_resultReads (di_facts di))) \<or>
    (GFunction n True \<in> rg_resource ` set (sf_resultReads (di_facts di)) \<or> n \<in> set (sf_functions (di_facts di))) \<and>
      functionTag (pl_classification pl) (di_ds di) n \<noteq> None"

lemma grantFunction_Some: "grantFunction g = Some (n, b) \<longleftrightarrow> rg_resource g = GFunction n b"
  by (cases "rg_resource g") (auto simp: grantFunction_def)

lemma map_of_functionTags:
  "map_of (functionTags pl di names) n = (if n \<in> set names then functionTag (pl_classification pl) (di_ds di) n else None)"
proof -
  have "map_of (List.map_filter (\<lambda>n. map_option (Pair n) (f n)) xs) n = (if n \<in> set xs then f n else None)"
    for f :: "string \<Rightarrow> string option" and xs
    by (induction xs) (auto simp: List.map_filter_simps split: option.splits)
  then show ?thesis by (simp add: functionTags_def)
qed

lemma functionGate_readable:
  assumes "functionGate pl di ac = Inr tags" "mustGrantFunction pl di n"
  shows "namedReadable functionEuid pl di ac n"
proof -
  let ?f = "di_facts di" and ?gs = "List.map_filter grantFunction (sf_resultReads (di_facts di))"
  let ?tags = "functionTags pl di (map fst ?gs @ sf_functions ?f)"
  let ?gated = "distinctList (map fst (filter (\<lambda>(n, builtin). \<not> (builtin \<and> map_of ?tags n = None)) ?gs) @
    filter (\<lambda>n. map_of ?tags n \<noteq> None) (sf_functions ?f))"
  have gs: "(m, b) \<in> set ?gs \<longleftrightarrow> GFunction m b \<in> rg_resource ` set (sf_resultReads ?f)" for m b
    unfolding set_map_filter grantFunction_Some image_iff by metis
  have "n \<in> set ?gated"
    using assms(2) gs[of n True] gs[of n False] unfolding mustGrantFunction_def set_distinctList map_of_functionTags
    by (force simp: image_iff)
  then have "?gated \<noteq> []" by (metis empty_iff list.set(1))
  from assms(1)[unfolded functionGate_def Let_def if_not_P[OF this] rbind_eq_Inr_iff]
  obtain u where "functionsAllowed pl di ac ?gated ?tags = Inr u" by blast
  from functionsAllowed_readable[OF this \<open>n \<in> set ?gated\<close>] show ?thesis .
qed

lemma grantUtility_Some: "grantUtility g = Some c \<longleftrightarrow> rg_resource g = GUtility c"
  by (cases "rg_resource g") (auto simp: grantUtility_def)

lemma utilityGate_readable:
  assumes "utilityGate pl di ac = Inr tags" "GUtility c \<in> rg_resource ` set (sf_resultReads (di_facts di))"
  shows "namedReadable utilityEuid pl di ac c"
proof -
  let ?cs = "List.map_filter grantUtility (sf_resultReads (di_facts di))"
  have c: "c \<in> set ?cs" using assms(2) unfolding set_map_filter grantUtility_Some by force
  then have "?cs \<noteq> []" by auto
  with assms(1) have all: "\<forall>c\<in>set ?cs. map_of tags c \<noteq> None"
    and use: "\<forall>c\<in>set (map fst tags). authorizeUtilities (pl_engine pl) (di_principal di) (ac_parents ac) (ds_name (di_ds di)) (map fst tags)
      (ac_context ac) (map_of tags) (ds_tags (di_ds di)) c = Some USE"
    by (auto simp: utilityGate_def Let_def find_None_all split: list.splits option.splits if_splits)
  from all c have "c \<in> set (map fst tags)" by (force simp: map_of_eq_None_iff)
  with use have "authorizeUtilities (pl_engine pl) (di_principal di) (ac_parents ac) (ds_name (di_ds di)) (map fst tags)
      (ac_context ac) (map_of tags) (ds_tags (di_ds di)) c = Some USE" by blast
  from namedReads[OF this[unfolded authorizeUtilities_def]] namedBuild_focal show ?thesis
    by (fastforce simp: namedReadable_def)
qed

subsection \<open>Caps\<close>

lemma collectCaps_None:
  "collectCaps ask caps es = None \<Longrightarrow> \<exists>e\<in>set es. \<exists>reasons. ask e = Success False [] reasons \<and> reasons \<noteq> []"
  by (induction ask caps es rule: collectCaps.induct) (auto split: cedar_response.splits if_splits)

lemma minOf_le: "x \<in> set xs \<Longrightarrow> \<exists>n. minOf xs = Some n \<and> n \<le> x"
  by (auto simp: minOf_def)

lemma resolveResultCaps_collect:
  "\<exists>ask es. resolveResultCaps en who ps ds resources ctx dsTags = foldCaps (collectCaps ask (capsOf (ce_cache en)) es) \<and>
     (\<forall>e. \<exists>request cm. ask e = isAuthorized en request (actionEuid ''result.cap'') e cm)"
  unfolding resolveResultCaps_def Let_def cedarId.simps by (rule exI, rule exI, rule conjI, rule refl, blast)

lemma resolveResultCaps_unbounded:
  assumes "rv_unbounded (resolveResultCaps en who ps ds resources ctx dsTags)"
  shows "\<exists>request e cm reasons. isAuthorized en request (actionEuid ''result.cap'') e cm = Success False [] reasons \<and> reasons \<noteq> []"
proof -
  from resolveResultCaps_collect[of en who ps ds resources ctx dsTags] obtain ask es
    where r: "resolveResultCaps en who ps ds resources ctx dsTags = foldCaps (collectCaps ask (capsOf (ce_cache en)) es)"
      and ask: "\<And>e. \<exists>request cm. ask e = isAuthorized en request (actionEuid ''result.cap'') e cm" by blast
  from assms have "collectCaps ask (capsOf (ce_cache en)) es = None" by (auto simp: r foldCaps_def split: option.splits)
  from collectCaps_None[OF this] ask show ?thesis by metis
qed

text \<open>The question on the datasource alone.\<close>

definition datasourceCapAnswer :: "plane \<Rightarrow> decide_input \<Rightarrow> actor \<Rightarrow> cedar_response" where
  "datasourceCapAnswer pl di ac =
    (let e = datasourceEntity (ds_name (di_ds di)) (ds_tags (di_ds di))
     in isAuthorized (pl_engine pl) (marshal (pl_engine pl) (User (di_principal di) (ac_parents ac)) (e # tagEntities (ds_tags (di_ds di))))
          (actionEuid ''result.cap'') e (toCedarMap (pl_engine pl) True (ac_context ac)))"

lemma actorOf_dsCaps:
  "ac_dsCaps (actorOf pl di) = resolveResultCaps (pl_engine pl) (di_principal di) (ac_parents (actorOf pl di)) (ds_name (di_ds di)) []
     (ac_context (actorOf pl di)) (ds_tags (di_ds di))"
  by (simp add: actorOf_def Let_def)

lemma dsCaps_bind:
  assumes "datasourceCapAnswer pl di (actorOf pl di) = Success True [] reasons" "c \<in> set (capsOf (ce_cache (pl_engine pl)) reasons)"
    and "\<not> rv_unbounded (ac_dsCaps (actorOf pl di))"
  shows "rc_rows c = Some k \<Longrightarrow> \<exists>n. rv_rows (ac_dsCaps (actorOf pl di)) = Some n \<and> n \<le> k"
    and "rc_bytes c = Some k \<Longrightarrow> \<exists>n. rv_bytes (ac_dsCaps (actorOf pl di)) = Some n \<and> n \<le> k"
proof -
  let ?caps = "capsOf (ce_cache (pl_engine pl))"
  let ?e = "datasourceEntity (ds_name (di_ds di)) (ds_tags (di_ds di))"
  obtain ask where ask: "ac_dsCaps (actorOf pl di) = foldCaps (collectCaps ask ?caps [?e])" "ask ?e = datasourceCapAnswer pl di (actorOf pl di)"
    unfolding actorOf_dsCaps resolveResultCaps_def datasourceCapAnswer_def noAsks_def Let_def by (simp add: List.map_filter_simps del: collectCaps.simps)
  have cs: "collectCaps ask ?caps [?e] = Some (?caps reasons)" by (simp add: ask(2) assms(1))
  show "rc_rows c = Some k \<Longrightarrow> \<exists>n. rv_rows (ac_dsCaps (actorOf pl di)) = Some n \<and> n \<le> k"
    unfolding ask(1) cs foldCaps_def using assms(2) by (auto simp: set_map_filter intro!: minOf_le)
  show "rc_bytes c = Some k \<Longrightarrow> \<exists>n. rv_bytes (ac_dsCaps (actorOf pl di)) = Some n \<and> n \<le> k"
    unfolding ask(1) cs foldCaps_def using assms(2) by (auto simp: set_map_filter intro!: minOf_le)
qed

lemma decided_caps:
  assumes "decideFacts pl di = Returned d" "dx_action d \<noteq> ENF_DENY"
  obtains rs where "(dx_maxRows d, dx_maxBytes d) = resultCaps (ac_dsCaps (actorOf pl di) # rs)"
    "\<forall>r\<in>set rs. \<exists>resources. r = resolveResultCaps (pl_engine pl) (di_principal di) (ac_parents (actorOf pl di)) (ds_name (di_ds di)) resources
       (ac_context (actorOf pl di)) (ds_tags (di_ds di))"
  using assms
proof (cases rule: decideFacts_cases)
  case (3 ut)
  from analysed_cases[OF 3(4) assms(2)] obtain fn kinds ms md
    where "finishStage pl di (actorOf pl di) ms md fn ut = Returned d" by metis
  from finishStage_Returned(6)[OF this assms(2)] show ?thesis using that by (metis empty_iff list.set(1) set_ConsD)
qed (use that[of "[]"] in \<open>auto simp: relayed_def\<close>)

lemma resultCaps_le:
  assumes "(a, b) = resultCaps rs" "r \<in> set rs"
  shows "rv_rows r = Some n \<Longrightarrow> a = Some m \<Longrightarrow> m \<le> n" "rv_bytes r = Some n \<Longrightarrow> b = Some m \<Longrightarrow> m \<le> n"
proof -
  show "rv_rows r = Some n \<Longrightarrow> a = Some m \<Longrightarrow> m \<le> n"
    using assms minOf_le[of n "List.map_filter rv_rows rs"] by (force simp: resultCaps_def set_map_filter split: if_splits option.splits)
  show "rv_bytes r = Some n \<Longrightarrow> b = Some m \<Longrightarrow> m \<le> n"
    using assms minOf_le[of n "List.map_filter rv_bytes rs"] by (force simp: resultCaps_def set_map_filter split: if_splits option.splits)
qed

lemma resultCaps_None: "(a, b) = resultCaps rs \<Longrightarrow> a = None \<or> b = None \<Longrightarrow> \<exists>r\<in>set rs. rv_unbounded r"
  by (auto simp: resultCaps_def list_ex_iff split: if_splits)

subsection \<open>A sample decision\<close>

text \<open>Everyone may connect, select and read; the column \<open>ssn\<close> only masked; results are capped at 10 rows.\<close>

definition sampleEval :: "policy list \<Rightarrow> euid \<Rightarrow> euid \<Rightarrow> euid \<Rightarrow> cedar_context \<Rightarrow> entity list \<Rightarrow> cedar_response" where
  "sampleEval ps p a r ctx es =
     Success (snd a \<in> {''datasource.connect'', ''stmt.kind.select'', ''result.read.masked'', ''result.cap''} \<or>
       snd a = ''result.read.unmasked'' \<and> r \<noteq> (''Column'', ''crm/app/public/users/ssn'')) []
       (if snd a = ''result.cap'' then [''policy-7''] else [])"

definition sampleEngine :: cedar_engine where
  "sampleEngine = \<lparr>ce_cache = \<lparr>ca_version = 1, ca_policies = Some [\<lparr>po_id = ''policy-7'', po_source = ''permit''\<rparr>], ca_vocab = [], ca_caps = [(''policy-7'', noCap\<lparr>rc_rows := Some 10\<rparr>)]\<rparr>,
     ce_userAttributes = [], ce_directParents = [], ce_eval = sampleEval, ce_partial = (\<lambda>ps p a r ctx es. None),
     ce_ipParses = (\<lambda>s. True), ce_longOrNull = (\<lambda>s. None), ce_booleanOrNull = (\<lambda>s. None)\<rparr>"

definition samplePlane :: plane where
  "samplePlane = \<lparr>pl_engine = sampleEngine, pl_isDeactivated = (\<lambda>p. False), pl_liveRoleNames = id,
     pl_resolveParents = (\<lambda>p. \<lparr>up_roles = [''analyst''], up_groups = [], up_attributes = []\<rparr>),
     pl_maskFns = Some [(''last4'', ''LAST_N'')], pl_relayedVolume = None, pl_classification = None\<rparr>"

definition sampleDatasource :: datasource where
  "sampleDatasource = \<lparr>ds_name = ''crm'', ds_tags = [''prod''], ds_engine = bareEngine, ds_engineVersion = None\<rparr>"

definition sampleRow :: "string \<Rightarrow> column_class option \<Rightarrow> string \<times> catalog_column" where
  "sampleRow c k = (''app.public.users.'' @ c,
     \<lparr>cc_catalog = ''app'', cc_schema = ''public'', cc_table = ''users'', cc_column = c, cc_classification = k, cc_isTemp = False\<rparr>)"

definition sampleColumn :: "string \<Rightarrow> object_ref" where
  "sampleColumn c = \<lparr>ob_catalog = ''app'', ob_schema = ''public'', ob_table = ''users'', ob_column = c\<rparr>"

definition sampleFacts :: statement_facts where
  "sampleFacts = \<lparr>sf_resolved = True, sf_failureClass = FAILURE_UNSPECIFIED, sf_failedStage = None, sf_detail = [],
     sf_outputColumns = [''id'', ''ssn''], sf_rewrittenSql = None, sf_submission = None, sf_catalogChanging = False,
     sf_sources = [], sf_functions = [], sf_namespaceCandidates = [], sf_statementExec = Some (KIND ''SELECT''),
     sf_resultReads = [\<lparr>rg_resource = GColumn (sampleColumn ''id''), rg_disposition = MASK_OUTPUT, rg_ordinals = [0]\<rparr>,
       \<lparr>rg_resource = GColumn (sampleColumn ''ssn''), rg_disposition = MASK_OUTPUT, rg_ordinals = [1]\<rparr>],
     sf_predicateLiterals = [], sf_leakColumns = [], sf_returnedColumns = [], sf_preparedNeed = None\<rparr>"

definition sampleDecide :: decide_input where
  "sampleDecide = \<lparr>di_principal = ''ana'', di_ds = sampleDatasource, di_channel = WIRE,
     di_rows = [sampleRow ''id'' None, sampleRow ''ssn'' (Some \<lparr>cx_tags = [''pii''], cx_maskFnName = Some ''last4''\<rparr>)],
     di_facts = sampleFacts, di_providedRoles = None,
     di_context = \<lparr>ax_networkZones = [], ax_channel = None, ax_requesterIp = None, ax_tags = [], ax_stmtKind = None,
       ax_masked = None, ax_nativeOperation = None\<rparr>, di_tempTables = []\<rparr>"

definition sampleVerdict :: "outcome \<Rightarrow> bool" where
  "sampleVerdict out = (case out of Thrown e \<Rightarrow> False
     | Returned d \<Rightarrow> dx_action d = ENF_MASK \<and> \<not> dx_passthrough d \<and> dx_maxRows d = Some 10 \<and>
        dx_masks d = [\<lparr>dm_column = ''ssn'', dm_maskFn = ''last4'', dm_kind = ''LAST_N'', dm_ordinal = 1\<rparr>])"

lemma sample_decided: "sampleVerdict (decideFacts samplePlane sampleDecide)"
  by code_simp

lemma sample_obtain:
  obtains d where "decideFacts samplePlane sampleDecide = Returned d" "dx_action d = ENF_MASK" "\<not> dx_passthrough d" "dx_maxRows d = Some 10"
    "dx_masks d = [\<lparr>dm_column = ''ssn'', dm_maskFn = ''last4'', dm_kind = ''LAST_N'', dm_ordinal = 1\<rparr>]"
  using sample_decided by (cases "decideFacts samplePlane sampleDecide") (auto simp: sampleVerdict_def)

subsection \<open>Properties\<close>

lemma commonGates_D:
  assumes "commonGates pl di ut"
  shows "\<not> pl_isDeactivated pl (di_principal di)" "list_all (ordinalsInRange (di_facts di)) (sf_resultReads (di_facts di))"
    "asksAction pl di (actorOf pl di) ''datasource.connect'' = Allow"
    "\<exists>a. statementKindActionId (ac_kind (actorOf pl di)) = Some a \<and> asksAction pl di (actorOf pl di) a = Allow"
    "GUtility c \<in> rg_resource ` set (sf_resultReads (di_facts di)) \<Longrightarrow> namedReadable utilityEuid pl di (actorOf pl di) c"
proof -
  from assms have g: "admit pl di = Inr ()" "contractChecks di (actorOf pl di) = Inr ()" "connectGate pl di (actorOf pl di) = Inr ()"
    "utilityGate pl di (actorOf pl di) = Inr ut" "kindGate pl di (actorOf pl di) = Inr ()"
    by (simp_all add: commonGates_def Let_def)
  show "\<not> pl_isDeactivated pl (di_principal di)" using g(1) by (simp add: admit_def Let_def rbind_eq_Inr_iff)
  show "list_all (ordinalsInRange (di_facts di)) (sf_resultReads (di_facts di))" using g(2) by (simp add: contractChecks_def Let_def rbind_eq_Inr_iff)
  show "asksAction pl di (actorOf pl di) ''datasource.connect'' = Allow" using g(3) by (simp add: connectGate_def)
  show "\<exists>a. statementKindActionId (ac_kind (actorOf pl di)) = Some a \<and> asksAction pl di (actorOf pl di) a = Allow"
    using g(5) by (auto simp: kindGate_def split: option.splits)
  show "GUtility c \<in> rg_resource ` set (sf_resultReads (di_facts di)) \<Longrightarrow> namedReadable utilityEuid pl di (actorOf pl di) c"
    by (rule utilityGate_readable[OF g(4)])
qed

text \<open>What reading the data of the facts takes: a grant by Cedar for each resource.\<close>

definition dataGranted :: "plane \<Rightarrow> decide_input \<Rightarrow> bool" where
  "dataGranted pl di \<longleftrightarrow>
    (let ac = actorOf pl di
     in (\<forall>(c, g)\<in>set (columnGrants (di_facts di)). columnReadable pl di ac (object_key c)) \<and>
        (\<forall>t\<in>set (tableGrants di). tableReadable pl di ac t) \<and>
        (\<forall>n. mustGrantFunction pl di n \<longrightarrow> namedReadable functionEuid pl di ac n))"

lemma analysed_granted:
  assumes "settle (analysed pl di ut) = Returned d" "dx_action d \<noteq> ENF_DENY"
  shows "dataGranted pl di"
proof -
  from analysed_cases[OF assms] obtain fn kinds ms md where f: "functionGate pl di (actorOf pl di) = Inr fn"
    and l: "columnLoop pl di (actorOf pl di) kinds (columnGrants (di_facts di)) ([], False) = Inr (ms, md)"
    and t: "tableGate pl di (actorOf pl di) = Inr ()" by metis
  from columnLoop_Inr[OF l] have "\<forall>(c, g)\<in>set (columnGrants (di_facts di)). columnReadable pl di (actorOf pl di) (object_key c)"
    using verdictOn_readable by (fastforce simp: list_all_iff)
  with tableGate_readable[OF t] functionGate_readable[OF f] show ?thesis by (simp add: dataGranted_def Let_def)
qed

text \<open>
  C7: A statement is let through only for an active principal whom Cedar allowed, without an evaluation
  error, to connect and to run its kind of statement, and only with a grant for every utility; and then
  either it touches no data, or Cedar allowed the exception for statements that cannot be analysed, or Cedar
  allowed a read of every column (temporary ones excepted), scanned table and gated function it touches.
\<close>
theorem permitted_only_by_grants:
  assumes "decideFacts pl di = Returned d" "dx_action d \<noteq> ENF_DENY"
  shows "\<not> pl_isDeactivated pl (di_principal di) \<and>
    asksAction pl di (actorOf pl di) ''datasource.connect'' = Allow \<and>
    (\<exists>a. statementKindActionId (ac_kind (actorOf pl di)) = Some a \<and> asksAction pl di (actorOf pl di) a = Allow) \<and>
    (\<forall>c. GUtility c \<in> rg_resource ` set (sf_resultReads (di_facts di)) \<longrightarrow> namedReadable utilityEuid pl di (actorOf pl di) c) \<and>
    (touchesNothing (di_facts di) \<or> asksAction pl di (actorOf pl di) ''exception.unanalyzable'' = Allow \<or> dataGranted pl di)"
  using assms
proof (cases rule: decideFacts_cases)
  case (1 ut)
  with commonGates_D[OF 1(1)] show ?thesis by blast
next
  case (2 ut)
  with commonGates_D[OF 2(1)] show ?thesis by simp
next
  case (3 ut)
  with commonGates_D[OF 3(1)] analysed_granted[OF 3(4) assms(2)] show ?thesis by blast
qed

theorem permitted_only_by_grants_witness:
  "asksAction samplePlane sampleDecide (actorOf samplePlane sampleDecide) ''datasource.connect'' = Allow \<and> dataGranted samplePlane sampleDecide"
proof -
  obtain d where d: "decideFacts samplePlane sampleDecide = Returned d" "dx_action d = ENF_MASK" by (rule sample_obtain)
  have "\<not> touchesNothing (di_facts sampleDecide)"
    by (simp add: sampleDecide_def sampleFacts_def touchesNothing_def grantColumn_def)
  moreover have "asksAction samplePlane sampleDecide (actorOf samplePlane sampleDecide) ''exception.unanalyzable'' \<noteq> Allow"
    by (simp add: asksAction_def authorizeDatasourceActionId_def Let_def toAuthzDecision_Allow isAuthorized_def samplePlane_def sampleEngine_def
        sampleEval_def actionEuid_def)
  ultimately show ?thesis using permitted_only_by_grants[OF d(1)] d(2) by simp
qed

lemma decided_masks:
  assumes "decideFacts pl di = Returned d" "dx_action d \<noteq> ENF_DENY" "\<not> dx_passthrough d"
  shows "distinct (map dm_ordinal (dx_masks d)) \<and> (dx_action d = ENF_MASK \<longleftrightarrow> dx_masks d \<noteq> []) \<and>
    dx_outputColumns d = sf_outputColumns (di_facts di) \<and>
    (\<forall>m\<in>set (dx_masks d). 0 \<le> dm_ordinal m \<and> dm_ordinal m < int (length (dx_outputColumns d)) \<and>
       dm_column m = dx_outputColumns d ! nat (dm_ordinal m)) \<and>
    (\<forall>cg\<in>set (columnGrants (di_facts di)). verdictOn pl di (actorOf pl di) (object_key (fst cg)) = MASKED \<longrightarrow>
       maskable (snd cg) \<and> set (rg_ordinals (snd cg)) \<subseteq> dm_ordinal ` set (dx_masks d) \<and>
       (redacts pl di cg \<longrightarrow> (\<forall>i\<in>set (rg_ordinals (snd cg)). nulled (dx_masks d) i)))"
  using assms(1,2)
proof (cases rule: decideFacts_cases)
  case (3 ut)
  from analysed_cases[OF 3(4) assms(2)] obtain fn kinds ms md
    where l: "columnLoop pl di (actorOf pl di) kinds (columnGrants (di_facts di)) ([], False) = Inr (ms, md)"
      and f: "finishStage pl di (actorOf pl di) ms md fn ut = Returned d" by metis
  note F = finishStage_Returned[OF f assms(2)]
  let ?mg = "maskedGrants pl di (columnGrants (di_facts di))"
  from columnLoop_Inr[OF l] have ms: "ms = fold (grantMasks pl di kinds) ?mg []" and ok: "list_all (\<lambda>cg. maskable (snd cg)) ?mg" by simp_all
  note M = fold_grantMasks[where pl = pl and di = di and kinds = kinds and cgs = ?mg and ms = "[]"]
  have range: "0 \<le> i \<and> i < int (length (sf_outputColumns (di_facts di)))" if "i \<in> dm_ordinal ` set ms" for i
    using that commonGates_D(2)[OF 3(1)] M(1)
    by (auto simp: ms maskedGrants_def columnGrants_def set_map_filter list_all_iff ordinalsInRange_def)
  have names: "\<forall>m\<in>set ms. dm_column m = sf_outputColumns (di_facts di) ! nat (dm_ordinal m)"
    using M(3) by (simp add: ms list_all_iff namedAs_def)
  have covered: "maskable (snd cg) \<and> set (rg_ordinals (snd cg)) \<subseteq> dm_ordinal ` set ms \<and>
      (redacts pl di cg \<longrightarrow> (\<forall>i\<in>set (rg_ordinals (snd cg)). nulled ms i))" if "cg \<in> set ?mg" for cg
    using that ok M(1,4) by (auto simp: ms list_all_iff)
  show ?thesis
    using M(2) range names covered F(2) by (auto simp: F(1,4) ms maskedGrants_def)
qed (use assms(3) in \<open>auto simp: relayed_def\<close>)

text \<open>
  C8: In a decision that analysed the columns the masks have distinct ordinals within the output columns
  and their names, the action is MASK exactly when there is one, and every output a column feeds whose
  verdict is masked has a mask, the NULL mask when the column is redacted or the grant says so.
\<close>
theorem masked_columns_are_masked:
  assumes "decideFacts pl di = Returned d" "dx_action d \<noteq> ENF_DENY" "\<not> dx_passthrough d"
  shows "distinct (map dm_ordinal (dx_masks d)) \<and> (dx_action d = ENF_MASK \<longleftrightarrow> dx_masks d \<noteq> []) \<and>
    dx_outputColumns d = sf_outputColumns (di_facts di) \<and>
    (\<forall>m\<in>set (dx_masks d). 0 \<le> dm_ordinal m \<and> dm_ordinal m < int (length (dx_outputColumns d)) \<and>
       dm_column m = dx_outputColumns d ! nat (dm_ordinal m)) \<and>
    (\<forall>cg\<in>set (columnGrants (di_facts di)). verdictOn pl di (actorOf pl di) (object_key (fst cg)) = MASKED \<longrightarrow>
       maskable (snd cg) \<and> set (rg_ordinals (snd cg)) \<subseteq> dm_ordinal ` set (dx_masks d) \<and>
       (redacts pl di cg \<longrightarrow> (\<forall>i\<in>set (rg_ordinals (snd cg)). nulled (dx_masks d) i)))"
  using assms by (rule decided_masks)

theorem masked_columns_are_masked_witness:
  "\<exists>d. decideFacts samplePlane sampleDecide = Returned d \<and> dx_action d = ENF_MASK \<and> distinct (map dm_ordinal (dx_masks d)) \<and> dx_masks d \<noteq> []"
proof -
  obtain d where d: "decideFacts samplePlane sampleDecide = Returned d" "dx_action d = ENF_MASK" "\<not> dx_passthrough d" by (rule sample_obtain)
  then show ?thesis using masked_columns_are_masked[OF d(1) _ d(3)] by simp
qed

text \<open>
  C24: The channel, the statement kind and the tags a decision is evaluated under do not depend on what the
  caller put in the context: the tags are the rules Cedar allowed over the attested inputs, and those inputs
  carry no tags.
\<close>
theorem context_is_attested:
  "effectiveAuthzContext en (caller\<lparr>ax_channel := c, ax_tags := t, ax_stmtKind := k\<rparr>) ch who ps ds dsTags kind =
     effectiveAuthzContext en caller ch who ps ds dsTags kind \<and>
   (let ctx = effectiveAuthzContext en caller ch who ps ds dsTags kind
    in ax_channel ctx = Some (contextValue ch) \<and> ax_stmtKind ctx = kind \<and>
       set (ax_tags ctx) = {tag \<in> set (ca_vocab (ce_cache en)).
         allows en (marshal en (User who ps) (tagEntities dsTags)) (toCedarMap en False ctx) (datasourceEntity ds dsTags) (''context.tag::'' @ tag)})"
proof -
  let ?raw = "caller\<lparr>ax_channel := Some (contextValue ch), ax_stmtKind := kind\<rparr>"
  have "caller\<lparr>ax_channel := c, ax_tags := t, ax_stmtKind := k\<rparr>\<lparr>ax_channel := Some (contextValue ch), ax_stmtKind := kind\<rparr> = ?raw\<lparr>ax_tags := t\<rparr>"
    by simp
  then have "effectiveAuthzContext en (caller\<lparr>ax_channel := c, ax_tags := t, ax_stmtKind := k\<rparr>) ch who ps ds dsTags kind =
      effectiveAuthzContext en caller ch who ps ds dsTags kind"
    unfolding effectiveAuthzContext_def Let_def by (simp only: resolveContextTags_tags) simp
  moreover have "effectiveAuthzContext en caller ch who ps ds dsTags kind = ?raw\<lparr>ax_tags := resolveContextTags en who ps ds ?raw dsTags\<rparr>"
    by (simp add: effectiveAuthzContext_def Let_def)
  moreover have "set (resolveContextTags en who ps ds ?raw dsTags) = {tag \<in> set (ca_vocab (ce_cache en)).
      allows en (marshal en (User who ps) (tagEntities dsTags)) (toCedarMap en False ?raw) (datasourceEntity ds dsTags) (''context.tag::'' @ tag)}"
    unfolding resolveContextTags_def Let_def by (simp only: set_sort set_filter)
  ultimately show ?thesis by (simp only: Let_def toCedarMap_tags) simp
qed

text \<open>
  C23: A statement that is let through has no row cap or no byte cap only when a policy forbade the cap on
  some resource; otherwise the caps of every permit that answered for the datasource bind it.
\<close>
theorem caps_lifted_only_by_forbid:
  assumes "decideFacts pl di = Returned d" "dx_action d \<noteq> ENF_DENY"
  shows "((dx_maxRows d = None \<or> dx_maxBytes d = None) \<longrightarrow>
      (\<exists>request e cm reasons. isAuthorized (pl_engine pl) request (actionEuid ''result.cap'') e cm = Success False [] reasons \<and> reasons \<noteq> [])) \<and>
    (\<forall>reasons c n. datasourceCapAnswer pl di (actorOf pl di) = Success True [] reasons \<longrightarrow>
      c \<in> set (capsOf (ce_cache (pl_engine pl)) reasons) \<longrightarrow>
      (rc_rows c = Some n \<longrightarrow> dx_maxRows d = None \<or> the (dx_maxRows d) \<le> n) \<and>
      (rc_bytes c = Some n \<longrightarrow> dx_maxBytes d = None \<or> the (dx_maxBytes d) \<le> n))"
proof -
  from decided_caps[OF assms] obtain rs
    where caps: "(dx_maxRows d, dx_maxBytes d) = resultCaps (ac_dsCaps (actorOf pl di) # rs)"
      and rs: "\<forall>r\<in>set (ac_dsCaps (actorOf pl di) # rs). \<exists>resources. r = resolveResultCaps (pl_engine pl) (di_principal di)
        (ac_parents (actorOf pl di)) (ds_name (di_ds di)) resources (ac_context (actorOf pl di)) (ds_tags (di_ds di))"
    using actorOf_dsCaps by (metis set_ConsD)
  have "dx_maxRows d = None \<or> dx_maxBytes d = None \<Longrightarrow>
      \<exists>request e cm reasons. isAuthorized (pl_engine pl) request (actionEuid ''result.cap'') e cm = Success False [] reasons \<and> reasons \<noteq> []"
    using resultCaps_None[OF caps] rs resolveResultCaps_unbounded by metis
  moreover have "(rc_rows c = Some n \<longrightarrow> dx_maxRows d = None \<or> the (dx_maxRows d) \<le> n) \<and>
      (rc_bytes c = Some n \<longrightarrow> dx_maxBytes d = None \<or> the (dx_maxBytes d) \<le> n)"
    if "datasourceCapAnswer pl di (actorOf pl di) = Success True [] reasons" "c \<in> set (capsOf (ce_cache (pl_engine pl)) reasons)" for reasons c n
  proof (cases "rv_unbounded (ac_dsCaps (actorOf pl di))")
    case True
    then show ?thesis using caps by (auto simp: resultCaps_def)
  next
    case False
    note bound = dsCaps_bind[OF that False] and le = resultCaps_le[OF caps list.set_intros(1)]
    have "the (dx_maxRows d) \<le> n" if r: "rc_rows c = Some n" "dx_maxRows d \<noteq> None"
    proof -
      from bound(1)[OF r(1)] obtain k where "rv_rows (ac_dsCaps (actorOf pl di)) = Some k" "k \<le> n" by blast
      with le(1)[of k "the (dx_maxRows d)"] r(2) show ?thesis by simp
    qed
    moreover have "the (dx_maxBytes d) \<le> n" if r: "rc_bytes c = Some n" "dx_maxBytes d \<noteq> None"
    proof -
      from bound(2)[OF r(1)] obtain k where "rv_bytes (ac_dsCaps (actorOf pl di)) = Some k" "k \<le> n" by blast
      with le(2)[of k "the (dx_maxBytes d)"] r(2) show ?thesis by simp
    qed
    ultimately show ?thesis by blast
  qed
  ultimately show ?thesis by blast
qed

theorem caps_lifted_only_by_forbid_witness:
  "\<exists>d. decideFacts samplePlane sampleDecide = Returned d \<and> dx_action d = ENF_MASK \<and> the (dx_maxRows d) \<le> 10"
proof -
  obtain d where d: "decideFacts samplePlane sampleDecide = Returned d" "dx_action d = ENF_MASK" "dx_maxRows d = Some 10" by (rule sample_obtain)
  have a: "datasourceCapAnswer samplePlane sampleDecide (actorOf samplePlane sampleDecide) = Success True [] [''policy-7'']"
    by (simp add: datasourceCapAnswer_def Let_def isAuthorized_def samplePlane_def sampleEngine_def sampleEval_def actionEuid_def)
  have c: "noCap\<lparr>rc_rows := Some 10\<rparr> \<in> set (capsOf (ce_cache (pl_engine samplePlane)) [''policy-7''])"
    by (simp add: capsOf_def samplePlane_def sampleEngine_def List.map_filter_simps)
  from caps_lifted_only_by_forbid[OF d(1)] d a c have "the (dx_maxRows d) \<le> 10" by fastforce
  with d show ?thesis by blast
qed

end
