(* ===== verification/ConnectionCatalog.thy ===== *)
theory ConnectionCatalog
  imports Query "HOL-Library.Multiset" "HOL-Library.Product_Lexorder"
begin

text \<open>
  The catalog a connection is decided against (\<^verbatim>\<open>ConnectionCatalog.kt\<close>): fragments of schemas pooled by
  content and counted by reference, what each datasource was last seen to hold, and the connections with
  the fragments they hold and the refetches they wait for. An operation runs under the locks of the source,
  so it is one step on the registry; the clock and the random ids are arguments. Association lists keep the
  order of insertion, as the linked maps of a connection do. Reference counts are unbounded integers: a
  count of 2 to the 31 needs as many live connections. An underflow of a count is an error that leaves the
  registry as it was; the invariant below shows that it does not happen.
\<close>

subsection \<open>State\<close>

type_synonym content_hash = bytes

record fragment_column =
  fc_catalog :: string
  fc_schema :: string
  fc_table :: string
  fc_column :: string
  fc_dataType :: string
  fc_ordinal :: int
  fc_nullable :: bool

record pool_key =
  pk_scope :: string
  pk_namespace :: object_ref
  pk_hash :: content_hash

record schema_fragment =
  sg_key :: pool_key
  sg_hash :: content_hash
  sg_columns :: "fragment_column list"
  sg_routines :: "string list"

definition fragmentContent :: "schema_fragment \<Rightarrow> fragment_column list \<times> string list" where
  "fragmentContent f = (sg_columns f, sg_routines f)"

record pooled_fragment =
  pf_fragment :: schema_fragment
  pf_refCount :: int

type_synonym pool = "pool_key \<rightharpoonup> pooled_fragment"

record authoritative =
  au_hash :: content_hash
  au_pooledRef :: pool_key
  au_epoch :: int64
  au_lastInspected :: int64

text \<open>The engine of a binding is an enumeration value; its wire name identifies it.\<close>

record binding =
  bi_datasource :: string
  bi_principal :: string
  bi_tokenKind :: string
  bi_catalog :: "string option"
  bi_engine :: engine_def

record held_schema =
  hs_pooledRef :: pool_key
  hs_hash :: content_hash
  hs_lastFetch :: int64
  hs_lastVerified :: int64
  hs_revalidated :: "content_hash option"

record pending_refetch =
  pr_expected :: "content_hash option"
  pr_authoritativeAtIssue :: "content_hash option"
  pr_afterStatement :: bool
  pr_afterCommit :: bool

record connection =
  co_binding :: binding
  co_held :: "(object_ref \<times> held_schema) list"
  co_pending :: "(object_ref \<times> pending_refetch) list"
  co_ddl :: "object_ref list"
  co_backendGeneration :: "int64 option"
  co_generation :: int64
  co_lastUsed :: int64

record registry =
  reg_pool :: pool
  reg_authoritative :: "((string \<times> object_ref) \<times> authoritative) list"
  reg_connections :: "(bytes \<times> connection) list"
  reg_epoch :: int64
  reg_staleness :: int64

definition DEFAULT_STALENESS_NANOS :: int64 where
  "DEFAULT_STALENESS_NANOS = 15 * 60 * 1000000000"

definition emptyRegistry :: "int64 \<Rightarrow> registry" where
  "emptyRegistry staleness = \<lparr>reg_pool = Map.empty, reg_authoritative = [], reg_connections = [], reg_epoch = 0, reg_staleness = staleness\<rparr>"

text \<open>The row of a datasource, with what its engine states about itself.\<close>

record datasource_row = datasource +
  dw_currentCatalog :: "string option"
  dw_defaultSchemas :: "string list"
  dw_systemSchemas :: "string list"
  dw_connectionIndependent :: bool
  dw_checksTargetErrors :: bool

datatype catalog_error = InvalidCatalog | RefcountUnderflow pool_key

datatype status_code = NOT_FOUND | FAILED_PRECONDITION | INVALID_ARGUMENT | UNAUTHENTICATED | ABORTED

datatype mutation_result = Applied int64 bool | Rejected status_code string

definition effectiveCatalog :: "datasource_row \<Rightarrow> (catalog_error, string) result" where
  "effectiveCatalog ds = (case dw_currentCatalog ds of None \<Rightarrow> Inl InvalidCatalog | Some c \<Rightarrow> Inr c)"

definition namespaces :: "datasource_row \<Rightarrow> string list \<Rightarrow> (catalog_error, object_ref list) result" where
  "namespaces ds schemas =
    (if schemas = [] then Inr [] else rbind (effectiveCatalog ds) (\<lambda>c. Inr (map (namespace c) schemas)))"

subsection \<open>The pool\<close>

definition retain :: "schema_fragment \<Rightarrow> int \<Rightarrow> pool \<Rightarrow> pooled_fragment \<times> pool" where
  "retain f n pool =
    (let next = (case pool (sg_key f) of
           None \<Rightarrow> \<lparr>pf_fragment = f, pf_refCount = n\<rparr>
         | Some p \<Rightarrow> if fragmentContent (pf_fragment p) \<noteq> fragmentContent f then p else p\<lparr>pf_refCount := pf_refCount p + n\<rparr>)
     in (next, pool(sg_key f \<mapsto> next)))"

definition release :: "pool_key \<Rightarrow> pool \<Rightarrow> (catalog_error, pool) result" where
  "release k pool =
    (case pool k of
       None \<Rightarrow> Inr pool
     | Some p \<Rightarrow>
        if \<not> 0 < pf_refCount p then Inl (RefcountUnderflow k)
        else Inr (if pf_refCount p - 1 = 0 then pool(k := None) else pool(k \<mapsto> p\<lparr>pf_refCount := pf_refCount p - 1\<rparr>)))"

fun releaseAll :: "pool_key list \<Rightarrow> pool \<Rightarrow> (catalog_error, pool) result" where
  "releaseAll [] pool = Inr pool"
| "releaseAll (k # ks) pool = rbind (release k pool) (releaseAll ks)"

definition releaseIf :: "bool \<Rightarrow> pool_key \<Rightarrow> pool \<Rightarrow> (catalog_error, pool) result" where
  "releaseIf b k pool = (if b then release k pool else Inr pool)"

definition poolKey :: "datasource_row \<Rightarrow> object_ref \<Rightarrow> content_hash \<Rightarrow> pool_key" where
  "poolKey ds schema hash =
    \<lparr>pk_scope =
       (case ds_engineVersion ds of
          Some v \<Rightarrow> if ed_isFixedSystemSchema (ds_engine ds) (ob_schema schema) \<and> \<not> isBlank v then ''engine:'' @ v else ''ds:'' @ ds_name ds
        | None \<Rightarrow> ''ds:'' @ ds_name ds),
     pk_namespace = schema, pk_hash = hash\<rparr>"

subsection \<open>Opening\<close>

definition refetchOf :: "object_ref \<Rightarrow> content_hash option \<Rightarrow> refetch" where
  "refetchOf schema hash =
    \<lparr>rf_catalog = ob_catalog schema, rf_schema = ob_schema schema, rf_ifHashDiffers = (case hash of None \<Rightarrow> [] | Some h \<Rightarrow> h)\<rparr>"

definition named :: "object_ref \<Rightarrow> bool" where
  "named schema \<longleftrightarrow> \<not> isBlank (ob_schema schema) \<and> \<not> isBlank (ob_catalog schema)"

definition authoritativeHash :: "registry \<Rightarrow> connection \<Rightarrow> object_ref \<Rightarrow> content_hash option" where
  "authoritativeHash reg c schema = map_option au_hash (map_of (reg_authoritative reg) (bi_datasource (co_binding c), schema))"

definition newPending :: "content_hash option \<Rightarrow> content_hash option \<Rightarrow> pending_refetch" where
  "newPending expected auth = \<lparr>pr_expected = expected, pr_authoritativeAtIssue = auth, pr_afterStatement = False, pr_afterCommit = False\<rparr>"

definition issueOne :: "registry \<Rightarrow> bool \<Rightarrow> object_ref \<Rightarrow> refetch list \<times> connection \<times> pool \<Rightarrow> refetch list \<times> connection \<times> pool" where
  "issueOne reg adopt schema = (\<lambda>(cmds, c, pool).
    (let auth = map_of (reg_authoritative reg) (bi_datasource (co_binding c), schema);
         ask = (let h = map_option au_hash auth
                in (cmds @ [refetchOf schema h], c\<lparr>co_pending := AList.update schema (newPending h h) (co_pending c)\<rparr>, pool))
     in case auth of
          None \<Rightarrow> ask
        | Some a \<Rightarrow>
           (case pool (au_pooledRef a) of
              None \<Rightarrow> ask
            | Some p \<Rightarrow>
               if adopt
               then (cmds, c\<lparr>co_held := AList.update schema
                      \<lparr>hs_pooledRef = au_pooledRef a, hs_hash = au_hash a, hs_lastFetch = au_lastInspected a,
                       hs_lastVerified = au_lastInspected a, hs_revalidated = None\<rparr> (co_held c)\<rparr>,
                     snd (retain (pf_fragment p) 1 pool))
               else ask)))"

text \<open>A new connection enters the registry and is told what to fetch.\<close>

definition issueInitial :: "bytes \<Rightarrow> binding \<Rightarrow> object_ref list \<Rightarrow> bool \<Rightarrow> int64 \<Rightarrow> registry \<Rightarrow> refetch list \<times> registry" where
  "issueInitial cid b schemas adopt now reg =
    (let fresh = \<lparr>co_binding = b, co_held = [], co_pending = [], co_ddl = [], co_backendGeneration = None, co_generation = 0, co_lastUsed = now\<rparr>
     in case fold (issueOne reg adopt) (distinctList (filter named schemas)) ([], fresh, reg_pool reg) of
          (cmds, c, pool) \<Rightarrow> (cmds, reg\<lparr>reg_pool := pool, reg_connections := AList.update cid c (reg_connections reg)\<rparr>))"

text \<open>The ids drawn in turn until one is free.\<close>

fun openRegistry :: "bytes list \<Rightarrow> binding \<Rightarrow> object_ref list \<Rightarrow> bool \<Rightarrow> int64 \<Rightarrow> registry \<Rightarrow> ((bytes \<times> refetch list) \<times> registry) option" where
  "openRegistry [] b schemas adopt now reg = None"
| "openRegistry (cid # cids) b schemas adopt now reg =
    (if map_of (reg_connections reg) cid \<noteq> None then openRegistry cids b schemas adopt now reg
     else case issueInitial cid b schemas adopt now reg of (cmds, reg') \<Rightarrow> Some ((cid, cmds), reg'))"

definition recover :: "bytes \<Rightarrow> binding \<Rightarrow> object_ref list \<Rightarrow> bool \<Rightarrow> int64 \<Rightarrow> registry \<Rightarrow> (bytes \<times> refetch list) option \<times> registry" where
  "recover cid b schemas adopt now reg =
    (if map_of (reg_connections reg) cid \<noteq> None then (None, reg)
     else case issueInitial cid b schemas adopt now reg of (cmds, reg') \<Rightarrow> (Some (cid, cmds), reg'))"

definition putConnection :: "bytes \<Rightarrow> connection \<Rightarrow> registry \<Rightarrow> registry" where
  "putConnection cid c reg = reg\<lparr>reg_connections := AList.update cid c (reg_connections reg)\<rparr>"

definition withConnection :: "bytes \<Rightarrow> int64 \<Rightarrow> (connection \<Rightarrow> registry \<Rightarrow> 'a \<times> registry) \<Rightarrow> registry \<Rightarrow> 'a option \<times> registry" where
  "withConnection cid now block reg =
    (case map_of (reg_connections reg) cid of
       None \<Rightarrow> (None, reg)
     | Some c \<Rightarrow> (case block (c\<lparr>co_lastUsed := now\<rparr>) (putConnection cid (c\<lparr>co_lastUsed := now\<rparr>) reg) of (r, reg') \<Rightarrow> (Some r, reg')))"

subsection \<open>Pushes\<close>

record fragment_push =
  sp_connectionId :: bytes
  sp_datasource :: string
  sp_backendGeneration :: int64
  sp_catalog :: string
  sp_schema :: string
  sp_contentHash :: content_hash
  sp_unchanged :: bool
  sp_columns :: "fragment_column list"
  sp_routines :: "string list"

definition accept :: "object_ref \<Rightarrow> int64 \<Rightarrow> connection \<Rightarrow> connection" where
  "accept schema backendGeneration c =
     c\<lparr>co_pending := AList.delete schema (co_pending c),
       co_backendGeneration := Some (case co_backendGeneration c of None \<Rightarrow> backendGeneration | Some b \<Rightarrow> max b backendGeneration),
       co_generation := wrap64 (co_generation c + 1)\<rparr>"

text \<open>The checks of a push that change nothing, up to the refetch it answers.\<close>

definition checkPush :: "connection \<Rightarrow> fragment_push \<Rightarrow> datasource_row \<Rightarrow> (catalog_error + mutation_result, pending_refetch) result" where
  "checkPush c req ds =
    (let reject = (\<lambda>code m. Inl (Inr (Rejected code m))); ns = namespace (sp_catalog req) (sp_schema req)
     in if sp_datasource req \<noteq> bi_datasource (co_binding c) \<or> sp_datasource req \<noteq> ds_name ds
        then reject FAILED_PRECONDITION ''datasource binding mismatch''
        else if sp_backendGeneration req < 0 then reject INVALID_ARGUMENT ''backend_generation exceeds signed range''
        else if (case co_backendGeneration c of None \<Rightarrow> False | Some bound \<Rightarrow> sp_backendGeneration req < bound)
        then reject FAILED_PRECONDITION ''stale backend_generation''
        else if isBlank (sp_catalog req) then reject INVALID_ARGUMENT ''invalid catalog''
        else case effectiveCatalog ds of
          Inl e \<Rightarrow> Inl (Inl e)
        | Inr cat \<Rightarrow>
           if sp_catalog req \<noteq> cat then reject INVALID_ARGUMENT ''invalid catalog''
           else (case map_of (co_pending c) ns of
              None \<Rightarrow> reject FAILED_PRECONDITION ''schema push has no pending REFETCH command''
            | Some pending \<Rightarrow> Inr pending))"

text \<open>A push that says the content is the expected one.\<close>

definition applyUnchanged :: "connection \<Rightarrow> fragment_push \<Rightarrow> datasource_row \<Rightarrow> pending_refetch \<Rightarrow> int64 \<Rightarrow> registry \<Rightarrow>
    (catalog_error, mutation_result) result \<times> registry" where
  "applyUnchanged c req ds pending now reg =
    (let ns = namespace (sp_catalog req) (sp_schema req); reject = (\<lambda>m. (Inr (Rejected FAILED_PRECONDITION m), reg))
     in case pr_expected pending of
          None \<Rightarrow> reject ''unchanged push cannot satisfy an unconditional REFETCH''
        | Some expected \<Rightarrow>
           if sp_contentHash req \<noteq> expected then reject ''unchanged hash mismatch''
           else let key = poolKey ds ns expected; previous = map_of (co_held c) ns in
             case reg_pool reg key of
               None \<Rightarrow> reject ''unchanged push references an unknown pooled fragment''
             | Some p \<Rightarrow>
                (let moved = (map_option hs_pooledRef previous \<noteq> Some key);
                     pool1 = (if moved then snd (retain (pf_fragment p) 1 (reg_pool reg)) else reg_pool reg);
                     held = \<lparr>hs_pooledRef = key, hs_hash = expected,
                       hs_lastFetch = (case previous of None \<Rightarrow> 0 | Some h \<Rightarrow> hs_lastFetch h), hs_lastVerified = now,
                       hs_revalidated = pr_authoritativeAtIssue pending\<rparr>;
                     c' = accept ns (sp_backendGeneration req) (c\<lparr>co_held := AList.update ns held (co_held c)\<rparr>)
                 in case (case previous of None \<Rightarrow> Inr pool1 | Some h \<Rightarrow> releaseIf moved (hs_pooledRef h) pool1) of
                      Inl e \<Rightarrow> (Inl e, reg)
                    | Inr pool2 \<Rightarrow> (Inr (Applied (co_generation c') (pr_afterCommit pending)),
                        putConnection (sp_connectionId req) c' (reg\<lparr>reg_pool := pool2\<rparr>))))"

text \<open>A push of content: the connection holds it and the datasource is now known to have it.\<close>

definition applyContent :: "connection \<Rightarrow> fragment_push \<Rightarrow> datasource_row \<Rightarrow> pending_refetch \<Rightarrow> int64 \<Rightarrow> registry \<Rightarrow>
    (catalog_error, mutation_result) result \<times> registry" where
  "applyContent c req ds pending now reg =
    (let ns = namespace (sp_catalog req) (sp_schema req); hash = sp_contentHash req; key = poolKey ds ns hash;
         fragment = \<lparr>sg_key = key, sg_hash = hash, sg_columns = sp_columns req, sg_routines = sp_routines req\<rparr>;
         aliased = (Inr (Rejected FAILED_PRECONDITION ''content hash aliases different fragment columns''), reg);
         held = map_of (co_held c) ns; authKey = (ds_name ds, ns); auth = map_of (reg_authoritative reg) authKey;
         heldMoved = (map_option hs_pooledRef held \<noteq> Some key); authMoved = (map_option au_pooledRef auth \<noteq> Some key)
     in if list_ex (\<lambda>f. fc_catalog f \<noteq> sp_catalog req \<or> fc_schema f \<noteq> sp_schema req) (sp_columns req)
        then (Inr (Rejected INVALID_ARGUMENT ''fragment column schema mismatch''), reg)
        else if (case reg_pool reg key of None \<Rightarrow> False | Some p \<Rightarrow> fragmentContent (pf_fragment p) \<noteq> fragmentContent fragment)
        then aliased
        else case retain fragment (of_bool heldMoved + of_bool authMoved) (reg_pool reg) of (retained, pool1) \<Rightarrow>
          if fragmentContent (pf_fragment retained) \<noteq> fragmentContent fragment then aliased
          else let epoch = wrap64 (reg_epoch reg + 1);
                   auths = AList.update authKey \<lparr>au_hash = hash, au_pooledRef = key, au_epoch = epoch, au_lastInspected = now\<rparr> (reg_authoritative reg);
                   changed = (pr_afterStatement pending \<and> map_option hs_hash held \<noteq> Some hash);
                   c' = accept ns (sp_backendGeneration req) (c\<lparr>co_held := AList.update ns
                     \<lparr>hs_pooledRef = key, hs_hash = hash, hs_lastFetch = now, hs_lastVerified = now, hs_revalidated = None\<rparr> (co_held c),
                     co_ddl := (if changed \<and> ns \<notin> set (co_ddl c) then co_ddl c @ [ns] else co_ddl c)\<rparr>)
               in case rbind (case held of None \<Rightarrow> Inr pool1 | Some h \<Rightarrow> releaseIf heldMoved (hs_pooledRef h) pool1)
                    (\<lambda>pool2. case auth of None \<Rightarrow> Inr pool2 | Some a \<Rightarrow> releaseIf authMoved (au_pooledRef a) pool2) of
                 Inl e \<Rightarrow> (Inl e, reg)
               | Inr pool3 \<Rightarrow> (Inr (Applied (co_generation c') (changed \<or> pr_afterCommit pending)),
                   putConnection (sp_connectionId req) c' (reg\<lparr>reg_pool := pool3, reg_authoritative := auths, reg_epoch := epoch\<rparr>)))"

definition applyPushLocked :: "connection \<Rightarrow> fragment_push \<Rightarrow> datasource_row \<Rightarrow> int64 \<Rightarrow> registry \<Rightarrow>
    (catalog_error, mutation_result) result \<times> registry" where
  "applyPushLocked c req ds now reg =
    (case checkPush c req ds of
       Inl (Inl e) \<Rightarrow> (Inl e, reg)
     | Inl (Inr r) \<Rightarrow> (Inr r, reg)
     | Inr pending \<Rightarrow> (if sp_unchanged req then applyUnchanged else applyContent) c req ds pending now reg)"

definition applyPush :: "fragment_push \<Rightarrow> datasource_row \<Rightarrow> int64 \<Rightarrow> registry \<Rightarrow> (catalog_error, mutation_result) result \<times> registry" where
  "applyPush req ds now reg =
    (case withConnection (sp_connectionId req) now (\<lambda>c. applyPushLocked c req ds now) reg of
       (None, reg') \<Rightarrow> (Inr (Rejected NOT_FOUND ''unknown connection_id''), reg')
     | (Some r, reg') \<Rightarrow> (r, reg'))"

subsection \<open>Freshness and refetches\<close>

definition gated :: "connection \<Rightarrow> object_ref \<Rightarrow> bool" where
  "gated c schema \<longleftrightarrow> named schema \<and> \<not> ed_isTempSchema (bi_engine (co_binding c)) (ob_schema schema)"

definition stale :: "registry \<Rightarrow> connection \<Rightarrow> int64 \<Rightarrow> object_ref \<Rightarrow> bool" where
  "stale reg c now schema \<longleftrightarrow>
     map_of (co_pending c) schema \<noteq> None \<or>
     (case map_of (co_held c) schema of
        None \<Rightarrow> True
      | Some held \<Rightarrow>
         (case authoritativeHash reg c schema of
            None \<Rightarrow> False
          | Some h \<Rightarrow> hs_hash held \<noteq> h \<and> hs_revalidated held \<noteq> Some h) \<or>
         reg_staleness reg < wrap64 (now - hs_lastVerified held))"

definition freshnessGate :: "registry \<Rightarrow> connection \<Rightarrow> int64 \<Rightarrow> object_ref list \<Rightarrow> object_ref list" where
  "freshnessGate reg c now required = filter (stale reg c now) (distinctList (filter (gated c) required))"

text \<open>A refetch already pending keeps the hash it was issued with.\<close>

definition markPending :: "(pending_refetch \<Rightarrow> pending_refetch) \<Rightarrow> (object_ref \<Rightarrow> pending_refetch) \<Rightarrow> object_ref list \<Rightarrow> connection \<Rightarrow> refetch list \<times> connection" where
  "markPending mark create schemas c =
     fold (\<lambda>schema (cmds, c1).
         let pending = mark (case map_of (co_pending c1) schema of Some p \<Rightarrow> p | None \<Rightarrow> create schema)
         in (cmds @ [refetchOf schema (pr_expected pending)], c1\<lparr>co_pending := AList.update schema pending (co_pending c1)\<rparr>))
       (distinctList (filter (gated c) schemas)) ([], c)"

definition heldHash :: "connection \<Rightarrow> object_ref \<Rightarrow> content_hash option" where
  "heldHash c schema = map_option hs_hash (map_of (co_held c) schema)"

definition markBeforeDecide :: "registry \<Rightarrow> object_ref list \<Rightarrow> connection \<Rightarrow> refetch list \<times> connection" where
  "markBeforeDecide reg schemas c =
     markPending id (\<lambda>schema. let auth = authoritativeHash reg c schema
       in newPending (case heldHash c schema of Some h \<Rightarrow> Some h | None \<Rightarrow> auth) auth) schemas c"

definition markCatalogMiss :: "registry \<Rightarrow> object_ref list \<Rightarrow> connection \<Rightarrow> refetch list \<times> connection" where
  "markCatalogMiss reg schemas c = markPending id (\<lambda>schema. newPending None (authoritativeHash reg c schema)) schemas c"

definition heldOrAuthoritative :: "registry \<Rightarrow> connection \<Rightarrow> object_ref \<Rightarrow> pending_refetch" where
  "heldOrAuthoritative reg c schema = newPending (heldHash c schema) (authoritativeHash reg c schema)"

definition markAfterStatement :: "registry \<Rightarrow> object_ref list \<Rightarrow> connection \<Rightarrow> refetch list \<times> connection" where
  "markAfterStatement reg schemas c = markPending (pr_afterStatement_update (\<lambda>_. True)) (heldOrAuthoritative reg c) schemas c"

definition markAfterCommit :: "registry \<Rightarrow> connection \<Rightarrow> refetch list \<times> connection" where
  "markAfterCommit reg c = markPending (pr_afterCommit_update (\<lambda>_. True)) (heldOrAuthoritative reg c) (co_ddl c) (c\<lparr>co_ddl := []\<rparr>)"

definition clearDdlSinceLastCommit :: "connection \<Rightarrow> connection" where
  "clearDdlSinceLastCommit c = c\<lparr>co_ddl := []\<rparr>"

text \<open>Strings compare by their UTF-16 units.\<close>

definition utf16Key :: "string \<Rightarrow> nat list" where
  "utf16Key s = utf16_Encode (decodeRunes s)"

definition structuralRows :: "registry \<Rightarrow> connection \<Rightarrow> fragment_column list" where
  "structuralRows reg c =
     sort_key (\<lambda>f. (utf16Key (fc_catalog f), utf16Key (fc_schema f), utf16Key (fc_table f), fc_ordinal f))
       (concat (map (\<lambda>(ns, h). case reg_pool reg (hs_pooledRef h) of None \<Rightarrow> [] | Some p \<Rightarrow> sg_columns (pf_fragment p)) (co_held c)))"

definition heldRoutines :: "registry \<Rightarrow> connection \<Rightarrow> string \<rightharpoonup> string list" where
  "heldRoutines reg c =
     map_of (rev (sort_key (utf16Key \<circ> fst) (List.map_filter (\<lambda>(ns, h). map_option (\<lambda>p. (ob_schema ns, sg_routines (pf_fragment p))) (reg_pool reg (hs_pooledRef h)))
       (co_held c))))"

definition heldAndFreshSchemas :: "registry \<Rightarrow> connection \<Rightarrow> int64 \<Rightarrow> object_ref list" where
  "heldAndFreshSchemas reg c now = filter (\<lambda>ns. freshnessGate reg c now [ns] = []) (map fst (co_held c))"

subsection \<open>Whole catalogs, deletion and closing\<close>

definition applyCatalogPush :: "string \<Rightarrow> (object_ref \<Rightarrow> fragment_column list) \<Rightarrow> (object_ref \<Rightarrow> string list) \<Rightarrow> int64 \<Rightarrow> registry \<Rightarrow> object_ref list \<times> registry" where
  "applyCatalogPush ds columns routines now reg =
    (let mine = (\<lambda>(k, a). fst k = ds);
         confirms = (\<lambda>(k, a). case reg_pool reg (au_pooledRef a) of
           None \<Rightarrow> False
         | Some p \<Rightarrow> set (sg_columns (pf_fragment p)) = set (columns (snd k)) \<and> set (sg_routines (pf_fragment p)) = set (routines (snd k)));
         inspected = (\<lambda>e. if mine e then (fst e, (snd e)\<lparr>au_lastInspected :=
             (if confirms e then now else wrap64 (now - reg_staleness reg - 1))\<rparr>) else e)
     in (map (snd \<circ> fst) (filter (\<lambda>e. mine e \<and> confirms e) (reg_authoritative reg)),
         reg\<lparr>reg_authoritative := map inspected (reg_authoritative reg)\<rparr>))"

definition invalidateDatasource :: "string \<Rightarrow> registry \<Rightarrow> (catalog_error, object_ref list) result \<times> registry" where
  "invalidateDatasource ds reg =
    (let mine = filter (\<lambda>(k, a). fst k = ds) (reg_authoritative reg)
     in case releaseAll (map (au_pooledRef \<circ> snd) mine) (reg_pool reg) of
          Inl e \<Rightarrow> (Inl e, reg)
        | Inr pool \<Rightarrow> (Inr (map (snd \<circ> fst) mine),
            reg\<lparr>reg_pool := pool, reg_authoritative := filter (\<lambda>(k, a). fst k \<noteq> ds) (reg_authoritative reg)\<rparr>))"

definition dropConnection :: "bytes \<Rightarrow> connection \<Rightarrow> registry \<Rightarrow> (catalog_error, registry) result" where
  "dropConnection cid c reg =
     rbind (releaseAll (map (hs_pooledRef \<circ> snd) (co_held c)) (reg_pool reg))
       (\<lambda>pool. Inr (reg\<lparr>reg_pool := pool, reg_connections := AList.delete cid (reg_connections reg)\<rparr>))"

definition closeRegistry :: "bytes \<Rightarrow> string \<Rightarrow> registry \<Rightarrow> (catalog_error, mutation_result) result \<times> registry" where
  "closeRegistry cid ds reg =
    (case map_of (reg_connections reg) cid of
       None \<Rightarrow> (Inr (Rejected NOT_FOUND ''unknown connection_id''), reg)
     | Some c \<Rightarrow>
        if bi_datasource (co_binding c) \<noteq> ds then (Inr (Rejected FAILED_PRECONDITION ''datasource binding mismatch''), reg)
        else (case dropConnection cid c reg of Inl e \<Rightarrow> (Inl e, reg) | Inr reg' \<Rightarrow> (Inr (Applied (co_generation c) False), reg')))"

fun dropAll :: "(bytes \<times> connection) list \<Rightarrow> registry \<Rightarrow> (catalog_error, registry) result" where
  "dropAll [] reg = Inr reg"
| "dropAll ((cid, c) # cs) reg = rbind (dropConnection cid c reg) (dropAll cs)"

definition sweepIdle :: "int64 \<Rightarrow> int64 \<Rightarrow> registry \<Rightarrow> (catalog_error, nat) result \<times> registry" where
  "sweepIdle maxIdleMillis now reg =
    (let cutoff = wrap64 (now - wrap64 (maxIdleMillis * 1000000));
         idle = filter (\<lambda>(cid, c). co_lastUsed c < cutoff) (reg_connections reg)
     in case dropAll idle reg of Inl e \<Rightarrow> (Inl e, reg) | Inr reg' \<Rightarrow> (Inr (length idle), reg'))"

subsection \<open>Counting references\<close>

definition msetOver :: "('v \<Rightarrow> 'a multiset) \<Rightarrow> ('k \<times> 'v) list \<Rightarrow> 'a multiset" where
  "msetOver g al = sum_list (map (g \<circ> snd) al)"

lemma msetOver_simps [simp]: "msetOver g [] = {#}" "msetOver g (p # al) = g (snd p) + msetOver g al"
  by (simp_all add: msetOver_def)

lemma msetOver_member: "map_of al k = Some v \<Longrightarrow> g v \<subseteq># msetOver g al"
  by (induction al) (auto split: if_splits intro: subset_mset.add_increasing)

lemma msetOver_update:
  "msetOver g (AList.update k v al) + (case map_of al k of None \<Rightarrow> {#} | Some old \<Rightarrow> g old) = msetOver g al + g v"
  by (induction al) (auto split: option.splits)

lemma msetOver_delete:
  "distinct (map fst al) \<Longrightarrow> msetOver g (AList.delete k al) + (case map_of al k of None \<Rightarrow> {#} | Some old \<Rightarrow> g old) = msetOver g al"
proof (induction al)
  case (Cons p al)
  show ?case
  proof (cases "fst p = k")
    case True
    with Cons.prems have "k \<notin> fst ` set al" by auto
    then have "AList.delete k al = al" "map_of al k = None" by (simp_all add: AList.delete_notin_dom map_of_eq_None_iff dom_map_of_conv_image_fst)
    with True show ?thesis by (cases p) (simp add: add.commute)
  qed (use Cons in \<open>cases p; auto simp: add.assoc\<close>)
qed simp

definition heldRefs :: "connection \<Rightarrow> pool_key multiset" where
  "heldRefs c = msetOver (\<lambda>h. {#hs_pooledRef h#}) (co_held c)"

definition refs :: "registry \<Rightarrow> pool_key multiset" where
  "refs reg = msetOver heldRefs (reg_connections reg) + msetOver (\<lambda>a. {#au_pooledRef a#}) (reg_authoritative reg)"

text \<open>A pool counts a multiset of references exactly, and drops what nothing refers to.\<close>

definition counted :: "pool \<Rightarrow> pool_key multiset \<Rightarrow> bool" where
  "counted pool M \<longleftrightarrow>
    (\<forall>k. case pool k of None \<Rightarrow> count M k = 0 | Some p \<Rightarrow> sg_key (pf_fragment p) = k \<and> 0 < pf_refCount p \<and> pf_refCount p = int (count M k))"

definition exact :: "registry \<Rightarrow> bool" where
  "exact reg \<longleftrightarrow> counted (reg_pool reg) (refs reg) \<and> distinct (map fst (reg_connections reg)) \<and> distinct (map fst (reg_authoritative reg))"

lemma counted_None: "counted pool M \<Longrightarrow> pool k = None \<longleftrightarrow> k \<notin># M"
  unfolding counted_def by (drule spec[of _ k]) (auto simp: not_in_iff split: option.splits)

lemma counted_Some: "counted pool M \<Longrightarrow> pool k = Some p \<Longrightarrow> sg_key (pf_fragment p) = k \<and> 0 < pf_refCount p \<and> pf_refCount p = int (count M k)"
  unfolding counted_def by (drule spec[of _ k]) auto

lemma retain_counted:
  assumes "counted pool M" "0 < n \<or> pool (sg_key f) \<noteq> None"
    and "\<And>p. pool (sg_key f) = Some p \<Longrightarrow> fragmentContent (pf_fragment p) = fragmentContent f"
  shows "counted (snd (retain f (int n) pool)) (M + replicate_mset n (sg_key f))"
    and "fragmentContent (pf_fragment (fst (retain f (int n) pool))) = fragmentContent f"
proof -
  show "fragmentContent (pf_fragment (fst (retain f (int n) pool))) = fragmentContent f"
    using assms(3) by (auto simp: retain_def Let_def split: option.splits)
  show "counted (snd (retain f (int n) pool)) (M + replicate_mset n (sg_key f))"
    unfolding counted_def
  proof
    fix k
    have c: "case pool k of None \<Rightarrow> count M k = 0 | Some p \<Rightarrow> sg_key (pf_fragment p) = k \<and> 0 < pf_refCount p \<and> pf_refCount p = int (count M k)"
      using assms(1) by (simp add: counted_def)
    show "case snd (retain f (int n) pool) k of None \<Rightarrow> count (M + replicate_mset n (sg_key f)) k = 0
      | Some p \<Rightarrow> sg_key (pf_fragment p) = k \<and> 0 < pf_refCount p \<and> pf_refCount p = int (count (M + replicate_mset n (sg_key f)) k)"
      using c assms(2,3) by (cases "k = sg_key f") (auto simp: retain_def Let_def split: option.splits)
  qed
qed

lemma release_counted:
  assumes "counted pool (add_mset k M)"
  shows "\<exists>pool'. release k pool = Inr pool' \<and> counted pool' M"
proof -
  obtain p where p: "pool k = Some p" using counted_None[OF assms, of k] by auto
  from counted_Some[OF assms p] have n: "sg_key (pf_fragment p) = k" "pf_refCount p = int (count M k) + 1" by auto
  let ?pool = "if pf_refCount p - 1 = 0 then pool(k := None) else pool(k \<mapsto> p\<lparr>pf_refCount := pf_refCount p - 1\<rparr>)"
  have "release k pool = Inr ?pool" using n by (simp add: release_def p)
  moreover have "counted ?pool M"
    unfolding counted_def
  proof
    fix j
    have "case pool j of None \<Rightarrow> count (add_mset k M) j = 0
      | Some p \<Rightarrow> sg_key (pf_fragment p) = j \<and> 0 < pf_refCount p \<and> pf_refCount p = int (count (add_mset k M) j)"
      using assms by (simp add: counted_def)
    then show "case ?pool j of None \<Rightarrow> count M j = 0 | Some p \<Rightarrow> sg_key (pf_fragment p) = j \<and> 0 < pf_refCount p \<and> pf_refCount p = int (count M j)"
      using n by (cases "j = k") (auto split: option.splits)
  qed
  ultimately show ?thesis by blast
qed

lemma releaseAll_counted: "counted pool (mset ks + M) \<Longrightarrow> \<exists>pool'. releaseAll ks pool = Inr pool' \<and> counted pool' M"
proof (induction ks arbitrary: pool)
  case (Cons k ks)
  from release_counted[of pool k "mset ks + M"] Cons.prems obtain pool1 where "release k pool = Inr pool1" "counted pool1 (mset ks + M)" by auto
  with Cons.IH show ?case by auto
qed simp

lemma releaseIf_counted: "counted pool (M + (if b then {#k#} else {#})) \<Longrightarrow> \<exists>pool'. releaseIf b k pool = Inr pool' \<and> counted pool' M"
  using release_counted[of pool k M] by (auto simp: releaseIf_def)

lemma msetOver_single: "msetOver (\<lambda>h. {#f h#}) al = mset (map (f \<circ> snd) al)"
  by (induction al) auto

lemma heldRefs_mset: "heldRefs c = mset (map (hs_pooledRef \<circ> snd) (co_held c))"
  by (simp add: heldRefs_def msetOver_single)

lemma heldRefs_cong: "co_held c = co_held c' \<Longrightarrow> heldRefs c = heldRefs c'"
  by (simp add: heldRefs_def)

lemma heldRefs_update:
  "heldRefs (c\<lparr>co_held := AList.update ns h (co_held c)\<rparr>) + (case map_of (co_held c) ns of None \<Rightarrow> {#} | Some old \<Rightarrow> {#hs_pooledRef old#}) =
   heldRefs c + {#hs_pooledRef h#}"
  using msetOver_update[of "\<lambda>h. {#hs_pooledRef h#}" ns h "co_held c"] by (simp add: heldRefs_def)

lemma connections_put:
  "map_of (reg_connections reg) cid = Some c \<Longrightarrow>
   msetOver heldRefs (AList.update cid c' (reg_connections reg)) + heldRefs c = msetOver heldRefs (reg_connections reg) + heldRefs c'"
  using msetOver_update[of heldRefs cid c' "reg_connections reg"] by simp

text \<open>Replacing a connection by one that holds the same keeps the registry exact.\<close>

lemma exact_put:
  assumes "exact reg" "map_of (reg_connections reg) cid = Some c" "heldRefs c' = heldRefs c"
  shows "exact (putConnection cid c' reg)"
  using assms connections_put[OF assms(2), of c'] by (simp add: exact_def putConnection_def refs_def distinct_update)

lemma exact_empty: "exact (emptyRegistry s)"
  by (simp add: exact_def emptyRegistry_def refs_def counted_def)

subsection \<open>Every operation counts exactly\<close>

lemma distinct_distinctList [simp]: "distinct (distinctList xs)"
  by (simp add: distinctList_def)

lemma issueOne_counted:
  assumes "counted pool (heldRefs c + M)" "map_of (co_held c) schema = None" "issueOne reg adopt schema (cmds, c, pool) = (cmds', c', pool')"
  shows "counted pool' (heldRefs c' + M) \<and> (\<forall>s. s \<noteq> schema \<longrightarrow> map_of (co_held c') s = map_of (co_held c) s)"
proof (cases "co_held c' = co_held c \<and> pool' = pool")
  case True
  with assms(1) heldRefs_cong[of c' c] show ?thesis by simp
next
  case False
  let ?auth = "map_of (reg_authoritative reg) (bi_datasource (co_binding c), schema)"
  from False assms(3) obtain a where auth: "?auth = Some a" by (cases ?auth) (auto simp: issueOne_def Let_def)
  from False assms(3) obtain p where a: "pool (au_pooledRef a) = Some p"
    and c': "c' = c\<lparr>co_held := AList.update schema
        \<lparr>hs_pooledRef = au_pooledRef a, hs_hash = au_hash a, hs_lastFetch = au_lastInspected a,
         hs_lastVerified = au_lastInspected a, hs_revalidated = None\<rparr> (co_held c)\<rparr>"
    and pool': "pool' = snd (retain (pf_fragment p) 1 pool)"
    by (cases "pool (au_pooledRef a)"; cases adopt) (auto simp: issueOne_def Let_def auth)
  have k: "sg_key (pf_fragment p) = au_pooledRef a" using counted_Some[OF assms(1) a] by simp
  have "counted pool' (heldRefs c + M + replicate_mset 1 (au_pooledRef a))"
    using retain_counted(1)[OF assms(1), of 1 "pf_fragment p"] a by (simp add: pool' k)
  moreover have "heldRefs c' = heldRefs c + {#au_pooledRef a#}"
    using heldRefs_update[where c = c and ns = schema] assms(2) by (simp add: c')
  ultimately show ?thesis by (simp add: c' update_conv' add_ac)
qed

lemma issue_fold_counted:
  assumes "counted pool (heldRefs c + M)" "distinct ss" "\<forall>s\<in>set ss. map_of (co_held c) s = None"
    "fold (issueOne reg adopt) ss (cmds, c, pool) = (cmds', c', pool')"
  shows "counted pool' (heldRefs c' + M)"
  using assms
proof (induction ss arbitrary: cmds c pool)
  case (Cons s ss)
  obtain cmds1 c1 pool1 where s: "issueOne reg adopt s (cmds, c, pool) = (cmds1, c1, pool1)" by (cases "issueOne reg adopt s (cmds, c, pool)")
  from issueOne_counted[OF Cons.prems(1) _ s] Cons.prems(3)
  have "counted pool1 (heldRefs c1 + M)" and same: "\<And>t. t \<noteq> s \<Longrightarrow> map_of (co_held c1) t = map_of (co_held c) t" by auto
  moreover have "\<forall>t\<in>set ss. map_of (co_held c1) t = None" using Cons.prems(2,3) same by fastforce
  ultimately show ?case using Cons.IH[of pool1 c1 cmds1] Cons.prems(2,4) s by simp
qed simp

lemma issueInitial_exact:
  assumes "exact reg" "map_of (reg_connections reg) cid = None"
  shows "exact (snd (issueInitial cid b schemas adopt now reg))"
proof -
  let ?fresh = "\<lparr>co_binding = b, co_held = [], co_pending = [], co_ddl = [], co_backendGeneration = None, co_generation = 0, co_lastUsed = now\<rparr>"
  obtain cmds c pool where f: "fold (issueOne reg adopt) (distinctList (filter named schemas)) ([], ?fresh, reg_pool reg) = (cmds, c, pool)"
    by (metis prod_cases3)
  have "counted (reg_pool reg) (heldRefs ?fresh + refs reg)" using assms(1) by (simp add: exact_def heldRefs_def)
  from issue_fold_counted[OF this _ _ f] have "counted pool (heldRefs c + refs reg)" by simp
  moreover have "msetOver heldRefs (AList.update cid c (reg_connections reg)) = msetOver heldRefs (reg_connections reg) + heldRefs c"
    using msetOver_update[of heldRefs cid c "reg_connections reg"] assms(2) by simp
  ultimately show ?thesis using assms(1) by (simp add: issueInitial_def Let_def f exact_def refs_def distinct_update add_ac)
qed

lemma openRegistry_exact: "openRegistry cids b schemas adopt now reg = Some (r, reg') \<Longrightarrow> exact reg \<Longrightarrow> exact reg'"
proof (induction cids)
  case (Cons cid cids)
  then show ?case using issueInitial_exact[of reg cid b schemas adopt now] by (auto split: if_splits prod.splits)
qed simp

lemma recover_exact: "exact reg \<Longrightarrow> exact (snd (recover cid b schemas adopt now reg))"
  using issueInitial_exact[of reg cid b schemas adopt now] by (auto simp: recover_def split: prod.splits)

text \<open>Moving what a connection holds, and what the datasource is known to hold, to another fragment.\<close>

lemma accept_held [simp]: "co_held (accept ns g c) = co_held c"
  by (simp add: accept_def)

lemma swap_refs:
  fixes P Q x y d k A :: "'a multiset"
  assumes "P + x = Q + y" "y + d = x + k"
  shows "P + A + d = Q + A + k"
proof (rule multiset_eqI)
  fix a
  show "count (P + A + d) a = count (Q + A + k) a"
    using arg_cong[OF assms(1), of "\<lambda>M. count M a"] arg_cong[OF assms(2), of "\<lambda>M. count M a"] by simp
qed

lemma refs_push:
  assumes "map_of (reg_connections reg) cid = Some c" "heldRefs c' = heldRefs (c\<lparr>co_held := AList.update ns h (co_held c)\<rparr>)"
  shows "refs (putConnection cid c' (reg\<lparr>reg_pool := pool\<rparr>)) + (case map_of (co_held c) ns of None \<Rightarrow> {#} | Some old \<Rightarrow> {#hs_pooledRef old#}) =
    refs reg + {#hs_pooledRef h#}"
  unfolding refs_def putConnection_def
  using swap_refs[OF connections_put[OF assms(1), of c'] heldRefs_update[where c = c and ns = ns and h = h, folded assms(2)]] by simp

lemma swap_counted:
  assumes "counted pool1 (R + (if moved then {#k#} else {#}) + E)" "N + (case prev of None \<Rightarrow> {#} | Some h \<Rightarrow> {#f h#}) = R + {#k#}"
    and "moved \<longleftrightarrow> map_option f prev \<noteq> Some k"
  shows "\<exists>pool2. (case prev of None \<Rightarrow> Inr pool1 | Some h \<Rightarrow> releaseIf moved (f h) pool1) = Inr pool2 \<and> counted pool2 (N + E)"
proof (cases prev)
  case None
  with assms show ?thesis by simp
next
  case (Some h)
  show ?thesis
  proof (cases moved)
    case True
    have "add_mset (f h) N = R + (if moved then {#k#} else {#})" using assms(2) Some True by simp
    then have "add_mset (f h) (N + E) = R + (if moved then {#k#} else {#}) + E" by (metis union_mset_add_mset_left)
    with assms(1) have "counted pool1 (add_mset (f h) (N + E))" by (simp only:)
    from release_counted[OF this] show ?thesis using Some True by (simp add: releaseIf_def)
  next
    case False
    with assms Some show ?thesis by (simp add: releaseIf_def)
  qed
qed

lemma held_pooled:
  assumes "exact reg" "map_of (reg_connections reg) cid = Some c" "map_of (co_held c) ns = Some h"
  shows "reg_pool reg (hs_pooledRef h) \<noteq> None"
proof -
  have "hs_pooledRef h \<in># heldRefs c" using msetOver_member[OF assms(3), of "\<lambda>h. {#hs_pooledRef h#}"] by (simp add: heldRefs_def mset_subset_eqD)
  moreover have "heldRefs c \<subseteq># msetOver heldRefs (reg_connections reg)" using assms(2) by (rule msetOver_member)
  ultimately have "hs_pooledRef h \<in># refs reg" by (auto simp: refs_def dest: mset_subset_eqD)
  with assms(1) counted_None[of "reg_pool reg" "refs reg"] show ?thesis by (auto simp: exact_def)
qed

lemma exact_pool: "exact reg \<Longrightarrow> counted (reg_pool reg) (refs reg)"
  by (simp add: exact_def)

lemma refs_pool [simp]: "refs (reg\<lparr>reg_pool := pool\<rparr>) = refs reg"
  by (simp add: refs_def)

lemma putConnection_pool [simp]: "reg_pool (putConnection cid c reg) = reg_pool reg" "reg_authoritative (putConnection cid c reg) = reg_authoritative reg"
  by (simp_all add: putConnection_def)

lemma refs_putConnection [simp]: "refs (putConnection cid c (reg\<lparr>reg_pool := pool\<rparr>)) = refs (putConnection cid c reg)"
  by (simp add: refs_def putConnection_def)

lemma distinct_putConnection: "distinct (map fst (reg_connections reg)) \<Longrightarrow> distinct (map fst (reg_connections (putConnection cid c reg)))"
  by (simp add: putConnection_def distinct_update)

lemma applyUnchanged_exact:
  assumes "exact reg" "map_of (reg_connections reg) (sp_connectionId req) = Some c" "applyUnchanged c req ds pending now reg = (r, reg')"
  shows "exact reg' \<and> (\<exists>m. r = Inr m)"
proof (cases "reg' = reg \<and> (\<exists>m. r = Inr m)")
  case False
  let ?ns = "namespace (sp_catalog req) (sp_schema req)"
  let ?prev = "map_of (co_held c) ?ns"
  from False assms(3) obtain expected where e: "pr_expected pending = Some expected" "sp_contentHash req = expected"
    by (cases "pr_expected pending") (auto simp: applyUnchanged_def Let_def split: if_splits)
  let ?key = "poolKey ds ?ns expected"
  from False assms(3) obtain p where p: "reg_pool reg ?key = Some p"
    by (cases "reg_pool reg ?key") (auto simp: applyUnchanged_def Let_def e)
  let ?moved = "map_option hs_pooledRef ?prev \<noteq> Some ?key"
  let ?pool1 = "if ?moved then snd (retain (pf_fragment p) 1 (reg_pool reg)) else reg_pool reg"
  let ?held = "\<lparr>hs_pooledRef = ?key, hs_hash = expected, hs_lastFetch = (case ?prev of None \<Rightarrow> 0 | Some h \<Rightarrow> hs_lastFetch h),
    hs_lastVerified = now, hs_revalidated = pr_authoritativeAtIssue pending\<rparr>"
  let ?c = "accept ?ns (sp_backendGeneration req) (c\<lparr>co_held := AList.update ?ns ?held (co_held c)\<rparr>)"
  have key: "sg_key (pf_fragment p) = ?key" using counted_Some[OF exact_pool[OF assms(1)] p] by simp
  have c1: "counted ?pool1 (refs reg + (if ?moved then {#?key#} else {#}) + {#})"
    using retain_counted(1)[OF exact_pool[OF assms(1)], of 1 "pf_fragment p"] exact_pool[OF assms(1)] p by (auto simp: key)
  have c2: "refs (putConnection (sp_connectionId req) ?c reg) + (case ?prev of None \<Rightarrow> {#} | Some h \<Rightarrow> {#hs_pooledRef h#}) = refs reg + {#?key#}"
    using refs_push[OF assms(2), of ?c ?ns ?held] by (simp add: heldRefs_def)
  from swap_counted[OF c1 c2 refl] obtain pool2 where pool2: "(case ?prev of None \<Rightarrow> Inr ?pool1 | Some h \<Rightarrow> releaseIf ?moved (hs_pooledRef h) ?pool1) = Inr pool2"
      "counted pool2 (refs (putConnection (sp_connectionId req) ?c reg) + {#})" by blast
  have "r = Inr (Applied (co_generation ?c) (pr_afterCommit pending)) \<and> reg' = putConnection (sp_connectionId req) ?c (reg\<lparr>reg_pool := pool2\<rparr>)"
    using assms(3) unfolding applyUnchanged_def Let_def e option.case p pool2(1) sum.case by simp
  with pool2(2) assms(1) show ?thesis by (simp add: exact_def distinct_putConnection)
qed (use assms(1) in auto)

lemma replicate_of_bool: "replicate_mset (of_bool a + of_bool b) k = (if a then {#k#} else {#}) + (if b then {#k#} else {#})"
  by (auto simp: numeral_2_eq_2)

lemma retain_both:
  assumes "counted pool M" "a \<or> b \<or> pool (sg_key f) \<noteq> None"
    and "\<And>p. pool (sg_key f) = Some p \<Longrightarrow> fragmentContent (pf_fragment p) = fragmentContent f"
  shows "counted (snd (retain f (of_bool a + of_bool b) pool)) (M + (if a then {#sg_key f#} else {#}) + (if b then {#sg_key f#} else {#}))"
    and "fragmentContent (pf_fragment (fst (retain f (of_bool a + of_bool b) pool))) = fragmentContent f"
proof -
  have n: "0 < (of_bool a + of_bool b :: nat) \<or> pool (sg_key f) \<noteq> None" using assms(2) by auto
  note r = retain_counted[OF assms(1) n assms(3), unfolded replicate_of_bool of_nat_add of_nat_of_bool]
  from r(1) show "counted (snd (retain f (of_bool a + of_bool b) pool)) (M + (if a then {#sg_key f#} else {#}) + (if b then {#sg_key f#} else {#}))"
    by (simp only: add.assoc)
  from r(2) show "fragmentContent (pf_fragment (fst (retain f (of_bool a + of_bool b) pool))) = fragmentContent f" by simp
qed

lemma applyContent_exact:
  assumes "exact reg" "map_of (reg_connections reg) (sp_connectionId req) = Some c" "applyContent c req ds pending now reg = (r, reg')"
  shows "exact reg' \<and> (\<exists>m. r = Inr m)"
proof (cases "reg' = reg \<and> (\<exists>m. r = Inr m)")
  case False
  let ?ns = "namespace (sp_catalog req) (sp_schema req)" and ?hash = "sp_contentHash req" and ?cid = "sp_connectionId req"
  let ?key = "poolKey ds ?ns ?hash" and ?pool = "reg_pool reg"
  let ?f = "\<lparr>sg_key = ?key, sg_hash = ?hash, sg_columns = sp_columns req, sg_routines = sp_routines req\<rparr>"
  let ?held = "map_of (co_held c) ?ns" and ?ak = "(ds_name ds, ?ns)"
  let ?auth = "map_of (reg_authoritative reg) ?ak"
  let ?hm = "map_option hs_pooledRef ?held \<noteq> Some ?key" and ?am = "map_option au_pooledRef ?auth \<noteq> Some ?key"
  let ?epoch = "wrap64 (reg_epoch reg + 1)"
  let ?a = "\<lparr>au_hash = ?hash, au_pooledRef = ?key, au_epoch = ?epoch, au_lastInspected = now\<rparr>"
  let ?changed = "pr_afterStatement pending \<and> map_option hs_hash ?held \<noteq> Some ?hash"
  let ?h = "\<lparr>hs_pooledRef = ?key, hs_hash = ?hash, hs_lastFetch = now, hs_lastVerified = now, hs_revalidated = None\<rparr>"
  let ?c = "accept ?ns (sp_backendGeneration req) (c\<lparr>co_held := AList.update ?ns ?h (co_held c),
    co_ddl := (if ?changed \<and> ?ns \<notin> set (co_ddl c) then co_ddl c @ [?ns] else co_ddl c)\<rparr>)"
  have cols: "\<not> list_ex (\<lambda>f. fc_catalog f \<noteq> sp_catalog req \<or> fc_schema f \<noteq> sp_schema req) (sp_columns req)"
  proof
    assume bad: "list_ex (\<lambda>f. fc_catalog f \<noteq> sp_catalog req \<or> fc_schema f \<noteq> sp_schema req) (sp_columns req)"
    from assms(3)[unfolded applyContent_def Let_def if_P[OF bad]] False show False by auto
  qed
  have same: "\<not> (case ?pool ?key of None \<Rightarrow> False | Some p \<Rightarrow> fragmentContent (pf_fragment p) \<noteq> fragmentContent ?f)"
  proof
    assume bad: "case ?pool ?key of None \<Rightarrow> False | Some p \<Rightarrow> fragmentContent (pf_fragment p) \<noteq> fragmentContent ?f"
    from assms(3)[unfolded applyContent_def Let_def if_not_P[OF cols] if_P[OF bad]] False show False by auto
  qed
  have pooled: "?hm \<or> ?am \<or> ?pool (sg_key ?f) \<noteq> None"
    using held_pooled[OF assms(1,2), of ?ns] by (cases ?held) auto
  have content: "fragmentContent (pf_fragment p) = fragmentContent ?f" if "?pool (sg_key ?f) = Some p" for p
    using same that by simp
  let ?ret = "retain ?f (of_bool ?hm + of_bool ?am) ?pool"
  note ret = retain_both[OF exact_pool[OF assms(1)] pooled content, unfolded schema_fragment.simps]
  note c1 = ret(1) and kept = ret(2)
  have c2: "refs (putConnection ?cid ?c reg) + (case ?held of None \<Rightarrow> {#} | Some h \<Rightarrow> {#hs_pooledRef h#}) = refs reg + {#?key#}"
    using refs_push[OF assms(2), of ?c ?ns ?h] by (simp add: heldRefs_def)
  from swap_counted[OF c1 c2 refl] obtain pool2
    where pool2: "(case ?held of None \<Rightarrow> Inr (snd ?ret) | Some h \<Rightarrow> releaseIf ?hm (hs_pooledRef h) (snd ?ret)) = Inr pool2"
      and c3: "counted pool2 (refs (putConnection ?cid ?c reg) + (if ?am then {#?key#} else {#}))" by blast
  let ?reg = "reg\<lparr>reg_authoritative := AList.update ?ak ?a (reg_authoritative reg), reg_epoch := ?epoch\<rparr>"
  have c4: "refs (putConnection ?cid ?c ?reg) + (case ?auth of None \<Rightarrow> {#} | Some a \<Rightarrow> {#au_pooledRef a#}) = refs (putConnection ?cid ?c reg) + {#?key#}"
    using msetOver_update[of "\<lambda>a. {#au_pooledRef a#}" ?ak ?a "reg_authoritative reg"] by (simp add: refs_def putConnection_def add.assoc)
  from swap_counted[where E = "{#}", OF _ c4 refl, of pool2] c3 obtain pool3
    where pool3: "(case ?auth of None \<Rightarrow> Inr pool2 | Some a \<Rightarrow> releaseIf ?am (au_pooledRef a) pool2) = Inr pool3"
      and c5: "counted pool3 (refs (putConnection ?cid ?c ?reg))" by auto
  have "applyContent c req ds pending now reg = (Inr (Applied (co_generation ?c) (?changed \<or> pr_afterCommit pending)),
      putConnection ?cid ?c (reg\<lparr>reg_pool := pool3, reg_authoritative := AList.update ?ak ?a (reg_authoritative reg), reg_epoch := ?epoch\<rparr>))"
    unfolding applyContent_def Let_def if_not_P[OF cols] if_not_P[OF same] case_prod_beta
    by (simp only: kept simp_thms if_False pool2 rbind_Inr pool3 sum.case)
  with assms(3) have "r = Inr (Applied (co_generation ?c) (?changed \<or> pr_afterCommit pending)) \<and>
      reg' = putConnection ?cid ?c (reg\<lparr>reg_pool := pool3, reg_authoritative := AList.update ?ak ?a (reg_authoritative reg), reg_epoch := ?epoch\<rparr>)"
    by (simp only: prod.inject)
  moreover have "refs (putConnection ?cid ?c (reg\<lparr>reg_pool := pool3, reg_authoritative := AList.update ?ak ?a (reg_authoritative reg), reg_epoch := ?epoch\<rparr>)) =
      refs (putConnection ?cid ?c ?reg)" by (simp add: refs_def putConnection_def)
  ultimately show ?thesis using c5 assms(1) by (simp add: exact_def putConnection_def distinct_update)
qed (use assms(1) in auto)

lemma applyPush_exact:
  assumes "exact reg" "applyPush req ds now reg = (r, reg')"
  shows "exact reg' \<and> (r = Inl InvalidCatalog \<or> (\<exists>m. r = Inr m))"
proof (cases "map_of (reg_connections reg) (sp_connectionId req)")
  case (Some c)
  let ?c = "c\<lparr>co_lastUsed := now\<rparr>" and ?reg = "putConnection (sp_connectionId req) (c\<lparr>co_lastUsed := now\<rparr>) reg"
  have ex: "exact ?reg" using assms(1) Some by (rule exact_put) (simp add: heldRefs_def)
  have c: "map_of (reg_connections ?reg) (sp_connectionId req) = Some ?c" by (simp add: putConnection_def update_conv')
  have r: "applyPushLocked ?c req ds now ?reg = (r, reg')" using assms(2)
    by (cases "applyPushLocked ?c req ds now ?reg") (simp add: applyPush_def withConnection_def Some)
  show ?thesis
  proof (cases "checkPush ?c req ds")
    case (Inl e)
    have "e = Inl InvalidCatalog \<or> (\<exists>m. e = Inr m)"
      using Inl by (auto simp: checkPush_def effectiveCatalog_def Let_def split: if_splits option.splits sum.splits)
    with Inl r ex show ?thesis by (auto simp: applyPushLocked_def)
  next
    case (Inr pending)
    with r have "(if sp_unchanged req then applyUnchanged else applyContent) ?c req ds pending now ?reg = (r, reg')" by (simp add: applyPushLocked_def)
    with applyUnchanged_exact[OF ex c] applyContent_exact[OF ex c] show ?thesis by (auto split: if_splits)
  qed
qed (use assms in \<open>auto simp: applyPush_def withConnection_def\<close>)

lemma applyCatalogPush_exact: "exact reg \<Longrightarrow> exact (snd (applyCatalogPush ds columns routines now reg))"
proof -
  have keep: "msetOver (\<lambda>a. {#au_pooledRef a#}) (map (\<lambda>e. if P e then (fst e, (snd e)\<lparr>au_lastInspected := t e\<rparr>) else e) al) =
      msetOver (\<lambda>a. {#au_pooledRef a#}) al"
    "map fst (map (\<lambda>e. if P e then (fst e, (snd e)\<lparr>au_lastInspected := t e\<rparr>) else e) al) = map fst al"
    for P t and al :: "((string \<times> object_ref) \<times> authoritative) list"
    by (induction al) auto
  assume "exact reg"
  then show ?thesis unfolding applyCatalogPush_def Let_def exact_def refs_def snd_conv by (simp add: keep del: map_map)
qed

lemma msetOver_split: "msetOver g al = msetOver g (filter P al) + msetOver g (filter (\<lambda>e. \<not> P e) al)"
  by (induction al) (auto simp: add_ac)

lemma invalidateDatasource_exact:
  assumes "exact reg" "invalidateDatasource ds reg = (r, reg')"
  shows "exact reg' \<and> (\<exists>m. r = Inr m)"
proof -
  let ?g = "\<lambda>a. {#au_pooledRef a#}" and ?P = "\<lambda>e :: (string \<times> object_ref) \<times> authoritative. fst (fst e) = ds"
  let ?rest = "msetOver heldRefs (reg_connections reg) + msetOver ?g (filter (\<lambda>e. \<not> ?P e) (reg_authoritative reg))"
  have "refs reg = mset (map (au_pooledRef \<circ> snd) (filter ?P (reg_authoritative reg))) + ?rest"
    using msetOver_split[of ?g "reg_authoritative reg" ?P] by (simp add: refs_def msetOver_single add_ac)
  with exact_pool[OF assms(1)] obtain pool where
    "releaseAll (map (au_pooledRef \<circ> snd) (filter ?P (reg_authoritative reg))) (reg_pool reg) = Inr pool" "counted pool ?rest"
    using releaseAll_counted by metis
  with assms show ?thesis
    by (auto simp: invalidateDatasource_def Let_def case_prod_unfold exact_def refs_def distinct_map_filter)
qed

lemma dropConnection_exact:
  assumes "exact reg" "map_of (reg_connections reg) cid = Some c"
  shows "\<exists>reg'. dropConnection cid c reg = Inr reg' \<and> exact reg' \<and> reg_connections reg' = AList.delete cid (reg_connections reg)"
proof -
  let ?conns = "AList.delete cid (reg_connections reg)"
  let ?rest = "msetOver heldRefs ?conns + msetOver (\<lambda>a. {#au_pooledRef a#}) (reg_authoritative reg)"
  have "msetOver heldRefs ?conns + heldRefs c = msetOver heldRefs (reg_connections reg)"
    using msetOver_delete[of "reg_connections reg" heldRefs cid] assms by (simp add: exact_def)
  then have "refs reg = mset (map (hs_pooledRef \<circ> snd) (co_held c)) + ?rest"
    unfolding refs_def heldRefs_mset[symmetric] by (simp only: add_ac flip: \<open>_ = msetOver heldRefs (reg_connections reg)\<close>)
  with exact_pool[OF assms(1)] obtain pool where "releaseAll (map (hs_pooledRef \<circ> snd) (co_held c)) (reg_pool reg) = Inr pool" "counted pool ?rest"
    using releaseAll_counted by metis
  with assms(1) show ?thesis by (simp add: dropConnection_def exact_def refs_def distinct_delete)
qed

lemma closeRegistry_exact: "exact reg \<Longrightarrow> closeRegistry cid ds reg = (r, reg') \<Longrightarrow> exact reg' \<and> (\<exists>m. r = Inr m)"
  using dropConnection_exact[of reg cid]
  by (cases "map_of (reg_connections reg) cid") (auto simp: closeRegistry_def split: if_splits sum.splits)

lemma dropAll_exact:
  assumes "exact reg" "distinct (map fst cs)" "\<forall>(cid, c)\<in>set cs. map_of (reg_connections reg) cid = Some c"
  shows "\<exists>reg'. dropAll cs reg = Inr reg' \<and> exact reg'"
  using assms
proof (induction cs arbitrary: reg)
  case (Cons p cs)
  obtain cid c where p: "p = (cid, c)" by (cases p)
  from dropConnection_exact[of reg cid c] Cons.prems obtain reg1 where r: "dropConnection cid c reg = Inr reg1" "exact reg1"
    "reg_connections reg1 = AList.delete cid (reg_connections reg)" by (auto simp: p)
  have "\<forall>(i, d)\<in>set cs. map_of (reg_connections reg1) i = Some d"
    using Cons.prems(2,3) by (force simp: p r(3) AList.delete_conv')
  with Cons.IH[OF r(2)] Cons.prems(2) r(1) show ?case by (simp add: p)
qed simp

lemma sweepIdle_exact:
  assumes "exact reg" "sweepIdle maxIdle now reg = (r, reg')"
  shows "exact reg' \<and> (\<exists>m. r = Inr m)"
proof -
  let ?idle = "filter (\<lambda>(cid, c). co_lastUsed c < wrap64 (now - wrap64 (maxIdle * 1000000))) (reg_connections reg)"
  have d: "distinct (map fst (reg_connections reg))" using assms(1) by (simp add: exact_def)
  have "\<forall>(cid, c)\<in>set ?idle. map_of (reg_connections reg) cid = Some c" using d by auto
  with dropAll_exact[OF assms(1), of ?idle] d obtain reg1 where "dropAll ?idle reg = Inr reg1" "exact reg1" by (auto simp: distinct_map_filter)
  with assms(2) show ?thesis by (auto simp: sweepIdle_def Let_def)
qed

subsection \<open>Sequences of operations\<close>

datatype catalog_op =
  Open "bytes list" binding "object_ref list" bool int64
| Recover bytes binding "object_ref list" bool int64
| Push fragment_push datasource_row int64
| CatalogPush string "object_ref \<Rightarrow> fragment_column list" "object_ref \<Rightarrow> string list" int64
| Invalidate string
| Close bytes string
| Sweep int64 int64
| BeforeDecide bytes "object_ref list" int64
| CatalogMiss bytes "object_ref list" int64
| AfterStatement bytes "object_ref list" int64
| AfterCommit bytes int64
| ClearDdl bytes int64

definition errorOf :: "(catalog_error, 'a) result \<times> registry \<Rightarrow> catalog_error list \<times> registry" where
  "errorOf r = (case fst r of Inl e \<Rightarrow> [e] | Inr _ \<Rightarrow> [], snd r)"

definition marking :: "bytes \<Rightarrow> int64 \<Rightarrow> (registry \<Rightarrow> connection \<Rightarrow> connection) \<Rightarrow> registry \<Rightarrow> catalog_error list \<times> registry" where
  "marking cid now mark reg = ([], snd (withConnection cid now (\<lambda>c r. ((), putConnection cid (mark r c) r)) reg))"

fun runOp :: "catalog_op \<Rightarrow> registry \<Rightarrow> catalog_error list \<times> registry" where
  "runOp (Open cids b schemas adopt now) reg = ([], case openRegistry cids b schemas adopt now reg of None \<Rightarrow> reg | Some (_, reg') \<Rightarrow> reg')"
| "runOp (Recover cid b schemas adopt now) reg = ([], snd (recover cid b schemas adopt now reg))"
| "runOp (Push req ds now) reg = errorOf (applyPush req ds now reg)"
| "runOp (CatalogPush ds columns routines now) reg = ([], snd (applyCatalogPush ds columns routines now reg))"
| "runOp (Invalidate ds) reg = errorOf (invalidateDatasource ds reg)"
| "runOp (Close cid ds) reg = errorOf (closeRegistry cid ds reg)"
| "runOp (Sweep maxIdle now) reg = errorOf (sweepIdle maxIdle now reg)"
| "runOp (BeforeDecide cid schemas now) reg = marking cid now (\<lambda>r c. snd (markBeforeDecide r schemas c)) reg"
| "runOp (CatalogMiss cid schemas now) reg = marking cid now (\<lambda>r c. snd (markCatalogMiss r schemas c)) reg"
| "runOp (AfterStatement cid schemas now) reg = marking cid now (\<lambda>r c. snd (markAfterStatement r schemas c)) reg"
| "runOp (AfterCommit cid now) reg = marking cid now (\<lambda>r c. snd (markAfterCommit r c)) reg"
| "runOp (ClearDdl cid now) reg = marking cid now (\<lambda>r. clearDdlSinceLastCommit) reg"

fun runOps :: "catalog_op list \<Rightarrow> registry \<Rightarrow> catalog_error list \<times> registry" where
  "runOps [] reg = ([], reg)"
| "runOps (x # xs) reg = (case runOp x reg of (es, reg1) \<Rightarrow> (case runOps xs reg1 of (fs, reg2) \<Rightarrow> (es @ fs, reg2)))"

lemma markPending_held [simp]: "co_held (snd (markPending mark create schemas c)) = co_held c"
proof -
  have "co_held (snd (fold (\<lambda>schema (cmds, c1).
      let pending = mark (case map_of (co_pending c1) schema of Some p \<Rightarrow> p | None \<Rightarrow> create schema)
      in (cmds @ [refetchOf schema (pr_expected pending)], c1\<lparr>co_pending := AList.update schema pending (co_pending c1)\<rparr>)) ss (cmds, d))) = co_held d"
    for ss cmds d
    by (induction ss arbitrary: cmds d) (simp_all add: Let_def)
  then show ?thesis by (simp add: markPending_def)
qed

lemma mark_held [simp]:
  "co_held (snd (markBeforeDecide r schemas c)) = co_held c" "co_held (snd (markCatalogMiss r schemas c)) = co_held c"
  "co_held (snd (markAfterStatement r schemas c)) = co_held c" "co_held (snd (markAfterCommit r c)) = co_held c"
  "co_held (clearDdlSinceLastCommit c) = co_held c"
  by (simp_all add: markBeforeDecide_def markCatalogMiss_def markAfterStatement_def markAfterCommit_def clearDdlSinceLastCommit_def)

lemma marking_exact:
  assumes "exact reg" "\<And>r c. co_held (mark r c) = co_held c"
  shows "exact (snd (marking cid now mark reg))"
proof (cases "map_of (reg_connections reg) cid")
  case (Some c)
  let ?c = "c\<lparr>co_lastUsed := now\<rparr>"
  have "exact (putConnection cid ?c reg)" using assms(1) Some by (rule exact_put) (simp add: heldRefs_def)
  then have "exact (putConnection cid (mark (putConnection cid ?c reg) ?c) (putConnection cid ?c reg))"
    by (rule exact_put[where c = ?c]) (simp_all add: putConnection_def update_conv' heldRefs_def assms(2))
  with Some show ?thesis by (simp add: marking_def withConnection_def)
qed (simp add: marking_def withConnection_def assms(1))

lemma errorOf_exact:
  assumes "\<And>r reg'. p = (r, reg') \<Longrightarrow> exact reg' \<and> (r = Inl InvalidCatalog \<or> (\<exists>m. r = Inr m))"
  shows "exact (snd (errorOf p)) \<and> set (fst (errorOf p)) \<subseteq> {InvalidCatalog}"
  using assms[of "fst p" "snd p"] by (auto simp: errorOf_def)

lemma runOp_exact:
  assumes "exact reg"
  shows "exact (snd (runOp x reg)) \<and> set (fst (runOp x reg)) \<subseteq> {InvalidCatalog}"
proof (cases x)
  case (Open cids b schemas adopt now)
  then show ?thesis using openRegistry_exact[OF _ assms, of cids b schemas adopt now] assms by (auto split: option.splits)
next
  case (Recover cid b schemas adopt now)
  then show ?thesis using recover_exact[OF assms] by simp
next
  case (CatalogPush ds columns routines now)
  then show ?thesis using applyCatalogPush_exact[OF assms] by simp
next
  case (Push req ds now)
  show ?thesis unfolding Push runOp.simps by (rule errorOf_exact) (use applyPush_exact[OF assms] in blast)
next
  case (Invalidate ds)
  show ?thesis unfolding Invalidate runOp.simps by (rule errorOf_exact) (use invalidateDatasource_exact[OF assms] in blast)
next
  case (Close cid ds)
  show ?thesis unfolding Close runOp.simps by (rule errorOf_exact) (use closeRegistry_exact[OF assms] in blast)
next
  case (Sweep maxIdle now)
  show ?thesis unfolding Sweep runOp.simps by (rule errorOf_exact) (use sweepIdle_exact[OF assms] in blast)
qed (simp_all add: marking_exact[OF assms] fst_conv, simp_all add: marking_def)

lemma runOps_exact: "exact reg \<Longrightarrow> exact (snd (runOps xs reg)) \<and> set (fst (runOps xs reg)) \<subseteq> {InvalidCatalog}"
proof (induction xs arbitrary: reg)
  case (Cons x xs)
  obtain es reg1 where x: "runOp x reg = (es, reg1)" by (cases "runOp x reg")
  from runOp_exact[OF Cons.prems, of x] Cons.IH[of reg1] show ?case by (auto simp: x split: prod.splits)
qed simp

lemma exact_counts: "exact reg \<Longrightarrow> map_option pf_refCount (reg_pool reg k) = (if k \<in># refs reg then Some (int (count (refs reg) k)) else None)"
  using counted_None[OF exact_pool, of reg k] counted_Some[OF exact_pool, of reg k] by (cases "reg_pool reg k") auto

subsection \<open>What an accepted push did\<close>

lemma release_fragment:
  assumes "releaseIf b k pool = Inr pool'" "pool' j = Some p'"
  shows "\<exists>p. pool j = Some p \<and> pf_fragment p = pf_fragment p'"
  using assms by (auto simp: releaseIf_def release_def split: if_splits option.splits)

lemma touch_Applied:
  assumes "applyPush req ds now reg = (Inr (Applied g b), reg')"
  obtains c pending where "map_of (reg_connections reg) (sp_connectionId req) = Some c"
    "checkPush (c\<lparr>co_lastUsed := now\<rparr>) req ds = Inr pending"
    "(if sp_unchanged req then applyUnchanged else applyContent) (c\<lparr>co_lastUsed := now\<rparr>) req ds pending now
       (putConnection (sp_connectionId req) (c\<lparr>co_lastUsed := now\<rparr>) reg) = (Inr (Applied g b), reg')"
proof (cases "map_of (reg_connections reg) (sp_connectionId req)")
  case (Some c)
  let ?c = "c\<lparr>co_lastUsed := now\<rparr>" and ?reg = "putConnection (sp_connectionId req) (c\<lparr>co_lastUsed := now\<rparr>) reg"
  have r: "applyPushLocked ?c req ds now ?reg = (Inr (Applied g b), reg')" using assms
    by (cases "applyPushLocked ?c req ds now ?reg") (simp add: applyPush_def withConnection_def Some)
  show ?thesis
  proof (cases "checkPush ?c req ds")
    case (Inl e)
    then have "\<nexists>g b. e = Inr (Applied g b)"
      by (auto simp: checkPush_def Let_def split: if_splits option.splits sum.splits)
    with Inl r show ?thesis by (cases e) (auto simp: applyPushLocked_def)
  next
    case (Inr pending)
    with r that[OF Some Inr] show ?thesis by (simp add: applyPushLocked_def)
  qed
qed (use assms in \<open>simp add: applyPush_def withConnection_def\<close>)

lemma checkPush_Inr:
  assumes "checkPush c req ds = Inr pending"
  shows "sp_datasource req = bi_datasource (co_binding c)" "sp_datasource req = ds_name ds"
    "map_of (co_pending c) (namespace (sp_catalog req) (sp_schema req)) = Some pending" "dw_currentCatalog ds = Some (sp_catalog req)"
    "0 \<le> sp_backendGeneration req" "list_all (\<lambda>bound. bound \<le> sp_backendGeneration req) (case co_backendGeneration c of None \<Rightarrow> [] | Some b \<Rightarrow> [b])"
  using assms by (auto simp: checkPush_def Let_def effectiveCatalog_def split: if_splits option.splits sum.splits)

text \<open>What both kinds of push leave of the connection.\<close>

definition pushed :: "fragment_push \<Rightarrow> int64 \<Rightarrow> connection \<Rightarrow> connection \<Rightarrow> bool" where
  "pushed req now c c' \<longleftrightarrow>
    (let ns = namespace (sp_catalog req) (sp_schema req)
     in (\<exists>h. map_of (co_held c') = (map_of (co_held c))(ns \<mapsto> h) \<and> hs_hash h = sp_contentHash req \<and> hs_lastVerified h = now) \<and>
        map_of (co_pending c') = (map_of (co_pending c))(ns := None) \<and> co_generation c' = wrap64 (co_generation c + 1) \<and>
        co_backendGeneration c' = Some (sp_backendGeneration req) \<and> co_binding c' = co_binding c)"

lemma accept_backend:
  assumes "list_all (\<lambda>bound. bound \<le> g) (case co_backendGeneration c of None \<Rightarrow> [] | Some b \<Rightarrow> [b])"
  shows "co_backendGeneration (accept ns g c) = Some g"
  using assms by (auto simp: accept_def split: option.splits)

lemma pushedI:
  assumes "checkPush c req ds = Inr pending" "hs_hash h = sp_contentHash req" "hs_lastVerified h = now"
    and "d = c\<lparr>co_held := AList.update (namespace (sp_catalog req) (sp_schema req)) h (co_held c), co_ddl := ddl\<rparr>"
  shows "pushed req now c (accept (namespace (sp_catalog req) (sp_schema req)) (sp_backendGeneration req) d)"
  using checkPush_Inr(6)[OF assms(1)] assms(2-)
  by (auto simp: pushed_def Let_def accept_def update_conv' AList.delete_conv' split: option.splits)

lemma applyUnchanged_Applied:
  assumes "applyUnchanged c req ds pending now reg = (Inr (Applied g b), reg')" "checkPush c req ds = Inr pending"
  shows "pr_expected pending = Some (sp_contentHash req)"
    "\<exists>c'. map_of (reg_connections reg') (sp_connectionId req) = Some c' \<and> pushed req now c c' \<and> g = co_generation c'"
    "reg_authoritative reg' = reg_authoritative reg"
proof -
  let ?ns = "namespace (sp_catalog req) (sp_schema req)"
  from assms(1) show e: "pr_expected pending = Some (sp_contentHash req)"
    by (cases "pr_expected pending") (auto simp: applyUnchanged_def Let_def split: if_splits)
  let ?key = "poolKey ds ?ns (sp_contentHash req)" and ?prev = "map_of (co_held c) ?ns"
  from assms(1) obtain p where p: "reg_pool reg ?key = Some p" by (cases "reg_pool reg ?key") (auto simp: applyUnchanged_def Let_def e)
  let ?h = "\<lparr>hs_pooledRef = ?key, hs_hash = sp_contentHash req, hs_lastFetch = (case ?prev of None \<Rightarrow> 0 | Some h \<Rightarrow> hs_lastFetch h),
    hs_lastVerified = now, hs_revalidated = pr_authoritativeAtIssue pending\<rparr>"
  let ?c = "accept ?ns (sp_backendGeneration req) (c\<lparr>co_held := AList.update ?ns ?h (co_held c)\<rparr>)"
  from assms(1) obtain pool2 where r: "reg' = putConnection (sp_connectionId req) ?c (reg\<lparr>reg_pool := pool2\<rparr>)" "g = co_generation ?c"
    unfolding applyUnchanged_def Let_def e option.case p by (auto split: sum.splits)
  have "pushed req now c ?c" using assms(2) by (rule pushedI[where ddl = "co_ddl c"]) simp_all
  then show "\<exists>c'. map_of (reg_connections reg') (sp_connectionId req) = Some c' \<and> pushed req now c c' \<and> g = co_generation c'"
    by (simp add: r putConnection_def update_conv')
  show "reg_authoritative reg' = reg_authoritative reg" by (simp add: r)
qed

lemma optional_release:
  "(case u of None \<Rightarrow> Inr pool1 | Some h \<Rightarrow> releaseIf b (f h) pool1) = Inr pool2 \<Longrightarrow> pool2 j = Some p \<Longrightarrow> \<exists>q. pool1 j = Some q \<and> pf_fragment q = pf_fragment p"
  by (cases u) (auto dest: release_fragment)

lemma optional_releases:
  assumes "rbind (case u of None \<Rightarrow> Inr pool1 | Some h \<Rightarrow> releaseIf a (f h) pool1)
      (\<lambda>pool2. case v of None \<Rightarrow> Inr pool2 | Some x \<Rightarrow> releaseIf b (k x) pool2) = Inr pool3" "pool3 j = Some p"
  shows "\<exists>q. pool1 j = Some q \<and> pf_fragment q = pf_fragment p"
proof -
  from assms(1)[unfolded rbind_eq_Inr_iff] obtain pool2 where u: "(case u of None \<Rightarrow> Inr pool1 | Some h \<Rightarrow> releaseIf a (f h) pool1) = Inr pool2"
    and v: "(case v of None \<Rightarrow> Inr pool2 | Some x \<Rightarrow> releaseIf b (k x) pool2) = Inr pool3" by blast
  from optional_release[OF v assms(2)] obtain q where "pool2 j = Some q" "pf_fragment q = pf_fragment p" by blast
  with optional_release[OF u this(1)] show ?thesis by simp
qed

lemma applyContent_Applied:
  assumes "applyContent c req ds pending now reg = (Inr (Applied g b), reg')" "checkPush c req ds = Inr pending"
  shows "\<exists>c' h. map_of (reg_connections reg') (sp_connectionId req) = Some c' \<and> pushed req now c c' \<and> g = co_generation c' \<and>
    map_of (co_held c') (namespace (sp_catalog req) (sp_schema req)) = Some h \<and>
    (\<forall>p. reg_pool reg' (hs_pooledRef h) = Some p \<longrightarrow> fragmentContent (pf_fragment p) = (sp_columns req, sp_routines req))"
proof -
  let ?ns = "namespace (sp_catalog req) (sp_schema req)" and ?hash = "sp_contentHash req"
  let ?key = "poolKey ds ?ns ?hash" and ?held = "map_of (co_held c) ?ns"
  let ?f = "\<lparr>sg_key = ?key, sg_hash = ?hash, sg_columns = sp_columns req, sg_routines = sp_routines req\<rparr>"
  let ?auth = "map_of (reg_authoritative reg) (ds_name ds, ?ns)"
  let ?hm = "map_option hs_pooledRef ?held \<noteq> Some ?key" and ?am = "map_option au_pooledRef ?auth \<noteq> Some ?key"
  let ?ret = "retain ?f (of_bool ?hm + of_bool ?am) (reg_pool reg)"
  let ?h = "\<lparr>hs_pooledRef = ?key, hs_hash = ?hash, hs_lastFetch = now, hs_lastVerified = now, hs_revalidated = None\<rparr>"
  let ?ddl = "if (pr_afterStatement pending \<and> map_option hs_hash ?held \<noteq> Some ?hash) \<and> ?ns \<notin> set (co_ddl c) then co_ddl c @ [?ns] else co_ddl c"
  let ?c = "accept ?ns (sp_backendGeneration req) (c\<lparr>co_held := AList.update ?ns ?h (co_held c), co_ddl := ?ddl\<rparr>)"
  let ?rel = "rbind (case ?held of None \<Rightarrow> Inr (snd ?ret) | Some h \<Rightarrow> releaseIf ?hm (hs_pooledRef h) (snd ?ret))
    (\<lambda>pool2. case ?auth of None \<Rightarrow> Inr pool2 | Some a \<Rightarrow> releaseIf ?am (au_pooledRef a) pool2)"
  have kept: "fragmentContent (pf_fragment (fst ?ret)) = fragmentContent ?f"
    and "\<exists>pool3 auths epoch. ?rel = Inr pool3 \<and> g = co_generation ?c \<and>
      reg' = putConnection (sp_connectionId req) ?c (reg\<lparr>reg_pool := pool3, reg_authoritative := auths, reg_epoch := epoch\<rparr>)"
    using assms(1) unfolding applyContent_def Let_def case_prod_beta
    by (simp_all only: split: if_splits sum.splits) auto
  then obtain pool3 auths epoch where rel: "?rel = Inr pool3" and g: "g = co_generation ?c"
    and reg': "reg' = putConnection (sp_connectionId req) ?c (reg\<lparr>reg_pool := pool3, reg_authoritative := auths, reg_epoch := epoch\<rparr>)" by blast
  have "\<exists>q. snd ?ret ?key = Some q \<and> pf_fragment q = pf_fragment p" if "pool3 ?key = Some p" for p
    using optional_releases[OF rel that] .
  moreover have "snd ?ret ?key = Some (fst ?ret)" by (simp add: retain_def Let_def)
  ultimately have "fragmentContent (pf_fragment p) = (sp_columns req, sp_routines req)" if "pool3 ?key = Some p" for p
    using kept that by (fastforce simp: fragmentContent_def)
  moreover have "pushed req now c ?c" using assms(2) by (rule pushedI[where ddl = ?ddl]) simp_all
  moreover have "map_of (reg_connections reg') (sp_connectionId req) = Some ?c" "map_of (co_held ?c) ?ns = Some ?h" "reg_pool reg' = pool3"
    by (simp_all add: reg' putConnection_def update_conv')
  ultimately show ?thesis unfolding g by (intro exI[of _ ?c] exI[of _ ?h] conjI) simp_all
qed

subsection \<open>Properties\<close>

text \<open>
  C14: reference counts are exact. After any sequence of openings, recoveries, pushes, whole-catalog pushes,
  refetch marks, deletions, closings and sweeps from the empty registry, the pool holds exactly the
  fragments some connection holds or some datasource is known to have, each with the number of these
  references as its count; no count ever underflows, and the only error is a datasource without a catalog.
\<close>

theorem refcounts_exact:
  "let (errors, reg) = runOps ops (emptyRegistry staleness)
   in set errors \<subseteq> {InvalidCatalog} \<and> dom (reg_pool reg) = set_mset (refs reg) \<and>
     (\<lambda>k. map_option pf_refCount (reg_pool reg k)) = (\<lambda>k. if k \<in># refs reg then Some (int (count (refs reg) k)) else None)"
proof -
  obtain errors reg where r: "runOps ops (emptyRegistry staleness) = (errors, reg)" by (cases "runOps ops (emptyRegistry staleness)")
  from runOps_exact[OF exact_empty, of ops staleness] have "exact reg" "set errors \<subseteq> {InvalidCatalog}" by (simp_all add: r)
  moreover have "dom (reg_pool reg) = set_mset (refs reg)" using counted_None[OF exact_pool[OF \<open>exact reg\<close>]] by (auto simp: dom_def)
  ultimately show ?thesis using exact_counts[of reg] by (simp add: r)
qed

text \<open>
  C15: a push changes a catalog only as asked. An accepted push comes for the datasource the connection is
  bound to, answers a refetch pending for that very schema, under a target connection not older than the
  last; then the schema is held under the pushed hash and verified now, the refetch is settled, the
  generation of the connection is the one acknowledged, and the pool has the pushed content under that
  hash. An accepted push that claims nothing changed names the hash the refetch expected.
\<close>

theorem accepted_push:
  assumes "exact reg" "applyPush req ds now reg = (Inr (Applied g refresh), reg')"
  shows "\<exists>c c' pending h p. map_of (reg_connections reg) (sp_connectionId req) = Some c \<and>
    sp_datasource req = bi_datasource (co_binding c) \<and> sp_datasource req = ds_name ds \<and> dw_currentCatalog ds = Some (sp_catalog req) \<and>
    map_of (co_pending c) (namespace (sp_catalog req) (sp_schema req)) = Some pending \<and>
    list_all (\<lambda>bound. bound \<le> sp_backendGeneration req) (case co_backendGeneration c of None \<Rightarrow> [] | Some b \<Rightarrow> [b]) \<and>
    map_of (reg_connections reg') (sp_connectionId req) = Some c' \<and> pushed req now c c' \<and> g = co_generation c' \<and>
    map_of (co_held c') (namespace (sp_catalog req) (sp_schema req)) = Some h \<and> reg_pool reg' (hs_pooledRef h) = Some p \<and>
    (if sp_unchanged req then pr_expected pending = Some (sp_contentHash req)
     else fragmentContent (pf_fragment p) = (sp_columns req, sp_routines req))"
proof -
  let ?ns = "namespace (sp_catalog req) (sp_schema req)"
  from touch_Applied[OF assms(2)] obtain c pending where c: "map_of (reg_connections reg) (sp_connectionId req) = Some c"
    and k: "checkPush (c\<lparr>co_lastUsed := now\<rparr>) req ds = Inr pending"
    and a: "(if sp_unchanged req then applyUnchanged else applyContent) (c\<lparr>co_lastUsed := now\<rparr>) req ds pending now
       (putConnection (sp_connectionId req) (c\<lparr>co_lastUsed := now\<rparr>) reg) = (Inr (Applied g refresh), reg')" by blast
  have touch: "pushed req now (c\<lparr>co_lastUsed := now\<rparr>) c' = pushed req now c c'" for c' by (simp add: pushed_def)
  have "\<exists>c' h. map_of (reg_connections reg') (sp_connectionId req) = Some c' \<and> pushed req now c c' \<and> g = co_generation c' \<and>
      map_of (co_held c') ?ns = Some h \<and> (if sp_unchanged req then pr_expected pending = Some (sp_contentHash req)
        else \<forall>p. reg_pool reg' (hs_pooledRef h) = Some p \<longrightarrow> fragmentContent (pf_fragment p) = (sp_columns req, sp_routines req))"
  proof (cases "sp_unchanged req")
    case True
    from a[unfolded if_P[OF True]] have u: "pr_expected pending = Some (sp_contentHash req)"
      "\<exists>c'. map_of (reg_connections reg') (sp_connectionId req) = Some c' \<and> pushed req now (c\<lparr>co_lastUsed := now\<rparr>) c' \<and> g = co_generation c'"
      using k by (rule applyUnchanged_Applied)+
    from u obtain c' where "map_of (reg_connections reg') (sp_connectionId req) = Some c'" "pushed req now c c'"
      "g = co_generation c'" "pr_expected pending = Some (sp_contentHash req)" unfolding touch by blast
    moreover from this(2) obtain h where "map_of (co_held c') ?ns = Some h" by (auto simp: pushed_def Let_def)
    ultimately show ?thesis using True by auto
  next
    case False
    from applyContent_Applied[OF a[unfolded if_not_P[OF False]] k] False show ?thesis by (simp add: touch)
  qed
  then obtain c' h where c': "map_of (reg_connections reg') (sp_connectionId req) = Some c'" "pushed req now c c'" "g = co_generation c'"
    and h: "map_of (co_held c') ?ns = Some h" and content: "if sp_unchanged req then pr_expected pending = Some (sp_contentHash req)
        else \<forall>p. reg_pool reg' (hs_pooledRef h) = Some p \<longrightarrow> fragmentContent (pf_fragment p) = (sp_columns req, sp_routines req)" by blast
  have "exact reg'" using applyPush_exact[OF assms] by simp
  from held_pooled[OF this c'(1) h] obtain p where "reg_pool reg' (hs_pooledRef h) = Some p" by blast
  with c' h content c checkPush_Inr[OF k] show ?thesis by (intro exI[of _ c] exI[of _ c'] exI[of _ pending] exI[of _ h] exI[of _ p]) (simp split: if_splits)
qed

text \<open>A connection opened on a datasource with one schema, and the push that answers its refetch.\<close>

definition sampleRow :: datasource_row where
  "sampleRow = \<lparr>ds_name = ''crm'', ds_tags = [], ds_engine = bareEngine, ds_engineVersion = None, dw_currentCatalog = Some ''app'',
     dw_defaultSchemas = [''public''], dw_systemSchemas = [], dw_connectionIndependent = True, dw_checksTargetErrors = False\<rparr>"

definition sampleBinding :: binding where
  "sampleBinding = \<lparr>bi_datasource = ''crm'', bi_principal = ''ann'', bi_tokenKind = ''wire'', bi_catalog = Some ''app'', bi_engine = bareEngine\<rparr>"

definition samplePush :: fragment_push where
  "samplePush = \<lparr>sp_connectionId = [1], sp_datasource = ''crm'', sp_backendGeneration = 3, sp_catalog = ''app'', sp_schema = ''public'',
     sp_contentHash = [7], sp_unchanged = False, sp_columns = [], sp_routines = [''f'']\<rparr>"

definition sampleOpened :: registry where
  "sampleOpened = snd (runOps [Open [[1]] sampleBinding [namespace ''app'' ''public''] True 5] (emptyRegistry DEFAULT_STALENESS_NANOS))"

theorem accepted_push_witness:
  "\<exists>reg' c h p. applyPush samplePush sampleRow 9 sampleOpened = (Inr (Applied 1 False), reg') \<and>
     map_of (reg_connections reg') [1] = Some c \<and> map_of (co_held c) (namespace ''app'' ''public'') = Some h \<and>
     reg_pool reg' (hs_pooledRef h) = Some p \<and> sg_routines (pf_fragment p) = [''f'']"
proof -
  have "exact sampleOpened" unfolding sampleOpened_def using runOps_exact[OF exact_empty] by blast
  moreover have "fst (applyPush samplePush sampleRow 9 sampleOpened) = Inr (Applied 1 False)" by code_simp
  then obtain reg' where r: "applyPush samplePush sampleRow 9 sampleOpened = (Inr (Applied 1 False), reg')"
    by (cases "applyPush samplePush sampleRow 9 sampleOpened") simp
  ultimately show ?thesis using accepted_push[OF _ r] r by (auto simp: samplePush_def fragmentContent_def)
qed

end
