(* ===== verification/AuditWriter.thy ===== *)
theory AuditWriter
  imports Verify Relay "HOL-Library.Sublist"
begin

text \<open>
  The two writers of the audit trail: the Kotlin control plane (\<^verbatim>\<open>AuditCanonical.kt\<close>,
  \<^verbatim>\<open>AuditStore.kt\<close>, \<^verbatim>\<open>AuthAudit.kt\<close>, \<^verbatim>\<open>ManagementAudit.kt\<close>) and the Go one
  (\<^verbatim>\<open>cpgo/audit/audit.go\<close>, \<^verbatim>\<open>cpgo/grpcsvc/grpcsvc.go\<close>), over the tables of
  \<^verbatim>\<open>V4__audit.sql\<close>. They run in transactions that serialise on the row lock of the chain head.
  Both compute the same row hash, and whatever they commit, in any interleaving with failures and
  rollbacks, is a chain that the monitor's verification from genesis finds intact.
\<close>

subsection \<open>Events of the Kotlin control plane\<close>

text \<open>
  A Kotlin string is its UTF-16 units. \<^verbatim>\<open>toByteArray(UTF_8)\<close> writes an unpaired surrogate
  as a question mark. The text of a timestamp is given by what \<^verbatim>\<open>Instant.parse\<close> makes of it.
\<close>

type_synonym kt_string = "nat list"

fun kt_utf8 :: "kt_string \<Rightarrow> string" where
  "kt_utf8 [] = []"
| "kt_utf8 (u # us) =
    (if u < 55296 \<or> 57344 \<le> u then encodeRune u @ kt_utf8 us
     else case us of
       v # vs \<Rightarrow> if u < 56320 \<and> 56320 \<le> v \<and> v < 57344
                then encodeRune ((u - 55296) * 1024 + (v - 56320) + 65536) @ kt_utf8 vs
                else CHR ''?'' # kt_utf8 us
     | [] \<Rightarrow> ''?'')"

record instant_time =
  epochSecond :: int64
  nano :: int64

datatype kt_ts = NoTs | BadTs | Ts instant_time

datatype kt_decision = KtALLOW | KtMASK | KtDENY | KtERROR

definition kt_decision_name :: "kt_decision \<Rightarrow> string" where
  "kt_decision_name d = (case d of KtALLOW \<Rightarrow> ''ALLOW'' | KtMASK \<Rightarrow> ''MASK'' | KtDENY \<Rightarrow> ''DENY'' | KtERROR \<Rightarrow> ''ERROR'')"

record kt_event =
  kt_ts :: kt_ts
  kt_principal :: kt_string
  kt_roles :: "kt_string list"
  kt_datasource :: kt_string
  kt_clientAddr :: "kt_string option"
  kt_statement :: kt_string
  kt_decision :: kt_decision
  kt_failedStage :: "kt_string option"
  kt_effectiveNamespace :: "kt_string list"
  kt_maskedColumns :: "kt_string list"
  kt_piiTouched :: "kt_string list"
  kt_latencyMs :: int64
  kt_detail :: "kt_string option"
  kt_channel :: "kt_string option"
  kt_contextTags :: "kt_string list"
  kt_authzAction :: "kt_string option"
  kt_authzResource :: "kt_string option"
  kt_outcome :: "kt_string option"
  kt_kind :: kt_string
  kt_rowsReturned :: "int64 option"
  kt_bytesReturned :: "int64 option"
  kt_decisionId :: "int64 option"

subsection \<open>The canonical bytes as Kotlin writes them\<close>

text \<open>\<^verbatim>\<open>DataOutputStream.writeInt\<close> and \<^verbatim>\<open>writeLong\<close>: two's complement, high byte first.\<close>

definition kt_writeInt :: "int \<Rightarrow> bytes" where
  "kt_writeInt v = be_bytes 4 (word_of_int v :: 32 word)"

definition kt_writeLong :: "int64 \<Rightarrow> bytes" where
  "kt_writeLong v = be_bytes 8 (word_of_int v :: 64 word)"

definition NULL_LENGTH :: int where "NULL_LENGTH = -1"

definition CHAIN_VERSION :: int where "CHAIN_VERSION = 1"

definition DOMAIN_SEP :: bytes where "DOMAIN_SEP = str_bytes ''pm-audit-event''"

definition kt_writeString :: "kt_string \<Rightarrow> bytes" where
  "kt_writeString v = (let encoded = str_bytes (kt_utf8 v) in kt_writeInt (int (length encoded)) @ encoded)"

definition kt_writeNullableString :: "kt_string option \<Rightarrow> bytes" where
  "kt_writeNullableString v = (case v of None \<Rightarrow> kt_writeInt NULL_LENGTH | Some s \<Rightarrow> kt_writeString s)"

definition kt_writeInt64 :: "int64 \<Rightarrow> bytes" where
  "kt_writeInt64 v = kt_writeInt 8 @ kt_writeLong v"

definition kt_writeNullableInt64 :: "int64 option \<Rightarrow> bytes" where
  "kt_writeNullableInt64 v = (case v of None \<Rightarrow> kt_writeInt NULL_LENGTH | Some i \<Rightarrow> kt_writeInt64 i)"

definition compareTo :: "int \<Rightarrow> int \<Rightarrow> int" where
  "compareTo a b = (if a < b then -1 else if a = b then 0 else 1)"

text \<open>Bytes are signed in Kotlin; the mask \<^verbatim>\<open>and 0xff\<close> reads them as unsigned.\<close>

fun UNSIGNED_UTF8_COMPARATOR :: "bytes \<Rightarrow> bytes \<Rightarrow> int" where
  "UNSIGNED_UTF8_COMPARATOR (x # xs) (y # ys) =
    (let compared = compareTo (uint x) (uint y) in if compared \<noteq> 0 then compared else UNSIGNED_UTF8_COMPARATOR xs ys)"
| "UNSIGNED_UTF8_COMPARATOR xs ys = compareTo (int (length xs)) (int (length ys))"

text \<open>\<^verbatim>\<open>sortedWith\<close> is a stable sort.\<close>

primrec insertWith :: "('a \<Rightarrow> 'a \<Rightarrow> int) \<Rightarrow> 'a \<Rightarrow> 'a list \<Rightarrow> 'a list" where
  "insertWith cmp x [] = [x]"
| "insertWith cmp x (y # ys) = (if cmp x y \<le> 0 then x # y # ys else y # insertWith cmp x ys)"

definition sortedWith :: "('a \<Rightarrow> 'a \<Rightarrow> int) \<Rightarrow> 'a list \<Rightarrow> 'a list" where
  "sortedWith cmp xs = foldr (insertWith cmp) xs []"

definition kt_writeArray :: "kt_string list \<Rightarrow> bool \<Rightarrow> bytes" where
  "kt_writeArray vs srt =
    (let encoded = map (\<lambda>s. str_bytes (kt_utf8 s)) vs;
         ordered = (if srt then sortedWith UNSIGNED_UTF8_COMPARATOR encoded else encoded)
     in kt_writeInt (int (length ordered)) @ concat (map (\<lambda>b. kt_writeInt (int (length b)) @ b) ordered))"

definition kt_fields :: "kt_event \<Rightarrow> int64 \<Rightarrow> bytes" where
  "kt_fields event tsMicros =
     kt_writeString (kt_kind event) @
     kt_writeInt64 tsMicros @
     kt_writeString (kt_principal event) @
     kt_writeArray (kt_roles event) True @
     kt_writeString (kt_datasource event) @
     kt_writeNullableString (kt_clientAddr event) @
     kt_writeString (kt_statement event) @
     kt_writeString (map of_char (kt_decision_name (kt_decision event))) @
     kt_writeNullableString (kt_failedStage event) @
     kt_writeArray (kt_effectiveNamespace event) False @
     kt_writeArray (kt_maskedColumns event) True @
     kt_writeArray (kt_piiTouched event) True @
     kt_writeInt64 (kt_latencyMs event) @
     kt_writeNullableString (kt_detail event) @
     kt_writeNullableString (kt_channel event) @
     kt_writeArray (kt_contextTags event) True @
     kt_writeNullableString (kt_authzAction event) @
     kt_writeNullableString (kt_authzResource event) @
     kt_writeNullableString (kt_outcome event) @
     kt_writeNullableInt64 (kt_rowsReturned event) @
     kt_writeNullableInt64 (kt_bytesReturned event) @
     kt_writeNullableInt64 (kt_decisionId event)"

definition kt_canonical :: "kt_event \<Rightarrow> int64 \<Rightarrow> bytes" where
  "kt_canonical event tsMicros = DOMAIN_SEP @ kt_writeInt CHAIN_VERSION @ kt_fields event tsMicros"

datatype writer_error =
    HeadMissing | HeadHashSize nat | IdOverflow | BadTimestamp | TimestampOverflow | PrevHashSize nat
  | SqlFailed

definition kt_rowHash :: "int64 \<Rightarrow> kt_event \<Rightarrow> int64 \<Rightarrow> bytes \<Rightarrow> (writer_error, bytes) result" where
  "kt_rowHash i event tsMicros prevHash =
    (if length prevHash \<noteq> 32 then Inl (PrevHashSize (length prevHash))
     else Inr (sha256 (DOMAIN_SEP @ kt_writeInt CHAIN_VERSION @ kt_writeLong i @ kt_fields event tsMicros @ prevHash)))"

text \<open>\<^verbatim>\<open>multiplyExact\<close> and \<^verbatim>\<open>addExact\<close> raise where the 64-bit result would wrap.\<close>

definition kt_epochMicros :: "instant_time \<Rightarrow> (writer_error, int64) result" where
  "kt_epochMicros i =
    (let m = epochSecond i * 1000000; t = m + nano i div 1000
     in if \<not> is_int64 m \<or> \<not> is_int64 t then Inl TimestampOverflow else Inr t)"

text \<open>The row that a Kotlin event is stored as: every text column is sent as UTF-8.\<close>

definition storedEvent :: "kt_event \<Rightarrow> int64 \<Rightarrow> audit_event" where
  "storedEvent event tsMicros =
    \<lparr>Kind = kt_utf8 (kt_kind event), TSMicros = tsMicros, Principal = kt_utf8 (kt_principal event),
     Roles = map kt_utf8 (kt_roles event), Datasource = kt_utf8 (kt_datasource event),
     ClientAddr = map_option kt_utf8 (kt_clientAddr event), Statement = kt_utf8 (kt_statement event),
     Decision = kt_decision_name (kt_decision event), FailedStage = map_option kt_utf8 (kt_failedStage event),
     EffectiveNamespace = map kt_utf8 (kt_effectiveNamespace event),
     MaskedColumns = map kt_utf8 (kt_maskedColumns event), PIITouched = map kt_utf8 (kt_piiTouched event),
     LatencyMs = kt_latencyMs event, Detail = map_option kt_utf8 (kt_detail event),
     Channel = map_option kt_utf8 (kt_channel event), ContextTags = map kt_utf8 (kt_contextTags event),
     AuthzAction = map_option kt_utf8 (kt_authzAction event), AuthzResource = map_option kt_utf8 (kt_authzResource event),
     Outcome = map_option kt_utf8 (kt_outcome event), RowsReturned = kt_rowsReturned event,
     BytesReturned = kt_bytesReturned event, DecisionID = kt_decisionId event\<rparr>"

subsection \<open>The two encoders agree\<close>

lemma compareTo_sign: "compareTo a b \<le> 0 \<longleftrightarrow> a \<le> b" "compareTo a b = 0 \<longleftrightarrow> a = b"
  by (auto simp: compareTo_def)

lemma comparator_le: "UNSIGNED_UTF8_COMPARATOR xs ys \<le> 0 \<longleftrightarrow> xs \<le> ys"
  by (induction xs ys rule: UNSIGNED_UTF8_COMPARATOR.induct)
    (auto simp: compareTo_def Let_def word_less_def list_less_def word_uint_eq_iff)

lemma insertWith_insort: "insertWith UNSIGNED_UTF8_COMPARATOR x xs = insort x xs"
  by (induction xs) (simp_all add: comparator_le)

lemma sortedWith_sort: "sortedWith UNSIGNED_UTF8_COMPARATOR xs = sort xs"
  by (simp add: sortedWith_def sort_key_def insertWith_insort[abs_def])

lemma kt_utf8_ascii: "list_all (\<lambda>c. of_char c < (128 :: nat)) s \<Longrightarrow> kt_utf8 (map of_char s) = s"
  by (induction s) (auto simp: encodeRune_def)

lemma kt_write_eqs:
  "kt_writeInt (int n) = writeU32 (word_of_nat n)" "kt_writeInt NULL_LENGTH = writeU32 nullMarker"
  "kt_writeInt64 v = writeInt64 v"
  by (simp_all add: kt_writeInt_def writeU32_def NULL_LENGTH_def nullMarker_def kt_writeInt64_def writeInt64_def
      kt_writeLong_def writeU64_def)

lemma kt_writeString_eq: "kt_writeString v = writeString (kt_utf8 v)"
  by (simp add: kt_writeString_def writeString_def kt_write_eqs)

lemma kt_writeNullable_eq:
  "kt_writeNullableString s = writeNullableString (map_option kt_utf8 s)"
  "kt_writeNullableInt64 v = writeNullableInt64 v"
  by (auto simp: kt_writeNullableString_def writeNullableString_def kt_writeNullableInt64_def writeNullableInt64_def
      kt_write_eqs kt_writeString_eq split: option.splits)

lemma kt_writeArray_eq: "kt_writeArray vs srt = writeArray (map kt_utf8 vs) srt"
  by (simp add: kt_writeArray_def writeArray_def kt_write_eqs sortedWith_sort writeBytes_def[abs_def] Let_def comp_def)

lemma kt_fields_eq: "kt_fields event ts = writeFields (storedEvent event ts)"
proof -
  have "kt_utf8 (map of_char (kt_decision_name d)) = kt_decision_name d" for d
    by (rule kt_utf8_ascii) (simp add: kt_decision_name_def split: kt_decision.split)
  then show ?thesis
    by (simp add: kt_fields_def writeFields_def storedEvent_def kt_writeString_eq kt_writeNullable_eq kt_write_eqs kt_writeArray_eq)
qed

lemma kt_rowHash_eq:
  "kt_rowHash i event ts prev = map_sum (case_canon_error PrevHashSize) id (RowHash i (storedEvent event ts) ChainVersion_const prev)"
  by (simp add: kt_rowHash_def RowHash_def sha256Bytes_def rowPreimage_def kt_fields_eq DOMAIN_SEP_def DomainSep_def
      kt_writeInt_def CHAIN_VERSION_def kt_writeLong_def writeU32_def writeU64_def ChainVersion_const_def)

subsection \<open>The tables\<close>

text \<open>
  The rows of \<^verbatim>\<open>audit_event\<close> in insertion order and the row of \<^verbatim>\<open>audit_chain_head\<close>, if it is
  there, with the tasks of \<^verbatim>\<open>access_request\<close> that a wire decision opened. The migration leaves
  no event and the genesis head.
\<close>

datatype task_status = APPROVED | EXECUTING | EXECUTED | FAILED

record wire_task =
  wt_ID :: int64
  wt_SourceDecision :: int64
  wt_Status :: task_status

record audit_db =
  ad_head :: "(int64 \<times> bytes) option"
  ad_events :: "stored_event list"
  ad_tasks :: "wire_task list"

definition migration_genesis :: bytes where
  "migration_genesis = the (hex_DecodeString ''88d4f4719f26cf7f32839ac30b1d6a94edf3f9133fb75667d1415fff81bbcd08'')"

definition V4_audit :: audit_db where
  "V4_audit = \<lparr>ad_head = Some (0, migration_genesis), ad_events = [], ad_tasks = []\<rparr>"

text \<open>
  A statement runs when the server takes it (\<open>ok\<close>): the connection may be lost, or a value may be
  refused. An insert must also have a fresh primary key and a decision id that refers to a row.
\<close>

definition sqlInsert :: "bool \<Rightarrow> stored_event \<Rightarrow> audit_db \<Rightarrow> audit_db option" where
  "sqlInsert ok e db =
    (let ids = se_ID ` set (ad_events db)
     in if ok \<and> se_ID e \<notin> ids \<and> pred_option (\<lambda>d. d \<in> insert (se_ID e) ids) (DecisionID (se_Event e))
        then Some (db\<lparr>ad_events := ad_events db @ [e]\<rparr>) else None)"

definition sqlAdvance :: "bool \<Rightarrow> int64 \<Rightarrow> bytes \<Rightarrow> audit_db \<Rightarrow> audit_db option" where
  "sqlAdvance ok i h db = (if ok then Some (db\<lparr>ad_head := map_option (\<lambda>r. (i, h)) (ad_head db)\<rparr>) else None)"

text \<open>Which of the three statements of an append the server takes, and the clock.\<close>

record append_env =
  ok_lock :: bool
  ok_insert :: bool
  ok_advance :: bool
  clock :: instant_time

subsection \<open>The Go writer\<close>

text \<open>
  \<^verbatim>\<open>list\<close> marshals an array to JSON, which replaces what is not valid UTF-8; the column reads back
  as the coerced elements.
\<close>

definition go_stored :: "audit_event \<Rightarrow> audit_event" where
  "go_stored ev = ev\<lparr>Roles := map coerceUTF8 (Roles ev), EffectiveNamespace := map coerceUTF8 (EffectiveNamespace ev),
     MaskedColumns := map coerceUTF8 (MaskedColumns ev), PIITouched := map coerceUTF8 (PIITouched ev),
     ContextTags := map coerceUTF8 (ContextTags ev)\<rparr>"

definition go_Insert :: "append_env \<Rightarrow> audit_event \<Rightarrow> audit_db \<Rightarrow> (writer_error, int64) result \<times> audit_db" where
  "go_Insert env ev0 db =
    (if \<not> ok_lock env then (Inl SqlFailed, db)
     else case ad_head db of
       None \<Rightarrow> (Inl HeadMissing, db)
     | Some (lastID, head) \<Rightarrow>
        (let ev = (if TSMicros ev0 = 0 then ev0\<lparr>TSMicros := EpochMicros (epochSecond (clock env)) (nano (clock env))\<rparr> else ev0);
             i = wrap64 (lastID + 1)
         in case RowHash i ev ChainVersion_const head of
              Inl (PrevHashLength n) \<Rightarrow> (Inl (PrevHashSize n), db)
            | Inr rowHash \<Rightarrow>
               (case sqlInsert (ok_insert env) \<lparr>se_ID = i, se_Event = go_stored ev, se_ChainVersion = Some 1,
                       se_PrevHash = head, se_RowHash = rowHash\<rparr> db of
                  None \<Rightarrow> (Inl SqlFailed, db)
                | Some db1 \<Rightarrow>
                   (case sqlAdvance (ok_advance env) i rowHash db1 of
                      None \<Rightarrow> (Inl SqlFailed, db1)
                    | Some db2 \<Rightarrow> (Inr i, db2)))))"

record actor =
  ac_Principal :: string
  ac_ClientAddr :: string
  ac_Channel :: string

definition controlPlane :: "string \<Rightarrow> string \<Rightarrow> string \<Rightarrow> actor \<Rightarrow> string \<Rightarrow> string \<Rightarrow> string \<Rightarrow> string option \<Rightarrow> audit_event" where
  "controlPlane kind dec outcome a action resource summary detail =
    \<lparr>Kind = kind, TSMicros = 0, Principal = ac_Principal a, Roles = [], Datasource = ''control-plane'',
     ClientAddr = (if ac_ClientAddr a = [] then None else Some (ac_ClientAddr a)), Statement = summary,
     Decision = dec, FailedStage = None, EffectiveNamespace = [], MaskedColumns = [], PIITouched = [],
     LatencyMs = 0, Detail = detail, Channel = Some (ac_Channel a), ContextTags = [],
     AuthzAction = Some action, AuthzResource = Some resource, Outcome = Some outcome,
     RowsReturned = None, BytesReturned = None, DecisionID = None\<rparr>"

definition Admin :: "actor \<Rightarrow> string \<Rightarrow> string \<Rightarrow> string \<Rightarrow> audit_event" where
  "Admin a action resource summary = controlPlane ''admin'' ''ALLOW'' ''ALLOW'' a action resource summary None"

definition AuthDetail :: "actor \<Rightarrow> string \<Rightarrow> string \<Rightarrow> string \<Rightarrow> string option \<Rightarrow> audit_event" where
  "AuthDetail a action resource summary detail = controlPlane ''auth'' ''ALLOW'' ''SUCCESS'' a action resource summary detail"

definition authFailure :: "actor \<Rightarrow> string \<Rightarrow> string \<Rightarrow> string \<Rightarrow> string option \<Rightarrow> audit_event" where
  "authFailure a action resource summary detail = controlPlane ''auth'' ''DENY'' ''FAILURE'' a action resource summary detail"

definition Entity :: "string \<Rightarrow> string \<Rightarrow> string" where
  "Entity typ i = typ @ ''::'' @ [CHR 0x22] @ i @ [CHR 0x22]"

subsection \<open>The Kotlin writer\<close>

definition truncatedToMicros :: "instant_time \<Rightarrow> instant_time" where
  "truncatedToMicros t = t\<lparr>nano := nano t - nano t mod 1000\<rparr>"

definition kt_insert :: "append_env \<Rightarrow> kt_event \<Rightarrow> audit_db \<Rightarrow> (writer_error, int64) result \<times> audit_db" where
  "kt_insert env rec db =
    (if \<not> ok_lock env then (Inl SqlFailed, db)
     else case ad_head db of
       None \<Rightarrow> (Inl HeadMissing, db)
     | Some (lastId, headHash) \<Rightarrow>
        if length headHash \<noteq> 32 then (Inl (HeadHashSize (length headHash)), db)
        else if \<not> is_int64 (lastId + 1) then (Inl IdOverflow, db)
        else case (case kt_ts rec of NoTs \<Rightarrow> Inr (clock env) | BadTs \<Rightarrow> Inl BadTimestamp | Ts t \<Rightarrow> Inr t) of
          Inl e \<Rightarrow> (Inl e, db)
        | Inr t \<Rightarrow>
           (case kt_epochMicros (truncatedToMicros t) of
              Inl e \<Rightarrow> (Inl e, db)
            | Inr tsMicros \<Rightarrow>
               (case kt_rowHash (lastId + 1) rec tsMicros headHash of
                  Inl e \<Rightarrow> (Inl e, db)
                | Inr rowHash \<Rightarrow>
                   (case sqlInsert (ok_insert env) \<lparr>se_ID = lastId + 1, se_Event = storedEvent rec tsMicros,
                           se_ChainVersion = Some CHAIN_VERSION, se_PrevHash = headHash, se_RowHash = rowHash\<rparr> db of
                      None \<Rightarrow> (Inl SqlFailed, db)
                    | Some db1 \<Rightarrow>
                       (case sqlAdvance (ok_advance env) (lastId + 1) rowHash db1 of
                          None \<Rightarrow> (Inl SqlFailed, db1)
                        | Some db2 \<Rightarrow> (Inr (lastId + 1), db2))))))"

record kt_actor =
  ka_principal :: kt_string
  ka_roles :: "kt_string list"
  ka_clientAddr :: "kt_string option"
  ka_channel :: kt_string

definition kt_text :: "string \<Rightarrow> kt_string" where
  "kt_text s = map of_char s"

definition kt_record :: "kt_string \<Rightarrow> kt_decision \<Rightarrow> kt_string \<Rightarrow> kt_actor \<Rightarrow> kt_string \<Rightarrow> kt_string \<Rightarrow> kt_string \<Rightarrow>
    kt_string option \<Rightarrow> kt_event" where
  "kt_record kind dec outcome a action resource summary detail =
    \<lparr>kt_ts = NoTs, kt_principal = ka_principal a, kt_roles = ka_roles a, kt_datasource = kt_text ''control-plane'',
     kt_clientAddr = ka_clientAddr a, kt_statement = summary, kt_decision = dec, kt_failedStage = None,
     kt_effectiveNamespace = [], kt_maskedColumns = [], kt_piiTouched = [], kt_latencyMs = 0, kt_detail = detail,
     kt_channel = Some (ka_channel a), kt_contextTags = [], kt_authzAction = Some action,
     kt_authzResource = Some resource, kt_outcome = Some outcome, kt_kind = kind,
     kt_rowsReturned = None, kt_bytesReturned = None, kt_decisionId = None\<rparr>"

definition management_record :: "kt_actor \<Rightarrow> kt_string \<Rightarrow> kt_string \<Rightarrow> kt_string \<Rightarrow> kt_event" where
  "management_record a action resource summary =
     kt_record (kt_text ''admin'') KtALLOW (kt_text ''ALLOW'') a action resource summary None"

definition auth_success :: "kt_actor \<Rightarrow> kt_string \<Rightarrow> kt_string \<Rightarrow> kt_string \<Rightarrow> kt_string option \<Rightarrow> kt_event" where
  "auth_success a action resource summary detail =
     kt_record (kt_text ''auth'') KtALLOW (kt_text ''SUCCESS'') a action resource summary detail"

definition auth_failure :: "kt_actor \<Rightarrow> kt_string \<Rightarrow> kt_string \<Rightarrow> kt_string \<Rightarrow> kt_string option \<Rightarrow> kt_event" where
  "auth_failure a action resource summary detail =
     kt_record (kt_text ''auth'') KtDENY (kt_text ''FAILURE'') a action resource summary detail"

definition auditedValue :: "kt_string \<Rightarrow> kt_string" where
  "auditedValue raw = take 200 raw"

subsection \<open>Reporting a completion\<close>

record completion =
  co_DecisionId :: int64
  co_RowsReturned :: int64
  co_BytesReturned :: int64
  co_Status :: string
  co_DurationMs :: int64

datatype rpc_error = InvalidArgument string | NotFound int64

definition completionStatuses :: "string list" where
  "completionStatuses = [''ok'', ''error'', ''canceled'']"

definition completionOf :: "completion \<Rightarrow> audit_event \<Rightarrow> audit_event" where
  "completionOf r row =
    \<lparr>Kind = ''completion'', TSMicros = 0, Principal = Principal row, Roles = [], Datasource = Datasource row,
     ClientAddr = None, Statement = Statement row, Decision = Decision row, FailedStage = None,
     EffectiveNamespace = [], MaskedColumns = [], PIITouched = [], LatencyMs = co_DurationMs r, Detail = None,
     Channel = Channel row, ContextTags = [], AuthzAction = None, AuthzResource = None,
     Outcome = Some (co_Status r), RowsReturned = Some (co_RowsReturned r),
     BytesReturned = Some (co_BytesReturned r), DecisionID = Some (co_DecisionId r)\<rparr>"

text \<open>The checks and the read of the decision before the transaction.\<close>

definition prepareCompletion :: "completion \<Rightarrow> audit_db \<Rightarrow> (rpc_error, audit_event) result" where
  "prepareCompletion r db =
    (if co_DecisionId r = 0 then Inl (InvalidArgument ''decision_id must reference a recorded decision'')
     else if co_Status r \<notin> set completionStatuses then Inl (InvalidArgument ''status must be one of ok|error|canceled'')
     else case find (\<lambda>e. se_ID e = co_DecisionId r) (ad_events db) of
       None \<Rightarrow> Inl (NotFound (co_DecisionId r))
     | Some e \<Rightarrow> Inr (completionOf r (se_Event e)))"

text \<open>
  The task of the decision, if it is still approved, is claimed and settled; the claim and the
  settlement are guarded updates, and an update that touches no row is no error for the claim.
\<close>

definition setStatus :: "int64 \<Rightarrow> task_status \<Rightarrow> task_status \<Rightarrow> audit_db \<Rightarrow> nat \<times> audit_db" where
  "setStatus tid from to db =
    (length (filter (\<lambda>t. wt_ID t = tid \<and> wt_Status t = from) (ad_tasks db)),
     db\<lparr>ad_tasks := map (\<lambda>t. if wt_ID t = tid \<and> wt_Status t = from then t\<lparr>wt_Status := to\<rparr> else t) (ad_tasks db)\<rparr>)"

definition settleWireTask :: "bool \<Rightarrow> completion \<Rightarrow> audit_db \<Rightarrow> (writer_error, unit) result \<times> audit_db" where
  "settleWireTask ok r db =
    (if \<not> ok then (Inl SqlFailed, db)
     else case find (\<lambda>t. wt_SourceDecision t = co_DecisionId r) (ad_tasks db) of
       None \<Rightarrow> (Inr (), db)
     | Some task \<Rightarrow>
        (case setStatus (wt_ID task) APPROVED EXECUTING db of
           (claimed, db1) \<Rightarrow>
             if claimed = 0 then (Inr (), db1)
             else (case setStatus (wt_ID task) EXECUTING (if co_Status r = ''ok'' then EXECUTED else FAILED) db1 of
               (settled, db2) \<Rightarrow> if settled = 0 then (Inl SqlFailed, db2) else (Inr (), db2))))"

definition reportBody :: "append_env \<Rightarrow> bool \<Rightarrow> completion \<Rightarrow> audit_event \<Rightarrow> audit_db \<Rightarrow> (writer_error, unit) result \<times> audit_db" where
  "reportBody env ok r ev db =
    (case go_Insert env ev db of
       (Inl e, db1) \<Rightarrow> (Inl e, db1)
     | (Inr _, db1) \<Rightarrow> settleWireTask ok r db1)"

subsection \<open>Transactions\<close>

text \<open>
  A transaction that appends takes the lock of the head row and holds it until it ends, so one
  transaction at a time has a working copy; every other append waits. An error of any step makes the
  caller roll back (\<^verbatim>\<open>pgx.BeginFunc\<close>, \<^verbatim>\<open>inTx\<close>). Several appends may share a transaction.
\<close>

datatype append = GoAppend append_env audit_event | KtAppend append_env kt_event | Report append_env bool completion audit_event

definition runAppend :: "append \<Rightarrow> audit_db \<Rightarrow> bool \<times> audit_db" where
  "runAppend a db =
    (case a of
       GoAppend env ev \<Rightarrow> map_prod isl id (go_Insert env ev db)
     | KtAppend env rec \<Rightarrow> map_prod isl id (kt_insert env rec db)
     | Report env ok r ev \<Rightarrow> map_prod isl id (reportBody env ok r ev db))"

record log_state =
  ls_committed :: audit_db
  ls_holder :: "(nat \<times> audit_db) option"

text \<open>The array columns of a Go event are valid UTF-8; every event the Go control plane builds has empty ones.\<close>

definition go_arrays_valid :: "audit_event \<Rightarrow> bool" where
  "go_arrays_valid ev \<longleftrightarrow> go_stored ev = ev"

definition append_valid :: "append \<Rightarrow> bool" where
  "append_valid a \<longleftrightarrow> (case a of GoAppend env ev \<Rightarrow> go_arrays_valid ev | KtAppend env rec \<Rightarrow> True
     | Report env ok r ev \<Rightarrow> go_arrays_valid ev)"

inductive log_step :: "log_state \<Rightarrow> log_state \<Rightarrow> bool" where
  acquire: "ls_holder s = None \<Longrightarrow> append_valid a \<Longrightarrow> runAppend a (ls_committed s) = (False, w) \<Longrightarrow>
    log_step s (s\<lparr>ls_holder := Some (t, w)\<rparr>)"
| again: "ls_holder s = Some (t, db) \<Longrightarrow> append_valid a \<Longrightarrow> runAppend a db = (False, w) \<Longrightarrow>
    log_step s (s\<lparr>ls_holder := Some (t, w)\<rparr>)"
| fail: "log_step s (s\<lparr>ls_holder := None\<rparr>)"
| commit: "ls_holder s = Some (t, w) \<Longrightarrow> log_step s (s\<lparr>ls_committed := w, ls_holder := None\<rparr>)"

definition log_start :: log_state where
  "log_start = \<lparr>ls_committed = V4_audit, ls_holder = None\<rparr>"

subsection \<open>What the writers keep\<close>

definition chainInv :: "audit_db \<Rightarrow> bool" where
  "chainInv db \<longleftrightarrow> ad_head db = Some (int (length (ad_events db)), end_hash GenesisHash (ad_events db)) \<and>
     chain_ok GenesisHash (ad_events db) \<and> map se_ID (ad_events db) = map int [1..<Suc (length (ad_events db))] \<and>
     list_all (\<lambda>e. se_ChainVersion e = Some 1) (ad_events db)"

lemma genesis_literal: "migration_genesis = GenesisHash"
  unfolding migration_genesis_def by code_simp

lemma chainInv_start: "chainInv V4_audit"
  by (simp add: chainInv_def V4_audit_def genesis_literal)

lemma end_hash_length: "chain_ok GenesisHash es \<Longrightarrow> length (end_hash GenesisHash es) = 32"
proof (induction es rule: rev_induct)
  case (snoc e es)
  then show ?case by (auto simp: chain_ok_append verifyRowContent_ok_iff)
qed simp

text \<open>A well-hashed row with the next id, inserted and made the head, extends the chain.\<close>

lemma chainInv_extend:
  assumes "chainInv db" "ad_head db = Some (k, h)"
    and "RowHash (k + 1) ev 1 h = Inr rh"
    and "sqlInsert ok \<lparr>se_ID = k + 1, se_Event = ev, se_ChainVersion = Some 1, se_PrevHash = h, se_RowHash = rh\<rparr> db = Some db1"
    and "sqlAdvance ok' (k + 1) rh db1 = Some db2"
  shows "chainInv db2"
proof -
  let ?e = "\<lparr>se_ID = k + 1, se_Event = ev, se_ChainVersion = Some 1, se_PrevHash = h, se_RowHash = rh\<rparr>"
  from assms(1,2) have k: "k = int (length (ad_events db))" "h = end_hash GenesisHash (ad_events db)"
    and inv: "chain_ok GenesisHash (ad_events db)" "map se_ID (ad_events db) = map int [1..<Suc (length (ad_events db))]"
      "list_all (\<lambda>e. se_ChainVersion e = Some 1) (ad_events db)"
    by (simp_all add: chainInv_def)
  have db2: "ad_events db2 = ad_events db @ [?e]" "ad_head db2 = Some (k + 1, rh)"
    using assms(2,4,5) by (auto simp: sqlInsert_def sqlAdvance_def Let_def split: if_splits)
  have "verifyRowContent ?e = Inr None" using assms(3) by (simp add: verifyRowContent_def)
  with inv k db2 show "chainInv db2" by (simp add: chainInv_def chain_ok_append)
qed

lemma sql_appends:
  "sqlInsert ok e db = Some db1 \<Longrightarrow> ad_events db1 = ad_events db @ [e] \<and> ad_head db1 = ad_head db"
  "sqlAdvance ok' i h db = Some db1 \<Longrightarrow> ad_events db1 = ad_events db"
  by (auto simp: sqlInsert_def sqlAdvance_def Let_def split: if_splits)

lemma settle_frame:
  "settleWireTask ok r db = (x, db') \<Longrightarrow> ad_events db' = ad_events db \<and> ad_head db' = ad_head db"
  by (auto simp: settleWireTask_def setStatus_def split: if_splits option.splits)

lemma go_Insert_Inr:
  assumes "go_Insert env ev db = (Inr i, db2)"
  obtains k h rh db1 ev' where "ad_head db = Some (k, h)" "i = wrap64 (k + 1)" "RowHash i ev' ChainVersion_const h = Inr rh"
    "ev' = (if TSMicros ev = 0 then ev\<lparr>TSMicros := EpochMicros (epochSecond (clock env)) (nano (clock env))\<rparr> else ev)"
    "sqlInsert (ok_insert env) \<lparr>se_ID = i, se_Event = go_stored ev', se_ChainVersion = Some 1, se_PrevHash = h, se_RowHash = rh\<rparr> db = Some db1"
    "sqlAdvance (ok_advance env) i rh db1 = Some db2"
  using assms by (auto simp: go_Insert_def Let_def split: if_splits option.splits sum.splits canon_error.splits prod.splits)

lemma kt_insert_Inr:
  assumes "kt_insert env rec db = (Inr i, db2)"
  obtains k h rh db1 ts where "ad_head db = Some (k, h)" "i = k + 1" "RowHash i (storedEvent rec ts) ChainVersion_const h = Inr rh"
    "sqlInsert (ok_insert env) \<lparr>se_ID = i, se_Event = storedEvent rec ts, se_ChainVersion = Some 1, se_PrevHash = h, se_RowHash = rh\<rparr> db = Some db1"
    "sqlAdvance (ok_advance env) i rh db1 = Some db2"
  using assms
  by (auto simp: kt_insert_def kt_rowHash_eq CHAIN_VERSION_def map_sum_def split: if_splits option.splits sum.splits kt_ts.splits)

text \<open>The chain invariant, as long as the 64-bit ids last.\<close>

definition chainGood :: "audit_db \<Rightarrow> bool" where
  "chainGood db \<longleftrightarrow> (length (ad_events db) < 2 ^ 63 \<longrightarrow> chainInv db)"

lemma appends_keep:
  assumes "chainGood db"
  shows "go_Insert env ev db = (Inr i, db2) \<Longrightarrow> go_arrays_valid ev \<Longrightarrow> chainGood db2 \<and> prefix (ad_events db) (ad_events db2)"
    and "kt_insert env rec db = (Inr i, db2) \<Longrightarrow> chainGood db2 \<and> prefix (ad_events db) (ad_events db2)"
proof -
  assume "go_Insert env ev db = (Inr i, db2)" "go_arrays_valid ev"
  then obtain k h rh db1 ev' where d: "ad_head db = Some (k, h)" "i = wrap64 (k + 1)" "RowHash i ev' ChainVersion_const h = Inr rh"
      "ev' = (if TSMicros ev = 0 then ev\<lparr>TSMicros := EpochMicros (epochSecond (clock env)) (nano (clock env))\<rparr> else ev)"
      "sqlInsert (ok_insert env) \<lparr>se_ID = i, se_Event = go_stored ev', se_ChainVersion = Some 1, se_PrevHash = h, se_RowHash = rh\<rparr> db = Some db1"
      "sqlAdvance (ok_advance env) i rh db1 = Some db2"
    by (elim go_Insert_Inr)
  have v: "go_stored ev' = ev'"
    using \<open>go_arrays_valid ev\<close> d(4) by (cases ev) (auto simp: go_arrays_valid_def go_stored_def)
  have ev2: "ad_events db2 = ad_events db @ [\<lparr>se_ID = i, se_Event = go_stored ev', se_ChainVersion = Some 1, se_PrevHash = h, se_RowHash = rh\<rparr>]"
    using sql_appends(1)[OF d(5)] sql_appends(2)[OF d(6)] by simp
  have "chainInv db2" if "length (ad_events db2) < 2 ^ 63"
  proof -
    have inv: "chainInv db" using that assms ev2 by (simp add: chainGood_def)
    with d(1) have k: "k = int (length (ad_events db))" by (simp add: chainInv_def)
    have "i = k + 1" using that d(2) ev2 by (simp add: k wrap64_id is_int64_def)
    with chainInv_extend[OF inv d(1) _ _ d(6)[unfolded \<open>i = k + 1\<close>]] d(3,5) v show ?thesis
      by (simp add: ChainVersion_const_def)
  qed
  with ev2 show "chainGood db2 \<and> prefix (ad_events db) (ad_events db2)" by (simp add: chainGood_def)
next
  assume "kt_insert env rec db = (Inr i, db2)"
  then obtain k h rh db1 ts where d: "ad_head db = Some (k, h)" "i = k + 1" "RowHash i (storedEvent rec ts) ChainVersion_const h = Inr rh"
      "sqlInsert (ok_insert env) \<lparr>se_ID = i, se_Event = storedEvent rec ts, se_ChainVersion = Some 1, se_PrevHash = h, se_RowHash = rh\<rparr> db = Some db1"
      "sqlAdvance (ok_advance env) i rh db1 = Some db2"
    by (elim kt_insert_Inr)
  have ev2: "ad_events db2 = ad_events db @ [\<lparr>se_ID = i, se_Event = storedEvent rec ts, se_ChainVersion = Some 1, se_PrevHash = h, se_RowHash = rh\<rparr>]"
    using sql_appends(1)[OF d(4)] sql_appends(2)[OF d(5)] by simp
  have "chainInv db2" if "length (ad_events db2) < 2 ^ 63"
    using chainInv_extend[OF _ d(1) d(3)[unfolded d(2) ChainVersion_const_def] d(4)[unfolded d(2)] d(5)[unfolded d(2)]]
      that assms ev2 by (simp add: chainGood_def)
  with ev2 show "chainGood db2 \<and> prefix (ad_events db) (ad_events db2)" by (simp add: chainGood_def)
qed

lemma not_isl_Inr: "\<not> isl x \<longleftrightarrow> (\<exists>y. x = Inr y)"
  by (cases x) auto

lemma runAppend_keeps:
  assumes "chainGood db" "append_valid a" "runAppend a db = (False, w)"
  shows "chainGood w \<and> prefix (ad_events db) (ad_events w)"
proof (cases a)
  case (Report env ok r ev)
  with assms(3) obtain i db1 where "go_Insert env ev db = (Inr i, db1)" "\<exists>x. settleWireTask ok r db1 = (x, w)"
    by (auto simp: runAppend_def reportBody_def map_prod_def split: prod.splits sum.splits)
  with appends_keep(1)[OF assms(1)] settle_frame assms(2) Report show ?thesis
    by (fastforce simp: append_valid_def chainGood_def chainInv_def)
qed (use assms appends_keep[OF assms(1)] in
    \<open>auto simp: runAppend_def append_valid_def map_prod_def not_isl_Inr split: prod.splits\<close>)

lemma log_step_keeps:
  assumes "log_step s s'" "chainGood (ls_committed s) \<and> pred_option (\<lambda>(t, w). chainGood w \<and>
      prefix (ad_events (ls_committed s)) (ad_events w)) (ls_holder s)"
  shows "(chainGood (ls_committed s') \<and> pred_option (\<lambda>(t, w). chainGood w \<and>
      prefix (ad_events (ls_committed s')) (ad_events w)) (ls_holder s')) \<and>
    prefix (ad_events (ls_committed s)) (ad_events (ls_committed s'))"
  using assms
proof (induction rule: log_step.induct)
  case (again s t db a w)
  then show ?case using runAppend_keeps[of db a w] by (auto intro: prefix_order.trans)
qed (use runAppend_keeps in auto)

lemma log_steps_keep:
  assumes "log_step\<^sup>*\<^sup>* log_start s"
  shows "chainGood (ls_committed s) \<and> pred_option (\<lambda>(t, w). chainGood w \<and>
      prefix (ad_events (ls_committed s)) (ad_events w)) (ls_holder s)"
  using assms
proof (induction rule: rtranclp_induct)
  case base
  show ?case using chainInv_start by (simp add: log_start_def chainGood_def)
next
  case (step s s')
  then show ?case using log_step_keeps by blast
qed

lemma log_steps_append_only:
  assumes "log_step\<^sup>*\<^sup>* s s'" "log_step\<^sup>*\<^sup>* log_start s"
  shows "prefix (ad_events (ls_committed s)) (ad_events (ls_committed s'))"
  using assms
proof (induction rule: rtranclp_induct)
  case (step y z)
  then have "log_step\<^sup>*\<^sup>* log_start y" by auto
  with step log_step_keeps[OF step.hyps(2) log_steps_keep] show ?case by (meson prefix_order.trans)
qed simp

lemma kt_utf8_nonempty: "kt_utf8 u = [] \<longleftrightarrow> u = []"
  by (cases u) (auto simp: encodeRune_def split: list.splits)

text \<open>The recorders of the two control planes write the same rows, for an actor without roles.\<close>

lemma recorders_agree:
  fixes p c :: kt_string
  assumes "addr \<noteq> Some []"
  defines "k \<equiv> \<lparr>ka_principal = p, ka_roles = [], ka_clientAddr = addr, ka_channel = c\<rparr>"
    and "g \<equiv> \<lparr>ac_Principal = kt_utf8 p, ac_ClientAddr = (case addr of None \<Rightarrow> [] | Some a \<Rightarrow> kt_utf8 a), ac_Channel = kt_utf8 c\<rparr>"
  shows "storedEvent (management_record k action resource summary) ts =
      (Admin g (kt_utf8 action) (kt_utf8 resource) (kt_utf8 summary))\<lparr>TSMicros := ts\<rparr>"
    and "storedEvent (auth_success k action resource summary detail) ts =
      (AuthDetail g (kt_utf8 action) (kt_utf8 resource) (kt_utf8 summary) (map_option kt_utf8 detail))\<lparr>TSMicros := ts\<rparr>"
    and "storedEvent (auth_failure k action resource summary detail) ts =
      (authFailure g (kt_utf8 action) (kt_utf8 resource) (kt_utf8 summary) (map_option kt_utf8 detail))\<lparr>TSMicros := ts\<rparr>"
proof -
  have ascii: "kt_utf8 (kt_text s) = s" if "list_all (\<lambda>c. of_char c < (128 :: nat)) s" for s
    using kt_utf8_ascii[OF that] by (simp add: kt_text_def)
  note defs = storedEvent_def kt_record_def controlPlane_def k_def g_def kt_decision_name_def ascii
  show "storedEvent (management_record k action resource summary) ts =
      (Admin g (kt_utf8 action) (kt_utf8 resource) (kt_utf8 summary))\<lparr>TSMicros := ts\<rparr>"
    using assms(1) by (auto simp: defs management_record_def Admin_def kt_utf8_nonempty split: option.splits)
  show "storedEvent (auth_success k action resource summary detail) ts =
      (AuthDetail g (kt_utf8 action) (kt_utf8 resource) (kt_utf8 summary) (map_option kt_utf8 detail))\<lparr>TSMicros := ts\<rparr>"
    using assms(1) by (auto simp: defs auth_success_def AuthDetail_def kt_utf8_nonempty split: option.splits)
  show "storedEvent (auth_failure k action resource summary detail) ts =
      (authFailure g (kt_utf8 action) (kt_utf8 resource) (kt_utf8 summary) (map_option kt_utf8 detail))\<lparr>TSMicros := ts\<rparr>"
    using assms(1) by (auto simp: defs auth_failure_def authFailure_def kt_utf8_nonempty split: option.splits)
qed

lemma kt_epochMicros_eq: "kt_epochMicros t = Inr m \<Longrightarrow> EpochMicros (epochSecond t) (nano t) = m"
  by (auto simp: kt_epochMicros_def EpochMicros_def Let_def split: if_splits)

subsection \<open>The trail the monitor reads\<close>

lemma table_of_chain:
  assumes "chainInv db" "length (ad_events db) < 2 ^ 63"
  shows "table_rows (Table (ad_events db)) = ad_events db" "chained_rows (Table (ad_events db)) = ad_events db"
proof -
  from assms(1) have ids: "map se_ID (ad_events db) = map int [1..<Suc (length (ad_events db))]"
    and v: "list_all (\<lambda>e. se_ChainVersion e = Some 1) (ad_events db)" by (simp_all add: chainInv_def)
  have "sorted_wrt (<) (map se_ID (ad_events db))"
    unfolding ids sorted_wrt_map using sorted_wrt_upt[of 1 "Suc (length (ad_events db))"] by simp
  moreover have "list_all (is_int64 \<circ> se_ID) (ad_events db)"
  proof -
    have "set (map se_ID (ad_events db)) \<subseteq> {x. is_int64 x}" unfolding ids using assms(2) by (auto simp: is_int64_def)
    then show ?thesis by (auto simp: list_all_iff)
  qed
  ultimately show rows: "table_rows (Table (ad_events db)) = ad_events db" by (simp add: Table_inverse)
  show "chained_rows (Table (ad_events db)) = ad_events db"
    using v by (auto simp: chained_rows_def rows list_all_iff intro!: filter_True)
qed

lemma written_clean:
  assumes "chainInv db" "length (ad_events db) < 2 ^ 63"
    and "list_all (\<lambda>a. list_ex (\<lambda>e. se_ID e = ac_UpToID a \<and> se_RowHash e = ac_HeadHash a) (ad_events db)) anchors"
  shows "VerifyFromGenesis (table_source (Table (ad_events db))) GenesisHash anchors = Some (Inr None)"
proof -
  from assms(1) have ids: "map se_ID (ad_events db) = map int [1..<Suc (length (ad_events db))]"
    and ok: "chain_ok GenesisHash (ad_events db)" by (simp_all add: chainInv_def)
  have pos: "0 < se_ID e" if "e \<in> set (ad_events db)" for e
  proof -
    have "se_ID e \<in> set (map se_ID (ad_events db))" using that by simp
    then show ?thesis unfolding ids by auto
  qed
  have after: "table_source.after (Table (ad_events db)) 0 = ad_events db"
    unfolding table_source.after_def unfolding table_of_chain(2)[OF assms(1,2)] using pos by (auto intro!: filter_True)
  have "map_of (remainingAnchors anchors) u = Some h \<Longrightarrow> \<exists>e\<in>set (ad_events db). se_ID e = u \<and> se_RowHash e = h" for u h
    using assms(3) map_of_SomeD[of "rev (map (\<lambda>a. (ac_UpToID a, ac_HeadHash a)) anchors)" u h]
    by (auto simp: map_of_remainingAnchors list_all_iff list_ex_iff split: if_splits)
  with ok show ?thesis by (simp add: table_source.VerifyFromGenesis_clean_iff after)
qed

subsection \<open>Properties\<close>

text \<open>
  C19: what the control planes write, the monitor accepts. Start from the migrated tables and let any
  number of Go and Kotlin transactions append, one or several events each, with any of their
  statements failing, rolling back or committing in any order. As long as the 64-bit ids last, the
  verification from genesis of the committed trail finds nothing, with every anchor taken from any
  earlier committed trail as a witness; the trail only ever grows at its end, its ids are 1, 2, 3, ...
  and the head row names the last row and its hash.
\<close>

theorem written_trail_verifies:
  assumes "log_step\<^sup>*\<^sup>* log_start s0" "log_step\<^sup>*\<^sup>* s0 s" "length (ad_events (ls_committed s)) < 2 ^ 63"
    and "list_all (\<lambda>a. list_ex (\<lambda>e. se_ID e = ac_UpToID a \<and> se_RowHash e = ac_HeadHash a) (ad_events (ls_committed s0))) anchors"
  shows "let es = ad_events (ls_committed s)
    in VerifyFromGenesis (table_source (Table es)) GenesisHash anchors = Some (Inr None) \<and>
       prefix (ad_events (ls_committed s0)) es \<and> map se_ID es = map int [1..<Suc (length es)] \<and>
       ad_head (ls_committed s) = Some (int (length es), end_hash GenesisHash es)"
proof -
  have reach: "log_step\<^sup>*\<^sup>* log_start s" using assms(1,2) by (rule rtranclp_trans)
  have inv: "chainInv (ls_committed s)" using log_steps_keep[OF reach] assms(3) by (simp add: chainGood_def)
  have pre: "prefix (ad_events (ls_committed s0)) (ad_events (ls_committed s))"
    by (rule log_steps_append_only[OF assms(2,1)])
  have "list_all (\<lambda>a. list_ex (\<lambda>e. se_ID e = ac_UpToID a \<and> se_RowHash e = ac_HeadHash a) (ad_events (ls_committed s))) anchors"
    using assms(4) set_mono_prefix[OF pre] by (fastforce simp: list_all_iff list_ex_iff)
  from written_clean[OF inv assms(3) this] pre inv show ?thesis by (simp add: chainInv_def)
qed

definition sample_env :: append_env where
  "sample_env = \<lparr>ok_lock = True, ok_insert = True, ok_advance = True, clock = \<lparr>epochSecond = 1700000000, nano = 5\<rparr>\<rparr>"

definition sample_admin :: audit_event where
  "sample_admin = Admin \<lparr>ac_Principal = ''ann'', ac_ClientAddr = ''10.0.0.1'', ac_Channel = ''console''\<rparr>
     ''policy.update'' (Entity ''Policy'' ''p1'') ''updated policy p1''"

theorem written_trail_verifies_witness:
  "\<exists>s :: log_state. length (ad_events (ls_committed s)) = 1 \<and>
     VerifyFromGenesis (table_source (Table (ad_events (ls_committed s)))) GenesisHash [] = Some (Inr None)"
proof -
  let ?r = "go_Insert sample_env sample_admin V4_audit"
  have r: "fst ?r = Inr 1" "length (ad_events (snd ?r)) = 1"
    by (simp_all add: go_Insert_def sample_env_def V4_audit_def genesis_literal RowHash_def sha256Bytes_def sqlInsert_def
        sqlAdvance_def Let_def sample_admin_def Admin_def controlPlane_def go_stored_def is_int64_def EpochMicros_def)
  have valid: "append_valid (GoAppend sample_env sample_admin)"
    by (simp add: append_valid_def go_arrays_valid_def go_stored_def sample_admin_def Admin_def controlPlane_def)
  have run: "runAppend (GoAppend sample_env sample_admin) (ls_committed log_start) = (False, snd ?r)"
    using r(1) by (cases ?r) (simp add: runAppend_def log_start_def)
  let ?s1 = "log_start\<lparr>ls_holder := Some (0, snd ?r)\<rparr>"
  let ?s = "?s1\<lparr>ls_committed := snd ?r, ls_holder := None\<rparr>"
  have "log_step log_start ?s1" using log_step.acquire[OF _ valid run] by (simp add: log_start_def)
  moreover have "log_step ?s1 ?s" by (rule log_step.commit) simp
  ultimately have "log_step\<^sup>*\<^sup>* log_start ?s" by (meson converse_rtranclp_into_rtranclp rtranclp.rtrancl_refl)
  from written_trail_verifies[OF rtranclp.rtrancl_refl this, of "[]"] r(2)
  have "length (ad_events (ls_committed ?s)) = 1 \<and>
      VerifyFromGenesis (table_source (Table (ad_events (ls_committed ?s)))) GenesisHash [] = Some (Inr None)"
    by (simp add: Let_def)
  then show ?thesis by (rule exI)
qed

text \<open>
  C33: the Kotlin and the Go encoders are one function. For every Kotlin event, stored as the row its
  columns make, the canonical bytes, the row hash with its length check, and the microseconds of an
  instant (where Kotlin's exact arithmetic does not raise) are what the Go code computes from the row.
\<close>

theorem encoders_agree:
  "kt_canonical event ts = Canonical (storedEvent event ts) ChainVersion_const \<and>
   kt_rowHash i event ts prev =
     map_sum (case_canon_error PrevHashSize) id (RowHash i (storedEvent event ts) ChainVersion_const prev) \<and>
   (case kt_epochMicros t of Inl e \<Rightarrow> e = TimestampOverflow | Inr m \<Rightarrow> EpochMicros (epochSecond t) (nano t) = m)"
proof -
  have "kt_canonical event ts = Canonical (storedEvent event ts) ChainVersion_const"
    by (simp add: kt_canonical_def Canonical_def kt_fields_eq DOMAIN_SEP_def DomainSep_def CHAIN_VERSION_def
        ChainVersion_const_def kt_writeInt_def writeU32_def)
  moreover have "case kt_epochMicros t of Inl e \<Rightarrow> e = TimestampOverflow | Inr m \<Rightarrow> EpochMicros (epochSecond t) (nano t) = m"
    using kt_epochMicros_eq[of t] by (auto simp: kt_epochMicros_def Let_def split: sum.splits if_splits)
  ultimately show ?thesis using kt_rowHash_eq by blast
qed

end
