(* ===== verification/Decide.thy ===== *)
theory Decide
  imports ConnectionCatalog AuditWriter
begin

text \<open>
  From a statement on a connection to the verdict the proxy serves it under: analysis against the held
  catalog and the decision on it (\<^verbatim>\<open>Query.kt\<close>), the decision of a connection with its freshness gates,
  its audit row and its wire task (\<^verbatim>\<open>ConnectionDecide.kt\<close>), the service that resolves the caller and puts
  the verdict on the wire (\<^verbatim>\<open>ControlPlaneGrpcService.kt\<close>, \<^verbatim>\<open>RequestAuthorization.kt\<close>,
  \<^verbatim>\<open>GrpcMappers.kt\<close>), and the client of the proxy that reads it (\<^verbatim>\<open>goproxy/cp/client.go\<close>).
  The analyzer, the token store, the rows of datasources and their classifications are fields of a record;
  the transport and the encoding of messages are arguments.
\<close>

subsection \<open>Catalog and analysis\<close>

record full_column = catalog_column +
  fx_dataType :: string
  fx_sqlType :: string
  fx_ordinal :: int
  fx_nullable :: bool
  fx_implicit :: bool
  fx_system :: bool

text \<open>An analyzer: the keys of the columns it was built over, and its analysis of a statement, which may throw.\<close>

record analyzer =
  an_columnKeys :: "string list"
  an_analyze :: "string \<Rightarrow> (string, statement_facts) result"

record token_identity =
  ti_principal :: string
  ti_roles :: "string list"
  ti_kind :: string

record core =
  ko_plane :: plane
  ko_analyzerFor :: "datasource_row \<Rightarrow> string \<Rightarrow> string list \<Rightarrow> bytes option \<Rightarrow> full_column list \<Rightarrow> bytes \<Rightarrow> (string, analyzer) result"
  ko_implicitColumns :: "engine_def \<Rightarrow> full_column list \<Rightarrow> full_column list"
  ko_functionCatalog :: "engine_def \<Rightarrow> (string \<rightharpoonup> string list) \<Rightarrow> string option \<Rightarrow> bytes"
  ko_classifications :: "string \<Rightarrow> object_ref \<rightharpoonup> column_class"
  ko_resolveToken :: "string \<Rightarrow> token_identity option"
  ko_getByName :: "string \<Rightarrow> datasource_row option"

definition sqlTypeFor :: "string \<Rightarrow> string" where
  "sqlTypeFor dataType =
    (let t = ktTrim (ToLowerKey dataType)
     in if t \<in> {''integer'', ''int'', ''int4'', ''smallint'', ''int2'', ''serial'', ''tinyint'', ''mediumint''} then ''INTEGER''
        else if t \<in> {''bigint'', ''int8'', ''bigserial''} then ''BIGINT''
        else if t \<in> {''numeric'', ''decimal'', ''real'', ''double precision'', ''double'', ''float'', ''float4'', ''float8'', ''money''} then ''DECIMAL''
        else if t \<in> {''boolean'', ''bool''} then ''BOOLEAN''
        else if t \<in> {''date'', ''year''} then ''DATE''
        else if t \<in> {''timestamp'', ''timestamp without time zone'', ''timestamp with time zone'', ''timestamptz'', ''datetime''} then ''TIMESTAMP''
        else if t \<in> {''time'', ''time without time zone'', ''time with time zone''} then ''TIME''
        else ''VARCHAR'')"

definition columnObject :: "('a) catalog_column_scheme \<Rightarrow> object_ref" where
  "columnObject c = \<lparr>ob_catalog = cc_catalog c, ob_schema = cc_schema c, ob_table = cc_table c, ob_column = cc_column c\<rparr>"

fun indexRows :: "(string \<times> catalog_column) list \<Rightarrow> (full_column \<times> string) list \<Rightarrow> (string, (string \<times> catalog_column) list) result" where
  "indexRows rows [] = Inr rows"
| "indexRows rows ((row, key) # rks) =
    (if map_of rows key \<noteq> None then Inl (''catalog contains ambiguous normalized column key '' @ quoted key)
     else indexRows (rows @ [(key, catalog_column.truncate row)]) rks)"

definition buildCatalogColumnIndex :: "full_column list \<Rightarrow> analyzer \<Rightarrow> (string, (string \<times> catalog_column) list) result" where
  "buildCatalogColumnIndex catalog an =
    (if length catalog \<noteq> length (an_columnKeys an)
     then Inl (''catalog/analyzer column count mismatch: '' @ FormatInt (int (length catalog)) @ '' vs '' @ FormatInt (int (length (an_columnKeys an))))
     else indexRows [] (zip catalog (an_columnKeys an)))"

text \<open>What an exception says of a datasource without a catalog.\<close>

definition catalogMessage :: "(catalog_error, 'a) result \<Rightarrow> (string, 'a) result" where
  "catalogMessage r = (case r of Inl _ \<Rightarrow> Inl ''datasource.invalid_catalog'' | Inr x \<Rightarrow> Inr x)"

definition analyzerAndCatalogIndex :: "core \<Rightarrow> datasource_row \<Rightarrow> full_column list \<Rightarrow> bytes \<Rightarrow> full_column list \<Rightarrow> string list \<Rightarrow> bytes option \<Rightarrow>
    (string, (string \<times> catalog_column) list \<times> analyzer) result" where
  "analyzerAndCatalogIndex ko ds columns functions temps searchPath session =
     rbind (catalogMessage (effectiveCatalog ds)) (\<lambda>cat.
       let base = columns @ temps; all = base @ ko_implicitColumns ko (ds_engine ds) base
       in rbind (ko_analyzerFor ko ds cat searchPath session all functions) (\<lambda>an.
          rbind (buildCatalogColumnIndex all an) (\<lambda>rows. Inr (rows, an))))"

record result_requirements =
  rq_facts :: statement_facts
  rq_tempTables :: "object_ref list"

definition noObject :: object_ref where
  "noObject = \<lparr>ob_catalog = [], ob_schema = [], ob_table = [], ob_column = []\<rparr>"

text \<open>Both arms of a grant are read; the one it has not is the empty reference.\<close>

definition resultRequirementsOf :: "statement_facts \<Rightarrow> object_ref list \<Rightarrow> result_requirements" where
  "resultRequirementsOf f tempTables =
    (let orNone = (\<lambda>x. case x of None \<Rightarrow> noObject | Some r \<Rightarrow> r);
         referenced = concat (map (\<lambda>g. [orNone (grantColumn g), orNone (grantTable g)]) (sf_resultReads f)) @ sf_leakColumns f
     in \<lparr>rq_facts = f\<lparr>sf_detail := [], sf_rewrittenSql := None, sf_sources := [], sf_namespaceCandidates := [], sf_predicateLiterals := [],
           sf_preparedNeed := None, sf_submission := None\<rparr>,
         rq_tempTables = filter (\<lambda>r. r \<in> set tempTables) (distinctList (map tableRef referenced))\<rparr>)"

record query_input =
  qi_principal :: string
  qi_ds :: datasource_row
  qi_sql :: string
  qi_channel :: channel
  qi_columns :: "full_column list"
  qi_functions :: bytes
  qi_providedRoles :: "string list option"
  qi_context :: authz_context
  qi_liveSearchPath :: "string list option"
  qi_session :: "bytes option"
  qi_tempColumns :: "full_column list"

definition tempTablesOf :: "query_input \<Rightarrow> object_ref list" where
  "tempTablesOf q = map (tableRef \<circ> columnObject) (qi_tempColumns q)"

definition factsInput :: "query_input \<Rightarrow> (string \<times> catalog_column) list \<Rightarrow> statement_facts \<Rightarrow> decide_input" where
  "factsInput q rows f =
    \<lparr>di_principal = qi_principal q, di_ds = datasource.truncate (qi_ds q), di_channel = qi_channel q, di_rows = rows, di_facts = f,
     di_providedRoles = qi_providedRoles q, di_context = qi_context q, di_tempTables = tempTablesOf q\<rparr>"

definition analyzed :: "core \<Rightarrow> query_input \<Rightarrow> (string, (string \<times> catalog_column) list \<times> statement_facts) result" where
  "analyzed ko q =
     rbind (analyzerAndCatalogIndex ko (qi_ds q) (qi_columns q) (qi_functions q) (qi_tempColumns q)
         (case qi_liveSearchPath q of Some p \<Rightarrow> p | None \<Rightarrow> dw_defaultSchemas (qi_ds q)) (qi_session q)) (\<lambda>(rows, an).
       rbind (an_analyze an (qi_sql q)) (\<lambda>f. Inr (rows, f)))"

definition decideQuery :: "core \<Rightarrow> query_input \<Rightarrow> outcome \<times> result_requirements option" where
  "decideQuery ko q =
    (let deny = (\<lambda>m. (Returned ((structuralDeny m [] ''catalog'' [])\<lparr>dx_catalogMiss := True\<rparr>), None))
     in if qi_liveSearchPath q = Some [] \<and> qi_columns q \<noteq> [] then deny CATALOG_CONFIGURATION_DENY
        else case analyzed ko q of
          Inl m \<Rightarrow> deny (CATALOG_CONFIGURATION_DENY @ '': '' @ m)
        | Inr (rows, f) \<Rightarrow> (decideFacts (ko_plane ko) (factsInput q rows f),
            if qi_channel q = WIRE then None else Some (resultRequirementsOf f (tempTablesOf q))))"

definition protectedPredicateLiterals :: "core \<Rightarrow> query_input \<Rightarrow> string list option" where
  "protectedPredicateLiterals ko q =
    (case analyzed ko q of
       Inl m \<Rightarrow> None
     | Inr (rows, f) \<Rightarrow>
        if \<not> sf_resolved f then None
        else Some (sort_key utf16Key (distinctList (filter (\<lambda>key.
          case map_of rows key of
            None \<Rightarrow> True
          | Some row \<Rightarrow> (case cc_classification row of None \<Rightarrow> False | Some c \<Rightarrow> cx_tags c \<noteq> [] \<or> cx_maskFnName c \<noteq> None))
          (map object_key (sf_predicateLiterals f))))))"

subsection \<open>The caller\<close>

definition beforeChar :: "char \<Rightarrow> string \<Rightarrow> string" where
  "beforeChar ch s = takeWhile (\<lambda>x. x \<noteq> ch) s"

text \<open>\<^verbatim>\<open>/1.2.3.4:5432\<close>, \<^verbatim>\<open>/[::1]:5432\<close> or a bare address.\<close>

definition parseRequesterIp :: "string option \<Rightarrow> string option" where
  "parseRequesterIp clientAddr =
    (case clientAddr of
       None \<Rightarrow> None
     | Some raw \<Rightarrow>
        let t = ktTrim raw; a = (case t of c # cs \<Rightarrow> if c = CHR ''/'' then cs else t | [] \<Rightarrow> [])
        in if a = [] then None
           else let ip = (if hd a = CHR ''['' then beforeChar (CHR '']'') (tl a)
                          else if length (filter (\<lambda>c. c = CHR '':'') a) = 1 then beforeChar (CHR '':'') a else a)
                in if ip = [] then None else Some ip)"

datatype token_kind = SESSION | USER | EDITOR_TOKEN | APPROVER_EXEC | WORKLOAD

definition tokenFromWire :: "string \<Rightarrow> token_kind option" where
  "tokenFromWire v = map_of [(''SESSION'', SESSION), (''USER'', USER), (''EDITOR'', EDITOR_TOKEN), (''APPROVER_EXEC'', APPROVER_EXEC), (''WORKLOAD'', WORKLOAD)] v"

record request_identity =
  ri_identity :: token_identity
  ri_channel :: channel
  ri_providedRoles :: "string list option"

datatype rpc_failure = Status status_code string | CatalogFailure catalog_error | CapFailure cap_error | AuditFailure writer_error
  | TaskNotClaimed | TaskNotFailed | TaskInsertFailed

definition resolveRequestIdentity :: "core \<Rightarrow> string \<Rightarrow> (rpc_failure, request_identity) result" where
  "resolveRequestIdentity ko token =
    (case ko_resolveToken ko token of
       None \<Rightarrow> Inl (Status UNAUTHENTICATED ''invalid, expired, revoked, or deactivated credential'')
     | Some ident \<Rightarrow>
        if pl_isDeactivated (ko_plane ko) (ti_principal ident)
        then Inl (Status UNAUTHENTICATED ''invalid, expired, revoked, or deactivated credential'')
        else (let unsupported = Inl (Status UNAUTHENTICATED ''unsupported token kind'');
                  snapshot = (let rs = distinctList (ti_roles ident) in if rs = [] then None else Some rs)
              in case tokenFromWire (ti_kind ident) of
                   None \<Rightarrow> unsupported
                 | Some WORKLOAD \<Rightarrow> unsupported
                 | Some SESSION \<Rightarrow> Inr \<lparr>ri_identity = ident, ri_channel = WIRE, ri_providedRoles = None\<rparr>
                 | Some USER \<Rightarrow> Inr \<lparr>ri_identity = ident, ri_channel = WIRE, ri_providedRoles = None\<rparr>
                 | Some EDITOR_TOKEN \<Rightarrow> Inr \<lparr>ri_identity = ident, ri_channel = EDITOR, ri_providedRoles = snapshot\<rparr>
                 | Some APPROVER_EXEC \<Rightarrow> Inr \<lparr>ri_identity = ident,
                     ri_channel = (if snapshot = None then EDITOR else WORKFLOW_EXECUTOR), ri_providedRoles = snapshot\<rparr>))"

subsection \<open>The decision of a connection\<close>

definition noContext :: authz_context where
  "noContext = \<lparr>ax_networkZones = [], ax_channel = None, ax_requesterIp = None, ax_tags = [], ax_stmtKind = None, ax_masked = None, ax_nativeOperation = None\<rparr>"

definition autoApproveTask :: "plane \<Rightarrow> string \<Rightarrow> user_parents \<Rightarrow> datasource_row \<Rightarrow> authz_context \<Rightarrow> channel \<Rightarrow> bool" where
  "autoApproveTask pl who own ds raw ch =
    (let taskCtx = raw\<lparr>ax_channel := Some (contextValue ch)\<rparr>;
         ctx = taskCtx\<lparr>ax_tags := resolveContextTags (pl_engine pl) who own (ds_name ds) taskCtx (ds_tags ds)\<rparr>
     in authorizeDatasourceAction (pl_engine pl) (User who own) TASK_REQUEST (ds_name ds) ctx (ds_tags ds) = Allow \<and>
        authorizeAs (pl_engine pl) (pl_resolveParents pl) who own TASK_APPROVE
          (ApprovalRequest \<lparr>ar_requester = who, ar_approver = Some who, ar_executedBy = None, ar_datasource = Some (ds_name ds), ar_role = None,
             ar_source = ''console'', ar_ccs = []\<rparr>) ctx = Allow)"

definition heldColumn :: "fragment_column \<Rightarrow> full_column" where
  "heldColumn f = \<lparr>cc_catalog = fc_catalog f, cc_schema = fc_schema f, cc_table = fc_table f, cc_column = fc_column f, cc_classification = None,
     cc_isTemp = False, fx_dataType = fc_dataType f, fx_sqlType = sqlTypeFor (fc_dataType f), fx_ordinal = fc_ordinal f, fx_nullable = fc_nullable f,
     fx_implicit = False, fx_system = False\<rparr>"

definition connectionCatalog :: "core \<Rightarrow> datasource_row \<Rightarrow> full_column list \<Rightarrow> full_column list" where
  "connectionCatalog ko ds columns = map (\<lambda>row. row\<lparr>cc_classification := ko_classifications ko (ds_name ds) (columnObject row)\<rparr>) columns"

text \<open>The columns a connection holds with their live classifications, and its functions.\<close>

definition heldCatalog :: "core \<Rightarrow> registry \<Rightarrow> connection \<Rightarrow> datasource_row \<Rightarrow> full_column list \<times> bytes" where
  "heldCatalog ko reg c ds =
    (connectionCatalog ko ds (map heldColumn (structuralRows reg c)),
     ko_functionCatalog ko (ds_engine ds) (heldRoutines reg c) (ds_engineVersion ds))"

definition auditDecision :: "enf_action \<Rightarrow> kt_decision" where
  "auditDecision a = (case a of ENF_ALLOW \<Rightarrow> KtALLOW | ENF_MASK \<Rightarrow> KtMASK | _ \<Rightarrow> KtDENY)"

definition decisionRecord :: "string \<Rightarrow> datasource_row \<Rightarrow> string \<Rightarrow> string option \<Rightarrow> decision_context \<Rightarrow> int64 \<Rightarrow> string list \<Rightarrow> channel \<Rightarrow> kt_event" where
  "decisionRecord who ds sql clientAddr d latencyMs effectiveNamespace ch =
    \<lparr>kt_ts = NoTs, kt_principal = utf16Key who, kt_roles = map utf16Key (dx_effectiveRoles d), kt_datasource = utf16Key (ds_name ds),
     kt_clientAddr = map_option utf16Key clientAddr, kt_statement = utf16Key sql, kt_decision = auditDecision (dx_action d),
     kt_failedStage = map_option utf16Key (dx_failedStage d), kt_effectiveNamespace = map utf16Key effectiveNamespace,
     kt_maskedColumns = map (utf16Key \<circ> dm_column) (dx_masks d), kt_piiTouched = map utf16Key (dx_piiTouched d), kt_latencyMs = latencyMs,
     kt_detail = map_option utf16Key (dx_detail d), kt_channel = Some (utf16Key (contextValue ch)), kt_contextTags = map utf16Key (dx_contextTags d),
     kt_authzAction = None, kt_authzResource = None, kt_outcome = None, kt_kind = kt_text ''decision'',
     kt_rowsReturned = None, kt_bytesReturned = None, kt_decisionId = None\<rparr>"

record decide_call =
  ca_connectionId :: bytes
  ca_principal :: string
  ca_ds :: datasource_row
  ca_sql :: string
  ca_searchPath :: "string list"
  ca_clientAddr :: "string option"
  ca_session :: "bytes option"
  ca_channel :: channel
  ca_providedRoles :: "string list option"
  ca_tempColumns :: "full_column list"
  ca_targetCheck :: "string option"

text \<open>
  The readings of the clock in their order, the latency, and the database: which statements it takes, the
  id of a new task, and whether an approval counts as live when it is claimed.
\<close>

record decide_env =
  ev_used :: int64
  ev_pre :: int64
  ev_post :: int64
  ev_miss :: int64
  ev_latency :: int64
  ev_append :: append_env
  ev_taskOk :: bool
  ev_taskId :: int64
  ev_live :: bool

datatype enforcement = Verdict decision_context "result_requirements option" int64 int64 "refetch list" | BeforeDecideRound "proxy_command list"

definition createWireTask :: "decide_env \<Rightarrow> int64 \<Rightarrow> audit_db \<Rightarrow> (rpc_failure, int64) result \<times> audit_db" where
  "createWireTask ev decisionId db =
    (if ev_taskOk ev then (Inr (ev_taskId ev), db\<lparr>ad_tasks := ad_tasks db @ [\<lparr>wt_ID = ev_taskId ev, wt_SourceDecision = decisionId, wt_Status = APPROVED\<rparr>]\<rparr>)
     else (Inl TaskInsertFailed, db))"

text \<open>A denied task is claimed and failed; a claim is refused when the approval is not live.\<close>

definition failTask :: "decide_env \<Rightarrow> int64 \<Rightarrow> audit_db \<Rightarrow> (rpc_failure, unit) result \<times> audit_db" where
  "failTask ev tid db =
    (case (if ev_live ev then setStatus tid APPROVED EXECUTING db else (0, db)) of
       (claimed, db1) \<Rightarrow>
         if claimed = 0 then (Inl TaskNotClaimed, db1)
         else (case setStatus tid EXECUTING FAILED db1 of (failed, db2) \<Rightarrow> if failed = 0 then (Inl TaskNotFailed, db2) else (Inr (), db2)))"

definition recordWire :: "decide_env \<Rightarrow> kt_event \<Rightarrow> bool \<Rightarrow> bool \<Rightarrow> audit_db \<Rightarrow> (rpc_failure, int64) result \<times> audit_db" where
  "recordWire ev rec task denied db =
    (case kt_insert (ev_append ev) rec db of
       (Inl e, db1) \<Rightarrow> (Inl (AuditFailure e), db1)
     | (Inr i, db1) \<Rightarrow>
        if \<not> task then (Inr i, db1)
        else (case createWireTask ev i db1 of
          (Inl e, db2) \<Rightarrow> (Inl e, db2)
        | (Inr tid, db2) \<Rightarrow>
           if \<not> denied then (Inr i, db2)
           else (case failTask ev tid db2 of (Inl e, db3) \<Rightarrow> (Inl e, db3) | (Inr _, db3) \<Rightarrow> (Inr i, db3))))"

text \<open>A transaction that throws is rolled back.\<close>

definition inTx :: "(audit_db \<Rightarrow> ('e, 'a) result \<times> audit_db) \<Rightarrow> audit_db \<Rightarrow> ('e, 'a) result \<times> audit_db" where
  "inTx body db = (case body db of (Inl e, _) \<Rightarrow> (Inl e, db) | (Inr x, db') \<Rightarrow> (Inr x, db'))"

definition queryOf :: "core \<Rightarrow> registry \<Rightarrow> connection \<Rightarrow> decide_call \<Rightarrow> query_input" where
  "queryOf ko reg c ca =
    \<lparr>qi_principal = ca_principal ca, qi_ds = ca_ds ca, qi_sql = ca_sql ca, qi_channel = ca_channel ca,
     qi_columns = fst (heldCatalog ko reg c (ca_ds ca)), qi_functions = snd (heldCatalog ko reg c (ca_ds ca)), qi_providedRoles = ca_providedRoles ca,
     qi_context = noContext\<lparr>ax_requesterIp := parseRequesterIp (ca_clientAddr ca)\<rparr>, qi_liveSearchPath = Some (ca_searchPath ca),
     qi_session = ca_session ca, qi_tempColumns = ca_tempColumns ca\<rparr>"

definition wireGateDenied :: "core \<Rightarrow> decide_call \<Rightarrow> bool" where
  "wireGateDenied ko ca \<longleftrightarrow> ca_channel ca = WIRE \<and>
     \<not> autoApproveTask (ko_plane ko) (ca_principal ca) (pl_resolveParents (ko_plane ko) (ca_principal ca)) (ca_ds ca)
         (noContext\<lparr>ax_requesterIp := parseRequesterIp (ca_clientAddr ca)\<rparr>) WIRE"

text \<open>The context the verdict is given under, or the check of the target it waits for.\<close>

definition effectiveVerdict :: "core \<Rightarrow> decide_call \<Rightarrow> decision_context \<Rightarrow> decision_context option" where
  "effectiveVerdict ko ca d =
    (if wireGateDenied ko ca then Some (wireTaskForbiddenDeny (dx_effectiveRoles d) (dx_contextTags d))
     else if \<not> dx_checkTargetError d \<or> ca_channel ca \<noteq> WIRE \<or> \<not> dw_checksTargetErrors (ca_ds ca) then Some d
     else case ca_targetCheck ca of
       None \<Rightarrow> None
     | Some code \<Rightarrow> Some (if code \<noteq> [] then targetErrorAllow code d else d))"

text \<open>What the connection must fetch again after the statement.\<close>

definition afterStatementOf :: "registry \<Rightarrow> object_ref list \<Rightarrow> decision_context \<Rightarrow> connection \<Rightarrow> refetch list \<times> connection" where
  "afterStatementOf reg required d c =
    (let relays = (dx_action d \<noteq> ENF_DENY \<and> \<not> dx_forwardTargetError d)
     in if relays \<and> dx_catalogChanging d then markAfterStatement reg (required @ dx_referencedSchemas d @ dx_schemaCandidates d) c
        else if relays \<and> dx_statementKind d = KIND ''COMMIT'' then markAfterCommit reg c
        else ([], if relays \<and> dx_statementKind d = KIND ''ROLLBACK'' then clearDdlSinceLastCommit c else c))"

text \<open>The audit row, and on the wire the task, of a verdict.\<close>

definition recordVerdict :: "core \<Rightarrow> decide_env \<Rightarrow> decide_call \<Rightarrow> decision_context \<Rightarrow> audit_db \<Rightarrow> (rpc_failure, int64) result \<times> audit_db" where
  "recordVerdict ko ev ca d db =
    (let rec = decisionRecord (ca_principal ca) (ca_ds ca) (ca_sql ca) (ca_clientAddr ca) d (ev_latency ev) (ca_searchPath ca) (ca_channel ca)
     in inTx (recordWire ev rec (ca_channel ca = WIRE \<and> \<not> wireGateDenied ko ca) (dx_action d = ENF_DENY)) db)"

definition decideLocked :: "core \<Rightarrow> decide_env \<Rightarrow> decide_call \<Rightarrow> connection \<Rightarrow> registry \<times> audit_db \<Rightarrow>
    (rpc_failure, enforcement) result \<times> (registry \<times> audit_db)" where
  "decideLocked ko ev ca c = (\<lambda>(reg, db).
    (let put = (\<lambda>c'. putConnection (ca_connectionId ca) c' reg);
         wait = (\<lambda>(cmds, c'). (Inr (BeforeDecideRound (map Refetch cmds)), (put c', db)))
     in case namespaces (ca_ds ca) (filter (\<lambda>s. \<not> ed_isTempSchema (ds_engine (ca_ds ca)) s) (ca_searchPath ca)) of
          Inl e \<Rightarrow> (Inl (CatalogFailure e), (reg, db))
        | Inr required \<Rightarrow>
           (case freshnessGate reg c (ev_pre ev) required of
              s # ss \<Rightarrow> wait (markBeforeDecide reg (s # ss) c)
            | [] \<Rightarrow>
               (case decideQuery ko (queryOf ko reg c ca) of
                  (Thrown e, _) \<Rightarrow> (Inl (CapFailure e), (reg, db))
                | (Returned d, requirements) \<Rightarrow>
                   if dx_beforeDecide d \<noteq> [] then (Inr (BeforeDecideRound (dx_beforeDecide d)), (reg, db))
                   else (case freshnessGate reg c (ev_post ev) (dx_referencedSchemas d) of
                     s # ss \<Rightarrow> wait (markBeforeDecide reg (s # ss) c)
                   | [] \<Rightarrow>
                      let missing = filter (\<lambda>s. s \<notin> set (heldAndFreshSchemas reg c (ev_miss ev))) (dx_schemaCandidates d)
                      in if dx_catalogMiss d \<and> missing \<noteq> [] then wait (markCatalogMiss reg missing c)
                         else (case effectiveVerdict ko ca d of
                           None \<Rightarrow> (Inr (BeforeDecideRound [CheckTargetError]), (reg, db))
                         | Some d' \<Rightarrow>
                            (case afterStatementOf reg required d' c of (after, c') \<Rightarrow>
                              (case recordVerdict ko ev ca d' db of
                                 (Inl e, db') \<Rightarrow> (Inl e, (put c', db'))
                               | (Inr i, db') \<Rightarrow> (Inr (Verdict d' requirements i (co_generation c) after), (put c', db'))))))))))"

definition decideConnection :: "core \<Rightarrow> decide_env \<Rightarrow> decide_call \<Rightarrow> registry \<times> audit_db \<Rightarrow>
    (rpc_failure, enforcement) result option \<times> (registry \<times> audit_db)" where
  "decideConnection ko ev ca = (\<lambda>(reg, db).
    (case map_of (reg_connections reg) (ca_connectionId ca) of
       None \<Rightarrow> (None, (reg, db))
     | Some c \<Rightarrow>
        let c' = c\<lparr>co_lastUsed := ev_used ev\<rparr>
        in map_prod Some id (decideLocked ko ev ca c' (putConnection (ca_connectionId ca) c' reg, db))))"

subsection \<open>The service\<close>

text \<open>A command on the wire may lack its arm.\<close>

record wire_verdict =
  wv_decision :: enf_action
  wv_maxRows :: int64
  wv_maxBytes :: int64
  wv_denyReason :: string
  wv_denyCode :: string
  wv_masks :: "decided_mask list"
  wv_effectiveRoles :: "string list"
  wv_rewrittenSql :: "string option"
  wv_decisionId :: int64
  wv_unmaskablePermitted :: bool
  wv_generation :: int64
  wv_afterStatement :: "proxy_command option list"
  wv_sanitizeDiagnostics :: bool
  wv_forwardTargetError :: bool
  wv_submission :: "bytes option"
  wv_resultRequirements :: "result_requirements option"

datatype wire_decision = NoOutcome | WireVerdict wire_verdict | WireBeforeDecide "proxy_command option list"

definition toWireDecision :: "decision_context \<Rightarrow> result_requirements option \<Rightarrow> int64 \<Rightarrow> int64 \<Rightarrow> refetch list \<Rightarrow> wire_decision" where
  "toWireDecision d requirements auditId generation after =
    WireVerdict \<lparr>wv_decision = dx_action d, wv_maxRows = (case dx_maxRows d of None \<Rightarrow> 0 | Some n \<Rightarrow> n),
      wv_maxBytes = (case dx_maxBytes d of None \<Rightarrow> 0 | Some n \<Rightarrow> n), wv_denyReason = (case dx_denyReason d of None \<Rightarrow> [] | Some m \<Rightarrow> m),
      wv_denyCode = (case dx_denyCode d of None \<Rightarrow> [] | Some m \<Rightarrow> m), wv_masks = dx_masks d, wv_effectiveRoles = dx_effectiveRoles d,
      wv_rewrittenSql = dx_rewrittenSql d, wv_decisionId = auditId, wv_unmaskablePermitted = dx_unmaskablePermitted d, wv_generation = generation,
      wv_afterStatement = map (Some \<circ> Refetch) after, wv_sanitizeDiagnostics = dx_sanitizeDiagnostics d,
      wv_forwardTargetError = dx_forwardTargetError d, wv_submission = dx_submission d, wv_resultRequirements = requirements\<rparr>"

definition beforeDecideDecision :: "proxy_command list \<Rightarrow> wire_decision" where
  "beforeDecideDecision cmds = WireBeforeDecide (map Some cmds)"

record decision_request =
  rq_token :: string
  rq_datasourceName :: string
  rq_sql :: string
  rq_searchPath :: "string list"
  rq_clientAddr :: string
  rq_tempColumns :: "temp_column list"
  rq_connectionId :: bytes
  rq_session :: "bytes option"
  rq_currentCatalog :: string
  rq_targetCheck :: "string option"

definition editorTempOverlay :: "channel \<Rightarrow> engine_def \<Rightarrow> temp_column list \<Rightarrow> full_column list" where
  "editorTempOverlay ch eng temps =
    (if ch \<noteq> EDITOR then []
     else map (\<lambda>t. \<lparr>cc_catalog = tc_Catalog t, cc_schema = tc_Schema t, cc_table = tc_Table t, cc_column = tc_Column t, cc_classification = None,
            cc_isTemp = True, fx_dataType = tc_SqlType t, fx_sqlType = tc_SqlType t, fx_ordinal = tc_Ordinal t, fx_nullable = True,
            fx_implicit = False, fx_system = False\<rparr>)
       (filter (\<lambda>t. ed_isTempSchema eng (tc_Schema t)) temps))"

definition requireCatalog :: "datasource_row \<Rightarrow> string \<Rightarrow> bool" where
  "requireCatalog ds cat \<longleftrightarrow> \<not> isBlank cat \<and> dw_currentCatalog ds = Some cat"

definition pushedCatalog :: "datasource_row \<Rightarrow> (rpc_failure, string) result" where
  "pushedCatalog ds = (case dw_currentCatalog ds of
     None \<Rightarrow> Inl (Status FAILED_PRECONDITION (''datasource '' @ quoted (ds_name ds) @ '' has no catalog yet'')) | Some c \<Rightarrow> Inr c)"

definition sameBinding :: "binding \<Rightarrow> binding \<Rightarrow> bool" where
  "sameBinding a b \<longleftrightarrow> bi_datasource a = bi_datasource b \<and> bi_principal a = bi_principal b \<and> bi_tokenKind a = bi_tokenKind b \<and>
     bi_catalog a = bi_catalog b \<and> ed_wireName (bi_engine a) = ed_wireName (bi_engine b)"

definition orNone :: "string \<Rightarrow> string option" where
  "orNone s = (if isBlank s then None else Some s)"

definition callOf :: "decision_request \<Rightarrow> request_identity \<Rightarrow> datasource_row \<Rightarrow> decide_call" where
  "callOf r ident ds =
    \<lparr>ca_connectionId = rq_connectionId r, ca_principal = ti_principal (ri_identity ident), ca_ds = ds, ca_sql = rq_sql r,
     ca_searchPath = rq_searchPath r, ca_clientAddr = orNone (rq_clientAddr r), ca_session = rq_session r, ca_channel = ri_channel ident,
     ca_providedRoles = ri_providedRoles ident, ca_tempColumns = editorTempOverlay (ri_channel ident) (ds_engine ds) (rq_tempColumns r),
     ca_targetCheck = rq_targetCheck r\<rparr>"

definition bindingOf :: "request_identity \<Rightarrow> datasource_row \<Rightarrow> string \<Rightarrow> binding" where
  "bindingOf ident ds cat = \<lparr>bi_datasource = ds_name ds, bi_principal = ti_principal (ri_identity ident), bi_tokenKind = ti_kind (ri_identity ident),
     bi_catalog = Some cat, bi_engine = ds_engine ds\<rparr>"

text \<open>The checks before the connection is looked up.\<close>

definition checkRequest :: "core \<Rightarrow> decision_request \<Rightarrow> (rpc_failure, request_identity \<times> datasource_row \<times> string) result" where
  "checkRequest ko r =
     rbind (resolveRequestIdentity ko (rq_token r)) (\<lambda>ident.
       case ko_getByName ko (rq_datasourceName r) of
         None \<Rightarrow> Inl (Status NOT_FOUND (''unknown datasource '' @ quoted (rq_datasourceName r)))
       | Some ds \<Rightarrow>
          if \<not> (requireCatalog ds (rq_currentCatalog r) \<and> list_all (\<lambda>t. requireCatalog ds (tc_Catalog t)) (rq_tempColumns r))
          then Inl (Status INVALID_ARGUMENT ''datasource.invalid_catalog'')
          else if rq_connectionId r = [] then Inl (Status INVALID_ARGUMENT ''connection_id is required'')
          else rbind (pushedCatalog ds) (\<lambda>cat. Inr (ident, ds, cat)))"

definition decide :: "core \<Rightarrow> decide_env \<Rightarrow> decision_request \<Rightarrow> registry \<times> audit_db \<Rightarrow> (rpc_failure, wire_decision) result \<times> (registry \<times> audit_db)" where
  "decide ko ev r = (\<lambda>(reg, db).
    (case checkRequest ko r of
       Inl e \<Rightarrow> (Inl e, (reg, db))
     | Inr (ident, ds, cat) \<Rightarrow>
        (case map_of (reg_connections reg) (rq_connectionId r) of
           None \<Rightarrow>
             (case namespaces ds (rq_searchPath r @ dw_defaultSchemas ds @ dw_systemSchemas ds) of
                Inl e \<Rightarrow> (Inl (CatalogFailure e), (reg, db))
              | Inr schemas \<Rightarrow>
                 (case recover (rq_connectionId r) (bindingOf ident ds cat) schemas (dw_connectionIndependent ds) (ev_used ev) reg of
                    (None, reg') \<Rightarrow> (Inl (Status ABORTED ''connection recovery raced with another request''), (reg', db))
                  | (Some (_, cmds), reg') \<Rightarrow> (Inr (beforeDecideDecision (map Refetch cmds)), (reg', db))))
         | Some c \<Rightarrow>
             if \<not> sameBinding (co_binding c) (bindingOf ident ds cat) then (Inl (Status FAILED_PRECONDITION ''connection binding mismatch''), (reg, db))
             else (case decideConnection ko ev (callOf r ident ds) (reg, db) of
               (None, s) \<Rightarrow> (Inl (Status NOT_FOUND ''connection disappeared during Decide''), s)
             | (Some (Inl e), s) \<Rightarrow> (Inl e, s)
             | (Some (Inr (BeforeDecideRound cmds)), s) \<Rightarrow> (Inr (beforeDecideDecision cmds), s)
             | (Some (Inr (Verdict d requirements i g after)), s) \<Rightarrow> (Inr (toWireDecision d requirements i g after), s)))))"

subsection \<open>The client of the proxy\<close>

fun commandsFromWire :: "nat \<Rightarrow> proxy_command option list \<Rightarrow> (string, proxy_command list) result" where
  "commandsFromWire i [] = Inr []"
| "commandsFromWire i (None # cs) = Inl (''command '' @ FormatInt (int i) @ '' has no arm'')"
| "commandsFromWire i (Some c # cs) =
    (case c of
       Refetch f \<Rightarrow>
         if rf_catalog f = [] then Inl (''command '' @ FormatInt (int i) @ '' has blank catalog'')
         else if rf_schema f = [] then Inl (''command '' @ FormatInt (int i) @ '' has blank schema'')
         else map_sum id (Cons c) (commandsFromWire (i + 1) cs)
     | _ \<Rightarrow> map_sum id (Cons c) (commandsFromWire (i + 1) cs))"

definition emptyDecision :: decision where
  "emptyDecision = \<lparr>dc_Action = [], dc_DecisionID = 0, dc_DenyReason = [], dc_DenyCode = [], dc_Masks = [], dc_EffectiveRoles = [],
     dc_RewrittenSQL = None, dc_UnmaskablePermitted = False, dc_AfterStatement = [], dc_Generation = 0, dc_SanitizeDiagnostics = False,
     dc_ForwardTargetError = False, dc_TargetError = None, dc_MaxRows = 0, dc_MaxBytes = 0, dc_Submission = None, dc_ResultRequirements = None\<rparr>"

definition denyClosed :: "string \<Rightarrow> decision" where
  "denyClosed reason = emptyDecision\<lparr>dc_Action := ''DENY'', dc_DenyReason := reason\<rparr>"

definition columnMaskOf :: "decided_mask \<Rightarrow> column_mask" where
  "columnMaskOf m = \<lparr>cm_Column = dm_column m, cm_Kind = dm_kind m, cm_Ordinal = Some (dm_ordinal m)\<rparr>"

text \<open>How messages that are only passed on are encoded.\<close>

record wire_codec =
  wc_command :: "proxy_command \<Rightarrow> bytes"
  wc_requirements :: "result_requirements \<Rightarrow> bytes"

definition decisionFromWire :: "wire_codec \<Rightarrow> wire_decision \<Rightarrow> proxy_command list + decision" where
  "decisionFromWire wc d =
    (case d of
       WireBeforeDecide cmds \<Rightarrow>
         (case commandsFromWire 0 cmds of
            Inl e \<Rightarrow> Inr (denyClosed (''control plane returned malformed before-decision commands: '' @ e))
          | Inr [] \<Rightarrow> Inr (denyClosed ''control plane returned an empty before-decision round'')
          | Inr (c # cs) \<Rightarrow> Inl (c # cs))
     | NoOutcome \<Rightarrow> Inr (denyClosed ''control plane returned no verdict'')
     | WireVerdict v \<Rightarrow>
         if wv_submission v \<noteq> None \<and> wv_rewrittenSql v = None
         then Inr (denyClosed ''control plane returned a submission without rewritten SQL'')
         else (case commandsFromWire 0 (wv_afterStatement v) of
            Inl e \<Rightarrow> Inr (denyClosed (''control plane returned malformed after-statement commands: '' @ e))
          | Inr after \<Rightarrow>
             if wv_maxRows v < 0 \<or> wv_maxBytes v < 0 then Inr (denyClosed ''control plane returned a negative result cap'')
             else Inr \<lparr>dc_Action = EnfActionName (wv_decision v), dc_DecisionID = wv_decisionId v, dc_DenyReason = wv_denyReason v,
               dc_DenyCode = wv_denyCode v, dc_Masks = map columnMaskOf (wv_masks v), dc_EffectiveRoles = wv_effectiveRoles v,
               dc_RewrittenSQL = wv_rewrittenSql v, dc_UnmaskablePermitted = wv_unmaskablePermitted v,
               dc_AfterStatement = map (wc_command wc) after, dc_Generation = word_of_int (wv_generation v),
               dc_SanitizeDiagnostics = wv_sanitizeDiagnostics v, dc_ForwardTargetError = wv_forwardTargetError v, dc_TargetError = None,
               dc_MaxRows = wv_maxRows v, dc_MaxBytes = wv_maxBytes v, dc_Submission = wv_submission v,
               dc_ResultRequirements = map_option (wc_requirements wc) (wv_resultRequirements v)\<rparr>))"

text \<open>A failed call: a status with its message and the name of its code, or another error.\<close>

datatype transport_error = StatusError string string | Unreachable string

record 'w cp_client =
  gc_datasourceName :: string
  gc_codec :: wire_codec
  gc_rpc :: "decision_request \<Rightarrow> 'w \<Rightarrow> (transport_error, wire_decision option) result \<times> 'w"

definition sessionOf :: "session_snapshot \<Rightarrow> bytes option" where
  "sessionOf snapshot = ss_Observation (Clone snapshot)"

definition wireTemp :: "temp_column \<Rightarrow> temp_column" where
  "wireTemp t = t\<lparr>tc_Ordinal := sint (word_of_int (tc_Ordinal t) :: 32 word)\<rparr>"

definition wireRequest :: "string \<Rightarrow> 'w decide_request \<Rightarrow> decision_request" where
  "wireRequest ds req =
    \<lparr>rq_token = dr_Token req, rq_datasourceName = ds, rq_sql = dr_SQL req,
     rq_searchPath = (case ss_Namespace (dr_Snapshot req) of None \<Rightarrow> [] | Some ns \<Rightarrow> ns), rq_clientAddr = dr_ClientAddr req,
     rq_tempColumns = map wireTemp (dr_TempColumns req), rq_connectionId = dr_ConnectionID req, rq_session = sessionOf (dr_Snapshot req),
     rq_currentCatalog = ss_CurrentCatalog (dr_Snapshot req), rq_targetCheck = None\<rparr>"

text \<open>What a round changes: the commands left to run, the target's error and the check the request carries.\<close>

fun checkTargets :: "'w decide_request \<Rightarrow> proxy_command list \<Rightarrow> proxy_command list \<times> target_error option \<times> string option \<Rightarrow>
    ('w, string, proxy_command list \<times> target_error option \<times> string option) op" where
  "checkTargets req [] st w = (Inr st, w)"
| "checkTargets req (c # cs) (run, te, check) w =
    (if c \<noteq> CheckTargetError then checkTargets req cs (run @ [c], te, check) w
     else case dr_CheckTargetError req of
       None \<Rightarrow> (Inl ''control plane demanded a target error check but no checker is configured'', w)
     | Some f \<Rightarrow>
        (case f (dr_SQL req) w of
           (Inl e, w') \<Rightarrow> (Inl e, w')
         | (Inr observed, w') \<Rightarrow> checkTargets req cs (run, observed, Some (case observed of None \<Rightarrow> [] | Some t \<Rightarrow> te_Code t)) w'))"

definition runBeforeDecide :: "wire_codec \<Rightarrow> proxy_command list \<Rightarrow> 'w decide_request \<Rightarrow> decision_request \<Rightarrow> target_error option \<Rightarrow>
    ('w, string, 'w decide_request \<times> decision_request \<times> target_error option) op" where
  "runBeforeDecide wc cmds req wire te w =
    (case checkTargets req cmds ([], te, rq_targetCheck wire) w of
       (Inl e, w1) \<Rightarrow> (Inl e, w1)
     | (Inr (run, te', check), w1) \<Rightarrow>
        let wire' = wire\<lparr>rq_targetCheck := check\<rparr> in
        if run = [] then (Inr (req, wire', te'), w1)
        else case dr_Commands req of
          None \<Rightarrow> (Inl ''control plane demanded pre-decision commands but no runner is configured'', w1)
        | Some runner \<Rightarrow>
           (case runner (map (wc_command wc) run) (Some (dr_Snapshot req)) w1 of
              ((Some e, _), w2) \<Rightarrow> (Inl e, w2)
            | ((None, snap), w2) \<Rightarrow>
               let snapshot = (case snap of None \<Rightarrow> dr_Snapshot req | Some s \<Rightarrow> s)
               in (Inr (req\<lparr>dr_Snapshot := snapshot\<rparr>, wire'\<lparr>rq_session := sessionOf snapshot\<rparr>, te'), w2)))"

definition failedOutcome :: "string \<Rightarrow> decision_outcome" where
  "failedOutcome m = \<lparr>do_Decision = None, do_Err = m, do_TargetError = None\<rparr>"

text \<open>The rounds that are left; after three the fourth request for commands is refused.\<close>

fun decideRounds :: "'w cp_client \<Rightarrow> nat \<Rightarrow> 'w decide_request \<Rightarrow> decision_request \<Rightarrow> target_error option \<Rightarrow> 'w \<Rightarrow> decision_outcome \<times> 'w" where
  "decideRounds gc left req wire te w =
    (case gc_rpc gc wire w of
       (Inl (StatusError m code), w1) \<Rightarrow> (failedOutcome (if m = [] then code else m), w1)
     | (Inl (Unreachable m), w1) \<Rightarrow> (failedOutcome (''control plane unreachable: '' @ m), w1)
     | (Inr None, w1) \<Rightarrow> (failedOutcome ''control plane returned an empty decision'', w1)
     | (Inr (Some d), w1) \<Rightarrow>
        (case decisionFromWire (gc_codec gc) d of
           Inr dec \<Rightarrow> (\<lparr>do_Decision = Some dec, do_Err = [], do_TargetError = te\<rparr>, w1)
         | Inl cmds \<Rightarrow>
            (case left of
               0 \<Rightarrow> (failedOutcome ''control plane demanded pre-decision commands 4 times'', w1)
             | Suc n \<Rightarrow>
                (case runBeforeDecide (gc_codec gc) cmds req wire te w1 of
                   (Inl e, w2) \<Rightarrow> (failedOutcome (''pre-decision commands failed: '' @ e), w2)
                 | (Inr (req', wire', te'), w2) \<Rightarrow> decideRounds gc n req' wire' te' w2))))"

definition clientDecide :: "'w cp_client \<Rightarrow> 'w decide_request \<Rightarrow> 'w \<Rightarrow> decision_outcome \<times> 'w" where
  "clientDecide gc req w = decideRounds gc 3 req (wireRequest (gc_datasourceName gc) req) None w"

declare decideRounds.simps [simp del]

subsection \<open>Going back from a served decision\<close>

lemma runBeforeDecide_same:
  assumes "runBeforeDecide wc cmds req wire te w = (Inr (req', wire', te'), w')"
  shows "rq_sql wire' = rq_sql wire" "rq_token wire' = rq_token wire" "rq_connectionId wire' = rq_connectionId wire"
    "rq_datasourceName wire' = rq_datasourceName wire" "rq_clientAddr wire' = rq_clientAddr wire"
  using assms
  by (auto simp: runBeforeDecide_def Let_def split: prod.splits sum.splits option.splits if_splits)

text \<open>A decision of the client is the reading of an answer to a request for the same statement.\<close>

definition asks :: "decision_request \<Rightarrow> decision_request \<Rightarrow> bool" where
  "asks r wire \<longleftrightarrow> rq_sql r = rq_sql wire \<and> rq_token r = rq_token wire \<and> rq_connectionId r = rq_connectionId wire \<and>
     rq_datasourceName r = rq_datasourceName wire \<and> rq_clientAddr r = rq_clientAddr wire"

lemma decideRounds_decision:
  assumes "decideRounds gc n req wire te w = (out, w')" "do_Decision out = Some dec"
  shows "\<exists>r w1 w2 d. asks r wire \<and> gc_rpc gc r w1 = (Inr (Some d), w2) \<and> decisionFromWire (gc_codec gc) d = Inr dec"
  using assms
proof (induction gc n req wire te w rule: decideRounds.induct)
  case (1 gc left req wire te w)
  obtain res w1 where rpc: "gc_rpc gc wire w = (res, w1)" by (cases "gc_rpc gc wire w")
  from 1(2,3) rpc obtain d where res: "res = Inr (Some d)"
    by (subst (asm) decideRounds.simps) (auto simp: failedOutcome_def split: sum.splits option.splits transport_error.splits)
  show ?case
  proof (cases "decisionFromWire (gc_codec gc) d")
    case (Inr dec')
    with 1(2,3) rpc res have "dec' = dec" by (subst (asm) decideRounds.simps) auto
    with Inr rpc res show ?thesis by (auto simp: asks_def)
  next
    case (Inl cmds)
    from 1(2,3) rpc res Inl obtain m req' wire' te' w2 where s: "left = Suc m"
      "runBeforeDecide (gc_codec gc) cmds req wire te w1 = (Inr (req', wire', te'), w2)" "decideRounds gc m req' wire' te' w2 = (out, w')"
      by (subst (asm) decideRounds.simps) (auto simp: failedOutcome_def split: nat.splits prod.splits sum.splits)
    from 1(1)[OF rpc[symmetric] res refl Inl s(1) s(2)[symmetric] refl refl refl s(3) 1(3)] obtain r w3 w4 d'
      where "asks r wire'" "gc_rpc gc r w3 = (Inr (Some d'), w4)" "decisionFromWire (gc_codec gc) d' = Inr dec" by blast
    then show ?thesis using runBeforeDecide_same[OF s(2)] unfolding asks_def by metis
  qed
qed

subsection \<open>Going back from a verdict\<close>

lemma gate_open:
  "freshnessGate reg c now required = [] \<longleftrightarrow> (\<forall>s\<in>set required. gated c s \<longrightarrow> \<not> stale reg c now s)"
  by (auto simp: freshnessGate_def filter_empty_conv)

text \<open>Marking a connection as used changes none of what a decision reads.\<close>

lemma touch_same [simp]:
  "gated (c\<lparr>co_lastUsed := t\<rparr>) = gated c"
  "stale (putConnection k c' reg) (c\<lparr>co_lastUsed := t\<rparr>) = stale reg c"
  "structuralRows (putConnection k c' reg) (c\<lparr>co_lastUsed := t\<rparr>) = structuralRows reg c"
  "heldRoutines (putConnection k c' reg) (c\<lparr>co_lastUsed := t\<rparr>) = heldRoutines reg c"
  by (simp_all add: gated_def stale_def authoritativeHash_def putConnection_def structuralRows_def heldRoutines_def fun_eq_iff
      cong: option.case_cong)

lemma touch_query [simp]: "queryOf ko (putConnection k c' reg) (c\<lparr>co_lastUsed := t\<rparr>) ca = queryOf ko reg c ca"
  by (simp add: queryOf_def heldCatalog_def)

lemma decideLocked_Verdict:
  assumes "decideLocked ko ev ca c (reg, db) = (Inr (Verdict d' requirements i g after), s')"
  obtains required d db' c' where
    "namespaces (ca_ds ca) (filter (\<lambda>s. \<not> ed_isTempSchema (ds_engine (ca_ds ca)) s) (ca_searchPath ca)) = Inr required"
    "freshnessGate reg c (ev_pre ev) required = []" "decideQuery ko (queryOf ko reg c ca) = (Returned d, requirements)"
    "freshnessGate reg c (ev_post ev) (dx_referencedSchemas d) = []" "effectiveVerdict ko ca d = Some d'"
    "recordVerdict ko ev ca d' db = (Inr i, db')" "g = co_generation c" "s' = (putConnection (ca_connectionId ca) c' reg, db')"
proof -
  let ?ns = "namespaces (ca_ds ca) (filter (\<lambda>s. \<not> ed_isTempSchema (ds_engine (ca_ds ca)) s) (ca_searchPath ca))"
  let ?q = "decideQuery ko (queryOf ko reg c ca)"
  note D = decideLocked_def Let_def
  from assms obtain required where r: "?ns = Inr required" by (cases ?ns) (simp_all add: D)
  from assms r have f: "freshnessGate reg c (ev_pre ev) required = []"
    by (cases "freshnessGate reg c (ev_pre ev) required") (simp_all add: D case_prod_beta)
  obtain out rq where o: "?q = (out, rq)" by (cases ?q)
  from assms r f o obtain d where "out = Returned d" by (cases out) (simp_all add: D)
  with o have q: "?q = (Returned d, rq)" by simp
  from assms r f q have b: "dx_beforeDecide d = []" by (cases "dx_beforeDecide d") (simp_all add: D case_prod_beta)
  from assms r f q b have p: "freshnessGate reg c (ev_post ev) (dx_referencedSchemas d) = []"
    by (cases "freshnessGate reg c (ev_post ev) (dx_referencedSchemas d)") (simp_all add: D case_prod_beta)
  note known = r f q b p
  from assms known obtain e where e: "effectiveVerdict ko ca d = Some e"
    by (cases "effectiveVerdict ko ca d") (simp_all add: D case_prod_beta split: if_splits)
  obtain res db' where rec: "recordVerdict ko ev ca e db = (res, db')" by (cases "recordVerdict ko ev ca e db")
  from assms known e rec have "\<exists>c'. (case res of Inl x \<Rightarrow> False | Inr j \<Rightarrow>
      e = d' \<and> rq = requirements \<and> j = i \<and> g = co_generation c \<and> s' = (putConnection (ca_connectionId ca) c' reg, db'))"
    by (cases res) (auto simp: D case_prod_beta split: if_splits)
  then show thesis using that[OF r f _ p] q e rec by (cases res) auto
qed

lemma decideConnection_Verdict:
  assumes "decideConnection ko ev ca (reg, db) = (Some (Inr (Verdict d' requirements i g after)), s')"
  obtains c required d db' reg' where "map_of (reg_connections reg) (ca_connectionId ca) = Some c"
    "namespaces (ca_ds ca) (filter (\<lambda>s. \<not> ed_isTempSchema (ds_engine (ca_ds ca)) s) (ca_searchPath ca)) = Inr required"
    "\<forall>s\<in>set required. gated c s \<longrightarrow> \<not> stale reg c (ev_pre ev) s" "decideQuery ko (queryOf ko reg c ca) = (Returned d, requirements)"
    "\<forall>s\<in>set (dx_referencedSchemas d). gated c s \<longrightarrow> \<not> stale reg c (ev_post ev) s" "effectiveVerdict ko ca d = Some d'"
    "recordVerdict ko ev ca d' db = (Inr i, db')" "g = co_generation c" "s' = (reg', db')"
proof -
  from assms obtain c where c: "map_of (reg_connections reg) (ca_connectionId ca) = Some c"
    by (cases "map_of (reg_connections reg) (ca_connectionId ca)") (simp_all add: decideConnection_def)
  let ?c = "c\<lparr>co_lastUsed := ev_used ev\<rparr>"
  obtain res s where l: "decideLocked ko ev ca ?c (putConnection (ca_connectionId ca) ?c reg, db) = (res, s)"
    by (cases "decideLocked ko ev ca ?c (putConnection (ca_connectionId ca) ?c reg, db)")
  with assms c have "res = Inr (Verdict d' requirements i g after)" "s = s'" by (simp_all add: decideConnection_def Let_def)
  with l have "decideLocked ko ev ca ?c (putConnection (ca_connectionId ca) ?c reg, db) = (Inr (Verdict d' requirements i g after), s')" by simp
  then show thesis
    by (rule decideLocked_Verdict) (rule that[OF c]; simp add: gate_open)
qed

text \<open>What a verdict leaves in the database: its row at the end of the trail, and its task on the wire.\<close>

lemma kt_insert_appends:
  assumes "kt_insert env rec db = (Inr i, db')"
  shows "\<exists>ts h rh. ad_events db' = ad_events db @ [\<lparr>se_ID = i, se_Event = storedEvent rec ts, se_ChainVersion = Some 1, se_PrevHash = h, se_RowHash = rh\<rparr>]"
    and "ad_tasks db' = ad_tasks db"
proof -
  from assms obtain k h rh db1 ts where d:
      "sqlInsert (ok_insert env) \<lparr>se_ID = i, se_Event = storedEvent rec ts, se_ChainVersion = Some 1, se_PrevHash = h, se_RowHash = rh\<rparr> db = Some db1"
      "sqlAdvance (ok_advance env) i rh db1 = Some db'"
    by (elim kt_insert_Inr)
  then show "\<exists>ts h rh. ad_events db' = ad_events db @ [\<lparr>se_ID = i, se_Event = storedEvent rec ts, se_ChainVersion = Some 1, se_PrevHash = h, se_RowHash = rh\<rparr>]"
    using sql_appends by metis
  from d show "ad_tasks db' = ad_tasks db" by (auto simp: sqlInsert_def sqlAdvance_def Let_def split: if_splits)
qed

lemma failTask_last:
  assumes "failTask ev tid db = (Inr u, db')" "ad_tasks db = ts @ [\<lparr>wt_ID = tid, wt_SourceDecision = i, wt_Status = APPROVED\<rparr>]"
  shows "ad_events db' = ad_events db" "last (ad_tasks db') = \<lparr>wt_ID = tid, wt_SourceDecision = i, wt_Status = FAILED\<rparr>"
    "length (ad_tasks db') = length (ad_tasks db)"
  using assms by (auto simp: failTask_def setStatus_def split: if_splits)

lemma recordWire_Inr:
  assumes "recordWire ev rec task denied db = (Inr i, db')"
  shows "\<exists>ts h rh. ad_events db' = ad_events db @ [\<lparr>se_ID = i, se_Event = storedEvent rec ts, se_ChainVersion = Some 1, se_PrevHash = h, se_RowHash = rh\<rparr>]"
    "length (ad_tasks db') = length (ad_tasks db) + of_bool task"
    "task \<Longrightarrow> last (ad_tasks db') = \<lparr>wt_ID = ev_taskId ev, wt_SourceDecision = i, wt_Status = if denied then FAILED else APPROVED\<rparr>"
proof -
  obtain r db1 where k: "kt_insert (ev_append ev) rec db = (r, db1)" by (cases "kt_insert (ev_append ev) rec db")
  from assms k obtain j where r: "r = Inr j" by (cases r) (simp_all add: recordWire_def)
  note K = kt_insert_appends[OF k[unfolded r]]
  let ?t = "\<lparr>wt_ID = ev_taskId ev, wt_SourceDecision = j, wt_Status = APPROVED\<rparr>"
  let ?db = "db1\<lparr>ad_tasks := ad_tasks db1 @ [?t]\<rparr>"
  have "j = i \<and> ad_events db' = ad_events db1 \<and> length (ad_tasks db') = length (ad_tasks db1) + of_bool task \<and>
    (task \<longrightarrow> last (ad_tasks db') = \<lparr>wt_ID = ev_taskId ev, wt_SourceDecision = i, wt_Status = if denied then FAILED else APPROVED\<rparr>)"
  proof (cases "task \<and> denied")
    case True
    obtain x db3 where f: "failTask ev (ev_taskId ev) ?db = (x, db3)" by (cases "failTask ev (ev_taskId ev) ?db")
    from assms k r True f obtain u where x: "x = Inr u" and "j = i" "db3 = db'"
      by (cases x) (auto simp: recordWire_def createWireTask_def split: if_splits)
    with True failTask_last[OF f[unfolded x]] show ?thesis by simp
  next
    case False
    with assms k r show ?thesis by (auto simp: recordWire_def createWireTask_def split: if_splits)
  qed
  with K show "\<exists>ts h rh. ad_events db' = ad_events db @ [\<lparr>se_ID = i, se_Event = storedEvent rec ts, se_ChainVersion = Some 1, se_PrevHash = h, se_RowHash = rh\<rparr>]"
    "length (ad_tasks db') = length (ad_tasks db) + of_bool task"
    "task \<Longrightarrow> last (ad_tasks db') = \<lparr>wt_ID = ev_taskId ev, wt_SourceDecision = i, wt_Status = if denied then FAILED else APPROVED\<rparr>"
    by auto
qed

lemma recordVerdict_row:
  assumes "recordVerdict ko ev ca d db = (Inr i, db')"
  shows "i \<in> se_ID ` set (drop (length (ad_events db)) (ad_events db'))"
proof -
  from assms have "\<exists>rec task denied. recordWire ev rec task denied db = (Inr i, db')"
    by (auto simp: recordVerdict_def inTx_def Let_def split: prod.splits sum.splits)
  then obtain rec task denied where "recordWire ev rec task denied db = (Inr i, db')" by blast
  from recordWire_Inr(1)[OF this] show ?thesis by auto
qed

lemma effectiveVerdict_Some:
  assumes "effectiveVerdict ko ca d = Some d'"
  shows "if wireGateDenied ko ca then dx_action d' = ENF_DENY else d' = d \<or> dx_forwardTargetError d'"
  using assms by (auto simp: effectiveVerdict_def wireTaskForbiddenDeny_def targetErrorAllow_def split: if_splits option.splits)

lemma decideQuery_permitted:
  assumes "decideQuery ko q = (Returned d, requirements)" "dx_action d \<noteq> ENF_DENY"
  obtains rows f where "analyzed ko q = Inr (rows, f)" "decideFacts (ko_plane ko) (factsInput q rows f) = Returned d"
  using assms by (auto simp: decideQuery_def Let_def split: if_splits sum.splits)

lemma decide_WireVerdict:
  assumes "decide ko ev r (reg, db) = (Inr (WireVerdict v), s')"
  obtains ident ds cat c d requirements i g after where "checkRequest ko r = Inr (ident, ds, cat)"
    "map_of (reg_connections reg) (rq_connectionId r) = Some c" "sameBinding (co_binding c) (bindingOf ident ds cat)"
    "decideConnection ko ev (callOf r ident ds) (reg, db) = (Some (Inr (Verdict d requirements i g after)), s')"
    "toWireDecision d requirements i g after = WireVerdict v"
proof -
  from assms obtain ident ds cat where k: "checkRequest ko r = Inr (ident, ds, cat)"
    by (cases "checkRequest ko r") (auto simp: decide_def)
  from assms k obtain c where c: "map_of (reg_connections reg) (rq_connectionId r) = Some c"
    by (cases "map_of (reg_connections reg) (rq_connectionId r)")
      (auto simp: decide_def beforeDecideDecision_def split: sum.splits prod.splits option.splits)
  from assms k c have b: "sameBinding (co_binding c) (bindingOf ident ds cat)" by (auto simp: decide_def split: if_splits)
  obtain res s where d: "decideConnection ko ev (callOf r ident ds) (reg, db) = (res, s)"
    by (cases "decideConnection ko ev (callOf r ident ds) (reg, db)")
  with assms k c b show thesis using that[OF k c b]
    by (auto simp: decide_def beforeDecideDecision_def split: option.splits sum.splits enforcement.splits)
qed

lemma decisionFromWire_served:
  assumes "decisionFromWire wc w = Inr dec" "dc_Action dec \<noteq> ''DENY''"
  obtains v where "w = WireVerdict v" "dc_Action dec = EnfActionName (wv_decision v)" "dc_Masks dec = map columnMaskOf (wv_masks v)"
    "dc_DecisionID dec = wv_decisionId v" "dc_RewrittenSQL dec = wv_rewrittenSql v" "dc_ForwardTargetError dec = wv_forwardTargetError v"
    "dc_MaxRows dec = wv_maxRows v" "dc_MaxBytes dec = wv_maxBytes v"
  using assms
  by (auto simp: decisionFromWire_def denyClosed_def emptyDecision_def split: wire_decision.splits sum.splits list.splits if_splits)

lemma EnfActionName_served: "EnfActionName a = ''ALLOW'' \<longleftrightarrow> a = ENF_ALLOW" "EnfActionName a = ''MASK'' \<longleftrightarrow> a = ENF_MASK"
  by (cases a; simp add: EnfActionName_def)+

text \<open>
  \<open>decidedFor ko q d dec\<close>: to the request \<open>q\<close> the service gave the decision \<open>dec\<close> on the grounds of \<open>d\<close>: it
  resolved the token to the principal the connection is bound to, with the task gate open, analysed the text
  against the catalog the connection held, decided ALLOW or MASK on the facts, and put the row on the trail.
\<close>

definition decidedFor :: "core \<Rightarrow> decision_request \<Rightarrow> decision_context \<Rightarrow> decision \<Rightarrow> bool" where
  "decidedFor ko q d dec \<longleftrightarrow> (\<exists>ev wd reg db reg' db' ident ds cat c rows f.
     decide ko ev q (reg, db) = (Inr wd, (reg', db')) \<and>
     checkRequest ko q = Inr (ident, ds, cat) \<and> map_of (reg_connections reg) (rq_connectionId q) = Some c \<and>
     bi_principal (co_binding c) = ti_principal (ri_identity ident) \<and> bi_datasource (co_binding c) = ds_name ds \<and>
     \<not> wireGateDenied ko (callOf q ident ds) \<and>
     analyzed ko (queryOf ko reg c (callOf q ident ds)) = Inr (rows, f) \<and>
     decideFacts (ko_plane ko) (factsInput (queryOf ko reg c (callOf q ident ds)) rows f) = Returned d \<and>
     dx_action d \<in> {ENF_ALLOW, ENF_MASK} \<and>
     dc_DecisionID dec \<in> se_ID ` set (drop (length (ad_events db)) (ad_events db')) \<and>
     dc_Masks dec = map columnMaskOf (dx_masks d) \<and> dc_RewrittenSQL dec = dx_rewrittenSql d \<and> dc_Action dec = EnfActionName (dx_action d))"

lemma decide_decidedFor:
  assumes "decide ko ev q (reg, db) = (Inr wd, (reg', db'))" "decisionFromWire wc wd = Inr dec"
    and ok: "dc_Action dec \<noteq> ''DENY''" "\<not> dc_ForwardTargetError dec"
  shows "\<exists>d. decidedFor ko q d dec"
proof -
  from assms(2) ok(1) obtain v where v: "wd = WireVerdict v" "dc_Action dec = EnfActionName (wv_decision v)" "dc_Masks dec = map columnMaskOf (wv_masks v)"
    "dc_DecisionID dec = wv_decisionId v" "dc_RewrittenSQL dec = wv_rewrittenSql v" "dc_ForwardTargetError dec = wv_forwardTargetError v"
    by (rule decisionFromWire_served)
  from assms(1)[unfolded v(1)] obtain ident ds cat c d requirements i g after where k: "checkRequest ko q = Inr (ident, ds, cat)"
    "map_of (reg_connections reg) (rq_connectionId q) = Some c" "sameBinding (co_binding c) (bindingOf ident ds cat)"
    and dv: "decideConnection ko ev (callOf q ident ds) (reg, db) = (Some (Inr (Verdict d requirements i g after)), (reg', db'))"
    and w: "toWireDecision d requirements i g after = WireVerdict v" by (rule decide_WireVerdict)
  from w have vd: "wv_decision v = dx_action d" "wv_masks v = dx_masks d" "wv_decisionId v = i" "wv_rewrittenSql v = dx_rewrittenSql d"
    "wv_forwardTargetError v = dx_forwardTargetError d" by (auto simp: toWireDecision_def)
  have act: "dx_action d \<in> {ENF_ALLOW, ENF_MASK}" using ok(1) v(2) vd(1) by (cases "dx_action d") (auto simp: EnfActionName_def)
  obtain c1 required d0 db1 reg1 where c1: "map_of (reg_connections reg) (ca_connectionId (callOf q ident ds)) = Some c1"
    and dq: "decideQuery ko (queryOf ko reg c1 (callOf q ident ds)) = (Returned d0, requirements)"
    and e: "effectiveVerdict ko (callOf q ident ds) d0 = Some d"
    and rec: "recordVerdict ko ev (callOf q ident ds) d db = (Inr i, db1)" and "(reg', db') = (reg1, db1)"
    using dv by (rule decideConnection_Verdict)
  from effectiveVerdict_Some[OF e] act ok(2) v(6) vd(5) have gate: "\<not> wireGateDenied ko (callOf q ident ds)" "d0 = d" by (auto split: if_splits)
  from c1 k(2) have "c1 = c" by (simp add: callOf_def)
  with dq gate(2) act obtain rows f where "analyzed ko (queryOf ko reg c (callOf q ident ds)) = Inr (rows, f)"
    "decideFacts (ko_plane ko) (factsInput (queryOf ko reg c (callOf q ident ds)) rows f) = Returned d" by (auto elim: decideQuery_permitted)
  moreover from recordVerdict_row[OF rec] \<open>(reg', db') = (reg1, db1)\<close>
  have "dc_DecisionID dec \<in> se_ID ` set (drop (length (ad_events db)) (ad_events db'))" by (simp add: v(4) vd(3))
  moreover have "bi_principal (co_binding c) = ti_principal (ri_identity ident)" "bi_datasource (co_binding c) = ds_name ds"
    using k(3) by (simp_all add: sameBinding_def bindingOf_def)
  ultimately have "decidedFor ko q d dec"
    unfolding decidedFor_def using assms(1) k(1,2) gate(1) act v(2,3,5) vd(1,2,4) by metis
  then show ?thesis ..
qed

lemma maskFor_columnMaskOf:
  "distinct (map dm_ordinal ms) \<Longrightarrow> m \<in> set ms \<Longrightarrow> dm_ordinal m = int j \<Longrightarrow> maskFor (map columnMaskOf ms) j = Some (columnMaskOf m)"
  by (induction ms) (auto simp: maskFor_def columnMaskOf_def image_iff)

subsection \<open>Caps on the wire\<close>

text \<open>An amount is positive, so no cap of a policy is the 0 that stands for no cap on the wire.\<close>

definition positiveCap :: "result_cap \<Rightarrow> bool" where
  "positiveCap c \<longleftrightarrow> pred_option ((<) 0) (rc_rows c) \<and> pred_option ((<) 0) (rc_bytes c)"

lemma amountSuffixes_positive: "map_of amountSuffixes sfx = Some (Some k) \<Longrightarrow> 0 < k"
  by (drule map_of_SomeD) (auto simp: amountSuffixes_def)

lemma digitsThen_positive: "digitsThen s = Some (n, tail) \<Longrightarrow> 0 < n"
  by (auto simp: digitsThen_def split: option.splits if_splits)

lemma parseAmount_positive:
  assumes "parseAmount raw = Inr (r, b)"
  shows "pred_option ((<) 0) r" "pred_option ((<) 0) b"
proof -
  from assms obtain n tail sfx where n: "digitsThen (ktTrim raw) = Some (n, tail)" "map_of amountSuffixes tail = Some sfx"
    by (auto simp: parseAmount_def split: option.splits)
  with assms amountSuffixes_positive digitsThen_positive[OF n(1)] show "pred_option ((<) 0) r" "pred_option ((<) 0) b"
    by (cases sfx; auto simp: parseAmount_def exact64_def rbind_eq_Inr_iff split: if_splits)+
qed

lemma minOption_positive: "pred_option ((<) 0) x \<Longrightarrow> pred_option ((<) 0) y \<Longrightarrow> pred_option ((<) 0) (minOption x y)"
  by (auto simp: minOption_def split: option.splits)

lemma addEntry_positive:
  assumes "addEntry raw e c = Inr c'" "positiveCap c"
  shows "positiveCap c'"
proof (cases "CHR ''/'' \<in> set e")
  case True
  with assms show ?thesis by (auto simp: addEntry_def positiveCap_def rbind_eq_Inr_iff split: if_splits)
next
  case False
  with assms(1) obtain r b where p: "parseAmount e = Inr (r, b)" "c' = c\<lparr>rc_rows := minOption (rc_rows c) r, rc_bytes := minOption (rc_bytes c) b\<rparr>"
    by (auto simp: addEntry_def rbind_eq_Inr_iff split: if_splits)
  with parseAmount_positive[OF p(1)] assms(2) show ?thesis by (simp add: positiveCap_def minOption_positive)
qed

lemma addEntries_positive: "addEntries raw es c = Inr c' \<Longrightarrow> positiveCap c \<Longrightarrow> positiveCap c'"
proof (induction es arbitrary: c)
  case (Cons e es)
  then show ?case by (auto simp: rbind_eq_Inr_iff intro: addEntry_positive)
qed simp

lemma parseCap_positive: "parseCap annotations = Inr c \<Longrightarrow> positiveCap c"
proof -
  have "positiveCap (noCap\<lparr>rc_boost := x\<rparr>)" for x by (simp add: noCap_def positiveCap_def)
  then show "parseCap annotations = Inr c \<Longrightarrow> positiveCap c"
    by (auto simp: parseCap_def rbind_eq_Inr_iff intro: addEntries_positive split: option.splits)
qed

lemma capsOfPolicies_positive: "capsOfPolicies annotations ps = Inr cs \<Longrightarrow> (k, c) \<in> set cs \<Longrightarrow> positiveCap c"
proof (induction ps arbitrary: cs)
  case (Cons p ps)
  then show ?case by (auto simp: rbind_eq_Inr_iff dest: parseCap_positive)
qed simp

lemma rebuilt_positive:
  assumes "rebuildIfStale annotations v srcs emptyCache = Inr st" "c \<in> set (capsOf st reasons)"
  shows "positiveCap c"
proof -
  from assms(1) obtain ps caps where caps: "capsOfPolicies annotations ps = Inr caps"
    and st: "ca_caps st = filter (\<lambda>(i, c). \<not> isEmptyCap c) (AList.clearjunk (rev caps))"
    by (auto simp: rebuildIfStale_def emptyCache_def rbind_eq_Inr_iff Let_def)
  from assms(2) obtain k where "map_of (ca_caps st) k = Some c" by (auto simp: capsOf_def set_map_filter)
  then have "(k, c) \<in> set (AList.clearjunk (rev caps))" by (auto simp: st dest!: map_of_SomeD)
  then have "map_of (rev caps) k = Some c" by (metis distinct_clearjunk map_of_clearjunk map_of_is_SomeI)
  then have "(k, c) \<in> set caps" by (auto dest: map_of_SomeD)
  with capsOfPolicies_positive[OF caps] show ?thesis by blast
qed

lemma collectCaps_sub: "collectCaps ask caps es = Some cs \<Longrightarrow> \<forall>c\<in>set cs. \<exists>reasons. c \<in> set (caps reasons)"
  by (induction ask caps es arbitrary: cs rule: collectCaps.induct) (fastforce split: cedar_response.splits if_splits)+

lemma minOf_positive: "minOf xs = Some n \<Longrightarrow> \<forall>x\<in>set xs. 0 < x \<Longrightarrow> 0 < n"
  by (auto simp: minOf_def split: if_splits)

lemma resolved_positive:
  assumes "rebuildIfStale annotations v srcs emptyCache = Inr (ce_cache en)"
    and "r = resolveResultCaps en who ps ds resources ctx dsTags"
  shows "pred_option ((<) 0) (rv_rows r) \<and> pred_option ((<) 0) (rv_bytes r)"
proof -
  obtain ask es where r: "r = foldCaps (collectCaps ask (capsOf (ce_cache en)) es)"
    using resolveResultCaps_collect[of en who ps ds resources ctx dsTags] assms(2) by blast
  show ?thesis
  proof (cases "collectCaps ask (capsOf (ce_cache en)) es")
    case (Some cs)
    from collectCaps_sub[OF Some] rebuilt_positive[OF assms(1)] have "\<forall>c\<in>set cs. positiveCap c" by blast
    then show ?thesis by (auto simp: r Some foldCaps_def positiveCap_def pred_option_def set_map_filter elim!: minOf_positive)
  qed (simp add: r foldCaps_def)
qed

subsection \<open>Recovery\<close>

lemma authoritative_pooled:
  assumes "exact reg" "map_of (reg_authoritative reg) k = Some a"
  shows "reg_pool reg (au_pooledRef a) \<noteq> None"
proof -
  have "{#au_pooledRef a#} \<subseteq># msetOver (\<lambda>a. {#au_pooledRef a#}) (reg_authoritative reg)" using assms(2) by (rule msetOver_member)
  then have "au_pooledRef a \<in># refs reg" by (auto simp: refs_def dest: mset_subset_eqD)
  with counted_None[OF exact_pool[OF assms(1)]] show ?thesis by blast
qed

lemma adopting_asks_nothing:
  assumes "\<forall>s\<in>set ss. \<exists>a. map_of (reg_authoritative reg) (bi_datasource (co_binding c), s) = Some a \<and> pool (au_pooledRef a) \<noteq> None"
  shows "fst (fold (issueOne reg True) ss (cmds, c, pool)) = cmds"
  using assms
proof (induction ss arbitrary: c pool)
  case (Cons s ss)
  then obtain a p where a: "map_of (reg_authoritative reg) (bi_datasource (co_binding c), s) = Some a" "pool (au_pooledRef a) = Some p" by auto
  let ?h = "\<lparr>hs_pooledRef = au_pooledRef a, hs_hash = au_hash a, hs_lastFetch = au_lastInspected a, hs_lastVerified = au_lastInspected a, hs_revalidated = None\<rparr>"
  let ?c = "c\<lparr>co_held := AList.update s ?h (co_held c)\<rparr>" and ?pool = "snd (retain (pf_fragment p) 1 pool)"
  have "issueOne reg True s (cmds, c, pool) = (cmds, ?c, ?pool)" by (simp add: issueOne_def Let_def a)
  moreover have "fst (fold (issueOne reg True) ss (cmds, ?c, ?pool)) = cmds"
    by (rule Cons.IH) (use Cons.prems in \<open>auto simp: retain_def Let_def\<close>)
  ultimately show ?case by simp
qed simp

subsection \<open>A sample service\<close>

text \<open>
  The sample policies of the decision, which also let everyone open tasks and approve their own; one
  datasource, one connection on it that holds the two columns of a table, and one token.
\<close>

definition wireEval :: "policy list \<Rightarrow> euid \<Rightarrow> euid \<Rightarrow> euid \<Rightarrow> cedar_context \<Rightarrow> entity list \<Rightarrow> cedar_response" where
  "wireEval ps p a r ctx es = (if snd a \<in> {''task.request'', ''task.approve''} then Success True [] [] else sampleEval ps p a r ctx es)"

definition wireCore :: core where
  "wireCore = \<lparr>ko_plane = samplePlane\<lparr>pl_engine := sampleEngine\<lparr>ce_eval := wireEval\<rparr>\<rparr>,
     ko_analyzerFor = (\<lambda>ds cat path session columns functions. Inr \<lparr>an_columnKeys = map (object_key \<circ> columnObject) columns, an_analyze = (\<lambda>sql. Inr sampleFacts)\<rparr>),
     ko_implicitColumns = (\<lambda>eng columns. []), ko_functionCatalog = (\<lambda>eng routines ver. []),
     ko_classifications = (\<lambda>ds. [sampleColumn ''ssn'' \<mapsto> \<lparr>cx_tags = [''pii''], cx_maskFnName = Some ''last4''\<rparr>]),
     ko_resolveToken = (\<lambda>t. if t = ''tok'' then Some \<lparr>ti_principal = ''ana'', ti_roles = [], ti_kind = ''USER''\<rparr> else None),
     ko_getByName = (\<lambda>n. if n = ''crm'' then Some sampleRow else None)\<rparr>"

definition wireAsk :: decision_request where
  "wireAsk = \<lparr>rq_token = ''tok'', rq_datasourceName = ''crm'', rq_sql = ''select id, ssn from users'', rq_searchPath = [''public''],
     rq_clientAddr = ''/10.0.0.1:4711'', rq_tempColumns = [], rq_connectionId = [1], rq_session = None, rq_currentCatalog = ''app'', rq_targetCheck = None\<rparr>"

definition wireIdentity :: request_identity where
  "wireIdentity = \<lparr>ri_identity = \<lparr>ti_principal = ''ana'', ti_roles = [], ti_kind = ''USER''\<rparr>, ri_channel = WIRE, ri_providedRoles = None\<rparr>"

definition wireColumn :: "string \<Rightarrow> int \<Rightarrow> fragment_column" where
  "wireColumn c i = \<lparr>fc_catalog = ''app'', fc_schema = ''public'', fc_table = ''users'', fc_column = c, fc_dataType = ''text'', fc_ordinal = i, fc_nullable = True\<rparr>"

definition wireKey :: pool_key where
  "wireKey = \<lparr>pk_scope = ''crm'', pk_namespace = namespace ''app'' ''public'', pk_hash = [7]\<rparr>"

definition wireConnection :: connection where
  "wireConnection = \<lparr>co_binding = bindingOf wireIdentity sampleRow ''app'',
     co_held = [(namespace ''app'' ''public'', \<lparr>hs_pooledRef = wireKey, hs_hash = [7], hs_lastFetch = 9, hs_lastVerified = 9, hs_revalidated = None\<rparr>)],
     co_pending = [], co_ddl = [], co_backendGeneration = Some 3, co_generation = 1, co_lastUsed = 9\<rparr>"

definition wireRegistry :: registry where
  "wireRegistry = \<lparr>reg_pool = [wireKey \<mapsto> \<lparr>pf_fragment = \<lparr>sg_key = wireKey, sg_hash = [7], sg_columns = [wireColumn ''id'' 1, wireColumn ''ssn'' 2],
       sg_routines = []\<rparr>, pf_refCount = 1\<rparr>],
     reg_authoritative = [], reg_connections = [([1], wireConnection)], reg_epoch = 0, reg_staleness = DEFAULT_STALENESS_NANOS\<rparr>"

definition wireEnv :: decide_env where
  "wireEnv = \<lparr>ev_used = 20, ev_pre = 20, ev_post = 20, ev_miss = 20, ev_latency = 1, ev_append = sample_env, ev_taskOk = True, ev_taskId = 4, ev_live = True\<rparr>"

lemma wireAsk_checked: "checkRequest wireCore wireAsk = Inr (wireIdentity, sampleRow, ''app'')"
proof -
  have "\<not> isBlank ''app''" by code_simp
  then show ?thesis
    by (simp add: checkRequest_def resolveRequestIdentity_def tokenFromWire_def requireCatalog_def pushedCatalog_def wireCore_def wireAsk_def
        wireIdentity_def sampleRow_def samplePlane_def)
qed

definition wireQuery :: query_input where
  "wireQuery = \<lparr>qi_principal = ''ana'', qi_ds = sampleRow, qi_sql = ''select id, ssn from users'', qi_channel = WIRE,
     qi_columns = connectionCatalog wireCore sampleRow (map heldColumn [wireColumn ''id'' 1, wireColumn ''ssn'' 2]), qi_functions = [],
     qi_providedRoles = None, qi_context = noContext\<lparr>ax_requesterIp := Some ''10.0.0.1''\<rparr>, qi_liveSearchPath = Some [''public''], qi_session = None,
     qi_tempColumns = []\<rparr>"

lemma wire_rows: "structuralRows wireRegistry wireConnection = [wireColumn ''id'' 1, wireColumn ''ssn'' 2]"
  by (simp add: structuralRows_def wireRegistry_def wireConnection_def wireColumn_def)

lemma wire_query: "queryOf wireCore wireRegistry wireConnection (callOf wireAsk wireIdentity sampleRow) = wireQuery"
proof -
  have "parseRequesterIp (orNone ''/10.0.0.1:4711'') = Some ''10.0.0.1''" by code_simp
  then show ?thesis
    by (simp add: queryOf_def callOf_def wireAsk_def wireIdentity_def wireQuery_def heldCatalog_def wire_rows editorTempOverlay_def)
      (simp add: wireCore_def)
qed

definition wireInput :: decide_input where
  "wireInput = factsInput wireQuery [Query.sampleRow ''id'' None, Query.sampleRow ''ssn'' (Some \<lparr>cx_tags = [''pii''], cx_maskFnName = Some ''last4''\<rparr>)] sampleFacts"

lemma wire_analyzed:
  "analyzed wireCore wireQuery = Inr ([Query.sampleRow ''id'' None, Query.sampleRow ''ssn'' (Some \<lparr>cx_tags = [''pii''], cx_maskFnName = Some ''last4''\<rparr>)], sampleFacts)"
  by code_simp

definition wireVerdict :: "outcome \<Rightarrow> bool" where
  "wireVerdict r = (case r of Returned d \<Rightarrow> dx_action d = ENF_MASK \<and> \<not> dx_passthrough d \<and> dx_beforeDecide d = [] \<and>
       dx_referencedSchemas d = [namespace ''app'' ''public''] \<and> \<not> dx_catalogMiss d \<and> \<not> dx_checkTargetError d \<and>
       \<not> dx_forwardTargetError d \<and> \<not> dx_catalogChanging d \<and> dx_statementKind d = KIND ''SELECT'' \<and> dx_submission d = None \<and> dx_rewrittenSql d = None \<and>
       dx_maxRows d = Some 10 \<and> dx_maxBytes d = Some DEFAULT_CAP_BYTES \<and> dx_outputColumns d = [''id'', ''ssn''] \<and>
       dx_masks d = [\<lparr>dm_column = ''ssn'', dm_maskFn = ''last4'', dm_kind = ''LAST_N'', dm_ordinal = 1\<rparr>]
     | _ \<Rightarrow> False)"

lemma wire_verdict: "wireVerdict (decideFacts (ko_plane wireCore) wireInput)"
  by code_simp

lemma wire_gate: "\<not> wireGateDenied wireCore (callOf wireAsk wireIdentity sampleRow)"
  by code_simp

lemma wire_fresh: "freshnessGate wireRegistry wireConnection 20 [namespace ''app'' ''public''] = []"
  by code_simp

lemma wire_inserted:
  assumes "kt_ts rec = NoTs" "kt_decisionId rec = None"
  shows "\<exists>db. kt_insert sample_env rec V4_audit = (Inr 1, db)"
  using assms
  by (simp add: kt_insert_def sample_env_def V4_audit_def genesis_literal kt_rowHash_def truncatedToMicros_def kt_epochMicros_def
      sqlInsert_def sqlAdvance_def storedEvent_def is_int64_def Let_def)

lemma wire_recorded:
  assumes "dx_action d = ENF_MASK"
  shows "\<exists>db. recordVerdict wireCore wireEnv (callOf wireAsk wireIdentity sampleRow) d V4_audit = (Inr 1, db)"
proof -
  let ?ca = "callOf wireAsk wireIdentity sampleRow"
  let ?rec = "decisionRecord (ca_principal ?ca) (ca_ds ?ca) (ca_sql ?ca) (ca_clientAddr ?ca) d (ev_latency wireEnv) (ca_searchPath ?ca) (ca_channel ?ca)"
  have "kt_ts ?rec = NoTs" "kt_decisionId ?rec = None" by (simp_all add: decisionRecord_def)
  from wire_inserted[OF this] obtain db where "kt_insert (ev_append wireEnv) ?rec V4_audit = (Inr 1, db)" by (auto simp: wireEnv_def)
  with assms show ?thesis by (simp add: recordVerdict_def inTx_def recordWire_def createWireTask_def wireEnv_def Let_def)
qed

lemma wire_decided:
  obtains d reg db where "decideConnection wireCore wireEnv (callOf wireAsk wireIdentity sampleRow) (wireRegistry, V4_audit) =
      (Some (Inr (Verdict d None 1 1 [])), (reg, db))" "decideFacts (ko_plane wireCore) wireInput = Returned d" "wireVerdict (Returned d)"
proof -
  let ?ca = "callOf wireAsk wireIdentity sampleRow" and ?c = "wireConnection\<lparr>co_lastUsed := 20\<rparr>"
  from wire_verdict obtain d where d: "decideFacts (ko_plane wireCore) wireInput = Returned d"
    by (cases "decideFacts (ko_plane wireCore) wireInput") (auto simp: wireVerdict_def)
  with wire_verdict have v: "wireVerdict (Returned d)" by simp
  then have q: "decideQuery wireCore (queryOf wireCore wireRegistry wireConnection ?ca) = (Returned d, None)"
    by (simp add: decideQuery_def wire_query wire_analyzed d[unfolded wireInput_def]) (simp add: wireQuery_def)
  from wire_recorded[of d] v obtain db where r: "recordVerdict wireCore wireEnv ?ca d V4_audit = (Inr 1, db)" by (auto simp: wireVerdict_def)
  have ca: "ca_connectionId ?ca = [1]" "ca_ds ?ca = sampleRow" "ca_searchPath ?ca = [''public'']" "ca_channel ?ca = WIRE"
    by (simp_all add: callOf_def wireAsk_def wireIdentity_def)
  have ns: "namespaces sampleRow [''public''] = Inr [namespace ''app'' ''public'']" "\<not> ed_isTempSchema (ds_engine sampleRow) ''public''"
    by (simp_all add: namespaces_def effectiveCatalog_def sampleRow_def bareEngine_def)
  have "map_of (reg_connections wireRegistry) [1] = Some wireConnection" "co_generation wireConnection = 1" "dw_checksTargetErrors sampleRow = False"
    by (simp_all add: wireRegistry_def wireConnection_def sampleRow_def)
  with q r ca ns v wire_fresh wire_gate
  have "\<exists>reg. decideConnection wireCore wireEnv ?ca (wireRegistry, V4_audit) = (Some (Inr (Verdict d None 1 1 [])), (reg, db))"
    by (simp add: decideConnection_def decideLocked_def wireVerdict_def effectiveVerdict_def afterStatementOf_def wireEnv_def Let_def
        gate_open freshnessGate_def filter_empty_conv)
  then show thesis using that d v by blast
qed

definition wireCodec :: wire_codec where
  "wireCodec = \<lparr>wc_command = (\<lambda>c. []), wc_requirements = (\<lambda>r. [])\<rparr>"

lemma wire_served:
  assumes "wireVerdict (Returned d)"
  shows "\<exists>dec. decisionFromWire wireCodec (toWireDecision d None 1 1 []) = Inr dec \<and> dc_Action dec = ''MASK'' \<and>
    dc_RewrittenSQL dec = None \<and> dc_AfterStatement dec = [] \<and> (\<forall>out. reduceDecision out dec = Proceed dec None (dc_Masks dec))"
  using assms by (simp add: decisionFromWire_def toWireDecision_def wireVerdict_def DEFAULT_CAP_BYTES_def EnfActionName_def reduceDecision_def)

subsection \<open>Properties\<close>

text \<open>
  C2: a verdict is given on a fresh catalog and is on the record. A connection gets a verdict only when every
  schema of its search path and every schema the statement refers to, temporary ones excepted, is held, has no
  refetch pending and is not stale; the statement was analysed against exactly the catalog the connection
  holds. The trail then ends with a new row for this verdict under the id it carries, and on the wire, unless
  the task gate refused it, with a task of that row which is approved, or failed when the verdict is DENY. The
  verdict is the analysed one, a denial of the gate, or one that forwards the error of the target.
\<close>

theorem verdict_is_fresh_and_recorded:
  assumes "decideConnection ko ev ca (reg, db) = (Some (Inr (Verdict d requirements i g after)), (reg', db'))"
  shows "\<exists>c required d0 ts h rh. map_of (reg_connections reg) (ca_connectionId ca) = Some c \<and> g = co_generation c \<and>
    namespaces (ca_ds ca) (filter (\<lambda>s. \<not> ed_isTempSchema (ds_engine (ca_ds ca)) s) (ca_searchPath ca)) = Inr required \<and>
    (\<forall>s\<in>set required. gated c s \<longrightarrow> \<not> stale reg c (ev_pre ev) s) \<and>
    decideQuery ko (queryOf ko reg c ca) = (Returned d0, requirements) \<and>
    (\<forall>s\<in>set (dx_referencedSchemas d0). gated c s \<longrightarrow> \<not> stale reg c (ev_post ev) s) \<and>
    (if wireGateDenied ko ca then dx_action d = ENF_DENY else d = d0 \<or> dx_forwardTargetError d) \<and>
    ad_events db' = ad_events db @ [\<lparr>se_ID = i,
      se_Event = storedEvent (decisionRecord (ca_principal ca) (ca_ds ca) (ca_sql ca) (ca_clientAddr ca) d (ev_latency ev) (ca_searchPath ca) (ca_channel ca)) ts,
      se_ChainVersion = Some 1, se_PrevHash = h, se_RowHash = rh\<rparr>] \<and>
    (if ca_channel ca = WIRE \<and> \<not> wireGateDenied ko ca
     then length (ad_tasks db') = Suc (length (ad_tasks db)) \<and>
       last (ad_tasks db') = \<lparr>wt_ID = ev_taskId ev, wt_SourceDecision = i, wt_Status = if dx_action d = ENF_DENY then FAILED else APPROVED\<rparr>
     else length (ad_tasks db') = length (ad_tasks db))"
  using assms
proof (rule decideConnection_Verdict)
  fix c required d0 db1 reg1
  assume c: "map_of (reg_connections reg) (ca_connectionId ca) = Some c"
    "namespaces (ca_ds ca) (filter (\<lambda>s. \<not> ed_isTempSchema (ds_engine (ca_ds ca)) s) (ca_searchPath ca)) = Inr required"
    "\<forall>s\<in>set required. gated c s \<longrightarrow> \<not> stale reg c (ev_pre ev) s" "decideQuery ko (queryOf ko reg c ca) = (Returned d0, requirements)"
    "\<forall>s\<in>set (dx_referencedSchemas d0). gated c s \<longrightarrow> \<not> stale reg c (ev_post ev) s" and e: "effectiveVerdict ko ca d0 = Some d"
    and r: "recordVerdict ko ev ca d db = (Inr i, db1)" and g: "g = co_generation c" and s: "(reg', db') = (reg1, db1)"
  let ?rec = "decisionRecord (ca_principal ca) (ca_ds ca) (ca_sql ca) (ca_clientAddr ca) d (ev_latency ev) (ca_searchPath ca) (ca_channel ca)"
  let ?task = "ca_channel ca = WIRE \<and> \<not> wireGateDenied ko ca"
  from r s have "recordWire ev ?rec ?task (dx_action d = ENF_DENY) db = (Inr i, db')"
    by (auto simp: recordVerdict_def inTx_def Let_def split: prod.splits sum.splits)
  note R = recordWire_Inr[OF this]
  from R(1) obtain ts h rh where ev: "ad_events db' = ad_events db @ [\<lparr>se_ID = i, se_Event = storedEvent ?rec ts, se_ChainVersion = Some 1,
      se_PrevHash = h, se_RowHash = rh\<rparr>]" by blast
  show ?thesis
    using c g effectiveVerdict_Some[OF e] ev R(2,3) by (intro exI[of _ c] exI[of _ required] exI[of _ d0] exI[of _ ts] exI[of _ h] exI[of _ rh]) auto
qed

theorem verdict_is_fresh_and_recorded_witness:
  "\<exists>d reg db. decideConnection wireCore wireEnv (callOf wireAsk wireIdentity sampleRow) (wireRegistry, V4_audit) =
      (Some (Inr (Verdict d None 1 1 [])), (reg, db)) \<and> map se_ID (ad_events db) = [1] \<and>
    last (ad_tasks db) = \<lparr>wt_ID = 4, wt_SourceDecision = 1, wt_Status = APPROVED\<rparr>"
proof -
  obtain d reg db where d: "decideConnection wireCore wireEnv (callOf wireAsk wireIdentity sampleRow) (wireRegistry, V4_audit) =
      (Some (Inr (Verdict d None 1 1 [])), (reg, db))" "wireVerdict (Returned d)" by (rule wire_decided)
  have "ca_channel (callOf wireAsk wireIdentity sampleRow) = WIRE" "ad_events V4_audit = []" "ev_taskId wireEnv = 4"
    by (simp_all add: callOf_def wireIdentity_def V4_audit_def wireEnv_def)
  with verdict_is_fresh_and_recorded[OF d(1)] d wire_gate show ?thesis
    by (intro exI[of _ d] exI[of _ reg] exI[of _ db]) (auto simp: wireVerdict_def)
qed

text \<open>
  C1: what runs was decided for it, end to end. When the transport brings the client only answers the service
  gave to the request it sent, and the proxy asks through that client, a statement is run on the target only
  when the service, for this very SQL text and token on this connection, resolved the token to the principal
  the connection is bound to, analysed the text against the catalog the connection held and decided ALLOW or
  MASK on the facts, with the task gate open; the row of the decision is on the trail under the id the proxy
  serves it with, and the text and the masks that reach the protocol are those of that decision. Otherwise the
  statement is refused or fails, and the target is untouched.
\<close>

theorem served_only_by_recorded_decision:
  fixes run :: "string \<Rightarrow> column_mask list \<Rightarrow> decision \<Rightarrow> authorizer \<times> 'w \<Rightarrow> (bool \<times> 'e option) \<times> (authorizer \<times> 'w)"
  assumes "\<And>q w d w'. gc_rpc gc q w = (Inr (Some d), w') \<Longrightarrow> \<exists>ev s s'. decide ko ev q s = (Inr d, s')"
    and "cp_Decide cp = clientDecide gc"
    and "ServeStatement cp inp runner guard run s0 = (r, s')"
  shows "(s' = snd (Authorize cp inp s0) \<and> (sv_Denied r \<or> (\<exists>msg. sv_Err r = Some (FailError msg)))) \<or>
    (\<exists>q d dec masks s1 err clean s2. decidedFor ko q d dec \<and>
       rq_sql q = ai_SQL inp \<and> rq_token q = az_token (fst s0) \<and> rq_connectionId q = az_connectionID (fst s0) \<and>
       rq_datasourceName q = gc_datasourceName gc \<and>
       sv_Decision r = Some dec \<and> masks = (if dx_action d = ENF_MASK then map columnMaskOf (dx_masks d) else []) \<and>
       Authorize cp inp s0 = (Proceed dec (dx_rewrittenSql d) masks, s1) \<and>
       (case guard of Some g \<Rightarrow> g | None \<Rightarrow> id)
         (execOf run (case dx_rewrittenSql d of Some t \<Rightarrow> t | None \<Rightarrow> ai_SQL inp) masks dec) (False, s1) = (err, (clean, s2)) \<and>
       (s' = s2 \<or> clean \<and> err = None \<and> (\<exists>cr. runner = Some cr \<and> s' = (fst s2, snd (cr (dc_AfterStatement dec) None (snd s2))))))"
    (is "?refused \<or> ?ran")
proof (cases ?refused)
  case False
  with serve_cases[OF assms(3)] obtain req w out w' dec toSend masks s1 clean err s2
    where ask: "cp_Decide cp req w = (out, w')" "do_Decision out = Some dec" "dr_SQL req = ai_SQL inp" "dr_Token req = az_token (fst s0)"
        "dr_ConnectionID req = az_connectionID (fst s0)"
      and ok: "\<not> dc_ForwardTargetError dec" "dc_Action dec = ''ALLOW'' \<and> masks = [] \<or> dc_Action dec = ''MASK'' \<and> masks = dc_Masks dec"
      and ran: "sv_Decision r = Some dec" "toSend = (case dc_RewrittenSQL dec of Some q \<Rightarrow> q | None \<Rightarrow> ai_SQL inp)"
        "Authorize cp inp s0 = (Proceed dec (dc_RewrittenSQL dec) masks, s1)"
        "(case guard of Some g \<Rightarrow> g | None \<Rightarrow> id) (execOf run toSend masks dec) (False, s1) = (err, (clean, s2))"
        "s' = s2 \<or> clean \<and> err = None \<and> (\<exists>cr. runner = Some cr \<and> s' = (fst s2, snd (cr (dc_AfterStatement dec) None (snd s2))))" by blast
  from ask(1) assms(2) have "decideRounds gc 3 req (wireRequest (gc_datasourceName gc) req) None w = (out, w')" by (simp add: clientDecide_def)
  from decideRounds_decision[OF this ask(2)] obtain q w1 w2 wd where q: "asks q (wireRequest (gc_datasourceName gc) req)"
    "gc_rpc gc q w1 = (Inr (Some wd), w2)" "decisionFromWire (gc_codec gc) wd = Inr dec" by blast
  from assms(1)[OF q(2)] obtain ev reg db reg' db' where "decide ko ev q (reg, db) = (Inr wd, (reg', db'))" by (metis surj_pair)
  from decide_decidedFor[OF this q(3)] ok obtain d where d: "decidedFor ko q d dec" by auto
  then have m: "dc_Masks dec = map columnMaskOf (dx_masks d)" "dc_RewrittenSQL dec = dx_rewrittenSql d" "dc_Action dec = EnfActionName (dx_action d)"
    by (auto simp: decidedFor_def)
  with ok(2) have "masks = (if dx_action d = ENF_MASK then map columnMaskOf (dx_masks d) else [])" by (auto simp: EnfActionName_served)
  moreover from q(1) ask(3-5) have "rq_sql q = ai_SQL inp" "rq_token q = az_token (fst s0)" "rq_connectionId q = az_connectionID (fst s0)"
    "rq_datasourceName q = gc_datasourceName gc" by (simp_all add: asks_def wireRequest_def)
  ultimately have ?ran using d ran unfolding m(2) by blast
  then show ?thesis by (rule disjI2)
qed (rule disjI1)

text \<open>A transport that asks the sample service, over a target whose world is the statements it ran.\<close>

definition wireClient :: "string list cp_client" where
  "wireClient = \<lparr>gc_datasourceName = ''crm'', gc_codec = wireCodec, gc_rpc = (\<lambda>q w.
     (case fst (decide wireCore wireEnv q (wireRegistry, V4_audit)) of Inr d \<Rightarrow> Inr (Some d) | Inl e \<Rightarrow> Inl (Unreachable []), w))\<rparr>"

definition wirePlane :: "string list control_plane" where
  "wirePlane = \<lparr>cp_Decide = clientDecide wireClient, cp_Await = (\<lambda>_ w. w)\<rparr>"

definition wireStatement :: "string list authz_input" where
  "wireStatement = \<lparr>ai_SQL = ''select id, ssn from users'',
     ai_ProbeSession = (\<lambda>w. (Inr \<lparr>ss_CurrentCatalog = ''app'', ss_Namespace = Some [''public''], ss_Observation = None\<rparr>, w)),
     ai_ProbeTempColumns = None, ai_Commands = None, ai_CheckTargetError = None\<rparr>"

definition wireSession :: "authorizer \<times> string list" where
  "wireSession = ((NewAuthorizer ''tok'' [1])\<lparr>az_clientAddr := ''/10.0.0.1:4711''\<rparr>, [])"

definition sample_run :: "string \<Rightarrow> column_mask list \<Rightarrow> decision \<Rightarrow> authorizer \<times> string list \<Rightarrow>
    (bool \<times> string option) \<times> (authorizer \<times> string list)" where
  "sample_run toSend masks dec = (\<lambda>(a, w). ((True, None), (a, w @ [toSend])))"

lemma wireClient_delivers:
  assumes "gc_rpc wireClient q w = (Inr (Some d), w')"
  shows "\<exists>ev s s'. decide wireCore ev q s = (Inr d, s')"
proof -
  obtain res s' where r: "decide wireCore wireEnv q (wireRegistry, V4_audit) = (res, s')" by (metis surj_pair)
  with assms have "res = Inr d" by (cases res) (auto simp: wireClient_def)
  with r show ?thesis by blast
qed

theorem served_only_by_recorded_decision_witness:
  "\<exists>r s' dec. ServeStatement wirePlane wireStatement None None sample_run wireSession = (r, s') \<and> sv_Decision r = Some dec \<and>
     snd s' = [''select id, ssn from users''] \<and> (\<exists>q d. decidedFor wireCore q d dec \<and> rq_sql q = ai_SQL wireStatement)"
proof -
  obtain d reg db where d: "decideConnection wireCore wireEnv (callOf wireAsk wireIdentity sampleRow) (wireRegistry, V4_audit) =
      (Some (Inr (Verdict d None 1 1 [])), (reg, db))" "wireVerdict (Returned d)" by (rule wire_decided)
  have "map_of (reg_connections wireRegistry) (rq_connectionId wireAsk) = Some wireConnection" by (simp add: wireRegistry_def wireAsk_def)
  with d(1) have dec: "decide wireCore wireEnv wireAsk (wireRegistry, V4_audit) = (Inr (toWireDecision d None 1 1 []), (reg, db))"
    by (simp add: decide_def wireAsk_checked sameBinding_def wireConnection_def)
  from wire_served[OF d(2)] obtain dec where w: "decisionFromWire wireCodec (toWireDecision d None 1 1 []) = Inr dec"
    "dc_RewrittenSQL dec = None" "dc_AfterStatement dec = []" "reduceDecision out dec = Proceed dec None (dc_Masks dec)" for out by blast
  let ?req = "\<lparr>dr_Snapshot = \<lparr>ss_CurrentCatalog = ''app'', ss_Namespace = Some [''public''], ss_Observation = None\<rparr>, dr_Token = ''tok'',
      dr_SQL = ''select id, ssn from users'', dr_ClientAddr = ''/10.0.0.1:4711'', dr_TempColumns = [], dr_ConnectionID = [1], dr_Commands = None,
      dr_CheckTargetError = None\<rparr>"
  let ?out = "\<lparr>do_Decision = Some dec, do_Err = [], do_TargetError = None\<rparr>"
  have ask: "wireRequest ''crm'' ?req = wireAsk"
    by (simp add: wireRequest_def wireAsk_def sessionOf_def Clone_def)
  have rpc: "gc_rpc wireClient wireAsk [] = (Inr (Some (toWireDecision d None 1 1 [])), [])" by (simp add: wireClient_def dec)
  have cd: "clientDecide wireClient ?req [] = (?out, [])"
    unfolding clientDecide_def by (subst decideRounds.simps) (simp add: wireClient_def[THEN arg_cong[where f = gc_datasourceName]]
      wireClient_def[THEN arg_cong[where f = gc_codec]] ask rpc w(1))
  let ?serve = "ServeStatement wirePlane wireStatement None None sample_run wireSession"
  obtain a where au: "Authorize wirePlane wireStatement wireSession = (Proceed dec None (dc_Masks dec), a, [])"
    using cd w(4) by (simp add: Authorize_def awaitPending_def refreshSnapshot_def probeTemps_def Clone_def wirePlane_def wireStatement_def
        wireSession_def NewAuthorizer_def)
  have s: "snd (snd ?serve) = [''select id, ssn from users'']" "\<not> sv_Denied (fst ?serve)" "sv_Err (fst ?serve) = None"
    by (simp_all add: ServeStatement_def au sample_run_def execOf_def w(3) Let_def) (simp add: wireStatement_def)
  obtain r s' where rs: "?serve = (r, s')" by (metis surj_pair)
  have cp: "cp_Decide wirePlane = clientDecide wireClient" by (simp add: wirePlane_def)
  have "sv_Denied r \<or> (\<exists>msg. sv_Err r = Some (FailError msg)) \<or>
      (\<exists>q d dec. decidedFor wireCore q d dec \<and> rq_sql q = ai_SQL wireStatement \<and> sv_Decision r = Some dec)"
    using served_only_by_recorded_decision[where gc = wireClient and ko = wireCore, OF _ cp rs] wireClient_delivers by blast
  with s rs show ?thesis by auto
qed

text \<open>
  C9: the masks of a decision always bind and hide what they must. When the client serves a decision that
  analysed the columns, and the result has the columns the analysis foresaw, the masks of the decision bind to
  the result, and in every row each output that a column with a masked verdict feeds shows the value under the
  kind of a mask decided for that output, and NULL when the column is redacted.
\<close>

theorem decided_masks_bind:
  assumes "decideFacts pl di = Returned d" "dx_action d \<noteq> ENF_DENY" "\<not> dx_passthrough d"
    and "decisionFromWire wc (toWireDecision d requirements i g after) = Inr dec" "reduceDecision out dec = Proceed dec rw masks"
    and "length vs = length (dx_outputColumns d)"
  shows "\<exists>m. NewRowMasker masks (int (length vs)) = Some m \<and>
    (\<forall>cg\<in>set (columnGrants (di_facts di)). verdictOn pl di (actorOf pl di) (object_key (fst cg)) = MASKED \<longrightarrow>
      (\<forall>j\<in>set (rg_ordinals (snd cg)). \<exists>k\<in>set (dx_masks d). dm_ordinal k = j \<and>
        Apply ld m vs ! nat j = applyMaskKind ld (vs ! nat j) (dm_kind k) \<and> (redacts pl di cg \<longrightarrow> Apply ld m vs ! nat j = None)))"
proof -
  note M = decided_masks[OF assms(1-3)]
  from assms(5) have act: "dc_Action dec = ''ALLOW'' \<and> masks = [] \<or> dc_Action dec = ''MASK'' \<and> masks = dc_Masks dec"
    by (simp add: reduceDecision_Proceed)
  then have "dc_Action dec \<noteq> ''DENY''" by auto
  with assms(4) obtain v where "toWireDecision d requirements i g after = WireVerdict v"
    "dc_Action dec = EnfActionName (wv_decision v)" "dc_Masks dec = map columnMaskOf (wv_masks v)" by (rule decisionFromWire_served)
  then have "dc_Action dec = EnfActionName (dx_action d)" "dc_Masks dec = map columnMaskOf (dx_masks d)" by (auto simp: toWireDecision_def)
  with act M have masks: "masks = map columnMaskOf (dx_masks d)" by (auto simp: EnfActionName_served)
  have "AllBound (BindMasks masks (int (length vs)))"
    using M assms(6) by (auto simp: AllBound_iff masks list_all_iff inRange_def columnMaskOf_def)
  then obtain m where m: "NewRowMasker masks (int (length vs)) = Some m" by (simp add: NewRowMasker_def Let_def)
  have shown: "Apply ld m vs ! nat (dm_ordinal k) = applyMaskKind ld (vs ! nat (dm_ordinal k)) (dm_kind k)" if "k \<in> set (dx_masks d)" for k
  proof -
    from M that assms(6) have r: "0 \<le> dm_ordinal k" "nat (dm_ordinal k) < length vs" by fastforce+
    with M that have "maskFor masks (nat (dm_ordinal k)) = Some (columnMaskOf k)" by (simp add: masks maskFor_columnMaskOf)
    with Apply_masked[OF m r(2)] show ?thesis by (simp add: columnMaskOf_def)
  qed
  have "\<exists>k\<in>set (dx_masks d). dm_ordinal k = j \<and> Apply ld m vs ! nat j = applyMaskKind ld (vs ! nat j) (dm_kind k) \<and>
      (redacts pl di cg \<longrightarrow> Apply ld m vs ! nat j = None)"
    if "cg \<in> set (columnGrants (di_facts di))" "verdictOn pl di (actorOf pl di) (object_key (fst cg)) = MASKED" "j \<in> set (rg_ordinals (snd cg))" for cg j
  proof (cases "redacts pl di cg")
    case True
    with M that have "nulled (dx_masks d) j" by blast
    then obtain k where "k \<in> set (dx_masks d)" "dm_ordinal k = j" "dm_kind k = ''NULL''" by (auto simp: nulled_def list_ex_iff)
    with shown[of k] show ?thesis by (intro bexI[of _ k]) (auto simp: applyMaskKind_def split: option.splits)
  next
    case False
    from M that obtain k where "k \<in> set (dx_masks d)" "dm_ordinal k = j" by blast
    with shown[of k] False show ?thesis by blast
  qed
  with m show ?thesis by blast
qed

theorem decided_masks_bind_witness:
  "\<exists>d dec m. decideFacts (ko_plane wireCore) wireInput = Returned d \<and> decisionFromWire wireCodec (toWireDecision d None 1 1 []) = Inr dec \<and>
     NewRowMasker (dc_Masks dec) 2 = Some m"
proof -
  obtain d where d: "decideFacts (ko_plane wireCore) wireInput = Returned d" "wireVerdict (Returned d)" by (rule wire_decided)
  obtain dec where dec: "decisionFromWire wireCodec (toWireDecision d None 1 1 []) = Inr dec" "reduceDecision out dec = Proceed dec None (dc_Masks dec)" for out
    using wire_served[OF d(2)] by blast
  from d(2) have v: "dx_action d \<noteq> ENF_DENY" "\<not> dx_passthrough d" "length [Some ''1'', Some ''900101''] = length (dx_outputColumns d)"
    by (simp_all add: wireVerdict_def)
  from decided_masks_bind[OF d(1) v(1,2) dec(1) dec(2) v(3), of "\<lambda>u. True"] d(1) dec(1) show ?thesis by auto
qed

text \<open>
  A cap survives the wire. With the caps compiled from the policies' annotations, a decision that is let
  through and that the client accepts tells the proxy 0, which it reads as no cap, exactly when the decision
  has no cap; every other cap arrives as it was decided, and is positive.
\<close>

lemma caps_survive_the_wire:
  assumes "rebuildIfStale annotations v srcs emptyCache = Inr (ce_cache (pl_engine pl))"
    and "decideFacts pl di = Returned d" "dx_action d \<noteq> ENF_DENY"
    and "decisionFromWire wc (toWireDecision d requirements i g after) = Inr dec" "dc_Action dec \<noteq> ''DENY''"
  shows "dx_maxRows d = (if dc_MaxRows dec = 0 then None else Some (dc_MaxRows dec)) \<and>
    dx_maxBytes d = (if dc_MaxBytes dec = 0 then None else Some (dc_MaxBytes dec)) \<and> 0 \<le> dc_MaxRows dec \<and> 0 \<le> dc_MaxBytes dec"
proof -
  from decided_caps[OF assms(2,3)] obtain rs
    where caps: "(dx_maxRows d, dx_maxBytes d) = resultCaps (ac_dsCaps (actorOf pl di) # rs)"
      and rs: "\<forall>r\<in>set (ac_dsCaps (actorOf pl di) # rs). \<exists>resources. r = resolveResultCaps (pl_engine pl) (di_principal di)
        (ac_parents (actorOf pl di)) (ds_name (di_ds di)) resources (ac_context (actorOf pl di)) (ds_tags (di_ds di))"
    using actorOf_dsCaps by (metis set_ConsD)
  from rs resolved_positive[OF assms(1)]
  have "\<forall>r\<in>set (ac_dsCaps (actorOf pl di) # rs). pred_option ((<) 0) (rv_rows r) \<and> pred_option ((<) 0) (rv_bytes r)" by blast
  then have pos: "pred_option ((<) 0) (dx_maxRows d)" "pred_option ((<) 0) (dx_maxBytes d)"
    using caps by (auto simp: resultCaps_def pred_option_def set_map_filter DEFAULT_CAP_ROWS_def DEFAULT_CAP_BYTES_def
        elim!: minOf_positive split: if_splits option.splits)
  from assms(4,5) obtain w where "toWireDecision d requirements i g after = WireVerdict w"
    "dc_MaxRows dec = wv_maxRows w" "dc_MaxBytes dec = wv_maxBytes w" by (rule decisionFromWire_served)
  then have "dc_MaxRows dec = (case dx_maxRows d of None \<Rightarrow> 0 | Some n \<Rightarrow> n)" "dc_MaxBytes dec = (case dx_maxBytes d of None \<Rightarrow> 0 | Some n \<Rightarrow> n)"
    by (auto simp: toWireDecision_def)
  with pos show ?thesis by (auto split: option.splits)
qed

text \<open>
  C35: a recovered connection whose schemas are all adopted is refused. A statement on a connection the service no
  longer has, on an engine whose catalog does not depend on the connection, gets an empty round of commands
  when every schema it needs is already known for the datasource, and the client takes an empty round for a
  malformed answer and denies the statement.
\<close>

theorem recovery_by_adoption_is_denied:
  assumes "exact reg" "checkRequest ko r = Inr (ident, ds, cat)" "map_of (reg_connections reg) (rq_connectionId r) = None"
    and "namespaces ds (rq_searchPath r @ dw_defaultSchemas ds @ dw_systemSchemas ds) = Inr schemas" "dw_connectionIndependent ds"
    and "list_all (\<lambda>s. map_of (reg_authoritative reg) (ds_name ds, s) \<noteq> None) (filter named schemas)"
  shows "\<exists>wd s'. decide ko ev r (reg, db) = (Inr wd, s') \<and>
    decisionFromWire wc wd = Inr (denyClosed ''control plane returned an empty before-decision round'')"
proof -
  obtain cmds reg' where i: "issueInitial (rq_connectionId r) (bindingOf ident ds cat) schemas True (ev_used ev) reg = (cmds, reg')"
    by (metis surj_pair)
  have "\<forall>s\<in>set (distinctList (filter named schemas)). \<exists>a. map_of (reg_authoritative reg) (ds_name ds, s) = Some a \<and>
      reg_pool reg (au_pooledRef a) \<noteq> None"
    using assms(6) authoritative_pooled[OF assms(1)] by (fastforce simp: list_all_iff)
  with i have "cmds = []"
    by (auto simp: issueInitial_def Let_def bindingOf_def split: prod.splits
        dest!: arg_cong[where f = fst] simp: adopting_asks_nothing)
  with assms i show ?thesis
    by (simp add: decide_def recover_def beforeDecideDecision_def decisionFromWire_def)
qed

text \<open>The schema of the datasource is known, and the connection is gone, as after the sweep of an idle one.\<close>

definition sweptRegistry :: registry where
  "sweptRegistry = wireRegistry\<lparr>reg_connections := [],
     reg_authoritative := [((''crm'', namespace ''app'' ''public''), \<lparr>au_hash = [7], au_pooledRef = wireKey, au_epoch = 0, au_lastInspected = 9\<rparr>)]\<rparr>"

theorem recovery_by_adoption_is_denied_witness:
  "\<exists>wd s'. decide wireCore wireEnv wireAsk (sweptRegistry, V4_audit) = (Inr wd, s') \<and>
     decisionFromWire wireCodec wd = Inr (denyClosed ''control plane returned an empty before-decision round'')"
proof (rule recovery_by_adoption_is_denied[OF _ wireAsk_checked])
  show "exact sweptRegistry" by (simp add: exact_def counted_def refs_def msetOver_def sweptRegistry_def wireRegistry_def)
  show "map_of (reg_connections sweptRegistry) (rq_connectionId wireAsk) = None" by (simp add: sweptRegistry_def)
  show "namespaces sampleRow (rq_searchPath wireAsk @ dw_defaultSchemas sampleRow @ dw_systemSchemas sampleRow) =
      Inr [namespace ''app'' ''public'', namespace ''app'' ''public'']" by code_simp
  show "dw_connectionIndependent sampleRow" by (simp add: sampleRow_def)
  show "list_all (\<lambda>s. map_of (reg_authoritative sweptRegistry) (ds_name sampleRow, s) \<noteq> None)
      (filter named [namespace ''app'' ''public'', namespace ''app'' ''public''])" by (simp add: sweptRegistry_def sampleRow_def)
qed

end
