(* ===== verification/Tasks.thy ===== *)
theory Tasks
  imports Query "HOL-Library.Product_Lexorder"
begin

text \<open>
  The task store of the control plane (\<^verbatim>\<open>Access.kt\<close>, \<^verbatim>\<open>QueryResultStore.kt\<close>,
  \<^verbatim>\<open>RequestEvents.kt\<close>, \<^verbatim>\<open>RequestParticipants.kt\<close>): requests for roles and for queries,
  their approval, the grants they mint, and the runs of approved queries. The tables are lists of rows in
  insertion order, and every operation is one transaction on them: an \<^verbatim>\<open>UPDATE ... WHERE\<close> is a
  map over the rows that meet the condition, SQL's NULL is \<open>None\<close>, and a unique index or a foreign key is
  a check that makes the operation fail. An operation that fails leaves the tables as they were, but not the
  sequences, which PostgreSQL never rolls back. The management audit recorder and the notification hooks run
  inside the transaction and may fail; the text of an audit summary is not kept.
\<close>

subsection \<open>Rows\<close>

datatype request_kind = ROLE | QUERY | RATE_RESET

datatype creator_kind = BY_WIRE | BY_EDITOR | BY_WORKFLOW

datatype request_status = DRAFT | PENDING | APPROVED | REJECTED | EXECUTING | EXECUTED | FAILED | CANCELLED | DELETED
  | ALREADY_RAN

datatype run_status = RUNNING | DONE | RUN_FAILED | RUN_CANCELLED | SKIPPED

text \<open>The columns of a request that came from a file of a pull request, and the request itself.\<close>

record pull_columns =
  pc_repository :: "string option"
  pc_pr :: "int option"
  pc_prUrl :: "string option"
  pc_path :: "string option"
  pc_headSha :: "string option"
  pc_defaultSchema :: "string option"
  pc_keyOrder :: "string option"
  pc_filedHead :: "string option"
  pc_mergeSha :: "string option"
  pc_prAutoMerge :: bool
  pc_approvedReviewId :: "string option"
  pc_scope :: "string option"
  pc_fileKey :: "string option"
  pc_changeKey :: "string option"
  pc_mergedAt :: "int option"
  pc_forceRun :: bool
  pc_forceRunBy :: "string option"

record request_text =
  rx_title :: "string option"
  rx_reason :: "string option"
  rx_denyReason :: "string option"
  rx_evaluatedDecision :: "string option"
  rx_carriesProtectedLiteral :: "bool option"
  rx_contentHash :: "string option"
  rx_rawHash :: "string option"
  rx_revisedAt :: "int option"

record request_row =
  rw_id :: int64
  rw_kind :: request_kind
  rw_principal :: string
  rw_roleId :: "int64 option"
  rw_datasourceId :: "int64 option"
  rw_requestedDurationSec :: int64
  rw_status :: request_status
  rw_creatorKind :: creator_kind
  rw_sourceDecisionId :: "int64 option"
  rw_decidedBy :: "string option"
  rw_decidedAt :: "int option"
  rw_approvedAt :: "int option"
  rw_rejectionReason :: "string option"
  rw_executeAs :: "string list"
  rw_executingAt :: "int option"
  rw_executedAt :: "int option"
  rw_createdAt :: int
  rw_source :: string
  rw_revision :: int
  rw_text :: request_text
  rw_pull :: pull_columns

record result_row =
  qr_id :: int64
  qr_taskId :: int64
  qr_ordinal :: nat
  qr_sql :: "string option"
  qr_sqlHash :: "string option"
  qr_status :: "run_status option"
  qr_executedBy :: "string option"
  qr_executedAt :: "int option"
  qr_rowCount :: "int option"
  qr_columns :: "string list option"
  qr_ciphertext :: "bytes option"
  qr_errorCode :: "string option"
  qr_denyReason :: "string option"
  qr_decisionId :: "int64 option"
  qr_errorDetail :: "bytes option"
  qr_requirements :: "bytes option"
  qr_expiresAt :: "int option"

record grant_row =
  gt_id :: int64
  gt_requestId :: int64
  gt_principal :: string
  gt_roleId :: int64
  gt_grantedBy :: "string option"
  gt_grantedAt :: int
  gt_expiresAt :: "int option"
  gt_revokedAt :: "int option"

datatype request_event_kind = EV_REQUESTED | EV_EDITED | EV_APPROVED | EV_REJECTED | EV_UNAPPROVED | EV_EXPIRED | EV_WITHDRAWN
  | EV_CLOSED | EV_RAN | EV_EXECUTED | EV_FAILED | EV_CANCELLED | EV_COMMENT | EV_LGTM | EV_CC_ADDED | EV_CC_REMOVED
  | EV_CODE_APPROVED | EV_CODE_CHANGES_REQUESTED | EV_CODE_REVIEW_DISMISSED

record request_event =
  re_requestId :: int64
  re_kind :: request_event_kind
  re_actor :: "string option"
  re_body :: "string option"
  re_revision :: int
  re_origin :: string
  re_sourceThread :: "string option"
  re_slackRef :: "string option"
  re_githubReviewId :: "string option"

datatype participant_kind = APPROVER | CC

record app_role =
  rl_id :: int64
  rl_name :: string
  rl_deleted :: bool

record task_datasource =
  ts_id :: int64
  ts_name :: string
  ts_tags :: "string list"
  ts_deleted :: bool

text \<open>A record of the management audit, with the actor, the action and the entity it names.\<close>

record management_record =
  mg_actor :: string
  mg_action :: authz_action
  mg_entity :: string
  mg_entityId :: int64

record task_db =
  td_requests :: "request_row list"
  td_results :: "result_row list"
  td_grants :: "grant_row list"
  td_events :: "request_event list"
  td_participants :: "(int64 \<times> string \<times> participant_kind) list"
  td_roles :: "app_role list"
  td_datasources :: "task_datasource list"
  td_audit :: "management_record list"
  td_requestSeq :: int64
  td_resultSeq :: int64
  td_grantSeq :: int64

subsection \<open>Inputs, environment and errors\<close>

record pull_request_ref =
  pr_repository :: string
  pr_pr :: int
  pr_prUrl :: "string option"
  pr_path :: "string option"
  pr_headSha :: "string option"
  pr_defaultSchema :: "string option"
  pr_keyOrder :: "string option"

record request_origin =
  og_scope :: string
  og_fileKey :: string
  og_contentHash :: "string option"
  og_changeKey :: string
  og_pullRequest :: pull_request_ref
  og_rawHash :: "string option"

record request_edit =
  et_contentHash :: "string option"
  et_rawHash :: string
  et_denyReason :: "string option"
  et_evaluatedDecision :: "string option"
  et_carriesProtectedLiteral :: "bool option"
  et_title :: "string option"
  et_reason :: "string option"
  et_origin :: "request_origin option"

record access_request_input =
  ai_roleId :: int64
  ai_datasourceId :: "int64 option"
  ai_reason :: "string option"
  ai_requestedDurationSec :: int64

record audit_actor =
  aa_principal :: string
  aa_channel :: string

text \<open>
  What a transaction meets: the clock, in microseconds, whether the audit recorder's insert succeeds, and whether
  the hook that queues notifications does.
\<close>

record tx_env =
  tx_now :: int
  tx_audit :: bool
  tx_hook :: bool

datatype task_error = ServiceError nat string | DuplicatePendingQueryRequest | IllegalArgument | IllegalState
  | ForeignKeyViolation | UniqueViolation | AuditFailure | HookFailure

type_synonym 'a tx = "task_db \<Rightarrow> (task_error, 'a) result \<times> task_db"

definition pureTx :: "'a \<Rightarrow> 'a tx" where
  "pureTx x db = (Inr x, db)"

definition failTx :: "task_error \<Rightarrow> 'a tx" where
  "failTx e db = (Inl e, db)"

definition bindTx :: "'a tx \<Rightarrow> ('a \<Rightarrow> 'b tx) \<Rightarrow> 'b tx" where
  "bindTx m k db = (case m db of (Inl e, db') \<Rightarrow> (Inl e, db') | (Inr x, db') \<Rightarrow> k x db')"

definition inTx :: "'a tx \<Rightarrow> 'a tx" where
  "inTx body db =
    (case body db of
       (Inl e, db') \<Rightarrow> (Inl e, db\<lparr>td_requestSeq := td_requestSeq db', td_resultSeq := td_resultSeq db', td_grantSeq := td_grantSeq db'\<rparr>)
     | (Inr x, db') \<Rightarrow> (Inr x, db'))"

definition SECOND :: int where "SECOND = 1000000"
definition APPROVAL_TTL :: int where "APPROVAL_TTL = 24 * 3600 * SECOND"
definition RESULT_RETENTION_SEC :: int where "RESULT_RETENTION_SEC = 86400"
definition SYSTEM_ORIGIN :: string where "SYSTEM_ORIGIN = ''system''"
definition SOURCE_GITHUB :: string where "SOURCE_GITHUB = ''github''"

definition recorderRecord :: "tx_env \<Rightarrow> audit_actor \<Rightarrow> authz_action \<Rightarrow> string \<Rightarrow> int64 \<Rightarrow> unit tx" where
  "recorderRecord ev actr action entity i db =
    (if tx_audit ev
     then (Inr (), db\<lparr>td_audit := td_audit db @ [\<lparr>mg_actor = aa_principal actr, mg_action = action, mg_entity = entity, mg_entityId = i\<rparr>]\<rparr>)
     else (Inl AuditFailure, db))"

definition runHook :: "tx_env \<Rightarrow> unit tx" where
  "runHook ev db = (if tx_hook ev then (Inr (), db) else (Inl HookFailure, db))"

text \<open>An \<^verbatim>\<open>UPDATE\<close> and whether it changed a row.\<close>

definition updateWhere :: "('a \<Rightarrow> bool) \<Rightarrow> ('a \<Rightarrow> 'a) \<Rightarrow> 'a list \<Rightarrow> 'a list" where
  "updateWhere P f xs = map (\<lambda>x. if P x then f x else x) xs"

definition updateRequests :: "(request_row \<Rightarrow> bool) \<Rightarrow> (request_row \<Rightarrow> request_row) \<Rightarrow> bool tx" where
  "updateRequests P f db = (Inr (list_ex P (td_requests db)), db\<lparr>td_requests := updateWhere P f (td_requests db)\<rparr>)"

definition updateResults :: "(result_row \<Rightarrow> bool) \<Rightarrow> (result_row \<Rightarrow> result_row) \<Rightarrow> bool tx" where
  "updateResults P f db = (Inr (list_ex P (td_results db)), db\<lparr>td_results := updateWhere P f (td_results db)\<rparr>)"

text \<open>\<^verbatim>\<open>DELETE FROM access_request\<close> takes the rows that refer to a deleted request with it.\<close>

definition deleteRequests :: "(request_row \<Rightarrow> bool) \<Rightarrow> nat tx" where
  "deleteRequests P db =
    (let gone = map rw_id (filter P (td_requests db)) in
     (Inr (length gone),
      db\<lparr>td_requests := filter (\<lambda>r. \<not> P r) (td_requests db),
         td_results := filter (\<lambda>q. qr_taskId q \<notin> set gone) (td_results db),
         td_grants := filter (\<lambda>g. gt_requestId g \<notin> set gone) (td_grants db),
         td_events := filter (\<lambda>e. re_requestId e \<notin> set gone) (td_events db),
         td_participants := filter (\<lambda>p. fst p \<notin> set gone) (td_participants db)\<rparr>))"


subsection \<open>Reading a request\<close>

definition getRequest :: "int64 \<Rightarrow> task_db \<Rightarrow> request_row option" where
  "getRequest i db = find (\<lambda>r. rw_id r = i) (td_requests db)"

definition roleNameOf :: "task_db \<Rightarrow> request_row \<Rightarrow> string option" where
  "roleNameOf db r = Option.bind (rw_roleId r) (\<lambda>i. map_option rl_name (find (\<lambda>l. rl_id l = i) (td_roles db)))"

definition datasourceOf :: "task_db \<Rightarrow> request_row \<Rightarrow> task_datasource option" where
  "datasourceOf db r = Option.bind (rw_datasourceId r) (\<lambda>i. find (\<lambda>d. ts_id d = i) (td_datasources db))"

definition liveDatasource :: "task_db \<Rightarrow> int64 option \<Rightarrow> task_datasource option" where
  "liveDatasource db i = Option.bind i (\<lambda>n. find (\<lambda>d. ts_id d = n \<and> \<not> ts_deleted d) (td_datasources db))"

text \<open>The statements of a task in the order they run.\<close>

definition statements :: "int64 \<Rightarrow> task_db \<Rightarrow> result_row list" where
  "statements i db = sort_key qr_ordinal (filter (\<lambda>q. qr_taskId q = i) (td_results db))"

definition executedByOf :: "task_db \<Rightarrow> request_row \<Rightarrow> string option" where
  "executedByOf db r = (case statements (rw_id r) db of [] \<Rightarrow> None | q # _ \<Rightarrow> qr_executedBy q)"

definition ccsOf :: "task_db \<Rightarrow> request_row \<Rightarrow> string list" where
  "ccsOf db r = sort (map (fst \<circ> snd) (filter (\<lambda>(i, who, k). i = rw_id r \<and> k = CC) (td_participants db)))"

definition fromPullRequest :: "request_row \<Rightarrow> bool" where
  "fromPullRequest r \<longleftrightarrow> rw_source r = SOURCE_GITHUB"

definition isWorkflowApproval :: "request_row \<Rightarrow> bool" where
  "isWorkflowApproval r \<longleftrightarrow> rw_kind r = QUERY \<and> rw_creatorKind r = BY_WORKFLOW"

definition closable :: "request_row \<Rightarrow> bool" where
  "closable r \<longleftrightarrow> \<not> fromPullRequest r \<and> (rw_status r = PENDING \<or> rw_kind r = QUERY \<and> rw_status r = APPROVED)"

definition toApprovalResource :: "task_db \<Rightarrow> request_row \<Rightarrow> authz_resource" where
  "toApprovalResource db r = ApprovalRequest
    \<lparr>ar_requester = rw_principal r, ar_approver = rw_decidedBy r, ar_executedBy = executedByOf db r,
     ar_datasource = map_option ts_name (datasourceOf db r), ar_role = roleNameOf db r, ar_source = rw_source r, ar_ccs = ccsOf db r\<rparr>"

definition newestFirst :: "request_row list \<Rightarrow> request_row list" where
  "newestFirst = sort_key (\<lambda>r. - rw_createdAt r)"

definition listRequests :: "request_status option \<Rightarrow> task_db \<Rightarrow> request_row list" where
  "listRequests st db = newestFirst (filter (\<lambda>r. rw_kind r \<in> {ROLE, RATE_RESET} \<and> (st = None \<or> st = Some (rw_status r))) (td_requests db))"

definition listQueryRequests :: "request_status option \<Rightarrow> string option \<Rightarrow> task_db \<Rightarrow> request_row list" where
  "listQueryRequests st who db =
    newestFirst (filter (\<lambda>r. isWorkflowApproval r \<and> (st = None \<or> st = Some (rw_status r)) \<and> (who = None \<or> who = Some (rw_principal r))) (td_requests db))"

subsection \<open>The timeline\<close>

definition SYSTEM_PREFIX :: string where "SYSTEM_PREFIX = ''system:''"

definition DECISIONS :: "request_event_kind list" where
  "DECISIONS = [EV_APPROVED, EV_REJECTED, EV_UNAPPROVED, EV_RAN]"

definition addParticipant :: "int64 \<Rightarrow> string \<Rightarrow> participant_kind \<Rightarrow> task_db \<Rightarrow> task_db" where
  "addParticipant i who k db =
    (case getRequest i db of
       None \<Rightarrow> db
     | Some r \<Rightarrow> if who \<noteq> rw_principal r \<and> (i, who, k) \<notin> set (td_participants db)
         then db\<lparr>td_participants := td_participants db @ [(i, who, k)]\<rparr> else db)"

definition eventConflict :: "request_event \<Rightarrow> request_event \<Rightarrow> bool" where
  "eventConflict e e' \<longleftrightarrow>
    re_slackRef e \<noteq> None \<and> re_slackRef e' = re_slackRef e
    \<or> re_githubReviewId e \<noteq> None \<and> re_requestId e' = re_requestId e \<and> re_kind e' = re_kind e \<and> re_githubReviewId e' = re_githubReviewId e"

definition recordEvent :: "int64 \<Rightarrow> request_event_kind \<Rightarrow> string option \<Rightarrow> string \<Rightarrow> string option \<Rightarrow> string option \<Rightarrow> string option \<Rightarrow> string option \<Rightarrow>
    request_event option tx" where
  "recordEvent i kind actr origin body thread slackRef reviewId db =
    (case find (\<lambda>r. rw_id r = i \<and> rw_creatorKind r = BY_WORKFLOW) (td_requests db) of
       None \<Rightarrow> (Inr None, db)
     | Some r \<Rightarrow>
         (let e = \<lparr>re_requestId = i, re_kind = kind, re_actor = actr, re_body = body, re_revision = rw_revision r, re_origin = origin,
                   re_sourceThread = thread, re_slackRef = slackRef, re_githubReviewId = reviewId\<rparr>
          in if list_ex (eventConflict e) (td_events db) then (Inr None, db)
             else (Inr (Some e),
               (let db1 = db\<lparr>td_events := td_events db @ [e]\<rparr> in
                case actr of
                  None \<Rightarrow> db1
                | Some who \<Rightarrow> if kind \<in> set DECISIONS \<and> take (length SYSTEM_PREFIX) who \<noteq> SYSTEM_PREFIX then addParticipant i who APPROVER db1 else db1))))"

definition plainEvent :: "int64 \<Rightarrow> request_event_kind \<Rightarrow> string option \<Rightarrow> string \<Rightarrow> unit tx" where
  "plainEvent i kind actr origin = bindTx (recordEvent i kind actr origin None None None None) (\<lambda>_. pureTx ())"

subsection \<open>Opening requests\<close>

definition noText :: request_text where
  "noText = \<lparr>rx_title = None, rx_reason = None, rx_denyReason = None, rx_evaluatedDecision = None, rx_carriesProtectedLiteral = None,
     rx_contentHash = None, rx_rawHash = None, rx_revisedAt = None\<rparr>"

definition noPull :: pull_columns where
  "noPull = \<lparr>pc_repository = None, pc_pr = None, pc_prUrl = None, pc_path = None, pc_headSha = None, pc_defaultSchema = None, pc_keyOrder = None,
     pc_filedHead = None, pc_mergeSha = None, pc_prAutoMerge = False, pc_approvedReviewId = None, pc_scope = None, pc_fileKey = None,
     pc_changeKey = None, pc_mergedAt = None, pc_forceRun = False, pc_forceRunBy = None\<rparr>"

text \<open>The defaults of the columns an \<^verbatim>\<open>INSERT\<close> leaves out.\<close>

definition newRow :: "tx_env \<Rightarrow> int64 \<Rightarrow> string \<Rightarrow> creator_kind \<Rightarrow> request_row" where
  "newRow ev i who creator =
    \<lparr>rw_id = i, rw_kind = ROLE, rw_principal = who, rw_roleId = None, rw_datasourceId = None, rw_requestedDurationSec = 3600,
     rw_status = PENDING, rw_creatorKind = creator, rw_sourceDecisionId = None, rw_decidedBy = None, rw_decidedAt = None,
     rw_approvedAt = None, rw_rejectionReason = None, rw_executeAs = [], rw_executingAt = None, rw_executedAt = None,
     rw_createdAt = tx_now ev, rw_source = ''console'', rw_revision = 1, rw_text = noText, rw_pull = noPull\<rparr>"

definition knownRole :: "task_db \<Rightarrow> int64 option \<Rightarrow> bool" where
  "knownRole db i \<longleftrightarrow> (case i of None \<Rightarrow> True | Some n \<Rightarrow> list_ex (\<lambda>l. rl_id l = n) (td_roles db))"

definition knownDatasource :: "task_db \<Rightarrow> int64 option \<Rightarrow> bool" where
  "knownDatasource db i \<longleftrightarrow> (case i of None \<Rightarrow> True | Some n \<Rightarrow> list_ex (\<lambda>d. ts_id d = n) (td_datasources db))"

definition insertRequest :: "(int64 \<Rightarrow> request_row) \<Rightarrow> int64 tx" where
  "insertRequest row db =
    (let i = td_requestSeq db; db1 = db\<lparr>td_requestSeq := i + 1\<rparr>; r = row i in
     if \<not> knownRole db (rw_roleId r) \<or> \<not> knownDatasource db (rw_datasourceId r) then (Inl ForeignKeyViolation, db1)
     else (Inr i, db1\<lparr>td_requests := td_requests db @ [r]\<rparr>))"

definition createRequest :: "tx_env \<Rightarrow> string \<Rightarrow> access_request_input \<Rightarrow> audit_actor \<Rightarrow> string \<Rightarrow> int64 tx" where
  "createRequest ev who input actr source = inTx
    (bindTx (insertRequest (\<lambda>i. (newRow ev i who BY_WORKFLOW)
       \<lparr>rw_roleId := Some (ai_roleId input), rw_datasourceId := ai_datasourceId input, rw_text := noText\<lparr>rx_reason := ai_reason input\<rparr>,
        rw_requestedDurationSec := ai_requestedDurationSec input, rw_source := source\<rparr>)) (\<lambda>i.
     bindTx (recorderRecord ev actr TASK_REQUEST ''AccessRequest'' i) (\<lambda>_.
     bindTx (plainEvent i EV_REQUESTED (Some who) source) (\<lambda>_. pureTx i))))"

definition sha256Hex :: "string \<Rightarrow> string" where
  "sha256Hex s = hex_EncodeToString (sha256 (str_bytes s))"

definition childRow :: "tx_env \<Rightarrow> int64 \<Rightarrow> int64 \<Rightarrow> nat \<Rightarrow> string \<Rightarrow> result_row" where
  "childRow ev i task ordinal sql =
    \<lparr>qr_id = i, qr_taskId = task, qr_ordinal = ordinal, qr_sql = Some sql, qr_sqlHash = Some (sha256Hex sql), qr_status = None,
     qr_executedBy = None, qr_executedAt = Some (tx_now ev), qr_rowCount = None, qr_columns = None, qr_ciphertext = None, qr_errorCode = None,
     qr_denyReason = None, qr_decisionId = None, qr_errorDetail = None, qr_requirements = None, qr_expiresAt = None\<rparr>"

definition insertStatements :: "tx_env \<Rightarrow> int64 \<Rightarrow> string list \<Rightarrow> unit tx" where
  "insertStatements ev task sqls db =
    (Inr (), db\<lparr>td_results := td_results db @ map (\<lambda>(k, sql). childRow ev (td_resultSeq db + int k) task k sql) (enumerate 0 sqls),
               td_resultSeq := td_resultSeq db + int (length sqls)\<rparr>)"

record query_request =
  cq_principal :: string
  cq_datasourceId :: int64
  cq_statements :: "string list"
  cq_denyReason :: "string option"
  cq_sourceDecisionId :: "int64 option"
  cq_reason :: "string option"
  cq_title :: "string option"
  cq_evaluatedDecision :: "string option"
  cq_roleId :: "int64 option"
  cq_requestedDurationSec :: int64
  cq_carriesProtectedLiteral :: "bool option"
  cq_actor :: "audit_actor option"
  cq_source :: string
  cq_contentHash :: "string option"
  cq_rawHash :: "string option"
  cq_origin :: "request_origin option"

definition orElse :: "'a option \<Rightarrow> 'a option \<Rightarrow> 'a option" where
  "orElse a b = (case a of None \<Rightarrow> b | Some x \<Rightarrow> Some x)"

definition liveRoleName :: "task_db \<Rightarrow> int64 option \<Rightarrow> string list" where
  "liveRoleName db i =
    (case i of None \<Rightarrow> []
     | Some n \<Rightarrow> (case find (\<lambda>l. rl_id l = n \<and> \<not> rl_deleted l) (td_roles db) of None \<Rightarrow> [] | Some l \<Rightarrow> [rl_name l]))"

definition pullOf :: "request_origin option \<Rightarrow> pull_columns" where
  "pullOf og =
    (case og of None \<Rightarrow> noPull
     | Some g \<Rightarrow> (let p = og_pullRequest g in noPull
         \<lparr>pc_scope := Some (og_scope g), pc_changeKey := Some (og_changeKey g), pc_path := pr_path p, pc_prUrl := pr_prUrl p,
          pc_repository := Some (pr_repository p), pc_pr := Some (pr_pr p), pc_defaultSchema := pr_defaultSchema p,
          pc_headSha := pr_headSha p, pc_fileKey := Some (og_fileKey g), pc_keyOrder := pr_keyOrder p\<rparr>))"

definition queryRow :: "tx_env \<Rightarrow> query_request \<Rightarrow> string list \<Rightarrow> int64 \<Rightarrow> request_row" where
  "queryRow ev q executeAs i = (newRow ev i (cq_principal q) BY_WORKFLOW)
    \<lparr>rw_kind := QUERY, rw_roleId := cq_roleId q, rw_datasourceId := Some (cq_datasourceId q), rw_sourceDecisionId := cq_sourceDecisionId q,
     rw_requestedDurationSec := cq_requestedDurationSec q, rw_executeAs := executeAs, rw_source := cq_source q,
     rw_text := noText\<lparr>rx_denyReason := cq_denyReason q, rx_reason := cq_reason q, rx_title := cq_title q,
       rx_evaluatedDecision := cq_evaluatedDecision q, rx_carriesProtectedLiteral := cq_carriesProtectedLiteral q,
       rx_contentHash := orElse (cq_contentHash q) (Option.bind (cq_origin q) og_contentHash),
       rx_rawHash := orElse (cq_rawHash q) (Option.bind (cq_origin q) og_rawHash)\<rparr>,
     rw_pull := pullOf (cq_origin q)\<rparr>"

definition pendingQueryRequestExists :: "int64 \<Rightarrow> task_db \<Rightarrow> bool" where
  "pendingQueryRequestExists d db \<longleftrightarrow>
    list_ex (\<lambda>r. rw_kind r = QUERY \<and> rw_sourceDecisionId r = Some d \<and> rw_status r = PENDING) (td_requests db)"

definition createQueryRequest :: "tx_env \<Rightarrow> query_request \<Rightarrow> int64 tx" where
  "createQueryRequest ev q db =
    (if cq_statements q = [] then (Inl IllegalArgument, db)
     else (let executeAs = liveRoleName db (cq_roleId q) in inTx
      (bindTx (\<lambda>db. case cq_sourceDecisionId q of
           Some d \<Rightarrow> if pendingQueryRequestExists d db then (Inl DuplicatePendingQueryRequest, db\<lparr>td_requestSeq := td_requestSeq db + 1\<rparr>)
             else insertRequest (queryRow ev q executeAs) db
         | None \<Rightarrow> insertRequest (queryRow ev q executeAs) db) (\<lambda>i.
       bindTx (insertStatements ev i (cq_statements q)) (\<lambda>_.
       bindTx (plainEvent i EV_REQUESTED (Some (cq_principal q)) (cq_source q)) (\<lambda>_.
       bindTx (case cq_actor q of None \<Rightarrow> pureTx () | Some a \<Rightarrow> recorderRecord ev a TASK_REQUEST ''AccessRequest'' i) (\<lambda>_.
       bindTx (runHook ev) (\<lambda>_. pureTx i)))))) db))"

definition approvedRow :: "tx_env \<Rightarrow> string \<Rightarrow> int64 \<Rightarrow> string list \<Rightarrow> string \<Rightarrow> creator_kind \<Rightarrow> int64 \<Rightarrow> request_row" where
  "approvedRow ev who ds executeAs approver creator i = (newRow ev i who creator)
    \<lparr>rw_kind := QUERY, rw_datasourceId := Some ds, rw_status := APPROVED, rw_decidedBy := Some approver,
     rw_decidedAt := Some (tx_now ev), rw_approvedAt := Some (tx_now ev), rw_executeAs := executeAs\<rparr>"

definition createEditorTask :: "tx_env \<Rightarrow> string \<Rightarrow> int64 \<Rightarrow> string list \<Rightarrow> string list \<Rightarrow> string \<Rightarrow> int64 tx" where
  "createEditorTask ev who ds sqls executeAs approver db =
    (if sqls = [] then (Inl IllegalArgument, db)
     else inTx (bindTx (insertRequest (approvedRow ev who ds executeAs approver BY_EDITOR)) (\<lambda>i.
       bindTx (insertStatements ev i sqls) (\<lambda>_. pureTx i))) db)"

definition createWireTask :: "tx_env \<Rightarrow> string \<Rightarrow> int64 \<Rightarrow> string list \<Rightarrow> int64 \<Rightarrow> int64 tx" where
  "createWireTask ev who ds executeAs d =
    insertRequest (\<lambda>i. (approvedRow ev who ds executeAs who BY_WIRE i)\<lparr>rw_sourceDecisionId := Some d\<rparr>)"

definition wireTaskIdForDecision :: "int64 \<Rightarrow> task_db \<Rightarrow> int64 option" where
  "wireTaskIdForDecision d db =
    map_option rw_id (find (\<lambda>r. rw_kind r = QUERY \<and> rw_creatorKind r = BY_WIRE \<and> rw_sourceDecisionId r = Some d) (td_requests db))"

definition editorChildId :: "int64 \<Rightarrow> task_db \<Rightarrow> int64 option" where
  "editorChildId i db = (case statements i db of [] \<Rightarrow> None | q # _ \<Rightarrow> Some (qr_id q))"

definition deleteEditorTask :: "int64 \<Rightarrow> string \<Rightarrow> bool tx" where
  "deleteEditorTask i who =
    bindTx (deleteRequests (\<lambda>r. rw_id r = i \<and> rw_kind r = QUERY \<and> rw_creatorKind r = BY_EDITOR \<and> rw_principal r = who)) (\<lambda>n. pureTx (0 < n))"


subsection \<open>Deciding, editing and ending requests\<close>

text \<open>The unique index on the source decision of pending queries.\<close>

definition pendingUnique :: "request_row list \<Rightarrow> bool" where
  "pendingUnique rs \<longleftrightarrow>
    distinct (List.map_filter (\<lambda>r. if rw_kind r = QUERY \<and> rw_status r = PENDING then rw_sourceDecisionId r else None) rs)"

definition checkPending :: "unit tx" where
  "checkPending db = (if pendingUnique (td_requests db) then (Inr (), db) else (Inl UniqueViolation, db))"

definition decideQueryRequest :: "tx_env \<Rightarrow> int64 \<Rightarrow> bool \<Rightarrow> string option \<Rightarrow> string \<Rightarrow> int \<Rightarrow> string option \<Rightarrow> bool tx" where
  "decideQueryRequest ev i approved reason who revision reviewId =
    updateRequests
      (\<lambda>r. rw_id r = i \<and> rw_kind r = QUERY \<and> rw_revision r = revision \<and> (rw_status r = PENDING \<or> rw_status r = APPROVED \<and> \<not> approved))
      (\<lambda>r. r\<lparr>rw_status := if approved then APPROVED else REJECTED, rw_decidedBy := Some who, rw_decidedAt := Some (tx_now ev),
             rw_approvedAt := if approved then Some (tx_now ev) else None, rw_rejectionReason := reason,
             rw_pull := (rw_pull r)\<lparr>pc_approvedReviewId := if approved then reviewId else None\<rparr>\<rparr>)"

definition decideAudited :: "tx_env \<Rightarrow> int64 \<Rightarrow> bool \<Rightarrow> string option \<Rightarrow> string \<Rightarrow> audit_actor \<Rightarrow> int \<Rightarrow> string option \<Rightarrow> bool tx" where
  "decideAudited ev i approved reason who actr revision reviewId = inTx
    (bindTx (decideQueryRequest ev i approved reason who revision reviewId) (\<lambda>won.
     if won then
       bindTx (recordEvent i (if approved then EV_APPROVED else EV_REJECTED) (Some who) (aa_channel actr) reason None None reviewId) (\<lambda>_.
       bindTx (recorderRecord ev actr TASK_APPROVE ''AccessRequest'' i) (\<lambda>_.
       bindTx (runHook ev) (\<lambda>_. pureTx True)))
     else pureTx False))"

definition unstarted :: "request_row \<Rightarrow> bool" where
  "unstarted r \<longleftrightarrow> rw_status r = PENDING \<or> rw_status r = APPROVED"

definition editedText :: "tx_env \<Rightarrow> request_edit \<Rightarrow> request_text \<Rightarrow> request_text" where
  "editedText ev ed t = t\<lparr>rx_denyReason := et_denyReason ed, rx_evaluatedDecision := et_evaluatedDecision ed,
     rx_carriesProtectedLiteral := et_carriesProtectedLiteral ed, rx_title := orElse (et_title ed) (rx_title t),
     rx_reason := orElse (et_reason ed) (rx_reason t), rx_contentHash := et_contentHash ed, rx_rawHash := Some (et_rawHash ed),
     rx_revisedAt := Some (tx_now ev)\<rparr>"

definition editedPull :: "request_edit \<Rightarrow> pull_columns \<Rightarrow> pull_columns" where
  "editedPull ed p = p\<lparr>pc_approvedReviewId := None, pc_forceRun := False, pc_forceRunBy := None,
     pc_fileKey := orElse (map_option og_fileKey (et_origin ed)) (pc_fileKey p),
     pc_changeKey := orElse (map_option og_changeKey (et_origin ed)) (pc_changeKey p),
     pc_headSha := orElse (Option.bind (et_origin ed) (\<lambda>g. pr_headSha (og_pullRequest g))) (pc_headSha p)\<rparr>"

definition editQueryRequest :: "tx_env \<Rightarrow> int64 \<Rightarrow> string list \<Rightarrow> request_edit \<Rightarrow> audit_actor \<Rightarrow> bool tx" where
  "editQueryRequest ev i sqls ed actr db =
    (if sqls = [] then (Inl IllegalArgument, db)
     else inTx (bindTx (updateRequests (\<lambda>r. rw_id r = i \<and> isWorkflowApproval r \<and> unstarted r)
         (\<lambda>r. r\<lparr>rw_status := PENDING, rw_decidedBy := None, rw_decidedAt := None, rw_approvedAt := None, rw_rejectionReason := None,
                rw_sourceDecisionId := None, rw_text := editedText ev ed (rw_text r), rw_revision := rw_revision r + 1,
                rw_pull := editedPull ed (rw_pull r)\<rparr>)) (\<lambda>won.
       if won then
         bindTx (\<lambda>db. (Inr (), db\<lparr>td_results := filter (\<lambda>q. qr_taskId q \<noteq> i) (td_results db)\<rparr>)) (\<lambda>_.
         bindTx (insertStatements ev i sqls) (\<lambda>_.
         bindTx (plainEvent i EV_EDITED (Some (aa_principal actr)) (aa_channel actr)) (\<lambda>_.
         bindTx (recorderRecord ev actr TASK_REQUEST ''AccessRequest'' i) (\<lambda>_.
         bindTx (runHook ev) (\<lambda>_. pureTx True)))))
       else pureTx False)) db)"

definition editQueryRequestDetails :: "tx_env \<Rightarrow> int64 \<Rightarrow> string option \<Rightarrow> string option \<Rightarrow> audit_actor \<Rightarrow> pull_request_ref option \<Rightarrow> bool tx" where
  "editQueryRequestDetails ev i title reason actr p = inTx
    (bindTx (updateRequests (\<lambda>r. rw_id r = i \<and> isWorkflowApproval r \<and> unstarted r)
       (\<lambda>r. r\<lparr>rw_text := (rw_text r)\<lparr>rx_title := orElse title (rx_title (rw_text r)), rx_reason := orElse reason (rx_reason (rw_text r))\<rparr>,
              rw_pull := (rw_pull r)\<lparr>pc_path := orElse (Option.bind p pr_path) (pc_path (rw_pull r)),
                pc_headSha := orElse (Option.bind p pr_headSha) (pc_headSha (rw_pull r))\<rparr>\<rparr>)) (\<lambda>won.
     if won then bindTx (recorderRecord ev actr TASK_REQUEST ''AccessRequest'' i) (\<lambda>_. pureTx True) else pureTx False))"

definition endUnstarted :: "int64 \<Rightarrow> request_status \<Rightarrow> bool tx" where
  "endUnstarted i st db =
    (if st \<notin> {DELETED, ALREADY_RAN, CANCELLED} then (Inl IllegalArgument, db)
     else updateRequests (\<lambda>r. rw_id r = i \<and> rw_kind r = QUERY \<and> unstarted r) (\<lambda>r. r\<lparr>rw_status := st\<rparr>) db)"

definition reopenQueryRequest :: "tx_env \<Rightarrow> int64 \<Rightarrow> audit_actor \<Rightarrow> request_event_kind \<Rightarrow> bool tx" where
  "reopenQueryRequest ev i actr event = inTx
    (bindTx (updateRequests (\<lambda>r. rw_id r = i \<and> rw_kind r = QUERY \<and> rw_status r = APPROVED)
       (\<lambda>r. r\<lparr>rw_status := PENDING, rw_decidedBy := None, rw_decidedAt := None, rw_approvedAt := None,
              rw_pull := (rw_pull r)\<lparr>pc_approvedReviewId := None\<rparr>\<rparr>)) (\<lambda>won.
     bindTx checkPending (\<lambda>_.
     if won then
       bindTx (recorderRecord ev actr TASK_APPROVE ''AccessRequest'' i) (\<lambda>_.
       bindTx (plainEvent i event (if event = EV_EXPIRED then None else Some (aa_principal actr)) (aa_channel actr)) (\<lambda>_.
       bindTx (runHook ev) (\<lambda>_. pureTx True)))
     else pureTx False)))"

definition approvalLive :: "int \<Rightarrow> request_row \<Rightarrow> bool" where
  "approvalLive now r \<longleftrightarrow> fromPullRequest r \<or> (case rw_approvedAt r of None \<Rightarrow> True | Some t \<Rightarrow> now - APPROVAL_TTL < t)"

definition expiredApprovals :: "int \<Rightarrow> task_db \<Rightarrow> int64 list" where
  "expiredApprovals now db =
    map rw_id (filter (\<lambda>r. isWorkflowApproval r \<and> rw_status r = APPROVED \<and> \<not> fromPullRequest r \<and> \<not> approvalLive now r) (td_requests db))"

definition closeRequest :: "tx_env \<Rightarrow> int64 \<Rightarrow> audit_actor \<Rightarrow> bool tx" where
  "closeRequest ev i actr = inTx
    (bindTx (updateRequests (\<lambda>r. rw_id r = i \<and> rw_creatorKind r = BY_WORKFLOW \<and> (rw_status r = PENDING \<or> rw_status r = APPROVED \<and> rw_kind r = QUERY))
       (\<lambda>r. r\<lparr>rw_status := CANCELLED\<rparr>)) (\<lambda>won.
     if won then
       bindTx (recorderRecord ev actr TASK_CANCEL ''AccessRequest'' i) (\<lambda>_.
       bindTx (plainEvent i EV_CLOSED (Some (aa_principal actr)) (aa_channel actr)) (\<lambda>_.
       bindTx (runHook ev) (\<lambda>_. pureTx True)))
     else pureTx False))"

definition forceRun :: "tx_env \<Rightarrow> int64 \<Rightarrow> string \<Rightarrow> audit_actor \<Rightarrow> bool tx" where
  "forceRun ev i admin actr = inTx
    (bindTx (updateRequests (\<lambda>r. rw_id r = i \<and> rw_kind r = QUERY \<and> fromPullRequest r \<and> unstarted r \<and> \<not> pc_forceRun (rw_pull r))
       (\<lambda>r. r\<lparr>rw_pull := (rw_pull r)\<lparr>pc_forceRun := True, pc_forceRunBy := Some admin\<rparr>\<rparr>)) (\<lambda>won.
     if won then
       bindTx (recorderRecord ev actr TASK_FORCE_RUN ''AccessRequest'' i) (\<lambda>_.
       bindTx (runHook ev) (\<lambda>_. pureTx True))
     else pureTx False))"

definition markDeleted :: "int64 \<Rightarrow> bool tx" where
  "markDeleted i = updateRequests (\<lambda>r. rw_id r = i \<and> rw_kind r = QUERY \<and> rw_status r \<in> {DRAFT, PENDING, REJECTED}) (\<lambda>r. r\<lparr>rw_status := DELETED\<rparr>)"

definition resubmit :: "int64 \<Rightarrow> bool tx" where
  "resubmit i = inTx (bindTx (updateRequests (\<lambda>r. rw_id r = i \<and> rw_kind r = QUERY \<and> rw_status r = REJECTED)
      (\<lambda>r. r\<lparr>rw_status := PENDING, rw_decidedBy := None, rw_decidedAt := None, rw_rejectionReason := None\<rparr>)) (\<lambda>won.
     bindTx checkPending (\<lambda>_. pureTx won)))"

subsection \<open>Claiming a run\<close>

text \<open>SQL's \<^verbatim>\<open>=\<close> and row \<^verbatim>\<open><\<close>, true only when nothing compared is NULL.\<close>

definition sqlEq :: "'a option \<Rightarrow> 'a option \<Rightarrow> bool" where
  "sqlEq a b \<longleftrightarrow> a \<noteq> None \<and> a = b"

definition rowLess :: "int option \<times> int option \<Rightarrow> int option \<times> int option \<Rightarrow> bool" where
  "rowLess a b \<longleftrightarrow>
    (case (a, b) of
       ((Some x, p), (Some y, q)) \<Rightarrow> x < y \<or> x = y \<and> (case (p, q) of (Some m, Some n) \<Rightarrow> m < n | _ \<Rightarrow> False)
     | _ \<Rightarrow> False)"

definition samePull :: "request_row \<Rightarrow> request_row \<Rightarrow> bool" where
  "samePull a b \<longleftrightarrow> sqlEq (pc_scope (rw_pull a)) (pc_scope (rw_pull b)) \<and> sqlEq (pc_repository (rw_pull a)) (pc_repository (rw_pull b))
     \<and> sqlEq (pc_pr (rw_pull a)) (pc_pr (rw_pull b))"

text \<open>A pull request whose latest filing has a file that failed or was rejected and has no newer version cannot run.\<close>

definition cannotRun :: "request_row list \<Rightarrow> request_row \<Rightarrow> bool" where
  "cannotRun rs r \<longleftrightarrow>
    list_ex (\<lambda>f. samePull f r \<and> rw_status f \<in> {FAILED, REJECTED} \<and> pc_headSha (rw_pull f) = pc_filedHead (rw_pull f)
      \<and> \<not> list_ex (\<lambda>n. samePull n f \<and> sqlEq (pc_path (rw_pull n)) (pc_path (rw_pull f)) \<and> rw_id f < rw_id n
            \<and> rw_status n \<notin> {DELETED, ALREADY_RAN, CANCELLED}) rs) rs"

definition mergedBefore :: "request_row list \<Rightarrow> string option \<Rightarrow> int option \<Rightarrow> request_row \<Rightarrow> bool" where
  "mergedBefore rs repository pr r \<longleftrightarrow>
    list_ex (\<lambda>m. sqlEq (pc_scope (rw_pull m)) (pc_scope (rw_pull r)) \<and> sqlEq (pc_repository (rw_pull m)) repository \<and> sqlEq (pc_pr (rw_pull m)) pr
      \<and> rowLess (pc_mergedAt (rw_pull m), pc_pr (rw_pull m)) (pc_mergedAt (rw_pull r), pc_pr (rw_pull r))) rs"

definition scopeBusy :: "request_row list \<Rightarrow> string \<Rightarrow> int64 \<Rightarrow> string option \<Rightarrow> int option \<Rightarrow> request_row \<Rightarrow> bool" where
  "scopeBusy rs scope i repository pr r \<longleftrightarrow>
    pc_scope (rw_pull r) = Some scope \<and> rw_id r \<noteq> i
    \<and> \<not> (fromPullRequest r \<and> sqlEq (pc_repository (rw_pull r)) repository \<and> sqlEq (pc_pr (rw_pull r)) pr)
    \<and> (rw_status r = EXECUTING
       \<or> fromPullRequest r
         \<and> (rw_status r = EXECUTED \<and> pc_mergedAt (rw_pull r) = None
            \<or> unstarted r \<and> pc_mergedAt (rw_pull r) \<noteq> None \<and> \<not> mergedBefore rs repository pr r)
         \<and> \<not> cannotRun rs r)"

definition checkOrdering :: "int64 \<Rightarrow> string \<Rightarrow> unit tx" where
  "checkOrdering i scope db =
    (case getRequest i db of
       None \<Rightarrow> (Inr (), db)
     | Some r \<Rightarrow>
         if rw_status r \<noteq> APPROVED \<or> pc_forceRun (rw_pull r) then (Inr (), db)
         else if list_ex (scopeBusy (td_requests db) scope i (pc_repository (rw_pull r)) (pc_pr (rw_pull r))) (td_requests db)
           then (Inl (ServiceError 409 ''approval.scope_busy''), db)
         else (Inr (), db))"

definition claimExecution :: "tx_env \<Rightarrow> int64 \<Rightarrow> bool tx" where
  "claimExecution ev i db =
    (let scope = (case getRequest i db of None \<Rightarrow> None | Some r \<Rightarrow> if rw_status r = APPROVED then pc_scope (rw_pull r) else None) in
     bindTx (case scope of None \<Rightarrow> pureTx () | Some s \<Rightarrow> checkOrdering i s) (\<lambda>_.
     updateRequests (\<lambda>r. rw_id r = i \<and> rw_kind r = QUERY \<and> rw_status r = APPROVED \<and> approvalLive (tx_now ev) r)
       (\<lambda>r. r\<lparr>rw_status := EXECUTING, rw_executingAt := Some (tx_now ev)\<rparr>)) db)"

definition scopeBlocker :: "string \<Rightarrow> string \<Rightarrow> int \<Rightarrow> task_db \<Rightarrow> request_row option" where
  "scopeBlocker scope repository pr db =
    (case filter (scopeBusy (td_requests db) scope 0 (Some repository) (Some pr)) (td_requests db) of
       [] \<Rightarrow> None
     | r # rs \<Rightarrow> getRequest (Min (rw_id ` set (r # rs))) db)"

definition leaveExecuting :: "int64 \<Rightarrow> (request_row \<Rightarrow> request_row) \<Rightarrow> request_event_kind \<Rightarrow> bool tx" where
  "leaveExecuting i f event =
    bindTx (updateRequests (\<lambda>r. rw_id r = i \<and> rw_kind r = QUERY \<and> rw_status r = EXECUTING) f) (\<lambda>won.
    if won then bindTx (plainEvent i event None SYSTEM_ORIGIN) (\<lambda>_. pureTx True) else pureTx False)"

definition markExecuted :: "tx_env \<Rightarrow> int64 \<Rightarrow> bool tx" where
  "markExecuted ev i = leaveExecuting i (\<lambda>r. r\<lparr>rw_status := EXECUTED, rw_executedAt := Some (tx_now ev)\<rparr>) EV_EXECUTED"

definition markFailed :: "int64 \<Rightarrow> bool tx" where
  "markFailed i = leaveExecuting i (\<lambda>r. r\<lparr>rw_status := FAILED\<rparr>) EV_FAILED"

definition markCancelled :: "int64 \<Rightarrow> bool tx" where
  "markCancelled i = leaveExecuting i (\<lambda>r. r\<lparr>rw_status := CANCELLED\<rparr>) EV_CANCELLED"


subsection \<open>Pull requests\<close>

definition theDefault :: "'a \<Rightarrow> 'a option \<Rightarrow> 'a" where
  "theDefault d x = (case x of None \<Rightarrow> d | Some y \<Rightarrow> y)"

definition listGithubRequests :: "string \<Rightarrow> int \<Rightarrow> task_db \<Rightarrow> request_row list" where
  "listGithubRequests repository pr db =
    sort_key (\<lambda>r. pc_path (rw_pull r) = None) (sort_key (\<lambda>r. theDefault [] (pc_path (rw_pull r))) (sort_key rw_id
      (filter (\<lambda>r. fromPullRequest r \<and> pc_repository (rw_pull r) = Some repository \<and> pc_pr (rw_pull r) = Some pr) (td_requests db))))"

definition rekeyFile :: "string \<Rightarrow> string \<Rightarrow> string \<Rightarrow> string \<Rightarrow> string option \<Rightarrow> bool tx" where
  "rekeyFile scope fileKey rawHash changeKey contentHash = updateRequests
    (\<lambda>r. fromPullRequest r \<and> pc_scope (rw_pull r) = Some scope \<and> pc_fileKey (rw_pull r) = Some fileKey \<and> rx_rawHash (rw_text r) = Some rawHash
         \<and> pc_changeKey (rw_pull r) \<noteq> Some changeKey)
    (\<lambda>r. r\<lparr>rw_pull := (rw_pull r)\<lparr>pc_changeKey := Some changeKey\<rparr>, rw_text := (rw_text r)\<lparr>rx_contentHash := contentHash\<rparr>\<rparr>)"

definition changeKeyExecuted :: "string \<Rightarrow> string \<Rightarrow> task_db \<Rightarrow> bool" where
  "changeKeyExecuted scope changeKey db \<longleftrightarrow>
    list_ex (\<lambda>r. pc_scope (rw_pull r) = Some scope \<and> pc_changeKey (rw_pull r) = Some changeKey \<and> rw_status r = EXECUTED) (td_requests db)"

definition markMerged :: "string \<Rightarrow> int \<Rightarrow> string \<Rightarrow> string list \<Rightarrow> int \<Rightarrow> string option \<Rightarrow> bool tx" where
  "markMerged repository pr scope changeKeys at mergeSha = updateRequests
    (\<lambda>r. pc_mergedAt (rw_pull r) = None \<and> fromPullRequest r \<and> pc_scope (rw_pull r) = Some scope
       \<and> (pc_repository (rw_pull r) = Some repository \<and> pc_pr (rw_pull r) = Some pr
          \<or> rw_status r = EXECUTED \<and> pc_changeKey (rw_pull r) \<in> Some ` set changeKeys))
    (\<lambda>r. r\<lparr>rw_pull := (rw_pull r)\<lparr>pc_mergedAt := Some at,
             pc_mergeSha := if pc_repository (rw_pull r) = Some repository then mergeSha else None\<rparr>\<rparr>)"

definition setPrHead :: "string \<Rightarrow> int \<Rightarrow> string \<Rightarrow> string list \<Rightarrow> string \<Rightarrow> string \<Rightarrow> unit tx" where
  "setPrHead repository pr scope changeKeys headSha keyOrder =
    (let ofPull = (\<lambda>r. fromPullRequest r \<and> pc_repository (rw_pull r) = Some repository \<and> pc_pr (rw_pull r) = Some pr \<and> pc_scope (rw_pull r) = Some scope) in
     inTx (bindTx (updateRequests (\<lambda>r. ofPull r \<and> pc_changeKey (rw_pull r) \<in> Some ` set changeKeys \<and> pc_headSha (rw_pull r) \<noteq> Some headSha)
         (\<lambda>r. r\<lparr>rw_pull := (rw_pull r)\<lparr>pc_headSha := Some headSha\<rparr>\<rparr>)) (\<lambda>_.
       bindTx (updateRequests ofPull (\<lambda>r. r\<lparr>rw_pull := (rw_pull r)\<lparr>pc_filedHead := Some headSha, pc_keyOrder := Some keyOrder\<rparr>\<rparr>)) (\<lambda>_. pureTx ()))))"

definition setPrAutoMerge :: "string \<Rightarrow> int \<Rightarrow> bool \<Rightarrow> bool tx" where
  "setPrAutoMerge repository pr enabled = updateRequests
    (\<lambda>r. fromPullRequest r \<and> pc_repository (rw_pull r) = Some repository \<and> pc_pr (rw_pull r) = Some pr \<and> pc_prAutoMerge (rw_pull r) \<noteq> enabled)
    (\<lambda>r. r\<lparr>rw_pull := (rw_pull r)\<lparr>pc_prAutoMerge := enabled\<rparr>\<rparr>)"

definition lastMergedRun :: "string \<Rightarrow> string \<Rightarrow> task_db \<Rightarrow> request_row option" where
  "lastMergedRun scope repository db =
    (case rev (sort_key (\<lambda>r. (pc_mergedAt (rw_pull r) = None, theDefault 0 (pc_mergedAt (rw_pull r)), rw_id r))
       (filter (\<lambda>r. pc_scope (rw_pull r) = Some scope \<and> pc_repository (rw_pull r) = Some repository \<and> fromPullRequest r
           \<and> rw_status r = EXECUTED \<and> pc_mergeSha (rw_pull r) \<noteq> None) (td_requests db))) of
       [] \<Rightarrow> None | r # _ \<Rightarrow> Some r)"

definition pollsOf :: "request_row list \<Rightarrow> request_row \<Rightarrow> bool" where
  "pollsOf rs r \<longleftrightarrow> fromPullRequest r \<and> pc_repository (rw_pull r) \<noteq> None \<and> pc_pr (rw_pull r) \<noteq> None
    \<and> (rw_status r \<in> {PENDING, APPROVED, EXECUTING}
       \<or> rw_status r = EXECUTED \<and> pc_mergedAt (rw_pull r) = None
       \<or> rw_status r = ALREADY_RAN \<and> pc_mergedAt (rw_pull r) = None
         \<and> list_ex (\<lambda>x. sqlEq (pc_scope (rw_pull x)) (pc_scope (rw_pull r)) \<and> sqlEq (pc_changeKey (rw_pull x)) (pc_changeKey (rw_pull r))
               \<and> rw_status x = EXECUTED \<and> pc_mergedAt (rw_pull x) = None) rs)"

definition pullRequestsToPoll :: "task_db \<Rightarrow> (string \<times> int) list" where
  "pullRequestsToPoll db = sort (remdups (map (\<lambda>r. (the (pc_repository (rw_pull r)), the (pc_pr (rw_pull r))))
    (filter (pollsOf (td_requests db)) (td_requests db))))"

subsection \<open>Grants\<close>

definition getGrant :: "int64 \<Rightarrow> task_db \<Rightarrow> grant_row option" where
  "getGrant i db = find (\<lambda>g. gt_id g = i \<and> list_ex (\<lambda>l. rl_id l = gt_roleId g \<and> \<not> rl_deleted l) (td_roles db)) (td_grants db)"

definition grantActive :: "int \<Rightarrow> grant_row \<Rightarrow> bool" where
  "grantActive now g \<longleftrightarrow> gt_revokedAt g = None \<and> (case gt_expiresAt g of None \<Rightarrow> True | Some t \<Rightarrow> now < t)"

text \<open>The grants of live roles, each with the name of its role, newest first.\<close>

definition listGrants :: "int \<Rightarrow> string option \<Rightarrow> bool \<Rightarrow> task_db \<Rightarrow> (grant_row \<times> string) list" where
  "listGrants now who activeOnly db =
    sort_key (\<lambda>(g, _). - gt_grantedAt g) (concat (map (\<lambda>g. map (\<lambda>l. (g, rl_name l)) (filter (\<lambda>l. rl_id l = gt_roleId g \<and> \<not> rl_deleted l) (td_roles db)))
      (filter (\<lambda>g. (who = None \<or> who = Some (gt_principal g)) \<and> (activeOnly \<longrightarrow> grantActive now g)) (td_grants db))))"

definition approve :: "tx_env \<Rightarrow> int64 \<Rightarrow> int64 option \<Rightarrow> string \<Rightarrow> int64 option tx" where
  "approve ev i durationSec who db =
    (case getRequest i db of
       None \<Rightarrow> (Inr None, db)
     | Some r \<Rightarrow>
        (case rw_roleId r of
           None \<Rightarrow> (Inr None, db)
         | Some role \<Rightarrow>
             (let dur = (case durationSec of None \<Rightarrow> rw_requestedDurationSec r | Some d \<Rightarrow> d) in
              bindTx (updateRequests (\<lambda>r. rw_id r = i \<and> rw_status r = PENDING)
                (\<lambda>r. r\<lparr>rw_status := APPROVED, rw_decidedBy := Some who, rw_decidedAt := Some (tx_now ev)\<rparr>)) (\<lambda>won.
              if \<not> won then pureTx None
              else (\<lambda>db. (Inr (Some (td_grantSeq db)),
                db\<lparr>td_grants := td_grants db @ [\<lparr>gt_id = td_grantSeq db, gt_requestId = i, gt_principal = rw_principal r, gt_roleId = role,
                      gt_grantedBy = Some who, gt_grantedAt = tx_now ev, gt_expiresAt = Some (tx_now ev + dur * SECOND), gt_revokedAt = None\<rparr>],
                   td_grantSeq := td_grantSeq db + 1\<rparr>))) db)))"

definition approveAudited :: "tx_env \<Rightarrow> int64 \<Rightarrow> int64 option \<Rightarrow> string \<Rightarrow> audit_actor \<Rightarrow> request_row option tx" where
  "approveAudited ev i durationSec who actr db =
    (case getRequest i db of
       None \<Rightarrow> (Inr None, db)
     | Some _ \<Rightarrow>
         bindTx (inTx (bindTx (approve ev i durationSec who) (\<lambda>grant.
           case grant of
             None \<Rightarrow> pureTx ()
           | Some g \<Rightarrow>
               bindTx (plainEvent i EV_APPROVED (Some who) (aa_channel actr)) (\<lambda>_.
               recorderRecord ev actr TASK_APPROVE ''AccessGrant'' g)))) (\<lambda>_ db. (Inr (getRequest i db), db)) db)"

definition reject :: "tx_env \<Rightarrow> int64 \<Rightarrow> string \<Rightarrow> string \<Rightarrow> bool tx" where
  "reject ev i reason who = updateRequests (\<lambda>r. rw_id r = i \<and> rw_status r = PENDING)
    (\<lambda>r. r\<lparr>rw_status := REJECTED, rw_rejectionReason := Some reason, rw_decidedBy := Some who, rw_decidedAt := Some (tx_now ev)\<rparr>)"

definition rejectAudited :: "tx_env \<Rightarrow> int64 \<Rightarrow> string \<Rightarrow> string \<Rightarrow> audit_actor \<Rightarrow> request_row option tx" where
  "rejectAudited ev i reason who actr db =
    (case getRequest i db of
       None \<Rightarrow> (Inr None, db)
     | Some _ \<Rightarrow>
         bindTx (inTx (bindTx (reject ev i reason who) (\<lambda>won.
           if won then
             bindTx (recordEvent i EV_REJECTED (Some who) (aa_channel actr) (Some reason) None None None) (\<lambda>_.
             recorderRecord ev actr TASK_APPROVE ''AccessRequest'' i)
           else pureTx ()))) (\<lambda>_ db. (Inr (getRequest i db), db)) db)"

definition revokeGrants :: "int \<Rightarrow> (grant_row \<Rightarrow> bool) \<Rightarrow> nat tx" where
  "revokeGrants now P db =
    (let hit = (\<lambda>g. P g \<and> gt_revokedAt g = None) in
     (Inr (length (filter hit (td_grants db))), db\<lparr>td_grants := updateWhere hit (\<lambda>g. g\<lparr>gt_revokedAt := Some now\<rparr>) (td_grants db)\<rparr>))"

definition revoke :: "tx_env \<Rightarrow> int64 \<Rightarrow> bool tx" where
  "revoke ev i = bindTx (revokeGrants (tx_now ev) (\<lambda>g. gt_id g = i)) (\<lambda>n. pureTx (0 < n))"

definition revokeAudited :: "tx_env \<Rightarrow> int64 \<Rightarrow> audit_actor \<Rightarrow> bool tx" where
  "revokeAudited ev i actr db =
    (let grant = getGrant i db in
     inTx (bindTx (revoke ev i) (\<lambda>won.
       if won \<and> grant \<noteq> None then bindTx (recorderRecord ev actr GRANT_REVOKE ''AccessGrant'' i) (\<lambda>_. pureTx won) else pureTx won)) db)"

definition revokeAllForPrincipal :: "tx_env \<Rightarrow> string \<Rightarrow> nat tx" where
  "revokeAllForPrincipal ev who = revokeGrants (tx_now ev) (\<lambda>g. gt_principal g = who)"

subsection \<open>Runs\<close>

definition childBy :: "int64 \<Rightarrow> (run_status option \<Rightarrow> bool) \<Rightarrow> task_db \<Rightarrow> result_row option" where
  "childBy i P db = find (\<lambda>q. P (qr_status q)) (statements i db)"

definition pendingChild :: "int64 \<Rightarrow> task_db \<Rightarrow> result_row option" where
  "pendingChild i = childBy i (\<lambda>s. s = None)"

definition runningChild :: "int64 \<Rightarrow> task_db \<Rightarrow> result_row option" where
  "runningChild i = childBy i (\<lambda>s. s = Some RUNNING)"

definition metaAt :: "int64 \<Rightarrow> nat \<Rightarrow> task_db \<Rightarrow> result_row option" where
  "metaAt i k db = find (\<lambda>q. qr_taskId q = i \<and> qr_ordinal q = k) (td_results db)"

definition activeOrdinal :: "int64 \<Rightarrow> task_db \<Rightarrow> nat" where
  "activeOrdinal i db =
    (case filter (\<lambda>q. qr_taskId q = i \<and> qr_status q \<notin> {None, Some SKIPPED}) (td_results db) of
       [] \<Rightarrow> 0 | q # qs \<Rightarrow> Max (qr_ordinal ` set (q # qs)))"

definition meta :: "int64 \<Rightarrow> task_db \<Rightarrow> result_row option" where
  "meta i db = metaAt i (activeOrdinal i db) db"

text \<open>The unique index on the running child of a task.\<close>

definition oneRunning :: "result_row list \<Rightarrow> bool" where
  "oneRunning qs \<longleftrightarrow> distinct (map qr_taskId (filter (\<lambda>q. qr_status q = Some RUNNING) qs))"

definition startChild :: "int64 \<Rightarrow> string \<Rightarrow> bool tx" where
  "startChild child who =
    bindTx (updateResults (\<lambda>q. qr_id q = child \<and> qr_status q = None)
      (\<lambda>q. q\<lparr>qr_status := Some RUNNING, qr_executedBy := Some who, qr_errorCode := None\<rparr>)) (\<lambda>won db.
    if oneRunning (td_results db) then (Inr won, db) else (Inl UniqueViolation, db))"

definition claimAndStartRun :: "int64 \<Rightarrow> string \<Rightarrow> string \<Rightarrow> bool tx \<Rightarrow> result_row option tx" where
  "claimAndStartRun i who origin claimParent = inTx
    (bindTx claimParent (\<lambda>claimed.
     if \<not> claimed then pureTx None
     else (\<lambda>db. case pendingChild i db of
         None \<Rightarrow> (Inl IllegalState, db)
       | Some q \<Rightarrow>
           bindTx (startChild (qr_id q) who) (\<lambda>started.
           if \<not> started then failTx IllegalState
           else bindTx (plainEvent i EV_RAN (Some who) origin) (\<lambda>_ db. (Inr (metaAt i (qr_ordinal q) db), db))) db)))"

definition startNextRun :: "int64 \<Rightarrow> string \<Rightarrow> result_row option tx" where
  "startNextRun i who = inTx (\<lambda>db.
    case pendingChild i db of
      None \<Rightarrow> (Inr None, db)
    | Some q \<Rightarrow> bindTx (startChild (qr_id q) who) (\<lambda>started db. if started then (Inr (metaAt i (qr_ordinal q) db), db) else (Inr None, db)) db)"

definition skipPendingChildren :: "tx_env \<Rightarrow> int64 \<Rightarrow> bool tx" where
  "skipPendingChildren ev i = updateResults (\<lambda>q. qr_taskId q = i \<and> qr_status q = None)
    (\<lambda>q. q\<lparr>qr_status := Some SKIPPED, qr_expiresAt := Some (tx_now ev + RESULT_RETENTION_SEC * SECOND)\<rparr>)"

definition recordRequirements :: "int64 \<Rightarrow> bytes \<Rightarrow> unit tx" where
  "recordRequirements i requirements = inTx (\<lambda>db.
    case runningChild i db of
      None \<Rightarrow> (Inr (), db)
    | Some q \<Rightarrow> bindTx (updateResults (\<lambda>p. qr_id p = qr_id q \<and> qr_status p = Some RUNNING) (\<lambda>p. p\<lparr>qr_requirements := Some requirements\<rparr>)) (\<lambda>_. pureTx ()) db)"

text \<open>A transition of one child: the update, what runs with it in the transaction, and the row it leaves.\<close>

definition transitChild :: "int64 \<Rightarrow> (task_db \<Rightarrow> result_row option) \<Rightarrow> (run_status option \<Rightarrow> bool) \<Rightarrow> (result_row \<Rightarrow> result_row) \<Rightarrow>
    unit tx \<Rightarrow> result_row option tx" where
  "transitChild i pick guard f also = inTx (\<lambda>db.
    case pick db of
      None \<Rightarrow> (Inr None, db)
    | Some q \<Rightarrow>
        bindTx (updateResults (\<lambda>p. qr_id p = qr_id q \<and> guard (qr_status p)) f) (\<lambda>won db.
        case (if won then metaAt i (qr_ordinal q) db else None) of
          None \<Rightarrow> (Inr None, db)
        | Some m \<Rightarrow> bindTx also (\<lambda>_. pureTx (Some m)) db) db)"

record stored_result =
  sr_blob :: bytes
  sr_columns :: "string list"
  sr_rowCount :: int

definition completeRun :: "tx_env \<Rightarrow> int64 \<Rightarrow> stored_result \<Rightarrow> int64 \<Rightarrow> int64 option \<Rightarrow> unit tx \<Rightarrow> result_row option tx" where
  "completeRun ev i result retentionSec decisionId audit db =
    (case decisionId of
       None \<Rightarrow> (Inr None, db)
     | Some d \<Rightarrow> transitChild i (runningChild i) (\<lambda>s. s = Some RUNNING)
         (\<lambda>q. q\<lparr>qr_status := Some DONE, qr_ciphertext := Some (sr_blob result), qr_rowCount := Some (sr_rowCount result),
                qr_columns := Some (sr_columns result), qr_executedAt := Some (tx_now ev),
                qr_expiresAt := Some (tx_now ev + retentionSec * SECOND), qr_errorCode := None, qr_decisionId := Some d\<rparr>) audit db)"

definition failRun :: "tx_env \<Rightarrow> int64 \<Rightarrow> string \<Rightarrow> string option \<Rightarrow> int64 option \<Rightarrow> bytes option \<Rightarrow> unit tx \<Rightarrow> result_row option tx" where
  "failRun ev i errorCode denyReason decisionId detail onFailed =
    transitChild i (runningChild i) (\<lambda>s. s = Some RUNNING)
      (\<lambda>q. q\<lparr>qr_status := Some RUN_FAILED, qr_errorCode := Some errorCode, qr_denyReason := denyReason, qr_decisionId := decisionId,
             qr_errorDetail := detail, qr_expiresAt := Some (tx_now ev + RESULT_RETENTION_SEC * SECOND)\<rparr>)
      (bindTx (skipPendingChildren ev i) (\<lambda>_. onFailed))"

definition cancelRun :: "tx_env \<Rightarrow> int64 \<Rightarrow> unit tx \<Rightarrow> result_row option tx" where
  "cancelRun ev i onCancelled =
    transitChild i (\<lambda>db. orElse (runningChild i db) (pendingChild i db)) (\<lambda>s. s = Some RUNNING \<or> s = None)
      (\<lambda>q. q\<lparr>qr_status := Some RUN_CANCELLED, qr_errorCode := Some ''approval.canceled'',
             qr_expiresAt := Some (tx_now ev + RESULT_RETENTION_SEC * SECOND)\<rparr>)
      (bindTx (skipPendingChildren ev i) (\<lambda>_. onCancelled))"

definition purgeExpired :: "tx_env \<Rightarrow> bool tx" where
  "purgeExpired ev = updateResults (\<lambda>q. case qr_expiresAt q of None \<Rightarrow> False | Some t \<Rightarrow> t \<le> tx_now ev)
    (\<lambda>q. q\<lparr>qr_ciphertext := None, qr_rowCount := None, qr_columns := None, qr_errorDetail := None, qr_requirements := None, qr_expiresAt := None\<rparr>)"

definition deleteResults :: "(result_row \<Rightarrow> bool) \<Rightarrow> nat tx" where
  "deleteResults P db = (Inr (length (filter P (td_results db))), db\<lparr>td_results := filter (\<lambda>q. \<not> P q) (td_results db)\<rparr>)"

definition deleteResultsForTask :: "int64 \<Rightarrow> nat tx" where
  "deleteResultsForTask i = deleteResults (\<lambda>q. qr_taskId q = i)"

definition purgeExpiredEditorChildren :: "tx_env \<Rightarrow> nat tx" where
  "purgeExpiredEditorChildren ev db = deleteResults (\<lambda>q. (case qr_expiresAt q of None \<Rightarrow> False | Some t \<Rightarrow> t \<le> tx_now ev)
     \<and> list_ex (\<lambda>r. rw_id r = qr_taskId q \<and> rw_creatorKind r = BY_EDITOR) (td_requests db)) db"

definition deleteEditorResultsForPrincipal :: "string \<Rightarrow> nat tx" where
  "deleteEditorResultsForPrincipal who = deleteRequests (\<lambda>r. rw_creatorKind r = BY_EDITOR \<and> rw_principal r = who)"

text \<open>The repair at start-up.\<close>

definition failedQuery :: "task_db \<Rightarrow> int64 \<Rightarrow> bool" where
  "failedQuery db i \<longleftrightarrow> list_ex (\<lambda>r. rw_id r = i \<and> rw_kind r = QUERY \<and> rw_status r = FAILED) (td_requests db)"

definition firstUnstarted :: "task_db \<Rightarrow> result_row \<Rightarrow> bool" where
  "firstUnstarted db q \<longleftrightarrow> qr_status q = None \<and> failedQuery db (qr_taskId q)
    \<and> \<not> list_ex (\<lambda>p. qr_taskId p = qr_taskId q \<and> qr_status p = Some RUN_FAILED) (td_results db)
    \<and> map_option qr_id (pendingChild (qr_taskId q) db) = Some (qr_id q)"

definition orphaned :: "int \<Rightarrow> result_row \<Rightarrow> result_row" where
  "orphaned expiry q = q\<lparr>qr_status := Some RUN_FAILED, qr_errorCode := Some ''task.orphaned_on_restart'', qr_expiresAt := Some expiry\<rparr>"

definition reconcileOrphanedExecutions :: "tx_env \<Rightarrow> unit tx" where
  "reconcileOrphanedExecutions ev =
    (let expiry = tx_now ev + RESULT_RETENTION_SEC * SECOND in inTx
      (bindTx (updateRequests (\<lambda>r. rw_kind r = QUERY \<and> rw_status r = EXECUTING) (\<lambda>r. r\<lparr>rw_status := FAILED\<rparr>)) (\<lambda>_.
       bindTx (updateResults (\<lambda>q. qr_status q = Some RUNNING) (orphaned expiry)) (\<lambda>_.
       bindTx (\<lambda>db. updateResults (firstUnstarted db) (orphaned expiry) db) (\<lambda>_.
       bindTx (\<lambda>db. updateResults (\<lambda>q. qr_status q = None \<and> failedQuery db (qr_taskId q))
         (\<lambda>q. q\<lparr>qr_status := Some SKIPPED, qr_expiresAt := Some expiry\<rparr>) db) (\<lambda>_. pureTx ()))))))"

end
