(* ===== verification/TaskMachine.thy ===== *)
theory TaskMachine
  imports Tasks
begin

text \<open>
  What the task store promises, as a labelled step relation on its tables, and that every operation of
  \<^verbatim>\<open>Tasks\<close> is a step of it. The relation says how a request may move between its states, that a child keeps
  its statement and only moves forward, that a grant only loses force, and which step approves, claims, edits,
  opens or removes a request.
\<close>

named_theorems quiet_intros "operations that leave requests, results and grants as they are"

subsection \<open>The specification\<close>

definition sameRequest :: "request_row \<Rightarrow> request_row \<Rightarrow> bool" where
  "sameRequest r r' \<longleftrightarrow> rw_id r' = rw_id r \<and> rw_kind r' = rw_kind r \<and> rw_principal r' = rw_principal r \<and> rw_roleId r' = rw_roleId r
    \<and> rw_datasourceId r' = rw_datasourceId r \<and> rw_creatorKind r' = rw_creatorKind r \<and> rw_source r' = rw_source r
    \<and> rw_executeAs r' = rw_executeAs r \<and> pc_scope (rw_pull r') = pc_scope (rw_pull r)
    \<and> pc_repository (rw_pull r') = pc_repository (rw_pull r) \<and> pc_pr (rw_pull r') = pc_pr (rw_pull r)"

definition mayMove :: "request_kind \<Rightarrow> request_status \<Rightarrow> request_status \<Rightarrow> bool" where
  "mayMove k s s' \<longleftrightarrow> s' = s \<or> s = PENDING \<and> s' \<in> {REJECTED, CANCELLED}
    \<or> k = QUERY \<and> (case s of
        DRAFT \<Rightarrow> s' = DELETED
      | PENDING \<Rightarrow> s' \<in> {DELETED, ALREADY_RAN}
      | APPROVED \<Rightarrow> s' \<in> {PENDING, REJECTED, CANCELLED, DELETED, ALREADY_RAN}
      | REJECTED \<Rightarrow> s' \<in> {PENDING, DELETED}
      | EXECUTING \<Rightarrow> s' \<in> {EXECUTED, FAILED, CANCELLED}
      | _ \<Rightarrow> False)"

definition keepsRun :: "request_row \<Rightarrow> request_row \<Rightarrow> bool" where
  "keepsRun r r' \<longleftrightarrow> rw_revision r' = rw_revision r \<and> (unstarted r \<or> pc_forceRun (rw_pull r') = pc_forceRun (rw_pull r))"

text \<open>A wire task's statement has run by the time its completion is reported.\<close>

definition completesWire :: "request_row \<Rightarrow> request_row \<Rightarrow> bool" where
  "completesWire r r' \<longleftrightarrow> rw_kind r = QUERY \<and> rw_creatorKind r = BY_WIRE \<and> rw_status r = APPROVED \<and> rw_status r' \<in> {EXECUTED, FAILED}"

definition rowMove :: "request_row \<Rightarrow> request_row \<Rightarrow> bool" where
  "rowMove r r' \<longleftrightarrow> sameRequest r r' \<and> keepsRun r r' \<and> (mayMove (rw_kind r) (rw_status r) (rw_status r') \<or> completesWire r r')
    \<and> (rw_status r' = APPROVED \<longrightarrow> rw_approvedAt r' = rw_approvedAt r \<and> rw_decidedBy r' = rw_decidedBy r)"

definition childNext :: "run_status option \<Rightarrow> run_status option \<Rightarrow> bool" where
  "childNext s s' \<longleftrightarrow> s' = s \<or> s = None \<or> s = Some RUNNING \<and> s' \<in> {Some DONE, Some RUN_FAILED, Some RUN_CANCELLED}"

definition childMove :: "result_row \<Rightarrow> result_row \<Rightarrow> bool" where
  "childMove q q' \<longleftrightarrow> qr_id q' = qr_id q \<and> qr_taskId q' = qr_taskId q \<and> qr_ordinal q' = qr_ordinal q \<and> qr_sql q' = qr_sql q
    \<and> qr_sqlHash q' = qr_sqlHash q \<and> childNext (qr_status q) (qr_status q')"

definition grantMove :: "grant_row \<Rightarrow> grant_row \<Rightarrow> bool" where
  "grantMove g g' \<longleftrightarrow> (\<exists>t. g' = g\<lparr>gt_revokedAt := t\<rparr> \<and> (gt_revokedAt g \<noteq> None \<longrightarrow> t = gt_revokedAt g) \<and> (t = None \<longrightarrow> gt_revokedAt g = None))"

text \<open>The step of one request, named by its id, while every other request stays as it is.\<close>

definition onlyRow :: "int64 \<Rightarrow> (request_row \<Rightarrow> request_row \<Rightarrow> bool) \<Rightarrow> task_db \<Rightarrow> task_db \<Rightarrow> bool" where
  "onlyRow i R db db' \<longleftrightarrow> (\<exists>r\<in>set (td_requests db). rw_id r = i)
    \<and> list_all2 (\<lambda>r r'. if rw_id r = i then sameRequest r r' \<and> R r r' else r' = r) (td_requests db) (td_requests db')"

definition approvesRow :: "int \<Rightarrow> int \<Rightarrow> string \<Rightarrow> request_row \<Rightarrow> request_row \<Rightarrow> bool" where
  "approvesRow revision t who r r' \<longleftrightarrow> rw_kind r = QUERY \<and> rw_status r = PENDING \<and> rw_revision r = revision \<and> rw_revision r' = revision
    \<and> rw_status r' = APPROVED \<and> rw_approvedAt r' = Some t \<and> rw_decidedBy r' = Some who"

definition scopeFree :: "request_row list \<Rightarrow> request_row \<Rightarrow> bool" where
  "scopeFree rs r \<longleftrightarrow> pc_forceRun (rw_pull r) \<or> (case pc_scope (rw_pull r) of None \<Rightarrow> True
     | Some s \<Rightarrow> \<not> list_ex (scopeBusy rs s (rw_id r) (pc_repository (rw_pull r)) (pc_pr (rw_pull r))) rs)"

definition claimsRow :: "request_row list \<Rightarrow> int \<Rightarrow> request_row \<Rightarrow> request_row \<Rightarrow> bool" where
  "claimsRow rs now r r' \<longleftrightarrow> rw_kind r = QUERY \<and> rw_status r = APPROVED \<and> approvalLive now r \<and> scopeFree rs r
    \<and> rw_status r' = EXECUTING \<and> rw_revision r' = rw_revision r \<and> pc_forceRun (rw_pull r') = pc_forceRun (rw_pull r)
    \<and> rw_executingAt r' = Some now \<and> rw_approvedAt r' = rw_approvedAt r \<and> rw_decidedBy r' = rw_decidedBy r"

definition editsRow :: "request_row \<Rightarrow> request_row \<Rightarrow> bool" where
  "editsRow r r' \<longleftrightarrow> isWorkflowApproval r \<and> unstarted r \<and> rw_status r' = PENDING \<and> rw_revision r' = rw_revision r + 1"

definition elevatesRow :: "request_row \<Rightarrow> request_row \<Rightarrow> bool" where
  "elevatesRow r r' \<longleftrightarrow> rw_kind r \<noteq> QUERY \<and> rw_status r = PENDING \<and> rw_status r' = APPROVED \<and> rw_revision r' = rw_revision r"

definition opensRow :: "request_row \<Rightarrow> bool" where
  "opensRow r \<longleftrightarrow> (if rw_status r = APPROVED then rw_kind r = QUERY \<and> rw_creatorKind r \<noteq> BY_WORKFLOW
                  else rw_status r = PENDING \<and> rw_creatorKind r = BY_WORKFLOW) \<and> rw_revision r = 1"

definition newKids :: "task_db \<Rightarrow> task_db \<Rightarrow> int64 \<Rightarrow> result_row list \<Rightarrow> bool" where
  "newKids db db' i kids \<longleftrightarrow>
    (\<forall>k < length kids. qr_taskId (kids ! k) = i \<and> qr_ordinal (kids ! k) = k \<and> qr_id (kids ! k) = td_resultSeq db + int k \<and> qr_status (kids ! k) = None)
    \<and> td_resultSeq db' = td_resultSeq db + int (length kids)"

definition ahead :: "task_db \<Rightarrow> task_db \<Rightarrow> bool" where
  "ahead db db' \<longleftrightarrow> td_requestSeq db \<le> td_requestSeq db' \<and> td_resultSeq db \<le> td_resultSeq db' \<and> td_grantSeq db \<le> td_grantSeq db'"

datatype label = Moved | Opened int64 | Approved int64 int int string | Claimed int64 int | Edited int64 | Granted int64 | Removed

inductive task_step :: "label \<Rightarrow> task_db \<Rightarrow> task_db \<Rightarrow> bool" where
  moved: "task_step Moved db db'"
    if "ahead db db'" "list_all2 rowMove (td_requests db) (td_requests db')" "list_all2 childMove (td_results db) (td_results db')"
      "list_all2 grantMove (td_grants db) (td_grants db')"
| opened: "task_step (Opened i) db db'"
    if "ahead db db'" "i = td_requestSeq db" "td_requestSeq db < td_requestSeq db'" "td_requests db' = td_requests db @ [r]" "rw_id r = i" "opensRow r"
      "td_results db' = td_results db @ kids" "newKids db db' i kids" "td_grants db' = td_grants db"
| approved: "task_step (Approved i revision t who) db db'"
    if "ahead db db'" "onlyRow i (approvesRow revision t who) db db'" "td_results db' = td_results db" "td_grants db' = td_grants db"
| claimed: "task_step (Claimed i now) db db'"
    if "ahead db db'" "onlyRow i (claimsRow (td_requests db) now) db db'" "list_all2 childMove (td_results db) (td_results db')" "td_grants db' = td_grants db"
| edited: "task_step (Edited i) db db'"
    if "ahead db db'" "onlyRow i editsRow db db'" "td_results db' = filter (\<lambda>q. qr_taskId q \<noteq> i) (td_results db) @ kids" "newKids db db' i kids"
      "td_grants db' = td_grants db"
| granted: "task_step (Granted i) db db'"
    if "ahead db db'" "onlyRow i elevatesRow db db'" "td_results db' = td_results db" "r \<in> set (td_requests db)" "rw_id r = i"
      "td_grants db' = td_grants db @ [g]" "gt_id g = td_grantSeq db" "td_grantSeq db < td_grantSeq db'" "gt_requestId g = i"
      "gt_principal g = rw_principal r" "rw_roleId r = Some (gt_roleId g)" "gt_revokedAt g = None"
| removed: "task_step Removed db db'"
    if "ahead db db'" "td_requests db' = filter (\<lambda>r. rw_id r \<notin> S) (td_requests db)" "\<forall>r\<in>set (td_requests db). rw_id r \<in> S \<longrightarrow> rw_creatorKind r = BY_EDITOR"
      "td_results db' = filter keep (td_results db)" "\<forall>q\<in>set (td_results db). qr_taskId q \<in> S \<longrightarrow> \<not> keep q"
      "\<forall>q\<in>set (td_results db). \<forall>r\<in>set (td_requests db). qr_taskId q = rw_id r \<and> rw_creatorKind r \<noteq> BY_EDITOR \<longrightarrow> keep q"
      "td_grants db' = filter (\<lambda>g. gt_requestId g \<notin> S) (td_grants db)"

inductive_cases movedE: "task_step Moved db db'"
inductive_cases openedE: "task_step (Opened i) db db'"
inductive_cases approvedE: "task_step (Approved i revision t who) db db'"
inductive_cases claimedE: "task_step (Claimed i now) db db'"
inductive_cases editedE: "task_step (Edited i) db db'"
inductive_cases grantedE: "task_step (Granted i) db db'"
inductive_cases removedE: "task_step Removed db db'"

subsection \<open>Operations that leave the tables as they are\<close>

definition sameTables :: "task_db \<Rightarrow> task_db \<Rightarrow> bool" where
  "sameTables db db' \<longleftrightarrow> td_requests db' = td_requests db \<and> td_results db' = td_results db \<and> td_grants db' = td_grants db
    \<and> td_requestSeq db' = td_requestSeq db \<and> td_resultSeq db' = td_resultSeq db \<and> td_grantSeq db' = td_grantSeq db"

definition quiet :: "'a tx \<Rightarrow> bool" where
  "quiet m \<longleftrightarrow> (\<forall>db. sameTables db (snd (m db)))"

lemma sameTables_refl [simp]: "sameTables db db"
  by (simp add: sameTables_def)

lemma sameTables_trans: "sameTables a b \<Longrightarrow> sameTables b c \<Longrightarrow> sameTables a c"
  by (simp add: sameTables_def)

lemma quietD: "quiet m \<Longrightarrow> m db = (x, db') \<Longrightarrow> sameTables db db'"
  by (metis quiet_def snd_conv)

lemma quiet_pure [quiet_intros]: "quiet (pureTx x)"
  by (simp add: quiet_def pureTx_def)

lemma quiet_fail [quiet_intros]: "quiet (failTx e)"
  by (simp add: quiet_def failTx_def)

lemma quiet_bind [quiet_intros]:
  assumes "quiet m" "\<And>x. quiet (k x)" shows "quiet (bindTx m k)"
  unfolding quiet_def
proof
  fix db obtain x db1 where m: "m db = (x, db1)" by force
  have "sameTables db db1" using quietD[OF assms(1) m] .
  then show "sameTables db (snd (bindTx m k db))"
    using assms(2) m by (auto simp: bindTx_def quiet_def split: sum.splits intro: sameTables_trans)
qed

lemma quiet_if [quiet_intros]: "quiet m \<Longrightarrow> quiet n \<Longrightarrow> quiet (if b then m else n)"
  by simp

lemma quiet_option [quiet_intros]: "quiet m \<Longrightarrow> (\<And>x. quiet (k x)) \<Longrightarrow> quiet (case v of None \<Rightarrow> m | Some x \<Rightarrow> k x)"
  by (simp split: option.splits)

lemma quiet_recorder [quiet_intros]: "quiet (recorderRecord ev a act e i)"
  by (simp add: quiet_def recorderRecord_def sameTables_def)

lemma quiet_hook [quiet_intros]: "quiet (runHook ev)"
  by (simp add: quiet_def runHook_def)

lemma quiet_checkPending [quiet_intros]: "quiet checkPending"
  by (simp add: quiet_def checkPending_def)

lemma sameTables_participant: "sameTables db (addParticipant i who k db)"
  by (simp add: addParticipant_def sameTables_def split: option.splits)

lemma quiet_recordEvent [quiet_intros]: "quiet (recordEvent i k a og b t s v)"
proof -
  have "sameTables db (addParticipant i who APPROVER (db\<lparr>td_events := es\<rparr>))" for db who es
    by (rule sameTables_trans[OF _ sameTables_participant]) (simp add: sameTables_def)
  then show ?thesis
    by (simp add: quiet_def recordEvent_def Let_def split: option.splits) (simp add: sameTables_def)
qed

lemma quiet_plainEvent [quiet_intros]: "quiet (plainEvent i k a og)"
  unfolding plainEvent_def by (intro quiet_intros)

lemma quiet_return [quiet_intros]: "quiet (\<lambda>db. (x, db))"
  by (simp add: quiet_def)

lemma quiet_read [quiet_intros]: "quiet (\<lambda>db. (f db, db))"
  by (simp add: quiet_def)

lemma quiet_checkOrdering [quiet_intros]: "quiet (checkOrdering i s)"
  by (simp add: quiet_def checkOrdering_def split: option.splits)


subsection \<open>Shapes of operations\<close>

definition updated :: "(request_row \<Rightarrow> bool) \<Rightarrow> (request_row \<Rightarrow> request_row) \<Rightarrow> task_db \<Rightarrow> task_db \<Rightarrow> bool" where
  "updated P f db db' \<longleftrightarrow> sameTables (db\<lparr>td_requests := updateWhere P f (td_requests db)\<rparr>) db'"

lemma sameTables_ahead: "sameTables db db' \<Longrightarrow> ahead db db'"
  by (simp add: sameTables_def ahead_def)

lemma rowMove_refl [simp]: "rowMove r r"
  by (simp add: rowMove_def sameRequest_def keepsRun_def mayMove_def)

lemma childMove_refl [simp]: "childMove q q"
  by (simp add: childMove_def childNext_def)

lemma grantMove_refl [simp]: "grantMove g g"
  unfolding grantMove_def by (rule exI[of _ "gt_revokedAt g"]) simp

lemma childMove_trans: "childMove a b \<Longrightarrow> childMove b c \<Longrightarrow> childMove a c"
  by (auto simp: childMove_def childNext_def)

lemmas all_refl = list_all2_refl[of rowMove] list_all2_refl[of childMove] list_all2_refl[of grantMove]

lemma list_all2_updateWhere: "(\<And>x. R x x) \<Longrightarrow> (\<And>x. x \<in> set xs \<Longrightarrow> P x \<Longrightarrow> R x (f x)) \<Longrightarrow> list_all2 R xs (updateWhere P f xs)"
  by (simp add: updateWhere_def list_all2_conv_all_nth)

lemma updateWhere_none: "\<not> list_ex P xs \<Longrightarrow> updateWhere P f xs = xs"
  by (auto simp: updateWhere_def list_ex_iff intro: map_idI)

lemma step_same: "sameTables db db' \<Longrightarrow> task_step Moved db db'"
  by (rule task_step.moved) (auto simp: sameTables_def ahead_def all_refl)

lemma step_restored:
  "ahead db db' \<Longrightarrow> td_requests db' = td_requests db \<Longrightarrow> td_results db' = td_results db \<Longrightarrow> td_grants db' = td_grants db \<Longrightarrow> task_step Moved db db'"
  by (rule task_step.moved) (auto simp: all_refl)

lemma step_rows:
  assumes "updated P f db db'" "\<And>r. P r \<Longrightarrow> rowMove r (f r)" shows "task_step Moved db db'"
proof -
  have "list_all2 rowMove (td_requests db) (updateWhere P f (td_requests db))"
    by (rule list_all2_updateWhere) (simp_all add: assms(2))
  then show ?thesis
    using assms(1) by (intro task_step.moved) (simp_all add: updated_def sameTables_def ahead_def all_refl)
qed

lemma inTx_cases:
  assumes "inTx m db = (x, db')"
  obtains e db1 where "x = Inl e" "m db = (Inl e, db1)"
      "db' = db\<lparr>td_requestSeq := td_requestSeq db1, td_resultSeq := td_resultSeq db1, td_grantSeq := td_grantSeq db1\<rparr>"
    | y where "x = Inr y" "m db = (Inr y, db')"
proof (cases "m db")
  case (Pair y db1)
  with assms that show ?thesis by (cases y) (auto simp: inTx_def)
qed

lemma update_quiet:
  assumes "bindTx (updateRequests P f) k db = (x, db')" "\<And>won. quiet (k won)"
  shows "updated P f db db'"
  using assms(1) quietD[OF assms(2)] by (auto simp: bindTx_def updateRequests_def updated_def)

lemma inTx_update:
  assumes "inTx (bindTx (updateRequests P f) k) db = (x, db')" "\<And>won. quiet (k won)"
  obtains e where "x = Inl e" "sameTables db db'" | y where "x = Inr y" "updated P f db db'"
proof (rule inTx_cases[OF assms(1)])
  fix e db1
  assume "x = Inl e" "bindTx (updateRequests P f) k db = (Inl e, db1)"
    "db' = db\<lparr>td_requestSeq := td_requestSeq db1, td_resultSeq := td_resultSeq db1, td_grantSeq := td_grantSeq db1\<rparr>"
  moreover from this have "updated P f db db1" using update_quiet assms(2) by blast
  ultimately show ?thesis by (intro that(1)) (auto simp: updated_def sameTables_def)
next
  fix y assume "x = Inr y" "bindTx (updateRequests P f) k db = (Inr y, db')"
  then show ?thesis using update_quiet assms(2) that(2) by blast
qed

lemma inTx_rows:
  assumes "inTx (bindTx (updateRequests P f) k) db = (x, db')" "\<And>won. quiet (k won)" "\<And>r. P r \<Longrightarrow> rowMove r (f r)"
  shows "task_step Moved db db'"
  using assms(1,2) by (rule inTx_update) (auto intro: step_same step_rows assms(3))

lemmas row_simps = rowMove_def sameRequest_def keepsRun_def mayMove_def unstarted_def isWorkflowApproval_def fromPullRequest_def

subsection \<open>Operations on requests\<close>

lemma move_details: "editQueryRequestDetails ev i title reason actr p db = (x, db') \<Longrightarrow> task_step Moved db db'"
  unfolding editQueryRequestDetails_def by (erule inTx_rows, intro quiet_intros) (simp add: row_simps)

lemma move_reopen: "reopenQueryRequest ev i actr event db = (x, db') \<Longrightarrow> task_step Moved db db'"
  unfolding reopenQueryRequest_def by (erule inTx_rows, intro quiet_intros) (simp add: row_simps)

lemma move_close: "closeRequest ev i actr db = (x, db') \<Longrightarrow> task_step Moved db db'"
  unfolding closeRequest_def by (erule inTx_rows, intro quiet_intros) (auto simp: row_simps)

lemma move_force: "forceRun ev i admin actr db = (x, db') \<Longrightarrow> task_step Moved db db'"
  unfolding forceRun_def by (erule inTx_rows, intro quiet_intros) (auto simp: row_simps)

lemma move_resubmit: "resubmit i db = (x, db') \<Longrightarrow> task_step Moved db db'"
  unfolding resubmit_def by (erule inTx_rows, intro quiet_intros) (auto simp: row_simps)

lemma updateRequests_step: "updateRequests P f db = (x, db') \<Longrightarrow> (\<And>r. P r \<Longrightarrow> rowMove r (f r)) \<Longrightarrow> task_step Moved db db'"
  by (rule step_rows[of P f]) (auto simp: updateRequests_def updated_def)

lemma move_end: "endUnstarted i st db = (x, db') \<Longrightarrow> task_step Moved db db'"
  by (cases "st \<notin> {DELETED, ALREADY_RAN, CANCELLED}")
    (auto simp: endUnstarted_def step_same row_simps elim!: updateRequests_step)

lemma move_deleted: "markDeleted i db = (x, db') \<Longrightarrow> task_step Moved db db'"
  unfolding markDeleted_def by (erule updateRequests_step) (auto simp: row_simps)

lemma move_rekey: "rekeyFile scope fk raw ck ch db = (x, db') \<Longrightarrow> task_step Moved db db'"
  unfolding rekeyFile_def by (erule updateRequests_step) (simp add: row_simps)

lemma move_merged: "markMerged rep pr scope cks t sha db = (x, db') \<Longrightarrow> task_step Moved db db'"
  unfolding markMerged_def by (erule updateRequests_step) (simp add: row_simps)

lemma move_autoMerge: "setPrAutoMerge rep pr b db = (x, db') \<Longrightarrow> task_step Moved db db'"
  unfolding setPrAutoMerge_def by (erule updateRequests_step) (simp add: row_simps)

lemma move_prHead: "setPrHead rep pr scope cks sha ko db = (x, db') \<Longrightarrow> task_step Moved db db'"
proof -
  assume a: "setPrHead rep pr scope cks sha ko db = (x, db')"
  have "list_all2 rowMove (td_requests db) (updateWhere P f (updateWhere Q g (td_requests db)))"
    if "\<And>r. rowMove r (g r)" "\<And>r. rowMove r (f r)" "\<And>r. rowMove r (f (g r))" for P Q f g
    using that by (simp add: updateWhere_def list_all2_conv_all_nth)
  then show ?thesis using a
    by (auto simp: setPrHead_def Let_def inTx_def bindTx_def updateRequests_def pureTx_def row_simps ahead_def all_refl intro!: task_step.moved)
qed

lemma leave_step:
  assumes "leaveExecuting i f event db = (x, db')"
  shows "updated (\<lambda>r. rw_id r = i \<and> rw_kind r = QUERY \<and> rw_status r = EXECUTING) f db db'"
  using assms unfolding leaveExecuting_def by (rule update_quiet) (intro quiet_intros)

lemmas mark_defs = markExecuted_def markFailed_def markCancelled_def

lemma mark_move:
  "markExecuted ev i db = (x, db') \<Longrightarrow> task_step Moved db db'"
  "markFailed i db = (x, db') \<Longrightarrow> task_step Moved db db'"
  "markCancelled i db = (x, db') \<Longrightarrow> task_step Moved db db'"
  unfolding mark_defs by (drule leave_step, erule step_rows, simp add: row_simps)+


subsection \<open>Well-formed tables\<close>

definition keyed :: "int64 list \<Rightarrow> int64 \<Rightarrow> bool" where
  "keyed ids n \<longleftrightarrow> distinct ids \<and> (\<forall>i\<in>set ids. i < n)"

definition wfTasks :: "task_db \<Rightarrow> bool" where
  "wfTasks db \<longleftrightarrow> keyed (map rw_id (td_requests db)) (td_requestSeq db)
    \<and> keyed (map qr_id (td_results db)) (td_resultSeq db) \<and> set (map qr_taskId (td_results db)) \<subseteq> set (map rw_id (td_requests db))
    \<and> distinct (map (\<lambda>q. (qr_taskId q, qr_ordinal q)) (td_results db))
    \<and> keyed (map gt_id (td_grants db)) (td_grantSeq db) \<and> set (map gt_requestId (td_grants db)) \<subseteq> set (map rw_id (td_requests db))"

lemma keyed_mono: "keyed ids n \<Longrightarrow> n \<le> m \<Longrightarrow> keyed ids m"
  by (auto simp: keyed_def)

lemma wfTasks_unique: "wfTasks db \<Longrightarrow> r \<in> set (td_requests db) \<Longrightarrow> r' \<in> set (td_requests db) \<Longrightarrow> rw_id r = rw_id r' \<Longrightarrow> r = r'"
  by (auto simp: wfTasks_def keyed_def distinct_map inj_on_def)

lemma getRequest_in: "getRequest i db = Some r \<Longrightarrow> r \<in> set (td_requests db) \<and> rw_id r = i"
  by (auto simp: getRequest_def find_Some_iff)

lemma getRequest_eq: "wfTasks db \<Longrightarrow> r \<in> set (td_requests db) \<Longrightarrow> rw_id r = i \<Longrightarrow> getRequest i db = Some r"
  by (metis (mono_tags, lifting) find_None_iff getRequest_def getRequest_in not_None_eq wfTasks_unique)

lemma getRequest_none: "getRequest i db = None \<longleftrightarrow> i \<notin> rw_id ` set (td_requests db)"
  by (auto simp: getRequest_def find_None_iff)

lemma onlyRow_update:
  assumes "updated P f db db'" "wfTasks db" "list_ex P (td_requests db)"
    "\<And>r. r \<in> set (td_requests db) \<Longrightarrow> P r \<Longrightarrow> rw_id r = i \<and> sameRequest r (f r) \<and> R r (f r)"
  shows "onlyRow i R db db'"
proof -
  from assms(3) obtain r where r: "r \<in> set (td_requests db)" "P r" by (auto simp: list_ex_iff)
  have "P s" if "s \<in> set (td_requests db)" "rw_id s = i" for s
    using wfTasks_unique[OF assms(2) that(1) r(1)] that(2) assms(4)[OF r] r(2) by simp
  then have "list_all2 (\<lambda>r r'. if rw_id r = i then sameRequest r r' \<and> R r r' else r' = r) (td_requests db) (updateWhere P f (td_requests db))"
    using assms(4) by (auto simp: updateWhere_def list_all2_conv_all_nth)
  with r assms(1) assms(4)[OF r] show ?thesis by (auto simp: onlyRow_def updated_def sameTables_def)
qed

lemma updated_ahead: "updated P f db db' \<Longrightarrow> ahead db db'"
  by (simp add: updated_def sameTables_def ahead_def)

lemma updated_none: "updated P f db db' \<Longrightarrow> \<not> list_ex P (td_requests db) \<Longrightarrow> sameTables db db'"
  by (auto simp: updated_def sameTables_def updateWhere_def list_ex_iff map_idI)

definition movesOnly :: "int64 \<Rightarrow> (request_row \<Rightarrow> request_row \<Rightarrow> bool) \<Rightarrow> task_db \<Rightarrow> task_db \<Rightarrow> bool" where
  "movesOnly i R db db' \<longleftrightarrow> onlyRow i R db db' \<and> ahead db db' \<and> td_results db' = td_results db \<and> td_grants db' = td_grants db"

lemma inTx_only:
  assumes "inTx (bindTx (updateRequests P f) k) db = (x, db')" "\<And>won. quiet (k won)" "wfTasks db"
    "\<And>r. P r \<Longrightarrow> rw_id r = i \<and> sameRequest r (f r) \<and> R r (f r)"
  shows "sameTables db db' \<and> (\<forall>y. x = Inr y \<longrightarrow> \<not> list_ex P (td_requests db)) \<or> (\<exists>y. x = Inr y \<and> list_ex P (td_requests db) \<and> movesOnly i R db db')"
proof (rule inTx_update[OF assms(1,2)])
  fix y assume y: "x = Inr y" and u: "updated P f db db'"
  show ?thesis
  proof (cases "list_ex P (td_requests db)")
    case True
    have "onlyRow i R db db'" by (rule onlyRow_update[OF u assms(3) True]) (rule assms(4))
    with True y u show ?thesis by (auto simp: updated_def sameTables_def ahead_def movesOnly_def)
  qed (use updated_none[OF u] in blast)
qed auto

lemma won_result:
  assumes "inTx (bindTx (updateRequests P f) (\<lambda>won. if won then bindTx a (\<lambda>_. bindTx b (\<lambda>_. bindTx c (\<lambda>_. pureTx True))) else pureTx False)) db = (Inr y, db')"
  shows "y = list_ex P (td_requests db)"
  using assms by (auto simp: inTx_def bindTx_def updateRequests_def pureTx_def split: prod.splits sum.splits if_splits)

lemma reject_decided: "decideAudited ev i False reason who actr revision v db = (x, db') \<Longrightarrow> task_step Moved db db'"
  unfolding decideAudited_def decideQueryRequest_def by (erule inTx_rows, intro quiet_intros) (auto simp: row_simps)

lemma approve_decided:
  assumes d: "decideAudited ev i True reason who actr revision v db = (x, db')" and w: "wfTasks db"
  shows "sameTables db db' \<and> x \<noteq> Inr True \<or> task_step (Approved i revision (tx_now ev) who) db db' \<and> x = Inr True"
proof -
  let ?P = "\<lambda>r. rw_id r = i \<and> rw_kind r = QUERY \<and> rw_revision r = revision \<and> (rw_status r = PENDING \<or> rw_status r = APPROVED \<and> \<not> True)"
  have "sameTables db db' \<and> (\<forall>y. x = Inr y \<longrightarrow> \<not> list_ex ?P (td_requests db))
    \<or> (\<exists>y. x = Inr y \<and> list_ex ?P (td_requests db) \<and> movesOnly i (approvesRow revision (tx_now ev) who) db db')"
    using d unfolding decideAudited_def decideQueryRequest_def
    by (rule inTx_only) (use w in \<open>auto simp: sameRequest_def approvesRow_def intro!: quiet_intros\<close>)
  moreover have "x = Inr y \<Longrightarrow> y = list_ex ?P (td_requests db)" for y
    using d unfolding decideAudited_def decideQueryRequest_def by (auto dest: won_result)
  ultimately show ?thesis by (auto simp: movesOnly_def intro: task_step.approved)
qed


subsection \<open>Opening and editing\<close>

definition stutters :: "task_db \<Rightarrow> task_db \<Rightarrow> bool" where
  "stutters db db' \<longleftrightarrow> ahead db db' \<and> td_requests db' = td_requests db \<and> td_results db' = td_results db \<and> td_grants db' = td_grants db"

lemma stutters_step: "stutters db db' \<Longrightarrow> task_step Moved db db'"
  by (simp add: stutters_def step_restored)

lemma sameTables_stutters: "sameTables db db' \<Longrightarrow> stutters db db'"
  by (simp add: sameTables_def stutters_def ahead_def)

definition opens :: "int64 \<Rightarrow> request_row \<Rightarrow> result_row list \<Rightarrow> task_db \<Rightarrow> task_db \<Rightarrow> bool" where
  "opens i r kids db db' \<longleftrightarrow> i = td_requestSeq db \<and> td_requestSeq db' = i + 1 \<and> td_requests db' = td_requests db @ [r]
    \<and> td_results db' = td_results db @ kids \<and> newKids db db' i kids \<and> td_grants db' = td_grants db \<and> td_grantSeq db' = td_grantSeq db"

lemma opens_ahead: "opens i r kids db db' \<Longrightarrow> ahead db db'"
  by (simp add: opens_def ahead_def newKids_def)

lemma opens_step: "opens i r kids db db' \<Longrightarrow> rw_id r = i \<Longrightarrow> opensRow r \<Longrightarrow> task_step (Opened i) db db'"
  by (rule task_step.opened[where r = r and kids = kids]) (auto simp: opens_def opens_ahead ahead_def newKids_def)

lemma insertRequest_cases:
  assumes "insertRequest row db = (x, db')"
  shows "(\<exists>e. x = Inl e) \<and> stutters db db' \<or> (\<exists>i. x = Inr i \<and> opens i (row i) [] db db')"
  using assms by (auto simp: insertRequest_def Let_def stutters_def opens_def newKids_def ahead_def split: if_splits)

lemma insertStatements_kids:
  assumes "insertStatements ev i sqls db = (x, db')"
  obtains kids where "td_results db' = td_results db @ kids" "newKids db db' i kids" "length kids = length sqls" "x = Inr ()"
    "td_requests db' = td_requests db" "td_grants db' = td_grants db" "td_requestSeq db' = td_requestSeq db" "td_grantSeq db' = td_grantSeq db"
proof
  let ?kids = "map (\<lambda>(k, sql). childRow ev (td_resultSeq db + int k) i k sql) (enumerate 0 sqls)"
  show "td_results db' = td_results db @ ?kids" using assms by (auto simp: insertStatements_def)
  show "newKids db db' i ?kids" using assms by (auto simp: insertStatements_def newKids_def childRow_def nth_enumerate_eq)
qed (use assms in \<open>auto simp: insertStatements_def\<close>)

lemma opens_statements:
  assumes "opens i r [] db db1" "insertStatements ev i sqls db1 = (x, db2)"
  shows "\<exists>kids. opens i r kids db db2"
proof -
  from assms(2) obtain kids where "td_results db2 = td_results db1 @ kids" "newKids db1 db2 i kids"
    "td_requests db2 = td_requests db1" "td_grants db2 = td_grants db1" "td_requestSeq db2 = td_requestSeq db1" "td_grantSeq db2 = td_grantSeq db1"
    by (rule insertStatements_kids)
  then show ?thesis using assms(1) by (auto simp: opens_def newKids_def)
qed

lemma opens_sameTables: "opens i r kids db db1 \<Longrightarrow> sameTables db1 db2 \<Longrightarrow> opens i r kids db db2"
  by (simp add: opens_def sameTables_def newKids_def)

lemma bindTx_cases:
  assumes "bindTx m k db = (x, db')"
  obtains e where "m db = (Inl e, db')" "x = Inl e" | y db1 where "m db = (Inr y, db1)" "k y db1 = (x, db')"
proof (cases "m db")
  case (Pair y db1)
  with assms that show ?thesis by (cases y) (auto simp: bindTx_def)
qed

lemma inTx_ahead: "inTx m db = (x, db') \<Longrightarrow> (\<And>y db1. m db = (y, db1) \<Longrightarrow> ahead db db1) \<Longrightarrow> x = Inl e \<Longrightarrow> stutters db db'"
  by (erule inTx_cases) (auto simp: stutters_def ahead_def)

definition openedBy :: "(int64 \<Rightarrow> request_row) \<Rightarrow> (task_error, int64) result \<Rightarrow> task_db \<Rightarrow> task_db \<Rightarrow> bool" where
  "openedBy row x db db' \<longleftrightarrow> (\<exists>e. x = Inl e) \<and> stutters db db' \<or> (\<exists>i kids. x = Inr i \<and> opens i (row i) kids db db')"

lemma openedBy_step:
  assumes "openedBy row x db db'" "\<And>i. rw_id (row i) = i" "\<And>i. opensRow (row i)"
  shows "\<exists>l. task_step l db db' \<and> l \<in> {Moved} \<union> range Opened"
  using assms by (auto simp: openedBy_def intro: stutters_step opens_step)

lemma inTx_opened:
  assumes t: "inTx (bindTx ins k) db = (x, db')"
    and ins: "\<And>y db1. ins db = (y, db1) \<Longrightarrow> (\<exists>e. y = Inl e) \<and> stutters db db1 \<or> (\<exists>i. y = Inr i \<and> opens i (row i) [] db db1)"
    and k: "\<And>i db1 y db2. opens i (row i) [] db db1 \<Longrightarrow> k i db1 = (y, db2) \<Longrightarrow> (\<exists>kids. opens i (row i) kids db db2) \<and> (y = Inr i \<or> (\<exists>e. y = Inl e))"
  shows "openedBy row x db db'"
proof -
  have whole: "(\<exists>e. y = Inl e) \<and> ahead db db2 \<or> (\<exists>i kids. y = Inr i \<and> opens i (row i) kids db db2)" if "bindTx ins k db = (y, db2)" for y db2
    using that
  proof (rule bindTx_cases)
    fix e assume "ins db = (Inl e, db2)" "y = Inl e"
    with ins[OF this(1)] show ?thesis by (auto simp: stutters_def)
  next
    fix z db1 assume a: "ins db = (Inr z, db1)" "k z db1 = (y, db2)"
    with ins[OF a(1)] k[of z db1 y db2] show ?thesis by (auto dest: opens_ahead)
  qed
  from t show ?thesis
    by (rule inTx_cases) (use whole in \<open>auto simp: openedBy_def stutters_def ahead_def\<close>)
qed

lemma quiet_tail: "quiet m \<Longrightarrow> opens i r kids db db1 \<Longrightarrow> m db1 = (y, db2) \<Longrightarrow> opens i r kids db db2"
  using opens_sameTables quietD by blast

definition yields :: "'a \<Rightarrow> 'a tx \<Rightarrow> bool" where
  "yields v m \<longleftrightarrow> (\<forall>db. fst (m db) = Inr v \<or> (\<exists>e. fst (m db) = Inl e))"

lemma yields_pure: "yields v (pureTx v)"
  by (simp add: yields_def pureTx_def)

lemma yields_bind: "(\<And>x. yields v (k x)) \<Longrightarrow> yields v (bindTx m k)"
  by (simp add: yields_def bindTx_def split: prod.splits sum.splits)

lemmas yields_intros = yields_pure yields_bind

lemma yieldsD: "yields v m \<Longrightarrow> m db = (y, db') \<Longrightarrow> y = Inr v \<or> (\<exists>e. y = Inl e)"
  by (metis fst_conv yields_def)

lemma quiet_opened:
  assumes "opens i r [] db db1" "m db1 = (y, db2)" "quiet m" "yields i m"
  shows "(\<exists>kids. opens i r kids db db2) \<and> (y = Inr i \<or> (\<exists>e. y = Inl e))"
  using quiet_tail[OF assms(3,1,2)] yieldsD[OF assms(4,2)] by blast

lemma statements_then_quiet:
  assumes "opens i r [] db db1" "bindTx (insertStatements ev i sqls) (\<lambda>_. m) db1 = (y, db2)" "quiet m" "yields i m"
  shows "(\<exists>kids. opens i r kids db db2) \<and> (y = Inr i \<or> (\<exists>e. y = Inl e))"
  using assms(2)
proof (rule bindTx_cases)
  fix z db3 assume a: "insertStatements ev i sqls db1 = (Inr z, db3)" "m db3 = (y, db2)"
  from opens_statements[OF assms(1) a(1)] quiet_tail[OF assms(3) _ a(2)] yieldsD[OF assms(4) a(2)] show ?thesis by blast
qed (simp add: insertStatements_def)

lemma create_role:
  assumes "createRequest ev who input actr source db = (x, db')"
  shows "\<exists>l. task_step l db db' \<and> l \<in> {Moved} \<union> range Opened"
proof -
  let ?row = "\<lambda>i. (newRow ev i who BY_WORKFLOW)
       \<lparr>rw_roleId := Some (ai_roleId input), rw_datasourceId := ai_datasourceId input, rw_text := noText\<lparr>rx_reason := ai_reason input\<rparr>,
        rw_requestedDurationSec := ai_requestedDurationSec input, rw_source := source\<rparr>"
  have "openedBy ?row x db db'"
    using assms unfolding createRequest_def
    by (rule inTx_opened) (erule insertRequest_cases, erule quiet_opened, assumption, (intro quiet_intros yields_intros)+)
  then show ?thesis by (rule openedBy_step) (simp_all add: newRow_def opensRow_def)
qed

lemma create_query:
  assumes "createQueryRequest ev q db = (x, db')"
  shows "\<exists>l. task_step l db db' \<and> l \<in> {Moved} \<union> range Opened"
proof (cases "cq_statements q = []")
  case True
  with assms show ?thesis by (auto simp: createQueryRequest_def intro!: exI[of _ Moved] step_same)
next
  case False
  let ?row = "queryRow ev q (liveRoleName db (cq_roleId q))"
  have t: "inTx (bindTx (\<lambda>db. case cq_sourceDecisionId q of
           Some d \<Rightarrow> if pendingQueryRequestExists d db then (Inl DuplicatePendingQueryRequest, db\<lparr>td_requestSeq := td_requestSeq db + 1\<rparr>)
             else insertRequest ?row db
         | None \<Rightarrow> insertRequest ?row db) (\<lambda>i.
       bindTx (insertStatements ev i (cq_statements q)) (\<lambda>_.
       bindTx (plainEvent i EV_REQUESTED (Some (cq_principal q)) (cq_source q)) (\<lambda>_.
       bindTx (case cq_actor q of None \<Rightarrow> pureTx () | Some a \<Rightarrow> recorderRecord ev a TASK_REQUEST ''AccessRequest'' i) (\<lambda>_.
       bindTx (runHook ev) (\<lambda>_. pureTx i)))))) db = (x, db')"
    using assms False by (simp add: createQueryRequest_def Let_def)
  have "openedBy ?row x db db'"
    using t
  proof (rule inTx_opened)
    show "(\<exists>e. y = Inl e) \<and> stutters db db1 \<or> (\<exists>i. y = Inr i \<and> opens i (?row i) [] db db1)"
      if "(case cq_sourceDecisionId q of
           Some d \<Rightarrow> if pendingQueryRequestExists d db then (Inl DuplicatePendingQueryRequest, db\<lparr>td_requestSeq := td_requestSeq db + 1\<rparr>)
             else insertRequest ?row db
         | None \<Rightarrow> insertRequest ?row db) = (y, db1)" for y db1
      using that insertRequest_cases[of ?row db] by (auto simp: stutters_def ahead_def split: option.splits if_splits)
  qed (erule statements_then_quiet, assumption, (intro quiet_intros yields_intros)+)
  then show ?thesis by (rule openedBy_step) (simp_all add: queryRow_def newRow_def opensRow_def)
qed

lemma approvedRow_simps [simp]:
  "rw_id (approvedRow ev who ds roles a c i) = i" "rw_status (approvedRow ev who ds roles a c i) = APPROVED"
  "rw_kind (approvedRow ev who ds roles a c i) = QUERY" "rw_creatorKind (approvedRow ev who ds roles a c i) = c"
  "rw_revision (approvedRow ev who ds roles a c i) = 1"
  by (simp_all add: approvedRow_def newRow_def)

lemma create_editor:
  assumes "createEditorTask ev who ds sqls roles approver db = (x, db')"
  shows "\<exists>l. task_step l db db' \<and> l \<in> {Moved} \<union> range Opened"
proof (cases "sqls = []")
  case True
  with assms show ?thesis by (auto simp: createEditorTask_def intro!: exI[of _ Moved] step_same)
next
  case False
  then have t: "inTx (bindTx (insertRequest (approvedRow ev who ds roles approver BY_EDITOR)) (\<lambda>i.
       bindTx (insertStatements ev i sqls) (\<lambda>_. pureTx i))) db = (x, db')"
    using assms by (simp add: createEditorTask_def)
  have "openedBy (approvedRow ev who ds roles approver BY_EDITOR) x db db'"
    using t by (rule inTx_opened) (erule insertRequest_cases, erule statements_then_quiet, assumption, (intro quiet_intros yields_intros)+)
  then show ?thesis by (rule openedBy_step) (simp_all add: opensRow_def)
qed

lemma create_wire:
  assumes "createWireTask ev who ds roles d db = (x, db')"
  shows "\<exists>l. task_step l db db' \<and> l \<in> {Moved} \<union> range Opened"
proof -
  have "openedBy (\<lambda>i. (approvedRow ev who ds roles who BY_WIRE i)\<lparr>rw_sourceDecisionId := Some d\<rparr>) x db db'"
    using insertRequest_cases[OF assms[unfolded createWireTask_def]] by (auto simp: openedBy_def)
  then show ?thesis by (rule openedBy_step) (simp_all add: opensRow_def)
qed


lemma onlyRow_trans_same: "onlyRow i R db db1 \<Longrightarrow> td_requests db2 = td_requests db1 \<Longrightarrow> onlyRow i R db db2"
  by (simp add: onlyRow_def)

lemma edit_step:
  assumes e: "editQueryRequest ev i sqls ed actr db = (x, db')" and w: "wfTasks db"
  shows "stutters db db' \<or> task_step (Edited i) db db'"
proof (cases "sqls = []")
  case True
  with e show ?thesis by (auto simp: editQueryRequest_def stutters_def ahead_def)
next
  case False
  let ?P = "\<lambda>r. rw_id r = i \<and> isWorkflowApproval r \<and> unstarted r"
  let ?f = "\<lambda>r. r\<lparr>rw_status := PENDING, rw_decidedBy := None, rw_decidedAt := None, rw_approvedAt := None, rw_rejectionReason := None,
                rw_sourceDecisionId := None, rw_text := editedText ev ed (rw_text r), rw_revision := rw_revision r + 1,
                rw_pull := editedPull ed (rw_pull r)\<rparr>"
  let ?db1 = "db\<lparr>td_requests := updateWhere ?P ?f (td_requests db)\<rparr>"
  let ?db2 = "?db1\<lparr>td_results := filter (\<lambda>q. qr_taskId q \<noteq> i) (td_results db)\<rparr>"
  let ?tail = "bindTx (plainEvent i EV_EDITED (Some (aa_principal actr)) (aa_channel actr)) (\<lambda>_.
         bindTx (recorderRecord ev actr TASK_REQUEST ''AccessRequest'' i) (\<lambda>_.
         bindTx (runHook ev) (\<lambda>_. pureTx True)))"
  obtain y db3 where m: "bindTx (insertStatements ev i sqls) (\<lambda>_. ?tail) ?db2 = (y, db3)" by force
  obtain db4 where ins: "insertStatements ev i sqls ?db2 = (Inr (), db4)" by (simp add: insertStatements_def)
  from m ins have tail: "?tail db4 = (y, db3)" by (simp add: bindTx_def)
  have "quiet ?tail" by (intro quiet_intros)
  from quietD[OF this tail] have same: "sameTables db4 db3" .
  from ins obtain kids where kids: "td_results db4 = td_results ?db2 @ kids" "newKids ?db2 db4 i kids" "td_requests db4 = td_requests ?db2"
      "td_grants db4 = td_grants ?db2" "td_requestSeq db4 = td_requestSeq ?db2" "td_grantSeq db4 = td_grantSeq ?db2"
    by (rule insertStatements_kids)
  have ahead: "ahead db db3" using same kids by (simp add: sameTables_def ahead_def newKids_def)
  have run: "inTx (\<lambda>d. if list_ex ?P (td_requests db) then (y, db3) else (Inr False, ?db1)) db = (x, db')"
    using e False m by (simp add: editQueryRequest_def inTx_def bindTx_def updateRequests_def pureTx_def split: if_splits)
  show ?thesis
  proof (cases "list_ex ?P (td_requests db)")
    case False
    then have "updateWhere ?P ?f (td_requests db) = td_requests db" by (rule updateWhere_none)
    with run False show ?thesis by (auto simp: inTx_def stutters_def ahead_def)
  next
    case True
    have "onlyRow i editsRow db ?db1"
      by (rule onlyRow_update[where P = ?P and f = ?f, OF _ w True]) (simp_all add: updated_def sameRequest_def editsRow_def editedPull_def)
    then have only: "onlyRow i editsRow db db3"
      by (rule onlyRow_trans_same) (use same kids in \<open>simp add: sameTables_def\<close>)
    have "task_step (Edited i) db db3"
      by (rule task_step.edited[OF ahead only, where kids = kids]) (use same kids in \<open>auto simp: sameTables_def newKids_def\<close>)
    with run True ahead show ?thesis by (cases y) (auto simp: inTx_def stutters_def ahead_def)
  qed
qed

subsection \<open>Claims\<close>

lemma claim_result:
  assumes c: "claimExecution ev i db = (x, db')" and w: "wfTasks db"
  shows "x \<noteq> Inr True \<and> stutters db db' \<or> x = Inr True \<and> movesOnly i (claimsRow (td_requests db) (tx_now ev)) db db'"
proof -
  let ?P = "\<lambda>r. rw_id r = i \<and> rw_kind r = QUERY \<and> rw_status r = APPROVED \<and> approvalLive (tx_now ev) r"
  let ?f = "\<lambda>r. r\<lparr>rw_status := EXECUTING, rw_executingAt := Some (tx_now ev)\<rparr>"
  let ?scope = "case getRequest i db of None \<Rightarrow> None | Some r \<Rightarrow> if rw_status r = APPROVED then pc_scope (rw_pull r) else None"
  from c[unfolded claimExecution_def Let_def] show ?thesis
  proof (rule bindTx_cases)
    fix e assume "(case ?scope of None \<Rightarrow> pureTx () | Some s \<Rightarrow> checkOrdering i s) db = (Inl e, db')" "x = Inl e"
    moreover have "quiet (case ?scope of None \<Rightarrow> pureTx () | Some s \<Rightarrow> checkOrdering i s)" by (intro quiet_intros)
    ultimately show ?thesis using quietD sameTables_stutters by blast
  next
    fix u db1 assume ok: "(case ?scope of None \<Rightarrow> pureTx () | Some s \<Rightarrow> checkOrdering i s) db = (Inr u, db1)"
      and upd: "updateRequests ?P ?f db1 = (x, db')"
    have db1: "db1 = db"
      using ok by (auto simp: pureTx_def checkOrdering_def split: option.splits if_splits)
    from upd have x: "x = Inr (list_ex ?P (td_requests db))" and u: "updated ?P ?f db db'"
      by (auto simp: updateRequests_def db1 updated_def)
    show ?thesis
    proof (cases "list_ex ?P (td_requests db)")
      case False
      with updated_none[OF u] x show ?thesis using sameTables_stutters by blast
    next
      case True
      have "scopeFree (td_requests db) r" if "rw_id r = i" "rw_status r = APPROVED" "r \<in> set (td_requests db)" for r
        using ok that getRequest_eq[OF w, of r i]
        by (auto simp: scopeFree_def checkOrdering_def split: option.splits if_splits)
      then have "onlyRow i (claimsRow (td_requests db) (tx_now ev)) db db'"
        by (intro onlyRow_update[OF u w True]) (auto simp: sameRequest_def claimsRow_def)
      with True x u show ?thesis by (auto simp: movesOnly_def updated_def sameTables_def ahead_def)
    qed
  qed
qed


subsection \<open>Runs\<close>

text \<open>
  A relation between the tables before and after, closed under composition, that a rolled back transaction
  satisfies: it holds of an operation built from parts that satisfy it.
\<close>

definition obeys :: "(task_db \<Rightarrow> task_db \<Rightarrow> bool) \<Rightarrow> 'a tx \<Rightarrow> bool" where
  "obeys R m \<longleftrightarrow> (\<forall>db x db'. m db = (x, db') \<longrightarrow> R db db')"

locale tx_relation =
  fixes R :: "task_db \<Rightarrow> task_db \<Rightarrow> bool"
  assumes stutter: "stutters db db' \<Longrightarrow> R db db'"
    and compose: "R a b \<Longrightarrow> R b c \<Longrightarrow> R a c"
    and forward: "R db db' \<Longrightarrow> ahead db db'"
begin

lemma obeysI: "(\<And>db x db'. m db = (x, db') \<Longrightarrow> R db db') \<Longrightarrow> obeys R m"
  by (simp add: obeys_def)

lemma obeysD: "obeys R m \<Longrightarrow> m db = (x, db') \<Longrightarrow> R db db'"
  by (simp add: obeys_def)

lemma quiet: "quiet m \<Longrightarrow> obeys R m"
  by (rule obeysI) (auto dest: quietD intro: stutter sameTables_stutters)

lemma bind: "obeys R m \<Longrightarrow> (\<And>x. obeys R (k x)) \<Longrightarrow> obeys R (bindTx m k)"
  by (rule obeysI, erule bindTx_cases) (blast dest: obeysD intro: compose)+

lemma in_tx: "obeys R m \<Longrightarrow> obeys R (inTx m)"
proof (rule obeysI)
  fix db x db' assume m: "obeys R m" and t: "inTx m db = (x, db')"
  from t show "R db db'"
  proof (rule inTx_cases)
    fix e db1
    assume "m db = (Inl e, db1)" and db': "db' = db\<lparr>td_requestSeq := td_requestSeq db1, td_resultSeq := td_resultSeq db1, td_grantSeq := td_grantSeq db1\<rparr>"
    then have "ahead db db1" using m by (blast dest: obeysD forward)
    then show ?thesis unfolding db' by (intro stutter) (simp add: stutters_def ahead_def)
  qed (use m in \<open>blast dest: obeysD\<close>)
qed

lemma branch: "obeys R m \<Longrightarrow> obeys R n \<Longrightarrow> obeys R (if b then m else n)"
  by simp

lemma pick: "obeys R m \<Longrightarrow> (\<And>y. obeys R (k y)) \<Longrightarrow> obeys R (\<lambda>db. case v db of None \<Rightarrow> m db | Some y \<Rightarrow> k y db)"
  by (rule obeysI) (auto split: option.splits dest: obeysD)

end

definition kidsMove :: "task_db \<Rightarrow> task_db \<Rightarrow> bool" where
  "kidsMove db db' \<longleftrightarrow> ahead db db' \<and> td_requests db' = td_requests db \<and> list_all2 childMove (td_results db) (td_results db') \<and> td_grants db' = td_grants db"

lemma ahead_trans: "ahead a b \<Longrightarrow> ahead b c \<Longrightarrow> ahead a c"
  by (auto simp: ahead_def)

lemma kids_trans: "list_all2 childMove a b \<Longrightarrow> list_all2 childMove b c \<Longrightarrow> list_all2 childMove a c"
  by (rule list_all2_trans[OF childMove_trans])

interpretation kids: tx_relation kidsMove
  by unfold_locales (auto simp: kidsMove_def stutters_def all_refl intro: ahead_trans kids_trans)

interpretation seqs: tx_relation ahead
  by unfold_locales (auto simp: stutters_def intro: ahead_trans)

lemma kids_update: "(\<And>q. P q \<Longrightarrow> childMove q (f q)) \<Longrightarrow> obeys kidsMove (updateResults P f)"
  by (rule kids.obeysI) (auto simp: updateResults_def ahead_def kidsMove_def intro!: list_all2_updateWhere)

text \<open>Operations that move children and then a request.\<close>

definition moves :: "task_db \<Rightarrow> task_db \<Rightarrow> bool" where
  "moves db db' \<longleftrightarrow> ahead db db' \<and> list_all2 rowMove (td_requests db) (td_requests db') \<and> list_all2 childMove (td_results db) (td_results db')
    \<and> td_grants db' = td_grants db"

lemma moves_step: "moves db db' \<Longrightarrow> task_step Moved db db'"
  by (simp add: moves_def task_step.moved all_refl)

lemma kidsMove_moves: "kidsMove db db' \<Longrightarrow> moves db db'"
  by (simp add: kidsMove_def moves_def all_refl)

lemma stutters_moves: "stutters db db' \<Longrightarrow> moves db db'"
  by (simp add: stutters_def moves_def all_refl)

lemma kids_then_moves: "kidsMove a b \<Longrightarrow> moves b c \<Longrightarrow> moves a c"
  by (auto simp: kidsMove_def moves_def intro: ahead_trans kids_trans)

lemma moving_bind:
  assumes "obeys kidsMove m" "\<And>x. obeys moves (k x)" shows "obeys moves (bindTx m k)"
  unfolding obeys_def
proof (intro allI impI)
  fix db x db' assume "bindTx m k db = (x, db')"
  then show "moves db db'"
  proof (rule bindTx_cases)
    fix e assume "m db = (Inl e, db')"
    then show ?thesis by (rule kidsMove_moves[OF kids.obeysD[OF assms(1)]])
  next
    fix y db1 assume a: "m db = (Inr y, db1)" "k y db1 = (x, db')"
    have "moves db1 db'" using assms(2) a(2) by (simp add: obeys_def)
    then show ?thesis by (rule kids_then_moves[OF kids.obeysD[OF assms(1) a(1)]])
  qed
qed

lemma moving_kids: "obeys kidsMove m \<Longrightarrow> obeys moves m"
  by (simp add: obeys_def kidsMove_moves)

lemma moving_inTx: "obeys moves m \<Longrightarrow> obeys moves (inTx m)"
  unfolding obeys_def
  by (intro allI impI, erule inTx_cases) (auto simp: moves_def ahead_def all_refl)


lemma startChild_kids: "obeys kidsMove (startChild c who)"
  unfolding startChild_def
  by (intro kids.bind kids_update kids.quiet) (auto simp: childMove_def childNext_def quiet_def)

lemma skip_kids: "obeys kidsMove (skipPendingChildren ev i)"
  unfolding skipPendingChildren_def by (rule kids_update) (auto simp: childMove_def childNext_def)

lemma startNext_kids: "obeys kidsMove (startNextRun i who)"
  unfolding startNextRun_def
  by (intro kids.in_tx kids.pick kids.bind startChild_kids kids.quiet quiet_intros) (simp add: quiet_def)

lemma requirements_kids: "obeys kidsMove (recordRequirements i b)"
  unfolding recordRequirements_def
  by (intro kids.in_tx kids.pick kids.bind kids_update kids.quiet quiet_intros) (auto simp: childMove_def childNext_def)

lemma purge_kids: "obeys kidsMove (purgeExpired ev)"
  unfolding purgeExpired_def by (rule kids_update) (auto simp: childMove_def childNext_def)

lemma transit_moves:
  assumes "\<And>q. guard (qr_status q) \<Longrightarrow> childMove q (f q)" "obeys moves also"
  shows "obeys moves (transitChild i pick guard f also)"
  unfolding transitChild_def
proof (rule moving_inTx)
  have tail: "obeys moves (\<lambda>db. case if won then metaAt i k db else None of None \<Rightarrow> (Inr None, db) | Some m \<Rightarrow> bindTx also (\<lambda>_. pureTx (Some m)) db)" for won k
    using assms(2) by (auto simp: obeys_def bindTx_def pureTx_def intro!: stutters_moves sameTables_stutters split: option.splits prod.splits sum.splits)
  have "obeys kidsMove (updateResults (\<lambda>p. qr_id p = c \<and> guard (qr_status p)) f)" for c
    by (rule kids_update) (simp add: assms(1))
  from moving_bind[OF this tail] show "obeys moves (\<lambda>db. case pick db of None \<Rightarrow> (Inr None, db)
    | Some q \<Rightarrow> bindTx (updateResults (\<lambda>p. qr_id p = qr_id q \<and> guard (qr_status p)) f) (\<lambda>won db.
        case (if won then metaAt i (qr_ordinal q) db else None) of
          None \<Rightarrow> (Inr None, db)
        | Some m \<Rightarrow> bindTx also (\<lambda>_. pureTx (Some m)) db) db)"
    by (auto simp: obeys_def intro!: stutters_moves sameTables_stutters split: option.splits)
qed

lemma complete_moves: "obeys moves audit \<Longrightarrow> obeys moves (completeRun ev i result secs d audit)"
proof (cases d)
  case None
  then show ?thesis by (auto simp: obeys_def completeRun_def intro!: stutters_moves sameTables_stutters)
next
  case (Some n)
  assume "obeys moves audit"
  then show ?thesis
    unfolding completeRun_def Some option.case by (intro transit_moves) (auto simp: childMove_def childNext_def)
qed

lemma fail_moves: "obeys moves onFailed \<Longrightarrow> obeys moves (failRun ev i code reason d detail onFailed)"
  unfolding failRun_def by (intro transit_moves moving_bind skip_kids) (auto simp: childMove_def childNext_def)

lemma cancel_moves: "obeys moves onCancelled \<Longrightarrow> obeys moves (cancelRun ev i onCancelled)"
  unfolding cancelRun_def by (intro transit_moves moving_bind skip_kids) (auto simp: childMove_def childNext_def)

lemma moves_then_kids: "moves a b \<Longrightarrow> kidsMove b c \<Longrightarrow> moves a c"
  by (auto simp: kidsMove_def moves_def intro: ahead_trans kids_trans)

lemma rows_then_kids:
  assumes "\<And>r. P r \<Longrightarrow> rowMove r (f r)" "\<And>won. obeys kidsMove (k won)"
  shows "obeys moves (bindTx (updateRequests P f) k)"
  unfolding obeys_def
proof (intro allI impI)
  fix db x db' assume "bindTx (updateRequests P f) k db = (x, db')"
  then have k: "k (list_ex P (td_requests db)) (db\<lparr>td_requests := updateWhere P f (td_requests db)\<rparr>) = (x, db')"
    by (simp add: bindTx_def updateRequests_def)
  have "moves db (db\<lparr>td_requests := updateWhere P f (td_requests db)\<rparr>)"
    by (auto simp: moves_def ahead_def all_refl assms(1) intro!: list_all2_updateWhere)
  then show "moves db db'" using kids.obeysD[OF assms(2) k] by (rule moves_then_kids)
qed

lemma kids_update_at: "(\<And>d q. P d q \<Longrightarrow> childMove q (f q)) \<Longrightarrow> obeys kidsMove (\<lambda>db. updateResults (P db) f db)"
  by (rule kids.obeysI) (auto simp: updateResults_def ahead_def kidsMove_def intro!: list_all2_updateWhere)

lemma reconcile_moves: "obeys moves (reconcileOrphanedExecutions ev)"
  unfolding reconcileOrphanedExecutions_def Let_def
  by (intro moving_inTx rows_then_kids kids.bind kids_update kids_update_at kids.quiet quiet_intros)
    (auto simp: row_simps childMove_def childNext_def orphaned_def firstUnstarted_def)

lemma start_claimed:
  assumes c: "claimAndStartRun i who origin (claimExecution ev i) db = (x, db')" and w: "wfTasks db"
  shows "stutters db db' \<and> (\<forall>q. x \<noteq> Inr (Some q)) \<or> task_step (Claimed i (tx_now ev)) db db'"
proof -
  let ?tail = "\<lambda>db. case pendingChild i db of
         None \<Rightarrow> (Inl IllegalState, db)
       | Some q \<Rightarrow>
           bindTx (startChild (qr_id q) who) (\<lambda>started.
           if \<not> started then failTx IllegalState
           else bindTx (plainEvent i EV_RAN (Some who) origin) (\<lambda>_ db. (Inr (metaAt i (qr_ordinal q) db), db))) db"
  have tail: "obeys kidsMove ?tail"
    by (intro kids.pick kids.bind startChild_kids kids.branch kids.quiet quiet_intros)
  obtain y db1 where cl: "claimExecution ev i db = (y, db1)" by force
  show ?thesis
  proof (cases "y = Inr True")
    case False
    then have "stutters db db1" using claim_result[OF cl w] by blast
    with c cl False show ?thesis
      by (cases y) (auto simp: claimAndStartRun_def inTx_def bindTx_def pureTx_def stutters_def ahead_def)
  next
    case True
    then have only: "movesOnly i (claimsRow (td_requests db) (tx_now ev)) db db1" using claim_result[OF cl w] by blast
    obtain z db2 where t: "?tail db1 = (z, db2)" by force
    have run: "inTx (\<lambda>_. (z, db2)) db = (x, db')"
      using c cl True t by (simp add: claimAndStartRun_def inTx_def bindTx_def)
    have k: "kidsMove db1 db2" using kids.obeysD[OF tail t] .
    have "task_step (Claimed i (tx_now ev)) db db2"
      using only k by (intro task_step.claimed) (auto simp: movesOnly_def kidsMove_def onlyRow_def intro: ahead_trans)
    moreover have "ahead db db2" using only k by (auto simp: movesOnly_def kidsMove_def intro: ahead_trans)
    ultimately show ?thesis using run by (cases z) (auto simp: inTx_def stutters_def ahead_def)
  qed
qed


subsection \<open>Grants and removals\<close>

lemma reject_step:
  assumes "rejectAudited ev i reason who actr db = (x, db')"
  shows "task_step Moved db db'"
proof (cases "getRequest i db")
  case None
  with assms show ?thesis by (simp add: rejectAudited_def step_same)
next
  case (Some r)
  let ?m = "bindTx (reject ev i reason who) (\<lambda>won. if won then
      bindTx (recordEvent i EV_REJECTED (Some who) (aa_channel actr) (Some reason) None None None) (\<lambda>_. recorderRecord ev actr TASK_APPROVE ''AccessRequest'' i)
      else pureTx ())"
  from Some assms have "bindTx (inTx ?m) (\<lambda>_ db. (Inr (getRequest i db), db)) db = (x, db')" by (simp add: rejectAudited_def)
  then obtain y where "inTx ?m db = (y, db')" by (rule bindTx_cases) auto
  then show ?thesis
    unfolding reject_def by (rule inTx_rows) (intro quiet_intros, simp add: row_simps)
qed

lemma approve_step:
  assumes a: "approveAudited ev i secs who actr db = (x, db')" and w: "wfTasks db" and r: "getRequest i db = Some r" and k: "rw_kind r \<noteq> QUERY"
  shows "stutters db db' \<or> task_step (Granted i) db db'"
proof -
  let ?tail = "\<lambda>grant. case grant of None \<Rightarrow> pureTx () | Some g \<Rightarrow>
      bindTx (plainEvent i EV_APPROVED (Some who) (aa_channel actr)) (\<lambda>_. recorderRecord ev actr TASK_APPROVE ''AccessGrant'' g)"
  have q: "quiet (?tail g)" for g by (intro quiet_intros)
  from a r obtain y where run: "inTx (bindTx (approve ev i secs who) ?tail) db = (y, db')"
    unfolding approveAudited_def by (auto elim!: bindTx_cases)
  have in_r: "r \<in> set (td_requests db)" "rw_id r = i" using getRequest_in[OF r] by auto
  let ?P = "\<lambda>r. rw_id r = i \<and> rw_status r = PENDING"
  let ?f = "\<lambda>r. r\<lparr>rw_status := APPROVED, rw_decidedBy := Some who, rw_decidedAt := Some (tx_now ev)\<rparr>"
  show ?thesis
  proof (cases "rw_roleId r = None \<or> \<not> list_ex ?P (td_requests db)")
    case True
    have "approve ev i secs who db = (Inr None, db)"
      using True r by (auto simp: approve_def bindTx_def updateRequests_def pureTx_def updateWhere_none Let_def split: option.split)
    with run show ?thesis by (auto simp: inTx_def bindTx_def pureTx_def stutters_def ahead_def)
  next
    case False
    then obtain role where role: "rw_roleId r = Some role" and ex: "list_ex ?P (td_requests db)" by auto
    define g where "g = \<lparr>gt_id = td_grantSeq db, gt_requestId = i, gt_principal = rw_principal r, gt_roleId = role, gt_grantedBy = Some who,
      gt_grantedAt = tx_now ev, gt_expiresAt = Some (tx_now ev + (case secs of None \<Rightarrow> rw_requestedDurationSec r | Some d \<Rightarrow> d) * SECOND), gt_revokedAt = None\<rparr>"
    define db1 where "db1 = db\<lparr>td_requests := updateWhere ?P ?f (td_requests db), td_grants := td_grants db @ [g], td_grantSeq := td_grantSeq db + 1\<rparr>"
    have ap: "approve ev i secs who db = (Inr (Some (td_grantSeq db)), db1)"
      using r role ex by (simp add: approve_def bindTx_def updateRequests_def db1_def g_def)
    obtain z db2 where t: "?tail (Some (td_grantSeq db)) db1 = (z, db2)" by force
    have same: "sameTables db1 db2" using quietD[OF q t] .
    have "onlyRow i elevatesRow db (db\<lparr>td_requests := updateWhere ?P ?f (td_requests db)\<rparr>)"
    proof (rule onlyRow_update[where P = ?P and f = ?f, OF _ w ex])
      fix s assume "s \<in> set (td_requests db)" "?P s"
      then show "rw_id s = i \<and> sameRequest s (?f s) \<and> elevatesRow s (?f s)"
        using wfTasks_unique[OF w _ in_r(1)] in_r(2) k by (auto simp: sameRequest_def elevatesRow_def)
    qed (simp add: updated_def)
    then have only: "onlyRow i elevatesRow db db2" using same by (simp add: onlyRow_def sameTables_def db1_def)
    have "task_step (Granted i) db db2"
      by (rule task_step.granted[OF _ only, where r = r and g = g]) (use same in_r role in \<open>auto simp: sameTables_def db1_def g_def ahead_def\<close>)
    moreover have "ahead db db2" using same by (simp add: sameTables_def db1_def ahead_def)
    ultimately show ?thesis
      using run ap t by (cases z) (auto simp: inTx_def bindTx_def stutters_def ahead_def)
  qed
qed

lemma revoke_grants:
  assumes "revokeGrants now P db = (x, db')" shows "task_step Moved db db'"
proof -
  let ?hit = "\<lambda>g. P g \<and> gt_revokedAt g = None" and ?f = "\<lambda>g. g\<lparr>gt_revokedAt := Some now\<rparr>"
  have "list_all2 grantMove (td_grants db) (updateWhere ?hit ?f (td_grants db))"
    by (rule list_all2_updateWhere) (auto simp: grantMove_def)
  with assms show ?thesis
    by (intro task_step.moved) (auto simp: revokeGrants_def Let_def ahead_def all_refl)
qed

lemma revoke_step: "revokeAudited ev i actr db = (x, db') \<Longrightarrow> task_step Moved db db'"
proof -
  assume a: "revokeAudited ev i actr db = (x, db')"
  obtain n db1 where g: "revokeGrants (tx_now ev) (\<lambda>g. gt_id g = i) db = (Inr n, db1)" by (simp add: revokeGrants_def Let_def)
  let ?m = "if 0 < n \<and> getGrant i db \<noteq> None then bindTx (recorderRecord ev actr GRANT_REVOKE ''AccessGrant'' i) (\<lambda>_. pureTx (0 < n)) else pureTx (0 < n)"
  obtain y db2 where m: "?m db1 = (y, db2)" by force
  have "quiet ?m" by (intro quiet_intros)
  from quietD[OF this m] have same: "sameTables db1 db2" .
  have run: "inTx (\<lambda>_. (y, db2)) db = (x, db')"
    using a g m by (auto simp: revokeAudited_def Let_def revoke_def inTx_def bindTx_def pureTx_def)
  have seq: "td_requestSeq db1 = td_requestSeq db" "td_resultSeq db1 = td_resultSeq db" "td_grantSeq db1 = td_grantSeq db"
    using g by (auto simp: revokeGrants_def Let_def)
  have "task_step Moved db db2"
    using revoke_grants[OF g] same seq by (auto elim!: movedE intro!: task_step.moved simp: sameTables_def ahead_def)
  with run same seq show ?thesis by (cases y) (auto simp: inTx_def sameTables_def intro!: stutters_step simp: stutters_def ahead_def)
qed

lemma remove_requests:
  assumes "deleteRequests P db = (x, db')" "\<And>r. P r \<Longrightarrow> rw_creatorKind r = BY_EDITOR" "wfTasks db"
  shows "task_step Removed db db'"
proof -
  define S where "S = rw_id ` {r \<in> set (td_requests db). P r}"
  have P: "P r \<longleftrightarrow> rw_id r \<in> S" if "r \<in> set (td_requests db)" for r
    using that wfTasks_unique[OF assms(3) that] by (auto simp: S_def)
  have g: "set (map rw_id (filter P (td_requests db))) = S" by (auto simp: S_def)
  show ?thesis
  proof (rule task_step.removed[where S = S and keep = "\<lambda>q. qr_taskId q \<notin> S"])
    show "td_requests db' = filter (\<lambda>r. rw_id r \<notin> S) (td_requests db)"
      using assms(1) P by (auto simp: deleteRequests_def Let_def intro!: filter_cong)
    show "td_results db' = filter (\<lambda>q. qr_taskId q \<notin> S) (td_results db)" "td_grants db' = filter (\<lambda>g. gt_requestId g \<notin> S) (td_grants db)" "ahead db db'"
      using assms(1) g by (auto simp: deleteRequests_def Let_def ahead_def)
    show "\<forall>r\<in>set (td_requests db). rw_id r \<in> S \<longrightarrow> rw_creatorKind r = BY_EDITOR" using P assms(2) by auto
    show "\<forall>q\<in>set (td_results db). \<forall>r\<in>set (td_requests db). qr_taskId q = rw_id r \<and> rw_creatorKind r \<noteq> BY_EDITOR \<longrightarrow> qr_taskId q \<notin> S"
    proof (intro ballI impI)
      fix q r assume "r \<in> set (td_requests db)" "qr_taskId q = rw_id r \<and> rw_creatorKind r \<noteq> BY_EDITOR"
      then show "qr_taskId q \<notin> S" using P[of r] assms(2)[of r] by auto
    qed
  qed auto
qed

lemma remove_results:
  assumes "deleteResults P db = (x, db')" "wfTasks db"
    "\<And>q r. P q \<Longrightarrow> r \<in> set (td_requests db) \<Longrightarrow> rw_id r = qr_taskId q \<Longrightarrow> rw_creatorKind r = BY_EDITOR"
  shows "task_step Removed db db'"
  by (rule task_step.removed[where S = "{}" and keep = "\<lambda>q. \<not> P q"])
    (use assms in \<open>auto simp: deleteResults_def ahead_def\<close>)

lemma purge_editor: "purgeExpiredEditorChildren ev db = (x, db') \<Longrightarrow> wfTasks db \<Longrightarrow> task_step Removed db db'"
  unfolding purgeExpiredEditorChildren_def
  by (erule remove_results) (auto simp: list_ex_iff dest: wfTasks_unique)


subsection \<open>What every step keeps\<close>

lemma list_all2_set2: "list_all2 R xs ys \<Longrightarrow> y \<in> set ys \<Longrightarrow> \<exists>x\<in>set xs. R x y"
  by (metis in_set_conv_nth list_all2_conv_all_nth)

lemma list_all2_set1: "list_all2 R xs ys \<Longrightarrow> x \<in> set xs \<Longrightarrow> \<exists>y\<in>set ys. R x y"
  by (metis in_set_conv_nth list_all2_conv_all_nth)

lemma list_all2_map_eq: "list_all2 R xs ys \<Longrightarrow> (\<And>x y. R x y \<Longrightarrow> f y = f x) \<Longrightarrow> map f ys = map f xs"
  by (induction rule: list_all2_induct) auto

lemma list_all2_filter:
  "list_all2 R xs ys \<Longrightarrow> (\<And>x y. R x y \<Longrightarrow> P y \<longleftrightarrow> P x) \<Longrightarrow> list_all2 R (filter P xs) (filter P ys)"
  by (induction rule: list_all2_induct) auto

lemma list_all2_insort:
  "list_all2 R xs ys \<Longrightarrow> R a b \<Longrightarrow> (\<And>x y. R x y \<Longrightarrow> k y = k x) \<Longrightarrow> list_all2 R (insort_key k a xs) (insort_key k b ys)"
  by (induction rule: list_all2_induct) auto

lemma list_all2_sort:
  "list_all2 R xs ys \<Longrightarrow> (\<And>x y. R x y \<Longrightarrow> k y = k x) \<Longrightarrow> list_all2 R (sort_key k xs) (sort_key k ys)"
  by (induction rule: list_all2_induct) (auto simp: sort_key_def intro: list_all2_insort)

definition texts :: "int64 \<Rightarrow> task_db \<Rightarrow> string option list" where
  "texts i db = map qr_sql (statements i db)"

lemma statements_moved: "list_all2 childMove (td_results db) (td_results db') \<Longrightarrow> list_all2 childMove (statements i db) (statements i db')"
  unfolding statements_def by (intro list_all2_sort list_all2_filter) (auto simp: childMove_def)

lemma texts_moved: "list_all2 childMove (td_results db) (td_results db') \<Longrightarrow> texts i db' = texts i db"
  unfolding texts_def by (rule list_all2_map_eq[OF statements_moved]) (auto simp: childMove_def)

lemma filter_other: "(\<And>q. q \<in> set kids \<Longrightarrow> qr_taskId q = j) \<Longrightarrow> i \<noteq> j \<Longrightarrow> filter (\<lambda>q. qr_taskId q = i) kids = []"
  by (auto simp: filter_empty_conv)

lemma newKids_task: "newKids db db' i kids \<Longrightarrow> q \<in> set kids \<Longrightarrow> qr_taskId q = i"
  by (auto simp: newKids_def in_set_conv_nth)

lemma onlyRow_moves:
  assumes "onlyRow i R db db'"
  shows "list_all2 (\<lambda>r r'. sameRequest r r' \<and> (if rw_id r = i then R r r' else r' = r)) (td_requests db) (td_requests db')"
  using assms unfolding onlyRow_def by (auto elim!: list_all2_mono simp: sameRequest_def)

lemma ids_moved: "list_all2 (\<lambda>r r'. sameRequest r r' \<and> Q r r') rs rs' \<Longrightarrow> map rw_id rs' = map rw_id rs"
  by (erule list_all2_map_eq) (simp add: sameRequest_def)

lemma rowMove_ids: "list_all2 rowMove rs rs' \<Longrightarrow> map rw_id rs' = map rw_id rs"
  by (erule list_all2_map_eq) (simp add: rowMove_def sameRequest_def)

lemma onlyRow_ids: "onlyRow i R db db' \<Longrightarrow> map rw_id (td_requests db') = map rw_id (td_requests db)"
  by (rule ids_moved[OF onlyRow_moves])

text \<open>Moving requests and children keeps the tables well formed.\<close>

lemma wf_rows:
  assumes "wfTasks db" "ahead db db'" "map rw_id (td_requests db') = map rw_id (td_requests db)"
    "list_all2 childMove (td_results db) (td_results db')" "map gt_id (td_grants db') = map gt_id (td_grants db)"
    "map gt_requestId (td_grants db') = map gt_requestId (td_grants db)"
  shows "wfTasks db'"
proof -
  have q: "map qr_id (td_results db') = map qr_id (td_results db)" "map qr_taskId (td_results db') = map qr_taskId (td_results db)"
    "map (\<lambda>q. (qr_taskId q, qr_ordinal q)) (td_results db') = map (\<lambda>q. (qr_taskId q, qr_ordinal q)) (td_results db)"
    using assms(4) by (auto intro!: list_all2_map_eq simp: childMove_def)
  show ?thesis
    using assms(1,2) unfolding wfTasks_def q assms(3,5,6) by (auto simp: ahead_def intro: keyed_mono)
qed

lemma keyed_append: "keyed (a @ b) n \<longleftrightarrow> keyed a n \<and> keyed b n \<and> set a \<inter> set b = {}"
  by (auto simp: keyed_def)

lemma keyed_filter: "keyed (map f xs) n \<Longrightarrow> keyed (map f (filter P xs)) n"
  by (auto simp: keyed_def distinct_map_filter)

lemma newKids_keys:
  assumes "newKids db db' i kids"
  shows "keyed (map qr_id kids) (td_resultSeq db')" "distinct (map (\<lambda>q. (qr_taskId q, qr_ordinal q)) kids)"
    "\<forall>q\<in>set kids. td_resultSeq db \<le> qr_id q \<and> qr_taskId q = i"
  using assms by (auto simp: newKids_def keyed_def in_set_conv_nth distinct_conv_nth)

lemma wf_kids:
  assumes "keyed (map qr_id qs) (td_resultSeq db)" "distinct (map (\<lambda>q. (qr_taskId q, qr_ordinal q)) qs)" "newKids db db' i kids" "i \<notin> set (map qr_taskId qs)"
  shows "keyed (map qr_id (qs @ kids)) (td_resultSeq db')" "distinct (map (\<lambda>q. (qr_taskId q, qr_ordinal q)) (qs @ kids))"
proof -
  note k = newKids_keys[OF assms(3)]
  have "keyed (map qr_id qs) (td_resultSeq db')"
    using assms(1) by (rule keyed_mono) (use assms(3) in \<open>simp add: newKids_def\<close>)
  moreover have "qr_id a \<noteq> qr_id b" if "a \<in> set qs" "b \<in> set kids" for a b
    using that assms(1) k(3) by (force simp: keyed_def)
  ultimately show "keyed (map qr_id (qs @ kids)) (td_resultSeq db')"
    using k(1) by (force simp: keyed_append)
  show "distinct (map (\<lambda>q. (qr_taskId q, qr_ordinal q)) (qs @ kids))" using assms(2,4) k(2,3) by auto
qed

lemma wf_step:
  assumes "task_step l db db'" "wfTasks db" shows "wfTasks db'"
  using assms
proof (induction rule: task_step.induct)
  case (moved db db')
  have "map gt_id (td_grants db') = map gt_id (td_grants db)" "map gt_requestId (td_grants db') = map gt_requestId (td_grants db)"
    using moved(4) by (auto intro!: list_all2_map_eq simp: grantMove_def)
  with moved show ?case by (intro wf_rows[OF moved(5,1) rowMove_ids[OF moved(2)] moved(3)])
next
  case (opened db db' i r kids)
  have new: "i \<notin> set (map rw_id (td_requests db))" using opened(2,10) by (auto simp: wfTasks_def keyed_def)
  then have "i \<notin> set (map qr_taskId (td_results db))" using opened(10) by (auto simp: wfTasks_def)
  note k = wf_kids[OF _ _ opened(8) this]
  have "keyed (map rw_id (td_requests db)) (td_requestSeq db')"
    using opened(10,3) by (auto simp: wfTasks_def intro: keyed_mono)
  with opened new k newKids_keys[OF opened(8)] show ?case
    by (auto simp: wfTasks_def keyed_append ahead_def intro: keyed_mono) (auto simp: keyed_def)
next
  case (approved db db' i rev t who)
  then show ?case by (intro wf_rows[OF approved(5,1) onlyRow_ids[OF approved(2)]]) (simp_all add: all_refl)
next
  case (claimed db db' i now)
  then show ?case by (intro wf_rows[OF claimed(5,1) onlyRow_ids[OF claimed(2)]]) simp_all
next
  case (edited db db' i kids)
  have "i \<in> set (map rw_id (td_requests db))" using edited(2) by (auto simp: onlyRow_def)
  moreover have "i \<notin> set (map qr_taskId (filter (\<lambda>q. qr_taskId q \<noteq> i) (td_results db)))" by auto
  note k = wf_kids[OF _ _ edited(4) this]
  ultimately show ?case
    using edited(1,3,5,6) k newKids_keys[OF edited(4)] onlyRow_ids[OF edited(2)]
    by (auto simp: wfTasks_def keyed_filter distinct_map_filter ahead_def intro: keyed_mono)
next
  case (granted db db' i r g)
  then show ?case
    using onlyRow_ids[OF granted(2)]
    by (auto simp: wfTasks_def keyed_append ahead_def intro: keyed_mono) (auto simp: keyed_def)
next
  case (removed db db' S keep)
  have "qr_taskId q \<in> rw_id ` set (td_requests db')" if "q \<in> set (td_results db')" for q
  proof -
    from that removed(4) have q: "q \<in> set (td_results db)" "keep q" by auto
    then obtain r where "r \<in> set (td_requests db)" "rw_id r = qr_taskId q" using removed(8) by (fastforce simp: wfTasks_def)
    with q removed(2,5) show ?thesis by force
  qed
  then show ?case
    using removed by (auto simp: wfTasks_def keyed_filter distinct_map_filter ahead_def intro: keyed_mono keyed_filter)
qed


text \<open>An approved workflow request was approved by the step, or was approved before at the same revision with the same statements.\<close>

definition standing :: "int64 \<Rightarrow> request_row \<Rightarrow> task_db \<Rightarrow> bool" where
  "standing i r db \<longleftrightarrow> r \<in> set (td_requests db) \<and> rw_id r = i \<and> isWorkflowApproval r \<and> rw_status r = APPROVED"

lemma onlyRow_other:
  assumes "onlyRow i R db db'" "r' \<in> set (td_requests db')"
  shows "if rw_id r' = i then \<exists>r\<in>set (td_requests db). rw_id r = i \<and> sameRequest r r' \<and> R r r' else r' \<in> set (td_requests db)"
proof -
  from list_all2_set2[OF onlyRow_moves[OF assms(1)] assms(2)] obtain r
    where "r \<in> set (td_requests db)" "sameRequest r r'" "if rw_id r = i then R r r' else r' = r" by blast
  then show ?thesis by (auto simp: sameRequest_def split: if_splits)
qed

lemma mayMove_approved: "mayMove k s APPROVED \<longleftrightarrow> s = APPROVED"
  by (cases s) (auto simp: mayMove_def)

lemma rowMove_standing:
  "rowMove r r' \<Longrightarrow> rw_status r' = APPROVED \<Longrightarrow> sameRequest r r' \<and> rw_status r = APPROVED \<and> rw_revision r = rw_revision r'
    \<and> rw_approvedAt r = rw_approvedAt r' \<and> rw_decidedBy r = rw_decidedBy r'"
  by (auto simp: rowMove_def keepsRun_def mayMove_approved completesWire_def)

definition keptFrom :: "int64 \<Rightarrow> request_row \<Rightarrow> task_db \<Rightarrow> bool" where
  "keptFrom i r' db \<longleftrightarrow> (\<exists>r. standing i r db \<and> sameRequest r r' \<and> rw_revision r = rw_revision r' \<and> rw_approvedAt r = rw_approvedAt r' \<and> rw_decidedBy r = rw_decidedBy r')"

lemma keptFrom_self: "standing i r' db' \<Longrightarrow> r' \<in> set (td_requests db) \<Longrightarrow> keptFrom i r' db"
  unfolding keptFrom_def by (rule exI[of _ r']) (simp add: standing_def sameRequest_def)

lemma keptFrom_only:
  assumes "onlyRow j R db db'" "standing i r' db'"
  shows "keptFrom i r' db \<or> i = j \<and> (\<exists>r. R r r')"
  using onlyRow_other[OF assms(1), of r'] assms(2) keptFrom_self[OF assms(2)] by (auto simp: standing_def split: if_splits)

lemma keptFrom_moved:
  assumes "list_all2 rowMove (td_requests db) (td_requests db')" "standing i r' db'" shows "keptFrom i r' db"
proof -
  from list_all2_set2[OF assms(1)] assms(2) obtain r where r: "r \<in> set (td_requests db)" "rowMove r r'" by (auto simp: standing_def)
  show ?thesis
    unfolding keptFrom_def
    by (rule exI[of _ r]) (use rowMove_standing[OF r(2)] r(1) assms(2) in \<open>auto simp: standing_def sameRequest_def isWorkflowApproval_def\<close>)
qed

lemma texts_results: "td_results db' = td_results db \<Longrightarrow> texts i db' = texts i db"
  by (simp add: texts_def statements_def)

lemma texts_filtered: "filter (\<lambda>q. qr_taskId q = i) (td_results db') = filter (\<lambda>q. qr_taskId q = i) (td_results db) \<Longrightarrow> texts i db' = texts i db"
  by (simp add: texts_def statements_def)

lemma other_kids: "newKids db db' j kids \<Longrightarrow> i \<noteq> j \<Longrightarrow> filter (\<lambda>q. qr_taskId q = i) kids = []"
  by (auto simp: filter_empty_conv dest: newKids_task)

lemma approval_kept:
  assumes "task_step l db db'" "wfTasks db" "standing i r' db'"
  shows "texts i db' = texts i db
    \<and> ((\<exists>t who. l = Approved i (rw_revision r') t who \<and> rw_approvedAt r' = Some t \<and> rw_decidedBy r' = Some who) \<or> keptFrom i r' db)"
  using assms
proof (induction rule: task_step.induct)
  case (moved db db')
  then show ?case using keptFrom_moved[OF moved(2)] texts_moved[OF moved(3)] by blast
next
  case (opened db db' j r kids)
  have ne: "i \<noteq> j" "r' \<in> set (td_requests db)"
    using opened(2,4,5,6,11,10) by (auto simp: standing_def opensRow_def isWorkflowApproval_def wfTasks_def keyed_def)
  have "texts i db' = texts i db"
    using opened(7) other_kids[OF opened(8) ne(1)] by (intro texts_filtered) simp
  with keptFrom_self[OF opened(11) ne(2)] show ?case by blast
next
  case (approved db db' j rev t who)
  from keptFrom_only[OF approved(2,6)] texts_results[OF approved(3)] show ?case by (auto simp: approvesRow_def)
next
  case (claimed db db' j now)
  from keptFrom_only[OF claimed(2,6)] texts_moved[OF claimed(3)] claimed(6) show ?case by (auto simp: claimsRow_def standing_def)
next
  case (edited db db' j kids)
  have "rw_status r' = APPROVED" using edited(7) by (simp add: standing_def)
  then have k: "keptFrom i r' db" using keptFrom_only[OF edited(2,7)] by (auto simp: editsRow_def)
  have ne: "i \<noteq> j"
    using onlyRow_other[OF edited(2), of r'] edited(7) by (auto simp: standing_def editsRow_def)
  then have "filter (\<lambda>q. qr_taskId q = i) (filter (\<lambda>q. qr_taskId q \<noteq> j) (td_results db)) = filter (\<lambda>q. qr_taskId q = i) (td_results db)"
    by (simp add: filter_filter) (rule filter_cong; auto)
  then have "texts i db' = texts i db"
    using edited(3) other_kids[OF edited(4) ne] by (intro texts_filtered) simp
  with k show ?case by blast
next
  case (granted db db' j r g)
  have "r' \<in> set (td_requests db)"
  proof (rule ccontr)
    assume "r' \<notin> set (td_requests db)"
    with onlyRow_other[OF granted(2), of r'] granted(14) obtain s where "sameRequest s r'" "elevatesRow s r'"
      by (auto simp: standing_def split: if_splits)
    with granted(14) show False by (simp add: elevatesRow_def standing_def isWorkflowApproval_def sameRequest_def)
  qed
  with keptFrom_self[OF granted(14)] texts_results[OF granted(3)] show ?case by blast
next
  case (removed db db' S keep)
  have r: "r' \<in> set (td_requests db)" "rw_creatorKind r' \<noteq> BY_EDITOR" "rw_id r' = i"
    using removed(2,9) by (auto simp: standing_def isWorkflowApproval_def)
  then have "filter (\<lambda>q. qr_taskId q = i) (filter keep (td_results db)) = filter (\<lambda>q. qr_taskId q = i) (td_results db)"
    using removed(6) by (simp add: filter_filter) (rule filter_cong; auto)
  then have "texts i db' = texts i db" using removed(4) by (intro texts_filtered) simp
  with keptFrom_self[OF removed(9) r(1)] show ?case by blast
qed


text \<open>A running request was running before, or is the one the step claimed.\<close>

definition running :: "request_row \<Rightarrow> task_db \<Rightarrow> bool" where
  "running r db \<longleftrightarrow> r \<in> set (td_requests db) \<and> rw_status r = EXECUTING"

definition runKept :: "request_row \<Rightarrow> task_db \<Rightarrow> bool" where
  "runKept r' db \<longleftrightarrow> (\<exists>r. running r db \<and> sameRequest r r' \<and> pc_forceRun (rw_pull r) = pc_forceRun (rw_pull r'))"

lemma mayMove_executing: "mayMove k s EXECUTING \<longleftrightarrow> s = EXECUTING"
  by (cases s) (auto simp: mayMove_def)

lemma runKept_self: "running r' db' \<Longrightarrow> r' \<in> set (td_requests db) \<Longrightarrow> runKept r' db"
  unfolding runKept_def by (rule exI[of _ r']) (simp add: running_def sameRequest_def)

lemma runKept_moved:
  assumes "list_all2 rowMove (td_requests db) (td_requests db')" "running r' db'" shows "runKept r' db"
proof -
  from list_all2_set2[OF assms(1)] assms(2) obtain r where r: "r \<in> set (td_requests db)" "rowMove r r'" by (auto simp: running_def)
  then show ?thesis
    unfolding runKept_def
    by (intro exI[of _ r]) (use assms(2) in \<open>auto simp: running_def rowMove_def keepsRun_def mayMove_executing completesWire_def unstarted_def\<close>)
qed

lemma runKept_only:
  assumes "onlyRow j R db db'" "running r' db'" "\<And>r. sameRequest r r' \<Longrightarrow> R r r' \<Longrightarrow> rw_status r' \<noteq> EXECUTING"
  shows "runKept r' db"
  using onlyRow_other[OF assms(1), of r'] assms(2,3) runKept_self[OF assms(2)] by (auto simp: running_def split: if_splits)

lemma run_origin:
  assumes "task_step l db db'" "running r' db'"
  shows "runKept r' db \<or> (\<exists>now r. l = Claimed (rw_id r') now \<and> r \<in> set (td_requests db) \<and> sameRequest r r' \<and> claimsRow (td_requests db) now r r')"
  using assms
proof (induction rule: task_step.induct)
  case (moved db db')
  then show ?case using runKept_moved by blast
next
  case (opened db db' j r kids)
  then have "r' \<in> set (td_requests db)" by (auto simp: running_def opensRow_def split: if_splits)
  then show ?case using runKept_self opened(10) by blast
next
  case (approved db db' j rev t who)
  then show ?case using runKept_only[OF approved(2,5)] by (auto simp: approvesRow_def)
next
  case (claimed db db' j now)
  then show ?case
    using onlyRow_other[OF claimed(2), of r'] runKept_self[OF claimed(5)] by (auto simp: running_def split: if_splits)
next
  case (edited db db' j kids)
  then show ?case using runKept_only[OF edited(2,6)] by (auto simp: editsRow_def)
next
  case (granted db db' j r g)
  then show ?case using runKept_only[OF granted(2,13)] by (auto simp: elevatesRow_def)
next
  case (removed db db' S keep)
  then show ?case using runKept_self[OF removed(8)] by (auto simp: running_def)
qed

text \<open>Two runs of one scope belong to one pull request, unless an administrator forced one.\<close>

definition sharesRun :: "request_row \<Rightarrow> request_row \<Rightarrow> bool" where
  "sharesRun a b \<longleftrightarrow> pc_forceRun (rw_pull a) \<or> pc_forceRun (rw_pull b)
    \<or> (fromPullRequest a \<or> fromPullRequest b) \<and> sqlEq (pc_repository (rw_pull a)) (pc_repository (rw_pull b)) \<and> sqlEq (pc_pr (rw_pull a)) (pc_pr (rw_pull b))"

definition scopeExclusive :: "task_db \<Rightarrow> bool" where
  "scopeExclusive db \<longleftrightarrow> (\<forall>a b. running a db \<and> running b db \<and> rw_id a \<noteq> rw_id b \<and> sqlEq (pc_scope (rw_pull a)) (pc_scope (rw_pull b)) \<longrightarrow> sharesRun a b)"

lemma sqlEq_sym: "sqlEq a b \<Longrightarrow> sqlEq b a"
  by (auto simp: sqlEq_def)

lemma sharesRun_sym: "sharesRun a b \<Longrightarrow> sharesRun b a"
  by (auto simp: sharesRun_def dest: sqlEq_sym)

lemma sharesRun_same:
  "sharesRun a b \<Longrightarrow> sameRequest a a' \<Longrightarrow> pc_forceRun (rw_pull a) = pc_forceRun (rw_pull a') \<Longrightarrow>
   sameRequest b b' \<Longrightarrow> pc_forceRun (rw_pull b) = pc_forceRun (rw_pull b') \<Longrightarrow> sharesRun a' b'"
  by (simp add: sharesRun_def sameRequest_def fromPullRequest_def)

lemma claim_shares:
  assumes "claimsRow (td_requests db) now r r'" "sameRequest r r'" "running b db" "rw_id b \<noteq> rw_id r" "sqlEq (pc_scope (rw_pull r)) (pc_scope (rw_pull b))"
  shows "sharesRun r' b"
proof (cases "pc_forceRun (rw_pull r)")
  case True
  then show ?thesis using assms(1) by (simp add: sharesRun_def claimsRow_def)
next
  case False
  from assms(5) obtain s where s: "pc_scope (rw_pull r) = Some s" "pc_scope (rw_pull b) = Some s"
    by (cases "pc_scope (rw_pull r)") (auto simp: sqlEq_def)
  with assms(1) False have "\<not> scopeBusy (td_requests db) s (rw_id r) (pc_repository (rw_pull r)) (pc_pr (rw_pull r)) b"
    using assms(3) by (auto simp: claimsRow_def scopeFree_def list_ex_iff running_def)
  then have "fromPullRequest b \<and> sqlEq (pc_repository (rw_pull b)) (pc_repository (rw_pull r)) \<and> sqlEq (pc_pr (rw_pull b)) (pc_pr (rw_pull r))"
    using assms(3,4) s by (auto simp: scopeBusy_def running_def)
  then show ?thesis using assms(2) by (auto simp: sharesRun_def sameRequest_def dest: sqlEq_sym)
qed

lemma claim_shares_kept:
  assumes "claimsRow (td_requests db) now r a" "sameRequest r a" "runKept b db" "rw_id a \<noteq> rw_id b" "sqlEq (pc_scope (rw_pull a)) (pc_scope (rw_pull b))"
  shows "sharesRun a b"
proof -
  from assms(3) obtain c where c: "running c db" "sameRequest c b" "pc_forceRun (rw_pull c) = pc_forceRun (rw_pull b)" by (auto simp: runKept_def)
  have "sharesRun a c"
    by (rule claim_shares[OF assms(1,2) c(1)]) (use assms(2,4,5) c(2) in \<open>auto simp: sameRequest_def\<close>)
  then show ?thesis by (rule sharesRun_same) (use c in \<open>auto simp: sameRequest_def\<close>)
qed

lemma scope_step:
  assumes st: "task_step l db db'" and inv: "scopeExclusive db" shows "scopeExclusive db'"
  unfolding scopeExclusive_def
proof (intro allI impI, elim conjE)
  fix a b assume a: "running a db'" and b: "running b db'" and ne: "rw_id a \<noteq> rw_id b" and sc: "sqlEq (pc_scope (rw_pull a)) (pc_scope (rw_pull b))"
  from run_origin[OF st a] run_origin[OF st b] show "sharesRun a b"
  proof (elim disjE exE conjE)
    assume "runKept a db" "runKept b db"
    then obtain c d where "running c db" "sameRequest c a" "pc_forceRun (rw_pull c) = pc_forceRun (rw_pull a)"
      and "running d db" "sameRequest d b" "pc_forceRun (rw_pull d) = pc_forceRun (rw_pull b)" by (auto simp: runKept_def)
    moreover from this have "sharesRun c d" using inv ne sc by (auto simp: scopeExclusive_def sameRequest_def)
    ultimately show ?thesis using sharesRun_same by blast
  next
    fix now r assume "runKept a db" "sameRequest r b" "claimsRow (td_requests db) now r b"
    then show ?thesis using claim_shares_kept[of db now r b a] ne sc sqlEq_sym sharesRun_sym by metis
  next
    fix now r assume "runKept b db" "sameRequest r a" "claimsRow (td_requests db) now r a"
    then show ?thesis using claim_shares_kept ne sc by blast
  qed (use ne in auto)
qed


text \<open>Every grant comes from an approved request for its role, and a request has one grant.\<close>

definition backs :: "request_row \<Rightarrow> grant_row \<Rightarrow> bool" where
  "backs r g \<longleftrightarrow> rw_id r = gt_requestId g \<and> rw_kind r \<noteq> QUERY \<and> rw_status r = APPROVED \<and> rw_principal r = gt_principal g \<and> rw_roleId r = Some (gt_roleId g)"

definition grantsBacked :: "task_db \<Rightarrow> bool" where
  "grantsBacked db \<longleftrightarrow> distinct (map gt_requestId (td_grants db)) \<and> (\<forall>g\<in>set (td_grants db). \<exists>r\<in>set (td_requests db). backs r g)"

lemma backs_moved: "backs r g \<Longrightarrow> rowMove r r' \<Longrightarrow> backs r' g"
  by (auto simp: backs_def rowMove_def mayMove_def completesWire_def sameRequest_def)

lemma backs_kept:
  assumes "\<exists>r\<in>set (td_requests db). backs r g" "onlyRow i R db db'" "\<And>r r'. R r r' \<Longrightarrow> sameRequest r r' \<Longrightarrow> backs r g \<Longrightarrow> backs r' g"
  shows "\<exists>r\<in>set (td_requests db'). backs r g"
proof -
  from assms(1) obtain r where r: "r \<in> set (td_requests db)" "backs r g" by blast
  from list_all2_set1[OF onlyRow_moves[OF assms(2)] r(1)] obtain r' where
    "r' \<in> set (td_requests db')" "sameRequest r r'" "if rw_id r = i then R r r' else r' = r" by blast
  with r assms(3) show ?thesis by (auto split: if_splits)
qed

lemma grantMove_backs: "grantMove g g' \<Longrightarrow> backs r g' \<longleftrightarrow> backs r g"
  by (auto simp: grantMove_def backs_def)

lemma grants_step:
  assumes "task_step l db db'" "grantsBacked db" "wfTasks db" shows "grantsBacked db'"
  using assms
proof (induction rule: task_step.induct)
  case (moved db db')
  have "map gt_requestId (td_grants db') = map gt_requestId (td_grants db)"
    using moved(4) by (auto intro!: list_all2_map_eq simp: grantMove_def)
  moreover have "\<exists>r\<in>set (td_requests db'). backs r g'" if g': "g' \<in> set (td_grants db')" for g'
  proof -
    from list_all2_set2[OF moved(4) g'] obtain g where g: "g \<in> set (td_grants db)" "grantMove g g'" by blast
    with moved(5) obtain r where "r \<in> set (td_requests db)" "backs r g" by (auto simp: grantsBacked_def)
    with list_all2_set1[OF moved(2), of r] g(2) show ?thesis using backs_moved grantMove_backs by blast
  qed
  ultimately show ?case using moved(5) by (simp add: grantsBacked_def)
next
  case (opened db db' i r kids)
  then show ?case by (auto simp: grantsBacked_def)
next
  case (approved db db' i rev t who)
  then show ?case
    using backs_kept[OF _ approved(2)] by (auto simp: grantsBacked_def approvesRow_def backs_def sameRequest_def)
next
  case (claimed db db' i now)
  then show ?case
    using backs_kept[OF _ claimed(2)] by (auto simp: grantsBacked_def claimsRow_def backs_def)
next
  case (edited db db' i kids)
  then show ?case
    using backs_kept[OF _ edited(2)] by (auto simp: grantsBacked_def editsRow_def backs_def isWorkflowApproval_def)
next
  case (granted db db' i r g)
  obtain r' where r': "r' \<in> set (td_requests db')" "sameRequest r r'" "elevatesRow r r'"
    using list_all2_set1[OF onlyRow_moves[OF granted(2)] granted(4)] granted(5) by auto
  then have new: "backs r' g" using granted(5,9,10,11) by (auto simp: backs_def elevatesRow_def sameRequest_def)
  have "\<not> backs s h" if "h \<in> set (td_grants db)" "gt_requestId h = i" "s \<in> set (td_requests db)" for s h
  proof
    assume "backs s h"
    then have "s = r" using that granted(4,5,14) wfTasks_unique by (auto simp: backs_def)
    with \<open>backs s h\<close> r'(3) show False by (simp add: backs_def elevatesRow_def)
  qed
  then have "i \<notin> set (map gt_requestId (td_grants db))" using granted(13) by (auto simp: grantsBacked_def)
  moreover have "\<exists>r\<in>set (td_requests db'). backs r h" if "h \<in> set (td_grants db)" for h
    by (rule backs_kept[OF _ granted(2)]) (use granted(13) that in \<open>auto simp: grantsBacked_def elevatesRow_def backs_def\<close>)
  ultimately show ?case using granted(6,9,13) new r'(1) by (auto simp: grantsBacked_def)
next
  case (removed db db' S keep)
  have "\<exists>r\<in>set (td_requests db'). backs r g" if g: "g \<in> set (td_grants db')" for g
  proof -
    from g removed(7) have "g \<in> set (td_grants db)" "gt_requestId g \<notin> S" by auto
    with removed(8) obtain r where "r \<in> set (td_requests db)" "backs r g" by (auto simp: grantsBacked_def)
    with \<open>gt_requestId g \<notin> S\<close> removed(2) show ?thesis by (auto simp: backs_def)
  qed
  then show ?case using removed(7,8) by (auto simp: grantsBacked_def distinct_map_filter)
qed

text \<open>How far a request has come: not started, running, or ended for good.\<close>

definition rank :: "int64 \<Rightarrow> task_db \<Rightarrow> nat" where
  "rank i db = (case getRequest i db of
     None \<Rightarrow> if i < td_requestSeq db then 2 else 0
   | Some r \<Rightarrow> if rw_status r = EXECUTING then 1 else if rw_status r \<in> {EXECUTED, FAILED, CANCELLED, DELETED, ALREADY_RAN} then 2 else 0)"

lemma mayMove_ended: "s \<in> {EXECUTED, FAILED, CANCELLED, DELETED, ALREADY_RAN} \<Longrightarrow> mayMove k s s' \<longleftrightarrow> s' = s"
  by (auto simp: mayMove_def)

lemma rank_at: "wfTasks db \<Longrightarrow> r \<in> set (td_requests db) \<Longrightarrow> rank (rw_id r) db =
    (if rw_status r = EXECUTING then 1 else if rw_status r \<in> {EXECUTED, FAILED, CANCELLED, DELETED, ALREADY_RAN} then 2 else 0)"
  by (simp add: rank_def getRequest_eq)


definition pastStart :: "request_row \<Rightarrow> bool" where
  "pastStart r \<longleftrightarrow> rw_status r \<in> {EXECUTING, EXECUTED, FAILED, CANCELLED, DELETED, ALREADY_RAN}"

lemma started_only:
  assumes "onlyRow i R db db'" "r \<in> set (td_requests db)" "pastStart r" "\<And>r'. R r r' \<Longrightarrow> False" shows "r \<in> set (td_requests db')"
  using list_all2_set1[OF onlyRow_moves[OF assms(1)] assms(2)] assms(4) by (auto split: if_splits)

lemma started_fate:
  assumes "task_step l db db'" "r \<in> set (td_requests db)" "pastStart r"
  shows "(\<exists>r'\<in>set (td_requests db'). sameRequest r r' \<and> mayMove (rw_kind r) (rw_status r) (rw_status r')) \<or> rw_id r \<notin> rw_id ` set (td_requests db')"
proof -
  have same: ?thesis if "r \<in> set (td_requests db')" using that by (auto simp: sameRequest_def mayMove_def intro!: bexI[of _ r])
  from assms show ?thesis
  proof (cases rule: task_step.cases)
    case moved
    have "\<not> completesWire r r'" for r' using assms(3) by (auto simp: completesWire_def pastStart_def)
    with list_all2_set1[OF moved(3) assms(2)] show ?thesis by (auto simp: rowMove_def)
  next
    case (opened i s kids)
    then show ?thesis using same assms(2) by simp
  next
    case (approved i rev t who)
    then show ?thesis using same started_only[OF approved(3) assms(2,3)] assms(3) by (auto simp: approvesRow_def pastStart_def)
  next
    case (claimed i now)
    then show ?thesis using same started_only[OF claimed(3) assms(2,3)] assms(3) by (auto simp: claimsRow_def pastStart_def)
  next
    case (edited i kids)
    then show ?thesis using same started_only[OF edited(3) assms(2,3)] assms(3) by (auto simp: editsRow_def pastStart_def unstarted_def)
  next
    case (granted i s g)
    then show ?thesis using same started_only[OF granted(3) assms(2,3)] assms(3) by (auto simp: elevatesRow_def pastStart_def)
  next
    case (removed S keep)
    then show ?thesis using same assms(2) by (cases "rw_id r \<in> S") auto
  qed
qed

lemma gone_stays:
  assumes "task_step l db db'" "i \<notin> rw_id ` set (td_requests db)" "i < td_requestSeq db" shows "i \<notin> rw_id ` set (td_requests db')"
proof -
  have *: "map rw_id (td_requests db') = map rw_id (td_requests db) \<Longrightarrow> ?thesis" using assms(2) by (metis set_map)
  from assms show ?thesis
    by (cases rule: task_step.cases) (use * in \<open>auto dest: rowMove_ids onlyRow_ids\<close>)
qed

lemma step_ahead: "task_step l db db' \<Longrightarrow> ahead db db'"
  by (cases rule: task_step.cases) auto

lemma mayMove_running: "mayMove k EXECUTING s' \<Longrightarrow> s' \<in> {EXECUTING, EXECUTED, FAILED, CANCELLED}"
  by (auto simp: mayMove_def)

lemma rank_step:
  assumes st: "task_step l db db'" and w: "wfTasks db" shows "rank i db \<le> rank i db'"
proof (cases "getRequest i db")
  case None
  then have i: "i \<notin> rw_id ` set (td_requests db)" by (simp add: getRequest_none)
  show ?thesis
  proof (cases "i < td_requestSeq db")
    case True
    with gone_stays[OF st i] step_ahead[OF st] have "getRequest i db' = None" "i < td_requestSeq db'" by (auto simp: getRequest_none ahead_def)
    then show ?thesis using None by (simp add: rank_def)
  qed (simp add: rank_def None)
next
  case (Some r)
  then have r: "r \<in> set (td_requests db)" "rw_id r = i" using getRequest_in by auto
  have lt: "i < td_requestSeq db'" using r w step_ahead[OF st] by (auto simp: wfTasks_def keyed_def ahead_def)
  show ?thesis
  proof (cases "pastStart r")
    case False
    then show ?thesis using Some by (simp add: rank_def pastStart_def)
  next
    case True
    from started_fate[OF st r(1) True] show ?thesis
    proof
      assume "rw_id r \<notin> rw_id ` set (td_requests db')"
      then show ?thesis using r(2) lt Some by (simp add: rank_def getRequest_none[THEN iffD2])
    next
      assume "\<exists>r'\<in>set (td_requests db'). sameRequest r r' \<and> mayMove (rw_kind r) (rw_status r) (rw_status r')"
      then obtain r' where r': "r' \<in> set (td_requests db')" "sameRequest r r'" "mayMove (rw_kind r) (rw_status r) (rw_status r')" by blast
      have e: "rank i db' = (if rw_status r' = EXECUTING then 1 else if rw_status r' \<in> {EXECUTED, FAILED, CANCELLED, DELETED, ALREADY_RAN} then 2 else 0)"
        using rank_at[OF wf_step[OF st w] r'(1)] r'(2) r(2) by (simp add: sameRequest_def)
      show ?thesis
      proof (cases "rw_status r = EXECUTING")
        case True
        with r'(3) have "rw_status r' \<in> {EXECUTING, EXECUTED, FAILED, CANCELLED}" using mayMove_running by simp
        then show ?thesis using e True Some by (auto simp: rank_def)
      next
        case False
        with \<open>pastStart r\<close> have "rw_status r \<in> {EXECUTED, FAILED, CANCELLED, DELETED, ALREADY_RAN}" by (auto simp: pastStart_def)
        with r'(3) have "rw_status r' = rw_status r" using mayMove_ended by blast
        then show ?thesis using e Some by (simp add: rank_def)
      qed
    qed
  qed
qed

end
