(* ===== verification/Approvals.thy ===== *)
theory Approvals
  imports TaskMachine
begin

text \<open>
  The services over the task store (\<^verbatim>\<open>ApprovalService.kt\<close>, \<^verbatim>\<open>AccessService.kt\<close>,
  \<^verbatim>\<open>RequestThreads.kt\<close>, \<^verbatim>\<open>RoleResolver.kt\<close>): who may open, approve, reject, change, stop, run
  or force a request, decided by Cedar on the stored row, and what a decision then does. The last part lets any
  sequence of these calls, of the runs and of the sweeps follow one another from an empty store.
\<close>

subsection \<open>Roles of a principal\<close>

text \<open>The directory of users is a parameter: who is deactivated, and the roles and groups it assigns.\<close>

record directory =
  dy_isDeactivated :: "string \<Rightarrow> bool"
  dy_directRoles :: "string \<Rightarrow> string list"
  dy_groupParents :: "string \<Rightarrow> user_parents"

definition effectiveRoles :: "string list \<Rightarrow> string list \<Rightarrow> string list \<Rightarrow> string list" where
  "effectiveRoles base grants groups = distinctList (base @ grants @ groups)"

definition resolveParents :: "directory \<Rightarrow> int \<Rightarrow> task_db \<Rightarrow> string \<Rightarrow> user_parents" where
  "resolveParents dy now db who =
    (if dy_isDeactivated dy who then \<lparr>up_roles = [], up_groups = [], up_attributes = []\<rparr>
     else (let viaGroups = dy_groupParents dy who in
       viaGroups\<lparr>up_roles := effectiveRoles (dy_directRoles dy who) (map snd (listGrants now (Some who) True db)) (up_roles viaGroups)\<rparr>))"

subsection \<open>Authorization of a task action\<close>

definition callContext :: "string option \<Rightarrow> string \<Rightarrow> authz_context" where
  "callContext ip channel = \<lparr>ax_networkZones = [], ax_channel = Some channel, ax_requesterIp = ip, ax_tags = [], ax_stmtKind = None,
     ax_masked = None, ax_nativeOperation = None\<rparr>"

text \<open>
  The Cedar decision on a stored request, with the roles the caller holds at that time. Results can be stored only when a
  key is configured.
\<close>

record services =
  sv_engine :: cedar_engine
  sv_directory :: directory
  sv_resultStorage :: bool

definition mayOn :: "services \<Rightarrow> int \<Rightarrow> task_db \<Rightarrow> string \<Rightarrow> authz_context \<Rightarrow> authz_action \<Rightarrow> request_row \<Rightarrow> bool" where
  "mayOn sv now db who ctx action r \<longleftrightarrow>
    authorizeWithContext (sv_engine sv) (resolveParents (sv_directory sv) now db) who action (toApprovalResource db r) ctx
      (map_option ts_name (datasourceOf db r)) (case datasourceOf db r of None \<Rightarrow> [] | Some d \<Rightarrow> ts_tags d) = Allow"

definition mayDecide :: "services \<Rightarrow> int \<Rightarrow> task_db \<Rightarrow> string \<Rightarrow> string option \<Rightarrow> authz_action \<Rightarrow> request_row \<Rightarrow> string \<Rightarrow> bool" where
  "mayDecide sv now db who ip action r channel \<longleftrightarrow> mayOn sv now db who (callContext ip channel) action r"

definition mayRequestOn :: "services \<Rightarrow> int \<Rightarrow> task_db \<Rightarrow> string \<Rightarrow> string option \<Rightarrow> task_datasource \<Rightarrow> bool" where
  "mayRequestOn sv now db who ip ds \<longleftrightarrow>
    (let ps = resolveParents (sv_directory sv) now db who;
         raw = (callContext ip [])\<lparr>ax_channel := None\<rparr>;
         tags = resolveContextTags (sv_engine sv) who ps (ts_name ds) raw (ts_tags ds)
     in authorizeDatasourceAction (sv_engine sv) (User who ps) TASK_REQUEST (ts_name ds) (raw\<lparr>ax_tags := tags\<rparr>) (ts_tags ds) = Allow)"

subsection \<open>Errors\<close>

definition serviceNotFound :: task_error where "serviceNotFound = ServiceError 404 ''common.not_found''"
definition alreadyDecided :: task_error where "alreadyDecided = ServiceError 409 ''approval.already_decided''"
definition requestChanged :: task_error where "requestChanged = ServiceError 409 ''approval.request_changed''"
definition notEditable :: task_error where "notEditable = ServiceError 409 ''approval.not_editable''"
definition alreadyExecuted :: task_error where "alreadyExecuted = ServiceError 409 ''approval.already_executed''"
definition notApprover :: task_error where "notApprover = ServiceError 403 ''approval.not_approver''"
definition notApproved :: task_error where "notApproved = ServiceError 409 ''approval.not_approved''"
definition fieldRequired :: task_error where "fieldRequired = ServiceError 400 ''common.field_required''"

definition workflowRequest :: "int64 \<Rightarrow> request_row tx" where
  "workflowRequest i db =
    (case getRequest i db of None \<Rightarrow> (Inl serviceNotFound, db)
     | Some r \<Rightarrow> if isWorkflowApproval r then (Inr r, db) else (Inl serviceNotFound, db))"

definition guardTx :: "bool \<Rightarrow> task_error \<Rightarrow> unit tx" where
  "guardTx b e = (if b then pureTx () else failTx e)"

definition readTx :: "(task_db \<Rightarrow> 'a) \<Rightarrow> 'a tx" where
  "readTx f db = (Inr (f db), db)"

text \<open>A call that queues no notification.\<close>

definition noHook :: "tx_env \<Rightarrow> tx_env" where
  "noHook ev = ev\<lparr>tx_hook := True\<rparr>"

subsection \<open>Deciding query requests\<close>

definition approveQuery :: "services \<Rightarrow> tx_env \<Rightarrow> string \<Rightarrow> string option \<Rightarrow> audit_actor \<Rightarrow> int64 \<Rightarrow> int \<Rightarrow> channel \<Rightarrow> unit tx" where
  "approveQuery sv ev who ip actr i revision ch =
    bindTx (workflowRequest i) (\<lambda>r.
    bindTx (guardTx (rw_status r = PENDING) alreadyDecided) (\<lambda>_.
    bindTx (readTx (\<lambda>db. mayDecide sv (tx_now ev) db who ip TASK_APPROVE r (contextValue ch))) (\<lambda>may.
    bindTx (guardTx may notApprover) (\<lambda>_.
    bindTx (guardTx (rw_revision r = revision) requestChanged) (\<lambda>_.
    bindTx (decideAudited ev i True None who actr revision None) (\<lambda>won.
    if won then pureTx ()
    else (\<lambda>db. (Inl (if map_option rw_status (getRequest i db) = Some PENDING then requestChanged else alreadyDecided), db))))))))"

definition rejectQuery :: "services \<Rightarrow> tx_env \<Rightarrow> string \<Rightarrow> string option \<Rightarrow> audit_actor \<Rightarrow> int64 \<Rightarrow> string \<Rightarrow> channel \<Rightarrow> unit tx" where
  "rejectQuery sv ev who ip actr i reason ch =
    bindTx (guardTx (\<not> isBlank reason) fieldRequired) (\<lambda>_.
    bindTx (workflowRequest i) (\<lambda>r.
    bindTx (guardTx (unstarted r) alreadyDecided) (\<lambda>_.
    bindTx (readTx (\<lambda>db. mayDecide sv (tx_now ev) db who ip TASK_APPROVE r (contextValue ch))) (\<lambda>may.
    bindTx (guardTx may notApprover) (\<lambda>_.
    bindTx (decideAudited ev i False (Some (ktTrim reason)) who actr (rw_revision r) None) (\<lambda>won.
    guardTx won alreadyDecided))))))"

definition approveFromReview :: "services \<Rightarrow> tx_env \<Rightarrow> string \<Rightarrow> int64 \<Rightarrow> string \<Rightarrow> bool tx" where
  "approveFromReview sv ev who i reviewId db =
    (case getRequest i db of
       None \<Rightarrow> (Inr False, db)
     | Some r \<Rightarrow>
        if \<not> (isWorkflowApproval r \<and> rw_status r = PENDING) \<or> \<not> mayDecide sv (tx_now ev) db who None TASK_APPROVE r (contextValue GITHUB) then (Inr False, db)
        else decideAudited ev i True None who \<lparr>aa_principal = who, aa_channel = contextValue GITHUB\<rparr> (rw_revision r) (Some reviewId) db)"

definition withdrawApproval :: "tx_env \<Rightarrow> int64 \<Rightarrow> bool tx" where
  "withdrawApproval ev i db =
    (case getRequest i db of
       None \<Rightarrow> (Inr False, db)
     | Some r \<Rightarrow> reopenQueryRequest (noHook ev) i \<lparr>aa_principal = theDefault ''github'' (rw_decidedBy r), aa_channel = contextValue GITHUB\<rparr> EV_WITHDRAWN db)"

definition unapprove :: "services \<Rightarrow> tx_env \<Rightarrow> string \<Rightarrow> string option \<Rightarrow> audit_actor \<Rightarrow> int64 \<Rightarrow> channel \<Rightarrow> unit tx" where
  "unapprove sv ev who ip actr i ch =
    bindTx (workflowRequest i) (\<lambda>r.
    bindTx (readTx (\<lambda>db. mayDecide sv (tx_now ev) db who ip TASK_APPROVE r (contextValue ch))) (\<lambda>may.
    bindTx (guardTx may notApprover) (\<lambda>_.
    bindTx (guardTx (rw_status r = APPROVED \<and> \<not> fromPullRequest r) notApproved) (\<lambda>_.
    bindTx (reopenQueryRequest ev i actr EV_UNAPPROVED) (\<lambda>won. guardTx won notApproved)))))"

definition SYSTEM_ACTOR :: audit_actor where "SYSTEM_ACTOR = \<lparr>aa_principal = ''system'', aa_channel = SYSTEM_ORIGIN\<rparr>"

text \<open>The sweep: one transaction for each expired approval, until one of them throws.\<close>

fun reopenEach :: "(int64 \<Rightarrow> tx_env) \<Rightarrow> int64 list \<Rightarrow> unit tx" where
  "reopenEach ev [] = pureTx ()"
| "reopenEach ev (i # is) = bindTx (reopenQueryRequest (ev i) i SYSTEM_ACTOR EV_EXPIRED) (\<lambda>_. reopenEach ev is)"

definition expireApprovals :: "int \<Rightarrow> (int64 \<Rightarrow> tx_env) \<Rightarrow> unit tx" where
  "expireApprovals now ev db = reopenEach ev (expiredApprovals now db) db"

subsection \<open>Changing and stopping requests\<close>

text \<open>
  The normalizer and the splitter of the analyzer, and the preview it gives, are parameters: the grant hash of a text, its
  statements, and the deny reason, verdict and literal hint of a batch.
\<close>

record analysis =
  an_contentHash :: "string \<Rightarrow> string option"
  an_split :: "string \<Rightarrow> string list option"
  an_preview :: "string list \<Rightarrow> string option \<times> string option \<times> bool option"

definition hasSql :: "analysis \<Rightarrow> request_row \<Rightarrow> string \<Rightarrow> bool" where
  "hasSql an r sql \<longleftrightarrow> sqlEq (rx_contentHash (rw_text r)) (an_contentHash an sql) \<or> rx_rawHash (rw_text r) = Some (sha256Hex sql)"

definition revise :: "analysis \<Rightarrow> tx_env \<Rightarrow> request_row \<Rightarrow> string \<Rightarrow> string list \<Rightarrow> string option \<Rightarrow> string option \<Rightarrow> audit_actor \<Rightarrow> request_origin option \<Rightarrow> bool tx" where
  "revise an ev r sql sqls title reason actr origin =
    (if hasSql an r sql then editQueryRequestDetails ev (rw_id r) title reason actr (map_option og_pullRequest origin)
     else case an_preview an sqls of (denyReason, evaluated, literal) \<Rightarrow>
       editQueryRequest ev (rw_id r) sqls
         \<lparr>et_contentHash = an_contentHash an sql, et_rawHash = sha256Hex sql, et_denyReason = denyReason, et_evaluatedDecision = evaluated,
          et_carriesProtectedLiteral = literal, et_title = title, et_reason = reason, et_origin = origin\<rparr> actr)"

definition trimmedTitle :: "string option \<Rightarrow> string option" where
  "trimmedTitle t = (case t of None \<Rightarrow> None | Some s \<Rightarrow> if ktTrim s = [] then None else Some (ktTrim s))"

definition edit :: "services \<Rightarrow> analysis \<Rightarrow> tx_env \<Rightarrow> string \<Rightarrow> string option \<Rightarrow> audit_actor \<Rightarrow> int64 \<Rightarrow> string \<Rightarrow> string option \<Rightarrow> string option \<Rightarrow> unit tx" where
  "edit sv an ev who ip actr i sql title reason =
    bindTx (workflowRequest i) (\<lambda>r.
    bindTx (guardTx (rw_principal r = who) (ServiceError 403 ''approval.edit_forbidden'')) (\<lambda>_.
    bindTx (guardTx (\<not> fromPullRequest r) (ServiceError 409 ''approval.github_edit_by_push'')) (\<lambda>_.
    bindTx (guardTx (unstarted r) notEditable) (\<lambda>_.
    bindTx (guardTx (\<not> isBlank sql) fieldRequired) (\<lambda>_.
    bindTx (guardTx (case reason of None \<Rightarrow> True | Some s \<Rightarrow> \<not> isBlank s) fieldRequired) (\<lambda>_.
    bindTx (readTx (\<lambda>db. liveDatasource db (rw_datasourceId r))) (\<lambda>ds.
    case ds of None \<Rightarrow> failTx serviceNotFound
    | Some d \<Rightarrow>
        bindTx (readTx (\<lambda>db. mayRequestOn sv (tx_now ev) db who ip d)) (\<lambda>may.
        bindTx (guardTx may (ServiceError 403 ''common.forbidden'')) (\<lambda>_.
        case an_split an sql of
          None \<Rightarrow> failTx (ServiceError 400 ''approval.unsplittable_sql'')
        | Some sqls \<Rightarrow>
            bindTx (guardTx (sqls \<noteq> []) (ServiceError 400 ''approval.unsplittable_sql'')) (\<lambda>_.
            bindTx (revise an ev r sql sqls (trimmedTitle title) (map_option ktTrim reason) actr None) (\<lambda>won.
            guardTx won notEditable)))))))))))"

text \<open>A pull request's file, as of a new filing.\<close>

definition editFromPullRequest :: "analysis \<Rightarrow> tx_env \<Rightarrow> request_row \<Rightarrow> string \<Rightarrow> string list \<Rightarrow> request_origin \<Rightarrow> audit_actor \<Rightarrow> bool \<Rightarrow> unit tx" where
  "editFromPullRequest an ev r sql sqls origin actr alreadyRan =
    bindTx (readTx (\<lambda>db. liveDatasource db (rw_datasourceId r))) (\<lambda>ds.
    bindTx (guardTx (ds \<noteq> None) serviceNotFound) (\<lambda>_.
    bindTx (revise an (if alreadyRan then noHook ev else ev) r sql sqls (pr_path (og_pullRequest origin)) None actr (Some origin)) (\<lambda>won.
    bindTx (if won \<and> alreadyRan then endUnstarted (rw_id r) ALREADY_RAN else pureTx won) (\<lambda>_.
    bindTx (workflowRequest (rw_id r)) (\<lambda>_. pureTx ())))))"

definition forceRunQuery :: "services \<Rightarrow> tx_env \<Rightarrow> string \<Rightarrow> string option \<Rightarrow> audit_actor \<Rightarrow> int64 \<Rightarrow> unit tx" where
  "forceRunQuery sv ev who ip actr i =
    bindTx (workflowRequest i) (\<lambda>r.
    bindTx (readTx (\<lambda>db. mayDecide sv (tx_now ev) db who ip TASK_FORCE_RUN r (contextValue WORKFLOW_VIEWER))) (\<lambda>may.
    bindTx (guardTx may notApprover) (\<lambda>_.
    bindTx (guardTx (rw_status r \<notin> {EXECUTING, EXECUTED, FAILED, CANCELLED}) alreadyExecuted) (\<lambda>_.
    bindTx (guardTx (fromPullRequest r \<and> unstarted r) alreadyDecided) (\<lambda>_.
    if pc_forceRun (rw_pull r) then pureTx () else bindTx (forceRun ev i who actr) (\<lambda>_. bindTx (workflowRequest i) (\<lambda>_. pureTx ())))))))"

definition closeThread :: "services \<Rightarrow> tx_env \<Rightarrow> string \<Rightarrow> string option \<Rightarrow> audit_actor \<Rightarrow> int64 \<Rightarrow> channel \<Rightarrow> unit tx" where
  "closeThread sv ev who ip actr i ch db =
    (case getRequest i db of
       None \<Rightarrow> (Inl serviceNotFound, db)
     | Some r \<Rightarrow>
        if rw_creatorKind r \<noteq> BY_WORKFLOW then (Inl serviceNotFound, db)
        else if \<not> mayDecide sv (tx_now ev) db who ip TASK_CANCEL r (contextValue ch) then (Inl (ServiceError 403 ''approval.cancel_forbidden''), db)
        else if \<not> closable r then (Inl (ServiceError 409 ''approval.not_cancelable''), db)
        else bindTx (closeRequest ev i actr) (\<lambda>won. guardTx won (ServiceError 409 ''approval.not_cancelable'')) db)"

definition comment :: "services \<Rightarrow> tx_env \<Rightarrow> string \<Rightarrow> string option \<Rightarrow> audit_actor \<Rightarrow> int64 \<Rightarrow> string option \<Rightarrow> bool \<Rightarrow> channel \<Rightarrow> string option \<Rightarrow> string option \<Rightarrow> unit tx" where
  "comment sv ev who ip actr i body lgtm ch thread slackRef =
    (let txt = trimmedTitle body in
     bindTx (guardTx (lgtm \<or> txt \<noteq> None) fieldRequired) (\<lambda>_.
     bindTx (guardTx (case txt of None \<Rightarrow> True | Some s \<Rightarrow> length (utf16_Encode (decodeRunes s)) \<le> 4000) (ServiceError 400 ''approval.comment_too_long'')) (\<lambda>_.
     bindTx (readTx (getRequest i)) (\<lambda>r.
     case r of None \<Rightarrow> failTx serviceNotFound
     | Some r \<Rightarrow>
       bindTx (guardTx (rw_creatorKind r = BY_WORKFLOW) serviceNotFound) (\<lambda>_.
       bindTx (readTx (\<lambda>db. mayDecide sv (tx_now ev) db who ip TASK_COMMENT r (contextValue ch))) (\<lambda>may.
       bindTx (guardTx may (ServiceError 403 ''approval.comment_forbidden'')) (\<lambda>_.
       bindTx (inTx (recordEvent i (if lgtm then EV_LGTM else EV_COMMENT) (Some who) (aa_channel actr) txt thread slackRef None)) (\<lambda>e.
       guardTx (e \<noteq> None) serviceNotFound))))))))"


definition changeCc :: "tx_env \<Rightarrow> string \<Rightarrow> audit_actor \<Rightarrow> int64 \<Rightarrow> string \<Rightarrow> bool \<Rightarrow> string list \<Rightarrow> unit tx" where
  "changeCc ev who actr i cc add ccs = inTx
    (bindTx (\<lambda>db. if add then (Inr (cc \<notin> set ccs), if cc \<notin> set ccs then addParticipant i cc CC db else db)
        else (Inr ((i, cc, CC) \<in> set (td_participants db)), db\<lparr>td_participants := filter (\<lambda>p. p \<noteq> (i, cc, CC)) (td_participants db)\<rparr>)) (\<lambda>changed.
     if changed then
       bindTx (recordEvent i (if add then EV_CC_ADDED else EV_CC_REMOVED) (Some who) (aa_channel actr) (Some cc) None None None) (\<lambda>_. runHook ev)
     else pureTx ()))"

definition setCc :: "services \<Rightarrow> tx_env \<Rightarrow> string list \<Rightarrow> (string \<rightharpoonup> string) \<Rightarrow> string \<Rightarrow> string option \<Rightarrow> audit_actor \<Rightarrow> int64 \<Rightarrow> string \<Rightarrow> bool \<Rightarrow> channel \<Rightarrow> unit tx" where
  "setCc sv ev active byEmail caller ip actr i who add ch =
    bindTx (readTx (getRequest i)) (\<lambda>r.
    case r of None \<Rightarrow> failTx serviceNotFound
    | Some r \<Rightarrow>
      bindTx (guardTx (rw_creatorKind r = BY_WORKFLOW) serviceNotFound) (\<lambda>_.
      bindTx (readTx (\<lambda>db. mayDecide sv (tx_now ev) db caller ip TASK_CC r (contextValue ch))) (\<lambda>may.
      bindTx (guardTx may (ServiceError 403 ''approval.cc_forbidden'')) (\<lambda>_.
      bindTx (readTx (\<lambda>db. ccsOf db r)) (\<lambda>ccs.
      case (if ktTrim who \<in> set active then Some (ktTrim who) else byEmail (ktTrim who)) of
        None \<Rightarrow> if add then failTx (ServiceError 400 ''approval.unknown_user'') else changeCc ev caller actr i (ktTrim who) add ccs
      | Some cc \<Rightarrow>
          bindTx (guardTx (\<not> (add \<and> cc = rw_principal r)) (ServiceError 400 ''approval.cc_requester'')) (\<lambda>_.
          changeCc ev caller actr i cc add ccs))))))"

subsection \<open>Running and stopping\<close>

definition liveRoleNames :: "task_db \<Rightarrow> string list \<Rightarrow> string list" where
  "liveRoleNames db names = filter (\<lambda>n. list_ex (\<lambda>l. rl_name l = n \<and> \<not> rl_deleted l) (td_roles db)) names"

definition claimApproved :: "services \<Rightarrow> tx_env \<Rightarrow> string \<Rightarrow> string \<Rightarrow> request_row \<Rightarrow> result_row tx" where
  "claimApproved sv ev executor origin r =
    bindTx (guardTx (sv_resultStorage sv) (ServiceError 503 ''approval.result_storage_not_configured'')) (\<lambda>_.
    bindTx (readTx (\<lambda>db. liveDatasource db (rw_datasourceId r))) (\<lambda>ds.
    bindTx (guardTx (ds \<noteq> None) (ServiceError 409 ''common.not_found'')) (\<lambda>_.
    bindTx (readTx (\<lambda>db. list_ex (\<lambda>q. qr_sql q \<noteq> None) (statements (rw_id r) db))) (\<lambda>has.
    bindTx (guardTx has (ServiceError 409 ''approval.no_sql'')) (\<lambda>_.
    bindTx (readTx (\<lambda>db. liveRoleNames db (rw_executeAs r))) (\<lambda>executeAs.
    bindTx (guardTx (executeAs \<noteq> []) (ServiceError 409 ''approval.no_execute_role'')) (\<lambda>_.
    bindTx (claimAndStartRun (rw_id r) executor origin (claimExecution ev (rw_id r))) (\<lambda>claimed.
    case claimed of None \<Rightarrow> failTx alreadyExecuted | Some q \<Rightarrow> pureTx q))))))))"

definition approvalExpired :: "int \<Rightarrow> request_row \<Rightarrow> bool" where
  "approvalExpired now r \<longleftrightarrow> \<not> fromPullRequest r \<and> (case rw_approvedAt r of None \<Rightarrow> False | Some t \<Rightarrow> t < now - APPROVAL_TTL)"

definition execute :: "services \<Rightarrow> tx_env \<Rightarrow> string \<Rightarrow> string option \<Rightarrow> int64 \<Rightarrow> channel \<Rightarrow> result_row tx" where
  "execute sv ev executor ip i ch =
    bindTx (workflowRequest i) (\<lambda>r.
    bindTx (readTx (\<lambda>db. mayDecide sv (tx_now ev) db executor ip TASK_RUN r (contextValue ch))) (\<lambda>may.
    bindTx (guardTx may (ServiceError 403 ''approval.not_runner'')) (\<lambda>_.
    bindTx (guardTx (\<not> fromPullRequest r) (ServiceError 409 ''approval.github_runs_on_merge'')) (\<lambda>_.
    bindTx (guardTx (rw_status r \<notin> {EXECUTING, EXECUTED, FAILED, CANCELLED}) alreadyExecuted) (\<lambda>_.
    bindTx (guardTx (rw_status r = APPROVED) notApproved) (\<lambda>_.
    bindTx (guardTx (\<not> approvalExpired (tx_now ev) r) (ServiceError 409 ''approval.expired'')) (\<lambda>_.
    claimApproved sv ev executor (contextValue ch) r)))))))"

definition runOnMerge :: "services \<Rightarrow> tx_env \<Rightarrow> string \<Rightarrow> int64 \<Rightarrow> result_row tx" where
  "runOnMerge sv ev executor i =
    bindTx (workflowRequest i) (\<lambda>r.
    bindTx (guardTx (rw_status r \<notin> {EXECUTING, EXECUTED, FAILED, CANCELLED}) alreadyExecuted) (\<lambda>_.
    bindTx (guardTx (rw_status r = APPROVED) notApproved) (\<lambda>_.
    claimApproved sv ev executor (contextValue GITHUB) r)))"

text \<open>The row the lifecycle leaves on the audit trail; the trail itself is the subject of \<^verbatim>\<open>AuditWriter\<close>.\<close>

definition lifecycleRecord :: "tx_env \<Rightarrow> unit tx" where
  "lifecycleRecord ev = guardTx (tx_audit ev) AuditFailure"

definition cancelHook :: "tx_env \<Rightarrow> int64 \<Rightarrow> unit tx" where
  "cancelHook ev i = bindTx (markCancelled i) (\<lambda>won. bindTx (guardTx won IllegalState) (\<lambda>_. lifecycleRecord ev))"

definition cancel :: "services \<Rightarrow> tx_env \<Rightarrow> string \<Rightarrow> string option \<Rightarrow> audit_actor \<Rightarrow> int64 \<Rightarrow> channel \<Rightarrow> unit tx" where
  "cancel sv ev who ip actr i ch =
    bindTx (workflowRequest i) (\<lambda>r.
    bindTx (readTx (\<lambda>db. mayDecide sv (tx_now ev) db who ip TASK_CANCEL r (contextValue ch))) (\<lambda>may.
    bindTx (guardTx may (ServiceError 403 ''approval.cancel_forbidden'')) (\<lambda>_.
    case rw_status r of
      EXECUTED \<Rightarrow> pureTx () | FAILED \<Rightarrow> pureTx () | CANCELLED \<Rightarrow> pureTx ()
    | EXECUTING \<Rightarrow>
        bindTx (guardTx (sv_resultStorage sv) (ServiceError 503 ''approval.result_storage_not_configured'')) (\<lambda>_.
        bindTx (cancelRun ev i (cancelHook ev i)) (\<lambda>_. pureTx ()))
    | PENDING \<Rightarrow> closeThread sv ev who ip actr i ch
    | APPROVED \<Rightarrow> closeThread sv ev who ip actr i ch
    | _ \<Rightarrow> failTx (ServiceError 409 ''approval.not_cancelable''))))"

subsection \<open>Role requests and grants\<close>

definition requestRole :: "services \<Rightarrow> tx_env \<Rightarrow> string \<Rightarrow> string option \<Rightarrow> audit_actor \<Rightarrow> access_request_input \<Rightarrow> string \<Rightarrow> int64 tx" where
  "requestRole sv ev who ip actr input source db =
    (let ds = liveDatasource db (ai_datasourceId input) in
     if ai_datasourceId input \<noteq> None \<and> ds = None then (Inl serviceNotFound, db)
     else if (case ds of None \<Rightarrow> False | Some d \<Rightarrow> \<not> mayRequestOn sv (tx_now ev) db who ip d) then (Inl (ServiceError 403 ''approval.request_not_permitted''), db)
     else createRequest ev who input actr source db)"

definition requireApprover :: "services \<Rightarrow> tx_env \<Rightarrow> string \<Rightarrow> string option \<Rightarrow> int64 \<Rightarrow> channel \<Rightarrow> request_row tx" where
  "requireApprover sv ev who ip i ch db =
    (case getRequest i db of
       None \<Rightarrow> (Inl serviceNotFound, db)
     | Some r \<Rightarrow>
        if rw_kind r = QUERY then (Inl (ServiceError 400 ''approval.use_query_approval_endpoint''), db)
        else if \<not> mayDecide sv (tx_now ev) db who ip TASK_APPROVE r (contextValue ch) then (Inl notApprover, db)
        else (Inr r, db))"

definition approveRole :: "services \<Rightarrow> tx_env \<Rightarrow> string \<Rightarrow> string option \<Rightarrow> audit_actor \<Rightarrow> int64 \<Rightarrow> int64 option \<Rightarrow> channel \<Rightarrow> request_row tx" where
  "approveRole sv ev who ip actr i secs ch =
    bindTx (requireApprover sv ev who ip i ch) (\<lambda>_.
    bindTx (approveAudited ev i secs who actr) (\<lambda>after.
    case after of None \<Rightarrow> failTx serviceNotFound | Some r \<Rightarrow> pureTx r))"

definition rejectRole :: "services \<Rightarrow> tx_env \<Rightarrow> string \<Rightarrow> string option \<Rightarrow> audit_actor \<Rightarrow> int64 \<Rightarrow> string \<Rightarrow> channel \<Rightarrow> request_row tx" where
  "rejectRole sv ev who ip actr i reason ch =
    bindTx (requireApprover sv ev who ip i ch) (\<lambda>_.
    bindTx (rejectAudited ev i reason who actr) (\<lambda>after.
    case after of None \<Rightarrow> failTx serviceNotFound | Some r \<Rightarrow> pureTx r))"

definition revokeGrant :: "services \<Rightarrow> tx_env \<Rightarrow> string \<Rightarrow> string option \<Rightarrow> audit_actor \<Rightarrow> int64 \<Rightarrow> unit tx" where
  "revokeGrant sv ev who ip actr i db =
    (case getGrant i db of
       None \<Rightarrow> (Inl serviceNotFound, db)
     | Some g \<Rightarrow>
        if authorize (sv_engine sv) (resolveParents (sv_directory sv) (tx_now ev) db) who GRANT_REVOKE
             (AccessGrant \<lparr>ag_owner = gt_principal g, ag_id = i, ag_datasource = None,
                ag_role = map_option rl_name (find (\<lambda>l. rl_id l = gt_roleId g \<and> \<not> rl_deleted l) (td_roles db))\<rparr>)
             ((callContext ip [])\<lparr>ax_channel := None\<rparr>) \<noteq> Allow
        then (Inl (ServiceError 403 ''common.forbidden''), db)
        else bindTx (revokeAudited ev i actr) (\<lambda>won. guardTx won serviceNotFound) db)"

subsection \<open>Editor tasks\<close>

definition isEditorTaskOf :: "string \<Rightarrow> request_row \<Rightarrow> bool" where
  "isEditorTaskOf who r \<longleftrightarrow> rw_kind r = QUERY \<and> rw_creatorKind r = BY_EDITOR \<and> rw_principal r = who"

definition deleteEditor :: "string \<Rightarrow> int64 \<Rightarrow> bool tx" where
  "deleteEditor who i db =
    (case getRequest i db of
       None \<Rightarrow> (Inr False, db)
     | Some r \<Rightarrow> if \<not> isEditorTaskOf who r then (Inr False, db)
         else bindTx (deleteResultsForTask i) (\<lambda>_. deleteEditorTask i who) db)"

definition cancelEditor :: "services \<Rightarrow> tx_env \<Rightarrow> string \<Rightarrow> string option \<Rightarrow> int64 \<Rightarrow> unit tx" where
  "cancelEditor sv ev who ip i db =
    (case getRequest i db of
       None \<Rightarrow> (Inl serviceNotFound, db)
     | Some r \<Rightarrow> if \<not> isEditorTaskOf who r then (Inl serviceNotFound, db)
         else if \<not> mayOn sv (tx_now ev) db who ((callContext ip [])\<lparr>ax_channel := None\<rparr>) TASK_CANCEL r then (Inl (ServiceError 403 ''approval.cancel_forbidden''), db)
         else if rw_status r \<noteq> EXECUTING then (Inr (), db)
         else if \<not> sv_resultStorage sv then (Inl (ServiceError 503 ''approval.result_storage_not_configured''), db)
         else bindTx (cancelRun ev i (bindTx (markCancelled i) (\<lambda>won. guardTx won IllegalState))) (\<lambda>_. pureTx ()) db)"


subsection \<open>Wire tasks\<close>

text \<open>
  The proxy reports how a decided statement ended, with gRPC's status codes for what it refuses. Whether the trail holds the
  decision is a parameter, and so is the outcome of the insert of the completion event.
\<close>

definition completionOutcomes :: "string list" where
  "completionOutcomes = [''ok'', ''error'', ''canceled'']"

definition settleTask :: "tx_env \<Rightarrow> string \<Rightarrow> int64 \<Rightarrow> unit tx" where
  "settleTask ev outcome i =
    bindTx (updateRequests (\<lambda>r. rw_id r = i \<and> rw_kind r = QUERY \<and> rw_status r = APPROVED)
      (\<lambda>r. r\<lparr>rw_status := EXECUTING, rw_executingAt := Some (tx_now ev)\<rparr>)) (\<lambda>claimed.
    if \<not> claimed then pureTx ()
    else bindTx (updateRequests (\<lambda>r. rw_id r = i \<and> rw_kind r = QUERY \<and> rw_status r = EXECUTING)
      (\<lambda>r. if outcome = ''ok'' then r\<lparr>rw_status := EXECUTED, rw_executedAt := Some (tx_now ev)\<rparr> else r\<lparr>rw_status := FAILED\<rparr>)) (\<lambda>settled.
      guardTx settled IllegalState))"

definition reportCompletion :: "tx_env \<Rightarrow> (int64 \<Rightarrow> bool) \<Rightarrow> int64 \<Rightarrow> string \<Rightarrow> unit tx" where
  "reportCompletion ev known d outcome db =
    (if d = 0 \<or> outcome \<notin> set completionOutcomes then (Inl (ServiceError 3 ''InvalidArgument''), db)
     else if \<not> known d then (Inl (ServiceError 5 ''NotFound''), db)
     else inTx (bindTx (lifecycleRecord ev) (\<lambda>_ db.
       case wireTaskIdForDecision d db of None \<Rightarrow> (Inr (), db) | Some i \<Rightarrow> settleTask ev outcome i db)) db)"

subsection \<open>Calls and transactions in any order\<close>

text \<open>
  One transaction of the control plane, with everything its caller supplies. A call that commits several times, such as the
  expiry sweep or the run of a batch, is several of them. The checks a call makes before its transaction are taken together
  with it. A query request, an editor task and a wire task are opened with whatever their callers resolved.
\<close>

datatype request_op =
    RequestQuery tx_env query_request
  | Approve tx_env string "string option" audit_actor int64 int channel
  | ApproveReview tx_env string int64 string
  | Reject tx_env string "string option" audit_actor int64 string channel
  | Withdraw tx_env int64
  | Unapprove tx_env string "string option" audit_actor int64 channel
  | Expire tx_env int64
  | Edit analysis tx_env string "string option" audit_actor int64 string "string option" "string option"
  | EditPull analysis tx_env request_row string "string list" request_origin audit_actor
  | ForceRun tx_env string "string option" audit_actor int64
  | Close tx_env string "string option" audit_actor int64 channel
  | Comment tx_env string "string option" audit_actor int64 "string option" bool channel "string option" "string option"
  | SetCc tx_env "string list" "string \<rightharpoonup> string" string "string option" audit_actor int64 string bool channel
  | Cancel tx_env string "string option" audit_actor int64 channel
  | EndUnstarted int64 request_status

datatype run_op =
    Execute tx_env string "string option" int64 channel
  | RunOnMerge tx_env string int64
  | StartNext int64 string
  | Requirements int64 bytes
  | Complete tx_env int64 stored_result "int64 option" bool
  | Fail tx_env int64 string "string option" "int64 option" "bytes option"
  | Reconcile tx_env
  | PurgeExpired tx_env

datatype machine_op =
    SubmitEditor tx_env string int64 "string list" "string list" string
  | StartEditor tx_env string int64
  | CompleteEditor tx_env int64 stored_result "int64 option" bool
  | CancelEditor tx_env string "string option" int64
  | DropEditorResults string int64
  | DropEditorTask string int64
  | PurgeEditor tx_env
  | EndSession string
  | OpenWire tx_env string int64 "string list" int64
  | ReportCompletion tx_env "int64 \<Rightarrow> bool" int64 string

datatype pull_op =
    Rekey string string string string "string option"
  | Merged string int string "string list" int "string option"
  | PrHead string int string "string list" string string
  | AutoMerge string int bool

datatype grant_op =
    RequestRole tx_env string "string option" audit_actor access_request_input string
  | ApproveRole tx_env string "string option" audit_actor int64 "int64 option" channel
  | RejectRole tx_env string "string option" audit_actor int64 string channel
  | RevokeGrant tx_env string "string option" audit_actor int64
  | RevokeAll tx_env string

datatype task_op = OnRequest request_op | OnRun run_op | OnMachine machine_op | OnPull pull_op | OnGrant grant_op
  | Administer "app_role list" "task_datasource list"

fun execRequest :: "services \<Rightarrow> request_op \<Rightarrow> task_db \<Rightarrow> task_db" where
  "execRequest sv (RequestQuery ev q) db = snd (createQueryRequest ev q db)"
| "execRequest sv (Approve ev who ip actr i revision ch) db = snd (approveQuery sv ev who ip actr i revision ch db)"
| "execRequest sv (ApproveReview ev who i reviewId) db = snd (approveFromReview sv ev who i reviewId db)"
| "execRequest sv (Reject ev who ip actr i reason ch) db = snd (rejectQuery sv ev who ip actr i reason ch db)"
| "execRequest sv (Withdraw ev i) db = snd (withdrawApproval ev i db)"
| "execRequest sv (Unapprove ev who ip actr i ch) db = snd (unapprove sv ev who ip actr i ch db)"
| "execRequest sv (Expire ev i) db = snd (reopenQueryRequest ev i SYSTEM_ACTOR EV_EXPIRED db)"
| "execRequest sv (Edit an ev who ip actr i sql title reason) db = snd (edit sv an ev who ip actr i sql title reason db)"
| "execRequest sv (EditPull an ev r sql sqls origin actr) db = snd (revise an ev r sql sqls (pr_path (og_pullRequest origin)) None actr (Some origin) db)"
| "execRequest sv (ForceRun ev who ip actr i) db = snd (forceRunQuery sv ev who ip actr i db)"
| "execRequest sv (Close ev who ip actr i ch) db = snd (closeThread sv ev who ip actr i ch db)"
| "execRequest sv (Comment ev who ip actr i body lgtm ch thread slackRef) db = snd (comment sv ev who ip actr i body lgtm ch thread slackRef db)"
| "execRequest sv (SetCc ev active byEmail caller ip actr i who add ch) db = snd (setCc sv ev active byEmail caller ip actr i who add ch db)"
| "execRequest sv (Cancel ev who ip actr i ch) db = snd (cancel sv ev who ip actr i ch db)"
| "execRequest sv (EndUnstarted i st) db = snd (endUnstarted i st db)"

text \<open>What commits with the result of a statement, and with a failure.\<close>

definition completeHook :: "tx_env \<Rightarrow> int64 \<Rightarrow> bool \<Rightarrow> unit tx" where
  "completeHook ev i isLast = (if isLast then bindTx (markExecuted ev i) (\<lambda>won. guardTx won IllegalState) else pureTx ())"

definition auditedHook :: "tx_env \<Rightarrow> int64 \<Rightarrow> bool \<Rightarrow> unit tx" where
  "auditedHook ev i isLast = bindTx (completeHook ev i isLast) (\<lambda>_. lifecycleRecord ev)"

definition failHook :: "int64 \<Rightarrow> unit tx" where
  "failHook i = bindTx (markFailed i) (\<lambda>_. pureTx ())"

fun execRun :: "services \<Rightarrow> run_op \<Rightarrow> task_db \<Rightarrow> task_db" where
  "execRun sv (Execute ev who ip i ch) db = snd (execute sv ev who ip i ch db)"
| "execRun sv (RunOnMerge ev who i) db = snd (runOnMerge sv ev who i db)"
| "execRun sv (StartNext i who) db = snd (startNextRun i who db)"
| "execRun sv (Requirements i b) db = snd (recordRequirements i b db)"
| "execRun sv (Complete ev i result d isLast) db = snd (completeRun ev i result RESULT_RETENTION_SEC d (auditedHook ev i isLast) db)"
| "execRun sv (Fail ev i code reason d detail) db = snd (failRun ev i code reason d detail (failHook i) db)"
| "execRun sv (Reconcile ev) db = snd (reconcileOrphanedExecutions ev db)"
| "execRun sv (PurgeExpired ev) db = snd (purgeExpired ev db)"

definition onEditorTask :: "string \<Rightarrow> int64 \<Rightarrow> (task_db \<Rightarrow> task_db) \<Rightarrow> task_db \<Rightarrow> task_db" where
  "onEditorTask who i f db = (case getRequest i db of None \<Rightarrow> db | Some r \<Rightarrow> if isEditorTaskOf who r then f db else db)"

fun execMachine :: "services \<Rightarrow> machine_op \<Rightarrow> task_db \<Rightarrow> task_db" where
  "execMachine sv (SubmitEditor ev who ds sqls roles approver) db = snd (createEditorTask ev who ds sqls roles approver db)"
| "execMachine sv (StartEditor ev who i) db = onEditorTask who i (\<lambda>db. snd (claimAndStartRun i who ''console'' (claimExecution ev i) db)) db"
| "execMachine sv (CompleteEditor ev i result d isLast) db = snd (completeRun ev i result RESULT_RETENTION_SEC d (completeHook ev i isLast) db)"
| "execMachine sv (CancelEditor ev who ip i) db = snd (cancelEditor sv ev who ip i db)"
| "execMachine sv (DropEditorResults who i) db = onEditorTask who i (\<lambda>db. snd (deleteResultsForTask i db)) db"
| "execMachine sv (DropEditorTask who i) db = snd (deleteEditorTask i who db)"
| "execMachine sv (PurgeEditor ev) db = snd (purgeExpiredEditorChildren ev db)"
| "execMachine sv (EndSession who) db = snd (deleteEditorResultsForPrincipal who db)"
| "execMachine sv (OpenWire ev who ds roles d) db = snd (inTx (createWireTask ev who ds roles d) db)"
| "execMachine sv (ReportCompletion ev known d outcome) db = snd (reportCompletion ev known d outcome db)"

fun execPull :: "pull_op \<Rightarrow> task_db \<Rightarrow> task_db" where
  "execPull (Rekey scope fileKey rawHash changeKey contentHash) db = snd (rekeyFile scope fileKey rawHash changeKey contentHash db)"
| "execPull (Merged repository pr scope changeKeys at mergeSha) db = snd (markMerged repository pr scope changeKeys at mergeSha db)"
| "execPull (PrHead repository pr scope changeKeys headSha keyOrder) db = snd (setPrHead repository pr scope changeKeys headSha keyOrder db)"
| "execPull (AutoMerge repository pr enabled) db = snd (setPrAutoMerge repository pr enabled db)"

fun execGrant :: "services \<Rightarrow> grant_op \<Rightarrow> task_db \<Rightarrow> task_db" where
  "execGrant sv (RequestRole ev who ip actr input source) db = snd (requestRole sv ev who ip actr input source db)"
| "execGrant sv (ApproveRole ev who ip actr i secs ch) db = snd (approveRole sv ev who ip actr i secs ch db)"
| "execGrant sv (RejectRole ev who ip actr i reason ch) db = snd (rejectRole sv ev who ip actr i reason ch db)"
| "execGrant sv (RevokeGrant ev who ip actr i) db = snd (revokeGrant sv ev who ip actr i db)"
| "execGrant sv (RevokeAll ev who) db = snd (revokeAllForPrincipal ev who db)"

fun exec :: "services \<Rightarrow> task_op \<Rightarrow> task_db \<Rightarrow> task_db" where
  "exec sv (OnRequest op) db = execRequest sv op db"
| "exec sv (OnRun op) db = execRun sv op db"
| "exec sv (OnMachine op) db = execMachine sv op db"
| "exec sv (OnPull op) db = execPull op db"
| "exec sv (OnGrant op) db = execGrant sv op db"
| "exec sv (Administer roles dss) db = db\<lparr>td_roles := roles, td_datasources := dss\<rparr>"

fun runOps :: "services \<Rightarrow> task_op list \<Rightarrow> task_db \<Rightarrow> task_db" where
  "runOps sv [] db = db"
| "runOps sv (op # ops) db = runOps sv ops (exec sv op db)"

definition emptyTasks :: "app_role list \<Rightarrow> task_datasource list \<Rightarrow> task_db" where
  "emptyTasks roles dss = \<lparr>td_requests = [], td_results = [], td_grants = [], td_events = [], td_participants = [], td_roles = roles,
     td_datasources = dss, td_audit = [], td_requestSeq = 1, td_resultSeq = 1, td_grantSeq = 1\<rparr>"

lemma runOps_append: "runOps sv (a @ b) db = runOps sv b (runOps sv a db)"
  by (induction a arbitrary: db) simp_all

end
