(* ===== verification/TaskTraces.thy ===== *)
theory TaskTraces
  imports Approvals
begin

text \<open>
  What holds after any sequence of calls on the task store. Every call of \<^verbatim>\<open>Approvals\<close> is a step of the
  specification in \<^verbatim>\<open>TaskMachine\<close>, and a step that approves or grants is one that Cedar allowed its caller. So the
  invariants of the specification hold of every store the control plane can reach: a request runs at most once, as
  it was approved, alone in its scope, and a grant stands on an approval.
\<close>

subsection \<open>Calls that read before they write\<close>

definition readsOnly :: "'a tx \<Rightarrow> bool" where
  "readsOnly m \<longleftrightarrow> (\<forall>db. snd (m db) = db)"

lemma readsOnlyD: "readsOnly m \<Longrightarrow> m db = (x, db') \<Longrightarrow> db' = db"
  by (metis readsOnly_def snd_conv)

lemma reads_workflow [simp]: "readsOnly (workflowRequest i)"
  by (simp add: readsOnly_def workflowRequest_def split: option.splits)

lemma reads_guard [simp]: "readsOnly (guardTx b e)"
  by (simp add: readsOnly_def guardTx_def pureTx_def failTx_def)

lemma reads_read [simp]: "readsOnly (readTx f)"
  by (simp add: readsOnly_def readTx_def)

lemma reads_pure [simp]: "readsOnly (pureTx x)" "readsOnly (failTx e)"
  by (simp_all add: readsOnly_def pureTx_def failTx_def)

lemma reads_return [simp]: "readsOnly (\<lambda>db. (f db, db))"
  by (simp add: readsOnly_def)

lemma reads_bind: "readsOnly m \<Longrightarrow> (\<And>x. readsOnly (k x)) \<Longrightarrow> readsOnly (bindTx m k)"
  by (auto simp: readsOnly_def bindTx_def split: prod.splits sum.splits) (metis snd_conv)+

lemma reads_option [simp]: "readsOnly m \<Longrightarrow> (\<And>x. readsOnly (k x)) \<Longrightarrow> readsOnly (case v of None \<Rightarrow> m | Some x \<Rightarrow> k x)"
  by (cases v) simp_all

lemma reads_if [simp]: "readsOnly m \<Longrightarrow> readsOnly n \<Longrightarrow> readsOnly (if b then m else n)"
  by simp

lemma reads_approver [simp]: "readsOnly (requireApprover sv ev who ip i ch)"
  by (simp add: readsOnly_def requireApprover_def split: option.splits)

lemma guardTx_ok [simp]: "guardTx b e db = (Inr u, db') \<longleftrightarrow> b \<and> db' = db"
  by (auto simp: guardTx_def pureTx_def failTx_def)

lemma readTx_ok [simp]: "readTx f db = (Inr y, db') \<longleftrightarrow> y = f db \<and> db' = db"
  by (auto simp: readTx_def)

lemma workflow_ok: "workflowRequest i db = (Inr r, db') \<Longrightarrow> getRequest i db = Some r \<and> isWorkflowApproval r \<and> rw_id r = i"
  by (auto simp: workflowRequest_def dest: getRequest_in split: option.splits if_splits)

subsection \<open>Every call is a permitted step\<close>

text \<open>Who may take a step: an approval and a grant need Cedar's \<^verbatim>\<open>task.approve\<close> on the request as it is stored.\<close>

fun permitted :: "services \<Rightarrow> task_db \<Rightarrow> label \<Rightarrow> bool" where
  "permitted sv db (Approved i revision t who) \<longleftrightarrow>
    (\<exists>r ip ch. getRequest i db = Some r \<and> isWorkflowApproval r \<and> mayDecide sv t db who ip TASK_APPROVE r (contextValue ch))"
| "permitted sv db (Granted i) \<longleftrightarrow>
    (\<exists>r t who ip ch. getRequest i db = Some r \<and> rw_kind r \<noteq> QUERY \<and> mayDecide sv t db who ip TASK_APPROVE r (contextValue ch))"
| "permitted sv db _ \<longleftrightarrow> True"

definition callStep :: "services \<Rightarrow> task_db \<Rightarrow> task_db \<Rightarrow> bool" where
  "callStep sv db db' \<longleftrightarrow> (\<exists>l. task_step l db db' \<and> permitted sv db l)"

lemma stepsI: "task_step l db db' \<Longrightarrow> permitted sv db l \<Longrightarrow> callStep sv db db'"
  by (auto simp: callStep_def)

lemma steps_moved: "task_step Moved db db' \<Longrightarrow> callStep sv db db'"
  by (erule stepsI) simp

lemma steps_stutter: "stutters db db' \<Longrightarrow> callStep sv db db'"
  by (rule steps_moved[OF stutters_step])

lemma steps_same: "sameTables db db' \<Longrightarrow> callStep sv db db'"
  by (rule steps_moved[OF step_same])

lemma steps_refl [simp]: "callStep sv db db"
  by (rule steps_same) simp

lemma steps_opened: "\<exists>l. task_step l db db' \<and> l \<in> {Moved} \<union> range Opened \<Longrightarrow> callStep sv db db'"
  by (auto intro: stepsI)

lemma steps_quiet: "quiet m \<Longrightarrow> callStep sv db (snd (m db))"
  by (rule steps_same) (simp add: quiet_def)

lemma quiet_inTx: "quiet m \<Longrightarrow> quiet (inTx m)"
  unfolding quiet_def
  by (auto simp: inTx_def sameTables_def split: prod.splits sum.splits) (metis snd_conv)+

lemma by_move: "(\<And>x db'. m db = (x, db') \<Longrightarrow> task_step Moved db db') \<Longrightarrow> callStep sv db (snd (m db))"
  by (metis prod.collapse steps_moved)

lemma by_moves: "obeys moves m \<Longrightarrow> callStep sv db (snd (m db))"
  by (rule by_move) (auto simp: obeys_def intro: moves_step)

lemma by_read:
  assumes "readsOnly m" "\<And>y. m db = (Inr y, db) \<Longrightarrow> callStep sv db (snd (k y db))" shows "callStep sv db (snd (bindTx m k db))"
proof (cases "m db")
  case (Pair x db1)
  with readsOnlyD[OF assms(1) this] assms(2) show ?thesis by (cases x) (auto simp: bindTx_def)
qed

lemma then_read:
  assumes "\<And>y. readsOnly (k y)" "callStep sv db (snd (m db))" shows "callStep sv db (snd (bindTx m k db))"
proof (cases "m db")
  case (Pair x db1)
  with assms show ?thesis by (cases x) (auto simp: bindTx_def readsOnly_def)
qed

lemma by_option:
  "(v = None \<Longrightarrow> callStep sv db (snd (m db))) \<Longrightarrow> (\<And>x. v = Some x \<Longrightarrow> callStep sv db (snd (k x db))) \<Longrightarrow>
   callStep sv db (snd ((case v of None \<Rightarrow> m | Some x \<Rightarrow> k x) db))"
  by (cases v) simp_all

lemma by_if: "(b \<Longrightarrow> callStep sv db (snd (m db))) \<Longrightarrow> (\<not> b \<Longrightarrow> callStep sv db (snd (n db))) \<Longrightarrow> callStep sv db (snd ((if b then m else n) db))"
  by simp

lemma by_end [simp]: "callStep sv db (snd (pureTx x db))" "callStep sv db (snd (failTx e db))" "callStep sv db (snd (guardTx b e db))"
  by (simp_all add: pureTx_def failTx_def guardTx_def)

lemma steps_decide:
  assumes "wfTasks db" "getRequest i db = Some r" "isWorkflowApproval r" "mayDecide sv (tx_now ev) db who ip TASK_APPROVE r (contextValue ch)"
  shows "callStep sv db (snd (decideAudited ev i approved reason who actr revision v db))"
proof (cases approved)
  case True
  obtain x db' where d: "decideAudited ev i True reason who actr revision v db = (x, db')" by force
  have p: "permitted sv db (Approved i revision (tx_now ev) who)" using assms(2-4) by auto
  from approve_decided[OF d assms(1)] have "callStep sv db db'"
    by (elim disjE conjE) (rule steps_same, assumption, rule stepsI[OF _ p], assumption)
  with d True show ?thesis by simp
next
  case False
  then show ?thesis by (auto intro!: by_move reject_decided)
qed

lemma call_approve: "wfTasks db \<Longrightarrow> callStep sv db (snd (approveQuery sv ev who ip actr i revision ch db))"
  unfolding approveQuery_def
  by (intro by_read then_read reads_workflow reads_guard reads_read reads_if reads_pure reads_return) (auto dest!: workflow_ok intro: steps_decide)

lemma call_reject: "wfTasks db \<Longrightarrow> callStep sv db (snd (rejectQuery sv ev who ip actr i reason ch db))"
  unfolding rejectQuery_def
  by (intro by_read then_read reads_workflow reads_guard reads_read) (auto dest!: workflow_ok intro: steps_decide)

lemma call_review: "wfTasks db \<Longrightarrow> callStep sv db (snd (approveFromReview sv ev who i reviewId db))"
  by (auto simp: approveFromReview_def split: option.split intro!: steps_decide[where ch = GITHUB])

lemma call_reopen: "callStep sv db (snd (reopenQueryRequest ev i actr event db))"
  by (rule by_move) (rule move_reopen)

lemma call_withdraw: "callStep sv db (snd (withdrawApproval ev i db))"
  by (auto simp: withdrawApproval_def call_reopen split: option.split)

lemma call_unapprove: "callStep sv db (snd (unapprove sv ev who ip actr i ch db))"
  unfolding unapprove_def
  by (intro by_read then_read reads_workflow reads_guard reads_read call_reopen)

lemma call_revise: "wfTasks db \<Longrightarrow> callStep sv db (snd (revise an ev r sql sqls title reason actr origin db))"
proof -
  assume w: "wfTasks db"
  have "callStep sv db (snd (editQueryRequest ev i sqls ed actr db))" for i ed
    using edit_step[OF prod.collapse[symmetric] w, of ev i sqls ed actr] by (auto intro: steps_stutter stepsI)
  moreover have "callStep sv db (snd (editQueryRequestDetails ev i title reason actr p db))" for i p
    by (rule by_move) (rule move_details)
  ultimately show ?thesis by (auto simp: revise_def split: prod.split)
qed

lemma call_edit: "wfTasks db \<Longrightarrow> callStep sv db (snd (edit sv an ev who ip actr i sql title reason db))"
  unfolding edit_def
  by (intro by_read then_read by_option reads_workflow reads_guard reads_read call_revise by_end)

lemma call_force: "callStep sv db (snd (forceRunQuery sv ev who ip actr i db))"
  unfolding forceRunQuery_def
  by (intro by_read then_read by_if reads_workflow reads_guard reads_read reads_bind reads_pure by_move move_force by_end)

lemma call_close: "callStep sv db (snd (closeThread sv ev who ip actr i ch db))"
proof -
  have "callStep sv db (snd (bindTx (closeRequest ev i actr) (\<lambda>won. guardTx won e) db))" for e
    by (intro then_read reads_guard by_move move_close)
  then show ?thesis by (auto simp: closeThread_def split: option.split)
qed

lemma call_comment: "callStep sv db (snd (comment sv ev who ip actr i body lgtm ch thread slackRef db))"
  unfolding comment_def Let_def
  by (intro by_read then_read by_option reads_guard reads_read by_end steps_quiet quiet_inTx quiet_intros)

lemma call_setCc: "callStep sv db (snd (setCc sv ev active byEmail caller ip actr i who add ch db))"
proof -
  have p: "quiet (\<lambda>db. if add then (Inr (cc \<notin> set ccs), if cc \<notin> set ccs then addParticipant i cc CC db else db)
      else (Inr ((i, cc, CC) \<in> set (td_participants db)), db\<lparr>td_participants := filter (\<lambda>p. p \<noteq> (i, cc, CC)) (td_participants db)\<rparr>))" for cc ccs
    by (simp add: quiet_def sameTables_participant) (simp add: sameTables_def)
  have "callStep sv db (snd (changeCc ev caller actr i cc add ccs db))" for cc ccs
    unfolding changeCc_def by (intro steps_quiet quiet_inTx quiet_intros p)
  then show ?thesis
    unfolding setCc_def by (intro by_read by_option by_if reads_guard reads_read by_end)
qed

subsection \<open>Runs\<close>

lemma quiet_guard [quiet_intros]: "quiet (guardTx b e)"
  by (simp add: quiet_def guardTx_def pureTx_def failTx_def)

lemma quiet_lifecycle [quiet_intros]: "quiet (lifecycleRecord ev)"
  unfolding lifecycleRecord_def by (intro quiet_intros)

lemma moves_then_quiet: "obeys moves m \<Longrightarrow> (\<And>x. quiet (k x)) \<Longrightarrow> obeys moves (bindTx m k)"
  unfolding obeys_def
  by (intro allI impI, erule bindTx_cases) (blast dest: quietD intro: moves_then_kids kids.stutter sameTables_stutters)+

lemma leave_moves: "(\<And>r. rw_kind r = QUERY \<Longrightarrow> rw_status r = EXECUTING \<Longrightarrow> rowMove r (f r)) \<Longrightarrow> obeys moves (leaveExecuting i f event)"
  unfolding obeys_def
proof (intro allI impI)
  fix db x db' assume f: "\<And>r. rw_kind r = QUERY \<Longrightarrow> rw_status r = EXECUTING \<Longrightarrow> rowMove r (f r)" and "leaveExecuting i f event db = (x, db')"
  then have "updated (\<lambda>r. rw_id r = i \<and> rw_kind r = QUERY \<and> rw_status r = EXECUTING) f db db'" by (simp add: leave_step)
  then show "moves db db'"
    by (auto simp: updated_def sameTables_def moves_def ahead_def all_refl f intro!: list_all2_updateWhere)
qed

lemma mark_moves: "obeys moves (markExecuted ev i)" "obeys moves (markFailed i)" "obeys moves (markCancelled i)"
  unfolding mark_defs by (rule leave_moves; simp add: row_simps)+

lemma hook_moves: "obeys moves (completeHook ev i isLast)" "obeys moves (auditedHook ev i isLast)" "obeys moves (failHook i)" "obeys moves (cancelHook ev i)"
proof -
  show c: "obeys moves (completeHook ev i isLast)"
  proof (cases isLast)
    case True
    then show ?thesis by (simp add: completeHook_def moves_then_quiet mark_moves quiet_guard)
  next
    case False
    then show ?thesis by (simp add: completeHook_def moving_kids kids.quiet quiet_pure)
  qed
  show "obeys moves (auditedHook ev i isLast)" unfolding auditedHook_def by (intro moves_then_quiet c quiet_intros)
  show "obeys moves (failHook i)" "obeys moves (cancelHook ev i)"
    unfolding failHook_def cancelHook_def by (intro moves_then_quiet mark_moves quiet_intros)+
qed

lemma call_cancel: "callStep sv db (snd (cancel sv ev who ip actr i ch db))"
proof -
  have "callStep sv db (snd (bindTx (cancelRun ev i (cancelHook ev i)) (\<lambda>_. pureTx ()) db))"
    by (intro then_read reads_pure by_moves cancel_moves hook_moves)
  then show ?thesis
    unfolding cancel_def by (intro by_read reads_workflow reads_guard reads_read) (auto split: request_status.split intro!: by_read call_close)
qed

lemma call_claim:
  assumes "wfTasks db" shows "callStep sv db (snd (claimAndStartRun i who origin (claimExecution ev i) db))"
  using start_claimed[OF prod.collapse[symmetric] assms, of i who origin ev] by (auto intro: steps_stutter stepsI)

lemma call_claimApproved: "wfTasks db \<Longrightarrow> callStep sv db (snd (claimApproved sv ev who origin r db))"
  unfolding claimApproved_def
  by (intro by_read then_read reads_guard reads_read reads_option reads_pure call_claim)

lemma call_execute: "wfTasks db \<Longrightarrow> callStep sv db (snd (execute sv ev who ip i ch db))"
  unfolding execute_def by (intro by_read reads_workflow reads_guard reads_read call_claimApproved)

lemma call_merge: "wfTasks db \<Longrightarrow> callStep sv db (snd (runOnMerge sv ev who i db))"
  unfolding runOnMerge_def by (intro by_read reads_workflow reads_guard reads_read call_claimApproved)

lemma run_step: "wfTasks db \<Longrightarrow> callStep sv db (execRun sv op db)"
  by (cases op) (simp_all add: call_execute call_merge by_moves moving_kids startNext_kids requirements_kids purge_kids complete_moves fail_moves
      reconcile_moves hook_moves)

lemma request_step: "wfTasks db \<Longrightarrow> callStep sv db (execRequest sv op db)"
  by (cases op) (simp_all add: call_approve call_reject call_review call_reopen call_withdraw call_unapprove call_revise call_edit call_force call_close
      call_comment call_setCc call_cancel steps_opened[OF create_query[OF prod.collapse[symmetric]]] by_move move_end)

lemma pull_step: "callStep sv db (execPull op db)"
  by (cases op) (simp_all add: by_move[OF move_rekey] by_move[OF move_merged] by_move[OF move_prHead] by_move[OF move_autoMerge])

subsection \<open>Editor and wire tasks, roles and grants\<close>

lemma call_inTx:
  assumes "callStep sv db (snd (m db))" shows "callStep sv db (snd (inTx m db))"
proof (cases "m db")
  case (Pair x db1)
  have "ahead db db1" using assms Pair by (auto simp: callStep_def dest: step_ahead)
  with assms Pair show ?thesis by (cases x) (auto simp: inTx_def ahead_def stutters_def intro!: steps_stutter)
qed

lemma wire_row: "wireTaskIdForDecision d db = Some i \<Longrightarrow> \<exists>r\<in>set (td_requests db). rw_id r = i \<and> rw_creatorKind r = BY_WIRE"
  by (auto simp: wireTaskIdForDecision_def find_Some_iff)

lemma call_settle:
  assumes w: "wfTasks db" and d: "wireTaskIdForDecision d db = Some i" shows "callStep sv db (snd (settleTask ev outcome i db))"
proof -
  let ?P = "\<lambda>r. rw_id r = i \<and> rw_kind r = QUERY \<and> rw_status r = APPROVED"
  let ?f = "\<lambda>r. r\<lparr>rw_status := EXECUTING, rw_executingAt := Some (tx_now ev)\<rparr>"
  let ?Q = "\<lambda>r. rw_id r = i \<and> rw_kind r = QUERY \<and> rw_status r = EXECUTING"
  let ?g = "\<lambda>r. if outcome = ''ok'' then r\<lparr>rw_status := EXECUTED, rw_executedAt := Some (tx_now ev)\<rparr> else r\<lparr>rw_status := FAILED\<rparr>"
  let ?rs = "td_requests db"
  show ?thesis
  proof (cases "list_ex ?P ?rs")
    case False
    then have "snd (settleTask ev outcome i db) = db"
      by (simp add: settleTask_def bindTx_def updateRequests_def pureTx_def updateWhere_none)
    then show ?thesis by simp
  next
    case True
    then obtain y where y: "y \<in> set ?rs" "?P y" by (auto simp: list_ex_iff)
    have e: "snd (settleTask ev outcome i db) = db\<lparr>td_requests := updateWhere ?Q ?g (updateWhere ?P ?f ?rs)\<rparr>"
      using True by (simp add: settleTask_def bindTx_def updateRequests_def guardTx_def pureTx_def failTx_def)
    have "rowMove x (if ?Q (if ?P x then ?f x else x) then ?g (if ?P x then ?f x else x) else (if ?P x then ?f x else x))" if x: "x \<in> set ?rs" for x
    proof (cases "rw_id x = i")
      case True
      then have "x = y" using wfTasks_unique[OF w x y(1)] y(2) by simp
      moreover have "rw_creatorKind x = BY_WIRE" using wire_row[OF d] wfTasks_unique[OF w x] True by metis
      ultimately show ?thesis using y(2) by (simp add: rowMove_def sameRequest_def keepsRun_def completesWire_def unstarted_def)
    qed simp
    then have "list_all2 rowMove ?rs (updateWhere ?Q ?g (updateWhere ?P ?f ?rs))"
      by (simp add: updateWhere_def list_all2_conv_all_nth)
    then show ?thesis unfolding e by (intro steps_moved task_step.moved) (simp_all add: ahead_def all_refl)
  qed
qed

lemma call_report:
  assumes "wfTasks db" shows "callStep sv db (snd (reportCompletion ev known d outcome db))"
proof -
  let ?m = "bindTx (lifecycleRecord ev) (\<lambda>_ db. case wireTaskIdForDecision d db of None \<Rightarrow> (Inr (), db) | Some i \<Rightarrow> settleTask ev outcome i db)"
  have "callStep sv db (snd (?m db))"
    by (rule by_read) (auto simp: lifecycleRecord_def call_settle[OF assms] split: option.split)
  then have "callStep sv db (snd (inTx ?m db))" by (rule call_inTx)
  then show ?thesis by (simp add: reportCompletion_def)
qed

lemma call_cancelEditor: "callStep sv db (snd (cancelEditor sv ev who ip i db))"
proof -
  have "callStep sv db (snd (bindTx (cancelRun ev i (bindTx (markCancelled i) (\<lambda>won. guardTx won e))) (\<lambda>_. pureTx ()) db))" for e
    by (intro then_read reads_pure by_moves cancel_moves moves_then_quiet mark_moves quiet_intros)
  then show ?thesis by (simp add: cancelEditor_def split: option.split)
qed

lemma call_dropResults:
  assumes "wfTasks db" "getRequest i db = Some r" "isEditorTaskOf who r" shows "callStep sv db (snd (deleteResultsForTask i db))"
proof -
  have "task_step Removed db (snd (deleteResults (\<lambda>q. qr_taskId q = i) db))"
    by (rule remove_results[OF prod.collapse[symmetric] assms(1)])
      (use assms getRequest_in[OF assms(2)] in \<open>auto simp: isEditorTaskOf_def dest: wfTasks_unique\<close>)
  then show ?thesis by (simp add: deleteResultsForTask_def stepsI)
qed

lemma call_removed:
  assumes "wfTasks db" "\<And>r. P r \<Longrightarrow> rw_creatorKind r = BY_EDITOR" shows "callStep sv db (snd (deleteRequests P db))"
  by (rule stepsI[OF remove_requests[OF prod.collapse[symmetric] assms(2,1)]]) simp_all

lemma machine_step: "wfTasks db \<Longrightarrow> callStep sv db (execMachine sv op db)"
proof (cases op)
  case (DropEditorTask who i)
  assume "wfTasks db"
  with DropEditorTask show ?thesis
    by (auto simp: deleteEditorTask_def intro!: then_read call_removed)
next
  case (EndSession who)
  assume "wfTasks db"
  with EndSession show ?thesis by (auto simp: deleteEditorResultsForPrincipal_def intro!: call_removed)
qed (simp_all add: onEditorTask_def deleteEditorResultsForPrincipal_def call_removed call_claim call_dropResults call_cancelEditor call_inTx call_report
    steps_opened[OF create_editor[OF prod.collapse[symmetric]]] steps_opened[OF create_wire[OF prod.collapse[symmetric]]] by_moves complete_moves hook_moves mark_moves
    stepsI[OF purge_editor[OF prod.collapse[symmetric]]] split: option.split)

lemma grant_step: "wfTasks db \<Longrightarrow> callStep sv db (execGrant sv op db)"
proof -
  assume w: "wfTasks db"
  have "callStep sv db (snd (requestRole sv ev who ip actr input source db))" for ev who ip actr input source
    by (simp add: requestRole_def Let_def steps_opened[OF create_role[OF prod.collapse[symmetric]]] split: option.split)
  moreover have "callStep sv db (snd (approveRole sv ev who ip actr i secs ch db))" for ev who ip actr i secs ch
    unfolding approveRole_def
  proof (rule by_read[OF reads_approver], rule then_read)
    fix r assume "requireApprover sv ev who ip i ch db = (Inr r, db)"
    then have r: "getRequest i db = Some r" "rw_kind r \<noteq> QUERY" "mayDecide sv (tx_now ev) db who ip TASK_APPROVE r (contextValue ch)"
      by (auto simp: requireApprover_def split: option.splits if_splits)
    then have p: "permitted sv db (Granted i)" by auto
    from approve_step[OF prod.collapse[symmetric] w r(1,2), of ev secs who actr]
    show "callStep sv db (snd (approveAudited ev i secs who actr db))" by (auto intro: steps_stutter stepsI[OF _ p])
  qed simp
  moreover have "callStep sv db (snd (rejectRole sv ev who ip actr i reason ch db))" for ev who ip actr i reason ch
    unfolding rejectRole_def by (intro by_read then_read reads_approver reads_option reads_pure by_move reject_step)
  moreover have "callStep sv db (snd (revokeGrant sv ev who ip actr i db))" for ev who ip actr i
  proof -
    have "callStep sv db (snd (bindTx (revokeAudited ev i actr) (\<lambda>won. guardTx won serviceNotFound) db))"
      by (rule then_read[OF reads_guard by_move[OF revoke_step]])
    then show ?thesis by (simp add: revokeGrant_def split: option.split)
  qed
  moreover have "callStep sv db (snd (revokeAllForPrincipal ev who db))" for ev who
    unfolding revokeAllForPrincipal_def by (intro by_move revoke_grants)
  ultimately show ?thesis by (cases op) simp_all
qed

lemma exec_step: "wfTasks db \<Longrightarrow> callStep sv db (exec sv op db)"
proof (cases op)
  case (Administer roles dss)
  then show ?thesis by (simp add: steps_same sameTables_def)
qed (simp_all add: request_step run_step machine_step pull_step grant_step)

subsection \<open>Traces\<close>

lemma exec_label: "wfTasks db \<Longrightarrow> \<exists>l. task_step l db (exec sv op db) \<and> permitted sv db l"
  using exec_step by (simp add: callStep_def)

lemma exec_wf: "wfTasks db \<Longrightarrow> wfTasks (exec sv op db)"
  using exec_label wf_step by blast

lemma runOps_snoc: "runOps sv (ops @ [op]) db = exec sv op (runOps sv ops db)"
  by (simp add: runOps_append)

lemma runOps_wf: "wfTasks db \<Longrightarrow> wfTasks (runOps sv ops db)"
  by (induction ops rule: rev_induct) (simp_all add: runOps_snoc exec_wf)

lemma empty_wf [simp]: "wfTasks (emptyTasks roles dss)"
  by (simp add: wfTasks_def emptyTasks_def keyed_def)

lemmas reached_wf = runOps_wf[OF empty_wf]

lemma trace_keeps:
  assumes "I db" "wfTasks db" "\<And>l a b. task_step l a b \<Longrightarrow> wfTasks a \<Longrightarrow> I a \<Longrightarrow> I b" shows "I (runOps sv ops db)"
proof (induction ops rule: rev_induct)
  case (snoc op ops)
  obtain l where "task_step l (runOps sv ops db) (exec sv op (runOps sv ops db))"
    using exec_label[OF runOps_wf[OF assms(2)]] by blast
  from assms(3)[OF this runOps_wf[OF assms(2)] snoc] show ?case by (simp add: runOps_snoc)
qed (simp add: assms(1))


subsection \<open>A request runs at most once\<close>

definition runs :: "int64 \<Rightarrow> task_db \<Rightarrow> bool" where
  "runs i db \<longleftrightarrow> (case getRequest i db of None \<Rightarrow> False | Some r \<Rightarrow> rw_status r = EXECUTING)"

fun starts :: "services \<Rightarrow> int64 \<Rightarrow> task_op list \<Rightarrow> task_db \<Rightarrow> nat" where
  "starts sv i [] db = 0"
| "starts sv i (op # ops) db = (if \<not> runs i db \<and> runs i (exec sv op db) then 1 else 0) + starts sv i ops (exec sv op db)"

lemma exec_rank: "wfTasks db \<Longrightarrow> rank i db \<le> rank i (exec sv op db)"
  using exec_label rank_step by blast

lemma runs_rank: "runs i db \<longleftrightarrow> rank i db = 1"
  by (auto simp: runs_def rank_def split: option.splits)

lemma starts_rank: "wfTasks db \<Longrightarrow> starts sv i ops db + (if rank i db = 0 then 0 else 1) \<le> 1"
proof (induction ops arbitrary: db)
  case (Cons op ops)
  have r: "rank i db \<le> rank i (exec sv op db)" by (rule exec_rank[OF Cons.prems])
  have "starts sv i ops (exec sv op db) + (if rank i (exec sv op db) = 0 then 0 else 1) \<le> 1"
    by (rule Cons.IH[OF exec_wf[OF Cons.prems]])
  with r show ?case by (auto simp: runs_rank split: if_splits)
qed simp

text \<open>
  C4: Whatever calls, runs and sweeps the control plane makes, in any order, a request starts to run at most once: an
  approval can be claimed by one of several racing callers only, and a request that ran, failed, was cancelled or was
  deleted never runs again.
\<close>

theorem runs_at_most_once: "starts sv i ops (emptyTasks roles dss) \<le> 1"
  using starts_rank[OF empty_wf, of sv i ops roles dss] by (simp split: if_splits)

subsection \<open>What runs is what was approved\<close>

lemma texts_step:
  assumes "task_step (Claimed i now) db db'" shows "texts j db' = texts j db"
  using assms by (rule claimedE) (rule texts_moved)

definition approvedAt :: "services \<Rightarrow> task_db \<Rightarrow> request_row \<Rightarrow> string option list \<Rightarrow> int \<Rightarrow> string \<Rightarrow> bool" where
  "approvedAt sv db r' sqls t who \<longleftrightarrow>
    (\<exists>r ip ch. getRequest (rw_id r') db = Some r \<and> rw_status r = PENDING \<and> sameRequest r r' \<and> rw_revision r = rw_revision r'
      \<and> texts (rw_id r') db = sqls \<and> mayDecide sv t db who ip TASK_APPROVE r (contextValue ch))"

lemma approves_here:
  assumes st: "task_step (Approved i revision t who) db db'" and p: "permitted sv db (Approved i revision t who)" and w: "wfTasks db"
    and s: "standing i r' db'"
  shows "approvedAt sv db r' (texts i db) t who"
proof -
  from p obtain r ip ch where r: "getRequest i db = Some r" "mayDecide sv t db who ip TASK_APPROVE r (contextValue ch)" by auto
  from s have r': "r' \<in> set (td_requests db')" "rw_id r' = i" by (auto simp: standing_def)
  from st have o: "onlyRow i (approvesRow revision t who) db db'" by (rule approvedE)
  from onlyRow_other[OF o r'(1)] r'(2) obtain q where q: "q \<in> set (td_requests db)" "sameRequest q r'" "rw_id q = i"
    and a: "approvesRow revision t who q r'" by auto
  have "q = r" using getRequest_eq[OF w q(1,3)] r(1) by simp
  then show ?thesis
    unfolding approvedAt_def using a q(2) r r'(2) by (auto simp: approvesRow_def)
qed

lemma standing_origin:
  assumes "standing i r' (runOps sv ops (emptyTasks roles dss))"
  shows "\<exists>before a after t who. ops = before @ a # after \<and> rw_approvedAt r' = Some t \<and> rw_decidedBy r' = Some who
    \<and> approvedAt sv (runOps sv before (emptyTasks roles dss)) r' (texts i (runOps sv ops (emptyTasks roles dss))) t who"
  using assms
proof (induction ops arbitrary: r' rule: rev_induct)
  case Nil
  then show ?case by (simp add: standing_def emptyTasks_def)
next
  case (snoc op ops)
  let ?db = "runOps sv ops (emptyTasks roles dss)" and ?db' = "exec sv op (runOps sv ops (emptyTasks roles dss))"
  obtain l where l: "task_step l ?db ?db'" "permitted sv ?db l" using exec_label[OF reached_wf] by blast
  have s: "standing i r' ?db'" using snoc.prems by (simp add: runOps_snoc)
  note k = approval_kept[OF l(1) reached_wf s]
  from k have same: "texts i (runOps sv (ops @ [op]) (emptyTasks roles dss)) = texts i ?db" by (simp add: runOps_snoc)
  from k show ?case unfolding same
  proof (elim conjE disjE exE)
    fix t who assume "l = Approved i (rw_revision r') t who" "rw_approvedAt r' = Some t" "rw_decidedBy r' = Some who"
    moreover from this have "approvedAt sv ?db r' (texts i ?db) t who" using approves_here[OF _ _ reached_wf s] l by blast
    ultimately show "\<exists>before a after t who. ops @ [op] = before @ a # after \<and> rw_approvedAt r' = Some t \<and> rw_decidedBy r' = Some who
      \<and> approvedAt sv (runOps sv before (emptyTasks roles dss)) r' (texts i ?db) t who" by blast
  next
    assume "keptFrom i r' ?db"
    then obtain r where r: "standing i r ?db" "sameRequest r r'" "rw_revision r = rw_revision r'" "rw_approvedAt r = rw_approvedAt r'" "rw_decidedBy r = rw_decidedBy r'"
      by (auto simp: keptFrom_def)
    from snoc.IH[OF r(1)] obtain before a after t who where h: "ops = before @ a # after" "rw_approvedAt r = Some t" "rw_decidedBy r = Some who"
      "approvedAt sv (runOps sv before (emptyTasks roles dss)) r (texts i ?db) t who" by blast
    from h(4) r(2,3) have "approvedAt sv (runOps sv before (emptyTasks roles dss)) r' (texts i ?db) t who"
      by (auto simp: approvedAt_def sameRequest_def)
    moreover have "ops @ [op] = before @ a # (after @ [op])" "rw_approvedAt r' = Some t" "rw_decidedBy r' = Some who" using h r(4,5) by simp_all
    ultimately show "\<exists>before a after t who. ops @ [op] = before @ a # after \<and> rw_approvedAt r' = Some t \<and> rw_decidedBy r' = Some who
      \<and> approvedAt sv (runOps sv before (emptyTasks roles dss)) r' (texts i ?db) t who" by blast
  qed
qed

text \<open>
  C3: When a call starts a workflow request, an earlier call had approved it: at that call the request was pending with the
  revision, the statements, the datasource and the roles it now runs with, and Cedar allowed the approver that the request
  names to approve it then. Unless the request comes from a pull request, less than 24 hours passed since.
\<close>

theorem started_as_approved:
  assumes "db = runOps sv ops (emptyTasks roles dss)" "db' = exec sv op db" "\<not> runs i db"
    "getRequest i db' = Some r'" "rw_status r' = EXECUTING" "isWorkflowApproval r'"
  shows "\<exists>before a after t who now. ops = before @ a # after
    \<and> rw_approvedAt r' = Some t \<and> rw_decidedBy r' = Some who \<and> rw_executingAt r' = Some now \<and> (fromPullRequest r' \<or> now < t + APPROVAL_TTL)
    \<and> approvedAt sv (runOps sv before (emptyTasks roles dss)) r' (texts i db') t who"
proof -
  have w: "wfTasks db" using assms(1) reached_wf by simp
  obtain l where l: "task_step l db db'" using exec_label[OF w] assms(2) by blast
  have r': "r' \<in> set (td_requests db')" "rw_id r' = i" using getRequest_in[OF assms(4)] by auto
  have "\<not> runKept r' db"
    using assms(3) r'(2) w by (auto simp: runKept_def running_def runs_def sameRequest_def getRequest_eq)
  with run_origin[OF l, of r'] r' assms(5) obtain now r where r: "l = Claimed i now" "r \<in> set (td_requests db)" "sameRequest r r'"
    "claimsRow (td_requests db) now r r'" by (auto simp: running_def)
  then have s: "standing i r (runOps sv ops (emptyTasks roles dss))"
    using assms(1,6) r'(2) by (auto simp: standing_def claimsRow_def sameRequest_def isWorkflowApproval_def)
  from standing_origin[OF s] obtain before a after t who where h: "ops = before @ a # after" "rw_approvedAt r = Some t" "rw_decidedBy r = Some who"
    "approvedAt sv (runOps sv before (emptyTasks roles dss)) r (texts i db) t who" unfolding assms(1) by blast
  have "texts i db' = texts i db" using texts_step l r(1) by simp
  moreover from h(4) r(3,4) have "approvedAt sv (runOps sv before (emptyTasks roles dss)) r' (texts i db) t who"
    by (auto simp: approvedAt_def sameRequest_def claimsRow_def)
  moreover have "fromPullRequest r' \<or> now < t + APPROVAL_TTL"
    using r(3,4) h(2) by (auto simp: claimsRow_def approvalLive_def fromPullRequest_def sameRequest_def)
  moreover have "rw_approvedAt r' = Some t" "rw_decidedBy r' = Some who" "rw_executingAt r' = Some now" using h r(4) by (simp_all add: claimsRow_def)
  ultimately show ?thesis using h(1) by metis
qed

subsection \<open>One run in a scope\<close>

lemma empty_exclusive: "scopeExclusive (emptyTasks roles dss)"
  by (simp add: scopeExclusive_def running_def emptyTasks_def)

text \<open>
  C16: Two requests that run at the same time never share a scope, whatever the order of calls, except files of one pull
  request and requests that someone forced to run.
\<close>

theorem one_run_per_scope: "scopeExclusive (runOps sv ops (emptyTasks roles dss))"
  by (rule trace_keeps[where I = scopeExclusive]) (simp_all add: scope_step empty_exclusive)

subsection \<open>Roles come from approvals\<close>

lemma grantMove_trans: "grantMove a b \<Longrightarrow> grantMove b c \<Longrightarrow> grantMove a c"
proof -
  assume a: "grantMove a b" and b: "grantMove b c"
  from a obtain t where t: "b = a\<lparr>gt_revokedAt := t\<rparr>" "gt_revokedAt a \<noteq> None \<longrightarrow> t = gt_revokedAt a" "t = None \<longrightarrow> gt_revokedAt a = None"
    unfolding grantMove_def by blast
  from b obtain u where u: "c = b\<lparr>gt_revokedAt := u\<rparr>" "gt_revokedAt b \<noteq> None \<longrightarrow> u = gt_revokedAt b" "u = None \<longrightarrow> gt_revokedAt b = None"
    unfolding grantMove_def by blast
  have c: "c = a\<lparr>gt_revokedAt := u\<rparr>" unfolding u(1) t(1) by simp
  have "gt_revokedAt b = t" unfolding t(1) by simp
  with t(2,3) u(2,3) have "(gt_revokedAt a \<noteq> None \<longrightarrow> u = gt_revokedAt a) \<and> (u = None \<longrightarrow> gt_revokedAt a = None)" by metis
  with c show ?thesis unfolding grantMove_def by blast
qed

lemma grant_origin_step:
  assumes "task_step l db db'" "g' \<in> set (td_grants db')"
  shows "(\<exists>g\<in>set (td_grants db). grantMove g g')
    \<or> l = Granted (gt_requestId g') \<and> (\<exists>r\<in>set (td_requests db). rw_id r = gt_requestId g' \<and> rw_kind r \<noteq> QUERY \<and> rw_status r = PENDING
        \<and> rw_principal r = gt_principal g' \<and> rw_roleId r = Some (gt_roleId g'))"
proof -
  have same: ?thesis if "g' \<in> set (td_grants db)" using grantMove_refl that by blast
  from assms(1) show ?thesis
  proof (cases rule: task_step.cases)
    case moved
    then show ?thesis using list_all2_set2[of grantMove] assms(2) by blast
  next
    case (granted i r g)
    from list_all2_set1[OF onlyRow_moves[OF granted(3)] granted(5)] granted(6) obtain r' where "elevatesRow r r'" by auto
    then have "rw_kind r \<noteq> QUERY" "rw_status r = PENDING" by (simp_all add: elevatesRow_def)
    with granted(5-) have "?thesis" if "g' = g" using that by (intro disjI2 conjI bexI[of _ r]) (simp_all add: granted(1))
    moreover have "g' \<in> set (td_grants db) \<or> g' = g" using assms(2) granted(7) by auto
    ultimately show ?thesis using same by blast
  qed (use assms(2) same in simp_all)
qed

definition grantedAt :: "services \<Rightarrow> task_db \<Rightarrow> grant_row \<Rightarrow> bool" where
  "grantedAt sv db g \<longleftrightarrow>
    (\<exists>r t who ip ch. getRequest (gt_requestId g) db = Some r \<and> rw_kind r \<noteq> QUERY \<and> rw_status r = PENDING \<and> rw_principal r = gt_principal g
      \<and> rw_roleId r = Some (gt_roleId g) \<and> mayDecide sv t db who ip TASK_APPROVE r (contextValue ch))"

definition grantedBy :: "services \<Rightarrow> task_op list \<Rightarrow> task_db \<Rightarrow> grant_row \<Rightarrow> bool" where
  "grantedBy sv ops db g \<longleftrightarrow> (\<exists>before a after. ops = before @ a # after \<and> grantedAt sv (runOps sv before db) g)"

lemma grantedBy_snoc: "grantedBy sv ops db g \<Longrightarrow> grantedBy sv (ops @ [op]) db g"
  by (fastforce simp: grantedBy_def)

lemma grantedBy_last: "grantedAt sv (runOps sv ops db) g \<Longrightarrow> grantedBy sv (ops @ [op]) db g"
  by (auto simp: grantedBy_def)

lemma grantedBy_same: "grantMove g g' \<Longrightarrow> grantedBy sv ops db g' \<longleftrightarrow> grantedBy sv ops db g"
proof -
  assume "grantMove g g'"
  then obtain t where "g' = g\<lparr>gt_revokedAt := t\<rparr>" by (auto simp: grantMove_def)
  then show ?thesis by (simp add: grantedBy_def grantedAt_def)
qed

lemma grants_here:
  assumes "task_step l db db'" "permitted sv db l" "wfTasks db" "g' \<in> set (td_grants db')"
  shows "(\<exists>g\<in>set (td_grants db). grantMove g g') \<or> grantedAt sv db g'"
  using grant_origin_step[OF assms(1,4)]
proof
  assume a: "l = Granted (gt_requestId g') \<and> (\<exists>r\<in>set (td_requests db). rw_id r = gt_requestId g' \<and> rw_kind r \<noteq> QUERY \<and> rw_status r = PENDING
        \<and> rw_principal r = gt_principal g' \<and> rw_roleId r = Some (gt_roleId g'))"
  then obtain r where r: "r \<in> set (td_requests db)" "rw_id r = gt_requestId g'" "rw_kind r \<noteq> QUERY" "rw_status r = PENDING"
    "rw_principal r = gt_principal g'" "rw_roleId r = Some (gt_roleId g')" by blast
  from a assms(2) obtain q t who ip ch where q: "getRequest (gt_requestId g') db = Some q" "mayDecide sv t db who ip TASK_APPROVE q (contextValue ch)" by auto
  with getRequest_eq[OF assms(3) r(1,2)] have "q = r" by simp
  with q r show ?thesis unfolding grantedAt_def by blast
qed blast

lemma grant_origin:
  assumes "wfTasks db" "g' \<in> set (td_grants (runOps sv ops db))"
  shows "(\<exists>g\<in>set (td_grants db). grantMove g g') \<or> grantedBy sv ops db g'"
  using assms(2)
proof (induction ops arbitrary: g' rule: rev_induct)
  case Nil
  then show ?case using grantMove_refl[of g'] by (simp, blast)
next
  case (snoc op ops)
  let ?db = "runOps sv ops db"
  obtain l where l: "task_step l ?db (exec sv op ?db)" "permitted sv ?db l" using exec_label[OF runOps_wf[OF assms(1)]] by blast
  have "g' \<in> set (td_grants (exec sv op ?db))" using snoc.prems by (simp add: runOps_snoc)
  from grants_here[OF l runOps_wf[OF assms(1)] this] show ?case
  proof
    assume "\<exists>g\<in>set (td_grants ?db). grantMove g g'"
    then obtain g where g: "g \<in> set (td_grants ?db)" "grantMove g g'" by blast
    from snoc.IH[OF g(1)] show ?thesis using grantMove_trans[OF _ g(2)] grantedBy_same[OF g(2)] grantedBy_snoc by blast
  qed (simp add: grantedBy_last)
qed

definition approvedRoles :: "services \<Rightarrow> task_op list \<Rightarrow> task_db \<Rightarrow> int \<Rightarrow> string \<Rightarrow> string set" where
  "approvedRoles sv ops db now who =
    {n. \<exists>g\<in>set (td_grants (runOps sv ops db)). \<exists>l\<in>set (td_roles (runOps sv ops db)). gt_principal g = who \<and> grantActive now g
        \<and> rl_id l = gt_roleId g \<and> \<not> rl_deleted l \<and> rl_name l = n \<and> grantedBy sv ops db g}"

lemma empty_backed: "grantsBacked (emptyTasks roles dss)"
  by (simp add: grantsBacked_def emptyTasks_def)


lemma revokeAll_none:
  assumes "g \<in> set (td_grants (exec sv (OnGrant (RevokeAll ev who)) db))" "gt_principal g = who" shows "gt_revokedAt g \<noteq> None"
proof -
  let ?f = "\<lambda>g. if gt_principal g = who \<and> gt_revokedAt g = None then g\<lparr>gt_revokedAt := Some (tx_now ev)\<rparr> else g"
  from assms(1) have "g \<in> ?f ` set (td_grants db)"
    by (simp add: revokeAllForPrincipal_def revokeGrants_def Let_def updateWhere_def)
  then obtain g0 where "g = ?f g0" by blast
  with assms(2) show ?thesis by (cases "gt_principal g0 = who \<and> gt_revokedAt g0 = None") auto
qed

text \<open>
  C17: Revoking everything a principal holds is final: a grant of the principal that is in force after any later calls was
  minted by one of those calls, from a request that was then pending and an approval that Cedar then allowed.
\<close>

theorem revocation_is_final:
  assumes "g \<in> set (td_grants (runOps sv later (exec sv (OnGrant (RevokeAll ev who)) (runOps sv ops (emptyTasks roles dss)))))"
    "gt_principal g = who" "gt_revokedAt g = None"
  shows "grantedBy sv later (exec sv (OnGrant (RevokeAll ev who)) (runOps sv ops (emptyTasks roles dss))) g"
proof -
  let ?db = "exec sv (OnGrant (RevokeAll ev who)) (runOps sv ops (emptyTasks roles dss))"
  have "\<not> grantMove g0 g" if "g0 \<in> set (td_grants ?db)" for g0
    using revokeAll_none[OF that] assms(2,3) by (auto simp: grantMove_def)
  then show ?thesis using grant_origin[OF exec_wf[OF reached_wf] assms(1)] by blast
qed

subsection \<open>A restart\<close>

definition settled :: "task_db \<Rightarrow> bool" where
  "settled db \<longleftrightarrow> (\<forall>r\<in>set (td_requests db). rw_status r \<noteq> EXECUTING) \<and> (\<forall>q\<in>set (td_results db). qr_status q \<noteq> Some RUNNING)
    \<and> (\<forall>q\<in>set (td_results db). qr_status q = None \<longrightarrow> \<not> failedQuery db (qr_taskId q))"

definition onlyQueriesRun :: "task_db \<Rightarrow> bool" where
  "onlyQueriesRun db \<longleftrightarrow> (\<forall>r. running r db \<longrightarrow> rw_kind r = QUERY)"

lemma onlyQueriesRun_step: "task_step l db db' \<Longrightarrow> onlyQueriesRun db \<Longrightarrow> onlyQueriesRun db'"
  unfolding onlyQueriesRun_def
proof (intro allI impI)
  fix r' assume st: "task_step l db db'" and i: "\<forall>r. running r db \<longrightarrow> rw_kind r = QUERY" and r': "running r' db'"
  from run_origin[OF st r'] show "rw_kind r' = QUERY"
  proof (elim disjE exE conjE)
    assume "runKept r' db"
    then obtain r where "running r db" "sameRequest r r'" unfolding runKept_def by blast
    with i show ?thesis by (simp add: sameRequest_def)
  qed (simp add: claimsRow_def sameRequest_def)
qed

lemma empty_onlyQueries: "onlyQueriesRun (emptyTasks roles dss)"
  by (simp add: onlyQueriesRun_def running_def emptyTasks_def)

lemma failedQuery_results [simp]: "failedQuery (db\<lparr>td_results := qs\<rparr>) i = failedQuery db i"
  by (simp add: failedQuery_def)

lemma updateWhere_status:
  "(\<And>q. P q \<Longrightarrow> qr_status (f q) \<noteq> s) \<Longrightarrow> q \<in> set (updateWhere P f qs) \<Longrightarrow> qr_status q = s \<Longrightarrow> q \<in> set qs \<and> \<not> P q"
  by (auto simp: updateWhere_def)

definition failExecuting :: "request_row list \<Rightarrow> request_row list" where
  "failExecuting = updateWhere (\<lambda>r. rw_kind r = QUERY \<and> rw_status r = EXECUTING) (\<lambda>r. r\<lparr>rw_status := FAILED\<rparr>)"

definition failRunning :: "int \<Rightarrow> result_row list \<Rightarrow> result_row list" where
  "failRunning expiry = updateWhere (\<lambda>q. qr_status q = Some RUNNING) (orphaned expiry)"

lemma reconcile_tables:
  fixes ev db defines "expiry \<equiv> tx_now ev + RESULT_RETENTION_SEC * SECOND"
  defines "db1 \<equiv> db\<lparr>td_requests := failExecuting (td_requests db), td_results := failRunning expiry (td_results db)\<rparr>"
  shows "snd (reconcileOrphanedExecutions ev db) = db1\<lparr>td_results :=
    updateWhere (\<lambda>q. qr_status q = None \<and> failedQuery db1 (qr_taskId q)) (\<lambda>q. q\<lparr>qr_status := Some SKIPPED, qr_expiresAt := Some expiry\<rparr>)
      (updateWhere (firstUnstarted db1) (orphaned expiry) (td_results db1))\<rparr>"
  by (simp add: reconcileOrphanedExecutions_def Let_def inTx_def bindTx_def updateRequests_def updateResults_def pureTx_def db1_def expiry_def
      failExecuting_def failRunning_def)

lemma orphaned_status [simp]: "qr_status (orphaned expiry q) = Some RUN_FAILED"
  by (simp add: orphaned_def)

lemma reconcile_settles:
  assumes "onlyQueriesRun db" shows "settled (snd (reconcileOrphanedExecutions ev db))
    \<and> td_requests (snd (reconcileOrphanedExecutions ev db)) = map (\<lambda>r. if rw_status r = EXECUTING then r\<lparr>rw_status := FAILED\<rparr> else r) (td_requests db)"
proof -
  define expiry where "expiry = tx_now ev + RESULT_RETENTION_SEC * SECOND"
  define db1 where "db1 = db\<lparr>td_requests := failExecuting (td_requests db), td_results := failRunning expiry (td_results db)\<rparr>"
  let ?q1 = "updateWhere (firstUnstarted db1) (orphaned expiry) (td_results db1)"
  let ?q2 = "updateWhere (\<lambda>q. qr_status q = None \<and> failedQuery db1 (qr_taskId q)) (\<lambda>q. q\<lparr>qr_status := Some SKIPPED, qr_expiresAt := Some expiry\<rparr>) ?q1"
  have e: "snd (reconcileOrphanedExecutions ev db) = db1\<lparr>td_results := ?q2\<rparr>"
    using reconcile_tables[of ev db] by (simp add: expiry_def db1_def)
  have rs: "td_requests db1 = map (\<lambda>r. if rw_status r = EXECUTING then r\<lparr>rw_status := FAILED\<rparr> else r) (td_requests db)"
    using assms by (simp add: db1_def failExecuting_def updateWhere_def onlyQueriesRun_def running_def)
  have run: False if q: "q \<in> set ?q2" "qr_status q = Some RUNNING" for q
  proof -
    from updateWhere_status[OF _ q] have "q \<in> set ?q1" by simp
    from updateWhere_status[OF _ this q(2)] have "q \<in> set (failRunning expiry (td_results db))" by (simp add: db1_def)
    from updateWhere_status[OF _ this[unfolded failRunning_def] q(2)] q(2) show False by simp
  qed
  have none: "\<not> failedQuery db1 (qr_taskId q)" if q: "q \<in> set ?q2" "qr_status q = None" for q
    using updateWhere_status[OF _ q] q(2) by simp
  have "rw_status r \<noteq> EXECUTING" if "r \<in> set (td_requests db1)" for r using that unfolding rs by auto
  with run none show ?thesis unfolding settled_def e by (auto simp: rs)
qed

text \<open>
  C29: A restart settles every interrupted run: after the repair no request is executing and no statement is running, exactly the
  requests that were executing have failed, and a failed request has no statement left that never started.
\<close>

theorem restart_settles:
  "settled (exec sv (OnRun (Reconcile ev)) (runOps sv ops (emptyTasks roles dss)))
   \<and> td_requests (exec sv (OnRun (Reconcile ev)) (runOps sv ops (emptyTasks roles dss)))
     = map (\<lambda>r. if rw_status r = EXECUTING then r\<lparr>rw_status := FAILED\<rparr> else r) (td_requests (runOps sv ops (emptyTasks roles dss)))"
proof -
  have "onlyQueriesRun (runOps sv ops (emptyTasks roles dss))"
    by (rule trace_keeps[where I = onlyQueriesRun]) (simp_all add: onlyQueriesRun_step empty_onlyQueries)
  from reconcile_settles[OF this] show ?thesis by simp
qed

subsection \<open>The expiry sweep\<close>

lemma map_filter_distinct:
  "distinct (List.map_filter f xs) \<Longrightarrow> x \<in> set xs \<Longrightarrow> y \<in> set xs \<Longrightarrow> f x = Some d \<Longrightarrow> f y = Some d \<Longrightarrow> x = y"
proof (induction xs)
  case (Cons a xs)
  have in_set: "z \<in> set xs \<Longrightarrow> f z = Some d \<Longrightarrow> d \<in> set (List.map_filter f xs)" for z
    by (force simp: List.map_filter_def)
  from Cons show ?case using in_set by (auto simp: List.map_filter_simps split: option.splits)
qed simp

lemma pending_conflict:
  assumes "r \<in> set rs" "r' \<in> set rs" "r \<noteq> r'" "rw_kind r = QUERY" "rw_kind r' = QUERY" "rw_status r = PENDING" "rw_status r' = PENDING"
    "rw_sourceDecisionId r = Some d" "rw_sourceDecisionId r' = Some d"
  shows "\<not> pendingUnique rs"
  using map_filter_distinct[OF _ assms(1,2)] assms(3-) unfolding pendingUnique_def by fastforce

definition reopenable :: "int64 \<Rightarrow> request_row \<Rightarrow> bool" where
  "reopenable i r \<longleftrightarrow> rw_id r = i \<and> rw_kind r = QUERY \<and> rw_status r = APPROVED"

definition reopened :: "request_row \<Rightarrow> request_row" where
  "reopened r = r\<lparr>rw_status := PENDING, rw_decidedBy := None, rw_decidedAt := None, rw_approvedAt := None, rw_pull := (rw_pull r)\<lparr>pc_approvedReviewId := None\<rparr>\<rparr>"

lemma reopen_blocked:
  assumes "getRequest i db = Some r" "rw_kind r = QUERY" "rw_status r = APPROVED" "rw_sourceDecisionId r = Some d"
    "r' \<in> set (td_requests db)" "rw_id r' \<noteq> i" "rw_kind r' = QUERY" "rw_status r' = PENDING" "rw_sourceDecisionId r' = Some d"
  shows "reopenQueryRequest ev i actr event db = (Inl UniqueViolation, db)"
proof -
  let ?rs = "updateWhere (\<lambda>r. rw_id r = i \<and> rw_kind r = QUERY \<and> rw_status r = APPROVED) reopened (td_requests db)"
  have r: "r \<in> set (td_requests db)" "rw_id r = i" using getRequest_in[OF assms(1)] by auto
  have "reopened r \<in> set ?rs" using r assms(2,3) by (force simp: updateWhere_def)
  moreover have "r' \<in> set ?rs" using assms(5,6) by (force simp: updateWhere_def)
  moreover have "reopened r \<noteq> r'" using r(2) assms(6) by (auto simp: reopened_def)
  ultimately have "\<not> pendingUnique ?rs"
    by (rule pending_conflict[where d = d]) (use assms in \<open>simp_all add: reopened_def\<close>)
  then show ?thesis
    by (simp add: reopenQueryRequest_def inTx_def bindTx_def updateRequests_def checkPending_def reopened_def[abs_def])
qed

text \<open>
  C36: The sweep that returns approvals older than 24 hours to pending stops at the first of them whose decision has another
  pending request: that update breaks the unique index, the exception ends the sweep, and every expired approval stays
  approved.
\<close>

theorem expiry_sweep_blocked:
  assumes "expiredApprovals now db = i # is" "getRequest i db = Some r" "rw_sourceDecisionId r = Some d"
    "r' \<in> set (td_requests db)" "rw_id r' \<noteq> i" "rw_kind r' = QUERY" "rw_status r' = PENDING" "rw_sourceDecisionId r' = Some d" "wfTasks db"
  shows "expireApprovals now ev db = (Inl UniqueViolation, db)"
proof -
  have "i \<in> set (expiredApprovals now db)" using assms(1) by simp
  then obtain q where q: "q \<in> set (td_requests db)" "rw_id q = i" "isWorkflowApproval q" "rw_status q = APPROVED" by (auto simp: expiredApprovals_def)
  then have "q = r" using getRequest_eq[OF assms(9) q(1,2)] assms(2) by simp
  with q have "reopenQueryRequest (ev i) i SYSTEM_ACTOR EV_EXPIRED db = (Inl UniqueViolation, db)"
    by (intro reopen_blocked[OF assms(2) _ _ assms(3,4,5,6,7,8)]) (simp_all add: isWorkflowApproval_def)
  then show ?thesis by (simp add: expireApprovals_def assms(1) bindTx_def)
qed

subsection \<open>An example\<close>

definition taskServices :: services where
  "taskServices = \<lparr>sv_engine = sampleEngine\<lparr>ce_eval := \<lambda>ps p a r ctx es. Success True [] []\<rparr>,
     sv_directory = \<lparr>dy_isDeactivated = \<lambda>who. False, dy_directRoles = \<lambda>who. [], dy_groupParents = \<lambda>who. \<lparr>up_roles = [], up_groups = [], up_attributes = []\<rparr>\<rparr>,
     sv_resultStorage = True\<rparr>"

definition clockAt :: "int \<Rightarrow> tx_env" where
  "clockAt t = \<lparr>tx_now = t, tx_audit = True, tx_hook = True\<rparr>"

definition sampleQuery :: "int64 \<Rightarrow> query_request" where
  "sampleQuery d = \<lparr>cq_principal = ''ann'', cq_datasourceId = 1, cq_statements = [''SELECT 1''], cq_denyReason = None, cq_sourceDecisionId = Some d,
     cq_reason = None, cq_title = None, cq_evaluatedDecision = None, cq_roleId = Some 1, cq_requestedDurationSec = 3600,
     cq_carriesProtectedLiteral = None, cq_actor = None, cq_source = ''console'', cq_contentHash = None, cq_rawHash = None, cq_origin = None\<rparr>"

definition sampleRoles :: "app_role list" where
  "sampleRoles = [\<lparr>rl_id = 1, rl_name = ''analyst'', rl_deleted = False\<rparr>]"

definition sampleSources :: "task_datasource list" where
  "sampleSources = [\<lparr>ts_id = 1, ts_name = ''crm'', ts_tags = [], ts_deleted = False\<rparr>]"

definition sampleStore :: task_db where
  "sampleStore = emptyTasks sampleRoles sampleSources"

definition bob :: audit_actor where "bob = \<lparr>aa_principal = ''bob'', aa_channel = ''workflow-viewer''\<rparr>"

lemma sample_may [simp]: "mayDecide taskServices now db who ip action r ch"
  by (simp add: mayDecide_def mayOn_def authorizeWithContext_def authorizeAs_def toAuthzDecision_Allow isAuthorized_def taskServices_def Let_def split: prod.split)

lemmas sample_defs = clockAt_def sampleQuery_def sampleRoles_def sampleSources_def sampleStore_def bob_def emptyTasks_def

lemmas open_defs = createQueryRequest_def pendingQueryRequestExists_def insertRequest_def knownRole_def knownDatasource_def queryRow_def newRow_def noText_def noPull_def
  pullOf_def orElse_def liveRoleName_def insertStatements_def childRow_def plainEvent_def recordEvent_def runHook_def inTx_def bindTx_def pureTx_def Let_def

lemmas decide_defs = approveQuery_def workflowRequest_def guardTx_def readTx_def failTx_def getRequest_def isWorkflowApproval_def decideAudited_def decideQueryRequest_def
  updateRequests_def updateWhere_def recorderRecord_def addParticipant_def DECISIONS_def SYSTEM_PREFIX_def

lemmas claim_defs = execute_def fromPullRequest_def SOURCE_GITHUB_def approvalExpired_def APPROVAL_TTL_def SECOND_def claimApproved_def liveDatasource_def statements_def
  liveRoleNames_def claimAndStartRun_def claimExecution_def approvalLive_def pendingChild_def childBy_def startChild_def updateResults_def oneRunning_def metaAt_def

definition sampleOps :: "task_op list" where
  "sampleOps = [OnRequest (RequestQuery (clockAt 0) (sampleQuery 7)), OnRequest (Approve (clockAt 5) ''bob'' None bob 1 1 WORKFLOW_VIEWER)]"

definition sampleApproved :: task_db where
  "sampleApproved = sampleStore
    \<lparr>td_requests := [(queryRow (clockAt 0) (sampleQuery 7) [''analyst''] 1)\<lparr>rw_status := APPROVED, rw_decidedBy := Some ''bob'', rw_decidedAt := Some 5, rw_approvedAt := Some 5\<rparr>],
     td_results := [childRow (clockAt 0) 1 1 0 ''SELECT 1''],
     td_events := [\<lparr>re_requestId = 1, re_kind = EV_REQUESTED, re_actor = Some ''ann'', re_body = None, re_revision = 1, re_origin = ''console'', re_sourceThread = None,
         re_slackRef = None, re_githubReviewId = None\<rparr>,
       \<lparr>re_requestId = 1, re_kind = EV_APPROVED, re_actor = Some ''bob'', re_body = None, re_revision = 1, re_origin = ''workflow-viewer'', re_sourceThread = None,
         re_slackRef = None, re_githubReviewId = None\<rparr>],
     td_participants := [(1, ''bob'', APPROVER)],
     td_audit := [\<lparr>mg_actor = ''bob'', mg_action = TASK_APPROVE, mg_entity = ''AccessRequest'', mg_entityId = 1\<rparr>],
     td_requestSeq := 2, td_resultSeq := 2\<rparr>"

lemma sample_approved: "runOps taskServices sampleOps sampleStore = sampleApproved"
  by (simp add: sampleOps_def sampleApproved_def open_defs sample_defs decide_defs eventConflict_def)

lemma sample_running:
  "\<exists>r. getRequest 1 (exec taskServices (OnRun (Execute (clockAt 9) ''bob'' None 1 WORKFLOW_VIEWER)) sampleApproved) = Some r \<and> rw_status r = EXECUTING \<and> isWorkflowApproval r"
  by (simp add: sampleApproved_def open_defs sample_defs decide_defs claim_defs eventConflict_def) (simp add: taskServices_def)

definition laterOps :: "task_op list" where
  "laterOps = [OnRequest (RequestQuery (clockAt 6) (sampleQuery 7)), OnRequest (RequestQuery (clockAt 6) (sampleQuery 8)),
     OnRequest (Approve (clockAt 7) ''bob'' None bob 3 1 WORKFLOW_VIEWER)]"

lemma sample_rows:
  "td_requests (runOps taskServices laterOps sampleApproved) =
    [(queryRow (clockAt 0) (sampleQuery 7) [''analyst''] 1)\<lparr>rw_status := APPROVED, rw_decidedBy := Some ''bob'', rw_decidedAt := Some 5, rw_approvedAt := Some 5\<rparr>,
     queryRow (clockAt 6) (sampleQuery 7) [''analyst''] 2,
     (queryRow (clockAt 6) (sampleQuery 8) [''analyst''] 3)\<lparr>rw_status := APPROVED, rw_decidedBy := Some ''bob'', rw_decidedAt := Some 7, rw_approvedAt := Some 7\<rparr>]"
  by (simp add: laterOps_def sampleApproved_def open_defs sample_defs decide_defs eventConflict_def)

definition roleRequest :: task_op where
  "roleRequest = OnGrant (RequestRole (clockAt 1) ''ann'' None bob \<lparr>ai_roleId = 1, ai_datasourceId = None, ai_reason = None, ai_requestedDurationSec = 3600\<rparr> ''console'')"

definition roleApproval :: "int64 \<Rightarrow> task_op" where
  "roleApproval i = OnGrant (ApproveRole (clockAt 2) ''bob'' None bob i None WORKFLOW_VIEWER)"

lemma sample_grant:
  "list_ex (\<lambda>g. gt_principal g = ''ann'' \<and> gt_revokedAt g = None) (td_grants (runOps taskServices [roleRequest, roleApproval 2]
     (exec taskServices (OnGrant (RevokeAll (clockAt 3) ''ann'')) (runOps taskServices [roleRequest, roleApproval 1] sampleStore))))"
  by (simp add: roleRequest_def roleApproval_def requestRole_def createRequest_def approveRole_def requireApprover_def approveAudited_def approve_def
     revokeAllForPrincipal_def revokeGrants_def open_defs sample_defs decide_defs eventConflict_def liveDatasource_def)

theorem started_as_approved_witness:
  "\<exists>r'. getRequest 1 (exec taskServices (OnRun (Execute (clockAt 9) ''bob'' None 1 WORKFLOW_VIEWER)) (runOps taskServices sampleOps sampleStore)) = Some r'
    \<and> (\<exists>before a after t who now. sampleOps = before @ a # after
      \<and> rw_approvedAt r' = Some t \<and> rw_decidedBy r' = Some who \<and> rw_executingAt r' = Some now \<and> (fromPullRequest r' \<or> now < t + APPROVAL_TTL)
      \<and> approvedAt taskServices (runOps taskServices before sampleStore) r'
          (texts 1 (exec taskServices (OnRun (Execute (clockAt 9) ''bob'' None 1 WORKFLOW_VIEWER)) (runOps taskServices sampleOps sampleStore))) t who)"
proof -
  let ?op = "OnRun (Execute (clockAt 9) ''bob'' None 1 WORKFLOW_VIEWER)"
  obtain r where r: "getRequest 1 (exec taskServices ?op (runOps taskServices sampleOps sampleStore)) = Some r" "rw_status r = EXECUTING" "isWorkflowApproval r"
    using sample_running unfolding sample_approved by blast
  have "\<not> runs 1 (runOps taskServices sampleOps sampleStore)"
    unfolding sample_approved by (simp add: runs_def sampleApproved_def getRequest_def queryRow_def newRow_def)
  from started_as_approved[of _ taskServices sampleOps sampleRoles sampleSources, folded sampleStore_def, OF refl refl this r] r(1)
  show ?thesis by blast
qed

theorem revocation_is_final_witness:
  "\<exists>g. gt_principal g = ''ann'' \<and> gt_revokedAt g = None \<and> grantedBy taskServices [roleRequest, roleApproval 2]
     (exec taskServices (OnGrant (RevokeAll (clockAt 3) ''ann'')) (runOps taskServices [roleRequest, roleApproval 1] sampleStore)) g"
proof -
  obtain g where g: "g \<in> set (td_grants (runOps taskServices [roleRequest, roleApproval 2]
      (exec taskServices (OnGrant (RevokeAll (clockAt 3) ''ann'')) (runOps taskServices [roleRequest, roleApproval 1] sampleStore))))"
    "gt_principal g = ''ann''" "gt_revokedAt g = None" using sample_grant unfolding list_ex_iff by blast
  from revocation_is_final[of _ taskServices _ _ _ _ sampleRoles sampleSources, folded sampleStore_def, OF g] g(2,3) show ?thesis by blast
qed

theorem expiry_sweep_blocked_witness:
  "expireApprovals (APPROVAL_TTL + 10) clockAt (runOps taskServices laterOps sampleApproved) = (Inl UniqueViolation, runOps taskServices laterOps sampleApproved)
   \<and> expiredApprovals (APPROVAL_TTL + 10) (runOps taskServices laterOps sampleApproved) = [1, 3]"
proof -
  let ?db = "runOps taskServices laterOps sampleApproved"
  have e: "expiredApprovals (APPROVAL_TTL + 10) ?db = [1, 3]"
    by (simp add: expiredApprovals_def sample_rows queryRow_def newRow_def approvalLive_def isWorkflowApproval_def fromPullRequest_def SOURCE_GITHUB_def sampleQuery_def)
  have w: "wfTasks ?db" using runOps_wf[OF reached_wf] sample_approved unfolding sampleStore_def by metis
  have "expireApprovals (APPROVAL_TTL + 10) clockAt ?db = (Inl UniqueViolation, ?db)"
    by (rule expiry_sweep_blocked[OF e, where r' = "queryRow (clockAt 6) (sampleQuery 7) [''analyst''] 2" and d = 7, OF _ _ _ _ _ _ _ w])
      (simp_all add: getRequest_def sample_rows, simp_all add: queryRow_def newRow_def sampleQuery_def, simp)
  with e show ?thesis by blast
qed

end
