(* ===== verification/Spec2Isabelle.thy ===== *)
theory Spec2Isabelle
  imports Detect MysqlRelay Decide TaskTraces
begin

text \<open>
  A verification development for proxy-monster, a gateway for access to databases.

  \<^bold>\<open>The program.\<close> A SQL client reaches a target database through a proxy (\<^verbatim>\<open>goproxy\<close>), which asks the control
  plane (\<^verbatim>\<open>control-plane\<close> in Kotlin, parts of it in Go in \<^verbatim>\<open>cpgo\<close>) to decide each statement. The control plane
  analyses the statement against the catalog it holds for that connection, asks Cedar about the principal's
  policies, records the decision on the audit trail and answers with a verdict: deny, allow, or allow with
  masks and caps, under which the proxy relays the result. Users request roles and query runs that others
  approve; approved queries run under the requested role, and approved roles become grants that the next
  decision reads. The audit trail is a table of rows chained by SHA-256. A separate process (\<^verbatim>\<open>auditmon\<close>) follows
  the table, verifies the chain, signs its heads into a write-once object store, exports the rows, raises
  alerts, and stops signing when a row does not fit until an operator accepts the break.

  \<^bold>\<open>Conventions.\<close> A Go or Kotlin struct is a record with a two-letter prefix on its fields, an enum a datatype. A byte is
  an \<open>8 word\<close>, a string the list of its UTF-8 bytes as characters. \<open>int64\<close> is \<open>int\<close> with the range as a predicate
  and wrap-around written out where the code can overflow. An error is the left side of \<open>('e, 'a) result\<close>.
  State is passed explicitly: the object store, the clock and the webhook endpoint make up a world; the SQL tables
  are lists of rows, and a transaction is a function on them that a failure rolls back. Code that is not part of
  the repository is an argument (Cedar's evaluator, KMS and Ed25519, the AWS client, RSA, the analyzer's
  results, the directory of users); what the code relies on is stated as a hypothesis on it.

  \<^bold>\<open>Foundations.\<close> \<^verbatim>\<open>Prelude\<close> has machine integers, fixed-width encodings, results and prefix codes. \<^verbatim>\<open>Sha256\<close> and
  \<^verbatim>\<open>Sha1\<close> define the hash functions; no property assumes that they are injective, a collision is a possible
  outcome that the statements name. \<^verbatim>\<open>Encoding\<close> has decimal, hexadecimal, base64, JSON documents and the UTF-8
  and UTF-16 conversions of Go and Kotlin.

  \<^bold>\<open>The audit trail.\<close> \<^verbatim>\<open>Canon\<close> is \<^verbatim>\<open>auditmon/canon\<close> and \<^verbatim>\<open>auditmon/sign\<close>: the canonical bytes of a row, which determine
  the event, and the signed digests. \<^verbatim>\<open>Verify\<close> is \<^verbatim>\<open>auditmon/store\<close> and \<^verbatim>\<open>auditmon/verify\<close>: the walks over the table, shown
  equal to one pass over all rows, terminating, and tamper evident up to an explicit SHA-256 collision.
  \<^verbatim>\<open>Worm\<close> is \<^verbatim>\<open>auditmon/worm\<close> with both stores; the locale \<open>object_store\<close> is what its clients rely on, interpreted by
  the memory store. \<^verbatim>\<open>Monitor\<close> is \<^verbatim>\<open>auditmon/monitor\<close>: polling, signing, export, halting and every recovery command;
  inside the locale \<open>monitor_deps\<close> it is shown that only proved heads are signed, that no checkpoint is lost, and
  that a halt ends only on full evidence. \<^verbatim>\<open>Config\<close>, \<^verbatim>\<open>Alert\<close> and \<^verbatim>\<open>Detect\<close> are the packages of those names: validation,
  the durable record of an alert before its delivery, and the anomaly rules as exact counts. \<^verbatim>\<open>AuditWriter\<close> has the
  Kotlin writer (\<^verbatim>\<open>AuditCanonical.kt\<close>, \<^verbatim>\<open>AuditStore.kt\<close>) and the Go writer (\<^verbatim>\<open>cpgo/audit\<close>, \<^verbatim>\<open>cpgo/grpcsvc\<close>) over one table: any
  interleaving of their transactions leaves a trail that verifies, and their encoders agree.

  \<^bold>\<open>The proxy.\<close> \<^verbatim>\<open>Mysqlwire\<close> is \<^verbatim>\<open>mysqlwire\<close>: framing, length-encoded values, handshake messages. \<^verbatim>\<open>Relay\<close> is
  \<^verbatim>\<open>goproxy/relay\<close> and \<^verbatim>\<open>goproxy/spi\<close>: masks, caps, serving a statement under its verdict. \<^verbatim>\<open>MysqlSession\<close> and \<^verbatim>\<open>MysqlRelay\<close>
  are \<^verbatim>\<open>goproxy/mysql/session.go\<close> and \<^verbatim>\<open>relay.go\<close>: the packet loop over a result; the client learns of a masked column
  only what the mask shows, and never more rows or bytes than the caps.

  \<^bold>\<open>The decision.\<close> \<^verbatim>\<open>Cedar\<close> is \<^verbatim>\<open>authz/CedarEngine.kt\<close> around the evaluator, \<^verbatim>\<open>Classification\<close> the shipped
  manifests of system objects (\<^verbatim>\<open>engine/.../classification\<close>), \<^verbatim>\<open>Authz\<close> is \<^verbatim>\<open>authz/Authz.kt\<close>, \<^verbatim>\<open>Query\<close> the decision from
  the analyzer's facts (\<^verbatim>\<open>Query.kt\<close>), \<^verbatim>\<open>ConnectionCatalog\<close> the held catalogs with their pooled fragments
  (\<^verbatim>\<open>ConnectionCatalog.kt\<close>), and \<^verbatim>\<open>Decide\<close> the call from the proxy's client (\<^verbatim>\<open>goproxy/cp\<close>) through
  \<^verbatim>\<open>ControlPlaneGrpcService.decide\<close> and \<^verbatim>\<open>ConnectionDecide.kt\<close> to the recorded verdict. A statement is served only by a
  recorded decision, made on a fresh catalog, that Cedar's answers permit, and its masks bind.

  \<^bold>\<open>Tasks, approvals and grants.\<close> \<^verbatim>\<open>Tasks\<close> has every operation of \<^verbatim>\<open>Access.kt\<close>, \<^verbatim>\<open>QueryResultStore.kt\<close> and \<^verbatim>\<open>RequestEvents.kt\<close> as a
  transaction. \<^verbatim>\<open>TaskMachine\<close> is their specification, a labelled step relation on the tables with its invariants, and
  shows each operation to be a step; the locale \<open>tx_relation\<close> carries relations between stores through transactions.
  \<^verbatim>\<open>Approvals\<close> has the services on top (\<^verbatim>\<open>ApprovalService.kt\<close>, \<^verbatim>\<open>AccessService.kt\<close>, \<^verbatim>\<open>RequestThreads.kt\<close>,
  \<^verbatim>\<open>RoleResolver.kt\<close>, parts of \<^verbatim>\<open>EditorTaskService.kt\<close>, and \<^verbatim>\<open>ReportCompletion\<close> of \<^verbatim>\<open>cpgo/grpcsvc\<close>) and every sequence of
  their calls. \<^verbatim>\<open>TaskTraces\<close> shows that each call is a step Cedar permitted, hence after any sequence: a request
  starts at most once, as it was approved and within its time; runs in one scope exclude each other; roles come
  from approvals only; revoking is final; a restart settles every run. It also shows how the expiry sweep gets stuck.

  \<^bold>\<open>Bounds.\<close> Loops are recursive functions with termination proofs. Where the code bounds a loop, the bound is the code's: three
  rounds of commands in the client's \<^verbatim>\<open>Decide\<close>, the retries of a webhook. The paged walk over the trail, which a
  changing table could keep busy, is a partial function into \<open>option\<close>, and \<^verbatim>\<open>Verify\<close> shows that it returns on a fixed table.

  \<^bold>\<open>Simplifications.\<close> Calls of the services are atomic: the checks before a transaction are taken with it, which leaves the
  conditions inside each SQL statement to do what they do. Locks are atomic operations. The order of a Go map is the order of
  insertion. Log lines, error texts of libraries and the text of an audit summary are left out.

  \<^bold>\<open>Not modelled.\<close> The analyzer; the PostgreSQL and Athena proxies, connection handling, TLS and start-up of the MySQL
  proxy; login, sessions, tokens and administration; notifications, the GitHub flow and the MCP server; encryption of
  stored results and their viewing; the other Go routes of \<^verbatim>\<open>cpgo\<close>; the desktop client and the web console. They are
  third-party parsers and protocols, I/O, or callers of what is modelled.
\<close>

end
